(* ===== verification/GoLib.thy ===== *)
theory GoLib
  imports Prelude
begin

text \<open>
  The parts of Go's standard library the modelled code calls: \<open>strings\<close>, \<open>path\<close> and
  \<open>path/filepath\<close> on Unix, \<open>strconv\<close> and \<open>encoding/base64\<close>. Each function is written
  as the library computes it, on byte strings.
\<close>

section \<open>strings\<close>

definition hasPrefix :: "gostring \<Rightarrow> gostring \<Rightarrow> bool" where
  "hasPrefix s p \<longleftrightarrow> take (length p) s = p"

definition hasSuffix :: "gostring \<Rightarrow> gostring \<Rightarrow> bool" where
  "hasSuffix s p \<longleftrightarrow> length p \<le> length s \<and> drop (length s - length p) s = p"

definition trimPrefix :: "gostring \<Rightarrow> gostring \<Rightarrow> gostring" where
  "trimPrefix s p = (if hasPrefix s p then drop (length p) s else s)"

definition trimSuffix :: "gostring \<Rightarrow> gostring \<Rightarrow> gostring" where
  "trimSuffix s p = (if hasSuffix s p then take (length s - length p) s else s)"

fun containsStr :: "gostring \<Rightarrow> gostring \<Rightarrow> bool" where
  "containsStr [] sub = (sub = [])"
| "containsStr (c # s) sub = (hasPrefix (c # s) sub \<or> containsStr s sub)"

text \<open>\<open>strings.Split\<close> with a separator of one byte; never empty, as in Go.\<close>

fun splitOn :: "char \<Rightarrow> gostring \<Rightarrow> gostring list" where
  "splitOn sep [] = [[]]"
| "splitOn sep (c # s) =
     (if c = sep then [] # splitOn sep s
      else (case splitOn sep s of [] \<Rightarrow> [[c]] | p # ps \<Rightarrow> (c # p) # ps))"

fun joinWith :: "gostring \<Rightarrow> gostring list \<Rightarrow> gostring" where
  "joinWith sep [] = []"
| "joinWith sep [p] = p"
| "joinWith sep (p # q # ps) = p @ sep @ joinWith sep (q # ps)"

definition trimRightChar :: "gostring \<Rightarrow> char \<Rightarrow> gostring" where
  "trimRightChar s c = rev (dropWhile (\<lambda>x. x = c) (rev s))"

text \<open>The ASCII white space of \<open>strings.TrimSpace\<close>.\<close>

definition isSpace :: "char \<Rightarrow> bool" where
  "isSpace c \<longleftrightarrow> of_char c \<in> {9, 10, 11, 12, 13, 32 :: nat}"

definition trimSpace :: "gostring \<Rightarrow> gostring" where
  "trimSpace s = rev (dropWhile isSpace (rev (dropWhile isSpace s)))"

text \<open>\<open>strings.ToLower\<close> on ASCII; other bytes are left as they are.\<close>

definition lowerChar :: "char \<Rightarrow> char" where
  "lowerChar c =
     (let n = of_char c :: nat
      in if 65 \<le> n \<and> n \<le> 90 then char_of (n + 32) else c)"

definition toLower :: "gostring \<Rightarrow> gostring" where
  "toLower s = map lowerChar s"

definition indexByte :: "gostring \<Rightarrow> char \<Rightarrow> nat option" where
  "indexByte s c =
     (let n = length (takeWhile (\<lambda>x. x \<noteq> c) s) in if n < length s then Some n else None)"

text \<open>The part before the last separator, without it, and the part after it.\<close>

definition beforeLast :: "char \<Rightarrow> gostring \<Rightarrow> gostring" where
  "beforeLast c s = rev (drop 1 (dropWhile (\<lambda>x. x \<noteq> c) (rev s)))"

definition afterLast :: "char \<Rightarrow> gostring \<Rightarrow> gostring" where
  "afterLast c s = rev (takeWhile (\<lambda>x. x \<noteq> c) (rev s))"

lemma splitOn_not_Nil [simp]: "splitOn sep s \<noteq> []"
  by (induction s) (auto split: list.splits)

lemma joinWith_Cons: "ps \<noteq> [] \<Longrightarrow> joinWith sep (p # ps) = p @ sep @ joinWith sep ps"
  by (cases ps) simp_all

lemma joinWith_head: "joinWith sep ((c # p) # ps) = c # joinWith sep (p # ps)"
  by (cases ps) simp_all

lemma joinWith_splitOn: "joinWith [sep] (splitOn sep s) = s"
  by (induction s) (auto simp: joinWith_Cons joinWith_head split: list.splits)

lemma splitOn_no_sep: "p \<in> set (splitOn sep s) \<Longrightarrow> sep \<notin> set p"
  by (induction s arbitrary: p) (auto split: list.splits if_splits)

lemma splitOn_single: "sep \<notin> set s \<Longrightarrow> splitOn sep s = [s]"
  by (induction s) auto

lemma splitOn_append_sep:
  "sep \<notin> set t \<Longrightarrow> splitOn sep (s @ sep # t) = splitOn sep s @ [t]"
proof (induction s)
  case Nil
  then show ?case by (simp add: splitOn_single)
next
  case (Cons c s)
  then show ?case by (auto split: list.splits)
qed

lemma last_splitOn_append_sep:
  "sep \<notin> set t \<Longrightarrow> last (splitOn sep (s @ sep # t)) = t"
  by (simp add: splitOn_append_sep)

lemma hasPrefix_append [simp, intro]: "hasPrefix (p @ s) p"
  by (simp add: hasPrefix_def)

lemma hasPrefix_iff: "hasPrefix s p \<longleftrightarrow> (\<exists>r. s = p @ r)"
  unfolding hasPrefix_def by (metis append_eq_conv_conj append_take_drop_id)

lemma trimPrefix_append [simp]: "trimPrefix (p @ s) p = s"
  by (simp add: trimPrefix_def)

lemma hasPrefix_Nil [simp]: "hasPrefix s []"
  by (simp add: hasPrefix_def)

lemma hasPrefix_Cons [simp]: "hasPrefix (c # s) (d # p) \<longleftrightarrow> c = d \<and> hasPrefix s p"
  by (auto simp: hasPrefix_def)

lemma containsStr_char: "containsStr s [c] \<longleftrightarrow> c \<in> set s"
  by (induction s) (auto simp: hasPrefix_def)

lemma hasSuffix_iff: "hasSuffix s p \<longleftrightarrow> (\<exists>r. s = r @ p)"
  unfolding hasSuffix_def
  by (metis append_eq_conv_conj append_take_drop_id le_add2 length_append
      length_drop add_diff_cancel_right' diff_diff_cancel)

lemma hasSuffix_single: "hasSuffix s [c] \<longleftrightarrow> s \<noteq> [] \<and> last s = c"
  unfolding hasSuffix_iff by (metis append_butlast_last_id last_snoc snoc_eq_iff_butlast)

section \<open>path\<close>

text \<open>
  \<open>path.Clean\<close> walks the slash-separated elements: empty and \<open>.\<close> elements vanish,
  \<open>..\<close> removes the element before it, and is kept only at the start of a path that is
  not rooted. The accumulator holds the kept elements, the last one first.
\<close>

definition cleanStep :: "bool \<Rightarrow> gostring list \<Rightarrow> gostring \<Rightarrow> gostring list" where
  "cleanStep rooted out p =
     (if p = [] \<or> p = ''.'' then out
      else if p = ''..'' then
        (case out of
           [] \<Rightarrow> (if rooted then [] else [''..''])
         | q # qs \<Rightarrow> (if q = ''..'' then ''..'' # out else qs))
      else p # out)"

definition cleanElems :: "bool \<Rightarrow> gostring list \<Rightarrow> gostring list" where
  "cleanElems rooted ps = rev (foldl (cleanStep rooted) [] ps)"

definition isRooted :: "gostring \<Rightarrow> bool" where
  "isRooted s \<longleftrightarrow> (case s of [] \<Rightarrow> False | c # _ \<Rightarrow> c = CHR ''/'')"

definition pathClean :: "gostring \<Rightarrow> gostring" where
  "pathClean s =
     (if s = [] then ''.''
      else let es = cleanElems (isRooted s) (splitOn (CHR ''/'') s) in
        if isRooted s then CHR ''/'' # joinWith ''/'' es
        else if es = [] then ''.'' else joinWith ''/'' es)"

definition pathBase :: "gostring \<Rightarrow> gostring" where
  "pathBase s =
     (if s = [] then ''.''
      else let t = trimRightChar s (CHR ''/''); b = afterLast (CHR ''/'') t in
        if b = [] then ''/'' else b)"

text \<open>\<open>path.Dir\<close> cleans everything up to and including the final slash.\<close>

definition pathDir :: "gostring \<Rightarrow> gostring" where
  "pathDir s = pathClean (rev (dropWhile (\<lambda>x. x \<noteq> CHR ''/'') (rev s)))"

text \<open>\<open>path.Join\<close> of two elements.\<close>

definition pathJoin :: "gostring \<Rightarrow> gostring \<Rightarrow> gostring" where
  "pathJoin a b =
     (if a = [] then (if b = [] then [] else pathClean b)
      else pathClean (a @ ''/'' @ b))"

text \<open>\<open>filepath.Ext\<close>: from the final dot of the final element, or nothing.\<close>

definition pathExt :: "gostring \<Rightarrow> gostring" where
  "pathExt s =
     (let b = afterLast (CHR ''/'') s
      in if CHR ''.'' \<in> set b then CHR ''.'' # afterLast (CHR ''.'') b else [])"

text \<open>A clean element: not empty, not a dot element, without slash.\<close>

definition cleanElem :: "gostring \<Rightarrow> bool" where
  "cleanElem p \<longleftrightarrow> p \<noteq> [] \<and> p \<noteq> ''.'' \<and> p \<noteq> ''..'' \<and> CHR ''/'' \<notin> set p"

lemma cleanStep_rooted_clean:
  "list_all cleanElem out \<Longrightarrow> CHR ''/'' \<notin> set p \<Longrightarrow> list_all cleanElem (cleanStep True out p)"
  by (auto simp: cleanStep_def cleanElem_def split: list.splits)

lemma foldl_cleanStep_rooted:
  "list_all cleanElem out \<Longrightarrow> \<forall>p\<in>set ps. CHR ''/'' \<notin> set p \<Longrightarrow>
   list_all cleanElem (foldl (cleanStep True) out ps)"
  by (induction ps arbitrary: out) (auto simp: cleanStep_rooted_clean)

lemma cleanElems_rooted_clean:
  "list_all cleanElem (cleanElems True (splitOn (CHR ''/'') s))"
  unfolding cleanElems_def list_all_rev
  by (rule foldl_cleanStep_rooted) (auto dest: splitOn_no_sep)

lemma foldl_cleanStep_id:
  "list_all cleanElem ps \<Longrightarrow> foldl (cleanStep r) out ps = rev ps @ out"
  by (induction ps arbitrary: out) (auto simp: cleanStep_def cleanElem_def)

lemma splitOn_front: "sep \<notin> set p \<Longrightarrow> splitOn sep (p @ sep # t) = p # splitOn sep t"
  by (induction p) auto

lemma splitOn_joinWith:
  "ps \<noteq> [] \<Longrightarrow> \<forall>p\<in>set ps. sep \<notin> set p \<Longrightarrow> splitOn sep (joinWith [sep] ps) = ps"
proof (induction ps)
  case Nil
  then show ?case by simp
next
  case (Cons p ps)
  then show ?case
    by (cases "ps = []") (simp_all add: splitOn_single joinWith_Cons splitOn_front)
qed

text \<open>A rooted clean path, and the elements it consists of.\<close>

definition pathOf :: "gostring list \<Rightarrow> gostring" where
  "pathOf es = CHR ''/'' # joinWith ''/'' es"

lemma pathClean_rooted:
  "isRooted s \<Longrightarrow> pathClean s = pathOf (cleanElems True (splitOn (CHR ''/'') s))"
  by (cases s) (auto simp: pathClean_def isRooted_def pathOf_def Let_def)

lemma splitOn_pathOf:
  "list_all cleanElem es \<Longrightarrow> splitOn (CHR ''/'') (pathOf es) = [] # (if es = [] then [[]] else es)"
  by (auto simp: pathOf_def splitOn_joinWith list_all_iff cleanElem_def)

lemma isRooted_pathOf [simp]: "isRooted (pathOf es)"
  by (simp add: isRooted_def pathOf_def)

lemma pathClean_pathOf: "list_all cleanElem es \<Longrightarrow> pathClean (pathOf es) = pathOf es"
  by (simp add: pathClean_rooted splitOn_pathOf cleanElems_def foldl_cleanStep_id)
     (simp add: cleanStep_def)

lemma pathClean_idem_rooted: "isRooted s \<Longrightarrow> pathClean (pathClean s) = pathClean s"
  by (metis pathClean_rooted pathClean_pathOf cleanElems_rooted_clean)

lemma pathOf_inj:
  "list_all cleanElem es \<Longrightarrow> list_all cleanElem fs \<Longrightarrow> pathOf es = pathOf fs \<longleftrightarrow> es = fs"
proof
  assume c: "list_all cleanElem es" "list_all cleanElem fs" and e: "pathOf es = pathOf fs"
  have "(if es = [] then [[]] else es) = (if fs = [] then [[]] else fs)"
    using splitOn_pathOf [OF c(1)] splitOn_pathOf [OF c(2)] e by simp
  with c show "es = fs"
    by (auto simp: cleanElem_def split: if_splits)
qed simp

lemma splitOn_append: "splitOn sep (a @ sep # b) = splitOn sep a @ splitOn sep b"
  by (induction a) (auto split: list.splits)

lemma cleanElem_split [simp]: "cleanElem n \<Longrightarrow> splitOn (CHR ''/'') n = [n]"
  by (simp add: cleanElem_def splitOn_single)

text \<open>Joining a clean element to a clean rooted path appends it.\<close>

lemma pathJoin_pathOf:
  assumes "list_all cleanElem es" and "cleanElem n"
  shows "pathJoin (pathOf es) n = pathOf (es @ [n])"
proof -
  have ne: "pathOf es \<noteq> []" by (simp add: pathOf_def)
  have "pathJoin (pathOf es) n = pathClean (pathOf es @ ''/'' @ n)"
    using ne by (simp add: pathJoin_def)
  also have "\<dots> = pathOf (cleanElems True (splitOn (CHR ''/'') (pathOf es) @ [n]))"
    using assms(2) splitOn_append [of "CHR ''/''" "pathOf es" n]
    by (subst pathClean_rooted) (simp_all add: isRooted_def pathOf_def)
  also have "cleanElems True (splitOn (CHR ''/'') (pathOf es) @ [n]) = es @ [n]"
    using assms
    by (simp add: splitOn_pathOf cleanElems_def foldl_cleanStep_id)
       (auto simp: cleanStep_def cleanElem_def)
  finally show ?thesis .
qed

lemma pathJoin_root: "pathJoin [] ''/'' = pathOf []"
  by (simp add: pathJoin_def pathClean_def isRooted_def pathOf_def cleanElems_def cleanStep_def)

section \<open>strconv\<close>

definition digitChar :: "nat \<Rightarrow> char" where
  "digitChar d = char_of (48 + d)"

fun formatNat :: "nat \<Rightarrow> gostring" where
  "formatNat n = (if n < 10 then [digitChar n] else formatNat (n div 10) @ [digitChar (n mod 10)])"

declare formatNat.simps [simp del]

definition formatInt :: "int \<Rightarrow> gostring" where
  "formatInt i = (if i < 0 then CHR ''-'' # formatNat (nat (- i)) else formatNat (nat i))"

definition digitVal :: "char \<Rightarrow> nat option" where
  "digitVal c =
     (let n = of_char c :: nat in if 48 \<le> n \<and> n \<le> 57 then Some (n - 48) else None)"

fun parseDigits :: "nat \<Rightarrow> gostring \<Rightarrow> nat option" where
  "parseDigits acc [] = Some acc"
| "parseDigits acc (c # s) =
     (case digitVal c of None \<Rightarrow> None | Some d \<Rightarrow> parseDigits (acc * 10 + d) s)"

text \<open>\<open>strconv.ParseUint(s, 10, 64)\<close> and \<open>strconv.ParseInt(s, 10, 64)\<close>; \<open>None\<close> is the error.\<close>

definition parseUint :: "gostring \<Rightarrow> nat option" where
  "parseUint s =
     (if s = [] then None
      else case parseDigits 0 s of
        None \<Rightarrow> None
      | Some n \<Rightarrow> (if n < 2 ^ 64 then Some n else None))"

definition parseInt :: "gostring \<Rightarrow> int option" where
  "parseInt s =
     (let neg = (s \<noteq> [] \<and> hd s = CHR ''-'');
          body = (if s \<noteq> [] \<and> (hd s = CHR ''-'' \<or> hd s = CHR ''+'') then tl s else s)
      in if body = [] then None
         else case parseDigits 0 body of
           None \<Rightarrow> None
         | Some n \<Rightarrow>
             (if neg then (if n \<le> 2 ^ 63 then Some (- int n) else None)
              else (if n < 2 ^ 63 then Some (int n) else None)))"

lemma digitVal_digitChar [simp]: "d < 10 \<Longrightarrow> digitVal (digitChar d) = Some d"
  by (simp add: digitVal_def digitChar_def of_char_of)

lemma digitChar_cases: "d < 10 \<Longrightarrow> digitChar d \<in> set ''0123456789''"
proof -
  have "list_all (\<lambda>d. digitChar d \<in> set ''0123456789'') [0..<10]"
    by code_simp
  then show "d < 10 \<Longrightarrow> digitChar d \<in> set ''0123456789''"
    by (simp add: list_all_iff del: upt_rec_numeral)
qed

lemma formatNat_chars: "set (formatNat n) \<subseteq> set ''0123456789''"
proof (induction n rule: formatNat.induct)
  case (1 n)
  show ?case
  proof (cases "n < 10")
    case True
    then show ?thesis using digitChar_cases [of n] by (simp add: formatNat.simps [of n])
  next
    case False
    then show ?thesis
      using 1 digitChar_cases [of "n mod 10"] by (simp add: formatNat.simps [of n])
  qed
qed

lemma formatNat_not_Nil [simp]: "formatNat n \<noteq> []"
  by (subst formatNat.simps) simp

lemma parseDigits_append:
  "parseDigits acc (s @ t) = (case parseDigits acc s of None \<Rightarrow> None | Some a \<Rightarrow> parseDigits a t)"
  by (induction s arbitrary: acc) (auto split: option.splits)

lemma parseDigits_formatNat: "parseDigits 0 (formatNat n) = Some n"
proof (induction n rule: formatNat.induct)
  case (1 n)
  then show ?case
    by (cases "n < 10")
       (simp_all add: formatNat.simps [of n] parseDigits_append)
qed

lemma formatNat_inj: "formatNat i = formatNat j \<Longrightarrow> i = j"
  by (metis parseDigits_formatNat option.inject)

lemma formatNat_hd: "hd (formatNat n) \<in> set ''0123456789''"
  using formatNat_chars [of n] hd_in_set [OF formatNat_not_Nil [of n]] by blast

lemma parseInt_formatInt:
  assumes "- (2 ^ 63) \<le> i" and "i < 2 ^ 63"
  shows "parseInt (formatInt i) = Some i"
proof (cases "i < 0")
  case True
  then show ?thesis
    using assms by (simp add: formatInt_def parseInt_def parseDigits_formatNat)
next
  case False
  have "hd (formatNat (nat i)) \<noteq> CHR ''-''" "hd (formatNat (nat i)) \<noteq> CHR ''+''"
    using formatNat_hd [of "nat i"] by auto
  then show ?thesis
    using False assms by (simp add: formatInt_def parseInt_def parseDigits_formatNat)
qed

lemma formatInt_no_colon: "CHR '':'' \<notin> set (formatInt i)"
  using formatNat_chars [of "nat i"] formatNat_chars [of "nat (- i)"]
  by (auto simp: formatInt_def)

lemma formatInt_not_Nil [simp]: "formatInt i \<noteq> []"
  by (simp add: formatInt_def)

lemma parseUint_formatNat: "n < 2 ^ 64 \<Longrightarrow> parseUint (formatNat n) = Some n"
  by (simp add: parseUint_def parseDigits_formatNat)

section \<open>encoding/base64\<close>

text \<open>\<open>base64.URLEncoding\<close>: the URL alphabet, padded with \<open>=\<close>.\<close>

definition b64Char :: "nat \<Rightarrow> char" where
  "b64Char n =
     ''ABCDEFGHIJKLMNOPQRSTUVWXYZabcdefghijklmnopqrstuvwxyz0123456789-_'' ! (n mod 64)"

fun b64Encode :: "gostring \<Rightarrow> gostring" where
  "b64Encode [] = []"
| "b64Encode [a] =
     (let n = of_char a * 65536 :: nat
      in [b64Char (n div 262144), b64Char (n div 4096), CHR ''='', CHR ''=''])"
| "b64Encode [a, b] =
     (let n = of_char a * 65536 + of_char b * 256 :: nat
      in [b64Char (n div 262144), b64Char (n div 4096), b64Char (n div 64), CHR ''=''])"
| "b64Encode (a # b # c # s) =
     (let n = of_char a * 65536 + of_char b * 256 + of_char c :: nat
      in b64Char (n div 262144) # b64Char (n div 4096) # b64Char (n div 64) # b64Char n # b64Encode s)"

lemma b64Char_not_colon: "b64Char n \<noteq> CHR '':''"
proof -
  let ?al = "''ABCDEFGHIJKLMNOPQRSTUVWXYZabcdefghijklmnopqrstuvwxyz0123456789-_''"
  have "n mod 64 < length ?al" by simp
  then have "b64Char n \<in> set ?al"
    unfolding b64Char_def by (rule nth_mem)
  then show ?thesis by auto
qed

lemma b64Encode_no_colon: "CHR '':'' \<notin> set (b64Encode s)"
proof (induction s rule: b64Encode.induct)
  case (4 a b c s)
  then show ?case
    using b64Char_not_colon [symmetric] by (auto simp: Let_def)
qed (use b64Char_not_colon [symmetric] in \<open>auto simp: Let_def\<close>)

end
