(* ===== verification/Db.thy ===== *)
theory Db
  imports GoLib
begin

text \<open>
  The database: the rows the structs of \<open>models/\<close> describe, the tables as lists of rows, and
  the interface of the ORM (gorm, a third-party package) the models call.

  gorm is a parameter: a record of statements per table, each of which may fail. What the
  code relies on is the locale \<open>gorm_table\<close>, gorm's and MySQL's documented behaviour: a query
  returns the rows that satisfy its condition, in some order; a failed statement changes
  nothing; an insert stores the columns of the row under a fresh key; an update rewrites the
  matching rows and fails when a column would leave its range; a delete says how many rows it
  removed. A table holds the rows that are not soft-deleted. \<open>mem_gorm\<close> is an instance on
  lists, with any schedule of failures.

  Fields of the structs tagged \<open>gorm:"-"\<close> are in the records, but not stored.
\<close>

section \<open>Rows\<close>

text \<open>\<open>models/policy.go\<close>; the Redis/JSON fields no modelled code reads are left out.\<close>

record policy =
  p_ID :: uint
  p_Name :: gostring
  p_Type :: gostring
  p_Server :: gostring
  p_BaseURL :: gostring
  p_AccessKey :: gostring
  p_SecretKey :: gostring
  p_MaxSize :: u64
  p_AutoRename :: bool
  p_DirNameRule :: gostring
  p_FileNameRule :: gostring
  p_IsOriginLinkEnable :: bool
  p_FileType :: "gostring list"
  p_ChunkSize :: u64
  p_PlaceholderWithSize :: bool

definition zero_policy :: policy where
  "zero_policy = \<lparr>p_ID = 0, p_Name = [], p_Type = [], p_Server = [], p_BaseURL = [], p_AccessKey = [],
     p_SecretKey = [], p_MaxSize = 0,
     p_AutoRename = False, p_DirNameRule = [], p_FileNameRule = [], p_IsOriginLinkEnable = False,
     p_FileType = [], p_ChunkSize = 0, p_PlaceholderWithSize = False\<rparr>"

text \<open>\<open>models/file.go\<close>\<close>

record file_row =
  f_ID :: uint
  f_CreatedAt :: unix_time
  f_UpdatedAt :: unix_time
  f_Name :: gostring
  f_SourceName :: gostring
  f_UserID :: uint
  f_Size :: u64
  f_PicInfo :: gostring
  f_FolderID :: uint
  f_PolicyID :: uint
  f_UploadSessionID :: "gostring option"
  f_Policy :: policy
  f_Position :: gostring

definition zero_file :: file_row where
  "zero_file = \<lparr>f_ID = 0, f_CreatedAt = 0, f_UpdatedAt = 0, f_Name = [], f_SourceName = [],
     f_UserID = 0, f_Size = 0, f_PicInfo = [], f_FolderID = 0, f_PolicyID = 0,
     f_UploadSessionID = None, f_Policy = zero_policy, f_Position = []\<rparr>"

text \<open>\<open>models/folder.go\<close>\<close>

record folder_row =
  d_ID :: uint
  d_CreatedAt :: unix_time
  d_UpdatedAt :: unix_time
  d_Name :: gostring
  d_ParentID :: "uint option"
  d_OwnerID :: uint
  d_Position :: gostring

definition zero_folder :: folder_row where
  "zero_folder = \<lparr>d_ID = 0, d_CreatedAt = 0, d_UpdatedAt = 0, d_Name = [], d_ParentID = None,
     d_OwnerID = 0, d_Position = []\<rparr>"

text \<open>\<open>models/group.go\<close>\<close>

record group_row =
  g_ID :: uint
  g_Name :: gostring
  g_MaxStorage :: u64
  g_ShareEnabled :: bool
  g_WebDAVEnabled :: bool
  g_SpeedLimit :: int
  g_ArchiveDownload :: bool
  g_ArchiveTask :: bool
  g_CompressSize :: u64
  g_DecompressSize :: u64
  g_ShareDownload :: bool
  g_SourceBatchSize :: int
  g_OneTimeDownload :: bool
  g_Policies :: gostring
  g_Aria2 :: bool
  g_Aria2BatchSize :: int

definition zero_group :: group_row where
  "zero_group = \<lparr>g_ID = 0, g_Name = [], g_MaxStorage = 0, g_ShareEnabled = False,
     g_WebDAVEnabled = False, g_SpeedLimit = 0, g_ArchiveDownload = False, g_ArchiveTask = False,
     g_CompressSize = 0, g_DecompressSize = 0, g_ShareDownload = False, g_SourceBatchSize = 0,
     g_OneTimeDownload = False, g_Policies = [], g_Aria2 = False, g_Aria2BatchSize = 0\<rparr>"

text \<open>\<open>models/user.go\<close>\<close>

record user_row =
  u_ID :: uint
  u_Email :: gostring
  u_Nick :: gostring
  u_Password :: gostring
  u_Status :: int
  u_GroupID :: uint
  u_Storage :: u64
  u_TwoFactor :: gostring
  u_Avatar :: gostring
  u_Options :: gostring
  u_ProfileOff :: bool
  u_PreferredTheme :: gostring
  u_Group :: group_row
  u_Policy :: policy

definition zero_user :: user_row where
  "zero_user = \<lparr>u_ID = 0, u_Email = [], u_Nick = [], u_Password = [], u_Status = 0, u_GroupID = 0,
     u_Storage = 0, u_TwoFactor = [], u_Avatar = [], u_Options = [], u_ProfileOff = False,
     u_PreferredTheme = [], u_Group = zero_group, u_Policy = zero_policy\<rparr>"

text \<open>\<open>models/share.go\<close>\<close>

record share_row =
  s_ID :: uint
  s_CreatedAt :: unix_time
  s_Password :: gostring
  s_IsDir :: bool
  s_UserID :: uint
  s_SourceID :: uint
  s_Views :: int
  s_Downloads :: int
  s_RemainDownloads :: int
  s_Expires :: "unix_time option"
  s_PreviewEnabled :: bool
  s_SourceName :: gostring
  s_User :: user_row
  s_File :: file_row
  s_Folder :: folder_row

text \<open>\<open>models/setting.go\<close>, \<open>models/task.go\<close>, \<open>models/tag.go\<close>, \<open>models/webdav.go\<close>\<close>

record setting_row =
  st_ID :: uint
  st_Type :: gostring
  st_Name :: gostring
  st_Value :: gostring

record task_row =
  t_ID :: uint
  t_Status :: int
  t_Type :: int
  t_UserID :: uint
  t_Progress :: int
  t_Error :: gostring
  t_Props :: gostring

definition zero_task :: task_row where
  "zero_task = \<lparr>t_ID = 0, t_Status = 0, t_Type = 0, t_UserID = 0, t_Progress = 0, t_Error = [], t_Props = []\<rparr>"

record tag_row =
  tag_ID :: uint
  tag_Name :: gostring
  tag_Icon :: gostring
  tag_Color :: gostring
  tag_Type :: int
  tag_Expression :: gostring
  tag_UserID :: uint

definition zero_tag :: tag_row where
  "zero_tag = \<lparr>tag_ID = 0, tag_Name = [], tag_Icon = [], tag_Color = [], tag_Type = 0,
     tag_Expression = [], tag_UserID = 0\<rparr>"

record webdav_row =
  w_ID :: uint
  w_Name :: gostring
  w_Password :: gostring
  w_UserID :: uint
  w_Root :: gostring

definition zero_webdav :: webdav_row where
  "zero_webdav = \<lparr>w_ID = 0, w_Name = [], w_Password = [], w_UserID = 0, w_Root = []\<rparr>"

text \<open>\<open>models/download.go\<close>, \<open>models/node.go\<close>; what is read from \<open>Attrs\<close> and \<open>Aria2Options\<close> is left out.\<close>

record download_row =
  dl_ID :: uint
  dl_Status :: int
  dl_Type :: int
  dl_Source :: gostring
  dl_TotalSize :: u64
  dl_DownloadedSize :: u64
  dl_GID :: gostring
  dl_Speed :: int
  dl_Parent :: gostring
  dl_Attrs :: gostring
  dl_Error :: gostring
  dl_Dst :: gostring
  dl_UserID :: uint
  dl_TaskID :: uint
  dl_NodeID :: uint

definition zero_download :: download_row where
  "zero_download = \<lparr>dl_ID = 0, dl_Status = 0, dl_Type = 0, dl_Source = [], dl_TotalSize = 0, dl_DownloadedSize = 0,
     dl_GID = [], dl_Speed = 0, dl_Parent = [], dl_Attrs = [], dl_Error = [], dl_Dst = [], dl_UserID = 0,
     dl_TaskID = 0, dl_NodeID = 0\<rparr>"

record node_row =
  n_ID :: uint
  n_Status :: int
  n_Name :: gostring
  n_Type :: int
  n_Server :: gostring
  n_SlaveKey :: gostring
  n_MasterKey :: gostring
  n_Aria2Enabled :: bool
  n_Aria2Options :: gostring
  n_Rank :: int

section \<open>The tables\<close>

record db =
  files :: "file_row list"
  folders :: "folder_row list"
  users :: "user_row list"
  groups :: "group_row list"
  policies :: "policy list"
  shares :: "share_row list"
  settings :: "setting_row list"
  tasks :: "task_row list"
  tags :: "tag_row list"
  webdavs :: "webdav_row list"
  download_rows :: "download_row list"
  node_rows :: "node_row list"

section \<open>gorm\<close>

datatype db_error = ErrRecordNotFound | ErrMissingWhereClause | ErrDriver nat

text \<open>
  One table's statements: \<open>Find\<close> into a slice, \<open>First\<close>, \<open>Create\<close>, \<open>Updates\<close> (which also sets
  \<open>updated_at\<close>), \<open>UpdateColumns\<close> (which does not), \<open>Delete\<close> with the number of rows, \<open>Count\<close>,
  \<open>Page\<close>, which is \<open>Find\<close> with an order, a limit and an offset, and \<open>Save\<close>, which writes every
  column of the row with the key of the struct, or inserts the struct when there is none.
\<close>

record 'r table_api =
  Find :: "('r \<Rightarrow> bool) \<Rightarrow> db \<Rightarrow> db_error + 'r list"
  First :: "('r \<Rightarrow> bool) \<Rightarrow> db \<Rightarrow> db_error + 'r"
  Create :: "'r \<Rightarrow> db \<Rightarrow> db_error + ('r \<times> db)"
  Updates :: "('r \<Rightarrow> bool) \<Rightarrow> ('r \<Rightarrow> 'r option) \<Rightarrow> db \<Rightarrow> db_error + db"
  UpdateColumns :: "('r \<Rightarrow> bool) \<Rightarrow> ('r \<Rightarrow> 'r option) \<Rightarrow> db \<Rightarrow> db_error + db"
  Delete :: "('r \<Rightarrow> bool) \<Rightarrow> db \<Rightarrow> db_error + (nat \<times> db)"
  Count :: "('r \<Rightarrow> bool) \<Rightarrow> db \<Rightarrow> db_error + nat"
  Page :: "gostring \<Rightarrow> int \<Rightarrow> int \<Rightarrow> ('r \<Rightarrow> bool) \<Rightarrow> db \<Rightarrow> db_error + 'r list"
  Save :: "'r \<Rightarrow> db \<Rightarrow> db_error + ('r \<times> db)"

record gorm =
  Files :: "file_row table_api"
  Folders :: "folder_row table_api"
  Users :: "user_row table_api"
  Groups :: "group_row table_api"
  Policies :: "policy table_api"
  Shares :: "share_row table_api"
  Settings :: "setting_row table_api"
  Tasks :: "task_row table_api"
  Tags :: "tag_row table_api"
  Webdavs :: "webdav_row table_api"
  Downloads :: "download_row table_api"
  Nodes :: "node_row table_api"
  Commit :: "db \<Rightarrow> db_error option"

text \<open>
  \<open>gorm_table T get put rid stamp touch cols\<close>: the statements \<open>T\<close> work on the rows \<open>get d\<close> of
  the database \<open>d\<close>; \<open>rid\<close> is the primary key, \<open>stamp t i\<close> sets key and times of a new row,
  \<open>touch t\<close> the time of its last update, \<open>cols\<close> forgets what is not stored.
\<close>

locale gorm_table =
  fixes T :: "'r table_api"
    and get :: "db \<Rightarrow> 'r list"
    and put :: "'r list \<Rightarrow> db \<Rightarrow> db"
    and rid :: "'r \<Rightarrow> uint"
    and stamp :: "unix_time \<Rightarrow> uint \<Rightarrow> 'r \<Rightarrow> 'r"
    and touch :: "unix_time \<Rightarrow> 'r \<Rightarrow> 'r"
    and cols :: "'r \<Rightarrow> 'r"
  assumes find_rows: "Find T P d = Inr rs \<Longrightarrow> mset rs = mset (filter P (get d))"
    and first_row: "First T P d = Inr r \<Longrightarrow> r \<in> set (get d) \<and> P r"
    and first_none: "First T P d = Inl ErrRecordNotFound \<Longrightarrow> r \<in> set (get d) \<Longrightarrow> \<not> P r"
    and create_row:
      "Create T r d = Inr (r', d') \<Longrightarrow>
       \<exists>t i. i \<noteq> 0 \<and> i \<notin> rid ` set (get d) \<and> r' = stamp t i r \<and> d' = put (get d @ [cols r']) d"
    and update_fits: "Updates T P u d = Inr d' \<Longrightarrow> r \<in> set (get d) \<Longrightarrow> P r \<Longrightarrow> u r \<noteq> None"
    and update_rows:
      "Updates T P u d = Inr d' \<Longrightarrow>
       \<exists>t. d' = put (map (\<lambda>r. if P r then touch t (the (u r)) else r) (get d)) d"
    and update_cols_fits: "UpdateColumns T P u d = Inr d' \<Longrightarrow> r \<in> set (get d) \<Longrightarrow> P r \<Longrightarrow> u r \<noteq> None"
    and update_cols_rows:
      "UpdateColumns T P u d = Inr d' \<Longrightarrow>
       d' = put (map (\<lambda>r. if P r then the (u r) else r) (get d)) d"
    and delete_rows:
      "Delete T P d = Inr (n, d') \<Longrightarrow>
       d' = put (filter (\<lambda>r. \<not> P r) (get d)) d \<and> n = length (filter P (get d))"
    and count_rows: "Count T P d = Inr n \<Longrightarrow> n = length (filter P (get d))"
    and page_rows:
      "Page T ord lim off P d = Inr rs \<Longrightarrow>
       mset rs \<subseteq># mset (filter P (get d)) \<and> (0 < lim \<longrightarrow> int (length rs) \<le> lim)"
    and save_row:
      "Save T r d = Inr (r', d') \<Longrightarrow>
       (\<exists>t. rid r \<in> rid ` set (get d) \<and> r' = touch t r \<and>
          d' = put (map (\<lambda>x. if rid x = rid r then cols r' else x) (get d)) d) \<or>
       (\<exists>t i. i \<noteq> 0 \<and> i \<notin> rid ` set (get d) \<and> (rid r \<noteq> 0 \<longrightarrow> i = rid r) \<and> r' = stamp t i r \<and>
          d' = put (get d @ [cols r']) d)"
begin

lemma find_set: "Find T P d = Inr rs \<Longrightarrow> set rs = {r \<in> set (get d). P r}"
  using find_rows [of P d rs] by (metis set_eq_of_mset set_filter)

lemma find_empty: "Find T P d = Inr [] \<Longrightarrow> r \<in> set (get d) \<Longrightarrow> \<not> P r"
  using find_set [of P d "[]"] by auto

lemma find_length: "Find T P d = Inr rs \<Longrightarrow> length rs = length (filter P (get d))"
  by (rule length_eq_of_mset) (rule find_rows)

end

text \<open>The tables' parameters of the locale.\<close>

definition file_stamp :: "unix_time \<Rightarrow> uint \<Rightarrow> file_row \<Rightarrow> file_row" where
  "file_stamp t i r = r\<lparr>f_ID := i, f_CreatedAt := t, f_UpdatedAt := t\<rparr>"

definition file_touch :: "unix_time \<Rightarrow> file_row \<Rightarrow> file_row" where
  "file_touch t r = r\<lparr>f_UpdatedAt := t\<rparr>"

definition file_cols :: "file_row \<Rightarrow> file_row" where
  "file_cols r = r\<lparr>f_Policy := zero_policy, f_Position := []\<rparr>"

definition folder_stamp :: "unix_time \<Rightarrow> uint \<Rightarrow> folder_row \<Rightarrow> folder_row" where
  "folder_stamp t i r = r\<lparr>d_ID := i, d_CreatedAt := t, d_UpdatedAt := t\<rparr>"

definition folder_touch :: "unix_time \<Rightarrow> folder_row \<Rightarrow> folder_row" where
  "folder_touch t r = r\<lparr>d_UpdatedAt := t\<rparr>"

definition folder_cols :: "folder_row \<Rightarrow> folder_row" where
  "folder_cols r = r\<lparr>d_Position := []\<rparr>"

definition user_cols :: "user_row \<Rightarrow> user_row" where
  "user_cols r = r\<lparr>u_ProfileOff := False, u_PreferredTheme := [], u_Group := zero_group, u_Policy := zero_policy\<rparr>"

definition share_stamp :: "unix_time \<Rightarrow> uint \<Rightarrow> share_row \<Rightarrow> share_row" where
  "share_stamp t i r = r\<lparr>s_ID := i, s_CreatedAt := t\<rparr>"

definition share_cols :: "share_row \<Rightarrow> share_row" where
  "share_cols r = r\<lparr>s_User := zero_user, s_File := zero_file, s_Folder := zero_folder\<rparr>"

lemmas row_defs = file_stamp_def file_touch_def file_cols_def folder_stamp_def folder_touch_def
  folder_cols_def user_cols_def share_stamp_def share_cols_def

abbreviation set_files :: "file_row list \<Rightarrow> db \<Rightarrow> db" where
  "set_files xs d \<equiv> d\<lparr>files := xs\<rparr>"

abbreviation set_folders :: "folder_row list \<Rightarrow> db \<Rightarrow> db" where
  "set_folders xs d \<equiv> d\<lparr>folders := xs\<rparr>"

abbreviation set_users :: "user_row list \<Rightarrow> db \<Rightarrow> db" where
  "set_users xs d \<equiv> d\<lparr>users := xs\<rparr>"

text \<open>
  The whole ORM: every table keeps its laws. The \<open>stamp\<close> of a share sets its key and
  the time of its creation, that of a policy, group, setting, tag, task and WebDAV account the
  key; their other times are not modelled.
\<close>

locale gorm_db =
  fixes G :: gorm
  assumes files: "gorm_table (Files G) files set_files f_ID file_stamp file_touch file_cols"
    and folders: "gorm_table (Folders G) folders set_folders d_ID folder_stamp folder_touch folder_cols"
    and users: "gorm_table (Users G) users set_users u_ID (\<lambda>t i r. r\<lparr>u_ID := i\<rparr>) (\<lambda>t r. r) user_cols"
    and groups: "gorm_table (Groups G) groups (\<lambda>xs d. d\<lparr>groups := xs\<rparr>) g_ID (\<lambda>t i r. r\<lparr>g_ID := i\<rparr>) (\<lambda>t r. r) (\<lambda>r. r)"
    and policies: "gorm_table (Policies G) policies (\<lambda>xs d. d\<lparr>policies := xs\<rparr>) p_ID (\<lambda>t i r. r\<lparr>p_ID := i\<rparr>) (\<lambda>t r. r) (\<lambda>r. r)"
    and shares: "gorm_table (Shares G) shares (\<lambda>xs d. d\<lparr>shares := xs\<rparr>) s_ID share_stamp (\<lambda>t r. r) share_cols"
    and settings: "gorm_table (Settings G) settings (\<lambda>xs d. d\<lparr>settings := xs\<rparr>) st_ID (\<lambda>t i r. r\<lparr>st_ID := i\<rparr>) (\<lambda>t r. r) (\<lambda>r. r)"
    and tasks: "gorm_table (Tasks G) tasks (\<lambda>xs d. d\<lparr>tasks := xs\<rparr>) t_ID (\<lambda>t i r. r\<lparr>t_ID := i\<rparr>) (\<lambda>t r. r) (\<lambda>r. r)"
    and tags: "gorm_table (Tags G) tags (\<lambda>xs d. d\<lparr>tags := xs\<rparr>) tag_ID (\<lambda>t i r. r\<lparr>tag_ID := i\<rparr>) (\<lambda>t r. r) (\<lambda>r. r)"
    and webdavs: "gorm_table (Webdavs G) webdavs (\<lambda>xs d. d\<lparr>webdavs := xs\<rparr>) w_ID (\<lambda>t i r. r\<lparr>w_ID := i\<rparr>) (\<lambda>t r. r) (\<lambda>r. r)"
    and downloads: "gorm_table (Downloads G) download_rows (\<lambda>xs d. d\<lparr>download_rows := xs\<rparr>) dl_ID (\<lambda>t i r. r\<lparr>dl_ID := i\<rparr>) (\<lambda>t r. r) (\<lambda>r. r)"
    and nodes: "gorm_table (Nodes G) node_rows (\<lambda>xs d. d\<lparr>node_rows := xs\<rparr>) n_ID (\<lambda>t i r. r\<lparr>n_ID := i\<rparr>) (\<lambda>t r. r) (\<lambda>r. r)"

sublocale gorm_db \<subseteq> files: gorm_table "Files G" files set_files f_ID file_stamp file_touch file_cols
  by (rule files)

sublocale gorm_db \<subseteq> folders: gorm_table "Folders G" folders set_folders d_ID folder_stamp folder_touch folder_cols
  by (rule folders)

sublocale gorm_db \<subseteq> users: gorm_table "Users G" users set_users u_ID "\<lambda>t i r. r\<lparr>u_ID := i\<rparr>" "\<lambda>t r. r" user_cols
  by (rule users)

sublocale gorm_db \<subseteq> shares: gorm_table "Shares G" shares "\<lambda>xs d. d\<lparr>shares := xs\<rparr>" s_ID share_stamp "\<lambda>t r. r" share_cols
  by (rule shares)

sublocale gorm_db \<subseteq> tasks: gorm_table "Tasks G" tasks "\<lambda>xs d. d\<lparr>tasks := xs\<rparr>" t_ID "\<lambda>t i r. r\<lparr>t_ID := i\<rparr>" "\<lambda>t r. r" "\<lambda>r. r"
  by (rule tasks)

sublocale gorm_db \<subseteq> settings: gorm_table "Settings G" settings "\<lambda>xs d. d\<lparr>settings := xs\<rparr>" st_ID "\<lambda>t i r. r\<lparr>st_ID := i\<rparr>" "\<lambda>t r. r" "\<lambda>r. r"
  by (rule settings)

section \<open>An instance on lists\<close>

text \<open>
  \<open>mem_table\<close> runs the statements on the lists; \<open>fail\<close> says which statement fails on which
  database, \<open>now\<close> is the clock.
\<close>

datatype stmt = SFind | SFirst | SCreate | SUpdates | SUpdateColumns | SDelete | SSave

definition fresh :: "('r \<Rightarrow> uint) \<Rightarrow> 'r list \<Rightarrow> uint" where
  "fresh rid rs = Suc (foldr (\<lambda>r m. max (rid r) m) rs 0)"

definition mem_update :: "(db \<Rightarrow> 'r list) \<Rightarrow> ('r list \<Rightarrow> db \<Rightarrow> db) \<Rightarrow> ('r \<Rightarrow> 'r) \<Rightarrow>
    ('r \<Rightarrow> bool) \<Rightarrow> ('r \<Rightarrow> 'r option) \<Rightarrow> db \<Rightarrow> db_error + db" where
  "mem_update get put tch P u d =
     (if list_all (\<lambda>r. P r \<longrightarrow> u r \<noteq> None) (get d)
      then Inr (put (map (\<lambda>r. if P r then tch (the (u r)) else r) (get d)) d)
      else Inl (ErrDriver 1690))"

definition mem_save :: "unix_time \<Rightarrow> (db \<Rightarrow> 'r list) \<Rightarrow> ('r list \<Rightarrow> db \<Rightarrow> db) \<Rightarrow> ('r \<Rightarrow> uint) \<Rightarrow>
    (unix_time \<Rightarrow> uint \<Rightarrow> 'r \<Rightarrow> 'r) \<Rightarrow> (unix_time \<Rightarrow> 'r \<Rightarrow> 'r) \<Rightarrow> ('r \<Rightarrow> 'r) \<Rightarrow> 'r \<Rightarrow> db \<Rightarrow> db_error + ('r \<times> db)" where
  "mem_save now get put rid stamp touch cols r d =
     (if rid r \<in> rid ` set (get d) then
        (let r' = touch now r in Inr (r', put (map (\<lambda>x. if rid x = rid r then cols r' else x) (get d)) d))
      else
        (let r' = stamp now (if rid r = 0 then fresh rid (get d) else rid r) r in Inr (r', put (get d @ [cols r']) d)))"

definition mem_table ::
  "(stmt \<Rightarrow> db \<Rightarrow> bool) \<Rightarrow> unix_time \<Rightarrow> (db \<Rightarrow> 'r list) \<Rightarrow> ('r list \<Rightarrow> db \<Rightarrow> db) \<Rightarrow> ('r \<Rightarrow> uint) \<Rightarrow>
   (unix_time \<Rightarrow> uint \<Rightarrow> 'r \<Rightarrow> 'r) \<Rightarrow> (unix_time \<Rightarrow> 'r \<Rightarrow> 'r) \<Rightarrow> ('r \<Rightarrow> 'r) \<Rightarrow> 'r table_api" where
  "mem_table fail now get put rid stamp touch cols =
     \<lparr>Find = (\<lambda>P d. if fail SFind d then Inl (ErrDriver 0) else Inr (filter P (get d))),
      First = (\<lambda>P d. if fail SFirst d then Inl (ErrDriver 0)
        else (case find_first P (get d) of None \<Rightarrow> Inl ErrRecordNotFound | Some r \<Rightarrow> Inr r)),
      Create = (\<lambda>r d. if fail SCreate d then Inl (ErrDriver 0)
        else (let r' = stamp now (fresh rid (get d)) r in Inr (r', put (get d @ [cols r']) d))),
      Updates = (\<lambda>P u d. if fail SUpdates d then Inl (ErrDriver 0) else mem_update get put (touch now) P u d),
      UpdateColumns = (\<lambda>P u d. if fail SUpdateColumns d then Inl (ErrDriver 0)
        else mem_update get put (\<lambda>r. r) P u d),
      Delete = (\<lambda>P d. if fail SDelete d then Inl (ErrDriver 0)
        else Inr (length (filter P (get d)), put (filter (\<lambda>r. \<not> P r) (get d)) d)),
      Count = (\<lambda>P d. if fail SFind d then Inl (ErrDriver 0) else Inr (length (filter P (get d)))),
      Page = (\<lambda>ord lim off P d. if fail SFind d then Inl (ErrDriver 0)
        else (let rs = drop (nat off) (filter P (get d)) in Inr (if 0 < lim then take (nat lim) rs else rs))),
      Save = (\<lambda>r d. if fail SSave d then Inl (ErrDriver 0) else mem_save now get put rid stamp touch cols r d)\<rparr>"

lemma mset_take_drop: "mset (drop n xs) \<subseteq># mset xs" "mset (take m (drop n xs)) \<subseteq># mset xs"
proof -
  have d: "mset (drop n xs) \<subseteq># mset xs" for n and xs :: "'a list"
    by (metis append_take_drop_id mset_append mset_subset_eq_add_right)
  have "mset (take m ys) \<subseteq># mset ys" for ys :: "'a list"
    by (metis append_take_drop_id mset_append mset_subset_eq_add_left)
  then show "mset (take m (drop n xs)) \<subseteq># mset xs" using d subset_mset.order_trans by blast
  show "mset (drop n xs) \<subseteq># mset xs" by (rule d)
qed

lemma fresh_not_in: "fresh rid rs \<noteq> 0 \<and> fresh rid rs \<notin> rid ` set rs"
proof -
  have "r \<in> set rs \<Longrightarrow> rid r \<le> foldr (\<lambda>r m. max (rid r) m) rs 0" for r
    by (induction rs) (auto simp: max_def)
  then show ?thesis
    by (force simp: fresh_def)
qed

lemma mem_table_laws:
  "gorm_table (mem_table fail now get put rid stamp touch cols) get put rid stamp touch cols"
proof unfold_locales
  fix P d r assume "First (mem_table fail now get put rid stamp touch cols) P d = Inr r"
  then show "r \<in> set (get d) \<and> P r"
    by (auto simp: mem_table_def split: if_splits option.splits dest: find_first_SomeD)
next
  fix r d r' d' assume "Create (mem_table fail now get put rid stamp touch cols) r d = Inr (r', d')"
  then show "\<exists>t i. i \<noteq> 0 \<and> i \<notin> rid ` set (get d) \<and> r' = stamp t i r \<and> d' = put (get d @ [cols r']) d"
    using fresh_not_in [of rid "get d"]
    by (auto simp: mem_table_def Let_def split: if_splits)
next
  fix r d r' d' assume s: "Save (mem_table fail now get put rid stamp touch cols) r d = Inr (r', d')"
  let ?i = "if rid r = 0 then fresh rid (get d) else rid r"
  show "(\<exists>t. rid r \<in> rid ` set (get d) \<and> r' = touch t r \<and>
      d' = put (map (\<lambda>x. if rid x = rid r then cols r' else x) (get d)) d) \<or>
    (\<exists>t i. i \<noteq> 0 \<and> i \<notin> rid ` set (get d) \<and> (rid r \<noteq> 0 \<longrightarrow> i = rid r) \<and> r' = stamp t i r \<and>
      d' = put (get d @ [cols r']) d)"
  proof (cases "rid r \<in> rid ` set (get d)")
    case True
    then show ?thesis using s by (auto simp: mem_table_def mem_save_def Let_def split: if_splits)
  next
    case False
    then have "r' = stamp now ?i r \<and> d' = put (get d @ [cols r']) d"
      using s by (auto simp: mem_table_def mem_save_def Let_def split: if_splits)
    moreover have "?i \<noteq> 0 \<and> ?i \<notin> rid ` set (get d)" using False fresh_not_in [of rid "get d"] by auto
    ultimately show ?thesis by (intro disjI2 exI [of _ now] exI [of _ ?i]) auto
  qed
qed (auto simp: mem_table_def mem_update_def list_all_iff Let_def mset_take_drop simp del: mset_filter split: if_splits option.splits)

definition mem_gorm :: "(stmt \<Rightarrow> db \<Rightarrow> bool) \<Rightarrow> (db \<Rightarrow> db_error option) \<Rightarrow> unix_time \<Rightarrow> gorm" where
  "mem_gorm fail cmt now =
     \<lparr>Files = mem_table fail now files set_files f_ID file_stamp file_touch file_cols,
      Folders = mem_table fail now folders set_folders d_ID folder_stamp folder_touch folder_cols,
      Users = mem_table fail now users set_users u_ID (\<lambda>t i r. r\<lparr>u_ID := i\<rparr>) (\<lambda>t r. r) user_cols,
      Groups = mem_table fail now groups (\<lambda>xs d. d\<lparr>groups := xs\<rparr>) g_ID (\<lambda>t i r. r\<lparr>g_ID := i\<rparr>) (\<lambda>t r. r) (\<lambda>r. r),
      Policies = mem_table fail now policies (\<lambda>xs d. d\<lparr>policies := xs\<rparr>) p_ID (\<lambda>t i r. r\<lparr>p_ID := i\<rparr>) (\<lambda>t r. r) (\<lambda>r. r),
      Shares = mem_table fail now shares (\<lambda>xs d. d\<lparr>shares := xs\<rparr>) s_ID share_stamp (\<lambda>t r. r) share_cols,
      Settings = mem_table fail now settings (\<lambda>xs d. d\<lparr>settings := xs\<rparr>) st_ID (\<lambda>t i r. r\<lparr>st_ID := i\<rparr>) (\<lambda>t r. r) (\<lambda>r. r),
      Tasks = mem_table fail now tasks (\<lambda>xs d. d\<lparr>tasks := xs\<rparr>) t_ID (\<lambda>t i r. r\<lparr>t_ID := i\<rparr>) (\<lambda>t r. r) (\<lambda>r. r),
      Tags = mem_table fail now tags (\<lambda>xs d. d\<lparr>tags := xs\<rparr>) tag_ID (\<lambda>t i r. r\<lparr>tag_ID := i\<rparr>) (\<lambda>t r. r) (\<lambda>r. r),
      Webdavs = mem_table fail now webdavs (\<lambda>xs d. d\<lparr>webdavs := xs\<rparr>) w_ID (\<lambda>t i r. r\<lparr>w_ID := i\<rparr>) (\<lambda>t r. r) (\<lambda>r. r),
      Downloads = mem_table fail now download_rows (\<lambda>xs d. d\<lparr>download_rows := xs\<rparr>) dl_ID (\<lambda>t i r. r\<lparr>dl_ID := i\<rparr>) (\<lambda>t r. r) (\<lambda>r. r),
      Nodes = mem_table fail now node_rows (\<lambda>xs d. d\<lparr>node_rows := xs\<rparr>) n_ID (\<lambda>t i r. r\<lparr>n_ID := i\<rparr>) (\<lambda>t r. r) (\<lambda>r. r),
      Commit = cmt\<rparr>"

lemma mem_gorm_laws: "gorm_db (mem_gorm fail cmt now)"
  by (rule gorm_db.intro) (simp_all add: mem_gorm_def mem_table_laws)

interpretation mem: gorm_db "mem_gorm fail cmt now" for fail cmt now
  by (rule mem_gorm_laws)

text \<open>The instance in which nothing fails.\<close>

definition sound_gorm :: gorm where
  "sound_gorm = mem_gorm (\<lambda>s d. False) (\<lambda>d. None) 0"

lemma sound_gorm_laws: "gorm_db sound_gorm"
  unfolding sound_gorm_def by (rule mem_gorm_laws)

definition empty_db :: db where
  "empty_db = \<lparr>files = [], folders = [], users = [], groups = [], policies = [], shares = [],
     settings = [], tasks = [], tags = [], webdavs = [], download_rows = [], node_rows = []\<rparr>"

text \<open>The statements of the sound instance, as rewrite rules for evaluation.\<close>

lemma sound_tables:
  "Files sound_gorm = mem_table (\<lambda>s d. False) 0 files set_files f_ID file_stamp file_touch file_cols"
  "Folders sound_gorm = mem_table (\<lambda>s d. False) 0 folders set_folders d_ID folder_stamp folder_touch folder_cols"
  "Users sound_gorm = mem_table (\<lambda>s d. False) 0 users set_users u_ID (\<lambda>t i r. r\<lparr>u_ID := i\<rparr>) (\<lambda>t r. r) user_cols"
  "Groups sound_gorm = mem_table (\<lambda>s d. False) 0 groups (\<lambda>xs d. d\<lparr>groups := xs\<rparr>) g_ID (\<lambda>t i r. r\<lparr>g_ID := i\<rparr>) (\<lambda>t r. r) (\<lambda>r. r)"
  "Policies sound_gorm = mem_table (\<lambda>s d. False) 0 policies (\<lambda>xs d. d\<lparr>policies := xs\<rparr>) p_ID (\<lambda>t i r. r\<lparr>p_ID := i\<rparr>) (\<lambda>t r. r) (\<lambda>r. r)"
  "Shares sound_gorm = mem_table (\<lambda>s d. False) 0 shares (\<lambda>xs d. d\<lparr>shares := xs\<rparr>) s_ID share_stamp (\<lambda>t r. r) share_cols"
  "Settings sound_gorm = mem_table (\<lambda>s d. False) 0 settings (\<lambda>xs d. d\<lparr>settings := xs\<rparr>) st_ID (\<lambda>t i r. r\<lparr>st_ID := i\<rparr>) (\<lambda>t r. r) (\<lambda>r. r)"
  "Tasks sound_gorm = mem_table (\<lambda>s d. False) 0 tasks (\<lambda>xs d. d\<lparr>tasks := xs\<rparr>) t_ID (\<lambda>t i r. r\<lparr>t_ID := i\<rparr>) (\<lambda>t r. r) (\<lambda>r. r)"
  "Tags sound_gorm = mem_table (\<lambda>s d. False) 0 tags (\<lambda>xs d. d\<lparr>tags := xs\<rparr>) tag_ID (\<lambda>t i r. r\<lparr>tag_ID := i\<rparr>) (\<lambda>t r. r) (\<lambda>r. r)"
  "Webdavs sound_gorm = mem_table (\<lambda>s d. False) 0 webdavs (\<lambda>xs d. d\<lparr>webdavs := xs\<rparr>) w_ID (\<lambda>t i r. r\<lparr>w_ID := i\<rparr>) (\<lambda>t r. r) (\<lambda>r. r)"
  "Downloads sound_gorm = mem_table (\<lambda>s d. False) 0 download_rows (\<lambda>xs d. d\<lparr>download_rows := xs\<rparr>) dl_ID (\<lambda>t i r. r\<lparr>dl_ID := i\<rparr>) (\<lambda>t r. r) (\<lambda>r. r)"
  "Nodes sound_gorm = mem_table (\<lambda>s d. False) 0 node_rows (\<lambda>xs d. d\<lparr>node_rows := xs\<rparr>) n_ID (\<lambda>t i r. r\<lparr>n_ID := i\<rparr>) (\<lambda>t r. r) (\<lambda>r. r)"
  "Commit sound_gorm d = None"
  by (simp_all add: sound_gorm_def mem_gorm_def)

lemma sound_table:
  "Find (mem_table (\<lambda>s d. False) now get put rid stamp touch cols) P d = Inr (filter P (get d))"
    "First (mem_table (\<lambda>s d. False) now get put rid stamp touch cols) P d = (case find_first P (get d) of None \<Rightarrow> Inl ErrRecordNotFound | Some r \<Rightarrow> Inr r)"
    "Create (mem_table (\<lambda>s d. False) now get put rid stamp touch cols) r d = (let r' = stamp now (fresh rid (get d)) r in Inr (r', put (get d @ [cols r']) d))"
    "Updates (mem_table (\<lambda>s d. False) now get put rid stamp touch cols) P u d = mem_update get put (touch now) P u d"
    "UpdateColumns (mem_table (\<lambda>s d. False) now get put rid stamp touch cols) P u d = mem_update get put (\<lambda>r. r) P u d"
    "Delete (mem_table (\<lambda>s d. False) now get put rid stamp touch cols) P d = Inr (length (filter P (get d)), put (filter (\<lambda>r. \<not> P r) (get d)) d)"
    "Count (mem_table (\<lambda>s d. False) now get put rid stamp touch cols) P d = Inr (length (filter P (get d)))"
    "Page (mem_table (\<lambda>s d. False) now get put rid stamp touch cols) ord lim off P d =
       (let rs = drop (nat off) (filter P (get d)) in Inr (if 0 < lim then take (nat lim) rs else rs))"
    "Save (mem_table (\<lambda>s d. False) now get put rid stamp touch cols) r d = mem_save now get put rid stamp touch cols r d"
  by (simp_all add: mem_table_def)

lemmas sound_simps = sound_tables sound_table mem_update_def mem_save_def fresh_def row_defs

lemmas mem_defs = sound_gorm_def mem_gorm_def mem_table_def mem_update_def mem_save_def fresh_def row_defs

end
