(* ===== verification/Utils.thy ===== *)
theory Utils
  imports GoLib
begin

text \<open>
  \<open>pkg/utils\<close>: the path helpers of \<open>path.go\<close> and the list helpers of \<open>common.go\<close> that the
  rest of the program calls.
\<close>

section \<open>common.go\<close>

primrec ContainsString :: "gostring list \<Rightarrow> gostring \<Rightarrow> bool" where
  "ContainsString [] e = False"
| "ContainsString (a # s) e = (if a = e then True else ContainsString s e)"

primrec ContainsUint :: "uint list \<Rightarrow> uint \<Rightarrow> bool" where
  "ContainsUint [] e = False"
| "ContainsUint (a # s) e = (if a = e then True else ContainsUint s e)"

text \<open>
  \<open>strings.Replace(s, old, new, -1)\<close> for a non-empty \<open>old\<close>, and \<open>Replace\<close>, which ranges
  over a map: the association list is one of the orders the range can take.
\<close>

function replaceAll :: "gostring \<Rightarrow> gostring \<Rightarrow> gostring \<Rightarrow> gostring" where
  "replaceAll s old new =
     (if s = [] \<or> old = [] then s
      else if hasPrefix s old then new @ replaceAll (drop (length old) s) old new
      else hd s # replaceAll (tl s) old new)"
  by pat_completeness auto
termination
  by (relation "measure (\<lambda>(s, old, new). length s)") auto

declare replaceAll.simps [simp del]

primrec Replace :: "gostring \<Rightarrow> (gostring \<times> gostring) list \<Rightarrow> gostring" where
  "Replace old [] = old"
| "Replace old (kv # r) = Replace (replaceAll old (fst kv) (snd kv)) r"

lemma ContainsString_iff [simp]: "ContainsString s e \<longleftrightarrow> e \<in> set s"
  by (induction s) auto

lemma ContainsUint_iff [simp]: "ContainsUint s e \<longleftrightarrow> e \<in> set s"
  by (induction s) auto

text \<open>A text without the placeholder is left alone.\<close>

lemma replaceAll_absent: "\<not> containsStr s old \<Longrightarrow> replaceAll s old new = s"
proof (induction s)
  case Nil
  then show ?case by (simp add: replaceAll.simps)
next
  case (Cons c s)
  then show ?case by (simp add: replaceAll.simps [of "c # s"])
qed

lemma Replace_absent:
  "\<forall>kv\<in>set r. \<not> containsStr s (fst kv) \<Longrightarrow> Replace s r = s"
  by (induction r) (simp_all add: replaceAll_absent)

section \<open>path.go\<close>

definition SplitPath :: "gostring \<Rightarrow> gostring list" where
  "SplitPath path =
     (if path = [] \<or> hd path \<noteq> CHR ''/'' then []
      else if path = ''/'' then [''/'']
      else (splitOn (CHR ''/'') path)[0 := ''/''])"

definition RemoveSlash :: "gostring \<Rightarrow> gostring" where
  "RemoveSlash path = (if length path > 1 then trimSuffix path ''/'' else path)"

definition FormSlash :: "gostring \<Rightarrow> gostring" where
  "FormSlash old = pathClean (map (\<lambda>c. if c = CHR 92 then CHR ''/'' else c) old)"

definition FillSlash :: "gostring \<Rightarrow> gostring" where
  "FillSlash path = (if path = ''/'' then path else path @ ''/'')"

lemma SplitPath_relative: "\<not> isRooted p \<Longrightarrow> SplitPath p = []"
  by (cases p) (auto simp: SplitPath_def isRooted_def)

lemma SplitPath_Nil_iff: "SplitPath p = [] \<longleftrightarrow> \<not> isRooted p"
  by (cases p) (auto simp: SplitPath_def isRooted_def split: list.splits)

text \<open>On a clean rooted path the split is the root followed by the path's elements.\<close>

lemma SplitPath_pathOf:
  assumes "list_all cleanElem es"
  shows "SplitPath (pathOf es) = ''/'' # es"
proof (cases "es = []")
  case True
  then show ?thesis by (simp add: SplitPath_def pathOf_def)
next
  case False
  then have "pathOf es \<noteq> ''/''"
    using pathOf_inj [OF assms, of "[]"] by (simp add: pathOf_def)
  with False splitOn_pathOf [OF assms] show ?thesis
    by (simp add: SplitPath_def) (simp add: pathOf_def)
qed

lemma SplitPath_clean:
  "isRooted p \<Longrightarrow>
   SplitPath (pathClean p) = ''/'' # cleanElems True (splitOn (CHR ''/'') p)"
  by (simp add: pathClean_rooted SplitPath_pathOf cleanElems_rooted_clean)

lemma RemoveSlash_FillSlash: "p \<noteq> [] \<Longrightarrow> RemoveSlash (FillSlash p) = p"
  by (cases p rule: rev_cases)
     (auto simp: RemoveSlash_def FillSlash_def trimSuffix_def hasSuffix_def)

end
