(* ===== verification/MemoCache.thy ===== *)
theory MemoCache
  imports GoLib
begin

text \<open>
  \<open>pkg/cache\<close>: the in-memory store of \<open>memo.go\<close> and the package functions of \<open>driver.go\<close>.

  A value is a string or some other object (\<open>interface{}\<close>). The store keeps, per key, either
  an \<open>itemWithTtl\<close> (written by \<open>Set\<close>) or the bare value (written by \<open>Sets\<close>). The clock is an
  argument of every operation that reads it. \<open>sync.Map\<close> is a partial map; a Go map that is
  ranged over is the list of its entries in the order of the range.

  The interface \<open>Driver\<close> is the locale \<open>cache_driver\<close>; the memory store provides it.
\<close>

section \<open>memo.go\<close>

datatype 'o cval = CString gostring | CObj 'o

datatype 'o stored = Item unix_time "'o cval" | Bare "'o cval"

type_synonym 'o memo = "gostring \<rightharpoonup> 'o stored"

definition newItem :: "unix_time \<Rightarrow> 'o cval \<Rightarrow> int \<Rightarrow> 'o stored" where
  "newItem now value expires =
     Item (if expires > 0 then now + expires else expires) value"

definition getValue :: "unix_time \<Rightarrow> 'o stored option \<Rightarrow> 'o cval option" where
  "getValue now item =
     (case item of
        None \<Rightarrow> None
      | Some (Bare v) \<Rightarrow> Some v
      | Some (Item e v) \<Rightarrow> (if e > 0 \<and> e < now then None else Some v))"

definition memo_new :: "'o memo" where
  "memo_new = Map.empty"

definition memo_Set :: "unix_time \<Rightarrow> gostring \<Rightarrow> 'o cval \<Rightarrow> int \<Rightarrow> 'o memo \<Rightarrow> 'o memo" where
  "memo_Set now key value ttl st = st(key \<mapsto> newItem now value ttl)"

definition memo_Get :: "unix_time \<Rightarrow> gostring \<Rightarrow> 'o memo \<Rightarrow> 'o cval option" where
  "memo_Get now key st = getValue now (st key)"

fun memo_Gets_loop ::
  "unix_time \<Rightarrow> gostring \<Rightarrow> 'o memo \<Rightarrow> gostring list \<Rightarrow> (gostring \<rightharpoonup> 'o cval) \<times> gostring list \<Rightarrow>
   (gostring \<rightharpoonup> 'o cval) \<times> gostring list" where
  "memo_Gets_loop now prefix st [] acc = acc"
| "memo_Gets_loop now prefix st (key # keys) (res, notFound) =
     (case getValue now (st (prefix @ key)) of
        Some value \<Rightarrow> memo_Gets_loop now prefix st keys (res(key \<mapsto> value), notFound)
      | None \<Rightarrow> memo_Gets_loop now prefix st keys (res, notFound @ [key]))"

definition memo_Gets ::
  "unix_time \<Rightarrow> gostring list \<Rightarrow> gostring \<Rightarrow> 'o memo \<Rightarrow> (gostring \<rightharpoonup> 'o cval) \<times> gostring list" where
  "memo_Gets now keys prefix st = memo_Gets_loop now prefix st keys (Map.empty, [])"

primrec memo_Sets :: "(gostring \<times> 'o cval) list \<Rightarrow> gostring \<Rightarrow> 'o memo \<Rightarrow> 'o memo" where
  "memo_Sets [] prefix st = st"
| "memo_Sets (kv # vals) prefix st =
     memo_Sets vals prefix (st(prefix @ fst kv \<mapsto> Bare (snd kv)))"

primrec memo_Delete :: "gostring list \<Rightarrow> gostring \<Rightarrow> 'o memo \<Rightarrow> 'o memo" where
  "memo_Delete [] prefix st = st"
| "memo_Delete (key # keys) prefix st = memo_Delete keys prefix (st(prefix @ key := None))"

text \<open>\<open>Range\<close> visits every key once and deletes the expired items.\<close>

definition GarbageCollect :: "unix_time \<Rightarrow> 'o memo \<Rightarrow> 'o memo" where
  "GarbageCollect now st =
     (\<lambda>key. case st key of
        Some (Item e v) \<Rightarrow> (if e > 0 \<and> e < now then None else Some (Item e v))
      | other \<Rightarrow> other)"

lemmas memo_defs =
  memo_Set_def memo_Get_def memo_Gets_def newItem_def getValue_def GarbageCollect_def

lemma memo_Delete_eq:
  "memo_Delete keys prefix st =
   (\<lambda>k. if k \<in> (\<lambda>x. prefix @ x) ` set keys then None else st k)"
  by (induction keys arbitrary: st) (auto simp: fun_eq_iff)

lemma memo_Sets_other:
  "k \<notin> (\<lambda>x. prefix @ x) ` fst ` set vals \<Longrightarrow> memo_Sets vals prefix st k = st k"
  by (induction vals arbitrary: st) auto

lemma memo_Sets_same:
  "distinct (map fst vals) \<Longrightarrow> (k, v) \<in> set vals \<Longrightarrow>
   memo_Sets vals prefix st (prefix @ k) = Some (Bare v)"
proof (induction vals arbitrary: st)
  case Nil
  then show ?case by simp
next
  case (Cons kv vs)
  show ?case
  proof (cases "kv = (k, v)")
    case True
    then have "prefix @ k \<notin> (\<lambda>x. prefix @ x) ` fst ` set vs"
      using Cons.prems(1) by auto
    then show ?thesis using True by (simp add: memo_Sets_other)
  next
    case False
    then show ?thesis using Cons by auto
  qed
qed

lemma memo_Gets_loop_eq:
  "memo_Gets_loop now prefix st keys (res, notFound) =
   ((\<lambda>k. if k \<in> set keys \<and> memo_Get now (prefix @ k) st \<noteq> None
         then memo_Get now (prefix @ k) st else res k),
    notFound @ filter (\<lambda>k. memo_Get now (prefix @ k) st = None) keys)"
  by (induction keys arbitrary: res notFound)
     (auto simp: memo_Get_def fun_eq_iff split: option.splits)

lemma memo_Gets_eq:
  "memo_Gets now keys prefix st =
   ((\<lambda>k. if k \<in> set keys then memo_Get now (prefix @ k) st else None),
    filter (\<lambda>k. memo_Get now (prefix @ k) st = None) keys)"
  by (auto simp: memo_Gets_def memo_Gets_loop_eq fun_eq_iff)

lemma GarbageCollect_Get: "now \<le> t \<Longrightarrow> memo_Get t k (GarbageCollect now st) = memo_Get t k st"
  by (auto simp: memo_defs split: option.splits stored.splits)

section \<open>The interface Driver\<close>

text \<open>
  What the package functions need of a driver: a value that was set is returned until its
  time to live has passed, other keys are left alone, deleted keys are gone, and the batch
  operations agree with the single ones.
\<close>

locale cache_driver =
  fixes Set :: "unix_time \<Rightarrow> gostring \<Rightarrow> 'o cval \<Rightarrow> int \<Rightarrow> 's \<Rightarrow> 's"
    and Get :: "unix_time \<Rightarrow> gostring \<Rightarrow> 's \<Rightarrow> 'o cval option"
    and Gets :: "unix_time \<Rightarrow> gostring list \<Rightarrow> gostring \<Rightarrow> 's \<Rightarrow>
                 (gostring \<rightharpoonup> 'o cval) \<times> gostring list"
    and Sets :: "(gostring \<times> 'o cval) list \<Rightarrow> gostring \<Rightarrow> 's \<Rightarrow> 's"
    and Delete :: "gostring list \<Rightarrow> gostring \<Rightarrow> 's \<Rightarrow> 's"
  assumes get_set_same:
      "0 \<le> t \<Longrightarrow> t \<le> now \<Longrightarrow> ttl \<le> 0 \<or> now \<le> t + ttl \<Longrightarrow> Get now k (Set t k v ttl s) = Some v"
    and get_set_expired: "0 \<le> t \<Longrightarrow> 0 < ttl \<Longrightarrow> t + ttl < now \<Longrightarrow> Get now k (Set t k v ttl s) = None"
    and get_set_other: "k' \<noteq> k \<Longrightarrow> Get now k' (Set t k v ttl s) = Get now k' s"
    and get_delete:
      "Get now k (Delete ks p s) = (if k \<in> (\<lambda>x. p @ x) ` set ks then None else Get now k s)"
    and get_sets_same:
      "distinct (map fst vs) \<Longrightarrow> (k, v) \<in> set vs \<Longrightarrow> Get now (p @ k) (Sets vs p s) = Some v"
    and get_sets_other:
      "k \<notin> (\<lambda>x. p @ x) ` fst ` set vs \<Longrightarrow> Get now k (Sets vs p s) = Get now k s"
    and gets_eq:
      "Gets now ks p s =
       ((\<lambda>k. if k \<in> set ks then Get now (p @ k) s else None),
        filter (\<lambda>k. Get now (p @ k) s = None) ks)"
begin

lemma get_after_delete: "k \<in> set ks \<Longrightarrow> Get now (p @ k) (Delete ks p s) = None"
  by (simp add: get_delete)

lemma gets_partition:
  "Gets now ks p s = (m, miss) \<Longrightarrow> dom m \<union> set miss = set ks \<and> dom m \<inter> set miss = {}"
  by (auto simp: gets_eq split: if_splits)

lemma gets_sets_all:
  assumes "distinct (map fst vs)" and "Gets now (map fst vs) p (Sets vs p s) = (m, miss)"
  shows "miss = [] \<and> m = map_of vs"
proof -
  have hit: "Get now (p @ k) (Sets vs p s) = map_of vs k" if "k \<in> fst ` set vs" for k
  proof -
    from that obtain v where "(k, v) \<in> set vs" by auto
    then show ?thesis using assms(1) by (simp add: get_sets_same)
  qed
  have found: "\<forall>k\<in>set (map fst vs). Get now (p @ k) (Sets vs p s) \<noteq> None"
  proof
    fix k assume k: "k \<in> set (map fst vs)"
    then have "map_of vs k \<noteq> None" by (simp add: map_of_eq_None_iff)
    moreover have "Get now (p @ k) (Sets vs p s) = map_of vs k"
      by (rule hit) (use k in simp)
    ultimately show "Get now (p @ k) (Sets vs p s) \<noteq> None" by simp
  qed
  then have "filter (\<lambda>k. Get now (p @ k) (Sets vs p s) = None) (map fst vs) = []"
    unfolding filter_empty_conv by blast
  moreover have m: "m = (\<lambda>k. if k \<in> set (map fst vs) then Get now (p @ k) (Sets vs p s) else None)"
    using assms(2) unfolding gets_eq by blast
  have "m k = map_of vs k" for k
  proof (cases "k \<in> fst ` set vs")
    case True
    then show ?thesis using hit [OF True] by (simp add: m)
  next
    case False
    then have "map_of vs k = None" by (simp add: map_of_eq_None_iff)
    with False show ?thesis by (simp add: m)
  qed
  then have "m = map_of vs" by (simp add: fun_eq_iff)
  ultimately show ?thesis
    using assms(2) by (simp add: gets_eq)
qed

end

interpretation memo: cache_driver memo_Set memo_Get memo_Gets memo_Sets memo_Delete
proof unfold_locales
  fix vs :: "(gostring \<times> 'a cval) list" and k v p s and now :: unix_time
  assume "distinct (map fst vs)" "(k, v) \<in> set vs"
  then show "memo_Get now (p @ k) (memo_Sets vs p s) = Some v"
    by (simp add: memo_Get_def memo_Sets_same getValue_def)
next
  fix ks p and s :: "'a memo" and now :: unix_time
  show "memo_Gets now ks p s =
       ((\<lambda>k. if k \<in> set ks then memo_Get now (p @ k) s else None),
        filter (\<lambda>k. memo_Get now (p @ k) s = None) ks)"
    by (rule memo_Gets_eq)
qed (auto simp: memo_Set_def memo_Get_def newItem_def getValue_def memo_Delete_eq memo_Sets_other)

section \<open>driver.go\<close>

text \<open>The package variable \<open>Store\<close> with the memory store in it.\<close>

definition cache_Set :: "unix_time \<Rightarrow> gostring \<Rightarrow> 'o cval \<Rightarrow> int \<Rightarrow> 'o memo \<Rightarrow> 'o memo" where
  "cache_Set now key value ttl st = memo_Set now key value ttl st"

definition cache_Get :: "unix_time \<Rightarrow> gostring \<Rightarrow> 'o memo \<Rightarrow> 'o cval option" where
  "cache_Get now key st = memo_Get now key st"

definition cache_Deletes :: "gostring list \<Rightarrow> gostring \<Rightarrow> 'o memo \<Rightarrow> 'o memo" where
  "cache_Deletes keys prefix st = memo_Delete keys prefix st"

text \<open>\<open>v.(string)\<close> panics on a value of another type: the result is then \<open>None\<close>.\<close>

definition GetSettings ::
  "unix_time \<Rightarrow> gostring list \<Rightarrow> gostring \<Rightarrow> 'o memo \<Rightarrow>
   ((gostring \<rightharpoonup> gostring) \<times> gostring list) option" where
  "GetSettings now keys prefix st =
     (let (raw, miss) = memo_Gets now keys prefix st
      in if list_all (\<lambda>k. case raw k of Some (CObj _) \<Rightarrow> False | _ \<Rightarrow> True) keys
         then Some ((\<lambda>k. case raw k of Some (CString s) \<Rightarrow> Some s | _ \<Rightarrow> None), miss)
         else None)"

definition SetSettings :: "(gostring \<times> gostring) list \<Rightarrow> gostring \<Rightarrow> 'o memo \<Rightarrow> 'o memo" where
  "SetSettings vals prefix st = memo_Sets (map (\<lambda>(k, v). (k, CString v)) vals) prefix st"

lemma GetSettings_SetSettings:
  assumes "distinct (map fst vs)"
  shows "GetSettings now (map fst vs) p (SetSettings vs p st) = Some (map_of vs, [])"
proof -
  let ?vs = "map (\<lambda>(k, v). (k, CString v)) vs"
  have fst_eq: "map fst ?vs = map fst vs" by (induction vs) auto
  have dist: "distinct (map fst ?vs)" unfolding fst_eq by (rule assms)
  obtain m miss where g: "memo_Gets now (map fst vs) p (memo_Sets ?vs p st) = (m, miss)"
    by fastforce
  then have "miss = [] \<and> m = map_of ?vs"
    using memo.gets_sets_all [OF dist, of now p st m miss] unfolding fst_eq by blast
  moreover have "map_of ?vs k = map_option CString (map_of vs k)" for k
    by (induction vs) auto
  ultimately have "miss = []" and m: "m = (\<lambda>k. map_option CString (map_of vs k))"
    by (auto simp: fun_eq_iff)
  moreover have "list_all (\<lambda>k. case m k of Some (CObj _) \<Rightarrow> False | _ \<Rightarrow> True) (map fst vs)"
    by (auto simp: m list_all_iff split: option.splits)
  moreover have "(\<lambda>k. case m k of Some (CString s) \<Rightarrow> Some s | _ \<Rightarrow> None) = map_of vs"
    by (auto simp: m fun_eq_iff split: option.splits)
  ultimately show ?thesis
    using g by (simp add: GetSettings_def SetSettings_def)
qed

section \<open>Properties\<close>

text \<open>
  Settings put into the cache with one prefix are all found again, with their values and
  no key missing, whatever the cache held and however late they are read.
\<close>

theorem settings_round_trip:
  assumes "distinct (map fst vs)"
  shows "GetSettings now (map fst vs) p (SetSettings vs p st) = Some (map_of vs, [])"
  by (rule GetSettings_SetSettings [OF assms])

theorem settings_round_trip_witness:
  "GetSettings 9 [''a'', ''b''] ''setting_'' (SetSettings [(''a'', ''1''), (''b'', ''2'')] ''setting_'' (memo_new :: nat memo)) =
   Some ([''a'' \<mapsto> ''1'', ''b'' \<mapsto> ''2''], [])"
  using settings_round_trip [of "[(''a'', ''1''), (''b'', ''2'')]" 9 "''setting_''" "memo_new :: nat memo"]
  by (simp add: fun_upd_twist)

text \<open>
  Collecting garbage is invisible: from then on every read of every key returns what it
  would have returned without it.
\<close>

theorem GarbageCollect_invisible:
  assumes "now \<le> t"
  shows "memo_Get t k (GarbageCollect now st) = memo_Get t k st \<and>
    memo_Gets t ks p (GarbageCollect now st) = memo_Gets t ks p st"
  using assms by (auto simp: GarbageCollect_Get memo_Gets_eq fun_eq_iff)

theorem GarbageCollect_invisible_witness:
  "memo_Get 30 ''k'' (GarbageCollect 20 [''k'' \<mapsto> Item 25 (CObj (1 :: nat)), ''l'' \<mapsto> Item 10 (CObj 2)]) =
   memo_Get 30 ''k'' [''k'' \<mapsto> Item 25 (CObj (1 :: nat)), ''l'' \<mapsto> Item 10 (CObj 2)]"
  by (rule GarbageCollect_invisible [THEN conjunct1]) simp

end
