(* ===== verification/ModelsFile.thy ===== *)
theory ModelsFile
  imports Db Utils MemoCache
begin

text \<open>
  \<open>models/file.go\<close> and the storage accounting of \<open>models/user.go\<close>.

  Every function takes the ORM \<open>G\<close> and the database. A function that writes returns its
  result with the database afterwards; a transaction works on its own copy and either its
  commit makes that copy the database or a rollback leaves the old one.
\<close>

datatype model_error =
    DbErr db_error
  | ErrUserNotConsistent
  | ErrSizeDirty
  | ErrNoNewParent
  | ErrMoveIntoItself
  | NilPanic

text \<open>\<open>serializer.UploadSession\<close>, and the objects the program keeps in its cache.\<close>

record upload_session =
  us_Key :: gostring
  us_UID :: uint
  us_VirtualPath :: gostring
  us_Name :: gostring
  us_Size :: u64
  us_SavePath :: gostring
  us_LastModified :: "unix_time option"
  us_Policy :: policy
  us_Callback :: gostring
  us_CallbackSecret :: gostring

text \<open>\<open>explorer.ItemIDService\<close>: public ids of objects, and their numbers once they are decoded.\<close>

record item_ids =
  it_Items :: "gostring list"
  it_Dirs :: "gostring list"
  it_Source :: "(uint list \<times> uint list) option"

text \<open>\<open>serializer.ObjectProps\<close>\<close>

record object_props =
  op_CreateAt :: unix_time
  op_UpdateAt :: unix_time
  op_Policy :: gostring
  op_Size :: u64
  op_ChildFolderNum :: int
  op_ChildFileNum :: int
  op_Path :: gostring
  op_QueryDate :: unix_time

datatype cache_obj =
    CPolicy policy
  | CSession upload_session
  | CFile file_row
  | CTrue
  | CUser user_row
  | CItems item_ids
  | CProps object_props

text \<open>A statement on \<open>Model(row)\<close> with further conditions: the key is one when it is set.\<close>

definition model_cond :: "uint \<Rightarrow> uint \<Rightarrow> bool" where
  "model_cond i j \<longleftrightarrow> i = 0 \<or> j = i"

text \<open>\<open>Model(row)\<close> with no further condition: without a key gorm refuses the statement.\<close>

definition by_key :: "uint \<Rightarrow> (db_error + 'x) \<Rightarrow> db_error + 'x" where
  "by_key i stmt = (if i = 0 then Inl ErrMissingWhereClause else stmt)"

definition write1 :: "db_error + db \<Rightarrow> db \<Rightarrow> (model_error + unit) \<times> db" where
  "write1 res d = (case res of Inl e \<Rightarrow> (Inl (DbErr e), d) | Inr d' \<Rightarrow> (Inr (), d'))"

definition commit_tx :: "gorm \<Rightarrow> db \<Rightarrow> db \<Rightarrow> (model_error + unit) \<times> db" where
  "commit_tx G d tx =
     (case Commit G tx of Some e \<Rightarrow> (Inl (DbErr e), d) | None \<Rightarrow> (Inr (), tx))"

section \<open>Storage (models/user.go)\<close>

text \<open>
  \<open>storage + ?\<close> and \<open>storage - ?\<close> in MySQL: a value outside the unsigned column is an
  error, not a wrap-around.
\<close>

definition storage_expr :: "gostring \<Rightarrow> u64 \<Rightarrow> user_row \<Rightarrow> user_row option" where
  "storage_expr operator n u =
     (if operator = ''+'' then
        (if unat (u_Storage u) + unat n < 2 ^ 64 then Some (u\<lparr>u_Storage := u_Storage u + n\<rparr>) else None)
      else
        (if n \<le> u_Storage u then Some (u\<lparr>u_Storage := u_Storage u - n\<rparr>) else None))"

definition ChangeStorage :: "gorm \<Rightarrow> uint \<Rightarrow> gostring \<Rightarrow> u64 \<Rightarrow> db \<Rightarrow> db_error + db" where
  "ChangeStorage G uid operator n tx =
     by_key uid (Updates (Users G) (\<lambda>u. u_ID u = uid) (storage_expr operator n) tx)"

definition GetRemainingCapacity :: "user_row \<Rightarrow> u64" where
  "GetRemainingCapacity user =
     (let quota = g_MaxStorage (u_Group user)
      in if quota \<le> u_Storage user then 0 else quota - u_Storage user)"

text \<open>The error of the statement is dropped; the struct is updated in any case.\<close>

definition IncreaseStorageWithoutCheck :: "gorm \<Rightarrow> user_row \<Rightarrow> u64 \<Rightarrow> db \<Rightarrow> user_row \<times> db" where
  "IncreaseStorageWithoutCheck G user n d =
     (if n = 0 then (user, d)
      else
        (user\<lparr>u_Storage := u_Storage user + n\<rparr>,
         case ChangeStorage G (u_ID user) ''+'' n d of Inl _ \<Rightarrow> d | Inr d' \<Rightarrow> d'))"

section \<open>Queries (models/file.go)\<close>

definition GetFilesByIDs :: "gorm \<Rightarrow> uint list \<Rightarrow> uint \<Rightarrow> db \<Rightarrow> db_error + file_row list" where
  "GetFilesByIDs G ids uid d =
     (if uid = 0 then Find (Files G) (\<lambda>f. f_ID f \<in> set ids) d
      else Find (Files G) (\<lambda>f. f_ID f \<in> set ids \<and> f_UserID f = uid) d)"

definition GetChildFiles :: "gorm \<Rightarrow> folder_row \<Rightarrow> db \<Rightarrow> db_error + file_row list" where
  "GetChildFiles G folder d =
     (case Find (Files G) (\<lambda>f. f_FolderID f = d_ID folder) d of
        Inl e \<Rightarrow> Inl e
      | Inr fs \<Rightarrow> Inr (map (\<lambda>f. f\<lparr>f_Position := pathJoin (d_Position folder) (d_Name folder)\<rparr>) fs))"

definition GetChildFilesOfFolders :: "gorm \<Rightarrow> folder_row list \<Rightarrow> db \<Rightarrow> db_error + file_row list" where
  "GetChildFilesOfFolders G fds d =
     (let folderIDs = map d_ID fds in Find (Files G) (\<lambda>f. f_FolderID f \<in> set folderIDs) d)"

text \<open>
  \<open>Find\<close> into a struct: no error when nothing matches, the struct then stays zero;
  otherwise it holds one of the rows.
\<close>

definition find_struct :: "'r \<Rightarrow> db_error + 'r list \<Rightarrow> db_error + 'r" where
  "find_struct zero res =
     (case res of Inl e \<Rightarrow> Inl e | Inr [] \<Rightarrow> Inr zero | Inr (r # _) \<Rightarrow> Inr r)"

definition GetChildFile :: "gorm \<Rightarrow> folder_row \<Rightarrow> gostring \<Rightarrow> db \<Rightarrow> db_error + file_row" where
  "GetChildFile G folder name d =
     (case find_struct zero_file (Find (Files G) (\<lambda>f. f_FolderID f = d_ID folder \<and> f_Name f = name) d) of
        Inl e \<Rightarrow> Inl e
      | Inr f \<Rightarrow> Inr (f\<lparr>f_Position := pathJoin (d_Position folder) (d_Name folder)\<rparr>))"

definition GetFilesByUploadSession :: "gorm \<Rightarrow> gostring \<Rightarrow> uint \<Rightarrow> db \<Rightarrow> db_error + file_row" where
  "GetFilesByUploadSession G sessionID uid d =
     find_struct zero_file
       (Find (Files G) (\<lambda>f. f_UserID f = uid \<and> f_UploadSessionID f = Some sessionID) d)"

text \<open>The error of the query is dropped: the slice is then empty.\<close>

definition GetUploadPlaceholderFiles :: "gorm \<Rightarrow> uint \<Rightarrow> db \<Rightarrow> file_row list" where
  "GetUploadPlaceholderFiles G uid d =
     (case Find (Files G) (\<lambda>f. (uid \<noteq> 0 \<longrightarrow> f_UserID f = uid) \<and> f_UploadSessionID f \<noteq> None) d of
        Inl _ \<Rightarrow> [] | Inr fs \<Rightarrow> fs)"

definition CanCopy :: "file_row \<Rightarrow> bool" where
  "CanCopy f \<longleftrightarrow> f_UploadSessionID f = None"

text \<open>
  \<open>GetPolicy\<close> loads the policy once; the cache entry \<open>policy_<id>\<close> comes first. A failed load
  leaves the zero policy. The result is the file with its policy and the cache. Only policies are
  ever cached under these keys.
\<close>

definition GetPolicyByID ::
  "gorm \<Rightarrow> unix_time \<Rightarrow> uint \<Rightarrow> db \<Rightarrow> cache_obj memo \<Rightarrow> (db_error + policy) \<times> cache_obj memo" where
  "GetPolicyByID G now pid d ch =
     (let cacheKey = ''policy_'' @ formatNat pid
      in case cache_Get now cacheKey ch of
           Some (CObj (CPolicy p)) \<Rightarrow> (Inr p, ch)
         | _ \<Rightarrow>
             (case First (Policies G) (\<lambda>p. p_ID p = pid) d of
                Inl e \<Rightarrow> (Inl e, ch)
              | Inr p \<Rightarrow> (Inr p, cache_Set now cacheKey (CObj (CPolicy p)) (-1) ch)))"

definition GetPolicy :: "gorm \<Rightarrow> unix_time \<Rightarrow> file_row \<Rightarrow> db \<Rightarrow> cache_obj memo \<Rightarrow> file_row \<times> cache_obj memo" where
  "GetPolicy G now f d ch =
     (if p_ID (f_Policy f) = 0 then
        (let (res, ch') = GetPolicyByID G now (f_PolicyID f) d ch
         in (f\<lparr>f_Policy := (case res of Inl _ \<Rightarrow> zero_policy | Inr p \<Rightarrow> p)\<rparr>, ch'))
      else (f, ch))"

section \<open>Soft links (models/file.go)\<close>

text \<open>
  Two files are linked when they have the same source on the same policy. The query joins
  one condition per file with \<open>OR\<close>; with no file there is no condition, and every row
  matches.
\<close>

definition linked :: "file_row \<Rightarrow> file_row \<Rightarrow> bool" where
  "linked f r \<longleftrightarrow> f_SourceName r = f_SourceName f \<and> f_PolicyID r = f_PolicyID f"

definition RemoveFilesWithSoftLinks :: "gorm \<Rightarrow> file_row list \<Rightarrow> db \<Rightarrow> db_error + file_row list" where
  "RemoveFilesWithSoftLinks G fs d =
     (case Find (Files G)
        (\<lambda>r. fs = [] \<or> list_ex (\<lambda>v. linked v r \<and> f_ID r \<noteq> f_ID v) fs) d of
        Inl e \<Rightarrow> Inl e
      | Inr links \<Rightarrow>
          (if links = [] then Inr fs
           else Inr (filter (\<lambda>f. find_first (\<lambda>v. linked f v) links = None) fs)))"

section \<open>Writes (models/file.go)\<close>

definition File_Create :: "gorm \<Rightarrow> file_row \<Rightarrow> db \<Rightarrow> (model_error + file_row) \<times> db" where
  "File_Create G f d =
     (case Create (Files G) f d of
        Inl e \<Rightarrow> (Inl (DbErr e), d)
      | Inr (f', tx) \<Rightarrow>
          (case ChangeStorage G (f_UserID f') ''+'' (f_Size f') tx of
             Inl e \<Rightarrow> (Inl (DbErr e), d)
           | Inr tx' \<Rightarrow>
               (case Commit G tx' of
                  Some e \<Rightarrow> (Inl (DbErr e), d)
                | None \<Rightarrow> (Inr f', tx'))))"

text \<open>On success the struct carries the new size.\<close>

definition UpdateSize :: "gorm \<Rightarrow> file_row \<Rightarrow> u64 \<Rightarrow> db \<Rightarrow> (model_error + file_row) \<times> db" where
  "UpdateSize G f val d =
     (let (operator, sizeDelta) =
        (if val > f_Size f then (''+'', val - f_Size f) else (''-'', f_Size f - val))
      in case Updates (Files G) (\<lambda>r. model_cond (f_ID f) (f_ID r) \<and> f_Size r = f_Size f)
                (\<lambda>r. Some (r\<lparr>f_Size := val\<rparr>)) d of
           Inl e \<Rightarrow> (Inl (DbErr e), d)
         | Inr tx \<Rightarrow>
             (case ChangeStorage G (f_UserID f) operator sizeDelta tx of
                Inl e \<Rightarrow> (Inl (DbErr e), d)
              | Inr tx' \<Rightarrow>
                  (case commit_tx G d tx' of
                     (Inl e, d') \<Rightarrow> (Inl e, d')
                   | (Inr _, d') \<Rightarrow> (Inr (f\<lparr>f_Size := val\<rparr>), d'))))"

text \<open>The loop of \<open>DeleteFiles\<close>: the transaction so far and the sum of the sizes.\<close>

fun DeleteFiles_loop ::
  "gorm \<Rightarrow> uint \<Rightarrow> file_row list \<Rightarrow> db \<Rightarrow> u64 \<Rightarrow> model_error + (u64 \<times> db)" where
  "DeleteFiles_loop G uid [] tx n = Inr (n, tx)"
| "DeleteFiles_loop G uid (f # fs) tx n =
     (if f_UserID f \<noteq> uid then Inl ErrUserNotConsistent
      else case Delete (Files G) (\<lambda>r. model_cond (f_ID f) (f_ID r) \<and> f_Size r = f_Size f) tx of
        Inl e \<Rightarrow> Inl (DbErr e)
      | Inr (affected, tx') \<Rightarrow>
          (if affected = 0 then Inl ErrSizeDirty
           else DeleteFiles_loop G uid fs tx' (n + f_Size f)))"

definition DeleteFiles :: "gorm \<Rightarrow> file_row list \<Rightarrow> uint \<Rightarrow> db \<Rightarrow> (model_error + unit) \<times> db" where
  "DeleteFiles G fs uid d =
     (case DeleteFiles_loop G uid fs d 0 of
        Inl e \<Rightarrow> (Inl e, d)
      | Inr (n, tx) \<Rightarrow>
          (case ChangeStorage G uid ''-'' n tx of
             Inl e \<Rightarrow> (Inl (DbErr e), d)
           | Inr tx' \<Rightarrow> commit_tx G d tx'))"

definition PopChunkToFile ::
  "gorm \<Rightarrow> file_row \<Rightarrow> unix_time option \<Rightarrow> gostring \<Rightarrow> db \<Rightarrow> (model_error + file_row) \<times> db" where
  "PopChunkToFile G f lastModified picInfo d =
     (let f' = f\<lparr>f_UploadSessionID := None,
                 f_UpdatedAt := (case lastModified of None \<Rightarrow> f_UpdatedAt f | Some t \<Rightarrow> t)\<rparr>
      in case by_key (f_ID f)
           (UpdateColumns (Files G) (\<lambda>r. f_ID r = f_ID f)
             (\<lambda>r. Some (r\<lparr>f_UploadSessionID := None, f_UpdatedAt := f_UpdatedAt f', f_PicInfo := picInfo\<rparr>)) d) of
           Inl e \<Rightarrow> (Inl (DbErr e), d)
         | Inr d' \<Rightarrow> (Inr f', d'))"

definition UpdateSourceName :: "gorm \<Rightarrow> file_row \<Rightarrow> gostring \<Rightarrow> db \<Rightarrow> (model_error + unit) \<times> db" where
  "UpdateSourceName G f val d =
     write1 (by_key (f_ID f)
       (Updates (Files G) (\<lambda>r. f_ID r = f_ID f) (\<lambda>r. Some (r\<lparr>f_SourceName := val\<rparr>)) d)) d"

definition File_Rename :: "gorm \<Rightarrow> file_row \<Rightarrow> gostring \<Rightarrow> db \<Rightarrow> (model_error + unit) \<times> db" where
  "File_Rename G f new d =
     write1 (by_key (f_ID f)
       (UpdateColumns (Files G) (\<lambda>r. f_ID r = f_ID f) (\<lambda>r. Some (r\<lparr>f_Name := new\<rparr>)) d)) d"

definition Folder_Rename :: "gorm \<Rightarrow> folder_row \<Rightarrow> gostring \<Rightarrow> db \<Rightarrow> (model_error + unit) \<times> db" where
  "Folder_Rename G fd new d =
     write1 (by_key (d_ID fd)
       (UpdateColumns (Folders G) (\<lambda>r. d_ID r = d_ID fd) (\<lambda>r. Some (r\<lparr>d_Name := new\<rparr>)) d)) d"

section \<open>Storage accounting\<close>

text \<open>
  What a user's files take, and the invariant the writes keep: the \<open>storage\<close> column of every
  user is the sum of the sizes of the files the user owns.
\<close>

definition usage :: "uint \<Rightarrow> file_row list \<Rightarrow> nat" where
  "usage uid fs = sum_list (map (\<lambda>f. unat (f_Size f)) (filter (\<lambda>f. f_UserID f = uid) fs))"

definition accounted :: "db \<Rightarrow> bool" where
  "accounted d \<longleftrightarrow> (\<forall>u\<in>set (users d). unat (u_Storage u) = usage (u_ID u) (files d))"

definition file_keys :: "db \<Rightarrow> bool" where
  "file_keys d \<longleftrightarrow> distinct (map f_ID (files d)) \<and> 0 \<notin> f_ID ` set (files d)"

lemma usage_simps [simp]:
  "usage uid [] = 0"
  "usage uid (f # fs) = (if f_UserID f = uid then unat (f_Size f) else 0) + usage uid fs"
  "usage uid (fs @ gs) = usage uid fs + usage uid gs"
  by (simp_all add: usage_def)

text \<open>A struct that agrees with its row.\<close>

definition in_sync :: "file_row \<Rightarrow> db \<Rightarrow> bool" where
  "in_sync f d \<longleftrightarrow>
     (\<exists>r\<in>set (files d). f_ID r = f_ID f \<and> f_Size r = f_Size f \<and> f_UserID r = f_UserID f)"

lemma usage_resize:
  assumes "distinct (map f_ID fs)" and "r \<in> set fs"
  shows "usage uid (map (\<lambda>x. if f_ID x = f_ID r \<and> f_Size x = f_Size r then g x else x) fs)
           + (if f_UserID r = uid then unat (f_Size r) else 0) =
         usage uid fs + (if f_UserID (g r) = uid then unat (f_Size (g r)) else 0)"
  using assms
proof (induction fs)
  case Nil
  then show ?case by simp
next
  case (Cons x fs)
  show ?case
  proof (cases "x = r")
    case True
    then have "f_ID r \<notin> f_ID ` set fs" using Cons.prems(1) by simp
    then have "\<forall>x\<in>set fs. f_ID x \<noteq> f_ID r" by (metis imageI)
    then have "map (\<lambda>x. if f_ID x = f_ID r \<and> f_Size x = f_Size r then g x else x) fs = fs"
      by (intro map_idI) auto
    with True show ?thesis by simp
  next
    case False
    then have "r \<in> set fs" "f_ID x \<noteq> f_ID r"
      using Cons.prems by auto
    with Cons show ?thesis by simp
  qed
qed

lemma usage_remove:
  assumes "distinct (map f_ID fs)" and "r \<in> set fs"
  shows "usage uid (filter (\<lambda>x. \<not> (f_ID x = f_ID r \<and> f_Size x = f_Size r)) fs)
           + (if f_UserID r = uid then unat (f_Size r) else 0) = usage uid fs"
  using assms
proof (induction fs)
  case Nil
  then show ?case by simp
next
  case (Cons x fs)
  show ?case
  proof (cases "x = r")
    case True
    then have "f_ID r \<notin> f_ID ` set fs" using Cons.prems(1) by simp
    then have "\<forall>x\<in>set fs. f_ID x \<noteq> f_ID r" by (metis imageI)
    then have "filter (\<lambda>x. \<not> (f_ID x = f_ID r \<and> f_Size x = f_Size r)) fs = fs"
      by (intro filter_True) auto
    with True show ?thesis by simp
  next
    case False
    then have "r \<in> set fs" "f_ID x \<noteq> f_ID r"
      using Cons.prems by auto
    with Cons show ?thesis by simp
  qed
qed

lemma set_files_same: "set_files (files d) d = d"
  by (cases d) simp

context gorm_db
begin

lemma ChangeStorage_rows:
  assumes "ChangeStorage G uid op n tx = Inr tx'"
  shows "files tx' = files tx" and "uid \<noteq> 0"
    and "users tx' = map (\<lambda>u. if u_ID u = uid then the (storage_expr op n u) else u) (users tx)"
    and "\<And>u. u \<in> set (users tx) \<Longrightarrow> u_ID u = uid \<Longrightarrow> storage_expr op n u \<noteq> None"
    and "tx' = tx\<lparr>users := users tx'\<rparr>"
proof -
  have uid: "uid \<noteq> 0" and upd: "Updates (Users G) (\<lambda>u. u_ID u = uid) (storage_expr op n) tx = Inr tx'"
    using assms by (auto simp: ChangeStorage_def by_key_def split: if_splits)
  from uid show "uid \<noteq> 0" .
  from users.update_rows [OF upd]
  have tx': "tx' = set_users (map (\<lambda>u. if u_ID u = uid then the (storage_expr op n u) else u) (users tx)) tx"
    by simp
  from tx' show "files tx' = files tx"
    and "users tx' = map (\<lambda>u. if u_ID u = uid then the (storage_expr op n u) else u) (users tx)"
    and "tx' = tx\<lparr>users := users tx'\<rparr>" by simp_all
  show "\<And>u. u \<in> set (users tx) \<Longrightarrow> u_ID u = uid \<Longrightarrow> storage_expr op n u \<noteq> None"
    by (rule users.update_fits [OF upd])
qed

text \<open>The storage columns before and after, as numbers.\<close>

lemma ChangeStorage_plus:
  assumes "ChangeStorage G uid ''+'' n tx = Inr tx'"
    and "\<forall>u\<in>set (users tx). unat (u_Storage u) = h (u_ID u)"
  shows "\<forall>u\<in>set (users tx'). unat (u_Storage u) = h (u_ID u) + (if u_ID u = uid then unat n else 0)"
proof
  fix u' assume "u' \<in> set (users tx')"
  then obtain u where u: "u \<in> set (users tx)"
    and u': "u' = (if u_ID u = uid then the (storage_expr ''+'' n u) else u)"
    by (auto simp: ChangeStorage_rows(3) [OF assms(1)])
  show "unat (u_Storage u') = h (u_ID u') + (if u_ID u' = uid then unat n else 0)"
  proof (cases "u_ID u = uid")
    case True
    then have "unat (u_Storage u) + unat n < 2 ^ 64"
        "the (storage_expr ''+'' n u) = u\<lparr>u_Storage := u_Storage u + n\<rparr>"
      using ChangeStorage_rows(4) [OF assms(1) u] by (auto simp: storage_expr_def split: if_splits)
    then show ?thesis
      using True u u' assms(2) unat_add_fits [of "u_Storage u" n] by simp
  next
    case False
    then show ?thesis using u u' assms(2) by simp
  qed
qed

lemma ChangeStorage_minus:
  assumes "ChangeStorage G uid ''-'' n tx = Inr tx'"
    and "\<forall>u\<in>set (users tx). unat (u_Storage u) = h (u_ID u)"
  shows "\<forall>u\<in>set (users tx'). unat (u_Storage u) + (if u_ID u = uid then unat n else 0) = h (u_ID u)"
proof
  fix u' assume "u' \<in> set (users tx')"
  then obtain u where u: "u \<in> set (users tx)"
    and u': "u' = (if u_ID u = uid then the (storage_expr ''-'' n u) else u)"
    by (auto simp: ChangeStorage_rows(3) [OF assms(1)])
  show "unat (u_Storage u') + (if u_ID u' = uid then unat n else 0) = h (u_ID u')"
  proof (cases "u_ID u = uid")
    case True
    then have "n \<le> u_Storage u" "the (storage_expr ''-'' n u) = u\<lparr>u_Storage := u_Storage u - n\<rparr>"
      using ChangeStorage_rows(4) [OF assms(1) u] by (auto simp: storage_expr_def split: if_splits)
    then show ?thesis
      using True u u' assms(2) by (simp add: unat_sub_le u64_le_iff)
  next
    case False
    then show ?thesis using u u' assms(2) by simp
  qed
qed

lemma File_Create_cases:
  "File_Create G f d = (res, d') \<Longrightarrow>
   (\<exists>e. res = Inl e \<and> d' = d) \<or>
   (\<exists>f' tx. res = Inr f' \<and> Create (Files G) f d = Inr (f', tx) \<and>
      ChangeStorage G (f_UserID f') ''+'' (f_Size f') tx = Inr d')"
  by (auto simp: File_Create_def split: sum.splits option.splits prod.splits)

lemma File_Create_accounted:
  assumes "File_Create G f d = (res, d')" and "accounted d"
  shows "accounted d'"
  using File_Create_cases [OF assms(1)]
proof (elim disjE exE conjE)
  fix e assume "d' = d" then show ?thesis using assms(2) by simp
next
  fix f' tx assume "res = Inr f'" and c: "Create (Files G) f d = Inr (f', tx)"
    and s: "ChangeStorage G (f_UserID f') ''+'' (f_Size f') tx = Inr d'"
  from files.create_row [OF c] have tx: "tx = set_files (files d @ [file_cols f']) d" by auto
  then have "\<forall>u\<in>set (users tx). unat (u_Storage u) = usage (u_ID u) (files d)"
    using assms(2) by (simp add: accounted_def)
  from ChangeStorage_plus [OF s this] show ?thesis
    by (auto simp: accounted_def ChangeStorage_rows(1) [OF s] tx file_cols_def)
qed

lemma File_Create_row:
  assumes "File_Create G f d = (Inr f', d')"
  shows "f_ID f' \<noteq> 0" and "f_ID f' \<notin> f_ID ` set (files d)"
    and "files d' = files d @ [file_cols f']"
    and "f_Name f' = f_Name f \<and> f_Size f' = f_Size f \<and> f_UserID f' = f_UserID f \<and>
         f_FolderID f' = f_FolderID f \<and> f_SourceName f' = f_SourceName f \<and>
         f_PolicyID f' = f_PolicyID f \<and> f_UploadSessionID f' = f_UploadSessionID f"
proof -
  from File_Create_cases [OF assms] obtain tx where c: "Create (Files G) f d = Inr (f', tx)"
    and s: "ChangeStorage G (f_UserID f') ''+'' (f_Size f') tx = Inr d'" by auto
  from files.create_row [OF c] obtain t i where
    *: "i \<noteq> 0" "i \<notin> f_ID ` set (files d)" "f' = file_stamp t i f"
       "tx = set_files (files d @ [file_cols f']) d"
    by blast
  then show "f_ID f' \<noteq> 0" "f_ID f' \<notin> f_ID ` set (files d)" "files d' = files d @ [file_cols f']"
    "f_Name f' = f_Name f \<and> f_Size f' = f_Size f \<and> f_UserID f' = f_UserID f \<and>
         f_FolderID f' = f_FolderID f \<and> f_SourceName f' = f_SourceName f \<and>
         f_PolicyID f' = f_PolicyID f \<and> f_UploadSessionID f' = f_UploadSessionID f"
    using ChangeStorage_rows(1) [OF s] by (auto simp: file_stamp_def)
qed

lemma UpdateSize_cases:
  assumes "UpdateSize G f val d = (res, d')"
  obtains e where "res = Inl e" "d' = d"
  | tx op n where "res = Inr (f\<lparr>f_Size := val\<rparr>)"
      "Updates (Files G) (\<lambda>r. model_cond (f_ID f) (f_ID r) \<and> f_Size r = f_Size f)
         (\<lambda>r. Some (r\<lparr>f_Size := val\<rparr>)) d = Inr tx"
      "ChangeStorage G (f_UserID f) op n tx = Inr d'"
      "(op, n) = (if val > f_Size f then (''+'', val - f_Size f) else (''-'', f_Size f - val))"
  using assms
  by (auto simp: UpdateSize_def commit_tx_def Let_def split: sum.splits option.splits prod.splits if_splits)

lemma UpdateSize_accounted:
  assumes "UpdateSize G f val d = (res, d')" and "accounted d" and "file_keys d" and "in_sync f d"
  shows "accounted d'"
  using assms(1)
proof (cases rule: UpdateSize_cases)
  case 1
  then show ?thesis using assms(2) by simp
next
  case (2 tx op n)
  from assms(4) obtain r where r: "r \<in> set (files d)" "f_ID r = f_ID f" "f_Size r = f_Size f"
      "f_UserID r = f_UserID f"
    by (auto simp: in_sync_def)
  have nz: "f_ID f \<noteq> 0" using r assms(3) by (force simp: file_keys_def)
  from files.update_rows [OF 2(2)] obtain t where
    "tx = set_files (map (\<lambda>x. if model_cond (f_ID f) (f_ID x) \<and> f_Size x = f_Size f
            then file_touch t (the (Some (x\<lparr>f_Size := val\<rparr>))) else x) (files d)) d" by blast
  then have tx: "tx = set_files (map (\<lambda>x. if f_ID x = f_ID r \<and> f_Size x = f_Size r
            then file_touch t (x\<lparr>f_Size := val\<rparr>) else x) (files d)) d"
    using nz by (simp add: model_cond_def r)
  have us: "usage uid (files tx) + (if f_UserID f = uid then unat (f_Size f) else 0) =
      usage uid (files d) + (if f_UserID f = uid then unat val else 0)" for uid
    using usage_resize [of "files d" r uid "\<lambda>x. file_touch t (x\<lparr>f_Size := val\<rparr>)"] assms(3) r
    by (cases "f_UserID f = uid") (simp_all add: tx file_keys_def file_touch_def)
  have old: "\<forall>u\<in>set (users tx). unat (u_Storage u) = usage (u_ID u) (files d)"
    using assms(2) by (simp add: accounted_def tx)
  show ?thesis
  proof (cases "val > f_Size f")
    case True
    then have op: "op = ''+''" "n = val - f_Size f" using 2(4) by auto
    have "unat n = unat val - unat (f_Size f)"
      using True by (simp add: op unat_sub_le)
    moreover have "unat (f_Size f) < unat val" using True by (simp add: u64_less_iff)
    ultimately have n: "unat (f_Size f) + unat n = unat val" by simp
    show ?thesis
      unfolding accounted_def ChangeStorage_rows(1) [OF 2(3)]
    proof
      fix u assume "u \<in> set (users d')"
      then have "unat (u_Storage u) = usage (u_ID u) (files d) + (if u_ID u = f_UserID f then unat n else 0)"
        using ChangeStorage_plus [OF 2(3) [unfolded op(1)] old] by blast
      then show "unat (u_Storage u) = usage (u_ID u) (files tx)"
        using us [of "u_ID u"] n by (cases "f_UserID f = u_ID u") simp_all
    qed
  next
    case False
    then have op: "op = ''-''" "n = f_Size f - val" using 2(4) by auto
    have "unat n = unat (f_Size f) - unat val" "unat val \<le> unat (f_Size f)"
      using False by (simp_all add: op unat_sub_le not_less u64_le_iff)
    then have n: "unat val + unat n = unat (f_Size f)" by simp
    show ?thesis
      unfolding accounted_def ChangeStorage_rows(1) [OF 2(3)]
    proof
      fix u assume "u \<in> set (users d')"
      then have "unat (u_Storage u) + (if u_ID u = f_UserID f then unat n else 0) = usage (u_ID u) (files d)"
        using ChangeStorage_minus [OF 2(3) [unfolded op(1)] old] by blast
      then show "unat (u_Storage u) = usage (u_ID u) (files tx)"
        using us [of "u_ID u"] n by (cases "f_UserID f = u_ID u") simp_all
    qed
  qed
qed

text \<open>The loop of \<open>DeleteFiles\<close> removes one row per file and adds up what they took.\<close>

lemma DeleteFiles_step:
  assumes del: "Delete (Files G) (\<lambda>r. model_cond (f_ID f) (f_ID r) \<and> f_Size r = f_Size f) tx = Inr (k, tx')"
    and k: "k \<noteq> 0" and keys: "file_keys tx" and nz: "f_ID f \<noteq> 0"
    and own: "\<forall>r\<in>set (files tx). f_ID r = f_ID f \<longrightarrow> f_UserID r = f_UserID f"
  shows "tx' = set_files (filter (\<lambda>r. f_ID r \<noteq> f_ID f) (files tx)) tx"
    and "f_ID f \<in> f_ID ` set (files tx)"
    and "usage uid (files tx') + (if f_UserID f = uid then unat (f_Size f) else 0) = usage uid (files tx)"
    and "file_keys tx'"
proof -
  let ?P = "\<lambda>r. f_ID r = f_ID f \<and> f_Size r = f_Size f"
  have mc: "model_cond (f_ID f) = (\<lambda>j. j = f_ID f)"
    using nz by (simp add: model_cond_def fun_eq_iff)
  from files.delete_rows [OF del] have tx': "tx' = set_files (filter (\<lambda>r. \<not> ?P r) (files tx)) tx"
    and kl: "k = length (filter ?P (files tx))"
    by (simp_all add: mc)
  from kl k obtain r where r: "r \<in> set (files tx)" "f_ID r = f_ID f" "f_Size r = f_Size f"
    by (auto simp: filter_empty_conv)
  have ro: "f_UserID r = f_UserID f" using own r by blast
  have "\<forall>x\<in>set (files tx). f_ID x = f_ID f \<longrightarrow> x = r"
  proof (intro ballI impI)
    fix x assume "x \<in> set (files tx)" "f_ID x = f_ID f"
    then show "x = r"
      using distinct_map_eqD [of f_ID "files tx" x r] keys r by (simp add: file_keys_def)
  qed
  then have "x \<in> set (files tx) \<Longrightarrow> (\<not> ?P x) = (f_ID x \<noteq> f_ID f)" for x
    using r(3) by blast
  then have "filter (\<lambda>r. \<not> ?P r) (files tx) = filter (\<lambda>r. f_ID r \<noteq> f_ID f) (files tx)"
    by (rule filter_cong [OF refl])
  with tx' show "tx' = set_files (filter (\<lambda>r. f_ID r \<noteq> f_ID f) (files tx)) tx" by simp
  show "f_ID f \<in> f_ID ` set (files tx)" using r by (metis imageI)
  show "usage uid (files tx') + (if f_UserID f = uid then unat (f_Size f) else 0) = usage uid (files tx)"
    using usage_remove [of "files tx" r uid] keys r ro
    by (cases "f_UserID f = uid") (simp_all add: tx' file_keys_def)
  show "file_keys tx'"
    using keys by (auto simp: file_keys_def tx' distinct_map_filterI)
qed

lemma DeleteFiles_loop_spec:
  assumes "DeleteFiles_loop G uid fs tx n = Inr (n', tx')" and "file_keys tx"
    and "0 \<notin> f_ID ` set fs"
    and "\<forall>f\<in>set fs. \<forall>r\<in>set (files tx). f_ID r = f_ID f \<longrightarrow> f_UserID r = f_UserID f"
  shows "tx' = set_files (filter (\<lambda>r. f_ID r \<notin> f_ID ` set fs) (files tx)) tx
    \<and> f_ID ` set fs \<subseteq> f_ID ` set (files tx)
    \<and> n' = n + of_nat (sum_list (map (\<lambda>f. unat (f_Size f)) fs))
    \<and> usage uid (files tx') + sum_list (map (\<lambda>f. unat (f_Size f)) fs) = usage uid (files tx)
    \<and> (\<forall>u. u \<noteq> uid \<longrightarrow> usage u (files tx') = usage u (files tx))"
  using assms
proof (induction fs arbitrary: tx n)
  case Nil
  then show ?case by (simp add: set_files_same)
next
  case (Cons f fs)
  from Cons.prems(1) obtain k tx1 where own: "f_UserID f = uid"
    and del: "Delete (Files G) (\<lambda>r. model_cond (f_ID f) (f_ID r) \<and> f_Size r = f_Size f) tx = Inr (k, tx1)"
    and k: "k \<noteq> 0" and rest: "DeleteFiles_loop G uid fs tx1 (n + f_Size f) = Inr (n', tx')"
    by (auto split: if_splits sum.splits prod.splits)
  have nz: "f_ID f \<noteq> 0" and own': "\<forall>r\<in>set (files tx). f_ID r = f_ID f \<longrightarrow> f_UserID r = f_UserID f"
    using Cons.prems(3,4) by auto
  note st = DeleteFiles_step [OF del k Cons.prems(2) nz own']
  have IH: "tx' = set_files (filter (\<lambda>r. f_ID r \<notin> f_ID ` set fs) (files tx1)) tx1
    \<and> f_ID ` set fs \<subseteq> f_ID ` set (files tx1)
    \<and> n' = n + f_Size f + of_nat (sum_list (map (\<lambda>f. unat (f_Size f)) fs))
    \<and> usage uid (files tx') + sum_list (map (\<lambda>f. unat (f_Size f)) fs) = usage uid (files tx1)
    \<and> (\<forall>u. u \<noteq> uid \<longrightarrow> usage u (files tx') = usage u (files tx1))"
    by (rule Cons.IH [OF rest st(4)]) (use Cons.prems(3,4) st(1) in auto)
  have filt: "filter (\<lambda>r. f_ID r \<notin> f_ID ` set fs) (files tx1) =
      filter (\<lambda>r. f_ID r \<notin> f_ID ` set (f # fs)) (files tx)"
    by (auto simp: st(1) intro: filter_cong)
  have sub: "f_ID ` set (files tx1) \<subseteq> f_ID ` set (files tx)" by (auto simp: st(1))
  have self: "usage uid (files tx1) + unat (f_Size f) = usage uid (files tx)"
    using st(3) [of uid] own by simp
  have other: "usage u (files tx1) = usage u (files tx)" if "u \<noteq> uid" for u
    using st(3) [of u] own that by simp
  have tx': "tx' = set_files (filter (\<lambda>r. f_ID r \<notin> f_ID ` set (f # fs)) (files tx)) tx"
    using IH filt st(1) by simp
  moreover have "f_ID ` set (f # fs) \<subseteq> f_ID ` set (files tx)"
    using order_trans [OF conjunct1 [OF conjunct2 [OF IH]] sub] st(2) by simp
  moreover have "n' = n + of_nat (sum_list (map (\<lambda>f. unat (f_Size f)) (f # fs)))"
    using IH by (simp add: add.assoc)
  moreover have "usage uid (files tx') + sum_list (map (\<lambda>f. unat (f_Size f)) (f # fs)) = usage uid (files tx)"
  proof -
    have "usage uid (files tx') + sum_list (map (\<lambda>f. unat (f_Size f)) fs) = usage uid (files tx1)"
      using IH by blast
    then show ?thesis using self by simp
  qed
  moreover have "\<forall>u. u \<noteq> uid \<longrightarrow> usage u (files tx') = usage u (files tx)"
    using IH other by metis
  ultimately show ?case by blast
qed

text \<open>What a successful \<open>DeleteFiles\<close> did, and that a failed one did nothing.\<close>

lemma DeleteFiles_cases:
  assumes "DeleteFiles G fs uid d = (res, d')"
  obtains e where "res = Inl e" "d' = d"
  | n tx where "res = Inr ()" "DeleteFiles_loop G uid fs d 0 = Inr (n, tx)"
      "ChangeStorage G uid ''-'' n tx = Inr d'"
  using assms
  by (auto simp: DeleteFiles_def commit_tx_def split: sum.splits option.splits prod.splits)

lemma DeleteFiles_effect:
  assumes "DeleteFiles G fs uid d = (Inr (), d')" and "file_keys d" and "0 \<notin> f_ID ` set fs"
    and "\<forall>f\<in>set fs. \<forall>r\<in>set (files d). f_ID r = f_ID f \<longrightarrow> f_UserID r = f_UserID f"
  shows "files d' = filter (\<lambda>r. f_ID r \<notin> f_ID ` set fs) (files d)"
    and "f_ID ` set fs \<subseteq> f_ID ` set (files d)"
    and "accounted d \<Longrightarrow> accounted d'"
proof -
  from assms(1) obtain n tx where l: "DeleteFiles_loop G uid fs d 0 = Inr (n, tx)"
    and s: "ChangeStorage G uid ''-'' n tx = Inr d'"
    by (cases rule: DeleteFiles_cases) auto
  note spec = DeleteFiles_loop_spec [OF l assms(2-4)]
  have tx: "tx = set_files (filter (\<lambda>r. f_ID r \<notin> f_ID ` set fs) (files d)) d" using spec by blast
  show "files d' = filter (\<lambda>r. f_ID r \<notin> f_ID ` set fs) (files d)"
    by (simp add: ChangeStorage_rows(1) [OF s] tx)
  show "f_ID ` set fs \<subseteq> f_ID ` set (files d)" using spec by blast
  assume acc: "accounted d"
  then have old: "\<forall>u\<in>set (users tx). unat (u_Storage u) = usage (u_ID u) (files d)"
    by (simp add: accounted_def tx)
  show "accounted d'"
    unfolding accounted_def ChangeStorage_rows(1) [OF s]
  proof
    fix u assume u: "u \<in> set (users d')"
    have eq: "unat (u_Storage u) + (if u_ID u = uid then unat n else 0) = usage (u_ID u) (files d)"
      using ChangeStorage_minus [OF s old] u by blast
    show "unat (u_Storage u) = usage (u_ID u) (files tx)"
    proof (cases "u_ID u = uid")
      case False
      then have "usage (u_ID u) (files tx) = usage (u_ID u) (files d)" using spec by blast
      then show ?thesis using eq False by simp
    next
      case True
      let ?S = "sum_list (map (\<lambda>f. unat (f_Size f)) fs)"
      from u obtain u0 where "u0 \<in> set (users d)" "u_ID u0 = uid"
        using True ChangeStorage_rows(3,4) [OF s]
        by (auto simp: tx storage_expr_def split: if_splits)
      then have "unat (u_Storage u0) = usage uid (files d)"
        using acc by (auto simp: accounted_def)
      then have "usage uid (files d) < 2 ^ 64"
        using unat_lt_u64 [of "u_Storage u0"] by simp
      moreover have us: "usage uid (files tx) + ?S = usage uid (files d)" using spec by blast
      ultimately have "unat n = ?S"
        using spec unat_of_nat_small [of ?S] by simp
      then show ?thesis using eq True us by simp
    qed
  qed
qed

end

section \<open>Properties\<close>

definition one_file_db :: db where
  "one_file_db = empty_db\<lparr>
     files := [zero_file\<lparr>f_ID := 1, f_Name := ''a'', f_UserID := 7, f_Size := 5, f_FolderID := 2\<rparr>],
     users := [zero_user\<lparr>u_ID := 7, u_Storage := 5\<rparr>]\<rparr>"

lemmas one_file_simps = one_file_db_def empty_db_def zero_file_def zero_user_def

lemma one_file_ok:
  "accounted one_file_db" "file_keys one_file_db" "in_sync (files one_file_db ! 0) one_file_db"
  by (simp_all add: accounted_def file_keys_def in_sync_def one_file_simps)

text \<open>
  Creating a file record keeps the accounting: the storage column of every user stays
  the sum of the sizes of the user's files; and when any statement fails, nothing is written.
\<close>

theorem File_Create_keeps_accounts:
  assumes "gorm_db G" and "accounted d" and "File_Create G f d = (res, d')"
  shows "accounted d' \<and> (\<not> isl res \<or> d' = d)"
proof
  show "accounted d'" by (rule gorm_db.File_Create_accounted [OF assms(1,3,2)])
  show "\<not> isl res \<or> d' = d" using gorm_db.File_Create_cases [OF assms(1,3)] by auto
qed

theorem File_Create_keeps_accounts_witness:
  "accounted (snd (File_Create sound_gorm (zero_file\<lparr>f_UserID := 7, f_Size := 9\<rparr>) one_file_db)) \<and>
   map u_Storage (users (snd (File_Create sound_gorm (zero_file\<lparr>f_UserID := 7, f_Size := 9\<rparr>) one_file_db))) = [14]"
proof -
  have "accounted (snd (File_Create sound_gorm (zero_file\<lparr>f_UserID := 7, f_Size := 9\<rparr>) one_file_db))"
    by (rule File_Create_keeps_accounts [OF sound_gorm_laws one_file_ok(1) surjective_pairing, THEN conjunct1])
  then show ?thesis
    by (simp add: File_Create_def ChangeStorage_def by_key_def storage_expr_def sound_simps one_file_simps Let_def)
qed

text \<open>
  Changing the size of a file through a struct that agrees with its row keeps the
  accounting, whether the size grows or shrinks; an error writes nothing.
\<close>

theorem UpdateSize_keeps_accounts:
  assumes "gorm_db G" and "accounted d" and "file_keys d" and "in_sync f d"
    and "UpdateSize G f val d = (res, d')"
  shows "accounted d' \<and> (\<not> isl res \<or> d' = d)"
proof
  show "accounted d'" by (rule gorm_db.UpdateSize_accounted [OF assms(1,5,2,3,4)])
  show "\<not> isl res \<or> d' = d"
    by (rule gorm_db.UpdateSize_cases [OF assms(1,5)]) simp_all
qed

theorem UpdateSize_keeps_accounts_witness:
  "accounted (snd (UpdateSize sound_gorm (files one_file_db ! 0) 3 one_file_db)) \<and>
   map u_Storage (users (snd (UpdateSize sound_gorm (files one_file_db ! 0) 3 one_file_db))) = [3]"
proof -
  have "accounted (snd (UpdateSize sound_gorm (files one_file_db ! 0) 3 one_file_db))"
    by (rule UpdateSize_keeps_accounts [OF sound_gorm_laws one_file_ok surjective_pairing, THEN conjunct1])
  then show ?thesis
    by (simp add: UpdateSize_def commit_tx_def model_cond_def ChangeStorage_def by_key_def storage_expr_def
        sound_simps one_file_simps Let_def)
qed

text \<open>
  Without that agreement it does not: with a struct whose size is out of date no file row
  changes, nothing is reported, and the user's storage changes all the same.
\<close>

theorem UpdateSize_stale_struct:
  "let f = (files one_file_db ! 0)\<lparr>f_Size := 4\<rparr>; (res, d') = UpdateSize sound_gorm f 9 one_file_db
   in accounted one_file_db \<and> \<not> isl res \<and> files d' = files one_file_db \<and> \<not> accounted d'"
  by (simp add: UpdateSize_def commit_tx_def model_cond_def ChangeStorage_def by_key_def storage_expr_def
      accounted_def sound_simps one_file_simps Let_def)

text \<open>
  Deleting files removes exactly the rows of the given files, each of which was there,
  and takes the sum of their sizes off the owner, so that the accounting holds; an error at
  any file, or a file whose size changed in between, leaves the database as it was.
\<close>

theorem DeleteFiles_exact:
  assumes "gorm_db G" and "file_keys d" and "0 \<notin> f_ID ` set fs"
    and "\<forall>f\<in>set fs. \<forall>r\<in>set (files d). f_ID r = f_ID f \<longrightarrow> f_UserID r = f_UserID f"
    and "DeleteFiles G fs uid d = (res, d')"
  shows "(isl res \<longrightarrow> d' = d) \<and>
    (\<not> isl res \<longrightarrow> files d' = filter (\<lambda>r. f_ID r \<notin> f_ID ` set fs) (files d) \<and>
      f_ID ` set fs \<subseteq> f_ID ` set (files d)) \<and>
    (accounted d \<longrightarrow> accounted d')"
proof (intro conjI)
  show keep: "isl res \<longrightarrow> d' = d"
    by (rule gorm_db.DeleteFiles_cases [OF assms(1,5)]) simp_all
  have ok: "DeleteFiles G fs uid d = (Inr (), d')" if "\<not> isl res"
    using that assms(5) by (cases res) simp_all
  show "\<not> isl res \<longrightarrow> files d' = filter (\<lambda>r. f_ID r \<notin> f_ID ` set fs) (files d) \<and>
      f_ID ` set fs \<subseteq> f_ID ` set (files d)"
    using gorm_db.DeleteFiles_effect(1,2) [OF assms(1) ok assms(2,3,4)] by blast
  show "accounted d \<longrightarrow> accounted d'"
    using keep gorm_db.DeleteFiles_effect(3) [OF assms(1) ok assms(2,3,4)] by (cases "isl res") simp_all
qed

theorem DeleteFiles_exact_witness:
  "snd (DeleteFiles sound_gorm [files one_file_db ! 0] 7 one_file_db) =
     one_file_db\<lparr>files := [], users := [zero_user\<lparr>u_ID := 7\<rparr>]\<rparr> \<and>
   accounted (snd (DeleteFiles sound_gorm [files one_file_db ! 0] 7 one_file_db))"
proof -
  have "accounted (snd (DeleteFiles sound_gorm [files one_file_db ! 0] 7 one_file_db))"
    by (rule mp [OF DeleteFiles_exact [OF sound_gorm_laws one_file_ok(2) _ _ surjective_pairing, THEN conjunct2, THEN conjunct2] one_file_ok(1)])
       (simp_all add: one_file_simps)
  then show ?thesis
    by (simp add: DeleteFiles_def commit_tx_def model_cond_def ChangeStorage_def by_key_def storage_expr_def
        sound_simps one_file_simps Let_def)
qed

end
