(* ===== verification/ModelsFolder.thy ===== *)
theory ModelsFolder
  imports ModelsFile
begin

text \<open>
  \<open>models/folder.go\<close>: lookup in the folder tree, the recursive listing, copying and moving.
  The copies run outside a transaction: an error leaves what was written before it.
\<close>

section \<open>Queries\<close>

definition Root :: "gorm \<Rightarrow> uint \<Rightarrow> db \<Rightarrow> db_error + folder_row" where
  "Root G uid d = First (Folders G) (\<lambda>r. d_ParentID r = None \<and> d_OwnerID r = uid) d"

text \<open>
  \<open>TraceRoot\<close> climbs to the root; nothing in the code bounds the climb, so \<open>None\<close> is a call
  that does not return. The result is the folder with its position, and the error.
\<close>

partial_function (option) TraceRoot ::
  "gorm \<Rightarrow> db \<Rightarrow> folder_row \<Rightarrow> (folder_row \<times> db_error option) option" where
  "TraceRoot G d folder =
     (case d_ParentID folder of
        None \<Rightarrow> Some (folder, None)
      | Some pid \<Rightarrow>
          (case First (Folders G) (\<lambda>r. d_ID r = pid \<and> d_OwnerID r = d_OwnerID folder) d of
             Inl e \<Rightarrow> Some (folder, Some e)
           | Inr parent \<Rightarrow>
               Option.bind (TraceRoot G d parent) (\<lambda>res. case res of (p, err) \<Rightarrow>
                 Some (folder\<lparr>d_Position := pathJoin (d_Position p) (d_Name p)\<rparr>, err))))"

definition GetFolderByIDs :: "gorm \<Rightarrow> uint list \<Rightarrow> uint \<Rightarrow> db \<Rightarrow> db_error + folder_row list" where
  "GetFolderByIDs G ids uid d = Find (Folders G) (\<lambda>r. d_ID r \<in> set ids \<and> d_OwnerID r = uid) d"

definition GetFoldersByIDs :: "gorm \<Rightarrow> uint list \<Rightarrow> uint \<Rightarrow> db \<Rightarrow> db_error + folder_row list" where
  "GetFoldersByIDs G ids uid d = Find (Folders G) (\<lambda>r. d_ID r \<in> set ids \<and> d_OwnerID r = uid) d"

definition GetChildFolder :: "gorm \<Rightarrow> folder_row \<Rightarrow> db \<Rightarrow> db_error + folder_row list" where
  "GetChildFolder G folder d =
     (case Find (Folders G) (\<lambda>r. d_ParentID r = Some (d_ID folder)) d of
        Inl e \<Rightarrow> Inl e
      | Inr fs \<Rightarrow> Inr (map (\<lambda>f. f\<lparr>d_Position := pathJoin (d_Position folder) (d_Name folder)\<rparr>) fs))"

definition GetChild :: "gorm \<Rightarrow> folder_row \<Rightarrow> gostring \<Rightarrow> db \<Rightarrow> db_error + folder_row" where
  "GetChild G folder name d =
     (case First (Folders G)
        (\<lambda>r. d_ParentID r = Some (d_ID folder) \<and> d_OwnerID r = d_OwnerID folder \<and> d_Name r = name) d of
        Inl e \<Rightarrow> Inl e
      | Inr r \<Rightarrow> Inr (r\<lparr>d_Position := pathJoin (d_Position folder) (d_Name folder)\<rparr>))"

text \<open>
  The listing goes level by level, at most 65535 levels; the error of a query inside the
  loop ends the loop, and is the error of the result.
\<close>

definition max_levels :: nat where
  "max_levels = 65535"

function grc_loop ::
  "gorm \<Rightarrow> uint \<Rightarrow> db \<Rightarrow> nat \<Rightarrow> uint list \<Rightarrow> folder_row list \<Rightarrow> folder_row list \<times> db_error option" where
  "grc_loop G uid d i parentIDs acc =
     (if i < max_levels then
        (case Find (Folders G)
           (\<lambda>r. d_OwnerID r = uid \<and> (case d_ParentID r of None \<Rightarrow> False | Some p \<Rightarrow> p \<in> set parentIDs)) d of
           Inl e \<Rightarrow> (acc, Some e)
         | Inr parFolders \<Rightarrow>
             (if parFolders = [] then (acc, None)
              else grc_loop G uid d (Suc i) (map d_ID parFolders) (acc @ parFolders)))
      else (acc, None))"
  by pat_completeness auto
termination
  by (relation "measure (\<lambda>(G, uid, d, i, ps, acc). max_levels - i)") auto

declare grc_loop.simps [simp del]

definition GetRecursiveChildFolder ::
  "gorm \<Rightarrow> uint list \<Rightarrow> uint \<Rightarrow> bool \<Rightarrow> db \<Rightarrow> folder_row list \<times> db_error option" where
  "GetRecursiveChildFolder G dirs uid includeSelf d =
     (case Find (Folders G) (\<lambda>r. d_OwnerID r = uid \<and> d_ID r \<in> set dirs) d of
        Inl e \<Rightarrow> ([], Some e)
      | Inr parFolders \<Rightarrow>
          grc_loop G uid d 0 (map d_ID parFolders) (if includeSelf then parFolders else []))"

section \<open>Writes\<close>

text \<open>\<open>FirstOrCreate(folder, *folder)\<close>: the condition is every field that is not zero.\<close>

definition same_fields :: "folder_row \<Rightarrow> folder_row \<Rightarrow> bool" where
  "same_fields f r \<longleftrightarrow>
     (d_ID f \<noteq> 0 \<longrightarrow> d_ID r = d_ID f) \<and> (d_Name f \<noteq> [] \<longrightarrow> d_Name r = d_Name f) \<and>
     (d_ParentID f \<noteq> None \<longrightarrow> d_ParentID r = d_ParentID f) \<and>
     (d_OwnerID f \<noteq> 0 \<longrightarrow> d_OwnerID r = d_OwnerID f)"

definition FirstOrCreate :: "gorm \<Rightarrow> folder_row \<Rightarrow> db \<Rightarrow> (db_error + folder_row) \<times> db" where
  "FirstOrCreate G folder d =
     (case First (Folders G) (same_fields folder) d of
        Inr r \<Rightarrow> (Inr r, d)
      | Inl e \<Rightarrow>
          (if e = ErrRecordNotFound then
             (case Create (Folders G) folder d of
                Inl e' \<Rightarrow> (Inl e', d)
              | Inr (r, d') \<Rightarrow> (Inr r, d'))
           else (Inl e, d)))"

text \<open>\<open>gorm.Model{}\<close>\<close>

definition reset_folder :: "folder_row \<Rightarrow> folder_row" where
  "reset_folder f = f\<lparr>d_ID := 0, d_CreatedAt := 0, d_UpdatedAt := 0\<rparr>"

definition reset_file :: "file_row \<Rightarrow> file_row" where
  "reset_file f = f\<lparr>f_ID := 0, f_CreatedAt := 0, f_UpdatedAt := 0\<rparr>"

definition Folder_Create :: "gorm \<Rightarrow> folder_row \<Rightarrow> db \<Rightarrow> (db_error + folder_row) \<times> db" where
  "Folder_Create G folder d =
     (case FirstOrCreate G folder d of
        (Inr r, d') \<Rightarrow> (Inr r, d')
      | (Inl e, d') \<Rightarrow> (First (Folders G) (same_fields (reset_folder folder)) d', d'))"

definition DeleteFolderByIDs :: "gorm \<Rightarrow> uint list \<Rightarrow> db \<Rightarrow> (db_error + unit) \<times> db" where
  "DeleteFolderByIDs G ids d =
     (case Delete (Folders G) (\<lambda>r. d_ID r \<in> set ids) d of
        Inl e \<Rightarrow> (Inl e, d) | Inr (n, d') \<Rightarrow> (Inr (), d'))"

text \<open>The loop over the folders of \<open>CopyFolderTo\<close>: the new key of every folder copied.\<close>

fun copy_folders ::
  "gorm \<Rightarrow> uint \<Rightarrow> folder_row \<Rightarrow> folder_row list \<Rightarrow> (uint \<rightharpoonup> uint) \<Rightarrow> db \<Rightarrow>
   (model_error + (uint \<rightharpoonup> uint)) \<times> db" where
  "copy_folders G folderID dst [] newIDCache d = (Inr newIDCache, d)"
| "copy_folders G folderID dst (f # fs) newIDCache d =
     (let parent =
        (if d_ID f = folderID then Inr (d_ID dst)
         else case d_ParentID f of
           None \<Rightarrow> Inl NilPanic
         | Some p \<Rightarrow> (case newIDCache p of Some n \<Rightarrow> Inr n | None \<Rightarrow> Inl ErrNoNewParent))
      in case parent of
           Inl e \<Rightarrow> (Inl e, d)
         | Inr newID \<Rightarrow>
             (case Create (Folders G)
                 ((reset_folder f)\<lparr>d_ParentID := Some newID, d_OwnerID := d_OwnerID dst\<rparr>) d of
                Inl e \<Rightarrow> (Inl (DbErr e), d)
              | Inr (r, d') \<Rightarrow>
                  copy_folders G folderID dst fs (newIDCache(d_ID f \<mapsto> d_ID r)) d'))"

text \<open>The loop over files, with the function that gives each copy its folder.\<close>

fun copy_files ::
  "gorm \<Rightarrow> (uint \<Rightarrow> uint) \<Rightarrow> uint \<Rightarrow> file_row list \<Rightarrow> u64 \<Rightarrow> db \<Rightarrow> (u64 \<times> model_error option) \<times> db" where
  "copy_files G newFolder owner [] n d = ((n, None), d)"
| "copy_files G newFolder owner (f # fs) n d =
     (if \<not> CanCopy f then copy_files G newFolder owner fs n d
      else case Create (Files G)
          ((reset_file f)\<lparr>f_FolderID := newFolder (f_FolderID f), f_UserID := owner\<rparr>) d of
        Inl e \<Rightarrow> ((n, Some (DbErr e)), d)
      | Inr (r, d') \<Rightarrow> copy_files G newFolder owner fs (n + f_Size f) d')"

definition CopyFolderTo ::
  "gorm \<Rightarrow> folder_row \<Rightarrow> uint \<Rightarrow> folder_row \<Rightarrow> db \<Rightarrow> (u64 \<times> model_error option) \<times> db" where
  "CopyFolderTo G folder folderID dst d =
     (case GetRecursiveChildFolder G [folderID] (d_OwnerID folder) True d of
        (_, Some e) \<Rightarrow> ((0, None), d)
      | (subFolders, None) \<Rightarrow>
          (let subFolderIDs = map d_ID subFolders in
           case copy_folders G folderID dst subFolders Map.empty d of
             (Inl e, d') \<Rightarrow> ((0, Some e), d')
           | (Inr newIDCache, d') \<Rightarrow>
               (case Find (Files G)
                   (\<lambda>f. f_UserID f = d_OwnerID folder \<and> f_FolderID f \<in> set subFolderIDs) d' of
                  Inl e \<Rightarrow> ((0, Some (DbErr e)), d')
                | Inr originFiles \<Rightarrow>
                    copy_files G (\<lambda>i. case newIDCache i of None \<Rightarrow> 0 | Some j \<Rightarrow> j)
                      (d_OwnerID dst) originFiles 0 d')))"

definition MoveOrCopyFileTo ::
  "gorm \<Rightarrow> folder_row \<Rightarrow> uint list \<Rightarrow> folder_row \<Rightarrow> bool \<Rightarrow> db \<Rightarrow> (u64 \<times> model_error option) \<times> db" where
  "MoveOrCopyFileTo G folder ids dst isCopy d =
     (let sel = (\<lambda>f. f_ID f \<in> set ids \<and> f_UserID f = d_OwnerID folder \<and> f_FolderID f = d_ID folder) in
      if isCopy then
        (case Find (Files G) sel d of
           Inl e \<Rightarrow> ((0, Some (DbErr e)), d)
         | Inr originFiles \<Rightarrow> copy_files G (\<lambda>_. d_ID dst) (d_OwnerID dst) originFiles 0 d)
      else
        (case Updates (Files G) sel (\<lambda>f. Some (f\<lparr>f_FolderID := d_ID dst\<rparr>)) d of
           Inl e \<Rightarrow> ((0, Some (DbErr e)), d)
         | Inr d' \<Rightarrow> ((0, None), d')))"

definition MoveFolderTo ::
  "gorm \<Rightarrow> folder_row \<Rightarrow> uint list \<Rightarrow> folder_row \<Rightarrow> db \<Rightarrow> (model_error + unit) \<times> db" where
  "MoveFolderTo G folder dirs dst d =
     (if d_OwnerID folder = d_OwnerID dst \<and> ContainsUint dirs (d_ID dst) then (Inl ErrMoveIntoItself, d)
      else write1
        (Updates (Folders G)
          (\<lambda>r. d_ID r \<in> set dirs \<and> d_OwnerID r = d_OwnerID folder \<and> d_ParentID r = Some (d_ID folder))
          (\<lambda>r. Some (r\<lparr>d_ParentID := Some (d_ID dst)\<rparr>)) d) d)"

section \<open>The recursive listing is the set of descendants\<close>

text \<open>One level: the folders of the owner whose parent is in the level above.\<close>

definition kids :: "db \<Rightarrow> uint \<Rightarrow> uint set \<Rightarrow> folder_row set" where
  "kids d uid S = {r \<in> set (folders d). d_OwnerID r = uid \<and> (\<exists>p\<in>S. d_ParentID r = Some p)}"

primrec level :: "db \<Rightarrow> uint \<Rightarrow> uint set \<Rightarrow> nat \<Rightarrow> folder_row set" where
  "level d uid S 0 = kids d uid S"
| "level d uid S (Suc k) = kids d uid (d_ID ` level d uid S k)"

text \<open>The proper descendants, within one owner, of a set of folders.\<close>

inductive descendant :: "db \<Rightarrow> uint \<Rightarrow> uint set \<Rightarrow> folder_row \<Rightarrow> bool" for d uid S where
  child: "r \<in> set (folders d) \<Longrightarrow> d_OwnerID r = uid \<Longrightarrow> d_ParentID r = Some p \<Longrightarrow> p \<in> S \<Longrightarrow>
     descendant d uid S r"
| deeper: "descendant d uid S q \<Longrightarrow> r \<in> set (folders d) \<Longrightarrow> d_OwnerID r = uid \<Longrightarrow>
     d_ParentID r = Some (d_ID q) \<Longrightarrow> descendant d uid S r"

lemma level_Suc_front: "level d uid S (Suc k) = level d uid (d_ID ` kids d uid S) k"
  by (induction k) simp_all

lemma level_descendant: "r \<in> level d uid S k \<Longrightarrow> descendant d uid S r"
proof (induction k arbitrary: r)
  case 0
  then show ?case by (auto simp: kids_def intro: descendant.child)
next
  case (Suc k)
  then show ?case by (auto simp: kids_def intro: descendant.deeper)
qed

lemma descendant_level: "descendant d uid S r \<Longrightarrow> \<exists>k. r \<in> level d uid S k"
proof (induction rule: descendant.induct)
  case (child r p)
  then have "r \<in> level d uid S 0" by (auto simp: kids_def)
  then show ?case ..
next
  case (deeper q r)
  then obtain k where "q \<in> level d uid S k" by blast
  with deeper have "r \<in> level d uid S (Suc k)" by (auto simp: kids_def)
  then show ?case ..
qed

lemma level_empty_beyond: "level d uid S k = {} \<Longrightarrow> k \<le> j \<Longrightarrow> level d uid S j = {}"
proof (induction j)
  case 0
  then show ?case by simp
next
  case (Suc j)
  show ?case
  proof (cases "k = Suc j")
    case False
    then have "level d uid S j = {}" using Suc by simp
    then show ?thesis by (simp add: kids_def)
  qed (use Suc in simp)
qed

text \<open>
  A folder table is \<open>ranked\<close> when a number grows from every folder to its children and
  stays below the level bound: the parent links have no cycle.
\<close>

definition ranked :: "(uint \<Rightarrow> nat) \<Rightarrow> db \<Rightarrow> bool" where
  "ranked h d \<longleftrightarrow>
     (\<forall>r\<in>set (folders d). h (d_ID r) < max_levels \<and>
        (\<forall>p. d_ParentID r = Some p \<longrightarrow> h p < h (d_ID r)))"

lemma level_rank: "ranked h d \<Longrightarrow> r \<in> level d uid S k \<Longrightarrow> k < h (d_ID r)"
proof (induction k arbitrary: r)
  case 0
  then show ?case by (force simp: kids_def ranked_def)
next
  case (Suc k)
  then obtain q where q: "q \<in> level d uid S k" "d_ParentID r = Some (d_ID q)" "r \<in> set (folders d)"
    by (auto simp: kids_def)
  have "k < h (d_ID q)" using Suc.IH [OF Suc.prems(1) q(1)] .
  moreover have "h (d_ID q) < h (d_ID r)" using Suc.prems(1) q by (auto simp: ranked_def)
  ultimately show ?case by simp
qed

lemma ranked_level_empty: "ranked h d \<Longrightarrow> max_levels \<le> k \<Longrightarrow> level d uid S k = {}"
proof (rule ccontr)
  assume r: "ranked h d" "max_levels \<le> k" and "level d uid S k \<noteq> {}"
  then obtain q where q: "q \<in> level d uid S k" by blast
  then have "q \<in> set (folders d)" by (cases k) (auto simp: kids_def)
  then have "h (d_ID q) < max_levels" using r(1) by (simp add: ranked_def)
  with level_rank [OF r(1) q] r(2) show False by simp
qed

context gorm_db
begin

lemma grc_loop_levels:
  assumes "grc_loop G uid d i ps acc = (res, None)"
  shows "set res = set acc \<union> (\<Union>k \<in> {k. i + k < max_levels}. level d uid (set ps) k)"
  using assms
proof (induction "max_levels - i" arbitrary: i ps acc)
  case 0
  then show ?case by (simp add: grc_loop.simps [of G])
next
  case (Suc n)
  then have i: "i < max_levels" by simp
  with Suc.prems obtain fs where f: "Find (Folders G) (\<lambda>r. d_OwnerID r = uid \<and>
        (case d_ParentID r of None \<Rightarrow> False | Some p \<Rightarrow> p \<in> set ps)) d = Inr fs"
    and rest: "(if fs = [] then (acc, None) else grc_loop G uid d (Suc i) (map d_ID fs) (acc @ fs)) = (res, None)"
    by (auto simp: grc_loop.simps [of G uid d i] split: sum.splits)
  have fs: "set fs = kids d uid (set ps)"
    using folders.find_set [OF f] by (auto simp: kids_def split: option.splits)
  have split: "(\<Union>k \<in> {k. i + k < max_levels}. level d uid (set ps) k) =
      kids d uid (set ps) \<union> (\<Union>k \<in> {k. Suc i + k < max_levels}. level d uid (d_ID ` kids d uid (set ps)) k)"
  proof -
    have "{k. i + k < max_levels} = insert 0 (Suc ` {k. Suc i + k < max_levels})"
      using i by (auto simp: image_iff) (metis Suc_pred gr0I add_Suc_right)
    then show ?thesis by (simp add: level_Suc_front del: level.simps(2))
  qed
  show ?case
  proof (cases "fs = []")
    case True
    then have e: "kids d uid (set ps) = {}" using fs by simp
    then have "level d uid (set ps) k = {}" for k
      using level_empty_beyond [of d uid "set ps" 0 k] by simp
    with True rest show ?thesis by simp
  next
    case False
    then have "set res = set (acc @ fs) \<union> (\<Union>k \<in> {k. Suc i + k < max_levels}. level d uid (set (map d_ID fs)) k)"
      using rest Suc.hyps(2) by (intro Suc.hyps(1)) simp_all
    with split fs show ?thesis by (simp add: Un_assoc)
  qed
qed

lemma GetRecursiveChildFolder_set:
  assumes "GetRecursiveChildFolder G dirs uid self d = (res, None)" and "ranked h d"
  defines "own \<equiv> {r \<in> set (folders d). d_OwnerID r = uid \<and> d_ID r \<in> set dirs}"
  shows "set res = (if self then own else {}) \<union> {r. descendant d uid (d_ID ` own) r}"
proof -
  from assms(1) obtain fs where
    f: "Find (Folders G) (\<lambda>r. d_OwnerID r = uid \<and> d_ID r \<in> set dirs) d = Inr fs"
    and l: "grc_loop G uid d 0 (map d_ID fs) (if self then fs else []) = (res, None)"
    by (auto simp: GetRecursiveChildFolder_def split: sum.splits)
  have fs: "set fs = own" using folders.find_set [OF f] by (simp add: own_def)
  have "(\<Union>k \<in> {k. k < max_levels}. level d uid (d_ID ` own) k) = {r. descendant d uid (d_ID ` own) r}"
  proof (intro equalityI subsetI)
    fix r assume "r \<in> {r. descendant d uid (d_ID ` own) r}"
    then obtain k where "r \<in> level d uid (d_ID ` own) k" using descendant_level by blast
    moreover from this have "k < max_levels"
      using ranked_level_empty [OF assms(2), of k uid "d_ID ` own"] by (cases "k < max_levels") auto
    ultimately show "r \<in> (\<Union>k \<in> {k. k < max_levels}. level d uid (d_ID ` own) k)" by blast
  qed (auto dest: level_descendant)
  with grc_loop_levels [OF l] fs show ?thesis by simp
qed

end

section \<open>Climbing to the root\<close>

text \<open>
  \<open>lineage d f es\<close>: the proper ancestors of \<open>f\<close> below its root folder, which is named \<open>/\<close>,
  have the names \<open>es\<close>, the topmost first.
\<close>

inductive lineage :: "db \<Rightarrow> folder_row \<Rightarrow> gostring list \<Rightarrow> bool" for d where
  under_root: "d_ParentID f = Some (d_ID r) \<Longrightarrow> r \<in> set (folders d) \<Longrightarrow> d_OwnerID r = d_OwnerID f \<Longrightarrow>
     d_ParentID r = None \<Longrightarrow> d_Name r = ''/'' \<Longrightarrow> d_Position r = [] \<Longrightarrow> lineage d f []"
| under: "d_ParentID f = Some (d_ID r) \<Longrightarrow> r \<in> set (folders d) \<Longrightarrow> d_OwnerID r = d_OwnerID f \<Longrightarrow>
     lineage d r es \<Longrightarrow> cleanElem (d_Name r) \<Longrightarrow> lineage d f (es @ [d_Name r])"

lemma lineage_clean: "lineage d f es \<Longrightarrow> list_all cleanElem es"
  by (induction rule: lineage.induct) simp_all

lemma TraceRoot_root: "d_ParentID f = None \<Longrightarrow> TraceRoot G d f = Some (f, None)"
  by (simp add: TraceRoot.simps)

context gorm_db
begin

lemma TraceRoot_returns:
  assumes "ranked h d" and "f \<in> set (folders d)"
  shows "\<exists>res. TraceRoot G d f = Some res"
  using assms(2)
proof (induction "h (d_ID f)" arbitrary: f rule: less_induct)
  case less
  show ?case
  proof (cases "d_ParentID f")
    case None
    then show ?thesis by (simp add: TraceRoot_root)
  next
    case (Some p)
    show ?thesis
    proof (cases "First (Folders G) (\<lambda>r. d_ID r = p \<and> d_OwnerID r = d_OwnerID f) d")
      case (Inl e)
      then show ?thesis using Some by (simp add: TraceRoot.simps [of G d f])
    next
      case (Inr q)
      from folders.first_row [OF Inr] have q: "q \<in> set (folders d)" "d_ID q = p" by auto
      moreover have "h p < h (d_ID f)" using assms(1) less.prems Some by (auto simp: ranked_def)
      ultimately obtain res where "TraceRoot G d q = Some res" using less.hyps by blast
      then show ?thesis using Some Inr by (cases res) (simp add: TraceRoot.simps [of G d f])
    qed
  qed
qed

lemma TraceRoot_position:
  assumes "lineage d f es" and "distinct (map d_ID (folders d))" and "TraceRoot G d f = Some (f', None)"
  shows "f' = f\<lparr>d_Position := pathOf es\<rparr>"
  using assms(1,3)
proof (induction arbitrary: f' rule: lineage.induct)
  case (under_root f r)
  from under_root.prems obtain q p where
    q: "First (Folders G) (\<lambda>x. d_ID x = d_ID r \<and> d_OwnerID x = d_OwnerID f) d = Inr q"
    and t: "TraceRoot G d q = Some (p, None)" "f' = f\<lparr>d_Position := pathJoin (d_Position p) (d_Name p)\<rparr>"
    using under_root.hyps(1)
    by (auto simp: TraceRoot.simps [of G d f] split: sum.splits Option.bind_splits)
  have "q = r"
    using folders.first_row [OF q] under_root.hyps(2) distinct_map_eqD [OF assms(2)] by blast
  then show ?case
    using t under_root.hyps by (simp add: TraceRoot_root pathJoin_root)
next
  case (under f r es)
  from under.prems obtain q p where
    q: "First (Folders G) (\<lambda>x. d_ID x = d_ID r \<and> d_OwnerID x = d_OwnerID f) d = Inr q"
    and t: "TraceRoot G d q = Some (p, None)" "f' = f\<lparr>d_Position := pathJoin (d_Position p) (d_Name p)\<rparr>"
    using under.hyps(1)
    by (auto simp: TraceRoot.simps [of G d f] split: sum.splits Option.bind_splits)
  have "q = r"
    using folders.first_row [OF q] under.hyps(2) distinct_map_eqD [OF assms(2)] by blast
  then have "p = r\<lparr>d_Position := pathOf es\<rparr>" using under.IH t(1) by simp
  then show ?case
    using t(2) under.hyps(5) lineage_clean [OF under.hyps(4)] by (simp add: pathJoin_pathOf)
qed

end

section \<open>Copying\<close>

text \<open>The copy \<open>r\<close> of a folder \<open>f\<close>, under the map \<open>new\<close> from old keys to new ones.\<close>

definition copied_folder :: "(uint \<rightharpoonup> uint) \<Rightarrow> uint \<Rightarrow> folder_row \<Rightarrow> folder_row \<Rightarrow> folder_row \<Rightarrow> bool" where
  "copied_folder new folderID dst f r \<longleftrightarrow>
     d_Name r = d_Name f \<and> d_OwnerID r = d_OwnerID dst \<and> new (d_ID f) = Some (d_ID r) \<and>
     d_ParentID r = (if d_ID f = folderID then Some (d_ID dst)
                     else case d_ParentID f of None \<Rightarrow> None | Some p \<Rightarrow> new p)"

definition copied_file :: "(uint \<Rightarrow> uint) \<Rightarrow> uint \<Rightarrow> file_row \<Rightarrow> file_row \<Rightarrow> bool" where
  "copied_file newFolder owner f r \<longleftrightarrow>
     f_Name r = f_Name f \<and> f_SourceName r = f_SourceName f \<and> f_Size r = f_Size f \<and>
     f_PolicyID r = f_PolicyID f \<and> f_PicInfo r = f_PicInfo f \<and>
     f_UploadSessionID r = f_UploadSessionID f \<and>
     f_UserID r = owner \<and> f_FolderID r = newFolder (f_FolderID f)"

abbreviation sizes :: "file_row list \<Rightarrow> nat" where
  "sizes fs \<equiv> sum_list (map (\<lambda>f. unat (f_Size f)) fs)"

lemma set_folders_same: "set_folders (folders d) d = d"
  by (cases d) simp

context gorm_db
begin

lemma copy_folders_spec:
  assumes "copy_folders G folderID dst fs cache d = (Inr new, d')"
    and "distinct (map d_ID fs)" and "\<forall>f\<in>set fs. cache (d_ID f) = None"
  shows "\<exists>rows. d' = set_folders (folders d @ rows) d
      \<and> list_all2 (copied_folder new folderID dst) fs rows
      \<and> d_ID ` set rows \<inter> d_ID ` set (folders d) = {}
      \<and> (\<forall>k. k \<notin> d_ID ` set fs \<longrightarrow> new k = cache k)"
  using assms
proof (induction fs arbitrary: cache d)
  case Nil
  then show ?case by (auto simp: set_folders_same)
next
  case (Cons f fs)
  let ?par = "if d_ID f = folderID then Inr (d_ID dst)
         else case d_ParentID f of
           None \<Rightarrow> Inl NilPanic
         | Some p \<Rightarrow> (case cache p of Some n \<Rightarrow> Inr n | None \<Rightarrow> Inl ErrNoNewParent)"
  let ?row = "\<lambda>newID. (reset_folder f)\<lparr>d_ParentID := Some newID, d_OwnerID := d_OwnerID dst\<rparr>"
  from Cons.prems(1) obtain newID r d1 where par: "?par = Inr newID"
    and c: "Create (Folders G) (?row newID) d = Inr (r, d1)"
    and rest: "copy_folders G folderID dst fs (cache(d_ID f \<mapsto> d_ID r)) d1 = (Inr new, d')"
    by (auto simp: Let_def split: sum.splits prod.splits)
  from folders.create_row [OF c] obtain t i where i: "i \<notin> d_ID ` set (folders d)"
    and r: "r = folder_stamp t i (?row newID)"
    and d1: "d1 = set_folders (folders d @ [folder_cols r]) d"
    by blast
  have fresh: "\<forall>g\<in>set fs. (cache(d_ID f \<mapsto> d_ID r)) (d_ID g) = None"
    using Cons.prems(2,3) by (auto simp: image_iff)
  obtain rows where rows: "d' = set_folders (folders d1 @ rows) d1"
      "list_all2 (copied_folder new folderID dst) fs rows"
      "d_ID ` set rows \<inter> d_ID ` set (folders d1) = {}"
      "\<forall>k. k \<notin> d_ID ` set fs \<longrightarrow> new k = (cache(d_ID f \<mapsto> d_ID r)) k"
    using Cons.IH [OF rest _ fresh] Cons.prems(2) by auto
  have nf: "d_ID f \<notin> d_ID ` set fs" using Cons.prems(2) by simp
  have new_f: "new (d_ID f) = Some (d_ID r)" using rows(4) nf by simp
  have new_p: "new p = cache p" if "cache p \<noteq> None" for p
  proof -
    have "p \<noteq> d_ID f" "p \<notin> d_ID ` set fs" using that Cons.prems(3) by auto
    then show ?thesis using rows(4) by simp
  qed
  have "copied_folder new folderID dst f (folder_cols r)"
    using new_f par new_p
    by (auto simp: copied_folder_def r folder_cols_def folder_stamp_def reset_folder_def
        split: if_splits option.splits)
  then have "list_all2 (copied_folder new folderID dst) (f # fs) (folder_cols r # rows)"
    using rows(2) by simp
  moreover have "d' = set_folders (folders d @ folder_cols r # rows) d"
    using rows(1) by (simp add: d1)
  moreover have "d_ID ` set (folder_cols r # rows) \<inter> d_ID ` set (folders d) = {}"
    using rows(3) i by (auto simp: d1 r folder_cols_def folder_stamp_def)
  moreover have "\<forall>k. k \<notin> d_ID ` set (f # fs) \<longrightarrow> new k = cache k"
    using rows(4) by simp
  ultimately show ?case by blast
qed

text \<open>The file loop: what it wrote before it stopped, and the size it returns.\<close>

lemma copy_files_spec:
  assumes "copy_files G nf owner fs n d = ((n', err), d')"
  shows "\<exists>k rows. d' = set_files (files d @ rows) d
      \<and> list_all2 (copied_file nf owner) (take k (filter CanCopy fs)) rows
      \<and> n' = n + of_nat (sizes rows)
      \<and> (err = None \<longrightarrow> k = length (filter CanCopy fs))"
  using assms
proof (induction fs arbitrary: n d)
  case Nil
  then show ?case by (intro exI [of _ 0] exI [of _ "[]"]) (auto simp: set_files_same)
next
  case (Cons f fs)
  show ?case
  proof (cases "CanCopy f")
    case False
    then show ?thesis using Cons by simp
  next
    case True
    let ?row = "(reset_file f)\<lparr>f_FolderID := nf (f_FolderID f), f_UserID := owner\<rparr>"
    show ?thesis
    proof (cases "Create (Files G) ?row d")
      case (Inl e)
      then show ?thesis using Cons.prems True
        by (intro exI [of _ 0] exI [of _ "[]"]) (auto simp: set_files_same)
    next
      case (Inr res)
      obtain r d1 where res: "res = (r, d1)" by fastforce
      from files.create_row [OF Inr [unfolded res]] obtain t i where
        r: "r = file_stamp t i ?row" and d1: "d1 = set_files (files d @ [file_cols r]) d"
        by blast
      have "copy_files G nf owner fs (n + f_Size f) d1 = ((n', err), d')"
        using Cons.prems True Inr res by simp
      from Cons.IH [OF this] obtain k rows where
        rows: "d' = set_files (files d1 @ rows) d1"
          "list_all2 (copied_file nf owner) (take k (filter CanCopy fs)) rows"
          "n' = n + f_Size f + of_nat (sizes rows)"
          "err = None \<longrightarrow> k = length (filter CanCopy fs)"
        by blast
      have "copied_file nf owner f (file_cols r)"
        by (simp add: copied_file_def r file_cols_def file_stamp_def reset_file_def)
      moreover have "f_Size (file_cols r) = f_Size f"
        by (simp add: r file_cols_def file_stamp_def reset_file_def)
      ultimately show ?thesis
        using rows True
        by (intro exI [of _ "Suc k"] exI [of _ "file_cols r # rows"])
           (simp add: d1 add.assoc)
    qed
  qed
qed

end

lemma copied_files_usage:
  "list_all2 (copied_file nf owner) fs rows \<Longrightarrow>
   usage uid rows = (if uid = owner then sizes rows else 0)"
  by (induction rule: list_all2_induct) (auto simp: copied_file_def)


section \<open>The tree of the folders\<close>

text \<open>The links from a parent to its children, as a relation on keys.\<close>

definition links :: "db \<Rightarrow> (uint \<times> uint) set" where
  "links d = {(p, i). \<exists>r\<in>set (folders d). d_ID r = i \<and> d_ParentID r = Some p}"

lemma ranked_acyclic: "ranked h d \<Longrightarrow> acyclic (links d)"
  by (rule acyclicI_order [of _ "\<lambda>i. - int (h i)"]) (auto simp: links_def ranked_def)

lemma links_unique:
  assumes "distinct (map d_ID (folders d))" and "(a, i) \<in> links d" and "(b, i) \<in> links d"
  shows "a = b"
proof -
  obtain r where r: "r \<in> set (folders d)" "d_ID r = i" "d_ParentID r = Some a"
    using assms(2) by (auto simp: links_def)
  obtain q where q: "q \<in> set (folders d)" "d_ID q = i" "d_ParentID q = Some b"
    using assms(3) by (auto simp: links_def)
  have "r = q" by (rule distinct_map_eqD [OF assms(1) r(1) q(1)]) (simp add: r q)
  with r q show ?thesis by simp
qed

lemma relpow_ancestor:
  assumes uniq: "\<And>a b i. (a, i) \<in> E \<Longrightarrow> (b, i) \<in> E \<Longrightarrow> a = b"
  shows "(a, r) \<in> E ^^ n \<Longrightarrow> (b, r) \<in> E ^^ (n + m) \<Longrightarrow> (b, a) \<in> E ^^ m"
proof (induction n arbitrary: r)
  case 0
  then show ?case by simp
next
  case (Suc n)
  then obtain x y where "(a, x) \<in> E ^^ n" "(x, r) \<in> E" "(b, y) \<in> E ^^ (n + m)" "(y, r) \<in> E"
    by (auto elim!: relpow_Suc_E)
  with uniq have "x = y" by blast
  with Suc.IH \<open>(a, x) \<in> E ^^ n\<close> \<open>(b, y) \<in> E ^^ (n + m)\<close> show ?case by blast
qed

text \<open>Hanging the nodes \<open>M\<close> under \<open>x\<close> makes no cycle when \<open>x\<close> is below none of them.\<close>

lemma acyclic_hang:
  assumes "acyclic R" and apart: "\<And>m. m \<in> M \<Longrightarrow> (m, x) \<notin> R\<^sup>*"
  shows "acyclic (R \<union> {x} \<times> M)"
proof -
  have key: "(a, b) \<in> R\<^sup>+ \<or> (a, x) \<in> R\<^sup>* \<and> (\<exists>m\<in>M. (m, b) \<in> R\<^sup>*)"
    if "(a, b) \<in> (R \<union> {x} \<times> M)\<^sup>+" for a b
    using that
  proof (induction rule: trancl_induct)
    case (base b)
    then show ?case by auto
  next
    case (step b c)
    then show ?case
    proof (elim UnE)
      assume "(b, c) \<in> R"
      with step.IH show ?thesis by (meson rtrancl.rtrancl_into_rtrancl trancl.trancl_into_trancl)
    next
      assume "(b, c) \<in> {x} \<times> M"
      then have "b = x" "c \<in> M" by auto
      with step.IH apart show ?thesis by (blast dest: trancl_into_rtrancl)
    qed
  qed
  show ?thesis unfolding acyclic_def
  proof (intro allI notI)
    fix a assume "(a, a) \<in> (R \<union> {x} \<times> M)\<^sup>+"
    from key [OF this] show False
    proof (elim disjE conjE bexE)
      assume "(a, a) \<in> R\<^sup>+" then show False using assms(1) by (simp add: acyclic_def)
    next
      fix m assume ax: "(a, x) \<in> R\<^sup>*" and m: "m \<in> M" and ma: "(m, a) \<in> R\<^sup>*"
      show False using apart [OF m] rtrancl_trans [OF ma ax] by contradiction
    qed
  qed
qed

context gorm_db
begin

lemma level_links: "r \<in> level d uid S k \<Longrightarrow> \<exists>p\<in>S. (p, d_ID r) \<in> links d ^^ Suc k"
proof (induction k arbitrary: r)
  case 0
  then show ?case by (auto simp: kids_def links_def)
next
  case (Suc k)
  then obtain q where "q \<in> level d uid S k" "(d_ID q, d_ID r) \<in> links d"
    by (auto simp: kids_def links_def)
  with Suc.IH [of q] show ?case by (meson relpow_Suc_I)
qed

lemma level_below:
  assumes "acyclic (links d)" and "r \<in> level d uid {i} k"
  shows "d_ID r \<noteq> i"
proof
  assume "d_ID r = i"
  with level_links [OF assms(2)] have "(i, i) \<in> (links d)\<^sup>+"
    unfolding trancl_power by (metis singletonD zero_less_Suc)
  with assms(1) show False by (simp add: acyclic_def)
qed

lemma levels_apart:
  assumes "acyclic (links d)" and "distinct (map d_ID (folders d))" and "k < j"
    and "r \<in> level d uid {i} k" and "q \<in> level d uid {i} j"
  shows "d_ID r \<noteq> d_ID q"
proof
  assume eq: "d_ID r = d_ID q"
  from level_links [OF assms(4)] level_links [OF assms(5)] eq
  have "(i, d_ID q) \<in> links d ^^ Suc k" "(i, d_ID q) \<in> links d ^^ (Suc k + (j - k))"
    using assms(3) by auto
  then have "(i, i) \<in> links d ^^ (j - k)"
    by (rule relpow_ancestor [OF links_unique [OF assms(2)], rotated 2])
  with assms(3) have "(i, i) \<in> (links d)\<^sup>+"
    unfolding trancl_power by (metis zero_less_diff)
  with assms(1) show False by (simp add: acyclic_def)
qed

lemma find_folders_distinct:
  assumes "Find (Folders G) P d = Inr fs" and "distinct (map d_ID (folders d))"
  shows "distinct (map d_ID fs)"
proof -
  have "mset (map d_ID fs) = mset (map d_ID (filter P (folders d)))"
    using folders.find_rows [OF assms(1)] by simp
  moreover have "distinct (map d_ID (filter P (folders d)))"
    using assms(2) by (simp add: distinct_map_filter)
  ultimately show ?thesis using mset_eq_imp_distinct_iff by blast
qed

lemma grc_loop_distinct:
  assumes "grc_loop G uid d i ps acc = (res, None)" and "distinct (map d_ID (folders d))"
    and "distinct (map d_ID acc)"
    and "\<forall>k j. \<forall>r\<in>level d uid (set ps) k. \<forall>q\<in>level d uid (set ps) j. k < j \<longrightarrow> d_ID r \<noteq> d_ID q"
    and "\<forall>k. \<forall>r\<in>level d uid (set ps) k. d_ID r \<notin> d_ID ` set acc"
  shows "distinct (map d_ID res)"
  using assms(1,3,4,5)
proof (induction "max_levels - i" arbitrary: i ps acc)
  case 0
  then show ?case by (simp add: grc_loop.simps [of G])
next
  case (Suc n)
  then have i: "i < max_levels" by simp
  with Suc.prems obtain fs where f: "Find (Folders G) (\<lambda>r. d_OwnerID r = uid \<and>
        (case d_ParentID r of None \<Rightarrow> False | Some p \<Rightarrow> p \<in> set ps)) d = Inr fs"
    and rest: "(if fs = [] then (acc, None) else grc_loop G uid d (Suc i) (map d_ID fs) (acc @ fs)) = (res, None)"
    by (auto simp: grc_loop.simps [of G _ _ i] split: sum.splits)
  have fs: "set fs = kids d uid (set ps)"
    using folders.find_set [OF f] by (auto simp: kids_def split: option.splits)
  show ?case
  proof (cases "fs = []")
    case True
    with rest Suc.prems show ?thesis by simp
  next
    case False
    have lv: "level d uid (set (map d_ID fs)) k = level d uid (set ps) (Suc k)" for k
      by (simp only: level_Suc_front fs [symmetric] set_map)
    have top: "r \<in> set fs \<longleftrightarrow> r \<in> level d uid (set ps) 0" for r by (simp add: fs)
    show ?thesis
    proof (rule Suc.hyps(1))
      show "n = max_levels - Suc i" using Suc.hyps(2) by simp
      show "grc_loop G uid d (Suc i) (map d_ID fs) (acc @ fs) = (res, None)" using rest False by simp
      have "d_ID ` set fs \<inter> d_ID ` set acc = {}"
        using Suc.prems(4) top by blast
      then show "distinct (map d_ID (acc @ fs))"
        using Suc.prems(2) find_folders_distinct [OF f assms(2)] by auto
      show "\<forall>k j. \<forall>r\<in>level d uid (set (map d_ID fs)) k. \<forall>q\<in>level d uid (set (map d_ID fs)) j.
          k < j \<longrightarrow> d_ID r \<noteq> d_ID q"
        unfolding lv using Suc.prems(3) by (meson Suc_less_eq)
      have "d_ID r \<notin> d_ID ` set fs" if "r \<in> level d uid (set ps) (Suc k)" for r k
      proof
        assume "d_ID r \<in> d_ID ` set fs"
        then obtain q where "q \<in> level d uid (set ps) 0" "d_ID r = d_ID q" using top by auto
        with Suc.prems(3) that show False by (metis zero_less_Suc)
      qed
      moreover have "d_ID ` set (acc @ fs) = d_ID ` set acc \<union> d_ID ` set fs" by (simp add: image_Un)
      ultimately show "\<forall>k. \<forall>r\<in>level d uid (set (map d_ID fs)) k. d_ID r \<notin> d_ID ` set (acc @ fs)"
        unfolding lv using Suc.prems(4) by blast
    qed
  qed
qed

lemma GetRecursiveChildFolder_distinct:
  assumes "GetRecursiveChildFolder G [i] uid self d = (res, None)"
    and "acyclic (links d)" and "distinct (map d_ID (folders d))"
  shows "distinct (map d_ID res)"
proof -
  from assms(1) obtain fs where
    f: "Find (Folders G) (\<lambda>r. d_OwnerID r = uid \<and> d_ID r \<in> set [i]) d = Inr fs"
    and l: "grc_loop G uid d 0 (map d_ID fs) (if self then fs else []) = (res, None)"
    by (auto simp: GetRecursiveChildFolder_def split: sum.splits)
  have dist: "distinct (map d_ID fs)" by (rule find_folders_distinct [OF f assms(3)])
  have sub: "set (map d_ID fs) \<subseteq> {i}" using folders.find_set [OF f] by auto
  have mono: "level d uid (set (map d_ID fs)) k \<subseteq> level d uid {i} k" for k
  proof (cases "set (map d_ID fs) = {i}")
    case False
    with sub have "set (map d_ID fs) = {}" by (simp only: subset_singleton_iff) simp
    then have "level d uid (set (map d_ID fs)) 0 = {}" by (simp add: kids_def)
    then show ?thesis using level_empty_beyond by blast
  qed simp
  show ?thesis
  proof (rule grc_loop_distinct [OF l assms(3)])
    show "distinct (map d_ID (if self then fs else []))" using dist by simp
    show "\<forall>k j. \<forall>r\<in>level d uid (set (map d_ID fs)) k. \<forall>q\<in>level d uid (set (map d_ID fs)) j.
        k < j \<longrightarrow> d_ID r \<noteq> d_ID q"
      using mono levels_apart [OF assms(2,3)] by blast
    show "\<forall>k. \<forall>r\<in>level d uid (set (map d_ID fs)) k. d_ID r \<notin> d_ID ` set (if self then fs else [])"
    proof (intro allI ballI notI)
      fix k r assume "r \<in> level d uid (set (map d_ID fs)) k" "d_ID r \<in> d_ID ` set (if self then fs else [])"
      then have "r \<in> level d uid {i} k" "d_ID r = i" using mono sub by (auto split: if_splits)
      then show False using level_below [OF assms(2)] by blast
    qed
  qed
qed

end

context gorm_db
begin

lemma CopyFolderTo_effect:
  assumes ok: "CopyFolderTo G folder i dst d = ((n, None), d')"
    and subs: "GetRecursiveChildFolder G [i] (d_OwnerID folder) True d = (subs, None)"
    and tree: "acyclic (links d)" "distinct (map d_ID (folders d))"
  shows "\<exists>new frows origs rows.
      d' = set_files (files d @ rows) (set_folders (folders d @ frows) d)
      \<and> list_all2 (copied_folder new i dst) subs frows
      \<and> d_ID ` set frows \<inter> d_ID ` set (folders d) = {}
      \<and> mset origs = mset (filter (\<lambda>f. CanCopy f \<and> f_UserID f = d_OwnerID folder \<and>
            f_FolderID f \<in> d_ID ` set subs) (files d))
      \<and> list_all2 (copied_file (\<lambda>j. case new j of None \<Rightarrow> 0 | Some k \<Rightarrow> k) (d_OwnerID dst)) origs rows
      \<and> n = of_nat (sizes rows)"
proof -
  have dist: "distinct (map d_ID subs)"
    by (rule GetRecursiveChildFolder_distinct [OF subs tree])
  from ok subs obtain new d1 os where
    cf: "copy_folders G i dst subs Map.empty d = (Inr new, d1)"
    and f: "Find (Files G) (\<lambda>f. f_UserID f = d_OwnerID folder \<and> f_FolderID f \<in> set (map d_ID subs)) d1 = Inr os"
    and c: "copy_files G (\<lambda>j. case new j of None \<Rightarrow> 0 | Some k \<Rightarrow> k) (d_OwnerID dst) os 0 d1 = ((n, None), d')"
    by (auto simp: CopyFolderTo_def Let_def split: sum.splits prod.splits)
  from copy_folders_spec [OF cf dist] obtain frows where
    d1: "d1 = set_folders (folders d @ frows) d"
    and fr: "list_all2 (copied_folder new i dst) subs frows"
      "d_ID ` set frows \<inter> d_ID ` set (folders d) = {}" by auto
  from copy_files_spec [OF c] obtain rows where
    d': "d' = set_files (files d1 @ rows) d1"
    and r: "list_all2 (copied_file (\<lambda>j. case new j of None \<Rightarrow> 0 | Some k \<Rightarrow> k) (d_OwnerID dst))
        (filter CanCopy os) rows" "n = of_nat (sizes rows)" by auto
  have "mset (filter CanCopy os) = mset (filter (\<lambda>f. CanCopy f \<and> f_UserID f = d_OwnerID folder \<and>
      f_FolderID f \<in> d_ID ` set subs) (files d))"
    using files.find_rows [OF f] by (simp add: d1 filter_filter_mset conj_commute)
  then show ?thesis
    using d' d1 fr r by (intro exI conjI) simp_all
qed

lemma MoveFolderTo_cases:
  assumes "MoveFolderTo G folder dirs dst d = (res, d')"
  obtains e where "res = Inl e" "d' = d"
  | t where "res = Inr ()" "\<not> (d_OwnerID folder = d_OwnerID dst \<and> d_ID dst \<in> set dirs)"
      "d' = set_folders (map (\<lambda>r. if d_ID r \<in> set dirs \<and> d_OwnerID r = d_OwnerID folder \<and>
            d_ParentID r = Some (d_ID folder)
          then folder_touch t (r\<lparr>d_ParentID := Some (d_ID dst)\<rparr>) else r) (folders d)) d"
proof (cases "d_OwnerID folder = d_OwnerID dst \<and> ContainsUint dirs (d_ID dst)")
  case True
  then show thesis using assms that(1) by (auto simp: MoveFolderTo_def)
next
  case False
  let ?P = "\<lambda>r. d_ID r \<in> set dirs \<and> d_OwnerID r = d_OwnerID folder \<and> d_ParentID r = Some (d_ID folder)"
  let ?u = "\<lambda>r. Some (r\<lparr>d_ParentID := Some (d_ID dst)\<rparr>)"
  show thesis
  proof (cases "Updates (Folders G) ?P ?u d")
    case (Inl e)
    then show thesis using assms False that(1) by (auto simp: MoveFolderTo_def write1_def)
  next
    case (Inr d1)
    from folders.update_rows [OF Inr] obtain t where
      "d1 = set_folders (map (\<lambda>r. if ?P r then folder_touch t (the (?u r)) else r) (folders d)) d" by blast
    moreover have "res = Inr ()" "d' = d1"
      using assms False Inr by (simp_all add: MoveFolderTo_def write1_def split: if_splits)
    ultimately show thesis
      using False that(2) [of t] by simp
  qed
qed

lemma MoveFolderTo_acyclic:
  assumes "MoveFolderTo G folder dirs dst d = (res, d')" and "acyclic (links d)"
    and "\<forall>r\<in>set (folders d). d_ID r \<in> set dirs \<and> d_OwnerID r = d_OwnerID folder \<and>
        d_ParentID r = Some (d_ID folder) \<longrightarrow> (d_ID r, d_ID dst) \<notin> (links d)\<^sup>*"
  shows "acyclic (links d')"
  using assms(1)
proof (cases rule: MoveFolderTo_cases)
  case 1
  then show ?thesis using assms(2) by simp
next
  case (2 t)
  let ?P = "\<lambda>r. d_ID r \<in> set dirs \<and> d_OwnerID r = d_OwnerID folder \<and> d_ParentID r = Some (d_ID folder)"
  let ?M = "{d_ID r |r. r \<in> set (folders d) \<and> ?P r}"
  have "links d' \<subseteq> links d \<union> {d_ID dst} \<times> ?M"
    unfolding links_def 2(3) by (auto simp: folder_touch_def split: if_splits)
  moreover have "acyclic (links d \<union> {d_ID dst} \<times> ?M)"
    by (rule acyclic_hang [OF assms(2)]) (use assms(3) in auto)
  ultimately show ?thesis by (meson acyclic_subset)
qed

end

section \<open>Properties\<close>

text \<open>A tree of one owner: the root, \<open>/docs\<close> with a file, and \<open>/docs/old\<close> with another.\<close>

definition docs_db :: db where
  "docs_db = empty_db\<lparr>
     folders := [zero_folder\<lparr>d_ID := 1, d_Name := ''/'', d_OwnerID := 7\<rparr>,
       zero_folder\<lparr>d_ID := 2, d_Name := ''docs'', d_ParentID := Some 1, d_OwnerID := 7\<rparr>,
       zero_folder\<lparr>d_ID := 3, d_Name := ''old'', d_ParentID := Some 2, d_OwnerID := 7\<rparr>],
     files := [zero_file\<lparr>f_ID := 1, f_Name := ''a'', f_UserID := 7, f_Size := 5, f_FolderID := 2\<rparr>,
       zero_file\<lparr>f_ID := 2, f_Name := ''b'', f_UserID := 7, f_Size := 6, f_FolderID := 3\<rparr>]\<rparr>"

lemmas docs_simps = docs_db_def empty_db_def zero_folder_def zero_file_def

lemma docs_ranked: "ranked (\<lambda>i. i) docs_db"
  by (auto simp: ranked_def docs_simps max_levels_def)

lemma docs_keys: "distinct (map d_ID (folders docs_db))"
  by (simp add: docs_simps)

text \<open>
  C2. The recursive listing of folders returns, when no query fails, exactly the folders of
  the owner that lie below the given ones, and the given ones themselves when asked for,
  provided the parent links have no cycle and the tree is at most 65535 levels deep.
\<close>

theorem GetRecursiveChildFolder_descendants:
  assumes "gorm_db G" and "ranked h d"
    and "GetRecursiveChildFolder G dirs uid self d = (res, None)"
    and "own = {r \<in> set (folders d). d_OwnerID r = uid \<and> d_ID r \<in> set dirs}"
  shows "set res = (if self then own else {}) \<union> {r. descendant d uid (d_ID ` own) r}"
  using gorm_db.GetRecursiveChildFolder_set [OF assms(1,3,2)] assms(4) by simp

theorem GetRecursiveChildFolder_descendants_witness:
  "set (fst (GetRecursiveChildFolder sound_gorm [2] 7 False docs_db)) =
   {r. descendant docs_db 7 (d_ID ` {r \<in> set (folders docs_db). d_OwnerID r = 7 \<and> d_ID r \<in> set [2]}) r}"
proof -
  have "snd (GetRecursiveChildFolder sound_gorm [2] 7 False docs_db) = None"
    by (simp add: GetRecursiveChildFolder_def grc_loop.simps [of sound_gorm] sound_simps docs_simps max_levels_def)
  then show ?thesis
    using GetRecursiveChildFolder_descendants [OF sound_gorm_laws docs_ranked, of "[2]" 7 False _ _, OF _ refl]
    by (metis (no_types, lifting) Un_empty_left prod.collapse)
qed



text \<open>
  C1. A copy of a folder that reports success, in a database whose folders have distinct ids, no
  cycle of parents and at most 65535 levels, has one of two outcomes. Either the listing of the
  subtree failed, and the copy did nothing and returned size 0. Or it kept every row there was and
  added one folder for every folder of the subtree, which is the folder copied and everything of
  the same owner below it, hung under the copy of its parent (the copied folder itself under the
  destination), and one file for every file of the owner in the subtree that may be copied, in the
  copy of its folder and owned by the destination's owner; and it returned the sum of the
  sizes of the new files.
\<close>

theorem CopyFolderTo_copies:
  assumes "gorm_db G" and "ranked h d" and "distinct (map d_ID (folders d))"
    and "CopyFolderTo G folder i dst d = ((n, None), d')"
    and "own = {r \<in> set (folders d). d_OwnerID r = d_OwnerID folder \<and> d_ID r = i}"
  shows "(\<exists>subs e. GetRecursiveChildFolder G [i] (d_OwnerID folder) True d = (subs, Some e) \<and> n = 0 \<and> d' = d) \<or>
    (\<exists>subs new frows origs rows.
      set subs = own \<union> {r. descendant d (d_OwnerID folder) (d_ID ` own) r} \<and> distinct (map d_ID subs)
      \<and> d' = set_files (files d @ rows) (set_folders (folders d @ frows) d)
      \<and> list_all2 (copied_folder new i dst) subs frows
      \<and> d_ID ` set frows \<inter> d_ID ` set (folders d) = {}
      \<and> mset origs = mset (filter (\<lambda>f. CanCopy f \<and> f_UserID f = d_OwnerID folder \<and>
            f_FolderID f \<in> d_ID ` set subs) (files d))
      \<and> list_all2 (copied_file (\<lambda>j. case new j of None \<Rightarrow> 0 | Some k \<Rightarrow> k) (d_OwnerID dst)) origs rows
      \<and> n = of_nat (sizes rows))"
proof (cases "GetRecursiveChildFolder G [i] (d_OwnerID folder) True d")
  case (Pair subs err)
  note acyclic = ranked_acyclic [OF assms(2)]
  show ?thesis
  proof (cases err)
    case (Some e)
    then show ?thesis using Pair assms(4) by (auto simp: CopyFolderTo_def)
  next
    case None
    note subs = Pair [unfolded None]
    have "set subs = own \<union> {r. descendant d (d_OwnerID folder) (d_ID ` own) r}"
      using gorm_db.GetRecursiveChildFolder_set [OF assms(1) subs assms(2)] by (simp add: assms(5))
    with gorm_db.GetRecursiveChildFolder_distinct [OF assms(1) subs acyclic assms(3)]
      gorm_db.CopyFolderTo_effect [OF assms(1,4) subs acyclic assms(3)]
    show ?thesis by blast
  qed
qed

theorem CopyFolderTo_copies_witness:
  "\<exists>subs new frows origs rows.
      snd (CopyFolderTo sound_gorm (folders docs_db ! 0) 2 (folders docs_db ! 0) docs_db) =
        set_files (files docs_db @ rows) (set_folders (folders docs_db @ frows) docs_db)
      \<and> list_all2 (copied_folder new 2 (folders docs_db ! 0)) subs frows
      \<and> list_all2 (copied_file (\<lambda>j. case new j of None \<Rightarrow> 0 | Some k \<Rightarrow> k) 7) origs rows
      \<and> 11 = (of_nat (sizes rows) :: u64)"
proof -
  let ?root = "folders docs_db ! 0"
  have "snd (GetRecursiveChildFolder sound_gorm [2] (d_OwnerID ?root) True docs_db) = None"
    by (simp add: GetRecursiveChildFolder_def grc_loop.simps [of sound_gorm] sound_simps docs_simps max_levels_def)
  then have listed: "GetRecursiveChildFolder sound_gorm [2] (d_OwnerID ?root) True docs_db \<noteq> (subs, Some e)" for subs e
    by auto
  have "fst (CopyFolderTo sound_gorm ?root 2 ?root docs_db) = (11, None)"
    by (simp add: CopyFolderTo_def GetRecursiveChildFolder_def grc_loop.simps [of sound_gorm] Let_def
        CanCopy_def reset_folder_def reset_file_def sound_simps docs_simps max_levels_def)
  then obtain d' where d': "CopyFolderTo sound_gorm ?root 2 ?root docs_db = ((11, None), d')"
    by (cases "CopyFolderTo sound_gorm ?root 2 ?root docs_db") simp
  have owner: "d_OwnerID ?root = 7" by (simp add: docs_simps)
  show ?thesis
    using CopyFolderTo_copies [OF sound_gorm_laws docs_ranked docs_keys d' refl] listed
    unfolding d' snd_conv owner by blast
qed

text \<open>
  C4. Moving folders keeps the folder table free of cycles, whatever the result of the call,
  when the destination is neither one of the moved folders nor below one of them.
\<close>

theorem MoveFolderTo_keeps_tree:
  assumes "gorm_db G" and "acyclic (links d)"
    and "\<forall>r\<in>set (folders d). d_ID r \<in> set dirs \<and> d_OwnerID r = d_OwnerID folder \<and>
        d_ParentID r = Some (d_ID folder) \<longrightarrow> (d_ID r, d_ID dst) \<notin> (links d)\<^sup>*"
    and "MoveFolderTo G folder dirs dst d = (res, d')"
  shows "acyclic (links d')"
  by (rule gorm_db.MoveFolderTo_acyclic [OF assms(1,4,2,3)])

theorem MoveFolderTo_keeps_tree_witness:
  "fst (MoveFolderTo sound_gorm (folders docs_db ! 1) [3] (folders docs_db ! 0) docs_db) = Inr () \<and>
   acyclic (links (snd (MoveFolderTo sound_gorm (folders docs_db ! 1) [3] (folders docs_db ! 0) docs_db)))"
proof -
  have le: "a \<le> b" if "(a, b) \<in> (links docs_db)\<^sup>*" for a b
    using that by (induction rule: rtrancl_induct) (auto simp: links_def docs_simps)
  have "(3, 1) \<notin> (links docs_db)\<^sup>*" using le [of 3 1] by auto
  then have "acyclic (links (snd (MoveFolderTo sound_gorm (folders docs_db ! 1) [3] (folders docs_db ! 0) docs_db)))"
    by (intro MoveFolderTo_keeps_tree [OF sound_gorm_laws ranked_acyclic [OF docs_ranked] _ surjective_pairing])
       (simp add: docs_simps)
  then show ?thesis
    by (simp add: MoveFolderTo_def write1_def sound_simps docs_simps)
qed

text \<open>
  The check of the code, that the destination is not one of the moved folders, does not
  guarantee that: moving \<open>/docs\<close> into its own child \<open>/docs/old\<close> succeeds and makes a cycle.
\<close>

theorem MoveFolderTo_into_descendant:
  "fst (MoveFolderTo sound_gorm (folders docs_db ! 0) [2] (folders docs_db ! 2) docs_db) = Inr () \<and>
   acyclic (links docs_db) \<and>
   \<not> acyclic (links (snd (MoveFolderTo sound_gorm (folders docs_db ! 0) [2] (folders docs_db ! 2) docs_db)))"
proof -
  let ?d = "snd (MoveFolderTo sound_gorm (folders docs_db ! 0) [2] (folders docs_db ! 2) docs_db)"
  have f: "folders ?d = [folders docs_db ! 0, (folders docs_db ! 1)\<lparr>d_ParentID := Some 3\<rparr>, folders docs_db ! 2]"
    by (simp add: MoveFolderTo_def write1_def sound_simps docs_simps)
  have l: "(2, 3) \<in> links ?d" "(3, 2) \<in> links ?d"
    unfolding links_def f by (simp_all add: docs_simps)
  have "(2, 2) \<in> (links ?d)\<^sup>+" by (rule trancl_into_trancl [OF r_into_trancl [OF l(1)] l(2)])
  then have "\<not> acyclic (links ?d)" by (auto simp only: acyclic_def)
  then show ?thesis
    using ranked_acyclic [OF docs_ranked] by (simp add: MoveFolderTo_def write1_def sound_simps docs_simps)
qed

end
