(* ===== verification/ModelsUser.thy ===== *)
theory ModelsUser
  imports ModelsFile
begin

text \<open>
  \<open>models/user.go\<close> (accounts and passwords), \<open>models/setting.go\<close>, \<open>models/group.go\<close>,
  \<open>models/task.go\<close>, \<open>models/tag.go\<close> and \<open>models/webdav.go\<close>.

  The hash functions MD5 and SHA-1 are parameters, from bytes to bytes; gorm's preloading of
  the associations of a user (\<open>gorm:auto_preload\<close>) is the parameter \<open>preload\<close>.
\<close>

section \<open>Passwords (models/user.go, utils/common.go, encoding/hex)\<close>

text \<open>\<open>RandStringRunes\<close>: the list holds what \<open>rand.Intn(62)\<close> returns, call by call.\<close>

definition letterRunes :: gostring where
  "letterRunes = ''1234567890abcdefghijklmnopqrstuvwxyzABCDEFGHIJKLMNOPQRSTUVWXYZ''"

definition RandStringRunes :: "nat list \<Rightarrow> gostring" where
  "RandStringRunes draws = map (\<lambda>i. letterRunes ! i) draws"

definition draws_ok :: "nat \<Rightarrow> nat list \<Rightarrow> bool" where
  "draws_ok n draws \<longleftrightarrow> length draws = n \<and> list_all (\<lambda>i. i < length letterRunes) draws"

definition hexDigit :: "nat \<Rightarrow> char" where
  "hexDigit n = ''0123456789abcdef'' ! n"

primrec hexEncode :: "gostring \<Rightarrow> gostring" where
  "hexEncode [] = []"
| "hexEncode (c # s) =
     hexDigit (of_char c div 16) # hexDigit (of_char c mod 16) # hexEncode s"

record hashes =
  md5 :: "gostring \<Rightarrow> gostring"
  sha1 :: "gostring \<Rightarrow> gostring"

datatype password_error = ErrUnknownPasswordType

definition CheckPassword :: "hashes \<Rightarrow> user_row \<Rightarrow> gostring \<Rightarrow> password_error + bool" where
  "CheckPassword H user password =
     (let passwordStore = splitOn (CHR '':'') (u_Password user) in
      if length passwordStore \<noteq> 2 \<and> length passwordStore \<noteq> 3 then Inl ErrUnknownPasswordType
      else if length passwordStore = 3 then
        (if passwordStore ! 0 \<noteq> ''md5'' then Inl ErrUnknownPasswordType
         else Inr (hexEncode (md5 H (passwordStore ! 2 @ password)) = passwordStore ! 1))
      else Inr (hexEncode (sha1 H (password @ passwordStore ! 0)) = passwordStore ! 1))"

definition SetPassword :: "hashes \<Rightarrow> nat list \<Rightarrow> user_row \<Rightarrow> gostring \<Rightarrow> user_row" where
  "SetPassword H draws user password =
     (let salt = RandStringRunes draws
      in user\<lparr>u_Password := salt @ '':'' @ hexEncode (sha1 H (password @ salt))\<rparr>)"

section \<open>Accounts (models/user.go, models/group.go)\<close>

definition Active :: int where "Active = 0"
definition NotActivate :: int where "NotActivate = 1"
definition Baned :: int where "Baned = 2"
definition OveruseBaned :: int where "OveruseBaned = 3"

definition IsAnonymous :: "user_row \<Rightarrow> bool" where
  "IsAnonymous user \<longleftrightarrow> u_ID user = 0"

definition map_ok :: "('a \<Rightarrow> 'b) \<Rightarrow> 'e + 'a \<Rightarrow> 'e + 'b" where
  "map_ok f res = (case res of Inl e \<Rightarrow> Inl e | Inr v \<Rightarrow> Inr (f v))"

lemma map_ok_simps [simp]: "map_ok f (Inl e) = Inl e" "map_ok f (Inr v) = Inr (f v)"
  by (simp_all add: map_ok_def)

text \<open>\<open>Find\<close> into a struct: no error when there is no such user, the user is then zero.\<close>

definition GetActivateUserByID ::
  "gorm \<Rightarrow> (user_row \<Rightarrow> user_row) \<Rightarrow> uint \<Rightarrow> db \<Rightarrow> db_error + user_row" where
  "GetActivateUserByID G preload uid d =
     find_struct zero_user
       (map_ok (map preload) (Find (Users G) (\<lambda>u. u_Status u = Active \<and> u_ID u = uid) d))"

definition GetActivateUserByEmail ::
  "gorm \<Rightarrow> (user_row \<Rightarrow> user_row) \<Rightarrow> gostring \<Rightarrow> db \<Rightarrow> db_error + user_row" where
  "GetActivateUserByEmail G preload email d =
     map_ok preload (First (Users G) (\<lambda>u. u_Status u = Active \<and> u_Email u = email) d)"

definition GetUserByEmail ::
  "gorm \<Rightarrow> (user_row \<Rightarrow> user_row) \<Rightarrow> gostring \<Rightarrow> db \<Rightarrow> db_error + user_row" where
  "GetUserByEmail G preload email d = map_ok preload (First (Users G) (\<lambda>u. u_Email u = email) d)"

definition GetUserByID ::
  "gorm \<Rightarrow> (user_row \<Rightarrow> user_row) \<Rightarrow> uint \<Rightarrow> db \<Rightarrow> db_error + user_row" where
  "GetUserByID G preload uid d = map_ok preload (First (Users G) (\<lambda>u. u_ID u = uid) d)"

definition GetGroupByID :: "gorm \<Rightarrow> uint \<Rightarrow> db \<Rightarrow> db_error + group_row" where
  "GetGroupByID G gid d = First (Groups G) (\<lambda>g. g_ID g = gid) d"

definition NewAnonymousUser :: "gorm \<Rightarrow> db \<Rightarrow> user_row" where
  "NewAnonymousUser G d =
     zero_user\<lparr>u_Policy := zero_policy\<lparr>p_Type := ''anonymous''\<rparr>,
       u_Group := (case GetGroupByID G 3 d of Inl _ \<Rightarrow> zero_group | Inr g \<Rightarrow> g)\<rparr>"

definition NewUser :: user_row where
  "NewUser = zero_user"

definition SetStatus :: "gorm \<Rightarrow> user_row \<Rightarrow> int \<Rightarrow> db \<Rightarrow> db" where
  "SetStatus G user status d =
     snd (write1 (by_key (u_ID user)
       (Updates (Users G) (\<lambda>u. u_ID u = u_ID user) (\<lambda>u. Some (u\<lparr>u_Status := status\<rparr>)) d)) d)"

section \<open>Settings (models/setting.go)\<close>

definition GetSettingByNameFromTx :: "gorm \<Rightarrow> gostring \<Rightarrow> db \<Rightarrow> gostring" where
  "GetSettingByNameFromTx G name d =
     (case First (Settings G) (\<lambda>r. st_Name r = name) d of Inl _ \<Rightarrow> [] | Inr r \<Rightarrow> st_Value r)"

definition GetSettingByName :: "gorm \<Rightarrow> gostring \<Rightarrow> db \<Rightarrow> gostring" where
  "GetSettingByName G name d = GetSettingByNameFromTx G name d"

definition settings_map :: "setting_row list \<Rightarrow> gostring \<rightharpoonup> gostring" where
  "settings_map rows = foldl (\<lambda>ans r. ans(st_Name r \<mapsto> st_Value r)) Map.empty rows"

text \<open>The error of the query is dropped: the map is then empty.\<close>

definition GetSettingByNames :: "gorm \<Rightarrow> gostring list \<Rightarrow> db \<Rightarrow> gostring \<rightharpoonup> gostring" where
  "GetSettingByNames G names d =
     settings_map (case Find (Settings G) (\<lambda>r. st_Name r \<in> set names) d of Inl _ \<Rightarrow> [] | Inr rows \<Rightarrow> rows)"

definition GetSettingByType :: "gorm \<Rightarrow> gostring list \<Rightarrow> db \<Rightarrow> gostring \<rightharpoonup> gostring" where
  "GetSettingByType G types d =
     settings_map (case Find (Settings G) (\<lambda>r. st_Type r \<in> set types) d of Inl _ \<Rightarrow> [] | Inr rows \<Rightarrow> rows)"

definition IsTrueVal :: "gostring \<Rightarrow> bool" where
  "IsTrueVal val \<longleftrightarrow> val = ''1'' \<or> val = ''true''"

definition GetIntSetting :: "gorm \<Rightarrow> gostring \<Rightarrow> int \<Rightarrow> db \<Rightarrow> int" where
  "GetIntSetting G key defaultVal d =
     (case parseInt (GetSettingByName G key d) of None \<Rightarrow> defaultVal | Some res \<Rightarrow> res)"

definition GetSettingByNameWithDefault :: "gorm \<Rightarrow> gostring \<Rightarrow> gostring \<Rightarrow> db \<Rightarrow> gostring" where
  "GetSettingByNameWithDefault G name fallback d =
     (let res = GetSettingByName G name d in if res = [] then fallback else res)"

section \<open>Tasks, tags and WebDAV accounts\<close>

definition Task_Create :: "gorm \<Rightarrow> task_row \<Rightarrow> db \<Rightarrow> (db_error + uint) \<times> db" where
  "Task_Create G task d =
     (case Create (Tasks G) task d of Inl e \<Rightarrow> (Inl e, d) | Inr (r, d') \<Rightarrow> (Inr (t_ID r), d'))"

definition Task_set :: "gorm \<Rightarrow> task_row \<Rightarrow> (task_row \<Rightarrow> task_row) \<Rightarrow> db \<Rightarrow> (model_error + unit) \<times> db" where
  "Task_set G task u d =
     write1 (by_key (t_ID task) (Updates (Tasks G) (\<lambda>r. t_ID r = t_ID task) (\<lambda>r. Some (u r)) d)) d"

definition Task_SetStatus :: "gorm \<Rightarrow> task_row \<Rightarrow> int \<Rightarrow> db \<Rightarrow> (model_error + unit) \<times> db" where
  "Task_SetStatus G task status d = Task_set G task (\<lambda>r. r\<lparr>t_Status := status\<rparr>) d"

definition Task_SetProgress :: "gorm \<Rightarrow> task_row \<Rightarrow> int \<Rightarrow> db \<Rightarrow> (model_error + unit) \<times> db" where
  "Task_SetProgress G task progress d = Task_set G task (\<lambda>r. r\<lparr>t_Progress := progress\<rparr>) d"

definition Task_SetError :: "gorm \<Rightarrow> task_row \<Rightarrow> gostring \<Rightarrow> db \<Rightarrow> (model_error + unit) \<times> db" where
  "Task_SetError G task err d = Task_set G task (\<lambda>r. r\<lparr>t_Error := err\<rparr>) d"

definition GetTasksByID :: "gorm \<Rightarrow> uint \<Rightarrow> db \<Rightarrow> db_error + task_row" where
  "GetTasksByID G i d = First (Tasks G) (\<lambda>r. t_ID r = i) d"

definition GetTasksByStatus :: "gorm \<Rightarrow> int list \<Rightarrow> db \<Rightarrow> task_row list" where
  "GetTasksByStatus G status d =
     (case Find (Tasks G) (\<lambda>r. t_Status r \<in> set status) d of Inl _ \<Rightarrow> [] | Inr rs \<Rightarrow> rs)"

text \<open>
  Pages: the number of matching rows and one page of them. Both errors are dropped; after an error
  of the count, which is kept in the chain of the statement, gorm runs no further query.
\<close>

definition list_page :: "'r table_api \<Rightarrow> ('r \<Rightarrow> bool) \<Rightarrow> int \<Rightarrow> int \<Rightarrow> gostring \<Rightarrow> db \<Rightarrow> 'r list \<times> nat" where
  "list_page T P page pageSize order d =
     (case Count T P d of
        Inl _ \<Rightarrow> ([], 0)
      | Inr n \<Rightarrow> ((case Page T order pageSize ((page - 1) * pageSize) P d of Inl _ \<Rightarrow> [] | Inr rs \<Rightarrow> rs), n))"

definition ListTasks :: "gorm \<Rightarrow> uint \<Rightarrow> int \<Rightarrow> int \<Rightarrow> gostring \<Rightarrow> db \<Rightarrow> task_row list \<times> nat" where
  "ListTasks G uid page pageSize order d =
     list_page (Tasks G) (\<lambda>r. t_UserID r = uid) page pageSize order d"

definition GetTagsByUID :: "gorm \<Rightarrow> uint \<Rightarrow> db \<Rightarrow> db_error + tag_row list" where
  "GetTagsByUID G uid d = Find (Tags G) (\<lambda>r. tag_UserID r = uid) d"

definition GetTagsByID :: "gorm \<Rightarrow> uint \<Rightarrow> uint \<Rightarrow> db \<Rightarrow> db_error + tag_row" where
  "GetTagsByID G i uid d = First (Tags G) (\<lambda>r. tag_UserID r = uid \<and> tag_ID r = i) d"

definition ListWebDAVAccounts :: "gorm \<Rightarrow> uint \<Rightarrow> db \<Rightarrow> webdav_row list" where
  "ListWebDAVAccounts G uid d =
     (case Page (Webdavs G) ''create_at desc'' (-1) 0 (\<lambda>r. w_UserID r = uid) d of Inl _ \<Rightarrow> [] | Inr rs \<Rightarrow> rs)"

definition DeleteWebDAVAccountByID :: "gorm \<Rightarrow> uint \<Rightarrow> uint \<Rightarrow> db \<Rightarrow> db" where
  "DeleteWebDAVAccountByID G i uid d =
     (case Delete (Webdavs G) (\<lambda>r. w_UserID r = uid \<and> w_ID r = i) d of Inl _ \<Rightarrow> d | Inr (n, d') \<Rightarrow> d')"

definition GetWebdavByPassword :: "gorm \<Rightarrow> gostring \<Rightarrow> uint \<Rightarrow> db \<Rightarrow> db_error + webdav_row" where
  "GetWebdavByPassword G password uid d =
     First (Webdavs G) (\<lambda>r. w_UserID r = uid \<and> w_Password r = password) d"

definition Webdav_Create :: "gorm \<Rightarrow> webdav_row \<Rightarrow> db \<Rightarrow> (db_error + uint) \<times> db" where
  "Webdav_Create G webdav d =
     (case Create (Webdavs G) webdav d of Inl e \<Rightarrow> (Inl e, d) | Inr (r, d') \<Rightarrow> (Inr (w_ID r), d'))"

text \<open>A page holds matching rows, at most as many as the page size, and comes with their number.\<close>

context gorm_table
begin

lemma list_page_rows:
  assumes "list_page T P page pageSize order d = (rs, n)" and "0 < pageSize"
  shows "set rs \<subseteq> {r \<in> set (get d). P r}" and "int (length rs) \<le> pageSize"
    and "n = 0 \<or> n = length (filter P (get d))"
proof -
  from assms(1) have rs: "rs = [] \<or> Page T order pageSize ((page - 1) * pageSize) P d = Inr rs"
    and n: "n = 0 \<or> Count T P d = Inr n"
    by (auto simp: list_page_def split: sum.splits)
  show "int (length rs) \<le> pageSize" using rs page_rows assms(2) by fastforce
  show "n = 0 \<or> n = length (filter P (get d))" using n count_rows by blast
  show "set rs \<subseteq> {r \<in> set (get d). P r}"
    using rs
  proof
    assume "Page T order pageSize ((page - 1) * pageSize) P d = Inr rs"
    then have "mset rs \<subseteq># mset (filter P (get d))" using page_rows by blast
    then have "set rs \<subseteq> set (filter P (get d))" by (metis set_mset_mono set_mset_mset)
    then show ?thesis by auto
  qed simp
qed

end

section \<open>Hexadecimal digits and salts\<close>

lemma hexDigit_set: "n < 16 \<Longrightarrow> hexDigit n \<in> set ''0123456789abcdef''"
  unfolding hexDigit_def by (rule nth_mem) simp

lemma hexDigit_inj: "m < 16 \<Longrightarrow> n < 16 \<Longrightarrow> hexDigit m = hexDigit n \<longleftrightarrow> m = n"
  unfolding hexDigit_def by (subst nth_eq_iff_index_eq) simp_all

lemma of_char_hex: "of_char c div 16 < (16 :: nat)" "of_char c mod 16 < (16 :: nat)"
proof -
  have "of_char c < (256 :: nat)" by simp
  then show "of_char c div 16 < (16 :: nat)" "of_char c mod 16 < (16 :: nat)"
    by (auto intro: less_mult_imp_div_less)
qed

lemma hexEncode_inj: "hexEncode s = hexEncode t \<longleftrightarrow> s = t"
proof (induction s arbitrary: t)
  case Nil
  then show ?case by (cases t) auto
next
  case (Cons c s)
  show ?case
  proof (cases t)
    case Nil
    then show ?thesis by simp
  next
    case (Cons e u)
    have "c = e" if "of_char c div 16 = (of_char e div 16 :: nat)" "of_char c mod 16 = (of_char e mod 16 :: nat)"
    proof -
      from that have "(of_char c :: nat) = of_char e" by (metis div_mult_mod_eq)
      then show ?thesis by (metis char_of_char)
    qed
    then show ?thesis
      using Cons Cons.IH [of u] by (auto simp: hexDigit_inj of_char_hex)
  qed
qed

lemma hexEncode_chars: "set (hexEncode s) \<subseteq> set ''0123456789abcdef''"
proof (induction s)
  case (Cons c s)
  have "hexDigit (of_char c div 16) \<in> set ''0123456789abcdef''"
    "hexDigit (of_char c mod 16) \<in> set ''0123456789abcdef''"
    by (rule hexDigit_set, rule of_char_hex)+
  with Cons show ?case by simp
qed simp

lemma letterRunes_no_colon: "CHR '':'' \<notin> set letterRunes"
  by (simp add: letterRunes_def)

lemma salt_no_colon: "draws_ok n draws \<Longrightarrow> CHR '':'' \<notin> set (RandStringRunes draws)"
proof
  assume "draws_ok n draws" "CHR '':'' \<in> set (RandStringRunes draws)"
  then obtain i where "i < length letterRunes" "letterRunes ! i = CHR '':''"
    by (auto simp: draws_ok_def RandStringRunes_def list_all_iff)
  then have "CHR '':'' \<in> set letterRunes" by (metis nth_mem)
  with letterRunes_no_colon show False ..
qed

lemma stored_password:
  assumes "draws_ok n draws"
  shows "splitOn (CHR '':'') (u_Password (SetPassword H draws user password)) =
    [RandStringRunes draws, hexEncode (sha1 H (password @ RandStringRunes draws))]"
proof -
  have "CHR '':'' \<notin> set (hexEncode (sha1 H (password @ RandStringRunes draws)))"
    using hexEncode_chars by fastforce
  with salt_no_colon [OF assms] show ?thesis
    by (simp add: SetPassword_def Let_def splitOn_front splitOn_single)
qed

section \<open>Properties\<close>

text \<open>
  After a password is set, a check answers without an error, and accepts exactly the
  passwords whose salted SHA-1 is that of the password set, that password among them.
\<close>

theorem SetPassword_CheckPassword:
  assumes "draws_ok 16 draws"
  shows "CheckPassword H (SetPassword H draws user password) guess =
    Inr (sha1 H (guess @ RandStringRunes draws) = sha1 H (password @ RandStringRunes draws))"
  unfolding CheckPassword_def by (simp add: stored_password [OF assms] hexEncode_inj)

theorem SetPassword_CheckPassword_witness:
  "CheckPassword \<lparr>md5 = (\<lambda>s. s), sha1 = rev\<rparr>
     (SetPassword \<lparr>md5 = (\<lambda>s. s), sha1 = rev\<rparr> (replicate 16 0) zero_user ''pw'') ''pw'' = Inr True"
proof -
  have "draws_ok 16 (replicate 16 0)" by (simp add: draws_ok_def letterRunes_def list_all_iff)
  from SetPassword_CheckPassword [OF this] show ?thesis by simp
qed

end
