(* ===== verification/ModelsShare.thy ===== *)
theory ModelsShare
  imports ModelsFolder ModelsUser
begin

text \<open>
  \<open>models/share.go\<close> and \<open>pkg/hashid\<close>. The encoder of ids (go-hashids, a third-party package)
  is the parameter \<open>hashids\<close>; the search pattern \<open>source_name like ?\<close> is the parameter
  \<open>like\<close>. The session of a visitor who is not logged in is a set of keys.
\<close>

section \<open>Public ids (pkg/hashid)\<close>

record hashids =
  Encode :: "int list \<Rightarrow> unit + gostring"
  DecodeWithError :: "gostring \<Rightarrow> int list"

definition ShareID :: int where "ShareID = 0"
definition UserID :: int where "UserID = 1"
definition FileID :: int where "FileID = 2"
definition FolderID :: int where "FolderID = 3"
definition TagID :: int where "TagID = 4"
definition PolicyID :: int where "PolicyID = 5"

datatype hashid_error = ErrTypeNotMatch

definition HashID :: "hashids \<Rightarrow> uint \<Rightarrow> int \<Rightarrow> gostring" where
  "HashID H i t = (case Encode H [int i, t] of Inl _ \<Rightarrow> [] | Inr v \<Rightarrow> v)"

definition DecodeHashID :: "hashids \<Rightarrow> gostring \<Rightarrow> int \<Rightarrow> hashid_error + uint" where
  "DecodeHashID H s t =
     (let v = DecodeWithError H s in
      if length v \<noteq> 2 \<or> v ! 1 \<noteq> t then Inl ErrTypeNotMatch else Inr (nat (v ! 0)))"

text \<open>go-hashids: encoding lists of numbers that are not negative succeeds, and decodes back.\<close>

definition hashids_ok :: "hashids \<Rightarrow> bool" where
  "hashids_ok H \<longleftrightarrow>
     (\<forall>v. v \<noteq> [] \<and> list_all (\<lambda>i. 0 \<le> i) v \<longrightarrow> (\<exists>s. Encode H v = Inr s \<and> DecodeWithError H s = v))"

section \<open>Sources and creators\<close>

definition zero_share :: share_row where
  "zero_share = \<lparr>s_ID = 0, s_CreatedAt = 0, s_Password = [], s_IsDir = False, s_UserID = 0, s_SourceID = 0, s_Views = 0,
     s_Downloads = 0, s_RemainDownloads = 0, s_Expires = None, s_PreviewEnabled = False,
     s_SourceName = [], s_User = zero_user, s_File = zero_file, s_Folder = zero_folder\<rparr>"

text \<open>The accessors load what is not loaded yet, and drop the errors of the queries.\<close>

definition SourceFolder :: "gorm \<Rightarrow> share_row \<Rightarrow> db \<Rightarrow> share_row" where
  "SourceFolder G share d =
     (if d_ID (s_Folder share) = 0 then
        (case GetFolderByIDs G [s_SourceID share] (s_UserID share) d of
           Inr (f # _) \<Rightarrow> share\<lparr>s_Folder := f\<rparr>
         | _ \<Rightarrow> share)
      else share)"

definition SourceFile :: "gorm \<Rightarrow> share_row \<Rightarrow> db \<Rightarrow> share_row" where
  "SourceFile G share d =
     (if f_ID (s_File share) = 0 then
        (case GetFilesByIDs G [s_SourceID share] (s_UserID share) d of
           Inr (f # _) \<Rightarrow> share\<lparr>s_File := f\<rparr>
         | _ \<Rightarrow> share)
      else share)"

definition Source :: "gorm \<Rightarrow> share_row \<Rightarrow> db \<Rightarrow> share_row" where
  "Source G share d = (if s_IsDir share then SourceFolder G share d else SourceFile G share d)"

definition Creator :: "gorm \<Rightarrow> (user_row \<Rightarrow> user_row) \<Rightarrow> share_row \<Rightarrow> db \<Rightarrow> share_row" where
  "Creator G preload share d =
     (if u_ID (s_User share) = 0 then
        share\<lparr>s_User := (case GetUserByID G preload (s_UserID share) d of Inl _ \<Rightarrow> zero_user | Inr u \<Rightarrow> u)\<rparr>
      else share)"

section \<open>Queries and writes\<close>

definition ListShares ::
  "gorm \<Rightarrow> uint \<Rightarrow> int \<Rightarrow> int \<Rightarrow> gostring \<Rightarrow> bool \<Rightarrow> db \<Rightarrow> share_row list \<times> nat" where
  "ListShares G uid page pageSize order publicOnly d =
     list_page (Shares G) (\<lambda>s. s_UserID s = uid \<and> (publicOnly \<longrightarrow> s_Password s = [])) page pageSize order d"

definition SearchShares ::
  "gorm \<Rightarrow> (gostring \<Rightarrow> gostring \<Rightarrow> bool) \<Rightarrow> unix_time \<Rightarrow> int \<Rightarrow> int \<Rightarrow> gostring \<Rightarrow> gostring \<Rightarrow> db \<Rightarrow>
   share_row list \<times> nat" where
  "SearchShares G like now page pageSize order keywords d =
     (let availableList = filter (\<lambda>k. k \<noteq> []) (splitOn (CHR '' '') keywords) in
      if availableList = [] then ([], 0)
      else list_page (Shares G)
        (\<lambda>s. s_Password s = [] \<and> s_RemainDownloads s \<noteq> 0 \<and>
             (case s_Expires s of None \<Rightarrow> True | Some e \<Rightarrow> e > now) \<and>
             like (''%'' @ joinWith ''%'' availableList @ ''%'') (s_SourceName s))
        page pageSize order d)"

definition DeleteShareBySourceIDs :: "gorm \<Rightarrow> uint list \<Rightarrow> bool \<Rightarrow> db \<Rightarrow> (model_error + unit) \<times> db" where
  "DeleteShareBySourceIDs G sources isDir d =
     write1 (map_ok snd (Delete (Shares G) (\<lambda>s. s_SourceID s \<in> set sources \<and> s_IsDir s = isDir) d)) d"

definition Viewed :: "gorm \<Rightarrow> share_row \<Rightarrow> db \<Rightarrow> share_row \<times> db" where
  "Viewed G share d =
     (share\<lparr>s_Views := s_Views share + 1\<rparr>,
      snd (write1 (by_key (s_ID share)
        (UpdateColumns (Shares G) (\<lambda>s. s_ID s = s_ID share) (\<lambda>s. Some (s\<lparr>s_Views := s_Views s + 1\<rparr>)) d)) d))"

definition GetShareByHashID :: "gorm \<Rightarrow> hashids \<Rightarrow> gostring \<Rightarrow> db \<Rightarrow> share_row option" where
  "GetShareByHashID G H hashID d =
     (case DecodeHashID H hashID ShareID of
        Inl _ \<Rightarrow> None
      | Inr i \<Rightarrow> (case First (Shares G) (\<lambda>s. s_ID s = i) d of Inl _ \<Rightarrow> None | Inr s \<Rightarrow> Some s))"

definition Share_Delete :: "gorm \<Rightarrow> share_row \<Rightarrow> db \<Rightarrow> (model_error + unit) \<times> db" where
  "Share_Delete G share d =
     write1 (by_key (s_ID share) (map_ok snd (Delete (Shares G) (\<lambda>s. s_ID s = s_ID share) d))) d"

definition Share_Update :: "gorm \<Rightarrow> share_row \<Rightarrow> (share_row \<Rightarrow> share_row) \<Rightarrow> db \<Rightarrow> (model_error + unit) \<times> db" where
  "Share_Update G share props d =
     write1 (by_key (s_ID share)
       (Updates (Shares G) (\<lambda>s. s_ID s = s_ID share) (\<lambda>s. Some (props s)) d)) d"

definition Share_Create :: "gorm \<Rightarrow> share_row \<Rightarrow> db \<Rightarrow> (model_error + uint) \<times> db" where
  "Share_Create G share d =
     (case Create (Shares G) share d of Inl e \<Rightarrow> (Inl (DbErr e), d) | Inr (s, d') \<Rightarrow> (Inr (s_ID s), d'))"

section \<open>Visits\<close>

text \<open>The checks load the creator and the source into the struct; the result is the share too.\<close>

definition IsAvailable ::
  "gorm \<Rightarrow> (user_row \<Rightarrow> user_row) \<Rightarrow> unix_time \<Rightarrow> share_row \<Rightarrow> db \<Rightarrow> bool \<times> share_row" where
  "IsAvailable G preload now share d =
     (if s_RemainDownloads share = 0 then (False, share)
      else if (case s_Expires share of None \<Rightarrow> False | Some e \<Rightarrow> now > e) then (False, share)
      else
        (let share1 = Creator G preload share d in
         if u_Status (s_User share1) \<noteq> Active then (False, share1)
         else
           (let share2 = (if s_IsDir share1 then SourceFolder G share1 d else SourceFile G share1 d);
                sourceID = (if s_IsDir share1 then d_ID (s_Folder share2) else f_ID (s_File share2))
            in (sourceID \<noteq> 0, share2))))"

datatype share_error = ErrLoginFirst | ErrGroupNotAllowed

definition CanBeDownloadBy :: "user_row \<Rightarrow> share_error option" where
  "CanBeDownloadBy user =
     (if \<not> g_ShareDownload (u_Group user) then
        (if IsAnonymous user then Some ErrLoginFirst else Some ErrGroupNotAllowed)
      else None)"

type_synonym session = "gostring set"

definition share_key :: "share_row \<Rightarrow> user_row \<Rightarrow> gostring" where
  "share_key share user = ''share_'' @ formatNat (s_ID share) @ ''_'' @ formatNat (u_ID user)"

definition WasDownloadedBy ::
  "unix_time \<Rightarrow> share_row \<Rightarrow> user_row \<Rightarrow> session \<Rightarrow> cache_obj memo \<Rightarrow> bool" where
  "WasDownloadedBy now share user ses ch =
     (if IsAnonymous user then share_key share user \<in> ses
      else cache_Get now (share_key share user) ch \<noteq> None)"

text \<open>The error of the update is dropped; the counters come from the struct, not from the row.\<close>

definition Downloaded :: "gorm \<Rightarrow> share_row \<Rightarrow> db \<Rightarrow> share_row \<times> db" where
  "Downloaded G share d =
     (let share' = share\<lparr>s_Downloads := s_Downloads share + 1,
            s_RemainDownloads := (if s_RemainDownloads share > 0 then s_RemainDownloads share - 1
                                  else s_RemainDownloads share)\<rparr>
      in (share',
          snd (Share_Update G share
            (\<lambda>s. s\<lparr>s_Downloads := s_Downloads share', s_RemainDownloads := s_RemainDownloads share'\<rparr>) d)))"

definition DownloadBy ::
  "gorm \<Rightarrow> unix_time \<Rightarrow> share_row \<Rightarrow> user_row \<Rightarrow> session \<Rightarrow> cache_obj memo \<Rightarrow> db \<Rightarrow>
   share_row \<times> session \<times> cache_obj memo \<times> db" where
  "DownloadBy G now share user ses ch d =
     (if \<not> WasDownloadedBy now share user ses ch then
        (let (share', d') = Downloaded G share d in
         if \<not> IsAnonymous user then
           (share', ses,
            cache_Set now (share_key share user) (CObj CTrue)
              (GetIntSetting G ''share_download_session_timeout'' 2073600 d') ch, d')
         else (share', insert (share_key share user) ses, ch, d'))
      else (share, ses, ch, d))"

section \<open>Properties\<close>

text \<open>
  A public id decodes to the number it was made from when it is read as the kind it was
  made for, and is refused as any other kind.
\<close>

theorem HashID_round_trip:
  assumes "hashids_ok H" and "0 \<le> t"
  shows "DecodeHashID H (HashID H i t) t' = (if t' = t then Inr i else Inl ErrTypeNotMatch)"
proof -
  have "\<exists>s. Encode H [int i, t] = Inr s \<and> DecodeWithError H s = [int i, t]"
    by (rule assms(1) [unfolded hashids_ok_def, rule_format]) (simp add: assms(2))
  then obtain s where "Encode H [int i, t] = Inr s" "DecodeWithError H s = [int i, t]" by blast
  then show ?thesis by (simp add: HashID_def DecodeHashID_def)
qed

text \<open>An encoder: the numbers in decimal, separated by dots.\<close>

definition dot_hashids :: hashids where
  "dot_hashids = \<lparr>Encode = (\<lambda>v. Inr (joinWith ''.'' (map (\<lambda>i. formatNat (nat i)) v))),
     DecodeWithError = (\<lambda>s. map (\<lambda>p. case parseDigits 0 p of None \<Rightarrow> 0 | Some n \<Rightarrow> int n) (splitOn (CHR ''.'') s))\<rparr>"

lemma dot_hashids_ok: "hashids_ok dot_hashids"
  unfolding hashids_ok_def
proof (intro allI impI)
  fix v :: "int list"
  assume v: "v \<noteq> [] \<and> list_all (\<lambda>i. 0 \<le> i) v"
  have "CHR ''.'' \<notin> set (formatNat n)" for n using formatNat_chars [of n] by auto
  then have "splitOn (CHR ''.'') (joinWith ''.'' (map (\<lambda>i. formatNat (nat i)) v)) = map (\<lambda>i. formatNat (nat i)) v"
    using v by (subst splitOn_joinWith) auto
  moreover have "map (\<lambda>i. int (nat i)) v = v" using v by (simp add: map_idI list_all_iff)
  ultimately have "DecodeWithError dot_hashids (joinWith ''.'' (map (\<lambda>i. formatNat (nat i)) v)) = v"
    by (simp add: dot_hashids_def comp_def parseDigits_formatNat)
  then show "\<exists>s. Encode dot_hashids v = Inr s \<and> DecodeWithError dot_hashids s = v"
    by (simp add: dot_hashids_def)
qed

theorem HashID_round_trip_witness:
  "DecodeHashID dot_hashids (HashID dot_hashids 42 FileID) FileID = Inr 42 \<and>
   DecodeHashID dot_hashids (HashID dot_hashids 42 FileID) FolderID = Inl ErrTypeNotMatch"
  using HashID_round_trip [OF dot_hashids_ok, of FileID 42] by (simp add: FileID_def FolderID_def)

end
