(* ===== verification/FsCore.thy ===== *)
theory FsCore
  imports ModelsFolder ModelsShare
begin

text \<open>
  \<open>pkg/filesystem\<close>: the struct \<open>FileSystem\<close> of \<open>filesystem.go\<close> with the choice of its storage
  driver, the lookups of \<open>path.go\<close> and the rules on names and sizes of \<open>validator.go\<close>.

  A \<open>FileSystem\<close> is the record \<open>fsys\<close>; what it works on, the database, the cache and the
  physical storage, is \<open>'p world\<close>, which extends it. The storage drivers are the parameter
  \<open>'p sys\<close>: one record of operations per driver, on a storage of any type \<open>'p\<close>; the local
  driver is modelled in \<open>LocalDriver\<close>. A nil dereference or a failed type assertion is the
  error \<open>ErrPanic\<close>, which no code of this package catches. The raw error inside an
  \<open>AppError\<close> is left out.
\<close>

section \<open>Errors (errors.go, serializer/error.go)\<close>

datatype fs_error =
    ErrUnknownPolicyType
  | ErrFileSizeTooBig
  | ErrFileExtensionNotAllowed
  | ErrInsufficientCapacity
  | ErrIllegalObjectName
  | ErrClientCanceled
  | ErrRootProtected
  | ErrInsertFileRecord
  | ErrFileExisted
  | ErrFileUploadSessionExisted
  | ErrFolderExisted
  | ErrPathNotExist
  | ErrObjectNotExist
  | ErrIO
  | ErrDBListObjects
  | ErrDBDeleteObjects
  | ErrPolicyNotSet
  | AppError int
  | ModelError model_error
  | StorageError nat
  | ErrPanic

definition CodeNotFullySuccess :: int where "CodeNotFullySuccess = 203"
definition CodeDBError :: int where "CodeDBError = 50001"
definition CodeNotSet :: int where "CodeNotSet = -1"

section \<open>Uploads and storage drivers\<close>

text \<open>\<open>fsctx.FileStream\<close>; \<open>File\<close> is what its reader yields.\<close>

record file_stream =
  fst_Mode :: u64
  fst_LastModified :: "unix_time option"
  fst_File :: gostring
  fst_Size :: u64
  fst_VirtualPath :: gostring
  fst_Name :: gostring
  fst_SavePath :: gostring
  fst_UploadSessionID :: "gostring option"
  fst_AppendStart :: u64
  fst_Model :: "file_row option"
  fst_Src :: gostring

definition zero_stream :: file_stream where
  "zero_stream = \<lparr>fst_Mode = 0, fst_LastModified = None, fst_File = [], fst_Size = 0, fst_VirtualPath = [],
     fst_Name = [], fst_SavePath = [], fst_UploadSessionID = None, fst_AppendStart = 0, fst_Model = None, fst_Src = []\<rparr>"

definition Overwrite :: u64 where "Overwrite = 1"
definition Append :: u64 where "Append = 2"
definition Nop :: u64 where "Nop = 4"

text \<open>\<open>mode&flag == flag\<close>\<close>

definition has_mode :: "u64 \<Rightarrow> u64 \<Rightarrow> bool" where
  "has_mode mode flag \<longleftrightarrow> and mode flag = flag"

text \<open>\<open>serializer.UploadCredential\<close>: the fields the local driver and the caller set.\<close>

record upload_credential =
  uc_SessionID :: gostring
  uc_ChunkSize :: u64
  uc_Expires :: int

text \<open>\<open>response.Object\<close>\<close>

record phys_object =
  po_Name :: gostring
  po_RelativePath :: gostring
  po_Source :: gostring
  po_Size :: u64
  po_IsDir :: bool

text \<open>
  \<open>driver.Handler\<close>. \<open>Source\<close> is given the file of the context and may write to the cache;
  \<open>Delete\<close> returns the names it could not delete.
\<close>

record 'p handler =
  h_Put :: "file_stream \<Rightarrow> 'p \<Rightarrow> fs_error option \<times> 'p"
  h_Delete :: "gostring list \<Rightarrow> 'p \<Rightarrow> gostring list \<times> 'p"
  h_Get :: "gostring \<Rightarrow> 'p \<Rightarrow> fs_error + gostring"
  h_Source :: "file_row option \<Rightarrow> gostring \<Rightarrow> int \<Rightarrow> bool \<Rightarrow> int \<Rightarrow> cache_obj memo \<Rightarrow>
    (fs_error + gostring) \<times> cache_obj memo"
  h_Token :: "int \<Rightarrow> upload_session \<Rightarrow> file_stream \<Rightarrow> 'p \<Rightarrow> (fs_error + upload_credential) \<times> 'p"
  h_CancelToken :: "upload_session \<Rightarrow> 'p \<Rightarrow> fs_error option \<times> 'p"
  h_List :: "gostring \<Rightarrow> bool \<Rightarrow> 'p \<Rightarrow> fs_error + phys_object list"

text \<open>
  The drivers \<open>DispatchHandler\<close> chooses from, each with its policy, and the one that makes a node
  store a file it has itself, with the driver and the policy that were set before.
\<close>

datatype driver = LocalDriver policy | RemoteDriver policy | SlaveDriver uint "driver option" "policy option"

text \<open>
  The surroundings: the ORM, the preloading of users, the clock, the encoder of ids, the drivers, whether
  \<open>remote.NewDriver\<close> succeeds, the strings \<open>GenerateSavePath\<close> draws, the order in which
  a range visits the groups of \<open>GroupFileByPolicy\<close>, and the answer a slave gets when it reports an
  upload to the callback URL of its master.
\<close>

record 'p sys =
  orm :: gorm
  preload :: "user_row \<Rightarrow> user_row"
  clock :: unix_time
  hids :: hashids
  drivers :: "driver \<Rightarrow> 'p handler"
  remote_ok :: "policy \<Rightarrow> bool"
  group_order :: "(uint \<times> file_row list) list \<Rightarrow> (uint \<times> file_row list) list"
  savePath :: "policy \<Rightarrow> uint \<Rightarrow> gostring \<Rightarrow> gostring \<Rightarrow> gostring"
  remote_callback :: "gostring \<Rightarrow> gostring \<Rightarrow> fs_error option"

section \<open>The struct (filesystem.go)\<close>

text \<open>The hooks an upload can carry (\<open>hooks.go\<close>), as data.\<close>

datatype hook =
    HookTruncateFileTo u64
  | HookChunkUploaded
  | HookValidateCapacity
  | HookChunkUpload
  | HookChunkUploadFailed
  | HookPopPlaceholderToFile gostring
  | HookGenerateThumb
  | HookDeleteUploadSession gostring
  | HookValidateFile
  | HookUpdateSourceName
  | HookResetPolicy
  | HookValidateCapacityDiff
  | HookCleanFileContent
  | HookClearFileSize
  | HookCancelContext
  | GenericAfterUpdate
  | HookDeleteTempFile
  | GenericAfterUpload
  | HookClearFileHeaderSize
  | SlaveAfterUpload upload_session

record fsys =
  User :: user_row
  Policy :: "policy option"
  FileTarget :: "file_row list"
  DirTarget :: "folder_row list"
  FsRoot :: "folder_row option"
  Hooks :: "(gostring \<rightharpoonup> hook list) option"
  Handler :: "driver option"

record 'p world = fsys +
  wdb :: db
  wcache :: "cache_obj memo"
  wdisk :: 'p

definition getEmptyFS :: "db \<Rightarrow> cache_obj memo \<Rightarrow> 'p \<Rightarrow> 'p world" where
  "getEmptyFS d ch p = \<lparr>User = zero_user, Policy = None, FileTarget = [], DirTarget = [], FsRoot = None,
     Hooks = None, Handler = None, wdb = d, wcache = ch, wdisk = p\<rparr>"

definition CleanTargets :: "'p world \<Rightarrow> 'p world" where
  "CleanTargets w = w\<lparr>FileTarget := [], DirTarget := []\<rparr>"

definition DispatchHandler :: "'p sys \<Rightarrow> 'p world \<Rightarrow> fs_error option \<times> 'p world" where
  "DispatchHandler S w =
     (case Policy w of
        None \<Rightarrow> (Some ErrPolicyNotSet, w)
      | Some currentType \<Rightarrow>
          (let policyType = p_Type currentType in
           if policyType = ''mock'' \<or> policyType = ''anonymous'' then (None, w)
           else if policyType = ''local'' then (None, w\<lparr>Handler := Some (LocalDriver currentType)\<rparr>)
           else if policyType = ''remote'' then
             (if remote_ok S currentType then (None, w\<lparr>Handler := Some (RemoteDriver currentType)\<rparr>)
              else (Some (StorageError 0), w))
           else (Some ErrUnknownPolicyType, w)))"

definition NewFileSystem :: "'p sys \<Rightarrow> user_row \<Rightarrow> db \<Rightarrow> cache_obj memo \<Rightarrow> 'p \<Rightarrow> fs_error option \<times> 'p world" where
  "NewFileSystem S user d ch p =
     DispatchHandler S ((getEmptyFS d ch p)\<lparr>User := user, Policy := Some (u_Policy user)\<rparr>)"

text \<open>The group is set only when its query failed, to the zero group that leaves.\<close>

definition NewAnonymousFileSystem :: "'p sys \<Rightarrow> db \<Rightarrow> cache_obj memo \<Rightarrow> 'p \<Rightarrow> 'p world" where
  "NewAnonymousFileSystem S d ch p =
     (let w = (getEmptyFS d ch p)\<lparr>User := zero_user\<rparr> in
      case GetGroupByID (orm S) 3 d of
        Inl _ \<Rightarrow> w\<lparr>User := (User w)\<lparr>u_Group := zero_group\<rparr>\<rparr>
      | Inr _ \<Rightarrow> w)"

definition NewFileSystemFromContext ::
  "'p sys \<Rightarrow> user_row option \<Rightarrow> db \<Rightarrow> cache_obj memo \<Rightarrow> 'p \<Rightarrow> fs_error option \<times> 'p world" where
  "NewFileSystemFromContext S userCtx d ch p =
     (case userCtx of
        None \<Rightarrow> (None, NewAnonymousFileSystem S d ch p)
      | Some user \<Rightarrow> NewFileSystem S user d ch p)"

definition SwitchToSlaveHandler :: "uint \<Rightarrow> 'p world \<Rightarrow> 'p world" where
  "SwitchToSlaveHandler node w = w\<lparr>Handler := Some (SlaveDriver node (Handler w) (Policy w))\<rparr>"

definition NewFileSystemFromCallback ::
  "'p sys \<Rightarrow> user_row option \<Rightarrow> upload_session option \<Rightarrow> db \<Rightarrow> cache_obj memo \<Rightarrow> 'p \<Rightarrow> fs_error option \<times> 'p world" where
  "NewFileSystemFromCallback S userCtx session d ch p =
     (case NewFileSystemFromContext S userCtx d ch p of
        (Some e, w) \<Rightarrow> (Some e, w)
      | (None, w) \<Rightarrow>
          (case session of
             None \<Rightarrow> (Some (StorageError 1), w)
           | Some callbackSession \<Rightarrow> DispatchHandler S (w\<lparr>Policy := Some (us_Policy callbackSession)\<rparr>)))"

definition SetTargetFile :: "file_row list \<Rightarrow> 'p world \<Rightarrow> 'p world" where
  "SetTargetFile fs w =
     (if FileTarget w = [] then w\<lparr>FileTarget := fs\<rparr> else w\<lparr>FileTarget := FileTarget w @ fs\<rparr>)"

definition SetTargetDir :: "folder_row list \<Rightarrow> 'p world \<Rightarrow> 'p world" where
  "SetTargetDir ds w =
     (if DirTarget w = [] then w\<lparr>DirTarget := ds\<rparr> else w\<lparr>DirTarget := DirTarget w @ ds\<rparr>)"

definition SetTargetFileByIDs :: "'p sys \<Rightarrow> uint list \<Rightarrow> 'p world \<Rightarrow> fs_error option \<times> 'p world" where
  "SetTargetFileByIDs S ids w =
     (case GetFilesByIDs (orm S) ids 0 (wdb w) of
        Inl _ \<Rightarrow> (Some ErrFileExisted, w)
      | Inr fs \<Rightarrow> (if fs = [] then (Some ErrFileExisted, w) else (None, SetTargetFile fs w)))"

datatype target = FileObject file_row | FolderObject folder_row | OtherObject

definition SetTargetByInterface :: "target \<Rightarrow> 'p world \<Rightarrow> fs_error option \<times> 'p world" where
  "SetTargetByInterface t w =
     (case t of
        FileObject f \<Rightarrow> (None, SetTargetFile [f] w)
      | FolderObject d \<Rightarrow> (None, SetTargetDir [d] w)
      | OtherObject \<Rightarrow> (Some ErrObjectNotExist, w))"

text \<open>\<open>GetPolicy\<close> also stores the policy in the file it is called on.\<close>

definition resetPolicyToFirstFile :: "'p sys \<Rightarrow> 'p world \<Rightarrow> fs_error option \<times> 'p world" where
  "resetPolicyToFirstFile S w =
     (case FileTarget w of
        [] \<Rightarrow> (Some ErrObjectNotExist, w)
      | f # rest \<Rightarrow>
          (let (f', ch') = GetPolicy (orm S) (clock S) f (wdb w) (wcache w)
           in DispatchHandler S
                (w\<lparr>FileTarget := f' # rest, wcache := ch', Policy := Some (f_Policy f')\<rparr>)))"

text \<open>The file of the context is the target before its policy is set.\<close>

definition SignURL :: "'p sys \<Rightarrow> file_row \<Rightarrow> int \<Rightarrow> bool \<Rightarrow> 'p world \<Rightarrow> (fs_error + gostring) \<times> 'p world" where
  "SignURL S f ttl isDownload w =
     (case resetPolicyToFirstFile S (w\<lparr>FileTarget := [f]\<rparr>) of
        (Some e, w1) \<Rightarrow> (Inl e, w1)
      | (None, w1) \<Rightarrow>
          (case (Handler w1, FileTarget w1) of
             (Some h, g # _) \<Rightarrow>
               (case h_Source (drivers S h) (Some f) (f_SourceName g) ttl isDownload
                       (g_SpeedLimit (u_Group (User w1))) (wcache w1) of
                  (Inl _, ch') \<Rightarrow> (Inl (AppError CodeNotSet), w1\<lparr>wcache := ch'\<rparr>)
                | (Inr source, ch') \<Rightarrow> (Inr source, w1\<lparr>wcache := ch'\<rparr>))
           | _ \<Rightarrow> (Inl ErrPanic, w1)))"

section \<open>Lookups (path.go)\<close>

text \<open>
  The loop over the elements of the path. The first element is \<open>/\<close>, so that a folder is at
  hand for every other one (\<open>IsPathExist_loop_folder\<close>); the second component is the folder.
\<close>

fun IsPathExist_loop ::
  "gorm \<Rightarrow> uint \<Rightarrow> db \<Rightarrow> folder_row option \<Rightarrow> gostring list \<Rightarrow> bool \<times> folder_row option" where
  "IsPathExist_loop G uid d currentFolder [] = (True, currentFolder)"
| "IsPathExist_loop G uid d currentFolder (folderName # rest) =
     (if folderName = ''/'' then
        (case currentFolder of
           Some f \<Rightarrow> IsPathExist_loop G uid d (Some f) rest
         | None \<Rightarrow>
             (case Root G uid d of
                Inl _ \<Rightarrow> (False, None)
              | Inr r \<Rightarrow> IsPathExist_loop G uid d (Some r) rest))
      else
        (case currentFolder of
           None \<Rightarrow> (False, None)
         | Some f \<Rightarrow>
             (case GetChild G f folderName d of
                Inl _ \<Rightarrow> (False, None)
              | Inr c \<Rightarrow> IsPathExist_loop G uid d (Some c) rest)))"

definition IsPathExist :: "gorm \<Rightarrow> 'p world \<Rightarrow> gostring \<Rightarrow> bool \<times> folder_row option" where
  "IsPathExist G w path =
     (let pathList = SplitPath path in
      if pathList = [] then (False, None)
      else IsPathExist_loop G (u_ID (User w)) (wdb w) (FsRoot w) pathList)"

definition IsChildFileExist :: "gorm \<Rightarrow> 'p world \<Rightarrow> folder_row \<Rightarrow> gostring \<Rightarrow> bool \<times> file_row" where
  "IsChildFileExist G w folder name =
     (case GetChildFile G folder name (wdb w) of Inl _ \<Rightarrow> (False, zero_file) | Inr f \<Rightarrow> (True, f))"

definition IsFileExist :: "gorm \<Rightarrow> 'p world \<Rightarrow> gostring \<Rightarrow> bool \<times> file_row" where
  "IsFileExist G w fullPath =
     (case IsPathExist G w (pathDir fullPath) of
        (True, Some parent) \<Rightarrow> IsChildFileExist G w parent (pathBase fullPath)
      | _ \<Rightarrow> (False, zero_file))"

lemma IsPathExist_loop_folder:
  "IsPathExist_loop G uid d (Some f) ps = (True, res) \<Longrightarrow> res \<noteq> None"
  by (induction ps arbitrary: f) (auto split: if_splits sum.splits)

lemma SplitPath_hd: "SplitPath p \<noteq> [] \<Longrightarrow> hd (SplitPath p) = ''/''"
  by (auto simp: SplitPath_def split: if_splits) (metis hd_conv_nth length_list_update list.size(3) nth_list_update_eq length_greater_0_conv splitOn_not_Nil list_update_nonempty)

lemma IsPathExist_Some: "IsPathExist G w p = (True, res) \<Longrightarrow> \<exists>f. res = Some f"
proof -
  assume a: "IsPathExist G w p = (True, res)"
  then have "SplitPath p \<noteq> []" by (auto simp: IsPathExist_def Let_def split: if_splits)
  with SplitPath_hd obtain rest where s: "SplitPath p = ''/'' # rest" by (metis list.collapse)
  from a s have "res \<noteq> None"
    by (auto simp: IsPathExist_def Let_def dest: IsPathExist_loop_folder split: option.splits sum.splits)
  then show ?thesis by blast
qed

section \<open>Names and sizes (validator.go)\<close>

definition reservedCharacter :: "gostring list" where
  "reservedCharacter = [[CHR 92], ''?'', ''*'', ''<'', [CHR 34], '':'', ''>'', ''/'', ''|'']"

definition IsInExtensionList :: "gostring list \<Rightarrow> gostring \<Rightarrow> bool" where
  "IsInExtensionList extList fileName =
     (let ext = toLower (pathExt fileName) in
      if length ext = 0 then False else ContainsString extList (drop 1 ext))"

definition ValidateLegalName :: "gostring \<Rightarrow> bool" where
  "ValidateLegalName name =
     (if list_ex (\<lambda>value. containsStr name value) reservedCharacter then False
      else if length name \<ge> 256 then False
      else if length name = 0 then False
      else \<not> hasSuffix name '' '')"

text \<open>The two that read the file system's policy take it as an argument.\<close>

definition ValidateExtension :: "policy \<Rightarrow> gostring \<Rightarrow> bool" where
  "ValidateExtension policy fileName =
     (if length (p_FileType policy) = 0 then True else IsInExtensionList (p_FileType policy) fileName)"

definition ValidateFileSize :: "policy \<Rightarrow> u64 \<Rightarrow> bool" where
  "ValidateFileSize policy n = (if p_MaxSize policy = 0 then True else n \<le> p_MaxSize policy)"

lemma ValidateLegalName_chars:
  "ValidateLegalName n \<longleftrightarrow>
   n \<noteq> [] \<and> length n < 256 \<and> last n \<noteq> CHR '' '' \<and>
   set n \<inter> {CHR 92, CHR ''?'', CHR ''*'', CHR ''<'', CHR 34, CHR '':'', CHR ''>'', CHR ''/'', CHR ''|''} = {}"
  by (auto simp: ValidateLegalName_def reservedCharacter_def containsStr_char hasSuffix_single)

text \<open>A legal name is a path element, unless it is one of the two dot names.\<close>

lemma legal_cleanElem: "ValidateLegalName n \<Longrightarrow> n \<noteq> ''.'' \<Longrightarrow> n \<noteq> ''..'' \<Longrightarrow> cleanElem n"
  by (auto simp: ValidateLegalName_chars cleanElem_def)

end
