(* ===== verification/FsManage.thy ===== *)
theory FsManage
  imports FsCore
begin

text \<open>
  \<open>pkg/filesystem/manage.go\<close> and the deletion of stored files in \<open>file.go\<close>: deleting,
  creating directories, listing, renaming, copying and moving, on the models and the drivers.
\<close>

section \<open>Policies of stored files (models/policy.go)\<close>

definition CanStructureBeListed :: "policy \<Rightarrow> bool" where
  "CanStructureBeListed policy \<longleftrightarrow> p_Type policy \<noteq> ''local'' \<and> p_Type policy \<noteq> ''remote''"

definition IsDirectlyPreview :: "policy \<Rightarrow> bool" where
  "IsDirectlyPreview policy \<longleftrightarrow> p_Type policy = ''local''"

definition IsUploadPlaceholderWithSize :: "policy \<Rightarrow> bool" where
  "IsUploadPlaceholderWithSize policy =
     (if p_Type policy = ''remote'' then True
      else if ContainsString [''onedrive'', ''oss'', ''qiniu'', ''cos'', ''s3''] (p_Type policy) then
        p_PlaceholderWithSize policy
      else False)"

definition IsTransitUpload :: "policy \<Rightarrow> u64 \<Rightarrow> bool" where
  "IsTransitUpload policy n \<longleftrightarrow> p_Type policy = ''local''"

definition IsThumbGenerateNeeded :: "policy \<Rightarrow> bool" where
  "IsThumbGenerateNeeded policy \<longleftrightarrow> p_Type policy = ''local''"

definition thumbSuffix :: "gostring \<rightharpoonup> gostring list" where
  "thumbSuffix = map_of
     [(''local'', []),
      (''qiniu'', [''.psd'', ''.jpg'', ''.jpeg'', ''.png'', ''.gif'', ''.webp'', ''.tiff'', ''.bmp'']),
      (''oss'', [''.jpg'', ''.jpeg'', ''.png'', ''.gif'', ''.webp'', ''.tiff'', ''.bmp'']),
      (''cos'', [''.jpg'', ''.jpeg'', ''.png'', ''.gif'', ''.webp'', ''.tiff'', ''.bmp'']),
      (''upyun'', [''.svg'', ''.jpg'', ''.jpeg'', ''.png'', ''.gif'', ''.webp'', ''.tiff'', ''.bmp'']),
      (''s3'', []),
      (''remote'', []),
      (''onedrive'', [''*''])]"

definition IsThumbExist :: "policy \<Rightarrow> gostring \<Rightarrow> bool" where
  "IsThumbExist policy name =
     (case thumbSuffix (p_Type policy) of
        Some list \<Rightarrow>
          (if length list = 1 \<and> list ! 0 = ''*'' then True
           else ContainsString list (toLower (pathExt name)))
      | None \<Rightarrow> False)"

section \<open>Deleting\<close>

text \<open>
  The groups are a Go map: here the list of its entries in the order in which the policies
  first occur; \<open>group_order\<close> is the order a range takes.
\<close>

fun add_to_group :: "file_row \<Rightarrow> (uint \<times> file_row list) list \<Rightarrow> (uint \<times> file_row list) list" where
  "add_to_group f [] = [(f_PolicyID f, [f])]"
| "add_to_group f ((k, fs) # gs) =
     (if k = f_PolicyID f then (k, fs @ [f]) # gs else (k, fs) # add_to_group f gs)"

definition GroupFileByPolicy :: "file_row list \<Rightarrow> (uint \<times> file_row list) list" where
  "GroupFileByPolicy fs = foldl (\<lambda>gs f. add_to_group f gs) [] fs"

text \<open>The upload sessions of a group that are in the cache; \<open>None\<close> is a failed assertion.\<close>

fun cached_sessions :: "unix_time \<Rightarrow> cache_obj memo \<Rightarrow> file_row list \<Rightarrow> upload_session list option" where
  "cached_sessions now ch [] = Some []"
| "cached_sessions now ch (f # fs) =
     (case f_UploadSessionID f of
        None \<Rightarrow> cached_sessions now ch fs
      | Some i \<Rightarrow>
          (case cache_Get now (''callback_'' @ i) ch of
             None \<Rightarrow> cached_sessions now ch fs
           | Some (CObj (CSession s)) \<Rightarrow>
               (case cached_sessions now ch fs of None \<Rightarrow> None | Some ss \<Rightarrow> Some (s # ss))
           | Some _ \<Rightarrow> None))"

text \<open>The error of \<open>CancelToken\<close> is only logged.\<close>

fun cancel_sessions :: "'p handler \<Rightarrow> upload_session list \<Rightarrow> 'p world \<Rightarrow> 'p world" where
  "cancel_sessions h [] w = w"
| "cancel_sessions h (s # ss) w =
     (let p' = snd (h_CancelToken h s (wdisk w))
      in cancel_sessions h ss
           (w\<lparr>wdisk := p', wcache := cache_Deletes [us_Key s] ''callback_'' (wcache w)\<rparr>))"

text \<open>One group: the names that could not be deleted.\<close>

definition delete_group ::
  "'p sys \<Rightarrow> file_row list \<Rightarrow> 'p world \<Rightarrow> (fs_error + gostring list) \<times> 'p world" where
  "delete_group S toBeDeletedFiles w =
     (let sourceNamesAll = map f_SourceName toBeDeletedFiles in
      case (cached_sessions (clock S) (wcache w) toBeDeletedFiles, toBeDeletedFiles) of
        (Some uploadSessions, f # _) \<Rightarrow>
          (let (f', ch') = GetPolicy (orm S) (clock S) f (wdb w) (wcache w) in
           case DispatchHandler S (w\<lparr>Policy := Some (f_Policy f'), wcache := ch'\<rparr>) of
             (Some _, w1) \<Rightarrow> (Inr sourceNamesAll, w1)
           | (None, w1) \<Rightarrow>
               (case Handler w1 of
                  None \<Rightarrow> (Inl ErrPanic, w1)
                | Some drv \<Rightarrow>
                    (let w2 = cancel_sessions (drivers S drv) uploadSessions w1;
                         (failedFile, p') = h_Delete (drivers S drv) sourceNamesAll (wdisk w2)
                     in (Inr failedFile, w2\<lparr>wdisk := p'\<rparr>))))
      | _ \<Rightarrow> (Inl ErrPanic, w))"

fun deleteGroupedFile_loop ::
  "'p sys \<Rightarrow> (uint \<times> file_row list) list \<Rightarrow> (uint \<rightharpoonup> gostring list) \<Rightarrow> 'p world \<Rightarrow>
   (fs_error + (uint \<rightharpoonup> gostring list)) \<times> 'p world" where
  "deleteGroupedFile_loop S [] failed w = (Inr failed, w)"
| "deleteGroupedFile_loop S ((policyID, fs) # gs) failed w =
     (case delete_group S fs w of
        (Inl e, w') \<Rightarrow> (Inl e, w')
      | (Inr names, w') \<Rightarrow> deleteGroupedFile_loop S gs (failed(policyID \<mapsto> names)) w')"

definition deleteGroupedFile ::
  "'p sys \<Rightarrow> (uint \<times> file_row list) list \<Rightarrow> 'p world \<Rightarrow> (fs_error + (uint \<rightharpoonup> gostring list)) \<times> 'p world" where
  "deleteGroupedFile S gs w = deleteGroupedFile_loop S (group_order S gs) Map.empty w"

text \<open>The first folder without a parent is taken out.\<close>

fun drop_root :: "folder_row list \<Rightarrow> folder_row list" where
  "drop_root [] = []"
| "drop_root (f # fs) = (if d_ParentID f = None then fs else f # drop_root fs)"

definition ListDeleteDirs :: "'p sys \<Rightarrow> uint list \<Rightarrow> 'p world \<Rightarrow> fs_error option \<times> 'p world" where
  "ListDeleteDirs S ids w =
     (case GetRecursiveChildFolder (orm S) ids (u_ID (User w)) True (wdb w) of
        (_, Some _) \<Rightarrow> (Some ErrDBListObjects, w)
      | (folders0, None) \<Rightarrow>
          (let fds = drop_root folders0; w1 = SetTargetDir fds w in
           case GetChildFilesOfFolders (orm S) fds (wdb w1) of
             Inl _ \<Rightarrow> (Some ErrDBListObjects, w1)
           | Inr fs \<Rightarrow> (None, SetTargetFile fs w1)))"

definition ListDeleteFiles :: "'p sys \<Rightarrow> uint list \<Rightarrow> 'p world \<Rightarrow> fs_error option \<times> 'p world" where
  "ListDeleteFiles S ids w =
     (case GetFilesByIDs (orm S) ids (u_ID (User w)) (wdb w) of
        Inl _ \<Rightarrow> (Some ErrDBListObjects, w)
      | Inr fs \<Rightarrow> (None, SetTargetFile fs w))"

text \<open>A file counts as deleted unless its source is among the failed ones of its policy.\<close>

definition not_failed :: "(uint \<rightharpoonup> gostring list) \<Rightarrow> file_row \<Rightarrow> bool" where
  "not_failed failed f \<longleftrightarrow>
     \<not> ContainsString (case failed (f_PolicyID f) of None \<Rightarrow> [] | Some ns \<Rightarrow> ns) (f_SourceName f)"

text \<open>The targets: the folders and files to delete.\<close>

definition list_targets :: "'p sys \<Rightarrow> uint list \<Rightarrow> uint list \<Rightarrow> 'p world \<Rightarrow> fs_error option \<times> 'p world" where
  "list_targets S dirs fileIDs w =
     (case (if length dirs > 0 then ListDeleteDirs S dirs w else (None, w)) of
        (Some e, w1) \<Rightarrow> (Some e, w1)
      | (None, w1) \<Rightarrow> (if length fileIDs > 0 then ListDeleteFiles S fileIDs w1 else (None, w1)))"

text \<open>What follows the deletion of the stored files: rows, shares, folders.\<close>

definition delete_rows :: "'p sys \<Rightarrow> file_row list \<Rightarrow> 'p world \<Rightarrow> fs_error option \<times> 'p world" where
  "delete_rows S deletedFiles w =
     (case DeleteFiles (orm S) deletedFiles (u_ID (User w)) (wdb w) of
        (Inl _, d1) \<Rightarrow> (Some ErrDBDeleteObjects, w\<lparr>wdb := d1\<rparr>)
      | (Inr _, d1) \<Rightarrow>
          (let d2 = snd (DeleteShareBySourceIDs (orm S) (map f_ID deletedFiles) False d1) in
           if length deletedFiles = length (FileTarget w) then
             (let allFolderIDs = map d_ID (DirTarget w) in
              case DeleteFolderByIDs (orm S) allFolderIDs d2 of
                (Inl _, d3) \<Rightarrow> (Some ErrDBDeleteObjects, w\<lparr>wdb := d3\<rparr>)
              | (Inr _, d3) \<Rightarrow>
                  (None, w\<lparr>wdb := snd (DeleteShareBySourceIDs (orm S) allFolderIDs True d3)\<rparr>))
           else (Some (AppError CodeNotFullySuccess), w\<lparr>wdb := d2\<rparr>)))"

definition Delete_objects ::
  "'p sys \<Rightarrow> uint list \<Rightarrow> uint list \<Rightarrow> bool \<Rightarrow> 'p world \<Rightarrow> fs_error option \<times> 'p world" where
  "Delete_objects S dirs fileIDs force w =
     (case list_targets S dirs fileIDs w of
        (Some e, w1) \<Rightarrow> (Some e, w1)
      | (None, w1) \<Rightarrow>
          (case RemoveFilesWithSoftLinks (orm S) (FileTarget w1) (wdb w1) of
             Inl _ \<Rightarrow> (Some ErrDBListObjects, w1)
           | Inr filesToBeDelete \<Rightarrow>
               (case deleteGroupedFile S (GroupFileByPolicy filesToBeDelete) w1 of
                  (Inl e, w2) \<Rightarrow> (Some e, w2)
                | (Inr failed, w2) \<Rightarrow>
                    (let allFiles = FileTarget w2;
                         deletedFiles = (if force then allFiles else filter (not_failed failed) allFiles)
                     in delete_rows S deletedFiles w2))))"

section \<open>Creating directories\<close>

text \<open>
  Every element a cleaned path keeps is not empty, so a cleaned path is no longer than the
  path, and its directory is shorter; that is why the recursion on the parent ends.
\<close>

definition seg :: "gostring \<Rightarrow> bool" where
  "seg p \<longleftrightarrow> p \<noteq> [] \<and> CHR ''/'' \<notin> set p"

definition weight :: "gostring list \<Rightarrow> nat" where
  "weight ps = sum_list (map (\<lambda>p. Suc (length p)) ps)"

lemma weight_simps [simp]: "weight [] = 0" "weight (p # ps) = Suc (length p) + weight ps"
  "weight (ps @ qs) = weight ps + weight qs" "weight (rev ps) = weight ps"
  by (simp_all add: weight_def rev_map [symmetric])

lemma cleanStep_weight: "weight (cleanStep r out p) \<le> weight out + Suc (length p)"
  by (auto simp: cleanStep_def split: list.splits)

lemma cleanStep_seg:
  "list_all seg out \<Longrightarrow> CHR ''/'' \<notin> set p \<Longrightarrow> list_all seg (cleanStep r out p)"
  by (auto simp: cleanStep_def seg_def split: list.splits)

lemma foldl_cleanStep_bounds:
  "list_all seg out \<Longrightarrow> \<forall>p\<in>set ps. CHR ''/'' \<notin> set p \<Longrightarrow>
   list_all seg (foldl (cleanStep r) out ps) \<and> weight (foldl (cleanStep r) out ps) \<le> weight out + weight ps"
proof (induction ps arbitrary: out)
  case (Cons p ps)
  have "list_all seg (cleanStep r out p)" using Cons.prems by (simp add: cleanStep_seg)
  with Cons.IH [of "cleanStep r out p"] Cons.prems cleanStep_weight [of r out p] show ?case by auto
qed simp

lemma weight_splitOn: "weight (splitOn sep s) = Suc (length s)"
  by (induction s) (auto split: list.splits)

lemma length_joinWith: "ps \<noteq> [] \<Longrightarrow> Suc (length (joinWith [c] ps)) = weight ps"
proof (induction ps)
  case (Cons p ps)
  then show ?case by (cases ps) auto
qed simp

lemma cleanElems_bounds:
  "list_all seg (cleanElems r (splitOn (CHR ''/'') s))"
  "weight (cleanElems r (splitOn (CHR ''/'') s)) \<le> Suc (length s)"
  using foldl_cleanStep_bounds [of "[]" "splitOn (CHR ''/'') s" r] splitOn_no_sep [of _ "CHR ''/''" s]
  by (auto simp: cleanElems_def weight_splitOn)

lemma cleanElems_rooted_weight:
  "weight (cleanElems True (splitOn (CHR ''/'') (CHR ''/'' # s))) \<le> Suc (length s)"
  using foldl_cleanStep_bounds [of "[]" "splitOn (CHR ''/'') s" True] splitOn_no_sep [of _ "CHR ''/''" s]
  by (auto simp: cleanElems_def weight_splitOn cleanStep_def)

lemma length_pathClean:
  assumes "s \<noteq> []"
  shows "length (pathClean s) \<le> length s"
proof (cases "isRooted s")
  case True
  then obtain t where t: "s = CHR ''/'' # t" by (cases s) (auto simp: isRooted_def)
  let ?es = "cleanElems True (splitOn (CHR ''/'') s)"
  show ?thesis
  proof (cases "?es = []")
    case True
    then show ?thesis using \<open>isRooted s\<close> t by (simp add: pathClean_def Let_def)
  next
    case False
    then show ?thesis
      using \<open>isRooted s\<close> length_joinWith [OF False, of "CHR ''/''"] cleanElems_rooted_weight [of t] t
      by (simp add: pathClean_def Let_def)
  qed
next
  case False
  let ?es = "cleanElems False (splitOn (CHR ''/'') s)"
  show ?thesis
  proof (cases "?es = []")
    case True
    then show ?thesis using False assms by (simp add: pathClean_def Let_def Suc_leI)
  next
    case ne: False
    then show ?thesis
      using False assms length_joinWith [OF ne, of "CHR ''/''"] cleanElems_bounds(2) [of False s]
      by (simp add: pathClean_def Let_def)
  qed
qed

lemma joinWith_last: "list_all seg ps \<Longrightarrow> ps \<noteq> [] \<Longrightarrow> joinWith sep ps \<noteq> [] \<and> last (joinWith sep ps) \<noteq> CHR ''/''"
proof (induction sep ps rule: joinWith.induct)
  case (2 sep p)
  then have "p \<noteq> []" "CHR ''/'' \<notin> set p" by (auto simp: seg_def)
  then show ?case using last_in_set [of p] by (metis joinWith.simps(2))
next
  case (3 sep p q ps)
  then show ?case by simp
qed simp

lemma pathClean_last: "pathClean s \<noteq> ''/'' \<Longrightarrow> last (pathClean s) \<noteq> CHR ''/''"
proof -
  let ?es = "cleanElems (isRooted s) (splitOn (CHR ''/'') s)"
  assume n: "pathClean s \<noteq> ''/''"
  consider "s = []" | "s \<noteq> []" "?es = []" | "s \<noteq> []" "?es \<noteq> []" by blast
  then show ?thesis
  proof cases
    case 1
    then show ?thesis by (simp add: pathClean_def)
  next
    case 2
    then show ?thesis using n by (cases "isRooted s") (simp_all add: pathClean_def Let_def)
  next
    case 3
    with cleanElems_bounds(1) [of "isRooted s" s]
    have "joinWith ''/'' ?es \<noteq> []" "last (joinWith ''/'' ?es) \<noteq> CHR ''/''"
      using joinWith_last by blast+
    with 3 show ?thesis by (cases "isRooted s") (simp_all add: pathClean_def Let_def)
  qed
qed

definition cd_rank :: "gostring \<Rightarrow> nat" where
  "cd_rank p = (if p = ''.'' \<or> p = [] \<or> p = ''/'' then 0 else length p)"

lemma pathDir_shorter:
  assumes "p \<noteq> ''.''" and "p \<noteq> []" and "p \<noteq> ''/''" and "pathClean p \<noteq> ''/''"
  shows "cd_rank (pathDir (pathClean p)) < cd_rank p"
proof -
  let ?q = "pathClean p"
  let ?pre = "rev (dropWhile (\<lambda>x. x \<noteq> CHR ''/'') (rev ?q))"
  have dir: "pathDir ?q = pathClean ?pre" by (simp add: pathDir_def)
  have p: "cd_rank p = length p" "0 < length p" using assms by (auto simp: cd_rank_def)
  show ?thesis
  proof (cases "?pre = []")
    case True
    then show ?thesis unfolding dir using p by (simp add: pathClean_def cd_rank_def)
  next
    case False
    have "?q \<noteq> []" using False by auto
    then obtain x xs where q: "rev ?q = x # xs" by (cases "rev ?q") auto
    have "last ?q = hd (rev ?q)" using \<open>?q \<noteq> []\<close> by (simp add: hd_rev)
    then have "x = last ?q" using q by simp
    then have "x \<noteq> CHR ''/''" using pathClean_last [OF assms(4)] by simp
    then have pre: "?pre = rev (dropWhile (\<lambda>x. x \<noteq> CHR ''/'') xs)" using q by simp
    have "length ?q = Suc (length xs)" using q by (metis length_Cons length_rev)
    then have "length ?pre < length ?q"
      using length_dropWhile_le [of "\<lambda>x. x \<noteq> CHR ''/''" xs] by (simp add: pre)
    moreover have "cd_rank (pathClean ?pre) \<le> length ?pre"
      using length_pathClean [OF False] by (auto simp: cd_rank_def)
    ultimately show ?thesis unfolding dir p(1) using length_pathClean [OF assms(2)] by linarith
  qed
qed

lemma illegal_slash: "ValidateLegalName (trimRightChar (pathBase (pathClean p)) (CHR '' '')) \<Longrightarrow> pathClean p \<noteq> ''/''"
proof
  assume v: "ValidateLegalName (trimRightChar (pathBase (pathClean p)) (CHR '' ''))" and "pathClean p = ''/''"
  then have "trimRightChar (pathBase (pathClean p)) (CHR '' '') = ''/''"
    by (simp add: pathBase_def trimRightChar_def afterLast_def)
  with v show False by (simp add: ValidateLegalName_chars)
qed

function CreateDirectory ::
  "gorm \<Rightarrow> gostring \<Rightarrow> 'p world \<Rightarrow> (fs_error + folder_row) \<times> 'p world" where
  "CreateDirectory G fullPath0 w =
     (if fullPath0 = ''.'' \<or> fullPath0 = [] then (Inl ErrRootProtected, w)
      else if fullPath0 = ''/'' then
        (case FsRoot w of
           Some r \<Rightarrow> (Inr r, w)
         | None \<Rightarrow>
             (case Root G (u_ID (User w)) (wdb w) of
                Inl e \<Rightarrow> (Inl (ModelError (DbErr e)), w) | Inr r \<Rightarrow> (Inr r, w)))
      else
        (let fullPath = pathClean fullPath0;
             base = pathDir fullPath;
             dir = trimRightChar (pathBase fullPath) (CHR '' '') in
         if \<not> ValidateLegalName dir then (Inl ErrIllegalObjectName, w)
         else
           (case (case IsPathExist G w base of
                    (True, parent) \<Rightarrow> (case parent of None \<Rightarrow> (Inl ErrPanic, w) | Some p \<Rightarrow> (Inr p, w))
                  | (False, _) \<Rightarrow> CreateDirectory G base w) of
              (Inl e, w1) \<Rightarrow> (Inl e, w1)
            | (Inr parent, w1) \<Rightarrow>
                (if fst (IsChildFileExist G w1 parent dir) then (Inl ErrFileExisted, w1)
                 else
                   (let newFolder = zero_folder\<lparr>d_Name := dir, d_ParentID := Some (d_ID parent),
                          d_OwnerID := u_ID (User w1)\<rparr> in
                    case Folder_Create G newFolder (wdb w1) of
                      (Inl e, d') \<Rightarrow> (Inl (ModelError (DbErr e)), w1\<lparr>wdb := d'\<rparr>)
                    | (Inr r, d') \<Rightarrow> (Inr r, w1\<lparr>wdb := d'\<rparr>))))))"
  by pat_completeness auto
termination
  by (relation "measure (\<lambda>(G, p, w). cd_rank p)") (auto intro!: pathDir_shorter dest: illegal_slash)

declare CreateDirectory.simps [simp del]

section \<open>Listing\<close>

text \<open>\<open>serializer.Object\<close>\<close>

record fs_object =
  o_ID :: gostring
  o_Name :: gostring
  o_Path :: gostring
  o_Pic :: gostring
  o_Size :: u64
  o_Type :: gostring
  o_Date :: unix_time
  o_CreateDate :: unix_time
  o_SourceEnabled :: bool
  o_Key :: gostring

definition folder_object :: "'p sys \<Rightarrow> gostring \<Rightarrow> folder_row \<Rightarrow> fs_object" where
  "folder_object S processedPath f =
     \<lparr>o_ID = HashID (hids S) (d_ID f) FolderID, o_Name = d_Name f, o_Path = processedPath, o_Pic = [],
      o_Size = 0, o_Type = ''dir'', o_Date = d_UpdatedAt f, o_CreateDate = d_CreatedAt f,
      o_SourceEnabled = False, o_Key = []\<rparr>"

definition file_object :: "'p sys \<Rightarrow> gostring \<Rightarrow> gostring \<Rightarrow> file_row \<Rightarrow> bool \<Rightarrow> fs_object" where
  "file_object S processedPath shareKey f sourceEnabled =
     \<lparr>o_ID = HashID (hids S) (f_ID f) FileID, o_Name = f_Name f, o_Path = processedPath, o_Pic = f_PicInfo f,
      o_Size = f_Size f, o_Type = ''file'', o_Date = f_UpdatedAt f, o_CreateDate = f_CreatedAt f,
      o_SourceEnabled = sourceEnabled, o_Key = shareKey\<rparr>"

text \<open>The second loop: files that are still being uploaded are left out; policies are cached.\<close>

fun list_files ::
  "'p sys \<Rightarrow> gostring \<Rightarrow> gostring \<Rightarrow> file_row list \<Rightarrow> 'p world \<Rightarrow> fs_object list \<times> 'p world" where
  "list_files S processedPath shareKey [] w = ([], w)"
| "list_files S processedPath shareKey (f # fs) w =
     (if f_UploadSessionID f = None then
        (let (f', ch') = GetPolicy (orm S) (clock S) f (wdb w) (wcache w);
             (os, w') = list_files S processedPath shareKey fs (w\<lparr>wcache := ch'\<rparr>)
         in (file_object S processedPath shareKey f (p_IsOriginLinkEnable (f_Policy f')) # os, w'))
      else list_files S processedPath shareKey fs w)"

text \<open>
  The code computes the processed path at the first object, and again while it is empty; as
  the processor is a function, it is the same path for every object. The share key of the
  context is empty when there is none.
\<close>

definition listObjects ::
  "'p sys \<Rightarrow> gostring \<Rightarrow> gostring \<Rightarrow> file_row list \<Rightarrow> folder_row list \<Rightarrow> (gostring \<Rightarrow> gostring) option \<Rightarrow>
   'p world \<Rightarrow> fs_object list \<times> 'p world" where
  "listObjects S shareKey parent fs fds pathProcessor w =
     (let processedPath = (case pathProcessor of None \<Rightarrow> parent | Some g \<Rightarrow> g parent);
          (os, w') = list_files S processedPath shareKey fs w
      in (map (folder_object S processedPath) fds @ os, w'))"

text \<open>The errors of the two queries are dropped.\<close>

definition List_dir ::
  "'p sys \<Rightarrow> gostring \<Rightarrow> gostring \<Rightarrow> (gostring \<Rightarrow> gostring) option \<Rightarrow> 'p world \<Rightarrow>
   (fs_error + fs_object list) \<times> 'p world" where
  "List_dir S shareKey dirPath pathProcessor w =
     (case IsPathExist (orm S) w dirPath of
        (True, Some folder) \<Rightarrow>
          (let w1 = SetTargetDir [folder] w;
               parentPath = pathJoin (d_Position folder) (d_Name folder);
               childFolders = (case GetChildFolder (orm S) folder (wdb w1) of Inl _ \<Rightarrow> [] | Inr fds \<Rightarrow> fds);
               childFiles = (case GetChildFiles (orm S) folder (wdb w1) of Inl _ \<Rightarrow> [] | Inr fs \<Rightarrow> fs);
               (os, w2) = listObjects S shareKey parentPath childFiles childFolders pathProcessor w1
           in (Inr os, w2))
      | _ \<Rightarrow> (Inl ErrPathNotExist, w))"

definition ListPhysical ::
  "'p sys \<Rightarrow> gostring \<Rightarrow> gostring \<Rightarrow> 'p world \<Rightarrow> (fs_error + fs_object list) \<times> 'p world" where
  "ListPhysical S shareKey dirPath w =
     (case DispatchHandler S w of
        (Some _, w1) \<Rightarrow> (Inl ErrUnknownPolicyType, w1)
      | (None, w1) \<Rightarrow>
          (case Policy w1 of
             None \<Rightarrow> (Inl ErrUnknownPolicyType, w1)
           | Some policy \<Rightarrow>
               (if \<not> CanStructureBeListed policy then (Inr [], w1)
                else case Handler w1 of
                  None \<Rightarrow> (Inl ErrPanic, w1)
                | Some drv \<Rightarrow>
                    (case h_List (drivers S drv) dirPath False (wdisk w1) of
                       Inl e \<Rightarrow> (Inl e, w1)
                     | Inr objects \<Rightarrow>
                         (let fds = map (\<lambda>ob. zero_folder\<lparr>d_Name := po_Name ob\<rparr>) (filter po_IsDir objects);
                              (os, w2) = listObjects S shareKey dirPath [] fds None w1
                          in (Inr os, w2))))))"

section \<open>Renaming, copying and moving\<close>

definition Rename_objects ::
  "'p sys \<Rightarrow> uint list \<Rightarrow> uint list \<Rightarrow> gostring \<Rightarrow> 'p world \<Rightarrow> fs_error option \<times> 'p world" where
  "Rename_objects S dirs fileIDs new w =
     (if \<not> ValidateLegalName new then (Some ErrIllegalObjectName, w)
      else if fileIDs \<noteq> [] \<and> Policy w = None then (Some ErrPanic, w)
      else if fileIDs \<noteq> [] \<and> \<not> ValidateExtension (the (Policy w)) new then (Some ErrIllegalObjectName, w)
      else if fileIDs \<noteq> [] then
        (case GetFilesByIDs (orm S) [hd fileIDs] (u_ID (User w)) (wdb w) of
           Inr (f # _) \<Rightarrow>
             (case File_Rename (orm S) f new (wdb w) of
                (Inl _, d') \<Rightarrow> (Some ErrFileExisted, w\<lparr>wdb := d'\<rparr>)
              | (Inr _, d') \<Rightarrow> (None, w\<lparr>wdb := d'\<rparr>))
         | _ \<Rightarrow> (Some ErrPathNotExist, w))
      else if dirs \<noteq> [] then
        (case GetFolderByIDs (orm S) [hd dirs] (u_ID (User w)) (wdb w) of
           Inr (f # _) \<Rightarrow>
             (case Folder_Rename (orm S) f new (wdb w) of
                (Inl _, d') \<Rightarrow> (Some ErrFileExisted, w\<lparr>wdb := d'\<rparr>)
              | (Inr _, d') \<Rightarrow> (None, w\<lparr>wdb := d'\<rparr>))
         | _ \<Rightarrow> (Some ErrPathNotExist, w))
      else (Some ErrPathNotExist, w))"

text \<open>Only the first folder of the list is copied.\<close>

definition Copy_objects ::
  "'p sys \<Rightarrow> uint list \<Rightarrow> uint list \<Rightarrow> gostring \<Rightarrow> gostring \<Rightarrow> 'p world \<Rightarrow> fs_error option \<times> 'p world" where
  "Copy_objects S dirs fileIDs src dst w =
     (case (IsPathExist (orm S) w dst, IsPathExist (orm S) w src) of
        ((True, Some dstFolder), (True, Some srcFolder)) \<Rightarrow>
          (case (if dirs \<noteq> [] then CopyFolderTo (orm S) srcFolder (hd dirs) dstFolder (wdb w)
                 else ((0, None), wdb w)) of
             ((_, Some _), d1) \<Rightarrow> (Some (AppError CodeDBError), w\<lparr>wdb := d1\<rparr>)
           | ((n1, None), d1) \<Rightarrow>
               (case (if fileIDs \<noteq> [] then MoveOrCopyFileTo (orm S) srcFolder fileIDs dstFolder True d1
                      else ((0, None), d1)) of
                  ((_, Some _), d2) \<Rightarrow> (Some (AppError CodeDBError), w\<lparr>wdb := d2\<rparr>)
                | ((n2, None), d2) \<Rightarrow>
                    (let (user', d3) = IncreaseStorageWithoutCheck (orm S) (User w) (n1 + n2) d2
                     in (None, w\<lparr>User := user', wdb := d3\<rparr>))))
      | _ \<Rightarrow> (Some ErrPathNotExist, w))"

text \<open>The list of files is not used: the second call moves files with the ids of the folders.\<close>

definition Move_objects ::
  "'p sys \<Rightarrow> uint list \<Rightarrow> uint list \<Rightarrow> gostring \<Rightarrow> gostring \<Rightarrow> 'p world \<Rightarrow> fs_error option \<times> 'p world" where
  "Move_objects S dirs fileIDs src dst w =
     (case (IsPathExist (orm S) w dst, IsPathExist (orm S) w src) of
        ((True, Some dstFolder), (True, Some srcFolder)) \<Rightarrow>
          (case MoveFolderTo (orm S) srcFolder dirs dstFolder (wdb w) of
             (Inl _, d1) \<Rightarrow> (Some (AppError CodeDBError), w\<lparr>wdb := d1\<rparr>)
           | (Inr _, d1) \<Rightarrow>
               (case MoveOrCopyFileTo (orm S) srcFolder dirs dstFolder False d1 of
                  ((_, Some _), d2) \<Rightarrow> (Some (AppError CodeDBError), w\<lparr>wdb := d2\<rparr>)
                | ((_, None), d2) \<Rightarrow> (None, w\<lparr>wdb := d2\<rparr>)))
      | _ \<Rightarrow> (Some ErrPathNotExist, w))"

end
