(* ===== verification/FsUpload.thy ===== *)
theory FsUpload
  imports FsManage
begin

text \<open>
  \<open>pkg/filesystem/hooks.go\<close>, \<open>upload.go\<close> and \<open>file.go\<close>: uploads with their hooks, and reading
  stored files.

  A hook is data (\<open>hook\<close>), and \<open>run_hook\<close> runs it. A hook may trigger hooks itself (adding a
  file does), so running hooks takes a depth: at depth 0 the result is \<open>None\<close>, which stands
  for a call that does not return. Logging and thumbnails are
  left out; \<open>HookGenerateThumb\<close> has no other effect. An upload is cancelled by the request's
  context in another goroutine, which is left out too: its hooks are in \<open>AfterUploadCanceled\<close>.
\<close>

section \<open>Contexts\<close>

text \<open>The values of a context the package reads, each \<open>None\<close> when it is absent.\<close>

record ctx =
  FileModelCtx :: "file_row option"
  LimitParentCtx :: "folder_row option"

definition Background :: ctx where
  "Background = \<lparr>FileModelCtx = None, LimitParentCtx = None\<rparr>"

section \<open>The table of hooks (hooks.go)\<close>

definition Use :: "gostring \<Rightarrow> hook \<Rightarrow> 'p world \<Rightarrow> 'p world" where
  "Use name h w =
     (let hooks = (case Hooks w of None \<Rightarrow> Map.empty | Some hs \<Rightarrow> hs) in
      case hooks name of
        Some l \<Rightarrow> w\<lparr>Hooks := Some (hooks(name \<mapsto> l @ [h]))\<rparr>
      | None \<Rightarrow> w\<lparr>Hooks := Some (hooks(name \<mapsto> [h]))\<rparr>)"

definition CleanHooks :: "gostring \<Rightarrow> 'p world \<Rightarrow> 'p world" where
  "CleanHooks name w =
     (if name = [] then w\<lparr>Hooks := None\<rparr>
      else (case Hooks w of None \<Rightarrow> w | Some hs \<Rightarrow> w\<lparr>Hooks := Some (hs(name := None))\<rparr>))"

definition hooks_of :: "gostring \<Rightarrow> 'p world \<Rightarrow> hook list" where
  "hooks_of name w =
     (case Hooks w of None \<Rightarrow> [] | Some hs \<Rightarrow> (case hs name of None \<Rightarrow> [] | Some l \<Rightarrow> l))"

text \<open>Running hooks: the error, the stream (hooks set its size and model) and the world.\<close>

type_synonym 'p hook_result = "(fs_error option \<times> file_stream \<times> 'p world) option"

type_synonym 'p hook_runner = "ctx \<Rightarrow> hook \<Rightarrow> file_stream \<Rightarrow> 'p world \<Rightarrow> 'p hook_result"

text \<open>The loop of \<open>Trigger\<close>: it stops at the first error.\<close>

fun run_hooks :: "'p hook_runner \<Rightarrow> ctx \<Rightarrow> hook list \<Rightarrow> file_stream \<Rightarrow> 'p world \<Rightarrow> 'p hook_result" where
  "run_hooks run c [] f w = Some (None, f, w)"
| "run_hooks run c (h # hs) f w =
     (case run c h f w of
        None \<Rightarrow> None
      | Some (Some e, f', w') \<Rightarrow> Some (Some e, f', w')
      | Some (None, f', w') \<Rightarrow> run_hooks run c hs f' w')"

definition Trigger :: "'p hook_runner \<Rightarrow> ctx \<Rightarrow> gostring \<Rightarrow> file_stream \<Rightarrow> 'p world \<Rightarrow> 'p hook_result" where
  "Trigger run c name f w = run_hooks run c (hooks_of name w) f w"

section \<open>Adding a file (file.go)\<close>

definition AddFile ::
  "'p sys \<Rightarrow> 'p hook_runner \<Rightarrow> ctx \<Rightarrow> folder_row \<Rightarrow> file_stream \<Rightarrow> 'p world \<Rightarrow>
   ((fs_error + file_row) \<times> file_stream \<times> 'p world) option" where
  "AddFile S run c parent f w =
     (case Trigger run c ''BeforeAddFile'' f w of
        None \<Rightarrow> None
      | Some (Some e, f1, w1) \<Rightarrow> Some (Inl e, f1, w1)
      | Some (None, f1, w1) \<Rightarrow>
          (case Policy w1 of
             None \<Rightarrow> Some (Inl ErrPanic, f1, w1)
           | Some policy \<Rightarrow>
               (let newFile = zero_file\<lparr>f_Name := fst_Name f1, f_SourceName := fst_SavePath f1,
                      f_UserID := u_ID (User w1), f_Size := fst_Size f1, f_FolderID := d_ID parent,
                      f_PolicyID := p_ID policy, f_UploadSessionID := fst_UploadSessionID f1,
                      f_PicInfo := (if IsThumbExist policy (fst_Name f1) then ''1,1'' else [])\<rparr>
                in case File_Create (orm S) newFile (wdb w1) of
                     (Inl _, d') \<Rightarrow>
                       (case Trigger run c ''AfterValidateFailed'' f1 (w1\<lparr>wdb := d'\<rparr>) of
                          None \<Rightarrow> None
                        | Some (_, f2, w2) \<Rightarrow> Some (Inl ErrFileExisted, f2, w2))
                   | (Inr r, d') \<Rightarrow>
                       Some (Inr r, f1,
                         w1\<lparr>wdb := d', User := (User w1)\<lparr>u_Storage := u_Storage (User w1) + f_Size r\<rparr>\<rparr>))))"

section \<open>The hooks (hooks.go)\<close>

definition db_result :: "'p world \<Rightarrow> file_stream \<Rightarrow> (model_error + 'a) \<times> db \<Rightarrow> 'p hook_result" where
  "db_result w f res =
     (case res of (Inl e, d') \<Rightarrow> Some (Some (ModelError e), f, w\<lparr>wdb := d'\<rparr>)
      | (Inr _, d') \<Rightarrow> Some (None, f, w\<lparr>wdb := d'\<rparr>))"

text \<open>\<open>UpdateSize\<close> on the stream's model, which carries the new size afterwards.\<close>

definition update_model_size :: "'p sys \<Rightarrow> u64 \<Rightarrow> file_stream \<Rightarrow> 'p world \<Rightarrow> 'p hook_result" where
  "update_model_size S val f w =
     (case fst_Model f of
        None \<Rightarrow> Some (Some ErrPanic, f, w)
      | Some m \<Rightarrow>
          (case UpdateSize (orm S) m val (wdb w) of
             (Inl e, d') \<Rightarrow> Some (Some (ModelError e), f, w\<lparr>wdb := d'\<rparr>)
           | (Inr m', d') \<Rightarrow> Some (None, f\<lparr>fst_Model := Some m'\<rparr>, w\<lparr>wdb := d'\<rparr>)))"

definition hook_ValidateCapacity :: "file_stream \<Rightarrow> 'p world \<Rightarrow> 'p hook_result" where
  "hook_ValidateCapacity f w =
     (if GetRemainingCapacity (User w) < fst_Size f then Some (Some ErrInsufficientCapacity, f, w)
      else Some (None, f, w))"

definition hook_ValidateFile :: "file_stream \<Rightarrow> 'p world \<Rightarrow> 'p hook_result" where
  "hook_ValidateFile f w =
     (case Policy w of
        None \<Rightarrow> Some (Some ErrPanic, f, w)
      | Some policy \<Rightarrow>
          (if \<not> ValidateFileSize policy (fst_Size f) then Some (Some ErrFileSizeTooBig, f, w)
           else if \<not> ValidateLegalName (fst_Name f) then Some (Some ErrIllegalObjectName, f, w)
           else if \<not> ValidateExtension policy (fst_Name f) then Some (Some ErrFileExtensionNotAllowed, f, w)
           else Some (None, f, w)))"

definition hook_PopPlaceholderToFile :: "'p sys \<Rightarrow> gostring \<Rightarrow> file_stream \<Rightarrow> 'p world \<Rightarrow> 'p hook_result" where
  "hook_PopPlaceholderToFile S picInfo f w =
     (case (fst_Model f, Policy w) of
        (Some m, Some policy) \<Rightarrow>
          (let picInfo' = (if picInfo = [] \<and> IsThumbExist policy (fst_Name f) then ''1.1'' else picInfo) in
           case PopChunkToFile (orm S) m (fst_LastModified f) picInfo' (wdb w) of
             (Inl e, d') \<Rightarrow> Some (Some (ModelError e), f, w\<lparr>wdb := d'\<rparr>)
           | (Inr m', d') \<Rightarrow> Some (None, f\<lparr>fst_Model := Some m'\<rparr>, w\<lparr>wdb := d'\<rparr>))
      | _ \<Rightarrow> Some (Some ErrPanic, f, w))"

definition hook_ResetPolicy :: "'p sys \<Rightarrow> ctx \<Rightarrow> file_stream \<Rightarrow> 'p world \<Rightarrow> 'p hook_result" where
  "hook_ResetPolicy S c f w =
     (case FileModelCtx c of
        None \<Rightarrow> Some (Some ErrObjectNotExist, f, w)
      | Some originFile \<Rightarrow>
          (let (o', ch') = GetPolicy (orm S) (clock S) originFile (wdb w) (wcache w);
               (e, w') = DispatchHandler S (w\<lparr>Policy := Some (f_Policy o'), wcache := ch'\<rparr>)
           in Some (e, f, w')))"

text \<open>Storing an empty stream over the old content; only path and mode are given.\<close>

definition hook_CleanFileContent :: "'p sys \<Rightarrow> file_stream \<Rightarrow> 'p world \<Rightarrow> 'p hook_result" where
  "hook_CleanFileContent S f w =
     (case Handler w of
        None \<Rightarrow> Some (Some ErrPanic, f, w)
      | Some drv \<Rightarrow>
          (let (e, p') = h_Put (drivers S drv)
                 (zero_stream\<lparr>fst_SavePath := fst_SavePath f, fst_Mode := Overwrite\<rparr>) (wdisk w)
           in Some (e, f, w\<lparr>wdisk := p'\<rparr>)))"

definition hook_DeleteTempFile :: "'p sys \<Rightarrow> file_stream \<Rightarrow> 'p world \<Rightarrow> 'p hook_result" where
  "hook_DeleteTempFile S f w =
     (case Handler w of
        None \<Rightarrow> Some (Some ErrPanic, f, w)
      | Some drv \<Rightarrow>
          (let (_, p') = h_Delete (drivers S drv) [fst_SavePath f] (wdisk w)
           in Some (None, f, w\<lparr>wdisk := p'\<rparr>)))"

definition hook_AfterUpdate :: "'p sys \<Rightarrow> ctx \<Rightarrow> file_stream \<Rightarrow> 'p world \<Rightarrow> 'p hook_result" where
  "hook_AfterUpdate S c f w =
     (case FileModelCtx c of
        None \<Rightarrow> Some (Some ErrObjectNotExist, f, w)
      | Some originFile \<Rightarrow> update_model_size S (fst_Size f) (f\<lparr>fst_Model := Some originFile\<rparr>) w)"

definition hook_AfterUpload :: "'p sys \<Rightarrow> 'p hook_runner \<Rightarrow> ctx \<Rightarrow> file_stream \<Rightarrow> 'p world \<Rightarrow> 'p hook_result" where
  "hook_AfterUpload S run c f w =
     (case CreateDirectory (orm S) (fst_VirtualPath f) w of
        (Inl e, w1) \<Rightarrow> Some (Some e, f, w1)
      | (Inr folder, w1) \<Rightarrow>
          (let (ok, old) = IsChildFileExist (orm S) w1 folder (fst_Name f) in
           if ok then
             (if f_UploadSessionID old \<noteq> None then Some (Some ErrFileUploadSessionExisted, f, w1)
              else Some (Some ErrFileExisted, f, w1))
           else
             (case AddFile S run c folder f w1 of
                None \<Rightarrow> None
              | Some (Inl _, f2, w2) \<Rightarrow> Some (Some ErrInsertFileRecord, f2, w2)
              | Some (Inr r, f2, w2) \<Rightarrow> Some (None, f2\<lparr>fst_Model := Some r\<rparr>, w2))))"

text \<open>
  \<open>HookTruncateFileTo\<close> acts on the local driver only; truncating is the parameter \<open>trunc\<close>
  here, as it is no operation of the interface.
\<close>

definition hook_TruncateFileTo ::
  "(gostring \<Rightarrow> u64 \<Rightarrow> 'p \<Rightarrow> fs_error option \<times> 'p) \<Rightarrow> u64 \<Rightarrow> file_stream \<Rightarrow> 'p world \<Rightarrow> 'p hook_result" where
  "hook_TruncateFileTo trunc n f w =
     (case Handler w of
        Some (LocalDriver _) \<Rightarrow>
          (let (e, p') = trunc (fst_SavePath f) n (wdisk w) in Some (e, f, w\<lparr>wdisk := p'\<rparr>))
      | _ \<Rightarrow> Some (None, f, w))"

definition hook_ChunkUploaded :: "'p sys \<Rightarrow> file_stream \<Rightarrow> 'p world \<Rightarrow> 'p hook_result" where
  "hook_ChunkUploaded S f w = update_model_size S (fst_AppendStart f + fst_Size f) f w"

definition hook_ChunkUpload :: "'p sys \<Rightarrow> file_stream \<Rightarrow> 'p world \<Rightarrow> 'p hook_result" where
  "hook_ChunkUpload S f w = update_model_size S (fst_AppendStart f + fst_Size f) f w"

definition hook_ChunkUploadFailed :: "'p sys \<Rightarrow> file_stream \<Rightarrow> 'p world \<Rightarrow> 'p hook_result" where
  "hook_ChunkUploadFailed S f w = update_model_size S (fst_AppendStart f) f w"

definition hook_DeleteUploadSession :: "gostring \<Rightarrow> file_stream \<Rightarrow> 'p world \<Rightarrow> 'p hook_result" where
  "hook_DeleteUploadSession i f w =
     Some (None, f, w\<lparr>wcache := cache_Deletes [i] ''callback_'' (wcache w)\<rparr>)"

definition hook_UpdateSourceName :: "'p sys \<Rightarrow> ctx \<Rightarrow> file_stream \<Rightarrow> 'p world \<Rightarrow> 'p hook_result" where
  "hook_UpdateSourceName S c f w =
     (case FileModelCtx c of
        None \<Rightarrow> Some (Some ErrObjectNotExist, f, w)
      | Some originFile \<Rightarrow> db_result w f (UpdateSourceName (orm S) originFile (f_SourceName originFile) (wdb w)))"

definition hook_ValidateCapacityDiff :: "ctx \<Rightarrow> file_stream \<Rightarrow> 'p world \<Rightarrow> 'p hook_result" where
  "hook_ValidateCapacityDiff c f w =
     (case FileModelCtx c of
        None \<Rightarrow> Some (Some ErrPanic, f, w)
      | Some originFile \<Rightarrow>
          (if fst_Size f > f_Size originFile then hook_ValidateCapacity f w else Some (None, f, w)))"

definition hook_ClearFileSize :: "'p sys \<Rightarrow> ctx \<Rightarrow> file_stream \<Rightarrow> 'p world \<Rightarrow> 'p hook_result" where
  "hook_ClearFileSize S c f w =
     (case FileModelCtx c of
        None \<Rightarrow> Some (Some ErrObjectNotExist, f, w)
      | Some originFile \<Rightarrow> db_result w f (UpdateSize (orm S) originFile 0 (wdb w)))"

text \<open>It looks for the cancel function under the key of the file, where there is none.\<close>

definition hook_CancelContext :: "file_stream \<Rightarrow> 'p world \<Rightarrow> 'p hook_result" where
  "hook_CancelContext f w = Some (None, f, w)"

definition hook_ClearFileHeaderSize :: "file_stream \<Rightarrow> 'p world \<Rightarrow> 'p hook_result" where
  "hook_ClearFileHeaderSize f w = Some (None, f\<lparr>fst_Size := 0\<rparr>, w)"

text \<open>On a slave: what was uploaded is reported to the master, unless no callback is set.\<close>

definition hook_SlaveAfterUpload :: "'p sys \<Rightarrow> upload_session \<Rightarrow> file_stream \<Rightarrow> 'p world \<Rightarrow> 'p hook_result" where
  "hook_SlaveAfterUpload S session f w =
     (let file = zero_file\<lparr>f_Name := fst_Name f, f_SourceName := fst_SavePath f\<rparr> in
      if us_Callback session = [] then Some (None, f, w)
      else Some (remote_callback S (us_Callback session) (f_PicInfo file), f, w))"

text \<open>Calling a hook: \<open>run\<close> runs the hooks a hook triggers.\<close>

definition hook_body ::
  "'p sys \<Rightarrow> (gostring \<Rightarrow> u64 \<Rightarrow> 'p \<Rightarrow> fs_error option \<times> 'p) \<Rightarrow> 'p hook_runner \<Rightarrow> ctx \<Rightarrow> hook \<Rightarrow>
   file_stream \<Rightarrow> 'p world \<Rightarrow> 'p hook_result" where
  "hook_body S trunc run c h f w =
     (case h of
        HookTruncateFileTo n \<Rightarrow> hook_TruncateFileTo trunc n f w
      | HookChunkUploaded \<Rightarrow> hook_ChunkUploaded S f w
      | HookValidateCapacity \<Rightarrow> hook_ValidateCapacity f w
      | HookChunkUpload \<Rightarrow> hook_ChunkUpload S f w
      | HookChunkUploadFailed \<Rightarrow> hook_ChunkUploadFailed S f w
      | HookPopPlaceholderToFile picInfo \<Rightarrow> hook_PopPlaceholderToFile S picInfo f w
      | HookGenerateThumb \<Rightarrow> Some (None, f, w)
      | HookDeleteUploadSession i \<Rightarrow> hook_DeleteUploadSession i f w
      | HookValidateFile \<Rightarrow> hook_ValidateFile f w
      | HookUpdateSourceName \<Rightarrow> hook_UpdateSourceName S c f w
      | HookResetPolicy \<Rightarrow> hook_ResetPolicy S c f w
      | HookValidateCapacityDiff \<Rightarrow> hook_ValidateCapacityDiff c f w
      | HookCleanFileContent \<Rightarrow> hook_CleanFileContent S f w
      | HookClearFileSize \<Rightarrow> hook_ClearFileSize S c f w
      | HookCancelContext \<Rightarrow> hook_CancelContext f w
      | GenericAfterUpdate \<Rightarrow> hook_AfterUpdate S c f w
      | HookDeleteTempFile \<Rightarrow> hook_DeleteTempFile S f w
      | GenericAfterUpload \<Rightarrow> hook_AfterUpload S run c f w
      | HookClearFileHeaderSize \<Rightarrow> hook_ClearFileHeaderSize f w
      | SlaveAfterUpload session \<Rightarrow> hook_SlaveAfterUpload S session f w)"

primrec run_hook ::
  "nat \<Rightarrow> 'p sys \<Rightarrow> (gostring \<Rightarrow> u64 \<Rightarrow> 'p \<Rightarrow> fs_error option \<times> 'p) \<Rightarrow> 'p hook_runner" where
  "run_hook 0 S trunc = (\<lambda>c h f w. None)"
| "run_hook (Suc n) S trunc = hook_body S trunc (run_hook n S trunc)"

section \<open>Uploading (upload.go)\<close>

definition GenerateSavePath :: "'p sys \<Rightarrow> policy \<Rightarrow> file_stream \<Rightarrow> 'p world \<Rightarrow> gostring" where
  "GenerateSavePath S policy f w = savePath S policy (u_ID (User w)) (fst_VirtualPath f) (fst_Name f)"

definition choose_path :: "'p sys \<Rightarrow> ctx \<Rightarrow> file_stream \<Rightarrow> 'p world \<Rightarrow> file_stream option" where
  "choose_path S c f w =
     (if fst_SavePath f = [] then
        (case FileModelCtx c of
           Some originFile \<Rightarrow> Some (f\<lparr>fst_SavePath := f_SourceName originFile\<rparr>)
         | None \<Rightarrow>
             (case Policy w of
                None \<Rightarrow> None
              | Some policy \<Rightarrow> Some (f\<lparr>fst_SavePath := GenerateSavePath S policy f w\<rparr>)))
      else Some f)"

text \<open>Storing the content, unless the mode says not to; the error of the follow-up is dropped.\<close>

definition store_content ::
  "'p sys \<Rightarrow> 'p hook_runner \<Rightarrow> ctx \<Rightarrow> file_stream \<Rightarrow> 'p world \<Rightarrow> 'p hook_result" where
  "store_content S run c f w =
     (if has_mode (fst_Mode f) Nop then Some (None, f, w)
      else case Handler w of
        None \<Rightarrow> Some (Some ErrPanic, f, w)
      | Some drv \<Rightarrow>
          (case h_Put (drivers S drv) f (wdisk w) of
             (None, p') \<Rightarrow> Some (None, f, w\<lparr>wdisk := p'\<rparr>)
           | (Some e, p') \<Rightarrow>
               (case Trigger run c ''AfterUploadFailed'' f (w\<lparr>wdisk := p'\<rparr>) of
                  None \<Rightarrow> None
                | Some (_, f2, w2) \<Rightarrow> Some (Some e, f2, w2))))"

definition Upload :: "'p sys \<Rightarrow> 'p hook_runner \<Rightarrow> ctx \<Rightarrow> file_stream \<Rightarrow> 'p world \<Rightarrow> 'p hook_result" where
  "Upload S run c f w =
     (case Trigger run c ''BeforeUpload'' f w of
        None \<Rightarrow> None
      | Some (Some e, f1, w1) \<Rightarrow> Some (Some e, f1, w1)
      | Some (None, f1, w1) \<Rightarrow>
          (case choose_path S c f1 w1 of
             None \<Rightarrow> Some (Some ErrPanic, f1, w1)
           | Some f2 \<Rightarrow>
               (case store_content S run c f2 w1 of
                  None \<Rightarrow> None
                | Some (Some e, f3, w3) \<Rightarrow> Some (Some e, f3, w3)
                | Some (None, f3, w3) \<Rightarrow>
                    (case Trigger run c ''AfterUpload'' f3 w3 of
                       None \<Rightarrow> None
                     | Some (None, f4, w4) \<Rightarrow> Some (None, f4, w4)
                     | Some (Some e, f4, w4) \<Rightarrow>
                         (case Trigger run c ''AfterValidateFailed'' f4 w4 of
                            None \<Rightarrow> None
                          | Some (_, f5, w5) \<Rightarrow> Some (Some e, f5, w5))))))"

definition UploadFromStream ::
  "'p sys \<Rightarrow> 'p hook_runner \<Rightarrow> ctx \<Rightarrow> file_stream \<Rightarrow> bool \<Rightarrow> 'p world \<Rightarrow> 'p hook_result" where
  "UploadFromStream S run c f resetPolicy w =
     (case (if resetPolicy then DispatchHandler S (w\<lparr>Policy := Some (u_Policy (User w))\<rparr>) else (None, w)) of
        (Some e, w1) \<Rightarrow> Some (Some e, f, w1)
      | (None, w1) \<Rightarrow>
          (let w2 = (if Hooks w1 = None then
                 Use ''AfterValidateFailed'' HookDeleteTempFile
                   (Use ''AfterUpload'' HookGenerateThumb
                     (Use ''AfterUpload'' GenericAfterUpload
                       (Use ''AfterUploadCanceled'' HookDeleteTempFile
                         (Use ''BeforeUpload'' HookValidateCapacity
                           (Use ''BeforeUpload'' HookValidateFile w1)))))
               else w1)
           in Upload S run c f w2))"

text \<open>
  \<open>uuid\<close> is the key of the new session (never empty) and \<open>secret\<close> its random secret; the
  cache never fails. The last component is the credential.
\<close>

definition new_session :: "gostring \<Rightarrow> gostring \<Rightarrow> u64 \<Rightarrow> policy \<Rightarrow> file_stream \<Rightarrow> 'p world \<Rightarrow> upload_session" where
  "new_session uuid secret fileSize policy f w =
     \<lparr>us_Key = uuid, us_UID = u_ID (User w), us_VirtualPath = fst_VirtualPath f, us_Name = fst_Name f,
      us_Size = fileSize, us_SavePath = fst_SavePath f, us_LastModified = fst_LastModified f,
      us_Policy = policy, us_Callback = [], us_CallbackSecret = secret\<rparr>"

definition CreateUploadSession ::
  "'p sys \<Rightarrow> 'p hook_runner \<Rightarrow> gostring \<Rightarrow> gostring \<Rightarrow> ctx \<Rightarrow> file_stream \<Rightarrow> 'p world \<Rightarrow>
   ((fs_error + upload_credential) \<times> 'p world) option" where
  "CreateUploadSession S run uuid secret c f0 w0 =
     (let ttl = GetIntSetting (orm S) ''upload_session_timeout'' 86400 (wdb w0);
          f = f0\<lparr>fst_Mode := Nop, fst_UploadSessionID := Some uuid\<rparr>;
          w = Use ''BeforeUpload'' HookValidateCapacity (Use ''BeforeUpload'' HookValidateFile w0) in
      case Upload S run c f w of
        None \<Rightarrow> None
      | Some (Some e, f1, w1) \<Rightarrow> Some (Inl e, w1)
      | Some (None, f1, w1) \<Rightarrow>
          (case (Policy w1, Handler w1) of
             (Some policy, Some drv) \<Rightarrow>
               (let session = new_session uuid secret (fst_Size f0) policy f1 w1 in
                case h_Token (drivers S drv) ttl session f1 (wdisk w1) of
                  (Inl e, p') \<Rightarrow> Some (Inl e, w1\<lparr>wdisk := p'\<rparr>)
                | (Inr credential, p') \<Rightarrow>
                    (let w2 = w1\<lparr>wdisk := p'\<rparr>;
                         w3 = (if \<not> IsUploadPlaceholderWithSize policy
                               then Use ''AfterUpload'' HookClearFileHeaderSize w2 else w2)
                     in case Upload S run c f1 (Use ''AfterUpload'' GenericAfterUpload w3) of
                          None \<Rightarrow> None
                        | Some (Some e, f4, w4) \<Rightarrow> Some (Inl e, w4)
                        | Some (None, f4, w4) \<Rightarrow>
                            Some (Inr (credential\<lparr>uc_Expires := clock S + ttl\<rparr>),
                              w4\<lparr>wcache := cache_Set (clock S) (''callback_'' @ uuid)
                                   (CObj (CSession session)) ttl (wcache w4)\<rparr>)))
           | _ \<Rightarrow> Some (Inl ErrPanic, w1)))"

section \<open>Reading (file.go)\<close>

definition resetFileIDIfNotExist :: "'p sys \<Rightarrow> ctx \<Rightarrow> uint \<Rightarrow> 'p world \<Rightarrow> fs_error option \<times> 'p world" where
  "resetFileIDIfNotExist S c i w =
     (case (if FileTarget w = [] then
              (case GetFilesByIDs (orm S) [i] (u_ID (User w)) (wdb w) of
                 Inr (f # _) \<Rightarrow> Inr (w\<lparr>FileTarget := [f]\<rparr>)
               | _ \<Rightarrow> Inl ErrObjectNotExist)
            else Inr w) of
        Inl e \<Rightarrow> (Some e, w)
      | Inr w1 \<Rightarrow>
          (case LimitParentCtx c of
             Some parent \<Rightarrow>
               (if d_ID parent \<noteq> f_FolderID (hd (FileTarget w1)) then (Some ErrObjectNotExist, w1)
                else resetPolicyToFirstFile S w1)
           | None \<Rightarrow> resetPolicyToFirstFile S w1))"

text \<open>An error of the first step is dropped: there is then neither content nor error.\<close>

definition GetContent :: "'p sys \<Rightarrow> ctx \<Rightarrow> uint \<Rightarrow> 'p world \<Rightarrow> (fs_error + gostring option) \<times> 'p world" where
  "GetContent S c i w =
     (case resetFileIDIfNotExist S c i w of
        (Some _, w1) \<Rightarrow> (Inr None, w1)
      | (None, w1) \<Rightarrow>
          (case (Handler w1, FileTarget w1) of
             (Some drv, f # _) \<Rightarrow>
               (case h_Get (drivers S drv) (f_SourceName f) (wdisk w1) of
                  Inl _ \<Rightarrow> (Inl ErrIO, w1)
                | Inr rs \<Rightarrow> (Inr (Some rs), w1))
           | _ \<Rightarrow> (Inl ErrPanic, w1)))"

text \<open>The speed limit wraps the reader and leaves what it yields.\<close>

definition GetDownloadContent :: "'p sys \<Rightarrow> ctx \<Rightarrow> uint \<Rightarrow> 'p world \<Rightarrow> (fs_error + gostring option) \<times> 'p world" where
  "GetDownloadContent S c i w = GetContent S c i w"

definition ResetFileIfNotExist :: "'p sys \<Rightarrow> gostring \<Rightarrow> 'p world \<Rightarrow> fs_error option \<times> 'p world" where
  "ResetFileIfNotExist S path w =
     (if FileTarget w = [] then
        (let (exist, f) = IsFileExist (orm S) w path in
         if \<not> exist then (Some ErrObjectNotExist, w)
         else resetPolicyToFirstFile S (w\<lparr>FileTarget := [f]\<rparr>))
      else resetPolicyToFirstFile S w)"

datatype content_response = Content "gostring option" | Redirect gostring int

definition Preview ::
  "'p sys \<Rightarrow> ctx \<Rightarrow> uint \<Rightarrow> bool \<Rightarrow> 'p world \<Rightarrow> (fs_error + content_response) \<times> 'p world" where
  "Preview S c i isText w =
     (case resetFileIDIfNotExist S c i w of
        (Some e, w1) \<Rightarrow> (Inl e, w1)
      | (None, w1) \<Rightarrow>
          (let sizeLimit = GetIntSetting (orm S) ''maxEditSize'' 2097152 (wdb w1) in
           if isText \<and> f_Size (hd (FileTarget w1)) > word_of_int sizeLimit then (Inl ErrFileSizeTooBig, w1)
           else case Policy w1 of
             None \<Rightarrow> (Inl ErrPanic, w1)
           | Some policy \<Rightarrow>
               (if isText \<or> IsDirectlyPreview policy then
                  (case GetDownloadContent S c i w1 of
                     (Inl e, w2) \<Rightarrow> (Inl e, w2)
                   | (Inr resp, w2) \<Rightarrow> (Inr (Content resp), w2))
                else
                  (let ttl = GetIntSetting (orm S) ''preview_timeout'' 60 (wdb w1) in
                   case SignURL S (hd (FileTarget w1)) ttl False w1 of
                     (Inl e, w2) \<Rightarrow> (Inl e, w2)
                   | (Inr previewURL, w2) \<Rightarrow> (Inr (Redirect previewURL ttl), w2)))))"

definition GetDownloadURL :: "'p sys \<Rightarrow> ctx \<Rightarrow> uint \<Rightarrow> gostring \<Rightarrow> 'p world \<Rightarrow> (fs_error + gostring) \<times> 'p world" where
  "GetDownloadURL S c i timeout w =
     (case resetFileIDIfNotExist S c i w of
        (Some e, w1) \<Rightarrow> (Inl e, w1)
      | (None, w1) \<Rightarrow>
          (let ttl = GetIntSetting (orm S) timeout 60 (wdb w1)
           in SignURL S (hd (FileTarget w1)) ttl True w1))"

definition GetSource :: "'p sys \<Rightarrow> ctx \<Rightarrow> uint \<Rightarrow> 'p world \<Rightarrow> (fs_error + gostring) \<times> 'p world" where
  "GetSource S c i w =
     (case resetFileIDIfNotExist S c i w of
        (Some _, w1) \<Rightarrow> (Inl ErrObjectNotExist, w1)
      | (None, w1) \<Rightarrow>
          (case Policy w1 of
             None \<Rightarrow> (Inl ErrPanic, w1)
           | Some policy \<Rightarrow>
               (if \<not> p_IsOriginLinkEnable policy then (Inl (AppError 40006), w1)
                else
                  (case SignURL S (hd (FileTarget w1)) 0 False w1 of
                     (Inl _, w2) \<Rightarrow> (Inl (AppError CodeNotSet), w2)
                   | (Inr source, w2) \<Rightarrow> (Inr source, w2)))))"

end
