(* ===== verification/FsPaths.thy ===== *)
theory FsPaths
  imports FsManage
begin

text \<open>
  What the lookups of \<open>pkg/filesystem/path.go\<close> and the creation of directories in
  \<open>manage.go\<close> promise: a path leads to the folder whose ancestors have its names, which is
  the path \<open>TraceRoot\<close> gives that folder.
\<close>

section \<open>Walking down a path\<close>

lemma IsPathExist_loop_append:
  "IsPathExist_loop G uid d (Some f) ps = (True, Some g) \<Longrightarrow>
   IsPathExist_loop G uid d (Some f) (ps @ qs) = IsPathExist_loop G uid d (Some g) qs"
proof (induction ps arbitrary: f)
  case Nil
  then show ?case by simp
next
  case (Cons p ps)
  then show ?case by (auto split: if_splits sum.splits)
qed

text \<open>A folder tree in which every name leads to one folder.\<close>

definition names_unique :: "db \<Rightarrow> bool" where
  "names_unique d \<longleftrightarrow>
     (\<forall>a\<in>set (folders d). \<forall>b\<in>set (folders d).
        d_OwnerID a = d_OwnerID b \<and> d_ParentID a = d_ParentID b \<and>
        (d_ParentID a = None \<or> d_Name a = d_Name b) \<longrightarrow> a = b)"

text \<open>The database answers: a lookup fails only because there is no such row.\<close>

definition answers :: "gorm \<Rightarrow> db \<Rightarrow> bool" where
  "answers G d \<longleftrightarrow> (\<forall>P e. First (Folders G) P d = Inl e \<longrightarrow> e = ErrRecordNotFound)"

lemma until_char:
  assumes "c \<notin> set xs"
  shows "dropWhile (\<lambda>x. x \<noteq> c) (xs @ c # ys) = c # ys" and "takeWhile (\<lambda>x. x \<noteq> c) (xs @ c # ys) = xs"
  using assms by (induction xs) auto

lemma pathDir_pathOf:
  assumes "list_all cleanElem es" and "cleanElem n"
  shows "pathDir (pathOf (es @ [n])) = pathOf es" and "pathBase (pathOf (es @ [n])) = n"
proof -
  have n: "n \<noteq> []" "CHR ''/'' \<notin> set n" using assms(2) by (auto simp: cleanElem_def)
  have e: "\<exists>pre. pathOf (es @ [n]) = pre @ ''/'' @ n \<and> pathClean (pre @ ''/'') = pathOf es"
  proof (cases "es = []")
    case True
    then show ?thesis
      by (intro exI [of _ "[]"]) (simp add: pathOf_def pathClean_def isRooted_def cleanElems_def cleanStep_def)
  next
    case False
    have j: "joinWith ''/'' (es @ [n]) = joinWith ''/'' es @ ''/'' @ n"
      using False by (induction es rule: joinWith.induct [of _ "''/''"]) auto
    have s: "splitOn (CHR ''/'') (pathOf es @ ''/'') = [] # es @ [[]]"
      using splitOn_append_sep [where t = "[]" and sep = "CHR ''/''" and s = "pathOf es"] splitOn_pathOf [OF assms(1)] False by simp
    have "pathClean (pathOf es @ ''/'') = pathOf es"
      using assms(1)
      by (simp add: pathClean_rooted isRooted_def pathOf_def)
         (simp add: s [unfolded pathOf_def, simplified] cleanElems_def foldl_cleanStep_id cleanStep_def)
    then show ?thesis
      by (intro exI [of _ "pathOf es"]) (simp add: pathOf_def j)
  qed
  then obtain pre where pre: "pathOf (es @ [n]) = pre @ ''/'' @ n" "pathClean (pre @ ''/'') = pathOf es" by blast
  have r: "dropWhile (\<lambda>x. x \<noteq> CHR ''/'') (rev n @ CHR ''/'' # rev pre) = CHR ''/'' # rev pre"
    "takeWhile (\<lambda>x. x \<noteq> CHR ''/'') (rev n @ CHR ''/'' # rev pre) = rev n"
    using until_char [of "CHR ''/''" "rev n" "rev pre"] n(2) by simp_all
  show "pathDir (pathOf (es @ [n])) = pathOf es"
    unfolding pre(1) using pre(2) by (simp add: pathDir_def r)
  have "hd (rev n) \<noteq> CHR ''/''" using n by (metis hd_in_set rev_is_Nil_conv set_rev)
  then have "dropWhile (\<lambda>x. x = CHR ''/'') (rev n @ CHR ''/'' # rev pre) = rev n @ CHR ''/'' # rev pre"
    using n(1) by (cases "rev n") auto
  then show "pathBase (pathOf (es @ [n])) = n"
    unfolding pre(1) using n by (simp add: pathBase_def trimRightChar_def afterLast_def Let_def r)
qed

context gorm_db
begin

lemma first_answers:
  assumes "answers G d" and "r \<in> set (folders d)" and "P r"
  obtains q where "First (Folders G) P d = Inr q" "q \<in> set (folders d)" "P q"
proof (cases "First (Folders G) P d")
  case (Inl e)
  then have "\<not> P r" using assms folders.first_none unfolding answers_def by blast
  with assms(3) show ?thesis by blast
next
  case (Inr q)
  with folders.first_row [OF Inr] that show ?thesis by blast
qed

lemma walk_lineage:
  assumes "answers G d" and "names_unique d"
  shows "lineage d f es \<Longrightarrow> f \<in> set (folders d) \<Longrightarrow> cleanElem (d_Name f) \<Longrightarrow>
    IsPathExist_loop G (d_OwnerID f) d None (''/'' # es @ [d_Name f]) =
    (True, Some (f\<lparr>d_Position := pathOf es\<rparr>))"
proof (induction rule: lineage.induct)
  case (under_root f r)
  obtain q where q: "Root G (d_OwnerID f) d = Inr q" "q \<in> set (folders d)" "d_ParentID q = None" "d_OwnerID q = d_OwnerID f"
    unfolding Root_def
    by (rule first_answers [OF assms(1) under_root.hyps(2), of "\<lambda>x. d_ParentID x = None \<and> d_OwnerID x = d_OwnerID f"])
       (use under_root.hyps in auto)
  have "q = r" using assms(2) q under_root.hyps unfolding names_unique_def by metis
  obtain c where c: "First (Folders G) (\<lambda>x. d_ParentID x = Some (d_ID r) \<and> d_OwnerID x = d_OwnerID r \<and> d_Name x = d_Name f) d = Inr c"
    "c \<in> set (folders d)" "d_ParentID c = Some (d_ID r)" "d_OwnerID c = d_OwnerID r" "d_Name c = d_Name f"
    by (rule first_answers [OF assms(1) under_root.prems(1), of "\<lambda>x. d_ParentID x = Some (d_ID r) \<and> d_OwnerID x = d_OwnerID r \<and> d_Name x = d_Name f"])
       (use under_root.hyps in auto)
  have "c = f" using assms(2) c under_root.hyps under_root.prems unfolding names_unique_def by metis
  moreover have "d_Name f \<noteq> ''/''" using under_root.prems(2) by (auto simp: cleanElem_def)
  ultimately show ?case
    using q(1) c(1) \<open>q = r\<close> under_root.hyps by (simp add: GetChild_def pathJoin_root)
next
  case (under f r es)
  have up: "IsPathExist_loop G (d_OwnerID r) d None (''/'' # es @ [d_Name r]) = (True, Some (r\<lparr>d_Position := pathOf es\<rparr>))"
    by (rule under.IH) (use under.hyps in auto)
  from up obtain q where q: "Root G (d_OwnerID r) d = Inr q"
    "IsPathExist_loop G (d_OwnerID r) d (Some q) (es @ [d_Name r]) = (True, Some (r\<lparr>d_Position := pathOf es\<rparr>))"
    by (auto split: sum.splits)
  obtain c where c: "First (Folders G) (\<lambda>x. d_ParentID x = Some (d_ID r) \<and> d_OwnerID x = d_OwnerID r \<and> d_Name x = d_Name f) d = Inr c"
    "c \<in> set (folders d)" "d_ParentID c = Some (d_ID r)" "d_OwnerID c = d_OwnerID r" "d_Name c = d_Name f"
    by (rule first_answers [OF assms(1) under.prems(1), of "\<lambda>x. d_ParentID x = Some (d_ID r) \<and> d_OwnerID x = d_OwnerID r \<and> d_Name x = d_Name f"])
       (use under.hyps in auto)
  have cf: "c = f" using assms(2) c under.hyps under.prems unfolding names_unique_def by metis
  have nf: "d_Name f \<noteq> ''/''" using under.prems(2) by (auto simp: cleanElem_def)
  have "IsPathExist_loop G (d_OwnerID r) d (Some q) ((es @ [d_Name r]) @ [d_Name f]) =
      (True, Some (f\<lparr>d_Position := pathOf (es @ [d_Name r])\<rparr>))"
    using IsPathExist_loop_append [OF q(2), of "[d_Name f]"] c(1) cf nf
      pathJoin_pathOf [OF lineage_clean [OF under.hyps(4)] under.hyps(5)]
    by (simp add: GetChild_def)
  then show ?case using q(1) under.hyps(3) by simp
qed

lemma IsPathExist_lineage:
  assumes "answers G (wdb w)" and "names_unique (wdb w)" and "FsRoot w = None"
    and "lineage (wdb w) f es" and "f \<in> set (folders (wdb w))" and "cleanElem (d_Name f)"
    and "d_OwnerID f = u_ID (User w)"
  shows "IsPathExist G w (pathOf (es @ [d_Name f])) = (True, Some (f\<lparr>d_Position := pathOf es\<rparr>))"
proof -
  have "list_all cleanElem (es @ [d_Name f])" using lineage_clean [OF assms(4)] assms(6) by simp
  then have "SplitPath (pathOf (es @ [d_Name f])) = ''/'' # es @ [d_Name f]" by (rule SplitPath_pathOf)
  then show ?thesis
    using walk_lineage [OF assms(1,2,4,5,6)] assms(3,7) by (simp add: IsPathExist_def)
qed

end

section \<open>Creating directories\<close>

lemma child_file_exists:
  assumes "\<forall>P d. \<exists>rs. Find (Files G) P d = Inr rs"
  shows "fst (IsChildFileExist G w folder name)"
proof -
  obtain rs where "Find (Files G) (\<lambda>f. f_FolderID f = d_ID folder \<and> f_Name f = name) (wdb w) = Inr rs"
    using assms by blast
  then show ?thesis
    by (cases rs) (simp_all add: IsChildFileExist_def GetChildFile_def find_struct_def)
qed

lemma CreateDirectory_fails:
  assumes "\<forall>P d. \<exists>rs. Find (Files G) P d = Inr rs"
  shows "p \<noteq> ''/'' \<Longrightarrow> \<exists>e. CreateDirectory G p w = (Inl e, w)"
proof (induction "cd_rank p" arbitrary: p rule: less_induct)
  case less
  let ?q = "pathClean p"
  let ?dir = "trimRightChar (pathBase ?q) (CHR '' '')"
  show ?case
  proof (cases "p = ''.'' \<or> p = [] \<or> \<not> ValidateLegalName ?dir")
    case True
    then show ?thesis using less.prems by (subst CreateDirectory.simps) (auto simp: Let_def)
  next
    case False
    define parent where "parent = (case IsPathExist G w (pathDir ?q) of
        (True, parent) \<Rightarrow> (case parent of None \<Rightarrow> (Inl ErrPanic, w) | Some p \<Rightarrow> (Inr p, w))
      | (False, _) \<Rightarrow> CreateDirectory G (pathDir ?q) w)"
    have c: "CreateDirectory G p w =
      (case parent of (Inl e, w1) \<Rightarrow> (Inl e, w1)
       | (Inr par, w1) \<Rightarrow> (if fst (IsChildFileExist G w1 par ?dir) then (Inl ErrFileExisted, w1)
           else (let newFolder = zero_folder\<lparr>d_Name := ?dir, d_ParentID := Some (d_ID par), d_OwnerID := u_ID (User w1)\<rparr> in
             case Folder_Create G newFolder (wdb w1) of
               (Inl e, d') \<Rightarrow> (Inl (ModelError (DbErr e)), w1\<lparr>wdb := d'\<rparr>)
             | (Inr r, d') \<Rightarrow> (Inr r, w1\<lparr>wdb := d'\<rparr>))))"
      using False less.prems by (subst CreateDirectory.simps) (simp add: Let_def parent_def)
    have "\<exists>r. parent = (r, w)"
    proof (cases "IsPathExist G w (pathDir ?q)")
      case (Pair b f)
      show ?thesis
      proof (cases b)
        case True
        then show ?thesis using Pair by (cases f) (simp_all add: parent_def)
      next
        case ne: False
        have "pathDir ?q \<noteq> ''/'' \<Longrightarrow> \<exists>e. CreateDirectory G (pathDir ?q) w = (Inl e, w)"
          by (rule less.hyps) (use False less.prems in \<open>auto intro!: pathDir_shorter dest: illegal_slash\<close>)
        moreover have "\<exists>r. CreateDirectory G ''/'' w = (r, w)"
          by (subst CreateDirectory.simps) (auto split: option.splits sum.splits)
        ultimately show ?thesis using Pair ne by (cases "pathDir ?q = ''/''") (auto simp: parent_def)
      qed
    qed
    then obtain r where r: "parent = (r, w)" ..
    show ?thesis
      unfolding c r using child_file_exists [OF assms] by (cases r) auto
  qed
qed

section \<open>Properties\<close>

text \<open>
  C28. The path of a folder leads back to it. Take a folder of the user that is not a root, with
  ancestors of the same owner up to a root named \<open>/\<close>; its name and the names of the ancestors
  below the root are clean (neither empty nor \<open>.\<close> nor \<open>..\<close>, and without a slash: a folder that
  was renamed to \<open>..\<close> is outside of this). Ids of folders are distinct, no two siblings share a
  name, the lookups do not fail, and the file system works from the root of the user, with no
  other root set. When the climb to the root gives the folder its position without an error, then
  looking up the path of position and name finds that folder, with the same position.
\<close>

theorem path_of_folder_round_trip:
  assumes "gorm_db G" and "answers G (wdb w)" and "names_unique (wdb w)"
    and "distinct (map d_ID (folders (wdb w)))" and "FsRoot w = None"
    and "f \<in> set (folders (wdb w))" and "d_OwnerID f = u_ID (User w)" and "cleanElem (d_Name f)"
    and "lineage (wdb w) f es" and "TraceRoot G (wdb w) f = Some (f', None)"
  shows "IsPathExist G w (pathJoin (d_Position f') (d_Name f')) = (True, Some f')"
proof -
  have f': "f' = f\<lparr>d_Position := pathOf es\<rparr>"
    by (rule gorm_db.TraceRoot_position [OF assms(1,9,4,10)])
  then have "pathJoin (d_Position f') (d_Name f') = pathOf (es @ [d_Name f])"
    using pathJoin_pathOf [OF lineage_clean [OF assms(9)] assms(8)] by simp
  then show ?thesis
    using gorm_db.IsPathExist_lineage [OF assms(1,2,3,5,9,6,8,7)] f' by simp
qed

definition docs_world :: "unit world" where
  "docs_world = (getEmptyFS docs_db memo_new ())\<lparr>User := zero_user\<lparr>u_ID := 7\<rparr>\<rparr>"

lemma docs_world_simps [simp]: "wdb docs_world = docs_db" "FsRoot docs_world = None" "u_ID (User docs_world) = 7"
  by (simp_all add: docs_world_def getEmptyFS_def zero_user_def)

lemma sound_answers: "answers sound_gorm d"
  by (simp add: answers_def sound_simps split: option.splits)

lemma docs_names_unique: "names_unique docs_db"
  by (auto simp: names_unique_def docs_simps)

lemma docs_lineage: "lineage docs_db (folders docs_db ! 2) [''docs'']"
proof -
  have "lineage docs_db (folders docs_db ! 1) []"
    by (rule lineage.under_root [of _ "folders docs_db ! 0"]) (simp_all add: docs_simps)
  then have "lineage docs_db (folders docs_db ! 2) ([] @ [d_Name (folders docs_db ! 1)])"
    by (rule lineage.under [rotated 3]) (simp_all add: docs_simps cleanElem_def)
  then show ?thesis by (simp add: docs_simps)
qed

theorem path_of_folder_round_trip_witness:
  "\<exists>f'. TraceRoot sound_gorm docs_db (folders docs_db ! 2) = Some (f', None) \<and>
     IsPathExist sound_gorm docs_world (pathJoin (d_Position f') (d_Name f')) = (True, Some f')"
proof -
  have "\<exists>f'. TraceRoot sound_gorm docs_db (folders docs_db ! 2) = Some (f', None)"
    by (simp add: TraceRoot.simps sound_simps docs_simps)
  then obtain f' where t: "TraceRoot sound_gorm docs_db (folders docs_db ! 2) = Some (f', None)" ..
  have "IsPathExist sound_gorm docs_world (pathJoin (d_Position f') (d_Name f')) = (True, Some f')"
    by (rule path_of_folder_round_trip [OF sound_gorm_laws sound_answers])
       (use docs_lineage docs_names_unique docs_keys t in \<open>simp_all add: docs_simps cleanElem_def\<close>)
  with t show ?thesis by blast
qed

text \<open>
  The check for a file of the same name answers yes whenever its query does not fail, so
  that no directory is ever created: for every path but the root, \<open>CreateDirectory\<close> ends in an
  error.
\<close>

theorem CreateDirectory_never_creates:
  assumes "\<forall>P d. \<exists>rs. Find (Files G) P d = Inr rs"
    and "path \<noteq> ''/''"
  shows "\<exists>e. CreateDirectory G path w = (Inl e, w)"
  by (rule CreateDirectory_fails [OF assms])

theorem CreateDirectory_never_creates_witness:
  "\<exists>e. CreateDirectory sound_gorm ''/docs/new'' docs_world = (Inl e, docs_world)"
  by (rule CreateDirectory_never_creates) (simp_all add: sound_simps)

end
