(* ===== verification/FsDelete.thy ===== *)
theory FsDelete
  imports FsPaths
begin

text \<open>
  What \<open>FileSystem.Delete\<close> promises: the storage accounting holds after every outcome, and a
  deletion that reports success removed exactly the rows it was asked to remove.
\<close>

section \<open>Grouping by policy\<close>

lemma add_to_group_keys: "fst ` set (add_to_group f gs) = insert (f_PolicyID f) (fst ` set gs)"
  by (induction f gs rule: add_to_group.induct) auto

lemma add_to_group_distinct: "distinct (map fst gs) \<Longrightarrow> distinct (map fst (add_to_group f gs))"
  by (induction f gs rule: add_to_group.induct) (auto simp: add_to_group_keys)

lemma add_to_group_files:
  "mset (concat (map snd (add_to_group f gs))) = add_mset f (mset (concat (map snd gs)))"
  by (induction f gs rule: add_to_group.induct) auto

lemma add_to_group_same:
  "\<forall>(k, fs)\<in>set gs. fs \<noteq> [] \<and> (\<forall>g\<in>set fs. f_PolicyID g = k) \<Longrightarrow>
   \<forall>(k, fs)\<in>set (add_to_group f gs). fs \<noteq> [] \<and> (\<forall>g\<in>set fs. f_PolicyID g = k)"
  by (induction f gs rule: add_to_group.induct) auto

text \<open>The groups have different policies, are not empty, and share out the files.\<close>

lemma GroupFileByPolicy_partition:
  "distinct (map fst (GroupFileByPolicy fs)) \<and> mset (concat (map snd (GroupFileByPolicy fs))) = mset fs \<and>
   (\<forall>(k, gs)\<in>set (GroupFileByPolicy fs). gs \<noteq> [] \<and> (\<forall>g\<in>set gs. f_PolicyID g = k))"
proof (induction fs rule: rev_induct)
  case Nil
  then show ?case by (simp add: GroupFileByPolicy_def)
next
  case (snoc f fs)
  have "GroupFileByPolicy (fs @ [f]) = add_to_group f (GroupFileByPolicy fs)"
    by (simp add: GroupFileByPolicy_def)
  then show ?case
    using snoc add_to_group_distinct add_to_group_same [of "GroupFileByPolicy fs" f]
    by (simp add: add_to_group_files)
qed

section \<open>The storage drivers leave the database alone\<close>

lemma DispatchHandler_frame:
  "DispatchHandler S w = (e, w') \<Longrightarrow>
   wdb w' = wdb w \<and> FileTarget w' = FileTarget w \<and> DirTarget w' = DirTarget w \<and> User w' = User w"
  by (auto simp: DispatchHandler_def Let_def split: option.splits if_splits)

lemma cancel_sessions_frame:
  "wdb (cancel_sessions h ss w) = wdb w \<and> FileTarget (cancel_sessions h ss w) = FileTarget w \<and>
   DirTarget (cancel_sessions h ss w) = DirTarget w \<and> User (cancel_sessions h ss w) = User w"
  by (induction h ss w rule: cancel_sessions.induct) (simp_all add: Let_def)

lemma delete_group_frame:
  assumes "delete_group S fs w = (res, w')"
  shows "wdb w' = wdb w \<and> FileTarget w' = FileTarget w \<and> DirTarget w' = DirTarget w \<and> User w' = User w"
proof (cases "cached_sessions (clock S) (wcache w) fs")
  case None
  then show ?thesis using assms by (simp add: delete_group_def split: list.splits)
next
  case (Some ss)
  show ?thesis
  proof (cases fs)
    case Nil
    then show ?thesis using assms Some by (simp add: delete_group_def)
  next
    case (Cons f rest)
    obtain f' ch' where p: "GetPolicy (orm S) (clock S) f (wdb w) (wcache w) = (f', ch')" by fastforce
    obtain e w1 where d: "DispatchHandler S (w\<lparr>Policy := Some (f_Policy f'), wcache := ch'\<rparr>) = (e, w1)" by fastforce
    note fr = DispatchHandler_frame [OF d]
    show ?thesis
      using assms Some Cons p d fr
      by (auto simp: delete_group_def Let_def cancel_sessions_frame split: option.splits prod.splits)
  qed
qed

lemma deleteGroupedFile_loop_frame:
  "deleteGroupedFile_loop S gs failed w = (res, w') \<Longrightarrow>
   wdb w' = wdb w \<and> FileTarget w' = FileTarget w \<and> DirTarget w' = DirTarget w \<and> User w' = User w"
proof (induction gs arbitrary: failed w)
  case Nil
  then show ?case by simp
next
  case (Cons g gs)
  obtain k fs where kf: "g = (k, fs)" by fastforce
  obtain r w1 where g: "delete_group S fs w = (r, w1)" by fastforce
  note fr = delete_group_frame [OF g]
  show ?case
  proof (cases r)
    case (Inl e)
    then show ?thesis using Cons.prems g fr kf by simp
  next
    case (Inr names)
    then have "deleteGroupedFile_loop S gs (failed(k \<mapsto> names)) w1 = (res, w')"
      using Cons.prems g kf by simp
    from Cons.IH [OF this] show ?thesis using fr by simp
  qed
qed

lemma deleteGroupedFile_frame:
  "deleteGroupedFile S gs w = (res, w') \<Longrightarrow>
   wdb w' = wdb w \<and> FileTarget w' = FileTarget w \<and> DirTarget w' = DirTarget w \<and> User w' = User w"
  unfolding deleteGroupedFile_def by (rule deleteGroupedFile_loop_frame)

lemma SetTargets_frame [simp]:
  "wdb (SetTargetFile fs w) = wdb w" "User (SetTargetFile fs w) = User w"
  "FileTarget (SetTargetFile fs w) = FileTarget w @ fs" "DirTarget (SetTargetFile fs w) = DirTarget w"
  "wdb (SetTargetDir ds w) = wdb w" "User (SetTargetDir ds w) = User w"
  "DirTarget (SetTargetDir ds w) = DirTarget w @ ds" "FileTarget (SetTargetDir ds w) = FileTarget w"
  by (simp_all add: SetTargetFile_def SetTargetDir_def)

context gorm_db
begin

section \<open>The targets are rows\<close>

lemma list_targets_rows:
  assumes "orm S = G" and "list_targets S dirs ids w = (res, w')" and "set (FileTarget w) \<subseteq> set (files (wdb w))"
  shows "wdb w' = wdb w \<and> User w' = User w \<and> set (FileTarget w') \<subseteq> set (files (wdb w))"
proof -
  have dirs: "wdb w1 = wdb w \<and> User w1 = User w \<and> set (FileTarget w1) \<subseteq> set (files (wdb w))"
    if "ListDeleteDirs S dirs w = (e, w1)" for e w1
    using that assms(3)
    by (auto simp: assms(1) ListDeleteDirs_def GetChildFilesOfFolders_def Let_def dest!: files.find_set
        split: prod.splits option.splits sum.splits)
  have ids: "wdb w1 = wdb w0 \<and> User w1 = User w0 \<and> set (FileTarget w1) \<subseteq> set (files (wdb w0))"
    if "ListDeleteFiles S ids w0 = (e, w1)" "set (FileTarget w0) \<subseteq> set (files (wdb w0))" for e w0 w1
    using that
    by (auto simp: assms(1) ListDeleteFiles_def GetFilesByIDs_def dest!: files.find_set split: sum.splits if_splits)
  obtain e w1 where l: "(if length dirs > 0 then ListDeleteDirs S dirs w else (None, w)) = (e, w1)" by fastforce
  have w1: "wdb w1 = wdb w \<and> User w1 = User w \<and> set (FileTarget w1) \<subseteq> set (files (wdb w))"
    using l dirs assms(3) by (cases "length dirs > 0") auto
  show ?thesis
  proof (cases e)
    case (Some x)
    then show ?thesis using assms(2) l w1 by (simp add: list_targets_def)
  next
    case None
    then have "(if length ids > 0 then ListDeleteFiles S ids w1 else (None, w1)) = (res, w')"
      using assms(2) l by (simp add: list_targets_def)
    then show ?thesis using ids [of w1 res w'] w1 by (cases "length ids > 0") auto
  qed
qed

text \<open>The three writes after the stored files are gone.\<close>

lemma DeleteShareBySourceIDs_frame:
  "files (snd (DeleteShareBySourceIDs G ids b d)) = files d \<and> users (snd (DeleteShareBySourceIDs G ids b d)) = users d \<and>
   folders (snd (DeleteShareBySourceIDs G ids b d)) = folders d"
proof (cases "Delete (Shares G) (\<lambda>s. s_SourceID s \<in> set ids \<and> s_IsDir s = b) d")
  case (Inl e)
  then show ?thesis by (simp add: DeleteShareBySourceIDs_def write1_def)
next
  case (Inr p)
  obtain n d' where "p = (n, d')" by fastforce
  from shares.delete_rows [OF Inr [unfolded this]] Inr \<open>p = (n, d')\<close> show ?thesis
    by (simp add: DeleteShareBySourceIDs_def write1_def)
qed

lemma DeleteFolderByIDs_rows:
  assumes "DeleteFolderByIDs G ids d = (res, d')"
  shows "files d' = files d \<and> users d' = users d \<and>
    folders d' = (if isl res then folders d else filter (\<lambda>r. d_ID r \<notin> set ids) (folders d))"
proof (cases "Delete (Folders G) (\<lambda>r. d_ID r \<in> set ids) d")
  case (Inl e)
  then show ?thesis using assms by (auto simp: DeleteFolderByIDs_def)
next
  case (Inr p)
  obtain n d1 where p: "p = (n, d1)" by fastforce
  from folders.delete_rows [OF Inr [unfolded p]] assms Inr p show ?thesis
    by (auto simp: DeleteFolderByIDs_def)
qed

lemma delete_rows_effect:
  assumes "orm S = G" and "delete_rows S gone w = (res, w')"
  obtains r d1 where "DeleteFiles G gone (u_ID (User w)) (wdb w) = (r, d1)"
    and "files (wdb w') = files d1" and "users (wdb w') = users d1"
    and "res = None \<Longrightarrow> \<not> isl r \<and> length gone = length (FileTarget w) \<and>
      folders (wdb w') = filter (\<lambda>x. d_ID x \<notin> d_ID ` set (DirTarget w)) (folders d1)"
    and "isl r \<Longrightarrow> res = Some ErrDBDeleteObjects"
proof -
  obtain r d1 where df: "DeleteFiles G gone (u_ID (User w)) (wdb w) = (r, d1)" by fastforce
  let ?d2 = "snd (DeleteShareBySourceIDs G (map f_ID gone) False d1)"
  obtain r3 d3 where dd: "DeleteFolderByIDs G (map d_ID (DirTarget w)) ?d2 = (r3, d3)" by fastforce
  note fr2 = DeleteShareBySourceIDs_frame [of "map f_ID gone" False d1]
  note fr3 = DeleteFolderByIDs_rows [OF dd]
  note fr4 = DeleteShareBySourceIDs_frame [of "map d_ID (DirTarget w)" True d3]
  show ?thesis
  proof (cases r)
    case (Inl e)
    then have "wdb w' = d1" "res = Some ErrDBDeleteObjects"
      using assms df by (auto simp: delete_rows_def)
    then show ?thesis using df Inl by (intro that [OF df]) auto
  next
    case (Inr u)
    show ?thesis
    proof (cases "length gone = length (FileTarget w)")
      case False
      then have "wdb w' = ?d2" "res \<noteq> None" using assms df Inr by (auto simp: delete_rows_def Let_def)
      then show ?thesis using fr2 Inr by (intro that [OF df]) auto
    next
      case True
      show ?thesis
      proof (cases r3)
        case (Inl e)
        then have "wdb w' = d3" "res \<noteq> None"
          using assms df Inr True dd by (auto simp: delete_rows_def Let_def)
        then show ?thesis using fr2 fr3 Inr by (intro that [OF df]) auto
      next
        case ok: (Inr v)
        then have "wdb w' = snd (DeleteShareBySourceIDs G (map d_ID (DirTarget w)) True d3)"
          using assms df Inr True dd by (auto simp: delete_rows_def Let_def)
        then show ?thesis using fr2 fr3 fr4 Inr ok True by (intro that [OF df]) auto
      qed
    qed
  qed
qed

text \<open>A call of \<open>Delete\<close> fails before it writes, or ends in \<open>delete_rows\<close> on its targets.\<close>

lemma Delete_objects_cases:
  assumes "orm S = G" and "Delete_objects S dirs ids force w = (res, w')"
    and "set (FileTarget w) \<subseteq> set (files (wdb w))"
  obtains e where "res = Some e" and "wdb w' = wdb w"
  | w1 failed gone where "wdb w1 = wdb w" and "User w1 = User w"
      and "set (FileTarget w1) \<subseteq> set (files (wdb w))"
      and "\<exists>w0. list_targets S dirs ids w = (None, w0) \<and> FileTarget w1 = FileTarget w0 \<and> DirTarget w1 = DirTarget w0"
      and "gone = (if force then FileTarget w1 else filter (not_failed failed) (FileTarget w1))"
      and "delete_rows S gone w1 = (res, w')"
proof -
  obtain e w0 where l: "list_targets S dirs ids w = (e, w0)" by fastforce
  note rows = list_targets_rows [OF assms(1) l assms(3)]
  show ?thesis
  proof (cases e)
    case (Some x)
    then have "res = Some x" "wdb w' = wdb w" using assms(2) l rows by (simp_all add: Delete_objects_def)
    then show ?thesis by (rule that(1))
  next
    case None
    show ?thesis
    proof (cases "RemoveFilesWithSoftLinks (orm S) (FileTarget w0) (wdb w0)")
      case (Inl x)
      then have "res = Some ErrDBListObjects" "wdb w' = wdb w"
        using assms(2) l rows None by (simp_all add: Delete_objects_def)
      then show ?thesis by (rule that(1))
    next
      case (Inr fs)
      obtain r w1 where d: "deleteGroupedFile S (GroupFileByPolicy fs) w0 = (r, w1)" by fastforce
      note fr = deleteGroupedFile_frame [OF d]
      show ?thesis
      proof (cases r)
        case (Inl x)
        then have "res = Some x" "wdb w' = wdb w"
          using assms(2) l rows None \<open>RemoveFilesWithSoftLinks _ _ _ = Inr fs\<close> d fr by (simp_all add: Delete_objects_def)
        then show ?thesis by (rule that(1))
      next
        case (Inr failed)
        let ?gone = "if force then FileTarget w1 else filter (not_failed failed) (FileTarget w1)"
        have "delete_rows S ?gone w1 = (res, w')"
          using assms(2) l None \<open>RemoveFilesWithSoftLinks _ _ _ = Inr fs\<close> d Inr
          by (simp add: Delete_objects_def Let_def)
        then show ?thesis
          using rows fr l None by (intro that(2) [of w1 ?gone failed]) auto
      qed
    qed
  qed
qed

lemma Delete_objects_effect:
  assumes "orm S = G" and "file_keys (wdb w)" and "FileTarget w = []"
    and "Delete_objects S dirs ids force w = (res, w')"
  shows "accounted (wdb w) \<Longrightarrow> accounted (wdb w')" and "file_keys (wdb w')"
    and "res = None \<Longrightarrow> \<exists>w0. list_targets S dirs ids w = (None, w0) \<and>
      files (wdb w') = filter (\<lambda>r. f_ID r \<notin> f_ID ` set (FileTarget w0)) (files (wdb w))"
proof -
  have sub: "set (FileTarget w) \<subseteq> set (files (wdb w))" by (simp add: assms(3))
  have "(accounted (wdb w) \<longrightarrow> accounted (wdb w')) \<and> file_keys (wdb w') \<and>
    (res = None \<longrightarrow> (\<exists>w0. list_targets S dirs ids w = (None, w0) \<and>
      files (wdb w') = filter (\<lambda>r. f_ID r \<notin> f_ID ` set (FileTarget w0)) (files (wdb w))))"
  proof (cases rule: Delete_objects_cases [OF assms(1,4) sub])
    case (1 e)
    then show ?thesis using assms(2) by simp
  next
    case (2 w1 failed gone)
    have gone: "set gone \<subseteq> set (files (wdb w))" "length gone = length (FileTarget w1) \<Longrightarrow> gone = FileTarget w1"
      using 2(3,5) by (auto split: if_splits) (metis filter_id_conv length_filter_less nat_neq_iff)
    have own: "\<forall>f\<in>set gone. \<forall>r\<in>set (files (wdb w)). f_ID r = f_ID f \<longrightarrow> f_UserID r = f_UserID f"
    proof (intro ballI impI)
      fix f r assume "f \<in> set gone" "r \<in> set (files (wdb w))" "f_ID r = f_ID f"
      then have "r = f"
        using distinct_map_eqD [of f_ID "files (wdb w)" r f] assms(2) gone(1) by (auto simp: file_keys_def)
      then show "f_UserID r = f_UserID f" by simp
    qed
    have nz: "0 \<notin> f_ID ` set gone" using gone(1) assms(2) by (auto simp: file_keys_def)
    show ?thesis
    proof (rule delete_rows_effect [OF assms(1) 2(6)])
      fix r d1
      assume d: "DeleteFiles G gone (u_ID (User w1)) (wdb w1) = (r, d1)" "files (wdb w') = files d1"
        "users (wdb w') = users d1"
        "res = None \<Longrightarrow> \<not> isl r \<and> length gone = length (FileTarget w1) \<and>
          folders (wdb w') = filter (\<lambda>x. d_ID x \<notin> d_ID ` set (DirTarget w1)) (folders d1)"
        "isl r \<Longrightarrow> res = Some ErrDBDeleteObjects"
      have acc: "accounted (wdb w') = accounted d1" "file_keys (wdb w') = file_keys d1"
        by (simp_all add: accounted_def file_keys_def d(2,3))
      show ?thesis
      proof (cases r)
        case (Inl e)
        then have "d1 = wdb w" using d(1) 2(1) by (cases rule: DeleteFiles_cases [OF d(1)]) auto
        moreover have "res \<noteq> None" using d(5) Inl by simp
        ultimately show ?thesis using acc assms(2) by auto
      next
        case (Inr u)
        then have ok: "DeleteFiles G gone (u_ID (User w1)) (wdb w) = (Inr (), d1)" using d(1) 2(1) by simp
        note eff = DeleteFiles_effect [OF ok assms(2) nz own]
        have "file_keys d1" using assms(2) eff(1) by (auto simp: file_keys_def distinct_map_filterI)
        moreover have "files (wdb w') = filter (\<lambda>r. f_ID r \<notin> f_ID ` set (FileTarget w1)) (files (wdb w))" if "res = None"
          using d(2,4) eff(1) gone(2) that by auto
        ultimately show ?thesis using acc eff(3) 2(4) by auto
      qed
    qed
  qed
  then show "accounted (wdb w) \<Longrightarrow> accounted (wdb w')" and "file_keys (wdb w')"
    and "res = None \<Longrightarrow> \<exists>w0. list_targets S dirs ids w = (None, w0) \<and>
      files (wdb w') = filter (\<lambda>r. f_ID r \<notin> f_ID ` set (FileTarget w0)) (files (wdb w))"
    by blast+
qed

end

text \<open>What \<open>Delete\<close> is asked to remove when it is given files only.\<close>

lemma list_targets_files:
  assumes "gorm_db (orm S)" and "FileTarget w = []" and "ids \<noteq> []" and "u_ID (User w) \<noteq> 0"
    and "list_targets S [] ids w = (None, w0)"
  shows "set (FileTarget w0) = {r \<in> set (files (wdb w)). f_ID r \<in> set ids \<and> f_UserID r = u_ID (User w)}"
proof -
  from assms(2-5) obtain rs where
    "Find (Files (orm S)) (\<lambda>f. f_ID f \<in> set ids \<and> f_UserID f = u_ID (User w)) (wdb w) = Inr rs"
    "FileTarget w0 = rs"
    by (auto simp: list_targets_def ListDeleteFiles_def GetFilesByIDs_def split: sum.splits)
  then show ?thesis using gorm_table.find_set [OF gorm_db.files [OF assms(1)]] by blast
qed

section \<open>Properties\<close>

text \<open>
  C25. Deleting objects keeps the storage accounting and the keys of the files, whatever is
  deleted and however it ends: stored files that could not be removed, a database error, or
  success.
\<close>

theorem Delete_keeps_accounts:
  assumes "gorm_db (orm S)" and "file_keys (wdb w)" and "FileTarget w = []" and "accounted (wdb w)"
    and "Delete_objects S dirs ids force w = (res, w')"
  shows "accounted (wdb w') \<and> file_keys (wdb w')"
  using gorm_db.Delete_objects_effect(1,2) [OF assms(1) refl assms(2,3,5)] assms(4) by blast

text \<open>A server on which every driver stores and deletes without failing.\<close>

definition null_handler :: "unit handler" where
  "null_handler = \<lparr>h_Put = (\<lambda>f p. (None, p)), h_Delete = (\<lambda>ns p. ([], p)), h_Get = (\<lambda>n p. Inr []),
     h_Source = (\<lambda>f n ttl dl sp ch. (Inr n, ch)),
     h_Token = (\<lambda>ttl us f p. (Inr \<lparr>uc_SessionID = us_Key us, uc_ChunkSize = 0, uc_Expires = 0\<rparr>, p)),
     h_CancelToken = (\<lambda>us p. (None, p)), h_List = (\<lambda>n r p. Inr [])\<rparr>"

definition docs_sys :: "unit sys" where
  "docs_sys = \<lparr>orm = sound_gorm, preload = (\<lambda>u. u), clock = 0, hids = dot_hashids,
     drivers = (\<lambda>d. null_handler), remote_ok = (\<lambda>p. True), group_order = (\<lambda>gs. gs),
     savePath = (\<lambda>p u vp n. vp @ ''/'' @ n), remote_callback = (\<lambda>url pic. None)\<rparr>"

text \<open>The tree of \<open>docs_db\<close> with its owner's account and a local policy.\<close>

definition acc_db :: db where
  "acc_db = docs_db\<lparr>users := [zero_user\<lparr>u_ID := 7, u_Storage := 11\<rparr>],
     files := map (\<lambda>f. f\<lparr>f_PolicyID := 1\<rparr>) (files docs_db),
     policies := [zero_policy\<lparr>p_ID := 1, p_Type := ''local''\<rparr>]\<rparr>"

definition acc_world :: "unit world" where
  "acc_world = (getEmptyFS acc_db memo_new ())\<lparr>User := zero_user\<lparr>u_ID := 7, u_Storage := 11\<rparr>\<rparr>"

lemmas acc_simps = acc_world_def acc_db_def docs_simps getEmptyFS_def zero_user_def zero_policy_def docs_sys_def

lemma acc_ok:
  "accounted (wdb acc_world)" "file_keys (wdb acc_world)" "FileTarget acc_world = []" "gorm_db (orm docs_sys)"
  by (simp_all add: accounted_def file_keys_def acc_simps sound_gorm_laws)

theorem Delete_keeps_accounts_witness:
  "accounted (wdb (snd (Delete_objects docs_sys [2] [1] True acc_world))) \<and>
   file_keys (wdb (snd (Delete_objects docs_sys [2] [1] True acc_world)))"
  by (rule Delete_keeps_accounts [OF acc_ok(4,2,3,1) surjective_pairing])

text \<open>
  C26. Deleting files that reports success removes exactly the user's own files among the given
  ids: no file of another user, none that was not named.
\<close>

theorem Delete_files_exact:
  assumes "gorm_db (orm S)" and "file_keys (wdb w)" and "FileTarget w = []" and "u_ID (User w) \<noteq> 0"
    and "ids \<noteq> []" and "Delete_objects S [] ids force w = (None, w')"
  shows "files (wdb w') =
    filter (\<lambda>r. \<not> (f_ID r \<in> set ids \<and> f_UserID r = u_ID (User w))) (files (wdb w))"
proof -
  obtain w0 where w0: "list_targets S [] ids w = (None, w0)"
    and fs: "files (wdb w') = filter (\<lambda>r. f_ID r \<notin> f_ID ` set (FileTarget w0)) (files (wdb w))"
    using gorm_db.Delete_objects_effect(3) [OF assms(1) refl assms(2,3,6) refl] by blast
  note t = list_targets_files [OF assms(1,3,5,4) w0]
  have "f_ID r \<in> f_ID ` set (FileTarget w0) \<longleftrightarrow> f_ID r \<in> set ids \<and> f_UserID r = u_ID (User w)"
    if "r \<in> set (files (wdb w))" for r
  proof
    assume "f_ID r \<in> f_ID ` set (FileTarget w0)"
    then obtain q where q: "q \<in> set (FileTarget w0)" "f_ID r = f_ID q" by blast
    then have "r = q"
      using distinct_map_eqD [of f_ID "files (wdb w)" r q] assms(2) that t by (auto simp: file_keys_def)
    then show "f_ID r \<in> set ids \<and> f_UserID r = u_ID (User w)" using q t by blast
  next
    assume "f_ID r \<in> set ids \<and> f_UserID r = u_ID (User w)"
    then show "f_ID r \<in> f_ID ` set (FileTarget w0)" using t that by blast
  qed
  then show ?thesis unfolding fs by (intro filter_cong) simp_all
qed

theorem Delete_files_exact_witness:
  "map f_ID (files (wdb (snd (Delete_objects docs_sys [] [1, 9] False acc_world)))) = [2]"
proof -
  have n: "fst (Delete_objects docs_sys [] [1, 9] False acc_world) = None"
    by (simp add: Delete_objects_def list_targets_def ListDeleteFiles_def GetFilesByIDs_def
        RemoveFilesWithSoftLinks_def linked_def deleteGroupedFile_def GroupFileByPolicy_def delete_group_def
        GetPolicy_def GetPolicyByID_def cache_Get_def memo_Get_def getValue_def memo_new_def cache_Set_def memo_Set_def
        DispatchHandler_def null_handler_def SetTargetFile_def delete_rows_def DeleteFiles_def commit_tx_def
        model_cond_def ChangeStorage_def by_key_def storage_expr_def not_failed_def DeleteShareBySourceIDs_def
        DeleteFolderByIDs_def write1_def Let_def sound_simps acc_simps)
  then obtain w' where r: "Delete_objects docs_sys [] [1, 9] False acc_world = (None, w')"
    by (metis prod.collapse)
  have "files (wdb w') = filter (\<lambda>r. \<not> (f_ID r \<in> set [1, 9] \<and> f_UserID r = u_ID (User acc_world))) (files (wdb acc_world))"
    by (rule Delete_files_exact [OF acc_ok(4,2,3) _ _ r]) (simp_all add: acc_simps)
  then show ?thesis unfolding r by (simp add: acc_simps)
qed

end
