(* ===== verification/FsArchive.thy ===== *)
theory FsArchive
  imports FsUpload FsDelete
begin

text \<open>
  \<open>pkg/filesystem/archive.go\<close>, and \<open>UploadFromPath\<close> of \<open>upload.go\<close>: packing files and folders
  into a zip, and unpacking an archive into a folder. The zip is the list of the entries
  written; how far the zip writer gets with an entry, what \<open>archiver\<close> finds in an archive, opening a local file and the temporary
  files are parameters. A panic is the error \<open>ErrPanic\<close>, as in the rest of the package. \<open>None\<close> is
  a call that does not return: the walk over the folders follows the parent links of the
  database, which need not end, so it takes fuel.
\<close>

section \<open>Packing\<close>

record zip_entry =
  ze_Name :: gostring
  ze_Store :: bool
  ze_Size :: u64
  ze_Content :: gostring

text \<open>
  The zip writer, given the entries so far and the next one: \<open>None\<close> when \<open>CreateHeader\<close> fails, else
  how many bytes of the content \<open>io.Copy\<close> brings over before it ends or fails.
\<close>

type_synonym zip_writer = "zip_entry list \<Rightarrow> zip_entry \<Rightarrow> nat option"

text \<open>A step gives an error, which ends the run, and the state it leaves.\<close>

type_synonym 's run = "(fs_error option \<times> 's) option"

definition bind_run :: "'s run \<Rightarrow> ('s \<Rightarrow> 's run) \<Rightarrow> 's run" where
  "bind_run m k = (case m of Some (None, s) \<Rightarrow> k s | r \<Rightarrow> r)"

fun fold_run :: "('a \<Rightarrow> 's \<Rightarrow> 's run) \<Rightarrow> 'a list \<Rightarrow> 's \<Rightarrow> 's run" where
  "fold_run step [] s = Some (None, s)"
| "fold_run step (x # xs) s = bind_run (step x s) (fold_run step xs)"

lemma bind_run_simps [simp]:
  "bind_run None k = None" "bind_run (Some (None, s)) k = k s" "bind_run (Some (Some e, s)) k = Some (Some e, s)"
  by (simp_all add: bind_run_def)

lemma bind_run_Some:
  "bind_run m k = Some r \<longleftrightarrow> (\<exists>s. m = Some (None, s) \<and> k s = Some r) \<or> (\<exists>e s. m = Some (Some e, s) \<and> r = (Some e, s))"
  by (auto simp: bind_run_def split: option.splits prod.splits)

text \<open>
  The branch of \<open>doCompress\<close> for a file: a file that cannot be read is left out, and one whose
  copy fails stays in the zip, cut off.
\<close>

definition compress_file ::
  "'p sys \<Rightarrow> zip_writer \<Rightarrow> bool \<Rightarrow> file_row \<Rightarrow> 'p world \<times> zip_entry list \<Rightarrow> ('p world \<times> zip_entry list) run" where
  "compress_file S writer isArchive f0 = (\<lambda>(w, z).
     (let (f, ch) = GetPolicy (orm S) (clock S) f0 (wdb w) (wcache w);
          w1 = w\<lparr>Policy := Some (f_Policy f), wcache := ch\<rparr>
      in case DispatchHandler S w1 of
           (Some _, w2) \<Rightarrow> Some (None, w2, z)
         | (None, w2) \<Rightarrow>
             (case Handler w2 of
                None \<Rightarrow> Some (Some ErrPanic, w2, z)
              | Some drv \<Rightarrow>
                  (case h_Get (drivers S drv) (f_SourceName f) (wdisk w2) of
                     Inl _ \<Rightarrow> Some (None, w2, z)
                   | Inr fileToZip \<Rightarrow>
                       (let header = \<lparr>ze_Name = pathJoin (f_Position f) (f_Name f), ze_Store = isArchive,
                              ze_Size = f_Size f, ze_Content = fileToZip\<rparr>
                        in case writer z header of
                             None \<Rightarrow> Some (None, w2, z)
                           | Some n \<Rightarrow> Some (None, w2, z @ [header\<lparr>ze_Content := take n fileToZip\<rparr>]))))))"

text \<open>The branch for a folder: its files, then its folders. A listing that fails is skipped.\<close>

primrec doCompress ::
  "nat \<Rightarrow> 'p sys \<Rightarrow> zip_writer \<Rightarrow> bool \<Rightarrow> folder_row \<Rightarrow> 'p world \<times> zip_entry list \<Rightarrow> ('p world \<times> zip_entry list) run" where
  "doCompress 0 S writer isArchive = (\<lambda>folder s. None)"
| "doCompress (Suc n) S writer isArchive = (\<lambda>folder s0.
     bind_run
       (case GetChildFiles (orm S) folder (wdb (fst s0)) of
          Inl _ \<Rightarrow> Some (None, s0)
        | Inr subFiles \<Rightarrow> fold_run (compress_file S writer isArchive) subFiles s0)
       (\<lambda>s1.
          (case GetChildFolder (orm S) folder (wdb (fst s1)) of
             Inl _ \<Rightarrow> Some (None, s1)
           | Inr subFolders \<Rightarrow> fold_run (doCompress n S writer isArchive) subFolders s1)))"

text \<open>
  The loops of \<open>Compress\<close>, one object per turn: \<open>cancelled i\<close> says whether the request is gone at
  the \<open>i\<close>-th turn.
\<close>

fun compress_loop ::
  "(nat \<Rightarrow> bool) \<Rightarrow> nat \<Rightarrow> ('s \<Rightarrow> 's run) list \<Rightarrow> 's \<Rightarrow> 's run" where
  "compress_loop cancelled i [] s = Some (None, s)"
| "compress_loop cancelled i (step # rest) s =
     (if cancelled i then Some (Some ErrClientCanceled, s)
      else bind_run (step s) (compress_loop cancelled (Suc i) rest))"

text \<open>Whether everything selected lies in the folder of the context; a folder without parent panics.\<close>

fun in_parent :: "folder_row \<Rightarrow> folder_row list \<Rightarrow> file_row list \<Rightarrow> bool option" where
  "in_parent parent [] fls = Some (list_all (\<lambda>f. f_FolderID f = d_ID parent) fls)"
| "in_parent parent (folder # fds) fls =
     (case d_ParentID folder of
        None \<Rightarrow> None
      | Some p \<Rightarrow> (if p \<noteq> d_ID parent then Some False else in_parent parent fds fls))"

definition Compress ::
  "nat \<Rightarrow> 'p sys \<Rightarrow> zip_writer \<Rightarrow> ctx \<Rightarrow> (nat \<Rightarrow> bool) \<Rightarrow> uint list \<Rightarrow> uint list \<Rightarrow> bool \<Rightarrow> 'p world \<Rightarrow>
   (fs_error option \<times> 'p world \<times> zip_entry list) option" where
  "Compress n S writer c cancelled folderIDs fileIDs isArchive w =
     (let fds = (case GetFolderByIDs (orm S) folderIDs (u_ID (User w)) (wdb w) of Inl _ \<Rightarrow> [] | Inr rs \<Rightarrow> rs);
          res = GetFilesByIDs (orm S) fileIDs (u_ID (User w)) (wdb w);
          fls = (case res of Inl _ \<Rightarrow> [] | Inr rs \<Rightarrow> rs)
      in if isl res \<and> fileIDs \<noteq> [] then Some (Some ErrDBListObjects, w, [])
         else
          (case (case LimitParentCtx c of None \<Rightarrow> Some True | Some parent \<Rightarrow> in_parent parent fds fls) of
             None \<Rightarrow> Some (Some ErrPanic, w, [])
           | Some False \<Rightarrow> Some (Some ErrObjectNotExist, w, [])
           | Some True \<Rightarrow>
               compress_loop cancelled 0
                 (map (\<lambda>folder. doCompress n S writer isArchive (folder\<lparr>d_Position := []\<rparr>)) fds @
                  map (\<lambda>f. compress_file S writer isArchive (f\<lparr>f_Position := []\<rparr>)) fls) (w, [])))"

section \<open>Unpacking\<close>

text \<open>A file of an archive, and an archive as \<open>archiver\<close> walks it: it may stop with an error.\<close>

record arc_file =
  af_NameInArchive :: gostring
  af_IsDir :: bool
  af_Size :: int
  af_Open :: "fs_error + gostring"

record archive =
  ar_Extractor :: bool
  ar_Zip :: bool
  ar_Files :: "arc_file list"
  ar_Err :: "fs_error option"

datatype extraction = MakeDir gostring | StoreFile file_stream

text \<open>What is done with a file: nothing when its path leaves the destination, or it cannot be opened.\<close>

definition extract_file :: "gostring \<Rightarrow> arc_file \<Rightarrow> extraction option" where
  "extract_file dst f =
     (let rawPath = FormSlash (af_NameInArchive f);
          savePath = pathJoin dst rawPath
      in if \<not> hasPrefix savePath (FillSlash (pathClean dst)) then None
         else if af_IsDir f then Some (MakeDir savePath)
         else case af_Open f of
           Inl _ \<Rightarrow> None
         | Inr content \<Rightarrow>
             Some (StoreFile (zero_stream\<lparr>fst_File := content, fst_Size := word_of_int (af_Size f),
               fst_Name := pathBase savePath, fst_VirtualPath := pathDir savePath\<rparr>)))"

text \<open>An upload that panics is recovered; a directory that panics is not.\<close>

definition run_extraction ::
  "'p sys \<Rightarrow> 'p hook_runner \<Rightarrow> ctx \<Rightarrow> extraction \<Rightarrow> 'p world \<Rightarrow> 'p world run" where
  "run_extraction S run c x w =
     (case x of
        MakeDir p \<Rightarrow>
          (case CreateDirectory (orm S) p w of
             (Inl ErrPanic, w') \<Rightarrow> Some (Some ErrPanic, w')
           | (_, w') \<Rightarrow> Some (None, w'))
      | StoreFile s \<Rightarrow>
          (case UploadFromStream S run c s True w of None \<Rightarrow> None | Some (_, _, w') \<Rightarrow> Some (None, w')))"

text \<open>
  \<open>Decompress\<close>. \<open>identify\<close> recognises the format of the content, \<open>temp\<close> says whether the temporary
  copy of a zip could be made. Uploads out of a zip run in goroutines; \<open>schedule\<close> is the order
  in which the extractions take effect, each as a whole. Without workers a zip waits forever.
\<close>

definition Decompress ::
  "'p sys \<Rightarrow> 'p hook_runner \<Rightarrow> ctx \<Rightarrow> (gostring \<Rightarrow> gostring \<Rightarrow> gostring \<Rightarrow> fs_error + archive) \<Rightarrow> bool \<Rightarrow>
   (extraction list \<Rightarrow> extraction list) \<Rightarrow> gostring \<Rightarrow> gostring \<Rightarrow> gostring \<Rightarrow> 'p world \<Rightarrow>
   (fs_error option \<times> 'p world) option" where
  "Decompress S run c identify temp schedule src dst encoding w =
     (case ResetFileIfNotExist S src w of
        (Some e, w1) \<Rightarrow> Some (Some e, w1)
      | (None, w1) \<Rightarrow>
          (case (Handler w1, FileTarget w1) of
             (Some drv, f # _) \<Rightarrow>
               (case h_Get (drivers S drv) (f_SourceName f) (wdisk w1) of
                  Inl e \<Rightarrow> Some (Some e, w1)
                | Inr fileStream \<Rightarrow>
                    (case identify (f_SourceName f) fileStream encoding of
                       Inl e \<Rightarrow> Some (Some e, w1)
                     | Inr a \<Rightarrow>
                         if \<not> ar_Extractor a then Some (Some (StorageError 0), w1)
                         else if ar_Zip a \<and> \<not> temp then Some (Some (StorageError 0), w1)
                         else (case DispatchHandler S (w1\<lparr>Policy := Some (u_Policy (User w1))\<rparr>) of
                                 (Some e, w2) \<Rightarrow> Some (Some e, w2)
                               | (None, w2) \<Rightarrow>
                                   (let parallel = GetIntSetting (orm S) ''max_parallel_transfer'' 4 (wdb w2);
                                        xs = List.map_filter (extract_file dst) (ar_Files a)
                                    in if parallel < 0 then Some (Some ErrPanic, w2)
                                       else if ar_Zip a \<and> parallel = 0 \<and> list_ex (\<lambda>x. case x of StoreFile _ \<Rightarrow> True | MakeDir _ \<Rightarrow> False) xs then None
                                       else (case fold_run (run_extraction S run c) (if ar_Zip a then schedule xs else xs) w2 of
                                               Some (None, w3) \<Rightarrow> Some (ar_Err a, w3)
                                             | r \<Rightarrow> r)))))
           | _ \<Rightarrow> Some (Some ErrPanic, w1)))"

section \<open>Uploading a local file (upload.go)\<close>

text \<open>\<open>opened\<close> is the content of the local file, or why it cannot be opened.\<close>

definition UploadFromPath ::
  "'p sys \<Rightarrow> 'p hook_runner \<Rightarrow> ctx \<Rightarrow> fs_error + gostring \<Rightarrow> gostring \<Rightarrow> u64 \<Rightarrow> 'p world \<Rightarrow>
   (fs_error option \<times> 'p world) option" where
  "UploadFromPath S run c opened dst mode w =
     (case opened of
        Inl e \<Rightarrow> Some (Some e, w)
      | Inr content \<Rightarrow>
          (case UploadFromStream S run c
                  (zero_stream\<lparr>fst_File := content, fst_Size := of_nat (length content), fst_Name := pathBase dst,
                     fst_VirtualPath := pathDir dst, fst_Mode := mode\<rparr>) True w of
             None \<Rightarrow> None
           | Some (e, _, w') \<Rightarrow> Some (e, w')))"

section \<open>What goes into a zip\<close>

lemma fold_run_inv:
  assumes "\<And>x s e s'. x \<in> set xs \<Longrightarrow> I s \<Longrightarrow> step x s = Some (e, s') \<Longrightarrow> I s'"
    and "I s" and "fold_run step xs s = Some (e, s')"
  shows "I s'"
  using assms
proof (induction xs arbitrary: s)
  case Nil
  then show ?case by simp
next
  case (Cons x xs)
  from Cons.prems(3) consider s1 where "step x s = Some (None, s1)" "fold_run step xs s1 = Some (e, s')"
    | "step x s = Some (e, s')" by (auto simp: bind_run_Some)
  then show ?case
  proof cases
    case 1
    show ?thesis
    proof (rule Cons.IH [OF _ _ 1(2)])
      show "I s1" using Cons.prems(1) [of x s None s1] Cons.prems(2) 1(1) by simp
    qed (use Cons.prems(1) in auto)
  next
    case 2
    show ?thesis by (rule Cons.prems(1) [OF _ Cons.prems(2) 2]) simp
  qed
qed

lemma fold_run_some:
  assumes "\<And>x s. x \<in> set xs \<Longrightarrow> I s \<Longrightarrow> \<exists>e s'. step x s = Some (e, s') \<and> I s'" and "I s"
  shows "\<exists>e s'. fold_run step xs s = Some (e, s') \<and> I s'"
  using assms
proof (induction xs arbitrary: s)
  case Nil
  then show ?case by simp
next
  case (Cons x xs)
  obtain e s1 where s1: "step x s = Some (e, s1)" "I s1" using Cons.prems(1) [of x s] Cons.prems(2) by auto
  moreover have "\<exists>e s'. fold_run step xs s1 = Some (e, s') \<and> I s'" using Cons.IH [of s1] Cons.prems(1) s1(2) by simp
  ultimately show ?case by (cases e) simp_all
qed

text \<open>The folders below a folder, itself included.\<close>

inductive inside :: "db \<Rightarrow> uint \<Rightarrow> uint \<Rightarrow> bool" for d i where
  self: "inside d i i"
| child: "inside d i j \<Longrightarrow> r \<in> set (folders d) \<Longrightarrow> d_ParentID r = Some j \<Longrightarrow> inside d i (d_ID r)"

lemma inside_trans: "inside d j k \<Longrightarrow> inside d i j \<Longrightarrow> inside d i k"
  by (induction rule: inside.induct) (auto intro: inside.intros)

text \<open>
  The policy a file can have while packing, which starts with the world \<open>w\<close>: its own if it has
  one already, else one the cache or the table has for it, or none; and the driver of a policy
  (policies of the types \<open>mock\<close> and \<open>anonymous\<close> have none and use the one that is there).
\<close>

definition known_policy :: "'p sys \<Rightarrow> 'p world \<Rightarrow> uint \<Rightarrow> policy \<Rightarrow> bool" where
  "known_policy S w i pol \<longleftrightarrow>
     cache_Get (clock S) (''policy_'' @ formatNat i) (wcache w) = Some (CObj (CPolicy pol)) \<or>
     pol \<in> set (policies (wdb w)) \<and> p_ID pol = i"

definition policy_of :: "'p sys \<Rightarrow> 'p world \<Rightarrow> file_row \<Rightarrow> policy \<Rightarrow> bool" where
  "policy_of S w f pol \<longleftrightarrow>
     (if p_ID (f_Policy f) \<noteq> 0 then pol = f_Policy f
      else pol = zero_policy \<or> known_policy S w (f_PolicyID f) pol)"

definition driver_of :: "policy \<Rightarrow> driver \<Rightarrow> bool" where
  "driver_of pol drv \<longleftrightarrow>
     p_Type pol = ''mock'' \<or> p_Type pol = ''anonymous'' \<or>
     p_Type pol = ''local'' \<and> drv = LocalDriver pol \<or> p_Type pol = ''remote'' \<and> drv = RemoteDriver pol"

text \<open>
  An entry made from a file of the folder \<open>i\<close>, or of one below it: its content is what the driver of
  the file's policy reads, as far as the zip writer got with it.
\<close>

definition packed :: "'p sys \<Rightarrow> zip_writer \<Rightarrow> 'p world \<Rightarrow> bool \<Rightarrow> uint \<Rightarrow> zip_entry \<Rightarrow> bool" where
  "packed S writer w store i e \<longleftrightarrow>
     (\<exists>f pol drv pos content n z. f \<in> set (files (wdb w)) \<and> inside (wdb w) i (f_FolderID f) \<and>
        policy_of S w f pol \<and> driver_of pol drv \<and>
        h_Get (drivers S drv) (f_SourceName f) (wdisk w) = Inr content \<and>
        writer z (e\<lparr>ze_Content := content\<rparr>) = Some n \<and> ze_Content e = take n content \<and>
        ze_Name e = pathJoin pos (f_Name f) \<and> ze_Size e = f_Size f \<and> ze_Store e = store)"

lemma packed_inside: "inside (wdb w) i j \<Longrightarrow> packed S writer w a j e \<Longrightarrow> packed S writer w a i e"
  unfolding packed_def by (blast intro: inside_trans)

definition packing :: "'p sys \<Rightarrow> zip_writer \<Rightarrow> 'p world \<Rightarrow> bool \<Rightarrow> uint \<Rightarrow> 'p world \<times> zip_entry list \<Rightarrow> bool" where
  "packing S writer w0 store i = (\<lambda>(w, z). wdb w = wdb w0 \<and> wdisk w = wdisk w0 \<and>
     (\<forall>j pol. cache_Get (clock S) (''policy_'' @ formatNat j) (wcache w) = Some (CObj (CPolicy pol)) \<longrightarrow>
        known_policy S w0 j pol) \<and>
     (\<forall>e\<in>set z. packed S writer w0 store i e))"

lemma DispatchHandler_keeps:
  "DispatchHandler S w = (res, w') \<Longrightarrow> wdb w' = wdb w \<and> wdisk w' = wdisk w \<and> wcache w' = wcache w"
  by (auto simp: DispatchHandler_def Let_def split: option.splits if_splits)

lemma DispatchHandler_driver:
  "DispatchHandler S w = (None, w') \<Longrightarrow> Policy w = Some pol \<Longrightarrow> Handler w' = Some drv \<Longrightarrow> driver_of pol drv"
  by (auto simp: DispatchHandler_def driver_of_def Let_def split: if_splits)

lemma GetPolicy_file:
  "GetPolicy G now f d ch = (f', ch') \<Longrightarrow> f_Position f' = f_Position f \<and> f_Name f' = f_Name f \<and>
     f_SourceName f' = f_SourceName f \<and> f_Size f' = f_Size f"
  by (auto simp: GetPolicy_def Let_def split: if_splits prod.splits)

lemma cache_Get_fresh: "cache_Get now k (cache_Set now k v (-1) ch) = Some v"
  by (simp add: cache_Get_def cache_Set_def memo_defs)

lemma cache_Get_other: "k \<noteq> k' \<Longrightarrow> cache_Get t k (cache_Set now k' v ttl ch) = cache_Get t k ch"
  by (simp add: cache_Get_def cache_Set_def memo_defs)

text \<open>Loading a policy takes one that is known, and makes no other known.\<close>

lemma no_policy_cached:
  "(\<And>p. c \<noteq> Some (CObj (CPolicy p))) \<Longrightarrow> (case c of Some (CObj (CPolicy p)) \<Rightarrow> a p | _ \<Rightarrow> b) = b"
  by (auto split: option.split cval.split cache_obj.split)

lemma GetPolicyByID_known:
  assumes "gorm_db (orm S)" and "GetPolicyByID (orm S) (clock S) i (wdb w0) ch = (res, ch')"
    and "\<And>j pol. cache_Get (clock S) (''policy_'' @ formatNat j) ch = Some (CObj (CPolicy pol)) \<Longrightarrow> known_policy S w0 j pol"
  shows "res = Inr pol \<Longrightarrow> known_policy S w0 i pol"
    and "cache_Get (clock S) (''policy_'' @ formatNat j) ch' = Some (CObj (CPolicy pol)) \<Longrightarrow> known_policy S w0 j pol"
proof -
  let ?key = "''policy_'' @ formatNat i"
  consider p where "cache_Get (clock S) ?key ch = Some (CObj (CPolicy p))" "res = Inr p" "ch' = ch"
    | e where "res = Inl e" "ch' = ch"
    | p where "First (Policies (orm S)) (\<lambda>p. p_ID p = i) (wdb w0) = Inr p" "res = Inr p"
        "ch' = cache_Set (clock S) ?key (CObj (CPolicy p)) (-1) ch"
  proof (cases "\<exists>p. cache_Get (clock S) ?key ch = Some (CObj (CPolicy p))")
    case True
    then obtain p where p: "cache_Get (clock S) ?key ch = Some (CObj (CPolicy p))" by blast
    with assms(2) have "res = Inr p" "ch' = ch" unfolding GetPolicyByID_def Let_def by simp_all
    with p show ?thesis by (rule that(1))
  next
    case False
    then have "GetPolicyByID (orm S) (clock S) i (wdb w0) ch =
        (case First (Policies (orm S)) (\<lambda>p. p_ID p = i) (wdb w0) of
           Inl e \<Rightarrow> (Inl e, ch) | Inr p \<Rightarrow> (Inr p, cache_Set (clock S) ?key (CObj (CPolicy p)) (-1) ch))"
      unfolding GetPolicyByID_def Let_def by (intro no_policy_cached) blast
    note loaded = this [unfolded assms(2)]
    show ?thesis
    proof (cases "First (Policies (orm S)) (\<lambda>p. p_ID p = i) (wdb w0)")
      case (Inl e)
      with loaded have "res = Inl e" "ch' = ch" unfolding Inl sum.case by blast+
      then show ?thesis by (rule that(2))
    next
      case (Inr p)
      with loaded have "res = Inr p" "ch' = cache_Set (clock S) ?key (CObj (CPolicy p)) (-1) ch"
        unfolding Inr sum.case by blast+
      with Inr show ?thesis by (intro that(3))
    qed
  qed
  then have "(res = Inr pol \<longrightarrow> known_policy S w0 i pol) \<and>
    (cache_Get (clock S) (''policy_'' @ formatNat j) ch' = Some (CObj (CPolicy pol)) \<longrightarrow> known_policy S w0 j pol)"
  proof cases
    case 1
    then show ?thesis using assms(3) by auto
  next
    case 2
    then show ?thesis using assms(3) by auto
  next
    case 3
    have "known_policy S w0 i p"
      using gorm_table.first_row [OF gorm_db.policies [OF assms(1)] 3(1)] by (simp add: known_policy_def)
    moreover have "cache_Get (clock S) (''policy_'' @ formatNat j) ch' = cache_Get (clock S) (''policy_'' @ formatNat j) ch" if "j \<noteq> i"
      using that formatNat_inj [of j i] unfolding 3(3) by (intro cache_Get_other) (auto simp del: append.simps)
    ultimately show ?thesis using 3(2) assms(3) [of j pol] cache_Get_fresh [of "clock S" ?key "CObj (CPolicy p)" ch] unfolding 3(3)
      by (cases "j = i") (auto simp del: append.simps)
  qed
  then show "res = Inr pol \<Longrightarrow> known_policy S w0 i pol"
    and "cache_Get (clock S) (''policy_'' @ formatNat j) ch' = Some (CObj (CPolicy pol)) \<Longrightarrow> known_policy S w0 j pol"
    by blast+
qed

lemma compress_file_packing:
  assumes "gorm_db (orm S)" and "compress_file S writer a (f\<lparr>f_Position := pos\<rparr>) s = Some (err, s')"
    and "packing S writer w0 a i s" and "f \<in> set (files (wdb w0))" and "inside (wdb w0) i (f_FolderID f)"
  shows "packing S writer w0 a i s'"
proof -
  obtain w z where s: "s = (w, z)" by (cases s)
  let ?f = "f\<lparr>f_Position := pos\<rparr>"
  obtain f' ch where pol: "GetPolicy (orm S) (clock S) ?f (wdb w) (wcache w) = (f', ch)"
    by (cases "GetPolicy (orm S) (clock S) ?f (wdb w) (wcache w)")
  let ?w1 = "w\<lparr>Policy := Some (f_Policy f'), wcache := ch\<rparr>"
  obtain res w2 where disp: "DispatchHandler S ?w1 = (res, w2)" by (cases "DispatchHandler S ?w1")
  have w: "wdb w = wdb w0" "wdisk w = wdisk w0" "\<And>e. e \<in> set z \<Longrightarrow> packed S writer w0 a i e"
    and known: "\<And>j pol. cache_Get (clock S) (''policy_'' @ formatNat j) (wcache w) = Some (CObj (CPolicy pol)) \<Longrightarrow>
        known_policy S w0 j pol"
    using assms(3) by (auto simp: packing_def s)
  obtain r ch1 where load: "GetPolicyByID (orm S) (clock S) (f_PolicyID f) (wdb w0) (wcache w) = (r, ch1)" by fastforce
  note loaded = GetPolicyByID_known [OF assms(1) load known]
  have pol': "policy_of S w0 f (f_Policy f')"
    using pol loaded(1) by (auto simp: GetPolicy_def policy_of_def w(1) load Let_def split: if_splits sum.splits)
  have ch: "known_policy S w0 j p" if "cache_Get (clock S) (''policy_'' @ formatNat j) ch = Some (CObj (CPolicy p))" for j p
    using that pol loaded(2) known by (auto simp: GetPolicy_def w(1) load Let_def split: if_splits)
  have w2: "wdb w2 = wdb w0" "wdisk w2 = wdisk w0" "wcache w2 = ch" using DispatchHandler_keeps [OF disp] w by simp_all
  have old: "packing S writer w0 a i (w2, z)" using w2 w(3) ch by (simp add: packing_def)
  consider drv content n where "res = None" "Handler w2 = Some drv"
      "h_Get (drivers S drv) (f_SourceName f') (wdisk w0) = Inr content"
      "writer z \<lparr>ze_Name = pathJoin (f_Position f') (f_Name f'), ze_Store = a, ze_Size = f_Size f', ze_Content = content\<rparr> = Some n"
      "s' = (w2, z @ [\<lparr>ze_Name = pathJoin (f_Position f') (f_Name f'), ze_Store = a, ze_Size = f_Size f',
        ze_Content = take n content\<rparr>])"
    | "s' = (w2, z)"
    using assms(2) by (auto simp: compress_file_def s pol disp w2(2) Let_def split: option.splits sum.splits)
  then show ?thesis
  proof cases
    case 1
    have "driver_of (f_Policy f') drv"
      by (rule DispatchHandler_driver [OF disp [unfolded 1(1)] _ 1(2)]) simp
    with pol' have "packed S writer w0 a i \<lparr>ze_Name = pathJoin (f_Position f') (f_Name f'), ze_Store = a, ze_Size = f_Size f',
        ze_Content = take n content\<rparr>"
      unfolding packed_def using GetPolicy_file [OF pol] 1(3,4) assms(4,5)
      by (intro exI [of _ f] exI [of _ "f_Policy f'"] exI [of _ drv] exI [of _ pos] exI [of _ content] exI [of _ n] exI [of _ z]) simp
    then show ?thesis unfolding 1(5) using w2 w(3) ch by (auto simp: packing_def)
  next
    case 2
    with old show ?thesis by simp
  qed
qed

lemma children_rows:
  assumes "gorm_db G" and "GetChildFiles G folder d = Inr fs" and "f \<in> set fs"
  shows "\<exists>r\<in>set (files d). f = r\<lparr>f_Position := pathJoin (d_Position folder) (d_Name folder)\<rparr> \<and> f_FolderID r = d_ID folder"
  using assms(2,3) gorm_table.find_set [OF gorm_db.files [OF assms(1)]]
  by (auto simp: GetChildFiles_def split: sum.splits)

lemma child_folder_rows:
  assumes "gorm_db G" and "GetChildFolder G folder d = Inr fs" and "f \<in> set fs"
  shows "\<exists>r\<in>set (folders d). d_ID f = d_ID r \<and> d_ParentID r = Some (d_ID folder)"
proof -
  obtain rs where rs: "Find (Folders G) (\<lambda>r. d_ParentID r = Some (d_ID folder)) d = Inr rs"
      "fs = map (\<lambda>f. f\<lparr>d_Position := pathJoin (d_Position folder) (d_Name folder)\<rparr>) rs"
    using assms(2) by (auto simp: GetChildFolder_def split: sum.splits)
  with assms(3) obtain r where "r \<in> set rs" "f = r\<lparr>d_Position := pathJoin (d_Position folder) (d_Name folder)\<rparr>" by auto
  moreover then have "r \<in> set (folders d) \<and> d_ParentID r = Some (d_ID folder)"
    using gorm_table.find_set [OF gorm_db.folders [OF assms(1)] rs(1)] by simp
  ultimately show ?thesis by (intro bexI [of _ r]) simp_all
qed

lemma doCompress_packing:
  assumes "gorm_db (orm S)" and "doCompress n S writer a folder s = Some (err, s')" and "packing S writer w0 a i s"
    and "inside (wdb w0) i (d_ID folder)"
  shows "packing S writer w0 a i s'"
  using assms(2-)
proof (induction n arbitrary: folder s s' err)
  case 0
  then show ?case by simp
next
  case (Suc n)
  let ?files = "case GetChildFiles (orm S) folder (wdb (fst s)) of
      Inl _ \<Rightarrow> Some (None, s) | Inr subFiles \<Rightarrow> fold_run (compress_file S writer a) subFiles s"
  have db: "wdb (fst s) = wdb w0" using Suc.prems(2) by (auto simp: packing_def)
  have files: "packing S writer w0 a i s1" if res: "?files = Some (e1, s1)" for e1 s1
  proof (cases "GetChildFiles (orm S) folder (wdb (fst s))")
    case (Inl e)
    with res Suc.prems(2) show ?thesis by simp
  next
    case (Inr fs)
    show ?thesis
    proof (rule fold_run_inv [where step = "compress_file S writer a" and xs = fs and I = "packing S writer w0 a i", OF _ Suc.prems(2)])
      fix f t e2 t' assume f: "f \<in> set fs" and t: "packing S writer w0 a i t" "compress_file S writer a f t = Some (e2, t')"
      from children_rows [OF assms(1) Inr f] obtain r where r: "r \<in> set (files (wdb w0))"
          "f = r\<lparr>f_Position := pathJoin (d_Position folder) (d_Name folder)\<rparr>" "f_FolderID r = d_ID folder"
        unfolding db by blast
      show "packing S writer w0 a i t'"
        using compress_file_packing [OF assms(1) t(2) [unfolded r(2)] t(1) r(1)] Suc.prems(3) r(3) by simp
    qed (use res Inr in simp)
  qed
  have dirs: "packing S writer w0 a i s'" if s1: "packing S writer w0 a i s1"
    and res: "(case GetChildFolder (orm S) folder (wdb (fst s1)) of
        Inl _ \<Rightarrow> Some (None, s1) | Inr subFolders \<Rightarrow> fold_run (doCompress n S writer a) subFolders s1) = Some (err, s')" for s1
  proof (cases "GetChildFolder (orm S) folder (wdb (fst s1))")
    case (Inl e)
    with res s1 show ?thesis by simp
  next
    case (Inr fs)
    have db1: "wdb (fst s1) = wdb w0" using s1 by (auto simp: packing_def)
    show ?thesis
    proof (rule fold_run_inv [where step = "doCompress n S writer a" and xs = fs and I = "packing S writer w0 a i", OF _ s1])
      fix f t e2 t' assume f: "f \<in> set fs" and t: "packing S writer w0 a i t" "doCompress n S writer a f t = Some (e2, t')"
      from child_folder_rows [OF assms(1) Inr f] obtain r where
        r: "r \<in> set (folders (wdb w0))" "d_ID f = d_ID r" "d_ParentID r = Some (d_ID folder)" unfolding db1 by blast
      have "inside (wdb w0) i (d_ID f)" using inside.child [OF Suc.prems(3) r(1,3)] r(2) by simp
      then show "packing S writer w0 a i t'" by (rule Suc.IH [OF t(2,1)])
    qed (use res Inr in simp)
  qed
  from Suc.prems(1) show ?case
    using files dirs by (auto simp: bind_run_Some)
qed

lemma compress_loop_inv:
  assumes "\<And>step s e s'. step \<in> set steps \<Longrightarrow> I s \<Longrightarrow> step s = Some (e, s') \<Longrightarrow> I s'"
    and "I s" and "compress_loop cancelled i steps s = Some (e, s')"
  shows "I s'"
  using assms
proof (induction steps arbitrary: s i)
  case Nil
  then show ?case by simp
next
  case (Cons step steps)
  show ?case
  proof (cases "cancelled i")
    case True
    with Cons.prems show ?thesis by simp
  next
    case False
    with Cons.prems(3) consider s1 where "step s = Some (None, s1)" "compress_loop cancelled (Suc i) steps s1 = Some (e, s')"
      | "step s = Some (e, s')" by (auto simp: bind_run_Some)
    then show ?thesis
    proof cases
      case 1
      show ?thesis
      proof (rule Cons.IH [OF _ _ 1(2)])
        show "I s1" using Cons.prems(1) [of step s None s1] Cons.prems(2) 1(1) by simp
      qed (use Cons.prems(1) in auto)
    next
      case 2
      show ?thesis by (rule Cons.prems(1) [of step s, OF _ Cons.prems(2) 2]) simp
    qed
  qed
qed

lemma in_parent_true:
  "in_parent parent fds fls = Some True \<Longrightarrow>
   (\<forall>f\<in>set fds. d_ParentID f = Some (d_ID parent)) \<and> (\<forall>f\<in>set fls. f_FolderID f = d_ID parent)"
  by (induction fds) (auto simp: list_all_iff split: option.splits if_splits)

section \<open>Properties\<close>

text \<open>A slash-separated path begins with another one exactly when its elements do.\<close>

lemma prefix_elems:
  assumes "list_all cleanElem ds" and "list_all cleanElem fs" and "hasPrefix (pathOf fs) (FillSlash (pathOf ds))"
  shows "\<exists>es. fs = ds @ es \<and> (es = [] \<longrightarrow> ds = [])"
proof (cases "ds = []")
  case False
  have "pathOf [] = ''/''" by (simp add: pathOf_def)
  with False have "pathOf ds \<noteq> ''/''" using pathOf_inj [OF assms(1), of "[]"] by simp
  then obtain rest where "pathOf fs = pathOf ds @ CHR ''/'' # rest"
    using assms(3) append_take_drop_id [of "length (pathOf ds @ ''/'')" "pathOf fs"]
    by (simp add: hasPrefix_def FillSlash_def) (metis append.assoc append_Cons append_Nil)
  then have "splitOn (CHR ''/'') (pathOf fs) = splitOn (CHR ''/'') (pathOf ds) @ splitOn (CHR ''/'') rest"
    by (simp add: splitOn_append)
  then have "(if fs = [] then [[]] else fs) = ds @ splitOn (CHR ''/'') rest"
    using splitOn_pathOf [OF assms(1)] splitOn_pathOf [OF assms(2)] False by simp
  moreover have "splitOn (CHR ''/'') rest \<noteq> []" by (cases rest) (auto split: list.splits)
  ultimately show ?thesis using False assms(1) by (cases "fs = []") (auto simp: Cons_eq_append_conv cleanElem_def)
qed simp

definition stays_inside :: "gostring list \<Rightarrow> extraction \<Rightarrow> bool" where
  "stays_inside ds x \<longleftrightarrow>
     (case x of
        MakeDir p \<Rightarrow> (\<exists>es. list_all cleanElem es \<and> p = pathOf (ds @ es))
      | StoreFile s \<Rightarrow>
          (\<exists>es n. list_all cleanElem es \<and> cleanElem n \<and> fst_VirtualPath s = pathOf (ds @ es) \<and> fst_Name s = n) \<or>
          (fst_Name s = ''/'' \<and> fst_VirtualPath s = ''/''))"

text \<open>
  C18. Unpacking cannot leave the destination: whatever names the archive holds, with \<open>..\<close>,
  backslashes or a leading slash in them, every folder that is made and every file that is
  stored has a path of clean elements under the cleaned destination (a file may also carry the
  illegal name of the root, which the uploading refuses).
\<close>
theorem Decompress_stays_inside:
  assumes "isRooted dst" and "extract_file dst f = Some x"
  shows "\<exists>ds. list_all cleanElem ds \<and> pathClean dst = pathOf ds \<and> stays_inside ds x"
proof -
  let ?elems = "\<lambda>s. cleanElems True (splitOn (CHR ''/'') s)"
  let ?raw = "FormSlash (af_NameInArchive f)"
  let ?path = "pathJoin dst ?raw"
  define ds where "ds = ?elems dst"
  have ds: "list_all cleanElem ds" "pathClean dst = pathOf ds"
    using cleanElems_rooted_clean pathClean_rooted [OF assms(1)] by (simp_all add: ds_def)
  have "dst \<noteq> []" using assms(1) by (auto simp: isRooted_def)
  then have "?path = pathClean (dst @ ''/'' @ ?raw)" by (simp add: pathJoin_def)
  moreover have "isRooted (dst @ ''/'' @ ?raw)" using assms(1) by (cases dst) (auto simp: isRooted_def)
  ultimately obtain fs where fs: "list_all cleanElem fs" "?path = pathOf fs"
    using cleanElems_rooted_clean pathClean_rooted by metis
  have "hasPrefix ?path (FillSlash (pathClean dst))"
    using assms(2) by (auto simp: extract_file_def Let_def split: if_splits)
  then obtain es where es: "fs = ds @ es" "es = [] \<Longrightarrow> ds = []" using prefix_elems [OF ds(1) fs(1)] ds(2) fs(2) by auto
  have "stays_inside ds x"
  proof (cases x)
    case (MakeDir p)
    then have "p = ?path" using assms(2) by (auto simp: extract_file_def Let_def split: if_splits sum.splits)
    then show ?thesis using MakeDir fs es by (auto simp: stays_inside_def)
  next
    case (StoreFile s)
    then have s: "fst_Name s = pathBase ?path" "fst_VirtualPath s = pathDir ?path"
      using assms(2) by (auto simp: extract_file_def Let_def split: if_splits sum.splits)
    show ?thesis
    proof (cases es rule: rev_cases)
      case Nil
      then have "?path = ''/''" using es fs(2) by (simp add: pathOf_def)
      moreover have "pathBase ''/'' = ''/''" "pathDir ''/'' = ''/''" by code_simp+
      ultimately show ?thesis using s StoreFile by (simp add: stays_inside_def)
    next
      case (snoc es' n)
      then have "list_all cleanElem es'" "cleanElem n" "list_all cleanElem (ds @ es')" using fs(1) es by simp_all
      then show ?thesis
        using pathDir_pathOf [of "ds @ es'" n] s StoreFile fs(2) es snoc
        by (auto simp: stays_inside_def)
    qed
  qed
  with ds show ?thesis by blast
qed

text \<open>Packing the folder \<open>docs\<close>, with the root as the limit: two files, one of them a level down.\<close>

definition zip_sys :: "unit sys" where
  "zip_sys = docs_sys\<lparr>drivers := (\<lambda>d. null_handler\<lparr>h_Get := (\<lambda>n p. Inr ''content'')\<rparr>)\<rparr>"

text \<open>A writer that never fails.\<close>

definition whole :: zip_writer where
  "whole z e = Some (length (ze_Content e))"

definition zip_ctx :: ctx where
  "zip_ctx = Background\<lparr>LimitParentCtx := Some (zero_folder\<lparr>d_ID := 1\<rparr>)\<rparr>"

lemma zip_run:
  "\<exists>w'. Compress 3 zip_sys whole zip_ctx (\<lambda>i. False) [2] [] True acc_world =
     Some (None, w', [\<lparr>ze_Name = ''docs/a'', ze_Store = True, ze_Size = 5, ze_Content = ''content''\<rparr>,
                       \<lparr>ze_Name = ''docs/old/b'', ze_Store = True, ze_Size = 6, ze_Content = ''content''\<rparr>])"
proof -
  have paths: "pathJoin [] ''docs'' = ''docs''" "pathJoin ''docs'' ''a'' = ''docs/a''" "pathJoin ''docs'' ''old'' = ''docs/old''"
    "pathJoin ''docs/old'' ''b'' = ''docs/old/b''" by code_simp+
  show ?thesis
    by (simp add: Compress_def compress_file_def acc_simps sound_simps zip_sys_def zip_ctx_def Background_def
        GetFolderByIDs_def GetFilesByIDs_def GetChildFiles_def GetChildFolder_def GetPolicy_def GetPolicyByID_def
        DispatchHandler_def Let_def paths numeral_3_eq_3 cache_Get_def memo_Get_def getValue_def memo_new_def
        cache_Set_def memo_Set_def newItem_def null_handler_def whole_def)
qed

definition zip_slip :: arc_file where
  "zip_slip = \<lparr>af_NameInArchive = ''x'' @ [CHR 92] @ ''../y'', af_IsDir = True, af_Size = 0, af_Open = Inr []\<rparr>"

lemma Decompress_stays_inside_witness:
  "\<exists>ds. list_all cleanElem ds \<and> pathClean ''/a'' = pathOf ds \<and> stays_inside ds (MakeDir ''/a/y'')"
proof (rule Decompress_stays_inside)
  show "isRooted ''/a''" by (simp add: isRooted_def)
  show "extract_file ''/a'' zip_slip = Some (MakeDir ''/a/y'')" by code_simp
qed

text \<open>A name that climbs out of the destination is skipped.\<close>

lemma zip_slip_skipped: "extract_file ''/a/b'' (zip_slip\<lparr>af_NameInArchive := ''../../etc''\<rparr>) = None"
  by code_simp

section \<open>The walk returns on a tree\<close>

text \<open>\<open>h\<close> bounds how deep it goes below each folder: parent links have no cycle.\<close>

definition heights :: "(uint \<Rightarrow> nat) \<Rightarrow> db \<Rightarrow> bool" where
  "heights h d \<longleftrightarrow> (\<forall>r\<in>set (folders d). \<forall>j. d_ParentID r = Some j \<longrightarrow> h (d_ID r) < h j)"

definition ready :: "db \<Rightarrow> 'p world \<times> zip_entry list \<Rightarrow> bool" where
  "ready d = (\<lambda>(w, z). wdb w = d)"

lemma compress_file_ready: "ready d s \<Longrightarrow> \<exists>e s'. compress_file S writer a f s = Some (e, s') \<and> ready d s'"
proof -
  assume r: "ready d s"
  obtain w z where s: "s = (w, z)" by (cases s)
  obtain f' ch where pol: "GetPolicy (orm S) (clock S) f (wdb w) (wcache w) = (f', ch)"
    by (cases "GetPolicy (orm S) (clock S) f (wdb w) (wcache w)")
  let ?w1 = "w\<lparr>Policy := Some (f_Policy f'), wcache := ch\<rparr>"
  obtain res w2 where disp: "DispatchHandler S ?w1 = (res, w2)" by (cases "DispatchHandler S ?w1")
  have "wdb w2 = d"
    using DispatchHandler_keeps [OF disp] r by (simp_all add: ready_def s)
  then show ?thesis
    by (auto simp: compress_file_def s pol disp ready_def Let_def split: option.splits sum.splits)
qed

lemma doCompress_ready:
  assumes "gorm_db (orm S)" and "heights h d" and "h (d_ID folder) < n" and "ready d s"
  shows "\<exists>e s'. doCompress n S writer a folder s = Some (e, s') \<and> ready d s'"
  using assms(3,4)
proof (induction n arbitrary: folder s)
  case 0
  then show ?case by simp
next
  case (Suc n)
  let ?files = "case GetChildFiles (orm S) folder (wdb (fst s)) of
      Inl _ \<Rightarrow> Some (None, s) | Inr subFiles \<Rightarrow> fold_run (compress_file S writer a) subFiles s"
  have "\<exists>e s1. ?files = Some (e, s1) \<and> ready d s1"
    using Suc.prems(2) fold_run_some [where I = "ready d" and step = "compress_file S writer a", OF compress_file_ready Suc.prems(2)]
    by (cases "GetChildFiles (orm S) folder (wdb (fst s))") simp_all
  then obtain e s1 where s1: "?files = Some (e, s1)" "ready d s1" by blast
  then have db: "wdb (fst s1) = d" by (auto simp: ready_def)
  have "\<exists>e s'. (case GetChildFolder (orm S) folder (wdb (fst s1)) of
      Inl _ \<Rightarrow> Some (None, s1) | Inr subFolders \<Rightarrow> fold_run (doCompress n S writer a) subFolders s1) = Some (e, s') \<and> ready d s'"
  proof (cases "GetChildFolder (orm S) folder (wdb (fst s1))")
    case (Inl e)
    with s1 show ?thesis by simp
  next
    case (Inr fs)
    have "\<exists>e s'. doCompress n S writer a f t = Some (e, s') \<and> ready d s'" if f: "f \<in> set fs" and t: "ready d t" for f t
    proof (rule Suc.IH [OF _ t])
      obtain r where "r \<in> set (folders d)" "d_ID f = d_ID r" "d_ParentID r = Some (d_ID folder)"
        using child_folder_rows [OF assms(1) Inr f] db by auto
      then have "h (d_ID f) < h (d_ID folder)" using assms(2) by (auto simp: heights_def)
      then show "h (d_ID f) < n" using Suc.prems(1) by simp
    qed
    then show ?thesis using fold_run_some [where I = "ready d" and step = "doCompress n S writer a", OF _ s1(2)] Inr by simp
  qed
  with s1 show ?case by (cases e) simp_all
qed

lemma compress_loop_some:
  assumes "\<And>step s. step \<in> set steps \<Longrightarrow> I s \<Longrightarrow> \<exists>e s'. step s = Some (e, s') \<and> I s'" and "I s"
  shows "\<exists>r. compress_loop cancelled i steps s = Some r"
  using assms
proof (induction steps arbitrary: s i)
  case Nil
  then show ?case by simp
next
  case (Cons step steps)
  obtain e s1 where s1: "step s = Some (e, s1)" "I s1" using Cons.prems(1) [of step s] Cons.prems(2) by auto
  have "\<exists>r. compress_loop cancelled (Suc i) steps s1 = Some r"
    by (rule Cons.IH [OF _ s1(2)]) (use Cons.prems(1) in auto)
  with s1(1) show ?case by (cases e) simp_all
qed

text \<open>
  Packing returns: when the parent links of the folders have no cycle, with a number of
  levels as fuel that exceeds every height, \<open>Compress\<close> ends with a zip or an error, whatever is
  asked for.
\<close>
lemma Compress_returns:
  assumes "gorm_db (orm S)" and "heights h (wdb w)" and "\<forall>r\<in>set (folders (wdb w)). h (d_ID r) < n"
  shows "\<exists>err w' z. Compress n S writer c cancelled folderIDs fileIDs isArchive w = Some (err, w', z)"
proof -
  let ?d = "wdb w"
  define fds where "fds = (case GetFolderByIDs (orm S) folderIDs (u_ID (User w)) ?d of Inl _ \<Rightarrow> [] | Inr rs \<Rightarrow> rs)"
  define fls where "fls = (case GetFilesByIDs (orm S) fileIDs (u_ID (User w)) ?d of Inl _ \<Rightarrow> [] | Inr rs \<Rightarrow> rs)"
  let ?steps = "map (\<lambda>folder. doCompress n S writer isArchive (folder\<lparr>d_Position := []\<rparr>)) fds @
    map (\<lambda>f. compress_file S writer isArchive (f\<lparr>f_Position := []\<rparr>)) fls"
  have dirs: "f \<in> set (folders ?d)" if "f \<in> set fds" for f
    using that gorm_table.find_set [OF gorm_db.folders [OF assms(1)]]
    by (auto simp: fds_def GetFolderByIDs_def split: sum.splits)
  have "\<exists>r. compress_loop cancelled 0 ?steps (w, []) = Some r"
  proof (rule compress_loop_some [where I = "ready ?d"])
    fix step and s :: "'a world \<times> zip_entry list"
    assume step: "step \<in> set ?steps" and s: "ready ?d s"
    from step consider f where "f \<in> set fds" "step = doCompress n S writer isArchive (f\<lparr>d_Position := []\<rparr>)"
      | f where "step = compress_file S writer isArchive (f\<lparr>f_Position := []\<rparr>)" by auto
    then show "\<exists>e s'. step s = Some (e, s') \<and> ready ?d s'"
    proof cases
      case 1
      have "h (d_ID (f\<lparr>d_Position := []\<rparr>)) < n" using dirs [OF 1(1)] assms(3) by simp
      then show ?thesis using doCompress_ready [OF assms(1,2) _ s] 1(2) by simp
    next
      case 2
      then show ?thesis using compress_file_ready [OF s] by simp
    qed
  qed (simp add: ready_def)
  then show ?thesis
    by (auto simp: Compress_def fds_def fls_def Let_def split: prod.splits option.splits bool.splits)
qed

text \<open>
  C17. An archive made for a folder holds nothing from outside it: when \<open>Compress\<close> is limited to a
  parent folder, then whatever ids the request names, wherever the packing stops and whatever the
  zip writer fails at, every entry of the zip is a stored file of that folder or of a folder below
  it, under a path with its name and with its size, and its content is what the driver of that file's
  policy reads, up to where the zip writer failed with this entry, which the code does
  not report. The policy is that of the cache or else of the table; one of the types \<open>mock\<close> and
  \<open>anonymous\<close> has no driver and uses the last one. The walk has a number of levels as
  fuel; when the parents have no cycle and the number exceeds the height of every
  folder, it is enough, and \<open>Compress\<close> returns.
\<close>
theorem Compress_only_below:
  assumes "gorm_db (orm S)" and "LimitParentCtx c = Some parent"
  shows "(\<forall>err w' z. Compress n S writer c cancelled folderIDs fileIDs isArchive w = Some (err, w', z) \<longrightarrow>
      (\<forall>e\<in>set z. packed S writer w isArchive (d_ID parent) e)) \<and>
    (heights h (wdb w) \<and> (\<forall>r\<in>set (folders (wdb w)). h (d_ID r) < n) \<longrightarrow>
      (\<exists>r. Compress n S writer c cancelled folderIDs fileIDs isArchive w = Some r))"
proof (intro conjI allI impI ballI)
  fix err w' z e
  assume res: "Compress n S writer c cancelled folderIDs fileIDs isArchive w = Some (err, w', z)" and e: "e \<in> set z"
  let ?d = "wdb w" and ?I = "packing S writer w isArchive (d_ID parent)"
  define fds where "fds = (case GetFolderByIDs (orm S) folderIDs (u_ID (User w)) ?d of Inl _ \<Rightarrow> [] | Inr rs \<Rightarrow> rs)"
  define fls where "fls = (case GetFilesByIDs (orm S) fileIDs (u_ID (User w)) ?d of Inl _ \<Rightarrow> [] | Inr rs \<Rightarrow> rs)"
  let ?steps = "map (\<lambda>folder. doCompress n S writer isArchive (folder\<lparr>d_Position := []\<rparr>)) fds @
    map (\<lambda>f. compress_file S writer isArchive (f\<lparr>f_Position := []\<rparr>)) fls"
  have run: "in_parent parent fds fls = Some True" "compress_loop cancelled 0 ?steps (w, []) = Some (err, w', z)"
    using assms(2) res e by (auto simp: Compress_def fds_def fls_def Let_def split: if_splits option.splits bool.splits)
  have dirs: "f \<in> set (folders ?d)" if "f \<in> set fds" for f
    using that gorm_table.find_set [OF gorm_db.folders [OF assms(1)]]
    by (auto simp: fds_def GetFolderByIDs_def split: sum.splits)
  have rows: "f \<in> set (files ?d)" if "f \<in> set fls" for f
    using that gorm_table.find_set [OF gorm_db.files [OF assms(1)]]
    by (auto simp: fls_def GetFilesByIDs_def split: sum.splits if_splits)
  have "?I (w', z)"
  proof (rule compress_loop_inv [where I = ?I, OF _ _ run(2)])
    fix step s e2 s' assume step: "step \<in> set ?steps" and s: "?I s" "step s = Some (e2, s')"
    from step consider f where "f \<in> set fds" "step = doCompress n S writer isArchive (f\<lparr>d_Position := []\<rparr>)"
      | f where "f \<in> set fls" "step = compress_file S writer isArchive (f\<lparr>f_Position := []\<rparr>)" by auto
    then show "?I s'"
    proof cases
      case 1
      then have "inside ?d (d_ID parent) (d_ID f)"
        using in_parent_true [OF run(1)] dirs [OF 1(1)] inside.child [OF inside.self] by metis
      then show ?thesis using doCompress_packing [OF assms(1) s(2) [unfolded 1(2)] s(1)] by simp
    next
      case 2
      then have "inside ?d (d_ID parent) (f_FolderID f)"
        using in_parent_true [OF run(1)] inside.self by metis
      then show ?thesis using compress_file_packing [OF assms(1) s(2) [unfolded 2(2)] s(1) rows [OF 2(1)]] by simp
    qed
  qed (simp add: packing_def known_policy_def)
  then show "packed S writer w isArchive (d_ID parent) e" using e by (simp add: packing_def)
next
  assume "heights h (wdb w) \<and> (\<forall>r\<in>set (folders (wdb w)). h (d_ID r) < n)"
  then show "\<exists>r. Compress n S writer c cancelled folderIDs fileIDs isArchive w = Some r"
    using Compress_returns [OF assms(1)] by blast
qed

lemma Compress_only_below_witness:
  "(\<exists>r. Compress 4 zip_sys whole zip_ctx (\<lambda>i. False) [2] [] True acc_world = Some r) \<and>
   packed zip_sys whole acc_world True 1 \<lparr>ze_Name = ''docs/old/b'', ze_Store = True, ze_Size = 6, ze_Content = ''content''\<rparr>"
proof -
  have sys: "gorm_db (orm zip_sys)" "LimitParentCtx zip_ctx = Some (zero_folder\<lparr>d_ID := 1\<rparr>)"
    by (simp_all add: zip_sys_def docs_sys_def sound_gorm_laws zip_ctx_def Background_def)
  obtain w' where run: "Compress 3 zip_sys whole zip_ctx (\<lambda>i. False) [2] [] True acc_world =
     Some (None, w', [\<lparr>ze_Name = ''docs/a'', ze_Store = True, ze_Size = 5, ze_Content = ''content''\<rparr>,
                       \<lparr>ze_Name = ''docs/old/b'', ze_Store = True, ze_Size = 6, ze_Content = ''content''\<rparr>])"
    using zip_run by blast
  have "packed zip_sys whole acc_world True (d_ID (zero_folder\<lparr>d_ID := 1\<rparr>))
     \<lparr>ze_Name = ''docs/old/b'', ze_Store = True, ze_Size = 6, ze_Content = ''content''\<rparr>"
    using Compress_only_below [OF sys, THEN conjunct1, rule_format, OF run] by simp
  moreover have "heights (\<lambda>i. 3 - i) (wdb acc_world) \<and> (\<forall>r\<in>set (folders (wdb acc_world)). 3 - d_ID r < 4)"
    by (auto simp: heights_def acc_simps)
  note Compress_only_below [OF sys, THEN conjunct2, THEN mp, OF this]
  ultimately show ?thesis by simp
qed

end
