(* ===== verification/HmacAuth.thy ===== *)
theory HmacAuth
  imports GoLib "HOL-Library.AList" "HOL-Library.List_Lexorder" "HOL-Library.Char_ord"
begin

text \<open>
  \<open>pkg/auth\<close>: the HMAC signatures of \<open>hmac.go\<close>, and the signing and checking of URLs and
  requests of \<open>auth.go\<close>, which work on any instance of the interface \<open>Auth\<close>.

  HMAC-SHA256 is the parameter \<open>mac\<close> (key, message, digest), the JSON encoding of the signed
  request is the parameter \<open>marshal\<close>. A URL is its path with its decoded query; a request is
  its path, its headers in the order a range visits them, and its body. The clock is an
  argument.
\<close>

datatype auth_error = ErrAuthFailed | ErrAuthHeaderMissing | ErrExpiresMissing | ErrExpired

text \<open>The interface \<open>Auth\<close>: an instance is its two methods; \<open>None\<close> is the nil error.\<close>

record auth =
  Sign :: "gostring \<Rightarrow> int \<Rightarrow> gostring"
  Check :: "unix_time \<Rightarrow> gostring \<Rightarrow> gostring \<Rightarrow> auth_error option"

section \<open>hmac.go\<close>

definition hmac_Sign :: "(gostring \<Rightarrow> gostring \<Rightarrow> gostring) \<Rightarrow> gostring \<Rightarrow> gostring \<Rightarrow> int \<Rightarrow> gostring" where
  "hmac_Sign mac key body expires =
     (let expiresTimeStamp = formatInt expires
      in b64Encode (mac key (body @ '':'' @ expiresTimeStamp)) @ '':'' @ expiresTimeStamp)"

definition hmac_Check ::
  "(gostring \<Rightarrow> gostring \<Rightarrow> gostring) \<Rightarrow> gostring \<Rightarrow> unix_time \<Rightarrow> gostring \<Rightarrow> gostring \<Rightarrow> auth_error option" where
  "hmac_Check mac key now body sign =
     (let signSlice = splitOn (CHR '':'') sign; stamp = last signSlice
      in if stamp = [] then Some ErrExpiresMissing
         else case parseInt stamp of
           None \<Rightarrow> Some ErrAuthFailed
         | Some expires \<Rightarrow>
             (if expires < now \<and> expires \<noteq> 0 then Some ErrExpired
              else if hmac_Sign mac key body expires \<noteq> sign then Some ErrAuthFailed
              else None))"

definition HMACAuth :: "(gostring \<Rightarrow> gostring \<Rightarrow> gostring) \<Rightarrow> gostring \<Rightarrow> auth" where
  "HMACAuth mac key = \<lparr>Sign = hmac_Sign mac key, Check = hmac_Check mac key\<rparr>"

definition int64 :: "int \<Rightarrow> bool" where
  "int64 i \<longleftrightarrow> - (2 ^ 63) \<le> i \<and> i < 2 ^ 63"

lemma hmac_stamp: "last (splitOn (CHR '':'') (hmac_Sign mac key body e)) = formatInt e"
  using last_splitOn_append_sep [OF formatInt_no_colon, of "b64Encode (mac key (body @ '':'' @ formatInt e))" e]
  by (simp add: hmac_Sign_def Let_def)

lemma hmac_Check_Sign:
  assumes "int64 e"
  shows "hmac_Check mac key now body (hmac_Sign mac key body' e) =
    (if e < now \<and> e \<noteq> 0 then Some ErrExpired
     else if hmac_Sign mac key body e \<noteq> hmac_Sign mac key body' e then Some ErrAuthFailed else None)"
  using assms by (simp add: hmac_Check_def hmac_stamp parseInt_formatInt int64_def)

lemma hmac_Check_ok:
  "hmac_Check mac key now body sign = None \<Longrightarrow>
   \<exists>e. sign = hmac_Sign mac key body e \<and> (e = 0 \<or> now \<le> e)"
  by (auto simp: hmac_Check_def Let_def split: if_splits option.splits)

text \<open>
  Moving a signature to another body is a collision of the MAC or of base64: the signed
  messages of two bodies with the same time stamp differ.
\<close>

lemma hmac_Sign_eqD:
  "hmac_Sign mac key body e = hmac_Sign mac key body' e' \<Longrightarrow>
   e = e' \<or> formatInt e = formatInt e'"
proof -
  assume "hmac_Sign mac key body e = hmac_Sign mac key body' e'"
  then have "formatInt e = formatInt e'"
    using hmac_stamp by metis
  then show ?thesis by simp
qed

lemma hmac_Sign_same_stamp:
  "hmac_Sign mac key body e = hmac_Sign mac key body' e \<Longrightarrow>
   b64Encode (mac key (body @ '':'' @ formatInt e)) = b64Encode (mac key (body' @ '':'' @ formatInt e))"
  by (simp add: hmac_Sign_def Let_def)

section \<open>The interface Auth\<close>

text \<open>
  What the URL and request functions rely on: a signature passes the check for its own body
  until it expires, and what passes the check is a signature that has not expired.
\<close>

locale auth_iface =
  fixes A :: auth
  assumes check_sign:
      "int64 e \<Longrightarrow> e = 0 \<or> now \<le> e \<Longrightarrow> Check A now body (Sign A body e) = None"
    and check_expired:
      "int64 e \<Longrightarrow> e \<noteq> 0 \<Longrightarrow> e < now \<Longrightarrow> Check A now body (Sign A body' e) = Some ErrExpired"
    and check_sound:
      "Check A now body s = None \<Longrightarrow> \<exists>e. s = Sign A body e \<and> (e = 0 \<or> now \<le> e)"

interpretation hmac: auth_iface "HMACAuth mac key" for mac key
  by unfold_locales (auto simp: HMACAuth_def hmac_Check_Sign dest: hmac_Check_ok)

section \<open>auth.go\<close>

record url =
  Path :: gostring
  Query :: "gostring \<rightharpoonup> gostring list"

definition query_Get :: "(gostring \<rightharpoonup> gostring list) \<Rightarrow> gostring \<Rightarrow> gostring" where
  "query_Get q k = (case q k of Some (v # _) \<Rightarrow> v | _ \<Rightarrow> [])"

text \<open>\<open>parse\<close> is \<open>url.Parse\<close>; it may fail.\<close>

definition SignURI ::
  "(gostring \<Rightarrow> 'e + url) \<Rightarrow> auth \<Rightarrow> unix_time \<Rightarrow> gostring \<Rightarrow> int \<Rightarrow> 'e + url" where
  "SignURI parse A now uri expires0 =
     (let expires = (if expires0 \<noteq> 0 then expires0 + now else expires0)
      in case parse uri of
           Inl err \<Rightarrow> Inl err
         | Inr base \<Rightarrow>
             (let sign = Sign A (Path base) expires
              in Inr (base\<lparr>Query := (Query base)(''sign'' \<mapsto> [sign])\<rparr>)))"

text \<open>The second component is the URL after the call: its \<open>sign\<close> has been removed.\<close>

definition CheckURI :: "auth \<Rightarrow> unix_time \<Rightarrow> url \<Rightarrow> auth_error option \<times> url" where
  "CheckURI A now u =
     (let sign = query_Get (Query u) ''sign'';
          u' = u\<lparr>Query := (Query u)(''sign'' := None)\<rparr>
      in (Check A now (Path u') sign, u'))"

record request =
  URLPath :: gostring
  Header :: "(gostring \<times> gostring list) list"
  Body :: "gostring option"

definition header_Get :: "request \<Rightarrow> gostring \<Rightarrow> gostring" where
  "header_Get r k = (case map_of (Header r) k of Some (v # _) \<Rightarrow> v | _ \<Rightarrow> [])"

definition CrHeaderPrefix :: gostring where
  "CrHeaderPrefix = ''X-Cr-''"

definition getSignContent ::
  "(gostring \<Rightarrow> gostring \<Rightarrow> gostring \<Rightarrow> gostring) \<Rightarrow> request \<Rightarrow> gostring" where
  "getSignContent marshal r =
     (let body = (if containsStr (URLPath r) ''/api/v2/slave/upload/'' then []
                  else case Body r of None \<Rightarrow> [] | Some b \<Rightarrow> b);
          signedHeader =
            map (\<lambda>k. k @ ''='' @ header_Get r k)
              (filter (\<lambda>k. hasPrefix k CrHeaderPrefix \<and> k \<noteq> CrHeaderPrefix @ ''Filename'')
                (map fst (Header r)))
      in marshal (URLPath r) (joinWith ''&'' (sort signedHeader)) body)"

definition set_header :: "request \<Rightarrow> gostring \<Rightarrow> gostring list \<Rightarrow> request" where
  "set_header r k v = r\<lparr>Header := AList.update k v (Header r)\<rparr>"

definition SignRequest ::
  "(gostring \<Rightarrow> gostring \<Rightarrow> gostring \<Rightarrow> gostring) \<Rightarrow> auth \<Rightarrow> unix_time \<Rightarrow> request \<Rightarrow> int \<Rightarrow> request" where
  "SignRequest marshal A now r expires0 =
     (let expires = (if expires0 > 0 then expires0 + now else expires0);
          sign = Sign A (getSignContent marshal r) expires
      in set_header r ''Authorization'' [''Bearer '' @ sign])"

text \<open>The check trims the scheme in place, so the request is returned with it.\<close>

definition CheckRequest ::
  "(gostring \<Rightarrow> gostring \<Rightarrow> gostring \<Rightarrow> gostring) \<Rightarrow> auth \<Rightarrow> unix_time \<Rightarrow> request \<Rightarrow> auth_error option \<times> request" where
  "CheckRequest marshal A now r =
     (case map_of (Header r) ''Authorization'' of
        None \<Rightarrow> (Some ErrAuthHeaderMissing, r)
      | Some [] \<Rightarrow> (Some ErrAuthHeaderMissing, r)
      | Some (s # rest) \<Rightarrow>
          (let sign0 = trimPrefix s ''Bearer '';
               r' = set_header r ''Authorization'' (sign0 # rest)
           in (Check A now (getSignContent marshal r') sign0, r')))"

lemma map_of_set_header:
  "map_of (Header (set_header r k v)) = (map_of (Header r))(k \<mapsto> v)"
  by (simp add: set_header_def update_conv')

lemma filter_keys_update: "\<not> P k \<Longrightarrow> filter P (map fst (AList.update k v hs)) = filter P (map fst hs)"
  by (induction hs) auto

lemma set_header_names:
  "\<not> P k \<Longrightarrow> filter P (map fst (Header (set_header r k v))) = filter P (map fst (Header r))"
  by (simp add: set_header_def filter_keys_update)

lemma set_header_simps [simp]:
  "URLPath (set_header r k v) = URLPath r"
  "Body (set_header r k v) = Body r"
  by (simp_all add: set_header_def)

lemma header_Get_set_header: "k' \<noteq> k \<Longrightarrow> header_Get (set_header r k v) k' = header_Get r k'"
  by (simp add: header_Get_def map_of_set_header)

text \<open>The \<open>Authorization\<close> header is not part of what is signed.\<close>

lemma getSignContent_set_Authorization:
  "getSignContent marshal (set_header r ''Authorization'' v) = getSignContent marshal r"
proof -
  let ?P = "\<lambda>k. hasPrefix k CrHeaderPrefix \<and> k \<noteq> CrHeaderPrefix @ ''Filename''"
  have names: "filter ?P (map fst (Header (set_header r ''Authorization'' v))) =
      filter ?P (map fst (Header r))"
    by (rule set_header_names) (simp add: CrHeaderPrefix_def hasPrefix_def)
  have other: "k \<noteq> ''Authorization''" if "?P k" for k
    using that by (auto simp: CrHeaderPrefix_def hasPrefix_def)
  have vals: "map (\<lambda>k. k @ ''='' @ header_Get (set_header r ''Authorization'' v) k)
        (filter ?P (map fst (Header r))) =
      map (\<lambda>k. k @ ''='' @ header_Get r k) (filter ?P (map fst (Header r)))"
  proof (rule map_cong [OF refl])
    fix k assume "k \<in> set (filter ?P (map fst (Header r)))"
    then have "k \<noteq> ''Authorization''" by (intro other) simp
    then show "k @ ''='' @ header_Get (set_header r ''Authorization'' v) k = k @ ''='' @ header_Get r k"
      by (simp add: header_Get_set_header)
  qed
  show ?thesis
    unfolding getSignContent_def Let_def names vals by simp
qed

text \<open>The range over the header map may take any order: the sort makes them agree.\<close>

lemma getSignContent_order:
  assumes "mset (Header r) = mset (Header r')" and "distinct (map fst (Header r))"
    and "URLPath r = URLPath r'" and "Body r = Body r'"
  shows "getSignContent marshal r = getSignContent marshal r'"
proof -
  let ?P = "\<lambda>k. hasPrefix k CrHeaderPrefix \<and> k \<noteq> CrHeaderPrefix @ ''Filename''"
  let ?f = "\<lambda>k. k @ ''='' @ header_Get r' k"
  have "mset (map fst (Header r)) = mset (map fst (Header r'))"
    using assms(1) by simp
  then have "distinct (map fst (Header r'))"
    using assms(2) mset_eq_imp_distinct_iff by blast
  then have "map_of (Header r) = map_of (Header r')"
    using map_of_inject_set [OF assms(2)] mset_eq_setD [OF assms(1)] by blast
  then have get: "header_Get r = header_Get r'"
    by (simp add: header_Get_def fun_eq_iff)
  have "mset (map ?f (filter ?P (map fst (Header r)))) =
        mset (map ?f (filter ?P (map fst (Header r'))))"
    by (simp only: mset_map mset_filter assms(1))
  then have "sort (map ?f (filter ?P (map fst (Header r)))) =
        sort (map ?f (filter ?P (map fst (Header r'))))"
    by (intro properties_for_sort) simp_all
  then show ?thesis
    by (simp add: getSignContent_def get assms(3,4) Let_def)
qed

context auth_iface
begin

lemma CheckURI_SignURI:
  assumes "SignURI parse A t uri ttl = Inr u" and "int64 (t + ttl)" and "ttl = 0 \<or> now \<le> t + ttl"
  shows "fst (CheckURI A now u) = None"
  using assms
  by (auto simp: SignURI_def CheckURI_def query_Get_def Let_def int64_def add.commute
      split: sum.splits intro!: check_sign)

lemma CheckURI_sound:
  assumes "CheckURI A now u = (None, u')"
  shows "\<exists>e. query_Get (Query u) ''sign'' = Sign A (Path u) e \<and> (e = 0 \<or> now \<le> e)"
  using assms by (auto simp: CheckURI_def Let_def dest: check_sound)

lemma CheckRequest_SignRequest:
  assumes "int64 ttl" "int64 (t + ttl)" and "ttl = 0 \<or> 0 < ttl \<and> now \<le> t + ttl"
  shows "fst (CheckRequest marshal A now (SignRequest marshal A t r ttl)) = None"
proof -
  let ?e = "if ttl > 0 then ttl + t else ttl"
  let ?s = "Sign A (getSignContent marshal r) ?e"
  have "Check A now (getSignContent marshal r) ?s = None"
    by (rule check_sign) (use assms in \<open>auto simp: add.commute\<close>)
  then show ?thesis
    by (simp add: CheckRequest_def SignRequest_def map_of_set_header Let_def
        getSignContent_set_Authorization del: append.simps)
qed

end

section \<open>Properties\<close>

text \<open>
  C6. A request signed with a positive time to live is accepted until that time has passed,
  and one signed without is accepted for ever: the check computes the signed content of the
  request with its new \<open>Authorization\<close> header, which is the content that was signed.
\<close>

theorem CheckRequest_accepts_signed:
  assumes "int64 ttl" and "int64 (t + ttl)" and "ttl = 0 \<or> 0 < ttl \<and> now \<le> t + ttl"
  shows "fst (CheckRequest marshal (HMACAuth sha key) now
           (SignRequest marshal (HMACAuth sha key) t r ttl)) = None"
  by (rule hmac.CheckRequest_SignRequest [OF assms])

theorem CheckRequest_accepts_signed_witness:
  "fst (CheckRequest (\<lambda>p h b. p @ h @ b) (HMACAuth (\<lambda>k s. k @ s) ''k'') 105
     (SignRequest (\<lambda>p h b. p @ h @ b) (HMACAuth (\<lambda>k s. k @ s) ''k'') 100
        \<lparr>URLPath = ''/api'', Header = [(''X-Cr-Site'', [''1''])], Body = Some ''x''\<rparr> 10)) = None"
  by (rule CheckRequest_accepts_signed) (simp_all add: int64_def)

text \<open>
  A signed URL is accepted only if its \<open>sign\<close> is the signature of its path under the
  key for a time of expiry that has not passed (0 for none).
\<close>

theorem CheckURI_only_signed:
  assumes "CheckURI (HMACAuth sha key) now u = (None, u')"
  shows "\<exists>e. query_Get (Query u) ''sign'' = Sign (HMACAuth sha key) (Path u) e \<and> (e = 0 \<or> now \<le> e)"
  by (rule hmac.CheckURI_sound [OF assms])

theorem CheckURI_only_signed_witness:
  "let A = HMACAuth (\<lambda>k s. k @ s) ''k'';
       u = \<lparr>Path = ''/f'', Query = [''sign'' \<mapsto> [Sign A ''/f'' 200]]\<rparr>
   in \<exists>e. query_Get (Query u) ''sign'' = Sign A ''/f'' e \<and> (e = 0 \<or> 150 \<le> e)"
proof -
  let ?A = "HMACAuth (\<lambda>k s. k @ s) ''k''"
  let ?u = "\<lparr>Path = ''/f'', Query = [''sign'' \<mapsto> [Sign ?A ''/f'' 200]]\<rparr>"
  have "Check ?A 150 ''/f'' (Sign ?A ''/f'' 200) = None"
    by (rule hmac.check_sign) (simp_all add: int64_def)
  then have "CheckURI ?A 150 ?u = (None, ?u\<lparr>Query := (Query ?u)(''sign'' := None)\<rparr>)"
    by (simp add: CheckURI_def query_Get_def Let_def)
  from CheckURI_only_signed [OF this] show ?thesis by (simp add: Let_def)
qed

end
