(* ===== verification/Middleware.thy ===== *)
theory Middleware
  imports ModelsShare HmacAuth
begin

text \<open>
  \<open>middleware/\<close>: who a request acts as (\<open>auth.go\<close>), access to shares (\<open>share.go\<close>), and the
  guards of \<open>common.go\<close> and \<open>session.go\<close>. A middleware takes the request's context with the
  database and the cache, and answers whether the chain goes on. A failed type assertion or a
  nil dereference is \<open>Panics\<close>.
\<close>

section \<open>Contexts and answers\<close>

record gctx =
  c_method :: gostring
  c_params :: "gostring \<rightharpoonup> gostring"
  c_uid :: "uint option"
  c_session :: session
  c_user :: "user_row option"
  c_share :: "share_row option"
  c_webdav :: "webdav_row option"
  c_upload :: "upload_session option"
  c_objectID :: "uint option"
  c_db :: db
  c_cache :: "cache_obj memo"

datatype verdict =
    Next
  | AbortJSON int
  | AbortStatus int
  | AbortSilently
  | Panics

definition CodeCheckLogin :: int where "CodeCheckLogin = 401"
definition CodeNoPermissionErr :: int where "CodeNoPermissionErr = 403"
definition CodeNotFound :: int where "CodeNotFound = 404"
definition CodeAdminRequired :: int where "CodeAdminRequired = 40008"
definition CodePolicyNotAllowed :: int where "CodePolicyNotAllowed = 40006"
definition CodeFeatureNotEnabled :: int where "CodeFeatureNotEnabled = 40019"
definition CodeCredentialInvalid :: int where "CodeCredentialInvalid = 40020"
definition CodeParamErr :: int where "CodeParamErr = 40001"

definition param :: "gctx \<Rightarrow> gostring \<Rightarrow> gostring" where
  "param c k = (case c_params c k of None \<Rightarrow> [] | Some v \<Rightarrow> v)"

section \<open>auth.go\<close>

definition CurrentUser :: "gorm \<Rightarrow> (user_row \<Rightarrow> user_row) \<Rightarrow> gctx \<Rightarrow> verdict \<times> gctx" where
  "CurrentUser G preload c =
     (case c_uid c of
        None \<Rightarrow> (Next, c)
      | Some uid \<Rightarrow>
          (case GetActivateUserByID G preload uid (c_db c) of
             Inl _ \<Rightarrow> (Next, c)
           | Inr user \<Rightarrow> (Next, c\<lparr>c_user := Some user\<rparr>)))"

text \<open>The request that is checked is an argument, with its URL.\<close>

definition SignRequired ::
  "(gostring \<Rightarrow> gostring \<Rightarrow> gostring \<Rightarrow> gostring) \<Rightarrow> auth \<Rightarrow> unix_time \<Rightarrow> request \<Rightarrow> url \<Rightarrow> gctx \<Rightarrow> verdict \<times> gctx" where
  "SignRequired marshal A now r u c =
     (let err = (if c_method c \<in> {''PUT'', ''POST'', ''PATCH''} then fst (CheckRequest marshal A now r)
                 else fst (CheckURI A now u))
      in (if err \<noteq> None then AbortJSON CodeCredentialInvalid else Next, c))"

text \<open>
  \<open>uploadCallbackCheck\<close> answers a code, 0 for success. A session that is not in the cache is
  reported to nobody: the assertion on it panics.
\<close>

definition uploadCallbackCheck ::
  "gorm \<Rightarrow> (user_row \<Rightarrow> user_row) \<Rightarrow> unix_time \<Rightarrow> gostring \<Rightarrow> gctx \<Rightarrow> int option \<times> gctx" where
  "uploadCallbackCheck G preload now policyType c =
     (let sessionID = param c ''sessionID'' in
      if sessionID = [] then (Some CodeParamErr, c)
      else case cache_Get now (''callback_'' @ sessionID) (c_cache c) of
        Some (CObj (CSession callbackSession)) \<Rightarrow>
          (let c1 = c\<lparr>c_upload := Some callbackSession\<rparr> in
           if p_Type (us_Policy callbackSession) \<noteq> policyType then (Some CodePolicyNotAllowed, c1)
           else
             (let c2 = c1\<lparr>c_cache := cache_Deletes [sessionID] ''callback_'' (c_cache c1)\<rparr> in
              case GetActivateUserByID G preload (us_UID callbackSession) (c_db c2) of
                Inl _ \<Rightarrow> (Some CodeCheckLogin, c2)
              | Inr user \<Rightarrow> (Some 0, c2\<lparr>c_user := Some user\<rparr>)))
      | _ \<Rightarrow> (None, c))"

definition UseUploadSession ::
  "gorm \<Rightarrow> (user_row \<Rightarrow> user_row) \<Rightarrow> unix_time \<Rightarrow> gostring \<Rightarrow> gctx \<Rightarrow> verdict \<times> gctx" where
  "UseUploadSession G preload now policyType c =
     (case uploadCallbackCheck G preload now policyType c of
        (None, c') \<Rightarrow> (Panics, c')
      | (Some code, c') \<Rightarrow> (if code \<noteq> 0 then AbortStatus 401 else Next, c'))"

definition AuthRequired :: "gctx \<Rightarrow> verdict \<times> gctx" where
  "AuthRequired c =
     (case c_user c of Some user \<Rightarrow> (Next, c) | None \<Rightarrow> (AbortJSON CodeCheckLogin, c))"

definition IsAdmin :: "gctx \<Rightarrow> verdict \<times> gctx" where
  "IsAdmin c =
     (case c_user c of
        None \<Rightarrow> (Panics, c)
      | Some user \<Rightarrow>
          (if g_ID (u_Group user) \<noteq> 1 \<and> u_ID user \<noteq> 1 then (AbortJSON CodeAdminRequired, c) else (Next, c)))"

text \<open>The credentials of the request are an argument.\<close>

definition WebDAVAuth ::
  "gorm \<Rightarrow> (user_row \<Rightarrow> user_row) \<Rightarrow> (gostring \<times> gostring) option \<Rightarrow> gctx \<Rightarrow> verdict \<times> gctx" where
  "WebDAVAuth G preload basicAuth c =
     (if c_method c = ''OPTIONS'' then (Next, c)
      else case basicAuth of
        None \<Rightarrow> (AbortStatus 401, c)
      | Some (username, password) \<Rightarrow>
          (case GetActivateUserByEmail G preload username (c_db c) of
             Inl _ \<Rightarrow> (AbortStatus 401, c)
           | Inr expectedUser \<Rightarrow>
               (case GetWebdavByPassword G password (u_ID expectedUser) (c_db c) of
                  Inl _ \<Rightarrow> (AbortStatus 401, c)
                | Inr webdav \<Rightarrow>
                    (if \<not> g_WebDAVEnabled (u_Group expectedUser) then (AbortStatus 403, c)
                     else (Next, c\<lparr>c_user := Some expectedUser, c_webdav := Some webdav\<rparr>)))))"

section \<open>common.go and session.go\<close>

definition IsFunctionEnabled :: "gorm \<Rightarrow> gostring \<Rightarrow> gctx \<Rightarrow> verdict \<times> gctx" where
  "IsFunctionEnabled G key c =
     (if \<not> IsTrueVal (GetSettingByName G key (c_db c)) then (AbortJSON CodeFeatureNotEnabled, c) else (Next, c))"

definition HashID_mw :: "hashids \<Rightarrow> int \<Rightarrow> gctx \<Rightarrow> verdict \<times> gctx" where
  "HashID_mw H IDType c =
     (if param c ''id'' \<noteq> [] then
        (case DecodeHashID H (param c ''id'') IDType of
           Inr i \<Rightarrow> (Next, c\<lparr>c_objectID := Some i\<rparr>)
         | Inl _ \<Rightarrow> (AbortJSON CodeParamErr, c))
      else (Next, c))"

definition CSRFInit :: "gctx \<Rightarrow> verdict \<times> gctx" where
  "CSRFInit c = (Next, c\<lparr>c_session := insert ''CSRF'' (c_session c)\<rparr>)"

definition CSRFCheck :: "gctx \<Rightarrow> verdict \<times> gctx" where
  "CSRFCheck c = (if ''CSRF'' \<in> c_session c then (Next, c) else (AbortJSON CodeNoPermissionErr, c))"

section \<open>share.go\<close>

definition ShareAvailable ::
  "gorm \<Rightarrow> hashids \<Rightarrow> (user_row \<Rightarrow> user_row) \<Rightarrow> unix_time \<Rightarrow> gctx \<Rightarrow> verdict \<times> gctx" where
  "ShareAvailable G H preload now c =
     (let user = (case c_user c of Some u \<Rightarrow> u | None \<Rightarrow> NewAnonymousUser G (c_db c)) in
      case GetShareByHashID G H (param c ''id'') (c_db c) of
        None \<Rightarrow> (AbortJSON CodeNotFound, c)
      | Some share \<Rightarrow>
          (let (available, share') = IsAvailable G preload now share (c_db c) in
           if \<not> available then (AbortJSON CodeNotFound, c)
           else (Next, c\<lparr>c_user := Some user, c_share := Some share'\<rparr>)))"

definition unlock_key :: "share_row \<Rightarrow> gostring" where
  "unlock_key share = ''share_unlock_'' @ formatNat (s_ID share)"

definition CheckShareUnlocked :: "gctx \<Rightarrow> verdict \<times> gctx" where
  "CheckShareUnlocked c =
     (case c_share c of
        None \<Rightarrow> (AbortSilently, c)
      | Some share \<Rightarrow>
          (if s_Password share \<noteq> [] \<and> unlock_key share \<notin> c_session c then (AbortJSON CodeNoPermissionErr, c)
           else (Next, c)))"

definition BeforeShareDownload :: "gorm \<Rightarrow> unix_time \<Rightarrow> gctx \<Rightarrow> verdict \<times> gctx" where
  "BeforeShareDownload G now c =
     (case (c_share c, c_user c) of
        (Some share, Some user) \<Rightarrow>
          (if CanBeDownloadBy user \<noteq> None then (AbortJSON CodeNoPermissionErr, c)
           else
             (let (share', ses', ch', d') =
                DownloadBy G now share user (c_session c) (c_cache c) (c_db c)
              in (Next, c\<lparr>c_share := Some share', c_session := ses', c_cache := ch', c_db := d'\<rparr>)))
      | _ \<Rightarrow> (AbortSilently, c))"

definition ShareCanPreview :: "gctx \<Rightarrow> verdict \<times> gctx" where
  "ShareCanPreview c =
     (case c_share c of
        Some share \<Rightarrow> (if s_PreviewEnabled share then (Next, c) else (AbortJSON CodeNoPermissionErr, c))
      | None \<Rightarrow> (AbortSilently, c))"

definition ShareOwner :: "gorm \<Rightarrow> (user_row \<Rightarrow> user_row) \<Rightarrow> gctx \<Rightarrow> verdict \<times> gctx" where
  "ShareOwner G preload c =
     (case c_user c of
        None \<Rightarrow> (AbortJSON CodeCheckLogin, c)
      | Some user \<Rightarrow>
          (case c_share c of
             Some share \<Rightarrow>
               (let share' = Creator G preload share (c_db c) in
                if u_ID (s_User share') \<noteq> u_ID user then (AbortJSON CodeNotFound, c\<lparr>c_share := Some share'\<rparr>)
                else (Next, c\<lparr>c_share := Some share'\<rparr>))
           | None \<Rightarrow> (Next, c)))"

section \<open>A download through the middlewares\<close>

text \<open>
  The chain in front of a download (\<open>routers/router.go\<close>): the share must be available, must
  be unlocked, and the download is counted.
\<close>

definition chain :: "(gctx \<Rightarrow> verdict \<times> gctx) list \<Rightarrow> gctx \<Rightarrow> verdict \<times> gctx" where
  "chain hs c = foldl (\<lambda>(v, c) h. if v = Next then h c else (v, c)) (Next, c) hs"

definition visit_share ::
  "gorm \<Rightarrow> hashids \<Rightarrow> (user_row \<Rightarrow> user_row) \<Rightarrow> unix_time \<Rightarrow> gctx \<Rightarrow> verdict \<times> gctx" where
  "visit_share G H preload now c =
     chain [ShareAvailable G H preload now, CheckShareUnlocked, BeforeShareDownload G now] c"

text \<open>A series of requests, each at its time, with the context it starts from.\<close>

primrec run_visits ::
  "gorm \<Rightarrow> hashids \<Rightarrow> (user_row \<Rightarrow> user_row) \<Rightarrow> (unix_time \<times> gctx) list \<Rightarrow> db \<Rightarrow> cache_obj memo \<Rightarrow>
   db \<times> cache_obj memo" where
  "run_visits G H preload [] d ch = (d, ch)"
| "run_visits G H preload (r # rs) d ch =
     (let c' = snd (visit_share G H preload (fst r) ((snd r)\<lparr>c_db := d, c_cache := ch\<rparr>))
      in run_visits G H preload rs (c_db c') (c_cache c'))"

lemma IsAvailable_same:
  assumes "IsAvailable G preload now share d = (ok, share')"
  shows "s_ID share' = s_ID share" and "s_RemainDownloads share' = s_RemainDownloads share"
    and "s_Downloads share' = s_Downloads share" and "ok \<Longrightarrow> s_RemainDownloads share \<noteq> 0"
  using assms
  by (auto simp: IsAvailable_def Let_def Creator_def SourceFolder_def SourceFile_def
      split: if_splits option.splits sum.splits list.splits)

text \<open>What one download writes to the table of shares.\<close>

definition count_download :: "share_row \<Rightarrow> share_row \<Rightarrow> share_row" where
  "count_download s0 s =
     (if s_ID s = s_ID s0 then
        s\<lparr>s_Downloads := s_Downloads s0 + 1,
          s_RemainDownloads := (if s_RemainDownloads s0 > 0 then s_RemainDownloads s0 - 1 else s_RemainDownloads s0)\<rparr>
      else s)"

context gorm_db
begin

lemma Share_Update_db:
  assumes "snd (Share_Update G share f d) = d'"
  shows "d' = d \<or> shares d' = map (\<lambda>s. if s_ID s = s_ID share then f s else s) (shares d)"
proof (cases "by_key (s_ID share) (Updates (Shares G) (\<lambda>s. s_ID s = s_ID share) (\<lambda>s. Some (f s)) d)")
  case (Inl e)
  then show ?thesis using assms by (simp add: Share_Update_def write1_def)
next
  case (Inr d1)
  then have "Updates (Shares G) (\<lambda>s. s_ID s = s_ID share) (\<lambda>s. Some (f s)) d = Inr d1"
    by (simp add: by_key_def split: if_splits)
  from shares.update_rows [OF this] have "shares d1 = map (\<lambda>s. if s_ID s = s_ID share then f s else s) (shares d)"
    by auto
  with Inr assms show ?thesis by (simp add: Share_Update_def write1_def)
qed

lemma DownloadBy_db:
  assumes "DownloadBy G now share user ses ch d = (share', ses', ch', d')"
  shows "d' = d \<or> shares d' = map (count_download share) (shares d)"
proof (cases "WasDownloadedBy now share user ses ch")
  case True
  then show ?thesis using assms by (simp add: DownloadBy_def)
next
  case False
  then have "d' = snd (Downloaded G share d)"
    using assms by (auto simp: DownloadBy_def split: if_splits prod.splits)
  have "d' = d \<or> shares d' = map (\<lambda>s. if s_ID s = s_ID share then
      s\<lparr>s_Downloads := s_Downloads share + 1,
        s_RemainDownloads := (if s_RemainDownloads share > 0 then s_RemainDownloads share - 1
                              else s_RemainDownloads share)\<rparr> else s) (shares d)"
    by (rule Share_Update_db) (simp add: \<open>d' = snd (Downloaded G share d)\<close> Downloaded_def Let_def)
  then show ?thesis by (simp add: count_download_def [abs_def])
qed

lemma visit_share_db:
  assumes "visit_share G H preload now c = (v, c')"
  shows "c_db c' = c_db c \<or>
    (\<exists>s0\<in>set (shares (c_db c)). s_RemainDownloads s0 \<noteq> 0 \<and> shares (c_db c') = map (count_download s0) (shares (c_db c)))"
proof -
  obtain v1 c1 where c1: "ShareAvailable G H preload now c = (v1, c1)" by fastforce
  show ?thesis
  proof (cases "v1 = Next \<and> fst (CheckShareUnlocked c1) = Next \<and> c_share c1 \<noteq> None \<and> c_user c1 \<noteq> None")
    case False
    have "c_db c1 = c_db c"
      using c1 by (auto simp: ShareAvailable_def Let_def split: option.splits if_splits prod.splits)
    moreover have "c_db c' = c_db c1"
      using assms False c1
      by (auto simp: visit_share_def chain_def CheckShareUnlocked_def BeforeShareDownload_def
          split: option.splits if_splits)
    ultimately show ?thesis by simp
  next
    case True
    then obtain share user where su: "c_share c1 = Some share" "c_user c1 = Some user" by blast
    from True c1 obtain s0 where s0: "GetShareByHashID G H (param c ''id'') (c_db c) = Some s0"
      "IsAvailable G preload now s0 (c_db c) = (True, share)" and db: "c_db c1 = c_db c"
      using su by (auto simp: ShareAvailable_def Let_def split: option.splits if_splits prod.splits)
    from s0(1) have in_d: "s0 \<in> set (shares (c_db c))"
      by (auto simp: GetShareByHashID_def dest: shares.first_row split: sum.splits)
    note same = IsAvailable_same [OF s0(2)]
    have c2: "CheckShareUnlocked c1 = (Next, c1)"
      using True by (auto simp: CheckShareUnlocked_def split: option.splits if_splits)
    obtain share' ses' ch' d' where dl: "DownloadBy G now share user (c_session c1) (c_cache c1) (c_db c1) = (share', ses', ch', d')"
      by (metis prod_cases4)
    have "c_db c' = c_db c \<or> c_db c' = d'"
      using assms True c1 c2 su dl db
      by (auto simp: visit_share_def chain_def BeforeShareDownload_def split: if_splits)
    moreover have "count_download share = count_download s0"
      using same by (simp add: count_download_def fun_eq_iff)
    ultimately show ?thesis
      using DownloadBy_db [OF dl] in_d same(4) db by auto
  qed
qed

lemma run_visits_counts:
  assumes "distinct (map s_ID (shares d))" and "s \<in> set (shares d)" and "0 \<le> s_RemainDownloads s"
    and "run_visits G H preload rs d ch = (d', ch')"
  shows "\<exists>s'\<in>set (shares d'). s_ID s' = s_ID s \<and> 0 \<le> s_RemainDownloads s' \<and>
    s_Downloads s' + s_RemainDownloads s' = s_Downloads s + s_RemainDownloads s"
  using assms
proof (induction rs arbitrary: d ch s)
  case Nil
  then show ?case by auto
next
  case (Cons r rs)
  obtain v c' where v: "visit_share G H preload (fst r) ((snd r)\<lparr>c_db := d, c_cache := ch\<rparr>) = (v, c')" by fastforce
  have run: "run_visits G H preload rs (c_db c') (c_cache c') = (d', ch')"
    using Cons.prems(4) v by simp
  from visit_share_db [OF v] show ?case
  proof
    assume "c_db c' = c_db ((snd r)\<lparr>c_db := d, c_cache := ch\<rparr>)"
    then show ?thesis using Cons.IH [OF Cons.prems(1-3)] run by simp
  next
    assume "\<exists>s0\<in>set (shares (c_db ((snd r)\<lparr>c_db := d, c_cache := ch\<rparr>))). s_RemainDownloads s0 \<noteq> 0 \<and>
      shares (c_db c') = map (count_download s0) (shares (c_db ((snd r)\<lparr>c_db := d, c_cache := ch\<rparr>)))"
    then obtain s0 where s0: "s0 \<in> set (shares d)" "s_RemainDownloads s0 \<noteq> 0"
      "shares (c_db c') = map (count_download s0) (shares d)" by auto
    let ?s = "count_download s0 s"
    have ids: "s_ID (count_download s0 x) = s_ID x" for x by (simp add: count_download_def)
    have "distinct (map s_ID (shares (c_db c')))"
      using Cons.prems(1) by (simp add: s0(3) ids comp_def)
    moreover have "?s \<in> set (shares (c_db c'))" using Cons.prems(2) s0(3) by simp
    moreover have "s_ID s = s_ID s0 \<Longrightarrow> s = s0"
      using distinct_map_eqD [OF Cons.prems(1,2) s0(1)] by simp
    then have "0 \<le> s_RemainDownloads ?s" "s_Downloads ?s + s_RemainDownloads ?s = s_Downloads s + s_RemainDownloads s"
      using Cons.prems(3) s0(2) by (auto simp: count_download_def)
    ultimately show ?thesis using Cons.IH [of "c_db c'" ?s "c_cache c'"] run ids by fastforce
  qed
qed

end

section \<open>Properties\<close>

text \<open>
  C16. Whatever requests reach the download chain, by whom, when and with which session, a
  share that allows \<open>n\<close> more downloads is counted at most \<open>n\<close> more times: the counted and the
  remaining downloads keep their sum, and the remaining ones never become negative.
\<close>

theorem share_downloads_bounded:
  assumes "gorm_db G" and "distinct (map s_ID (shares d))" and "s \<in> set (shares d)"
    and "0 \<le> s_RemainDownloads s"
    and "run_visits G H preload rs d ch = (d', ch')"
  shows "\<exists>s'\<in>set (shares d'). s_ID s' = s_ID s \<and> 0 \<le> s_RemainDownloads s' \<and>
    s_Downloads s' + s_RemainDownloads s' = s_Downloads s + s_RemainDownloads s"
  by (rule gorm_db.run_visits_counts [OF assms])

definition share_db :: db where
  "share_db = empty_db\<lparr>
     users := [zero_user\<lparr>u_ID := 7, u_Email := ''u'', u_Status := Baned\<rparr>, zero_user\<lparr>u_ID := 8, u_Email := ''v''\<rparr>],
     files := [zero_file\<lparr>f_ID := 1, f_Name := ''a'', f_UserID := 8\<rparr>],
     shares := [zero_share\<lparr>s_ID := 3, s_UserID := 8, s_SourceID := 1, s_RemainDownloads := 1\<rparr>],
     webdavs := [zero_webdav\<lparr>w_ID := 1, w_UserID := 8, w_Password := ''secret''\<rparr>]\<rparr>"

definition share_request :: gctx where
  "share_request = \<lparr>c_method = ''PUT'', c_params = [''id'' \<mapsto> HashID dot_hashids 3 ShareID], c_uid = None,
     c_session = {}, c_user = Some (zero_user\<lparr>u_ID := 8, u_Group := zero_group\<lparr>g_ShareDownload := True\<rparr>\<rparr>),
     c_share = None, c_webdav = None, c_upload = None, c_objectID = None, c_db = share_db, c_cache = memo_new\<rparr>"

lemmas share_db_simps = share_db_def empty_db_def zero_user_def zero_file_def zero_share_def zero_webdav_def
  zero_group_def Active_def Baned_def

theorem share_downloads_bounded_witness:
  "\<exists>s'\<in>set (shares (fst (run_visits sound_gorm dot_hashids (\<lambda>u. u) [(0, share_request), (1, share_request)] share_db memo_new))).
     s_ID s' = 3 \<and> 0 \<le> s_RemainDownloads s' \<and> s_Downloads s' + s_RemainDownloads s' = 1"
proof -
  obtain d' ch' where r: "run_visits sound_gorm dot_hashids (\<lambda>u. u) [(0, share_request), (1, share_request)] share_db memo_new = (d', ch')"
    by fastforce
  have "\<exists>s'\<in>set (shares d'). s_ID s' = s_ID (shares share_db ! 0) \<and> 0 \<le> s_RemainDownloads s' \<and>
    s_Downloads s' + s_RemainDownloads s' = s_Downloads (shares share_db ! 0) + s_RemainDownloads (shares share_db ! 0)"
    by (rule share_downloads_bounded [OF sound_gorm_laws _ _ _ r]) (simp_all add: share_db_simps)
  then show ?thesis unfolding r by (simp add: share_db_simps)
qed

text \<open>
  Outside \<open>OPTIONS\<close>, a WebDAV request that passes acts as an active user with the given
  e-mail address, who has a WebDAV account with the given password and whose group may use
  WebDAV.
\<close>

theorem WebDAVAuth_sound:
  assumes "gorm_db G" and "c_method c \<noteq> ''OPTIONS''"
    and "WebDAVAuth G preload basicAuth c = (Next, c')"
  shows "\<exists>username password row acc. basicAuth = Some (username, password) \<and>
    row \<in> set (users (c_db c)) \<and> u_Status row = Active \<and> u_Email row = username \<and>
    acc \<in> set (webdavs (c_db c)) \<and> w_UserID acc = u_ID (preload row) \<and> w_Password acc = password \<and>
    g_WebDAVEnabled (u_Group (preload row)) \<and>
    c' = c\<lparr>c_user := Some (preload row), c_webdav := Some acc\<rparr>"
proof -
  from assms(2,3) obtain username password user acc where
    b: "basicAuth = Some (username, password)"
    and u: "GetActivateUserByEmail G preload username (c_db c) = Inr user"
    and w: "GetWebdavByPassword G password (u_ID user) (c_db c) = Inr acc"
    and r: "g_WebDAVEnabled (u_Group user)" "c' = c\<lparr>c_user := Some user, c_webdav := Some acc\<rparr>"
    by (auto simp: WebDAVAuth_def split: option.splits prod.splits sum.splits if_splits)
  from u obtain row where row: "First (Users G) (\<lambda>u. u_Status u = Active \<and> u_Email u = username) (c_db c) = Inr row"
    "user = preload row"
    by (auto simp: GetActivateUserByEmail_def map_ok_def split: sum.splits)
  from gorm_table.first_row [OF gorm_db.users [OF assms(1)] row(1)]
    gorm_table.first_row [OF gorm_db.webdavs [OF assms(1)] w [unfolded GetWebdavByPassword_def]]
  show ?thesis using b r row(2) by auto
qed

theorem WebDAVAuth_sound_witness:
  "g_WebDAVEnabled (u_Group ((\<lambda>u. u\<lparr>u_Group := zero_group\<lparr>g_WebDAVEnabled := True\<rparr>\<rparr>) (users share_db ! 1))) \<and>
   fst (WebDAVAuth sound_gorm (\<lambda>u. u\<lparr>u_Group := zero_group\<lparr>g_WebDAVEnabled := True\<rparr>\<rparr>)
     (Some (''v'', ''secret'')) share_request) = Next"
proof -
  let ?pre = "\<lambda>u. u\<lparr>u_Group := zero_group\<lparr>g_WebDAVEnabled := True\<rparr>\<rparr>"
  have n: "fst (WebDAVAuth sound_gorm ?pre (Some (''v'', ''secret'')) share_request) = Next"
    by (simp add: WebDAVAuth_def GetActivateUserByEmail_def GetWebdavByPassword_def share_request_def
        sound_simps share_db_simps)
  then obtain c' where "WebDAVAuth sound_gorm ?pre (Some (''v'', ''secret'')) share_request = (Next, c')"
    by (metis prod.collapse)
  from WebDAVAuth_sound [OF sound_gorm_laws _ this] n show ?thesis by (simp add: share_request_def)
qed

text \<open>
  A session whose user is banned, deleted or not activated is not treated as logged out:
  unless the query fails, the request goes on with the zero user, which the login check
  accepts.
\<close>

theorem banned_session_passes_login:
  assumes "gorm_db G" and "c_uid c = Some uid"
    and "\<forall>u\<in>set (users (c_db c)). u_ID u = uid \<longrightarrow> u_Status u \<noteq> Active"
    and "Find (Users G) (\<lambda>u. u_Status u = Active \<and> u_ID u = uid) (c_db c) = Inr rows"
  shows "chain [CurrentUser G preload, AuthRequired] c = (Next, c\<lparr>c_user := Some zero_user\<rparr>)"
proof -
  from gorm_table.find_set [OF gorm_db.users [OF assms(1)] assms(4)] assms(3) have "set rows = {}" by auto
  then have "rows = []" by simp
  then show ?thesis
    using assms(2,4)
    by (simp add: chain_def CurrentUser_def AuthRequired_def GetActivateUserByID_def find_struct_def)
qed

theorem banned_session_passes_login_witness:
  "fst (chain [CurrentUser sound_gorm (\<lambda>u. u), AuthRequired] (share_request\<lparr>c_uid := Some 7, c_user := None\<rparr>)) = Next \<and>
   u_Status (users share_db ! 0) = Baned"
  using banned_session_passes_login [OF sound_gorm_laws, of "share_request\<lparr>c_uid := Some 7, c_user := None\<rparr>" 7]
  by (simp add: share_request_def sound_simps share_db_simps)

end
