(* ===== verification/ServiceCore.thy ===== *)
theory ServiceCore
  imports FsUpload Middleware
begin

text \<open>
  What the services of \<open>service/\<close> share: their answers (\<open>serializer/response.go\<close>,
  \<open>serializer/error.go\<close>), the state of the server between requests, and the file system a request
  works with.

  A service takes the user of the request, its arguments and the server, and gives the answer
  and the server; \<open>None\<close> is a panic, or a call that does not return. The messages of
  answers are left out.
\<close>

section \<open>Answers\<close>

definition CodeUploadFailed :: int where "CodeUploadFailed = 40002"
definition CodeCreateFolderFailed :: int where "CodeCreateFolderFailed = 40003"
definition CodeGroupNotAllowed :: int where "CodeGroupNotAllowed = 40007"
definition CodeUploadSessionExpired :: int where "CodeUploadSessionExpired = 400011"
definition CodeInvalidChunkIndex :: int where "CodeInvalidChunkIndex = 400012"
definition CodeInvalidContentLength :: int where "CodeInvalidContentLength = 400013"
definition CodeBatchSourceSize :: int where "CodeBatchSourceSize = 40014"
definition CodeInternalSetting :: int where "CodeInternalSetting = 50005"

text \<open>The code of an error that is an \<open>AppError\<close>.\<close>

definition app_code :: "fs_error \<Rightarrow> int option" where
  "app_code e =
     (case e of
        ErrInsertFileRecord \<Rightarrow> Some 50001
      | ErrFileExisted \<Rightarrow> Some 40004
      | ErrFileUploadSessionExisted \<Rightarrow> Some 40004
      | ErrFolderExisted \<Rightarrow> Some 40004
      | ErrPathNotExist \<Rightarrow> Some 404
      | ErrObjectNotExist \<Rightarrow> Some 404
      | ErrIO \<Rightarrow> Some 50004
      | ErrDBListObjects \<Rightarrow> Some 50001
      | ErrDBDeleteObjects \<Rightarrow> Some 50001
      | AppError c \<Rightarrow> Some c
      | _ \<Rightarrow> None)"

record 'd response =
  r_Code :: int
  r_Data :: "'d option"

definition Err :: "int \<Rightarrow> fs_error option \<Rightarrow> 'd response" where
  "Err errCode err =
     (let code = (case err of None \<Rightarrow> errCode
                  | Some e \<Rightarrow> (case app_code e of Some c \<Rightarrow> c | None \<Rightarrow> errCode))
      in \<lparr>r_Code = code, r_Data = None\<rparr>)"

definition ParamErr :: "fs_error option \<Rightarrow> 'd response" where
  "ParamErr err = Err CodeParamErr err"

definition DBErr :: "fs_error option \<Rightarrow> 'd response" where
  "DBErr err = Err CodeDBError err"

section \<open>The server and its file systems\<close>

record 'p server =
  sv_db :: db
  sv_cache :: "cache_obj memo"
  sv_disk :: 'p

definition server_of :: "'p world \<Rightarrow> 'p server" where
  "server_of w = \<lparr>sv_db = wdb w, sv_cache = wcache w, sv_disk = wdisk w\<rparr>"

type_synonym ('d, 'p) reply = "('d response \<times> 'p server) option"

definition reply :: "'d response \<Rightarrow> 'p world \<Rightarrow> ('d, 'p) reply" where
  "reply r w = Some (r, server_of w)"

abbreviation ok :: "'d option \<Rightarrow> 'd response" where
  "ok d \<equiv> \<lparr>r_Code = 0, r_Data = d\<rparr>"

text \<open>An error of the file system, unless it is a panic.\<close>

definition reply_err :: "int \<Rightarrow> fs_error \<Rightarrow> 'p world \<Rightarrow> ('d, 'p) reply" where
  "reply_err code e w = (if e = ErrPanic then None else reply (Err code (Some e)) w)"

text \<open>The file system of a request, or the answer when there is none.\<close>

definition with_fs ::
  "'p sys \<Rightarrow> user_row option \<Rightarrow> 'p server \<Rightarrow> ('p world \<Rightarrow> ('d, 'p) reply) \<Rightarrow> ('d, 'p) reply" where
  "with_fs S user sv k =
     (case NewFileSystemFromContext S user (sv_db sv) (sv_cache sv) (sv_disk sv) of
        (Some e, w) \<Rightarrow> reply_err CodePolicyNotAllowed e w
      | (None, w) \<Rightarrow> k w)"

text \<open>An operation whose success carries no data.\<close>

definition finish :: "int \<Rightarrow> fs_error option \<times> 'p world \<Rightarrow> ('d, 'p) reply" where
  "finish code res = (case res of (Some e, w) \<Rightarrow> reply_err code e w | (None, w) \<Rightarrow> reply (ok None) w)"

lemmas service_simps = with_fs_def finish_def reply_err_def reply_def server_of_def

end
