(* ===== verification/ModelsNode.thy ===== *)
theory ModelsNode
  imports ModelsUser
begin

text \<open>
  \<open>models/download.go\<close> and \<open>models/node.go\<close>: the rows of offline downloads and of the nodes that run
  them. \<open>Save\<close> of gorm is a parameter; the errors of the hooks \<open>AfterFind\<close> are among those of the
  statements.
\<close>

section \<open>Downloads (models/download.go)\<close>

definition Download_Create :: "gorm \<Rightarrow> download_row \<Rightarrow> db \<Rightarrow> (db_error + uint) \<times> db" where
  "Download_Create G dl d =
     (case Create (Downloads G) dl d of Inl e \<Rightarrow> (Inl e, d) | Inr (r, d') \<Rightarrow> (Inr (dl_ID r), d'))"

definition Download_Save ::
  "(download_row \<Rightarrow> db \<Rightarrow> db_error + db) \<Rightarrow> download_row \<Rightarrow> db \<Rightarrow> (model_error + unit) \<times> db" where
  "Download_Save save dl d = write1 (save dl d) d"

text \<open>Pages start at 1 and have ten rows; page 0 is everything. The error of the query is dropped.\<close>

definition GetDownloadsByStatusAndUser :: "gorm \<Rightarrow> uint \<Rightarrow> uint \<Rightarrow> int list \<Rightarrow> db \<Rightarrow> download_row list" where
  "GetDownloadsByStatusAndUser G page uid status d =
     (let sel = (\<lambda>r. dl_UserID r = uid \<and> dl_Status r \<in> set status);
          res = (if page > 0 then Page (Downloads G) ''update_at DESC'' 10 (int ((page - 1) * 10)) sel d
                 else Find (Downloads G) sel d)
      in case res of Inl _ \<Rightarrow> [] | Inr rs \<Rightarrow> rs)"

definition GetDownloadByID :: "gorm \<Rightarrow> gostring \<Rightarrow> int \<Rightarrow> db \<Rightarrow> db_error + download_row" where
  "GetDownloadByID G gid uid d =
     find_struct zero_download (Find (Downloads G) (\<lambda>r. int (dl_UserID r) = uid \<and> dl_GID r = gid) d)"

definition GetDownloadByGid :: "gorm \<Rightarrow> gostring \<Rightarrow> uint \<Rightarrow> db \<Rightarrow> db_error + download_row" where
  "GetDownloadByGid G gid uid d = First (Downloads G) (\<lambda>r. dl_UserID r = uid \<and> dl_GID r = gid) d"

definition GetDownloadsByStatus :: "gorm \<Rightarrow> int list \<Rightarrow> db \<Rightarrow> download_row list" where
  "GetDownloadsByStatus G status d =
     (case Find (Downloads G) (\<lambda>r. dl_Status r \<in> set status) d of Inl _ \<Rightarrow> [] | Inr rs \<Rightarrow> rs)"

text \<open>
  The owner: \<open>loaded\<close> is the user the struct carries. As the code has it, the user looked up is
  given back when the search failed, and is then zero.
\<close>

definition GetOwner ::
  "gorm \<Rightarrow> (user_row \<Rightarrow> user_row) \<Rightarrow> user_row option \<Rightarrow> download_row \<Rightarrow> db \<Rightarrow> user_row option" where
  "GetOwner G load loaded dl d =
     (case loaded of
        Some u \<Rightarrow> Some u
      | None \<Rightarrow> (case GetUserByID G load (dl_UserID dl) d of Inl _ \<Rightarrow> Some zero_user | Inr _ \<Rightarrow> None))"

definition Download_Delete :: "gorm \<Rightarrow> download_row \<Rightarrow> db \<Rightarrow> (model_error + unit) \<times> db" where
  "Download_Delete G dl d =
     write1 (map_ok snd (by_key (dl_ID dl) (Delete (Downloads G) (\<lambda>r. dl_ID r = dl_ID dl) d))) d"

definition GetNodeID :: "download_row \<Rightarrow> uint" where
  "GetNodeID dl = (if dl_NodeID dl = 0 then 1 else dl_NodeID dl)"

section \<open>Nodes (models/node.go)\<close>

definition NodeActive :: int where "NodeActive = 0"
definition NodeSuspend :: int where "NodeSuspend = 1"
definition SlaveNodeType :: int where "SlaveNodeType = 0"
definition MasterNodeType :: int where "MasterNodeType = 1"

definition GetNodesByStatus :: "gorm \<Rightarrow> int list \<Rightarrow> db \<Rightarrow> db_error + node_row list" where
  "GetNodesByStatus G status d = Find (Nodes G) (\<lambda>r. n_Status r \<in> set status) d"

definition GetNodeByID :: "gorm \<Rightarrow> uint \<Rightarrow> db \<Rightarrow> db_error + node_row" where
  "GetNodeByID G i d = First (Nodes G) (\<lambda>r. n_ID r = i) d"

text \<open>The struct has the new status whether or not the statement succeeds.\<close>

definition Node_SetStatus ::
  "gorm \<Rightarrow> node_row \<Rightarrow> int \<Rightarrow> db \<Rightarrow> (model_error + unit) \<times> node_row \<times> db" where
  "Node_SetStatus G node status d =
     (let (res, d') = write1 (by_key (n_ID node)
            (Updates (Nodes G) (\<lambda>r. n_ID r = n_ID node) (\<lambda>r. Some (r\<lparr>n_Status := status\<rparr>)) d)) d
      in (res, node\<lparr>n_Status := status\<rparr>, d'))"

end
