(* ===== verification/Balancer.thy ===== *)
theory Balancer
  imports Prelude
begin

text \<open>
  \<open>pkg/balancer\<close>: the round-robin balancer. Its counter is a \<open>uint64\<close> that wraps around.
  \<open>nodes\<close> is an \<open>interface{}\<close> that may not be a slice: \<open>None\<close> is a value of another kind.
\<close>

datatype balancer_error = ErrInputNotSlice | ErrNoAvailableNode

record round_robin =
  current :: u64

definition NewBalancer :: "string \<Rightarrow> round_robin" where
  "NewBalancer strategy = \<lparr>current = 0\<rparr>"

definition NextIndex :: "nat \<Rightarrow> round_robin \<Rightarrow> nat \<times> round_robin" where
  "NextIndex tot r =
     (let c = current r + 1 in (unat c mod tot, r\<lparr>current := c\<rparr>))"

definition NextPeer :: "'a list option \<Rightarrow> round_robin \<Rightarrow> (balancer_error + 'a) \<times> round_robin" where
  "NextPeer nodes r =
     (case nodes of
        None \<Rightarrow> (Inl ErrInputNotSlice, r)
      | Some v \<Rightarrow>
          (if v = [] then (Inl ErrNoAvailableNode, r)
           else let (next, r') = NextIndex (length v) r in (Inr (v ! next), r')))"

text \<open>A run of calls on the same slice.\<close>

fun peers :: "nat \<Rightarrow> 'a list \<Rightarrow> round_robin \<Rightarrow> 'a list" where
  "peers 0 v r = []"
| "peers (Suc n) v r =
     (case NextPeer (Some v) r of
        (Inl _, r') \<Rightarrow> []
      | (Inr x, r') \<Rightarrow> x # peers n v r')"

lemma NextPeer_ok:
  "v \<noteq> [] \<Longrightarrow>
   NextPeer (Some v) r = (Inr (v ! (unat (current r + 1) mod length v)), r\<lparr>current := current r + 1\<rparr>)"
  by (simp add: NextPeer_def NextIndex_def Let_def)

lemma unat_succ:
  "unat (c :: u64) + 1 < 2 ^ 64 \<Longrightarrow> unat (c + 1) = unat c + 1"
  using unat_add_fits [of c 1] by simp

text \<open>Without wrap-around the picks walk round the slice.\<close>

lemma peers_eq:
  "v \<noteq> [] \<Longrightarrow> unat (current r) + n < 2 ^ 64 \<Longrightarrow>
   peers n v r = map (\<lambda>i. v ! ((unat (current r) + 1 + i) mod length v)) [0..<n]"
proof (induction n arbitrary: r)
  case 0
  then show ?case by simp
next
  case (Suc n)
  have c: "unat (current r + 1) = unat (current r) + 1"
    by (rule unat_succ) (use Suc.prems(2) in simp)
  have "peers (Suc n) v r = v ! ((unat (current r) + 1) mod length v) # peers n v (r\<lparr>current := current r + 1\<rparr>)"
    using Suc.prems(1) c by (simp add: NextPeer_ok)
  also have "peers n v (r\<lparr>current := current r + 1\<rparr>) =
      map (\<lambda>i. v ! ((unat (current r) + 1 + 1 + i) mod length v)) [0..<n]"
    using Suc.IH [of "r\<lparr>current := current r + 1\<rparr>"] Suc.prems c by simp
  also have "v ! ((unat (current r) + 1) mod length v) # \<dots> =
      map (\<lambda>i. v ! ((unat (current r) + 1 + i) mod length v)) [0..<Suc n]"
    by (simp add: upt_conv_Cons map_Suc_upt [symmetric] del: upt_Suc)
  finally show ?case .
qed

text \<open>Any \<open>n\<close> consecutive numbers hit every residue modulo \<open>n\<close> once.\<close>

lemma residue_le:
  fixes n :: nat
  assumes "y < n" and "x \<le> y" and "(c + x) mod n = (c + y) mod n"
  shows "x = y"
proof -
  have "n dvd (c + y) - (c + x)"
    using assms(2,3) mod_eq_dvd_iff_nat [of "c + x" "c + y" n] by simp
  then show ?thesis using assms(1,2) by (auto dest: dvd_imp_le)
qed

lemma residues_bij:
  assumes "0 < (n :: nat)"
  shows "bij_betw (\<lambda>i. (c + i) mod n) {0..<n} {0..<n}"
proof -
  have inj: "inj_on (\<lambda>i. (c + i) mod n) {0..<n}"
  proof (rule inj_onI)
    fix x y assume "x \<in> {0..<n}" "y \<in> {0..<n}" "(c + x) mod n = (c + y) mod n"
    then show "x = y"
      using residue_le [of y n x c] residue_le [of x n y c] by (cases "x \<le> y") auto
  qed
  moreover have "(\<lambda>i. (c + i) mod n) ` {0..<n} \<subseteq> {0..<n}"
    using assms by auto
  ultimately have "(\<lambda>i. (c + i) mod n) ` {0..<n} = {0..<n}"
    by (intro card_subset_eq) (simp_all add: card_image)
  with inj show ?thesis by (simp add: bij_betw_def)
qed

text \<open>So one round over the slice picks every index exactly once.\<close>

lemma peers_round:
  assumes "v \<noteq> []" and "unat (current r) + length v < 2 ^ 64"
  shows "mset (peers (length v) v r) = mset v"
proof -
  let ?n = "length v" and ?g = "\<lambda>i. (unat (current r) + 1 + i) mod length v"
  have "bij_betw ?g {0..<?n} {0..<?n}"
    by (rule residues_bij) (use assms(1) in simp)
  then have "image_mset ?g (mset_set {0..<?n}) = mset_set {0..<?n}"
    by (simp add: bij_betw_def image_mset_mset_set)
  then have "image_mset ((!) v) (image_mset ?g (mset [0..<?n])) = image_mset ((!) v) (mset [0..<?n])"
    by simp
  moreover have "mset v = image_mset ((!) v) (mset [0..<?n])"
    by (metis map_nth mset_map)
  moreover have "peers ?n v r = map ((!) v \<circ> ?g) [0..<?n]"
    using peers_eq [OF assms] by (simp add: comp_def)
  ultimately show ?thesis
    by (simp add: image_mset.compositionality comp_def)
qed

text \<open>
  C9. The round-robin balancer is fair: as many calls as there are nodes pick every node as
  often as it occurs in the slice, wherever the counter stands, unless the counter wraps.
\<close>

theorem NextPeer_fair:
  assumes "v \<noteq> []" and "unat (current r) + length v < 2 ^ 64"
  shows "mset (peers (length v) v r) = mset v"
  by (rule peers_round [OF assms])

theorem NextPeer_fair_witness:
  "mset (peers (length [10, 20, 30 :: nat]) [10 :: nat, 20, 30] \<lparr>current = 41\<rparr>) = mset [10, 20, 30] \<and>
   fst (NextPeer (Some [10, 20, 30 :: nat]) \<lparr>current = 41\<rparr>) = Inr 10"
  using NextPeer_fair [of "[10, 20, 30 :: nat]" "\<lparr>current = 41\<rparr>"]
  by (simp add: NextPeer_def NextIndex_def Let_def del: peers.simps)

end
