(* ===== verification/NodePool.thy ===== *)
theory NodePool
  imports ModelsNode Balancer
begin

text \<open>
  \<open>pkg/cluster\<close>: the nodes that run offline downloads (\<open>node.go\<close>, \<open>master.go\<close>, \<open>slave.go\<close>), the
  pool the master keeps of them (\<open>pool.go\<close>), and what a slave keeps of its masters
  (\<open>controller.go\<close>). Nodes are objects in a store, since the maps of the pool, the lists per
  feature and the goroutines share them. Requests between nodes are parameters.
\<close>

section \<open>Nodes (node.go, master.go, slave.go)\<close>

type_synonym addr = nat

text \<open>\<open>nd_close\<close> says that the loop of pings has made its channel.\<close>

record node_obj =
  nd_master :: bool
  nd_Model :: node_row
  nd_Active :: bool
  nd_callback :: bool
  nd_close :: bool

definition IsFeatureEnabled :: "gostring \<Rightarrow> node_obj \<Rightarrow> bool" where
  "IsFeatureEnabled feature node = (if feature = ''aria2'' then n_Aria2Enabled (nd_Model node) else False)"

definition IsActive :: "node_obj \<Rightarrow> bool" where
  "IsActive node = (if nd_master node then True else nd_Active node)"

definition node_ID :: "node_obj \<Rightarrow> uint" where
  "node_ID node = n_ID (nd_Model node)"

text \<open>
  \<open>Init\<close>: \<open>parses\<close> is whether \<open>url.Parse\<close> accepts the server of a slave; the endpoint is nil when it
  does not, and printing it panics.
\<close>

definition slave_Init :: "(gostring \<Rightarrow> bool) \<Rightarrow> node_row \<Rightarrow> node_obj \<Rightarrow> node_obj option" where
  "slave_Init parses nodeModel node =
     (if \<not> parses (n_Server nodeModel) then None
      else if nd_close node then Some (node\<lparr>nd_Model := nodeModel\<rparr>)
      else Some (node\<lparr>nd_Model := nodeModel, nd_Active := True\<rparr>))"

definition master_Init :: "node_row \<Rightarrow> node_obj \<Rightarrow> node_obj" where
  "master_Init nodeModel node = node\<lparr>nd_Model := nodeModel\<rparr>"

definition node_Init :: "(gostring \<Rightarrow> bool) \<Rightarrow> node_row \<Rightarrow> node_obj \<Rightarrow> node_obj option" where
  "node_Init parses nodeModel node =
     (if nd_master node then Some (master_Init nodeModel node) else slave_Init parses nodeModel node)"

definition NewNodeFromDBModel :: "(gostring \<Rightarrow> bool) \<Rightarrow> node_row \<Rightarrow> node_obj option" where
  "NewNodeFromDBModel parses node =
     (let empty = \<lparr>nd_master = (n_Type node \<noteq> SlaveNodeType), nd_Model = node, nd_Active = False,
            nd_callback = False, nd_close = False\<rparr>
      in node_Init parses node empty)"

text \<open>Only a slave keeps the callback.\<close>

definition SubscribeStatusChange :: "node_obj \<Rightarrow> node_obj" where
  "SubscribeStatusChange node = (if nd_master node then node else node\<lparr>nd_callback := True\<rparr>)"

text \<open>
  The loop of pings, one turn: \<open>ok\<close> is whether the ping was answered. The result carries the
  status to report, which \<open>changeStatus\<close> passes on when it is new.
\<close>

record ping_state =
  pg_retry :: int
  pg_recoverMode :: bool
  pg_ticker :: int
  pg_isFirstLoop :: bool

definition ping_start :: ping_state where
  "ping_start = \<lparr>pg_retry = 0, pg_recoverMode = False, pg_ticker = 0, pg_isFirstLoop = True\<rparr>"

definition ping_turn :: "int \<Rightarrow> int \<Rightarrow> int \<Rightarrow> bool \<Rightarrow> ping_state \<Rightarrow> bool option \<times> ping_state" where
  "ping_turn maxRetry tickDuration recoverDuration ok st =
     (let st1 = (if pg_ticker st = 0 then st\<lparr>pg_ticker := tickDuration\<rparr> else st) in
      if \<not> ok then
        (let st2 = st1\<lparr>pg_retry := pg_retry st1 + 1\<rparr> in
         if pg_retry st2 \<ge> maxRetry then
           (Some False,
            (if \<not> pg_recoverMode st2 then st2\<lparr>pg_ticker := recoverDuration, pg_recoverMode := True\<rparr> else st2))
         else (None, st2))
      else
        (let st2 = (if pg_recoverMode st1
                    then st1\<lparr>pg_ticker := tickDuration, pg_recoverMode := False, pg_isFirstLoop := True\<rparr> else st1)
         in (Some True, st2\<lparr>pg_retry := 0\<rparr>)))"

section \<open>The pool (pool.go)\<close>

text \<open>A node of a map may be nil. \<open>np_inits\<close> are the calls of \<open>Init\<close> started and not yet run.\<close>

record pool =
  np_active :: "uint \<rightharpoonup> addr option"
  np_inactive :: "uint \<rightharpoonup> addr option"
  np_featureMap :: "gostring \<rightharpoonup> addr list"
  np_store :: "addr \<Rightarrow> node_obj"
  np_brk :: addr
  np_inits :: "(addr \<times> node_row) list"

definition featureGroup :: "gostring list" where
  "featureGroup = [''aria2'']"

definition pool_Init :: "pool \<Rightarrow> pool" where
  "pool_Init p = p\<lparr>np_featureMap := Map.empty, np_active := Map.empty, np_inactive := Map.empty\<rparr>"

text \<open>\<open>order\<close> is the order in which a range visits the keys of a map; a nil node panics.\<close>

definition buildIndexMap :: "(uint set \<Rightarrow> uint list) \<Rightarrow> pool \<Rightarrow> pool option" where
  "buildIndexMap order p =
     (let vs = map (\<lambda>i. the (np_active p i)) (order (dom (np_active p))) in
      if list_ex (\<lambda>v. v = None) vs then None
      else Some (p\<lparr>np_featureMap :=
             foldl (\<lambda>m feature. m(feature \<mapsto> filter (\<lambda>a. IsFeatureEnabled feature (np_store p a)) (map the vs)))
               (np_featureMap p) featureGroup\<rparr>))"

text \<open>
  Every operation that changes the maps has two parts, each under the lock of the pool, which is
  free in between: the change of the maps, and \<open>buildIndexMap\<close>.
\<close>

definition nodeStatusChange_locked :: "bool \<Rightarrow> uint \<Rightarrow> pool \<Rightarrow> pool" where
  "nodeStatusChange_locked isActive i p =
     (let (node, p1) =
        (case np_inactive p i of
           Some n \<Rightarrow> (n, p\<lparr>np_inactive := (np_inactive p)(i := None)\<rparr>)
         | None \<Rightarrow> ((case np_active p i of None \<Rightarrow> None | Some n \<Rightarrow> n), p\<lparr>np_active := (np_active p)(i := None)\<rparr>))
      in if isActive then p1\<lparr>np_active := (np_active p1)(i \<mapsto> node)\<rparr>
         else p1\<lparr>np_inactive := (np_inactive p1)(i \<mapsto> node)\<rparr>)"

definition nodeStatusChange :: "(uint set \<Rightarrow> uint list) \<Rightarrow> bool \<Rightarrow> uint \<Rightarrow> pool \<Rightarrow> pool option" where
  "nodeStatusChange order isActive i p = buildIndexMap order (nodeStatusChange_locked isActive i p)"

definition pool_add :: "(gostring \<Rightarrow> bool) \<Rightarrow> node_row \<Rightarrow> pool \<Rightarrow> pool option" where
  "pool_add parses node p =
     (case NewNodeFromDBModel parses node of
        None \<Rightarrow> None
      | Some newNode \<Rightarrow>
          (let a = np_brk p;
               p1 = p\<lparr>np_store := (np_store p)(a := SubscribeStatusChange newNode), np_brk := Suc a\<rparr>
           in Some (if IsActive newNode then p1\<lparr>np_active := (np_active p1)(n_ID node \<mapsto> Some a)\<rparr>
                    else p1\<lparr>np_inactive := (np_inactive p1)(n_ID node \<mapsto> Some a)\<rparr>)))"

text \<open>
  A node that is there already is initialised again, in a goroutine of its own. A nil node counts
  as none when it is added, and panics when it is killed.
\<close>

definition Add_locked :: "(gostring \<Rightarrow> bool) \<Rightarrow> node_row \<Rightarrow> pool \<Rightarrow> pool option" where
  "Add_locked parses node p =
     (let old = (case np_active p (n_ID node) of
                   Some n \<Rightarrow> n
                 | None \<Rightarrow> (case np_inactive p (n_ID node) of Some n \<Rightarrow> n | None \<Rightarrow> None))
      in case old of
           Some a \<Rightarrow> Some (p\<lparr>np_inits := np_inits p @ [(a, node)]\<rparr>)
         | None \<Rightarrow> pool_add parses node p)"

definition Add :: "(gostring \<Rightarrow> bool) \<Rightarrow> (uint set \<Rightarrow> uint list) \<Rightarrow> node_row \<Rightarrow> pool \<Rightarrow> pool option" where
  "Add parses order node p = Option.bind (Add_locked parses node p) (buildIndexMap order)"

definition Delete_locked :: "uint \<Rightarrow> pool \<Rightarrow> pool option" where
  "Delete_locked i p =
     (case np_active p i of
        Some None \<Rightarrow> None
      | Some (Some a) \<Rightarrow> Some (p\<lparr>np_active := (np_active p)(i := None)\<rparr>)
      | None \<Rightarrow>
          (case np_inactive p i of
             Some None \<Rightarrow> None
           | Some (Some a) \<Rightarrow> Some (p\<lparr>np_inactive := (np_inactive p)(i := None)\<rparr>)
           | None \<Rightarrow> Some p))"

definition pool_Delete :: "(uint set \<Rightarrow> uint list) \<Rightarrow> uint \<Rightarrow> pool \<Rightarrow> pool option" where
  "pool_Delete order i p = Option.bind (Delete_locked i p) (buildIndexMap order)"

fun pool_addAll :: "(gostring \<Rightarrow> bool) \<Rightarrow> node_row list \<Rightarrow> pool \<Rightarrow> pool option" where
  "pool_addAll parses [] p = Some p"
| "pool_addAll parses (n # ns) p = Option.bind (pool_add parses n p) (pool_addAll parses ns)"

definition initFromDB ::
  "gorm \<Rightarrow> (gostring \<Rightarrow> bool) \<Rightarrow> (uint set \<Rightarrow> uint list) \<Rightarrow> db \<Rightarrow> pool \<Rightarrow> (db_error option \<times> pool) option" where
  "initFromDB G parses order d p =
     (case GetNodesByStatus G [NodeActive] d of
        Inl e \<Rightarrow> Some (Some e, p)
      | Inr ns \<Rightarrow>
          map_option (\<lambda>p'. (None, p')) (Option.bind (pool_addAll parses ns p) (buildIndexMap order)))"

text \<open>A nil node is \<open>None\<close>.\<close>

definition pool_GetNodeByID :: "uint \<Rightarrow> pool \<Rightarrow> addr option" where
  "pool_GetNodeByID i p =
     (case np_active p i of
        Some node \<Rightarrow> node
      | None \<Rightarrow> (case np_inactive p i of Some node \<Rightarrow> node | None \<Rightarrow> None))"

datatype pool_error = ErrFeatureNotExist | ErrBalance balancer_error

definition BalanceNodeByFeature :: "gostring \<Rightarrow> round_robin \<Rightarrow> pool \<Rightarrow> (pool_error + addr) \<times> round_robin" where
  "BalanceNodeByFeature feature lb p =
     (case np_featureMap p feature of
        None \<Rightarrow> (Inl ErrFeatureNotExist, lb)
      | Some nodes \<Rightarrow>
          (case NextPeer (Some nodes) lb of
             (Inl e, lb') \<Rightarrow> (Inl (ErrBalance e), lb')
           | (Inr res, lb') \<Rightarrow> (Inr res, lb')))"

text \<open>
  A slave takes down the status of its ping, under its own lock, and when it is new, reports it to
  the pool with its id, through its callback.
\<close>

definition changeStatus_flag :: "bool \<Rightarrow> addr \<Rightarrow> pool \<Rightarrow> pool \<times> uint option" where
  "changeStatus_flag isActive a p =
     (let node = np_store p a in
      if isActive = nd_Active node then (p, None)
      else (p\<lparr>np_store := (np_store p)(a := node\<lparr>nd_Active := isActive\<rparr>)\<rparr>, Some (node_ID node)))"

definition changeStatus :: "(uint set \<Rightarrow> uint list) \<Rightarrow> bool \<Rightarrow> addr \<Rightarrow> pool \<Rightarrow> pool option" where
  "changeStatus order isActive a p =
     (case changeStatus_flag isActive a p of
        (p1, None) \<Rightarrow> Some p1
      | (p1, Some i) \<Rightarrow> if \<not> nd_callback (np_store p a) then None else nodeStatusChange order isActive i p1)"

section \<open>Running the pool\<close>

text \<open>
  What happens to a pool, in the parts that the locks make of the operations. Beside the pool, a
  run has the reports that slaves have started and the pool has not taken, the number of
  operations that have changed the maps and have not come to \<open>buildIndexMap\<close>, and what the pool
  has been told about each node: alive when it is added, then what the last report taken for its
  id says, nothing once it is deleted. Nodes are added and deleted, a started \<open>Init\<close> runs, the
  loop of pings of a node makes its channel, a slave, be it in the pool or not, notes a new
  status, and the pool takes a report, in any order. A report is taken for an id the pool has:
  \<open>late_report_deafens_pool\<close> below is about the others.
\<close>

type_synonym pool_run = "pool \<times> (bool \<times> uint) list \<times> nat \<times> (uint \<rightharpoonup> bool)"

inductive pool_step :: "(gostring \<Rightarrow> bool) \<Rightarrow> (uint set \<Rightarrow> uint list) \<Rightarrow> pool_run \<Rightarrow> pool_run \<Rightarrow> bool"
  for parses order where
  add: "Add_locked parses node p = Some p' \<Longrightarrow>
     pool_step parses order (p, reps, n, told)
       (p', reps, Suc n, case told (n_ID node) of None \<Rightarrow> told(n_ID node \<mapsto> True) | Some _ \<Rightarrow> told)"
| delete: "Delete_locked i p = Some p' \<Longrightarrow>
     pool_step parses order (p, reps, n, told) (p', reps, Suc n, told(i := None))"
| init: "np_inits p = xs @ (a, node) # ys \<Longrightarrow> node_Init parses node (np_store p a) = Some nd \<Longrightarrow>
     pool_step parses order (p, reps, n, told)
       (p\<lparr>np_store := (np_store p)(a := nd), np_inits := xs @ ys\<rparr>, reps, n, told)"
| loop: "pool_step parses order (p, reps, n, told)
     (p\<lparr>np_store := (np_store p)(a := (np_store p a)\<lparr>nd_close := True\<rparr>)\<rparr>, reps, n, told)"
| flag: "\<not> nd_master (np_store p a) \<Longrightarrow> changeStatus_flag isActive a p = (p', out) \<Longrightarrow>
     pool_step parses order (p, reps, n, told)
       (p', (case out of None \<Rightarrow> reps | Some i \<Rightarrow> reps @ [(isActive, i)]), n, told)"
| report: "reps = xs @ (isActive, i) # ys \<Longrightarrow> told i \<noteq> None \<Longrightarrow>
     pool_step parses order (p, reps, n, told)
       (nodeStatusChange_locked isActive i p, xs @ ys, Suc n, told(i \<mapsto> isActive))"
| rebuild: "buildIndexMap order p = Some p' \<Longrightarrow>
     pool_step parses order (p, reps, Suc n, told) (p', reps, n, told)"

inductive pool_reachable :: "(gostring \<Rightarrow> bool) \<Rightarrow> (uint set \<Rightarrow> uint list) \<Rightarrow> pool_run \<Rightarrow> bool"
  for parses order where
  start: "pool_reachable parses order
     (\<lparr>np_active = Map.empty, np_inactive = Map.empty, np_featureMap = Map.empty, np_store = st, np_brk = 0,
        np_inits = []\<rparr>, [], 0, Map.empty)"
| step: "pool_reachable parses order s \<Longrightarrow> pool_step parses order s s' \<Longrightarrow> pool_reachable parses order s'"

text \<open>The order of a range visits every key.\<close>

definition ranges :: "(uint set \<Rightarrow> uint list) \<Rightarrow> bool" where
  "ranges order \<longleftrightarrow> (\<forall>S. finite S \<longrightarrow> set (order S) = S)"

text \<open>
  The invariant: every node is in the map that fits what the pool was told of it, under its own
  id; when no operation is halfway, the lists per feature hold nodes of the active map only.
\<close>

definition member :: "pool \<Rightarrow> uint \<Rightarrow> addr option \<Rightarrow> bool" where
  "member p i v \<longleftrightarrow> (\<exists>a. v = Some a \<and> a < np_brk p \<and> node_ID (np_store p a) = i)"

definition pool_base :: "pool \<Rightarrow> (uint \<rightharpoonup> bool) \<Rightarrow> bool" where
  "pool_base p told \<longleftrightarrow>
     finite (dom (np_active p)) \<and>
     (\<forall>i. np_active p i \<noteq> None \<longleftrightarrow> told i = Some True) \<and>
     (\<forall>i. np_inactive p i \<noteq> None \<longleftrightarrow> told i = Some False) \<and>
     (\<forall>i v. np_active p i = Some v \<or> np_inactive p i = Some v \<longrightarrow> member p i v) \<and>
     (\<forall>(a, n) \<in> set (np_inits p). a < np_brk p \<and> n_ID n = node_ID (np_store p a)) \<and>
     dom (np_featureMap p) \<subseteq> set featureGroup"

definition listed :: "pool \<Rightarrow> bool" where
  "listed p \<longleftrightarrow> (\<forall>f as. np_featureMap p f = Some as \<longrightarrow> (\<forall>a\<in>set as. \<exists>i. np_active p i = Some (Some a)))"

lemma pool_baseD:
  assumes "pool_base p told"
  shows "finite (dom (np_active p))"
    and "np_active p i \<noteq> None \<longleftrightarrow> told i = Some True" and "np_inactive p i \<noteq> None \<longleftrightarrow> told i = Some False"
    and "np_active p i = Some v \<Longrightarrow> member p i v" and "np_inactive p i = Some v \<Longrightarrow> member p i v"
    and "(a, n) \<in> set (np_inits p) \<Longrightarrow> a < np_brk p \<and> n_ID n = node_ID (np_store p a)"
    and "dom (np_featureMap p) \<subseteq> set featureGroup"
  using assms by (auto simp: pool_base_def)

lemma pool_baseI:
  assumes "finite (dom (np_active p))"
    and "\<And>i. np_active p i \<noteq> None \<longleftrightarrow> told i = Some True"
    and "\<And>i. np_inactive p i \<noteq> None \<longleftrightarrow> told i = Some False"
    and "\<And>i v. np_active p i = Some v \<Longrightarrow> member p i v" and "\<And>i v. np_inactive p i = Some v \<Longrightarrow> member p i v"
    and "\<And>a n. (a, n) \<in> set (np_inits p) \<Longrightarrow> a < np_brk p \<and> n_ID n = node_ID (np_store p a)"
    and "dom (np_featureMap p) \<subseteq> set featureGroup"
  shows "pool_base p told"
  unfolding pool_base_def using assms by blast

lemma member_cong:
  "np_brk q = np_brk p \<Longrightarrow> (\<And>a. node_ID (np_store q a) = node_ID (np_store p a)) \<Longrightarrow> member q i v = member p i v"
  by (simp add: member_def)

text \<open>Once built, the lists hold active nodes, and no nil node stops the building.\<close>

lemma buildIndexMap_base:
  assumes "ranges order" and "pool_base p told"
  shows "\<exists>fm. buildIndexMap order p = Some (p\<lparr>np_featureMap := fm\<rparr>)"
    and "buildIndexMap order p = Some p' \<Longrightarrow> pool_base p' told \<and> listed p' \<and> np_active p' = np_active p"
proof -
  have keys: "set (order (dom (np_active p))) = dom (np_active p)"
    using assms by (simp add: ranges_def pool_base_def)
  have somes: "\<exists>a. np_active p i = Some (Some a)" if i: "i \<in> set (order (dom (np_active p)))" for i
  proof -
    obtain v where v: "np_active p i = Some v" using i keys by auto
    then obtain a where "v = Some a" using pool_baseD(4) [OF assms(2) v] by (auto simp: member_def)
    with v show ?thesis by simp
  qed
  let ?vs = "map (\<lambda>i. the (np_active p i)) (order (dom (np_active p)))"
  have noNil: "\<not> list_ex (\<lambda>v. v = None) ?vs"
    using somes by (force simp: list_ex_iff)
  then show "\<exists>fm. buildIndexMap order p = Some (p\<lparr>np_featureMap := fm\<rparr>)"
    by (simp add: buildIndexMap_def Let_def) (rule exI, rule refl)
  assume "buildIndexMap order p = Some p'"
  with noNil have p': "p' = p\<lparr>np_featureMap := (np_featureMap p)(''aria2'' \<mapsto>
      filter (\<lambda>a. IsFeatureEnabled ''aria2'' (np_store p a)) (map the ?vs))\<rparr>"
    by (simp add: buildIndexMap_def Let_def featureGroup_def)
  have "pool_base p' told" using assms(2) unfolding p' pool_base_def member_def featureGroup_def
    by simp
  moreover have "listed p'"
  proof -
    have "\<exists>i. np_active p i = Some (Some a)" if a: "a \<in> set (map the ?vs)" for a
      using a somes by fastforce
    moreover have "f = ''aria2''" if "np_featureMap p f = Some as" for f as
      using that pool_baseD(7) [OF assms(2)] by (auto simp: featureGroup_def)
    ultimately show ?thesis by (simp add: p' listed_def) blast
  qed
  ultimately show "pool_base p' told \<and> listed p' \<and> np_active p' = np_active p" by (simp add: p')
qed

text \<open>A new node is active, and goes under its id, which is free.\<close>

lemma pool_base_add:
  assumes "pool_base p told" and "told (n_ID node) = None" and "pool_add parses node p = Some p'"
  shows "pool_base p' (told(n_ID node \<mapsto> True))"
proof -
  let ?a = "np_brk p"
  obtain nd where nd: "NewNodeFromDBModel parses node = Some nd"
    using assms(3) by (auto simp: pool_add_def split: option.splits)
  then have new: "IsActive nd" "nd_Model nd = node"
    by (auto simp: NewNodeFromDBModel_def node_Init_def slave_Init_def master_Init_def IsActive_def Let_def
        split: if_splits)
  let ?nd = "SubscribeStatusChange nd"
  have sub: "node_ID ?nd = n_ID node"
    using new by (simp add: SubscribeStatusChange_def node_ID_def)
  have p': "p' = p\<lparr>np_store := (np_store p)(?a := ?nd), np_brk := Suc ?a,
      np_active := (np_active p)(n_ID node \<mapsto> Some ?a)\<rparr>"
    using assms(3) nd new(1) by (simp add: pool_add_def Let_def)
  have keep: "member p' i v" if m: "member p i v" for i v
  proof -
    from m obtain a where "v = Some a" "a < ?a" "node_ID (np_store p a) = i" unfolding member_def by blast
    then show ?thesis unfolding member_def p' by (intro exI [of _ a]) simp
  qed
  have free: "np_inactive p (n_ID node) = None"
    using pool_baseD(3) [OF assms(1), of "n_ID node"] assms(2) by simp
  show ?thesis
  proof (rule pool_baseI)
    fix i v assume v: "np_active p' i = Some v"
    show "member p' i v"
    proof (cases "i = n_ID node")
      case True
      with v have "v = Some ?a" by (simp add: p')
      with True sub show ?thesis unfolding member_def p' by (intro exI [of _ ?a]) simp
    next
      case False
      with v have "np_active p i = Some v" by (simp add: p')
      then show ?thesis by (rule keep [OF pool_baseD(4) [OF assms(1)]])
    qed
  next
    fix i v assume "np_inactive p' i = Some v"
    then have "np_inactive p i = Some v" by (simp add: p')
    then show "member p' i v" by (rule keep [OF pool_baseD(5) [OF assms(1)]])
  next
    fix c n assume "(c, n) \<in> set (np_inits p')"
    with pool_baseD(6) [OF assms(1), of c n] show "c < np_brk p' \<and> n_ID n = node_ID (np_store p' c)"
      by (simp add: p')
  next
    fix i
    show "np_active p' i \<noteq> None \<longleftrightarrow> (told(n_ID node \<mapsto> True)) i = Some True"
      using pool_baseD(2) [OF assms(1), of i] by (cases "i = n_ID node") (simp_all add: p')
    show "np_inactive p' i \<noteq> None \<longleftrightarrow> (told(n_ID node \<mapsto> True)) i = Some False"
      using pool_baseD(3) [OF assms(1), of i] free by (cases "i = n_ID node") (simp_all add: p')
  qed (use pool_baseD(1,7) [OF assms(1)] in \<open>simp_all add: p'\<close>)
qed

text \<open>A report moves the node to the map of its new status.\<close>

lemma pool_base_report:
  assumes "pool_base p told" and "told i \<noteq> None"
  shows "pool_base (nodeStatusChange_locked isActive i p) (told(i \<mapsto> isActive))"
proof -
  obtain b where b: "told i = Some b" using assms(2) by blast
  have "\<exists>v. (if b then np_active p i else np_inactive p i) = Some v"
    using pool_baseD(2,3) [OF assms(1), of i] b by (cases b) auto
  then obtain v where v: "(if b then np_active p i else np_inactive p i) = Some v" by blast
  have other: "(if b then np_inactive p i else np_active p i) = None"
    using pool_baseD(2,3) [OF assms(1), of i] b by (cases b) auto
  let ?q = "nodeStatusChange_locked isActive i p"
  have q: "?q = (if isActive
      then p\<lparr>np_inactive := (np_inactive p)(i := None), np_active := (np_active p)(i \<mapsto> v)\<rparr>
      else p\<lparr>np_active := (np_active p)(i := None), np_inactive := (np_inactive p)(i \<mapsto> v)\<rparr>)"
    using v other by (cases b; cases isActive) (simp_all add: nodeStatusChange_locked_def Let_def fun_upd_idem)
  have m: "member p i v" using v pool_baseD(4,5) [OF assms(1)] by (cases b) simp_all
  have cong: "member ?q j w = member p j w" for j w by (rule member_cong) (simp_all add: q)
  show ?thesis
  proof (rule pool_baseI)
    fix j w assume "np_active ?q j = Some w"
    then show "member ?q j w"
      using m pool_baseD(4) [OF assms(1), of j w] unfolding cong by (auto simp: q split: if_splits)
  next
    fix j w assume "np_inactive ?q j = Some w"
    then show "member ?q j w"
      using m pool_baseD(5) [OF assms(1), of j w] unfolding cong by (auto simp: q split: if_splits)
  next
    fix c n assume "(c, n) \<in> set (np_inits ?q)"
    with pool_baseD(6) [OF assms(1), of c n] show "c < np_brk ?q \<and> n_ID n = node_ID (np_store ?q c)"
      by (simp add: q split: if_splits)
  next
    fix j
    show "np_active ?q j \<noteq> None \<longleftrightarrow> (told(i \<mapsto> isActive)) j = Some True"
      using pool_baseD(2) [OF assms(1), of j] unfolding q by (cases "j = i"; cases isActive) simp_all
    show "np_inactive ?q j \<noteq> None \<longleftrightarrow> (told(i \<mapsto> isActive)) j = Some False"
      using pool_baseD(3) [OF assms(1), of j] unfolding q by (cases "j = i"; cases isActive) simp_all
  next
    show "finite (dom (np_active ?q))" using pool_baseD(1) [OF assms(1)] unfolding q by (cases isActive) simp_all
    show "dom (np_featureMap ?q) \<subseteq> set featureGroup" using pool_baseD(7) [OF assms(1)] by (simp add: q)
  qed
qed

lemma pool_base_delete:
  assumes "pool_base p told" and "Delete_locked i p = Some p'"
  shows "pool_base p' (told(i := None))" and "np_active p' i = None"
proof -
  have p': "p' = p\<lparr>np_active := (np_active p)(i := None), np_inactive := (np_inactive p)(i := None)\<rparr>"
    using assms(2) pool_baseD(2,3) [OF assms(1), of i]
    by (auto simp: Delete_locked_def fun_upd_idem split: option.splits)
  show "pool_base p' (told(i := None))"
    using assms(1) unfolding p' pool_base_def by (auto simp: member_def)
  show "np_active p' i = None" by (simp add: p')
qed

text \<open>Rewriting a node that keeps its id.\<close>

lemma pool_base_store:
  assumes "pool_base p told" and "node_ID nd = node_ID (np_store p a)" and "set inits \<subseteq> set (np_inits p)"
  shows "pool_base (p\<lparr>np_store := (np_store p)(a := nd), np_inits := inits\<rparr>) told"
proof -
  let ?p = "p\<lparr>np_store := (np_store p)(a := nd), np_inits := inits\<rparr>"
  have cong: "member ?p i v = member p i v" for i v by (rule member_cong) (simp_all add: assms(2))
  show ?thesis
  proof (rule pool_baseI)
    fix c n assume "(c, n) \<in> set (np_inits ?p)"
    then have "(c, n) \<in> set (np_inits p)" using assms(3) by auto
    from pool_baseD(6) [OF assms(1) this] show "c < np_brk ?p \<and> n_ID n = node_ID (np_store ?p c)"
      using assms(2) by simp
  qed (use pool_baseD(1-5,7) [OF assms(1)] in \<open>simp_all add: cong\<close>)
qed

lemma node_Init_id: "node_Init parses node old = Some nd \<Longrightarrow> node_ID nd = n_ID node"
  by (auto simp: node_Init_def master_Init_def slave_Init_def node_ID_def split: if_splits)

definition pool_inv :: "pool_run \<Rightarrow> bool" where
  "pool_inv s = (case s of (p, reps, n, told) \<Rightarrow> pool_base p told \<and> (n = 0 \<longrightarrow> listed p))"

lemma pool_step_inv:
  assumes "ranges order" and "pool_step parses order s s'" and "pool_inv s"
  shows "pool_inv s'"
  using assms(2)
proof cases
  case (add node p p' reps n told)
  have base: "pool_base p told" using assms(3) add(1) by (simp add: pool_inv_def)
  show ?thesis
  proof (cases "told (n_ID node)")
    case None
    then have "np_active p (n_ID node) = None" "np_inactive p (n_ID node) = None"
      using pool_baseD(2,3) [OF base, of "n_ID node"] by simp_all
    then have "pool_add parses node p = Some p'" using add(3) by (simp add: Add_locked_def)
    with None add(2) pool_base_add [OF base None] show ?thesis by (simp add: pool_inv_def)
  next
    case (Some b)
    obtain v where v: "(case np_active p (n_ID node) of Some w \<Rightarrow> w
        | None \<Rightarrow> (case np_inactive p (n_ID node) of Some w \<Rightarrow> w | None \<Rightarrow> None)) = Some v"
      "v < np_brk p" "node_ID (np_store p v) = n_ID node"
      using Some pool_baseD(2-5) [OF base, of "n_ID node"]
      by (cases b; cases "np_active p (n_ID node)"; cases "np_inactive p (n_ID node)") (auto simp: member_def)
    then have p': "p' = p\<lparr>np_inits := np_inits p @ [(v, node)]\<rparr>"
      using add(3) by (simp add: Add_locked_def)
    have "pool_base p' told" using base v(2,3) unfolding p' pool_base_def by (auto simp: member_def)
    with Some add(2) show ?thesis by (simp add: pool_inv_def)
  qed
next
  case (delete i p p' reps n told)
  with assms(3) pool_base_delete(1) [of p told i p'] show ?thesis by (simp add: pool_inv_def)
next
  case (init p xs a node ys nd reps n told)
  have base: "pool_base p told" using assms(3) init(1) by (simp add: pool_inv_def)
  have "node_ID nd = node_ID (np_store p a)"
    using node_Init_id [OF init(4)] pool_baseD(6) [OF base, of a node] init(3) by simp
  with base have "pool_base (p\<lparr>np_store := (np_store p)(a := nd), np_inits := xs @ ys\<rparr>) told"
    by (rule pool_base_store) (auto simp: init(3))
  with assms(3) init(1,2) show ?thesis by (simp add: pool_inv_def listed_def)
next
  case (loop p reps n told a)
  have "pool_base (p\<lparr>np_store := (np_store p)(a := (np_store p a)\<lparr>nd_close := True\<rparr>), np_inits := np_inits p\<rparr>) told"
    using assms(3) loop(1) by (intro pool_base_store) (simp_all add: pool_inv_def node_ID_def)
  with assms(3) loop show ?thesis by (simp add: pool_inv_def listed_def)
next
  case (flag p a isActive p' out reps n told)
  have "pool_base (p\<lparr>np_store := (np_store p)(a := (np_store p a)\<lparr>nd_Active := isActive\<rparr>), np_inits := np_inits p\<rparr>) told"
    using assms(3) flag(1) by (intro pool_base_store) (simp_all add: pool_inv_def node_ID_def)
  with assms(3) flag show ?thesis
    by (auto simp: pool_inv_def listed_def changeStatus_flag_def Let_def split: if_splits)
next
  case (report reps xs isActive i ys told p n)
  with assms(3) pool_base_report [of p told i isActive] show ?thesis by (simp add: pool_inv_def)
next
  case (rebuild p p' reps n told)
  with assms(3) buildIndexMap_base(2) [OF assms(1), of p told p'] show ?thesis by (simp add: pool_inv_def)
qed

lemma pool_reachable_inv: "pool_reachable parses order s \<Longrightarrow> ranges order \<Longrightarrow> pool_inv s"
proof (induction rule: pool_reachable.induct)
  case (start st)
  show ?case by (simp add: pool_inv_def pool_base_def listed_def)
next
  case (step s s')
  then show ?case using pool_step_inv by blast
qed

lemma balanced_member:
  assumes "pool_base p told" and "listed p" and "BalanceNodeByFeature feature lb p = (Inr a, lb')"
  shows "np_active p (node_ID (np_store p a)) = Some (Some a) \<and> told (node_ID (np_store p a)) = Some True"
proof -
  obtain as where as: "np_featureMap p feature = Some as" "as \<noteq> []" "a \<in> set as"
    using assms(3) by (auto simp: BalanceNodeByFeature_def NextPeer_def NextIndex_def Let_def
        split: option.splits prod.splits sum.splits if_splits)
  from assms(2) as(1,3) obtain i where i: "np_active p i = Some (Some a)"
    unfolding listed_def by blast
  from pool_baseD(4) [OF assms(1) i] pool_baseD(2) [OF assms(1), of i] i show ?thesis by (auto simp: member_def)
qed

text \<open>A deleted node is not balanced to, whatever else is halfway.\<close>

lemma deleted_not_balanced:
  assumes "ranges order" and "pool_reachable parses order (p, reps, n, told)" and "pool_Delete order i p = Some p'"
    and "BalanceNodeByFeature feature lb p' = (Inr a, lb')"
  shows "node_ID (np_store p' a) \<noteq> i"
proof -
  obtain q where q: "Delete_locked i p = Some q" "buildIndexMap order q = Some p'"
    using assms(3) by (auto simp: pool_Delete_def split: bind_splits)
  have "pool_base p told" using pool_reachable_inv [OF assms(2,1)] by (simp add: pool_inv_def)
  note deleted = pool_base_delete [OF this q(1)]
  note built = buildIndexMap_base(2) [OF assms(1) deleted(1) q(2)]
  from balanced_member [OF _ _ assms(4), of "told(i := None)"] built
  have "np_active p' (node_ID (np_store p' a)) = Some (Some a)" by blast
  moreover have "np_active p' i = None" using built deleted(2) by simp
  ultimately show ?thesis by auto
qed

section \<open>Properties\<close>

text \<open>
  C22. Offline downloads only go to nodes that the pool was told are alive: however nodes are
  added, deleted, initialised again, and lost and found by their pings, with every operation
  interleaved at its locks and the reports of the nodes taken in any order, as long as none is
  taken for an id that is not in the pool, whenever no operation is between its change of the maps
  and \<open>buildIndexMap\<close> the node the balancer picks for a feature is in the active map under its own
  id, has not been deleted since it was added, and the last report taken for it, if there was one,
  said that it is alive.
\<close>
theorem balanced_node_is_active:
  assumes "ranges order" and "pool_reachable parses order (p, reps, 0, told)"
    and "BalanceNodeByFeature feature lb p = (Inr a, lb')"
  shows "np_active p (node_ID (np_store p a)) = Some (Some a) \<and> told (node_ID (np_store p a)) = Some True"
  using balanced_member [OF _ _ assms(3), of told] pool_reachable_inv [OF assms(2,1)] by (simp add: pool_inv_def)

text \<open>What the addition of a node whose id is not in the active map does.\<close>

lemma Add_new:
  assumes "np_active p (n_ID node) = None" and "np_inactive p (n_ID node) \<in> {None, Some None}"
    and "Add parses order node p = Some p'"
  shows "np_active p' = (np_active p)(n_ID node \<mapsto> Some (np_brk p))" and "np_inactive p' = np_inactive p"
    and "nd_Model (np_store p' (np_brk p)) = node"
proof -
  obtain nd where nd: "NewNodeFromDBModel parses node = Some nd"
    and b: "buildIndexMap order (p\<lparr>np_store := (np_store p)(np_brk p := SubscribeStatusChange nd),
        np_brk := Suc (np_brk p), np_active := (np_active p)(n_ID node \<mapsto> Some (np_brk p))\<rparr>) = Some p'"
    using assms by (auto simp: Add_def Add_locked_def pool_add_def Let_def IsActive_def NewNodeFromDBModel_def
        node_Init_def slave_Init_def master_Init_def split: bind_splits option.splits if_splits)
  then have "nd_Model (SubscribeStatusChange nd) = node"
    by (auto simp: NewNodeFromDBModel_def node_Init_def slave_Init_def master_Init_def SubscribeStatusChange_def Let_def
        split: if_splits)
  with b show "np_active p' = (np_active p)(n_ID node \<mapsto> Some (np_brk p))" and "np_inactive p' = np_inactive p"
    and "nd_Model (np_store p' (np_brk p)) = node"
    by (auto simp: buildIndexMap_def Let_def split: if_splits)
qed

lemma buildIndexMap_lists:
  assumes "ranges order" and "finite (dom (np_active p))" and "np_active p i = Some v"
    and "buildIndexMap order p = Some p'"
  shows "np_active p' = np_active p" and "\<exists>a. v = Some a \<and>
    (IsFeatureEnabled ''aria2'' (np_store p a) \<longrightarrow> (\<exists>as. np_featureMap p' ''aria2'' = Some as \<and> a \<in> set as))"
proof -
  let ?vs = "map (\<lambda>i. the (np_active p i)) (order (dom (np_active p)))"
  have v: "v \<in> set ?vs" using assms(1-3) by (force simp: ranges_def)
  have noNil: "\<not> list_ex (\<lambda>v. v = None) ?vs" using assms(4) by (auto simp: buildIndexMap_def Let_def split: if_splits)
  then obtain a where a: "v = Some a" using v unfolding list_ex_iff by (metis not_None_eq)
  define as where "as = map the ?vs"
  have p': "p' = p\<lparr>np_featureMap := (np_featureMap p)(''aria2'' \<mapsto>
      filter (\<lambda>a. IsFeatureEnabled ''aria2'' (np_store p a)) as)\<rparr>"
    using assms(4) noNil by (simp add: buildIndexMap_def Let_def featureGroup_def as_def)
  have "a \<in> set as" unfolding as_def by (metis a imageI option.sel set_map v)
  then show "np_active p' = np_active p" and "\<exists>a. v = Some a \<and>
    (IsFeatureEnabled ''aria2'' (np_store p a) \<longrightarrow> (\<exists>as. np_featureMap p' ''aria2'' = Some as \<and> a \<in> set as))"
    unfolding p' using a by simp_all
qed

text \<open>
  C23. A ping that ends after its node was deleted corrupts the pool. A status reported for an id
  the pool does not have is entered as a nil node: reported alive, it panics in
  \<open>buildIndexMap\<close>; reported lost, it stays in the map of the inactive nodes, and when a node for
  offline downloads is added under the id again, the first report that this node is lost moves the
  nil node instead of it: it stays active, and in the list that downloads are balanced over.
\<close>
theorem late_report_deafens_pool:
  assumes "ranges order" and "finite (dom (np_active p))"
    and "np_active p (n_ID node) = None" and "np_inactive p (n_ID node) = None"
    and "nodeStatusChange order False (n_ID node) p = Some p1"
    and "Add parses order node p1 = Some p2" and "n_Aria2Enabled node"
    and "nodeStatusChange order False (n_ID node) p2 = Some p3"
  shows "nodeStatusChange order True (n_ID node) p = None \<and>
    np_active p3 (n_ID node) = Some (Some (np_brk p)) \<and>
    (\<exists>as. np_featureMap p3 ''aria2'' = Some as \<and> np_brk p \<in> set as)"
proof -
  let ?i = "n_ID node"
  have "nodeStatusChange order True ?i p = None"
  proof (rule ccontr)
    assume "nodeStatusChange order True ?i p \<noteq> None"
    then obtain q where q: "buildIndexMap order (nodeStatusChange_locked True ?i p) = Some q"
      by (auto simp: nodeStatusChange_def)
    have "np_active (nodeStatusChange_locked True ?i p) = (np_active p)(?i \<mapsto> None)"
      using assms(3,4) by (simp add: nodeStatusChange_locked_def)
    with buildIndexMap_lists(2) [OF assms(1) _ _ q, of ?i None] assms(2) show False by simp
  qed
  moreover have p1: "np_active p1 = np_active p" "np_inactive p1 = (np_inactive p)(?i \<mapsto> None)" "np_brk p1 = np_brk p"
    using assms(3-5)
    by (auto simp: nodeStatusChange_def nodeStatusChange_locked_def buildIndexMap_def Let_def fun_upd_idem
        split: if_splits)
  note p2 = Add_new [OF _ _ assms(6), unfolded p1, simplified, OF assms(3)]
  let ?q = "nodeStatusChange_locked False ?i p2"
  have q: "np_active ?q = np_active p2" "np_store ?q = np_store p2"
    using p2(2) by (simp_all add: nodeStatusChange_locked_def)
  have "IsFeatureEnabled ''aria2'' (np_store ?q (np_brk p))"
    using p2(3) assms(7) by (simp add: q IsFeatureEnabled_def)
  with buildIndexMap_lists [OF assms(1) _ _ assms(8) [unfolded nodeStatusChange_def], of ?i "Some (np_brk p)"]
    assms(2) p2(1) q(1)
  have "np_active p3 ?i = Some (Some (np_brk p)) \<and> (\<exists>as. np_featureMap p3 ''aria2'' = Some as \<and> np_brk p \<in> set as)"
    by simp
  ultimately show ?thesis by blast
qed

text \<open>A pool with one master node, which takes the downloads of \<open>aria2\<close>.\<close>

definition sample_node :: node_row where
  "sample_node = \<lparr>n_ID = 7, n_Status = NodeActive, n_Name = ''master'', n_Type = MasterNodeType, n_Server = [],
     n_SlaveKey = [], n_MasterKey = [], n_Aria2Enabled = True, n_Aria2Options = [], n_Rank = 0\<rparr>"

definition empty_pool :: "node_obj \<Rightarrow> pool" where
  "empty_pool nd = \<lparr>np_active = Map.empty, np_inactive = Map.empty, np_featureMap = Map.empty,
     np_store = (\<lambda>_. nd), np_brk = 0, np_inits = []\<rparr>"

definition sample_obj :: node_obj where
  "sample_obj = \<lparr>nd_master = True, nd_Model = sample_node, nd_Active = False, nd_callback = False, nd_close = False\<rparr>"

definition sample_pool :: pool where
  "sample_pool = \<lparr>np_active = [7 \<mapsto> Some 0], np_inactive = Map.empty, np_featureMap = [''aria2'' \<mapsto> [0]],
     np_store = (\<lambda>_. sample_obj), np_brk = 1, np_inits = []\<rparr>"

text \<open>The node is added and the lists are built.\<close>

lemma sample_reachable: "pool_reachable (\<lambda>_. True) sorted_list_of_set (sample_pool, [], 0, [7 \<mapsto> True])"
proof -
  let ?p1 = "sample_pool\<lparr>np_featureMap := Map.empty\<rparr>"
  have new: "NewNodeFromDBModel (\<lambda>_. True) sample_node = Some sample_obj"
    by (simp add: NewNodeFromDBModel_def node_Init_def master_Init_def sample_node_def sample_obj_def
        MasterNodeType_def SlaveNodeType_def)
  have obj: "SubscribeStatusChange sample_obj = sample_obj" "IsActive sample_obj" "IsFeatureEnabled ''aria2'' sample_obj"
    by (simp_all add: SubscribeStatusChange_def IsActive_def IsFeatureEnabled_def sample_obj_def sample_node_def)
  have "pool_add (\<lambda>_. True) sample_node (empty_pool sample_obj) = Some ?p1"
    by (simp add: pool_add_def new obj empty_pool_def sample_pool_def Let_def fun_upd_idem) (simp add: sample_node_def)
  then have "Add_locked (\<lambda>_. True) sample_node (empty_pool sample_obj) = Some ?p1"
    by (simp add: Add_locked_def) (simp add: empty_pool_def)
  note added = pool_step.add [OF this, of _ "[]" 0 Map.empty]
  have r: "pool_reachable (\<lambda>_. True) sorted_list_of_set (?p1, [], Suc 0, [7 \<mapsto> True])"
    using pool_reachable.step [OF pool_reachable.start [of _ _ "\<lambda>_. sample_obj", folded empty_pool_def] added]
    by (simp add: sample_node_def)
  have "buildIndexMap sorted_list_of_set ?p1 = Some sample_pool"
  proof -
    have keys: "sorted_list_of_set (dom (np_active ?p1)) = [7]" by (simp add: sample_pool_def)
    show ?thesis unfolding buildIndexMap_def keys by (simp add: featureGroup_def sample_pool_def obj)
  qed
  from pool_reachable.step [OF r pool_step.rebuild [OF this]] show ?thesis by simp
qed

lemma balanced_node_is_active_witness:
  "\<exists>told. pool_reachable (\<lambda>_. True) sorted_list_of_set (sample_pool, [], 0, told) \<and>
     np_active sample_pool 7 = Some (Some 0) \<and> told 7 = Some True"
proof -
  have "ranges sorted_list_of_set" by (simp add: ranges_def)
  moreover have "BalanceNodeByFeature ''aria2'' (NewBalancer ''RoundRobin'') sample_pool =
      (Inr 0, \<lparr>current = 1\<rparr>)"
    by (simp add: BalanceNodeByFeature_def NextPeer_def NextIndex_def NewBalancer_def sample_pool_def)
  ultimately have "np_active sample_pool (node_ID (np_store sample_pool 0)) = Some (Some 0) \<and>
      [7 \<mapsto> True] (node_ID (np_store sample_pool 0)) = Some True"
    by (intro balanced_node_is_active [OF _ sample_reachable])
  then show ?thesis using sample_reachable
    by (intro exI [of _ "[7 \<mapsto> True]"]) (simp add: sample_pool_def sample_obj_def sample_node_def node_ID_def)
qed

text \<open>Node 9 is not in the pool when it is reported lost; it is added, and reported lost again.\<close>

lemma late_report_deafens_pool_witness:
  "\<exists>p1 p2 p3. nodeStatusChange sorted_list_of_set False 9 sample_pool = Some p1 \<and>
     Add (\<lambda>_. True) sorted_list_of_set (sample_node\<lparr>n_ID := 9\<rparr>) p1 = Some p2 \<and>
     nodeStatusChange sorted_list_of_set False 9 p2 = Some p3 \<and>
     np_active p3 9 = Some (Some 1) \<and> (\<exists>as. np_featureMap p3 ''aria2'' = Some as \<and> 1 \<in> set as)"
proof -
  let ?o = "sorted_list_of_set :: nat set \<Rightarrow> nat list" and ?n = "sample_node\<lparr>n_ID := 9\<rparr>"
  have r: "ranges ?o" by (simp add: ranges_def)
  have o: "?o {7} = [7]" "?o {7, 9} = [7, 9]" "?o {9, 7} = [7, 9]" by (simp_all add: insert_commute)
  have "\<exists>p1 p2 p3. nodeStatusChange ?o False 9 sample_pool = Some p1 \<and> Add (\<lambda>_. True) ?o ?n p1 = Some p2 \<and>
      nodeStatusChange ?o False 9 p2 = Some p3"
    by (simp add: nodeStatusChange_def nodeStatusChange_locked_def Add_def Add_locked_def pool_add_def
        buildIndexMap_def sample_pool_def NewNodeFromDBModel_def node_Init_def master_Init_def IsActive_def
        SubscribeStatusChange_def o Let_def)
      (simp add: sample_node_def MasterNodeType_def SlaveNodeType_def o)
  then obtain p1 p2 p3 where s: "nodeStatusChange ?o False 9 sample_pool = Some p1"
      "Add (\<lambda>_. True) ?o ?n p1 = Some p2" "nodeStatusChange ?o False 9 p2 = Some p3" by blast
  have "np_active sample_pool (n_ID ?n) = None" "np_inactive sample_pool (n_ID ?n) = None"
    "finite (dom (np_active sample_pool))" "n_Aria2Enabled ?n" "n_ID ?n = 9" "np_brk sample_pool = 1"
    by (simp_all add: sample_pool_def sample_node_def)
  with late_report_deafens_pool [of ?o sample_pool ?n p1 "\<lambda>_. True" p2 p3] r s show ?thesis by auto
qed

end
