(* ===== verification/TaskPool.thy ===== *)
theory TaskPool
  imports FsArchive ServiceCore NodePool
begin

text \<open>
  \<open>pkg/task\<close>: the background tasks (\<open>compress.go\<close>, \<open>decompress.go\<close>, \<open>transfer.go\<close>, \<open>import.go\<close>),
  how they are recorded and resumed (\<open>job.go\<close>), the worker that runs one (\<open>worker.go\<close>) and the
  pool of workers (\<open>pool.go\<close>).

  A job works on a server (its database, cache and storage). The removal of local files is
  recorded in the job. JSON, the local file system and the formats of archives are parameters.
  \<open>None\<close> is a call that does not return, or a panic that ends the process; a panic inside of
  \<open>Do\<close> is a value, since the worker recovers it.
\<close>

section \<open>Jobs (job.go)\<close>

definition CompressTaskType :: int where "CompressTaskType = 0"
definition DecompressTaskType :: int where "DecompressTaskType = 1"
definition TransferTaskType :: int where "TransferTaskType = 2"
definition ImportTaskType :: int where "ImportTaskType = 3"

definition Queued :: int where "Queued = 0"
definition Processing :: int where "Processing = 1"
definition TaskError :: int where "TaskError = 2"
definition TaskCanceled :: int where "TaskCanceled = 3"
definition TaskComplete :: int where "TaskComplete = 4"

definition PendingProgress :: int where "PendingProgress = 0"
definition CompressingProgress :: int where "CompressingProgress = 1"
definition DecompressingProgress :: int where "DecompressingProgress = 2"
definition DownloadingProgress :: int where "DownloadingProgress = 3"
definition TransferringProgress :: int where "TransferringProgress = 4"
definition ListingProgress :: int where "ListingProgress = 5"
definition InsertingProgress :: int where "InsertingProgress = 6"

record compress_props =
  cp_Dirs :: "uint list"
  cp_Files :: "uint list"
  cp_Dst :: gostring

record decompress_props =
  dp_Src :: gostring
  dp_Dst :: gostring
  dp_Encoding :: gostring

record transfer_props =
  tp_Src :: "gostring list"
  tp_SrcSizes :: "gostring \<rightharpoonup> u64"
  tp_Parent :: gostring
  tp_Dst :: gostring
  tp_TrimPath :: bool
  tp_NodeID :: uint

record import_props =
  ip_PolicyID :: uint
  ip_Src :: gostring
  ip_Recursive :: bool
  ip_Dst :: gostring

datatype task_props =
    CompressTask compress_props
  | DecompressTask decompress_props
  | TransferTask transfer_props
  | ImportTask import_props

record job_error =
  je_Msg :: gostring
  je_Error :: gostring

record job =
  j_User :: user_row
  j_Task :: task_row
  j_Props :: task_props
  j_Err :: "job_error option"
  j_zipPath :: gostring
  j_removed :: "gostring list"

definition job_Type :: "task_props \<Rightarrow> int" where
  "job_Type props =
     (case props of CompressTask _ \<Rightarrow> CompressTaskType | DecompressTask _ \<Rightarrow> DecompressTaskType
      | TransferTask _ \<Rightarrow> TransferTaskType | ImportTask _ \<Rightarrow> ImportTaskType)"

definition job_Creator :: "job \<Rightarrow> uint" where
  "job_Creator j = u_ID (j_User j)"

text \<open>
  What the jobs use: the file system and its hooks, the levels a walk over folders may take, the
  nodes, JSON, the messages of errors, and the local files.
\<close>

record 'p task_env =
  te_sys :: "'p sys"
  te_run :: "'p hook_runner"
  te_levels :: nat
  te_nodes :: "uint \<Rightarrow> addr option"
  te_marshal :: "task_props \<Rightarrow> gostring"
  te_unmarshal :: "int \<Rightarrow> gostring \<Rightarrow> task_props option"
  te_errJSON :: "job_error \<Rightarrow> gostring"
  te_message :: "fs_error \<Rightarrow> gostring"
  te_zipFile :: "gostring option"
  te_zipWriter :: zip_writer
  te_zip :: "zip_entry list \<Rightarrow> gostring"
  te_open :: "gostring \<Rightarrow> fs_error + gostring"
  te_identify :: "gostring \<Rightarrow> gostring \<Rightarrow> gostring \<Rightarrow> fs_error + archive"
  te_temp :: bool
  te_schedule :: "extraction list \<Rightarrow> extraction list"

type_synonym 'p task_state = "'p server \<times> job"

definition on_db :: "(db \<Rightarrow> 'a \<times> db) \<Rightarrow> 'p server \<Rightarrow> 'p server" where
  "on_db f sv = sv\<lparr>sv_db := snd (f (sv_db sv))\<rparr>"

text \<open>The errors of these statements are dropped.\<close>

definition job_SetStatus :: "'p task_env \<Rightarrow> int \<Rightarrow> 'p task_state \<Rightarrow> 'p task_state" where
  "job_SetStatus E status = (\<lambda>(sv, j). (on_db (Task_SetStatus (orm (te_sys E)) (j_Task j) status) sv, j))"

definition SetProgress :: "'p task_env \<Rightarrow> job \<Rightarrow> int \<Rightarrow> 'p world \<Rightarrow> 'p world" where
  "SetProgress E j progress w =
     w\<lparr>wdb := snd (Task_SetProgress (orm (te_sys E)) (j_Task j) progress (wdb w))\<rparr>"

definition removeZipFile :: "job \<Rightarrow> job" where
  "removeZipFile j = (if j_zipPath j \<noteq> [] then j\<lparr>j_removed := j_removed j @ [j_zipPath j]\<rparr> else j)"

definition record_error :: "'p task_env \<Rightarrow> job_error \<Rightarrow> 'p task_state \<Rightarrow> 'p task_state" where
  "record_error E err = (\<lambda>(sv, j).
     (on_db (Task_SetError (orm (te_sys E)) (j_Task j) (te_errJSON E err)) sv, j\<lparr>j_Err := Some err\<rparr>))"

text \<open>Those of a decompression are not implemented, and panic.\<close>

definition job_SetError :: "'p task_env \<Rightarrow> job_error \<Rightarrow> 'p task_state \<Rightarrow> 'p task_state option" where
  "job_SetError E err s =
     (case j_Props (snd s) of
        CompressTask _ \<Rightarrow> Some (map_prod id removeZipFile (record_error E err s))
      | DecompressTask _ \<Rightarrow> None
      | TransferTask _ \<Rightarrow> Some (record_error E err s)
      | ImportTask _ \<Rightarrow> Some (record_error E err s))"

definition job_GetError :: "job \<Rightarrow> job_error option option" where
  "job_GetError j = (case j_Props j of DecompressTask _ \<Rightarrow> None | _ \<Rightarrow> Some (j_Err j))"

definition err_msg :: "'p task_env \<Rightarrow> gostring \<Rightarrow> fs_error option \<Rightarrow> job_error" where
  "err_msg E msg err = \<lparr>je_Msg = msg, je_Error = (case err of None \<Rightarrow> [] | Some e \<Rightarrow> te_message E e)\<rparr>"

text \<open>How \<open>Do\<close> ends.\<close>

datatype 's outcome = Finished 's | Panicked 's

definition SetErrorMsg :: "'p task_env \<Rightarrow> gostring \<Rightarrow> fs_error option \<Rightarrow> 'p task_state \<Rightarrow> 'p task_state outcome" where
  "SetErrorMsg E msg err s =
     (case job_SetError E (err_msg E msg err) s of None \<Rightarrow> Panicked s | Some s' \<Rightarrow> Finished s')"

text \<open>The file system of a job shares its user.\<close>

definition leave :: "'p world \<Rightarrow> job \<Rightarrow> 'p task_state" where
  "leave w j = (server_of w, j\<lparr>j_User := User w\<rparr>)"

definition task_fs :: "'p task_env \<Rightarrow> 'p task_state \<Rightarrow> fs_error option \<times> 'p world" where
  "task_fs E = (\<lambda>(sv, j). NewFileSystem (te_sys E) (j_User j) (sv_db sv) (sv_cache sv) (sv_disk sv))"

definition failed_with :: "'p task_env \<Rightarrow> gostring \<Rightarrow> bool \<Rightarrow> fs_error \<Rightarrow> 'p task_state \<Rightarrow> 'p task_state outcome option" where
  "failed_with E msg withErr e s =
     (if e = ErrPanic then Some (Panicked s) else Some (SetErrorMsg E msg (if withErr then Some e else None) s))"

section \<open>The tasks (compress.go, decompress.go, transfer.go, import.go)\<close>

definition compress_Do :: "'p task_env \<Rightarrow> compress_props \<Rightarrow> 'p task_state \<Rightarrow> 'p task_state outcome option" where
  "compress_Do E props s0 =
     (let S = te_sys E; j = snd s0 in
      case task_fs E s0 of
        (Some e, w) \<Rightarrow> failed_with E (te_message E e) False e (leave w j)
      | (None, w) \<Rightarrow>
          (let w1 = SetProgress E j CompressingProgress w in
           case te_zipFile E of
             None \<Rightarrow> Some (SetErrorMsg E [] None (leave w1 j))
           | Some zipFilePath \<Rightarrow>
               (case Compress (te_levels E) S (te_zipWriter E) Background (\<lambda>i. False) (cp_Dirs props) (cp_Files props) False w1 of
                  None \<Rightarrow> None
                | Some (Some e, w2, z) \<Rightarrow> failed_with E (te_message E e) False e (leave w2 j)
                | Some (None, w2, z) \<Rightarrow>
                    (let j1 = j\<lparr>j_zipPath := zipFilePath\<rparr>; w3 = SetProgress E j1 TransferringProgress w2 in
                     case UploadFromPath S (te_run E) Background (Inr (te_zip E z)) (cp_Dst props) 0 w3 of
                       None \<Rightarrow> None
                     | Some (Some e, w4) \<Rightarrow> failed_with E (te_message E e) False e (leave w4 j1)
                     | Some (None, w4) \<Rightarrow> Some (Finished (leave w4 (removeZipFile j1)))))))"

definition decompress_Do :: "'p task_env \<Rightarrow> decompress_props \<Rightarrow> 'p task_state \<Rightarrow> 'p task_state outcome option" where
  "decompress_Do E props s0 =
     (let S = te_sys E; j = snd s0 in
      case task_fs E s0 of
        (Some e, w) \<Rightarrow> failed_with E ''Unable to create file system'' True e (leave w j)
      | (None, w) \<Rightarrow>
          (case Decompress S (te_run E) Background (te_identify E) (te_temp E) (te_schedule E)
                  (dp_Src props) (dp_Dst props) (dp_Encoding props) (SetProgress E j DecompressingProgress w) of
             None \<Rightarrow> None
           | Some (Some e, w2) \<Rightarrow> failed_with E ''Decompression failed'' True e (leave w2 j)
           | Some (None, w2) \<Rightarrow> Some (Finished (leave w2 j))))"

definition transfer_dst :: "transfer_props \<Rightarrow> gostring \<Rightarrow> gostring" where
  "transfer_dst props f =
     (if tp_TrimPath props then pathJoin (tp_Dst props) (trimPrefix (FormSlash f) (FormSlash (tp_Parent props)))
      else pathJoin (tp_Dst props) (pathBase f))"

text \<open>One file: a node that is not there is reported, and used.\<close>

definition transfer_file ::
  "'p task_env \<Rightarrow> transfer_props \<Rightarrow> gostring \<Rightarrow> 'p world \<Rightarrow> job \<Rightarrow> ((fs_error option \<times> 'p world) option) outcome" where
  "transfer_file E props f w j =
     (let S = te_sys E; dst = transfer_dst props f in
      if tp_NodeID props > 1 then
        (case te_nodes E (tp_NodeID props) of
           None \<Rightarrow> Panicked (Some (None, w))
         | Some node \<Rightarrow>
             Finished (map_option (\<lambda>(e, f', w'). (e, w'))
               (UploadFromStream S (te_run E) Background
                 (zero_stream\<lparr>fst_Size := (case tp_SrcSizes props f of None \<Rightarrow> 0 | Some n \<Rightarrow> n),
                    fst_Name := pathBase dst, fst_VirtualPath := pathDir dst, fst_Src := f\<rparr>) False
                 (SwitchToSlaveHandler (tp_NodeID props) w))))
      else Finished (UploadFromPath S (te_run E) Background (te_open E f) dst 0 w))"

text \<open>An error of one file does not stop the loop.\<close>

fun transfer_loop ::
  "'p task_env \<Rightarrow> transfer_props \<Rightarrow> int \<Rightarrow> gostring list \<Rightarrow> 'p world \<Rightarrow> job \<Rightarrow> 'p task_state outcome option" where
  "transfer_loop E props i [] w j = Some (Finished (leave w j))"
| "transfer_loop E props i (f # fs) w j =
     (let w1 = SetProgress E j i w in
      case transfer_file E props f w1 j of
        Panicked _ \<Rightarrow>
          Some (Panicked (record_error E (err_msg E ''Slave node unavailable'' None) (leave w1 j)))
      | Finished None \<Rightarrow> None
      | Finished (Some (None, w2)) \<Rightarrow> transfer_loop E props (i + 1) fs w2 j
      | Finished (Some (Some e, w2)) \<Rightarrow>
          (if e = ErrPanic then Some (Panicked (leave w2 j))
           else
             (let (sv, j') = record_error E (err_msg E ''File transfer failed'' (Some e)) (leave w2 j)
              in transfer_loop E props (i + 1) fs (w2\<lparr>wdb := sv_db sv\<rparr>) j')))"

text \<open>The deferred call: the folder of a transfer on the master is removed however it ends.\<close>

definition transfer_Recycle :: "transfer_props \<Rightarrow> 'p task_state \<Rightarrow> 'p task_state" where
  "transfer_Recycle props = (\<lambda>(sv, j).
     (sv, if tp_NodeID props = 1 then j\<lparr>j_removed := j_removed j @ [tp_Parent props]\<rparr> else j))"

definition transfer_Do :: "'p task_env \<Rightarrow> transfer_props \<Rightarrow> 'p task_state \<Rightarrow> 'p task_state outcome option" where
  "transfer_Do E props s0 =
     map_option (map_outcome (transfer_Recycle props))
       (case task_fs E s0 of
          (Some e, w) \<Rightarrow> failed_with E (te_message E e) False e (leave w (snd s0))
        | (None, w) \<Rightarrow> transfer_loop E props 0 (tp_Src props) w (snd s0))"

text \<open>The folders of an import: those that were made are remembered by their paths.\<close>

definition import_dir ::
  "'p task_env \<Rightarrow> import_props \<Rightarrow> phys_object \<Rightarrow> 'p world \<times> (gostring \<rightharpoonup> folder_row) \<Rightarrow>
   ('p world \<times> (gostring \<rightharpoonup> folder_row)) run" where
  "import_dir E props ob = (\<lambda>(w, pathCache).
     (let virtualPath = pathJoin (ip_Dst props) (po_RelativePath ob) in
      case CreateDirectory (orm (te_sys E)) virtualPath w of
        (Inl e, w') \<Rightarrow> (if e = ErrPanic then Some (Some ErrPanic, w', pathCache) else Some (None, w', pathCache))
      | (Inr folder, w') \<Rightarrow>
          Some (None, w', if d_ID folder > 0 then pathCache(virtualPath \<mapsto> folder) else pathCache)))"

definition import_file ::
  "'p task_env \<Rightarrow> import_props \<Rightarrow> phys_object \<Rightarrow> 'p world \<times> (gostring \<rightharpoonup> folder_row) \<Rightarrow>
   ('p world \<times> (gostring \<rightharpoonup> folder_row)) run" where
  "import_file E props ob = (\<lambda>(w, pathCache).
     (let virtualPath = pathDir (pathJoin (ip_Dst props) (po_RelativePath ob));
          fileHeader = zero_stream\<lparr>fst_Size := po_Size ob, fst_VirtualPath := virtualPath, fst_Name := po_Name ob,
            fst_SavePath := po_Source ob\<rparr>
      in case (case pathCache virtualPath of
                 Some parent \<Rightarrow> (Inr parent, w)
               | None \<Rightarrow> CreateDirectory (orm (te_sys E)) virtualPath w) of
           (Inl e, w') \<Rightarrow> (if e = ErrPanic then Some (Some ErrPanic, w', pathCache) else Some (None, w', pathCache))
         | (Inr parentFolder, w') \<Rightarrow>
             (case AddFile (te_sys E) (te_run E) Background parentFolder fileHeader w' of
                None \<Rightarrow> None
              | Some (Inl e, _, w2) \<Rightarrow>
                  (if e = ErrPanic \<or> e = ErrInsufficientCapacity then Some (Some e, w2, pathCache)
                   else Some (None, w2, pathCache))
              | Some (Inr _, _, w2) \<Rightarrow> Some (None, w2, pathCache))))"

definition import_objects ::
  "'p task_env \<Rightarrow> import_props \<Rightarrow> phys_object list \<Rightarrow> 'p world \<Rightarrow> (fs_error option \<times> 'p world) option" where
  "import_objects E props obs w =
     map_option (\<lambda>(e, w', m). (e, w'))
       (bind_run (fold_run (import_dir E props) (filter po_IsDir obs) (w, Map.empty))
          (fold_run (import_file E props) (filter (\<lambda>ob. \<not> po_IsDir ob) obs)))"

definition import_Do :: "'p task_env \<Rightarrow> import_props \<Rightarrow> 'p task_state \<Rightarrow> 'p task_state outcome option" where
  "import_Do E props s0 =
     (let S = te_sys E; (sv, j) = s0 in
      case GetPolicyByID (orm S) (clock S) (ip_PolicyID props) (sv_db sv) (sv_cache sv) of
        (Inl e, ch) \<Rightarrow>
          Some (SetErrorMsg E ''Storage policy not found'' (Some (ModelError (DbErr e))) (sv\<lparr>sv_cache := ch\<rparr>, j))
      | (Inr policy, ch) \<Rightarrow>
          (let j1 = j\<lparr>j_User := (j_User j)\<lparr>u_Policy := policy\<rparr>\<rparr> in
           case task_fs E (sv\<lparr>sv_cache := ch\<rparr>, j1) of
             (Some e, w) \<Rightarrow> failed_with E (te_message E e) False e (leave w j1)
           | (None, w0) \<Rightarrow>
               (case DispatchHandler S (w0\<lparr>Policy := Some policy\<rparr>) of
                  (Some e, w) \<Rightarrow> failed_with E ''Unable to distribute storage policy'' True e (leave w j1)
                | (None, w1) \<Rightarrow>
                    (let w2 = SetProgress E j1 ListingProgress
                           (Use ''BeforeAddFile'' HookValidateCapacity (Use ''BeforeAddFile'' HookValidateFile w1)) in
                     case Handler w2 of
                       None \<Rightarrow> Some (Panicked (leave w2 j1))
                     | Some drv \<Rightarrow>
                         (case h_List (drivers S drv) (ip_Src props) (ip_Recursive props) (wdisk w2) of
                            Inl e \<Rightarrow> failed_with E ''Unable to list files'' True e (leave w2 j1)
                          | Inr obs \<Rightarrow>
                              (case import_objects E props obs (SetProgress E j1 InsertingProgress w2) of
                                 None \<Rightarrow> None
                               | Some (Some e, w3) \<Rightarrow> failed_with E ''Insufficient capacity'' True e (leave w3 j1)
                               | Some (None, w3) \<Rightarrow> Some (Finished (leave w3 j1))))))))"

definition job_Do :: "'p task_env \<Rightarrow> 'p task_state \<Rightarrow> 'p task_state outcome option" where
  "job_Do E s =
     (case j_Props (snd s) of
        CompressTask p \<Rightarrow> compress_Do E p s
      | DecompressTask p \<Rightarrow> decompress_Do E p s
      | TransferTask p \<Rightarrow> transfer_Do E p s
      | ImportTask p \<Rightarrow> import_Do E p s)"

section \<open>Recording and resuming (job.go)\<close>

definition Record :: "'p task_env \<Rightarrow> task_props \<Rightarrow> user_row \<Rightarrow> db \<Rightarrow> (db_error + task_row) \<times> db" where
  "Record E props user d =
     (let row = zero_task\<lparr>t_Status := Queued, t_Type := job_Type props, t_UserID := u_ID user, t_Progress := 0,
            t_Error := [], t_Props := te_marshal E props\<rparr>
      in case Task_Create (orm (te_sys E)) row d of
           (Inl e, d') \<Rightarrow> (Inl e, d')
         | (Inr i, d') \<Rightarrow> (Inr (row\<lparr>t_ID := i\<rparr>), d'))"

definition new_job :: "user_row \<Rightarrow> task_row \<Rightarrow> task_props \<Rightarrow> job" where
  "new_job user row props =
     \<lparr>j_User = user, j_Task = row, j_Props = props, j_Err = None, j_zipPath = [], j_removed = []\<rparr>"

definition recorded_job :: "'p task_env \<Rightarrow> user_row \<Rightarrow> task_props \<Rightarrow> db \<Rightarrow> (db_error + job) \<times> db" where
  "recorded_job E user props d =
     (case Record E props user d of (Inl e, d') \<Rightarrow> (Inl e, d') | (Inr row, d') \<Rightarrow> (Inr (new_job user row props), d'))"

definition NewCompressTask :: "'p task_env \<Rightarrow> user_row \<Rightarrow> gostring \<Rightarrow> uint list \<Rightarrow> uint list \<Rightarrow> db \<Rightarrow> (db_error + job) \<times> db" where
  "NewCompressTask E user dst dirs fls d =
     recorded_job E user (CompressTask \<lparr>cp_Dirs = dirs, cp_Files = fls, cp_Dst = dst\<rparr>) d"

definition NewDecompressTask :: "'p task_env \<Rightarrow> user_row \<Rightarrow> gostring \<Rightarrow> gostring \<Rightarrow> gostring \<Rightarrow> db \<Rightarrow> (db_error + job) \<times> db" where
  "NewDecompressTask E user src dst encoding d =
     recorded_job E user (DecompressTask \<lparr>dp_Src = src, dp_Dst = dst, dp_Encoding = encoding\<rparr>) d"

definition with_creator ::
  "'p task_env \<Rightarrow> uint \<Rightarrow> db \<Rightarrow> (user_row \<Rightarrow> (db_error + job) \<times> db) \<Rightarrow> (db_error + job) \<times> db" where
  "with_creator E uid d k =
     (case GetActivateUserByID (orm (te_sys E)) (preload (te_sys E)) uid d of Inl e \<Rightarrow> (Inl e, d) | Inr user \<Rightarrow> k user)"

definition NewTransferTask ::
  "'p task_env \<Rightarrow> uint \<Rightarrow> gostring list \<Rightarrow> gostring \<Rightarrow> gostring \<Rightarrow> bool \<Rightarrow> uint \<Rightarrow> (gostring \<rightharpoonup> u64) \<Rightarrow> db \<Rightarrow> (db_error + job) \<times> db" where
  "NewTransferTask E user src dst parent trim node srcSizes d =
     with_creator E user d (\<lambda>creator. recorded_job E creator (TransferTask
       \<lparr>tp_Src = src, tp_SrcSizes = srcSizes, tp_Parent = parent, tp_Dst = dst, tp_TrimPath = trim, tp_NodeID = node\<rparr>) d)"

definition NewImportTask ::
  "'p task_env \<Rightarrow> uint \<Rightarrow> uint \<Rightarrow> gostring \<Rightarrow> gostring \<Rightarrow> bool \<Rightarrow> db \<Rightarrow> (db_error + job) \<times> db" where
  "NewImportTask E user policy src dst recursive d =
     with_creator E user d (\<lambda>creator. recorded_job E creator (ImportTask
       \<lparr>ip_PolicyID = policy, ip_Src = src, ip_Recursive = recursive, ip_Dst = dst\<rparr>) d)"

datatype task_error = ErrUnknownTaskType | ErrTaskDb db_error | ErrTaskProps

text \<open>The four of them differ in the type the properties are decoded into.\<close>

definition task_from_model :: "'p task_env \<Rightarrow> int \<Rightarrow> task_row \<Rightarrow> db \<Rightarrow> task_error + job" where
  "task_from_model E typ row d =
     (case GetActivateUserByID (orm (te_sys E)) (preload (te_sys E)) (t_UserID row) d of
        Inl e \<Rightarrow> Inl (ErrTaskDb e)
      | Inr user \<Rightarrow>
          (case te_unmarshal E typ (t_Props row) of
             None \<Rightarrow> Inl ErrTaskProps
           | Some props \<Rightarrow> Inr (new_job user row props)))"

definition NewCompressTaskFromModel :: "'p task_env \<Rightarrow> task_row \<Rightarrow> db \<Rightarrow> task_error + job" where
  "NewCompressTaskFromModel E = task_from_model E CompressTaskType"

definition NewDecompressTaskFromModel :: "'p task_env \<Rightarrow> task_row \<Rightarrow> db \<Rightarrow> task_error + job" where
  "NewDecompressTaskFromModel E = task_from_model E DecompressTaskType"

definition NewTransferTaskFromModel :: "'p task_env \<Rightarrow> task_row \<Rightarrow> db \<Rightarrow> task_error + job" where
  "NewTransferTaskFromModel E = task_from_model E TransferTaskType"

definition NewImportTaskFromModel :: "'p task_env \<Rightarrow> task_row \<Rightarrow> db \<Rightarrow> task_error + job" where
  "NewImportTaskFromModel E = task_from_model E ImportTaskType"

definition GetJobFromModel :: "'p task_env \<Rightarrow> task_row \<Rightarrow> db \<Rightarrow> task_error + job" where
  "GetJobFromModel E row d =
     (if t_Type row = CompressTaskType then NewCompressTaskFromModel E row d
      else if t_Type row = DecompressTaskType then NewDecompressTaskFromModel E row d
      else if t_Type row = TransferTaskType then NewTransferTaskFromModel E row d
      else if t_Type row = ImportTaskType then NewImportTaskFromModel E row d
      else Inl ErrUnknownTaskType)"

text \<open>The jobs that are submitted again; those that cannot be resumed are skipped.\<close>

definition Resume :: "'p task_env \<Rightarrow> db \<Rightarrow> job list" where
  "Resume E d =
     List.map_filter (\<lambda>row. case GetJobFromModel E row d of Inl _ \<Rightarrow> None | Inr j \<Rightarrow> Some j)
       (GetTasksByStatus (orm (te_sys E)) [Queued, Processing] d)"

section \<open>The worker (worker.go)\<close>

definition worker_Do :: "'p task_env \<Rightarrow> 'p task_state \<Rightarrow> 'p task_state option" where
  "worker_Do E s =
     (case job_Do E (job_SetStatus E Processing s) of
        None \<Rightarrow> None
      | Some (Panicked s1) \<Rightarrow>
          map_option (job_SetStatus E TaskError) (job_SetError E (err_msg E ''Fatal error'' (Some ErrPanic)) s1)
      | Some (Finished s1) \<Rightarrow>
          (case job_GetError (snd s1) of
             None \<Rightarrow> map_option (job_SetStatus E TaskError) (job_SetError E (err_msg E ''Fatal error'' (Some ErrPanic)) s1)
           | Some (Some err) \<Rightarrow> Some (job_SetStatus E TaskError s1)
           | Some None \<Rightarrow> Some (job_SetStatus E TaskComplete s1)))"

section \<open>The pool of workers (pool.go)\<close>

text \<open>
  \<open>ap_tokens\<close> is what the channel of idle workers holds, \<open>ap_cap\<close> its capacity; \<open>None\<close> is a send on
  a full channel or a receive from an empty one, which blocks. \<open>ap_jobs\<close> are the goroutines that
  \<open>Submit\<close> started, each with its job and the call it has come to.
\<close>

datatype place = Obtaining | Doing | Freeing | Returned

record 'j async_pool =
  ap_cap :: nat
  ap_tokens :: nat
  ap_jobs :: "('j \<times> place) list"

primrec pool_Add :: "nat \<Rightarrow> 'j async_pool \<Rightarrow> 'j async_pool option" where
  "pool_Add 0 p = Some p"
| "pool_Add (Suc n) p =
     (if ap_tokens p < ap_cap p then pool_Add n (p\<lparr>ap_tokens := ap_tokens p + 1\<rparr>) else None)"

definition obtainWorker :: "'j async_pool \<Rightarrow> 'j async_pool option" where
  "obtainWorker p = (if ap_tokens p = 0 then None else Some (p\<lparr>ap_tokens := ap_tokens p - 1\<rparr>))"

definition freeWorker :: "'j async_pool \<Rightarrow> 'j async_pool option" where
  "freeWorker p = pool_Add 1 p"

definition pool_Submit :: "'j \<Rightarrow> 'j async_pool \<Rightarrow> 'j async_pool" where
  "pool_Submit j p = p\<lparr>ap_jobs := ap_jobs p @ [(j, Obtaining)]\<rparr>"

text \<open>
  The goroutine of \<open>Submit\<close>, one call: it gets a worker, has it do the job, and gives it back.
  \<open>None\<close> is a goroutine that blocks or has returned.
\<close>

definition submitted :: "nat \<Rightarrow> 'j async_pool \<Rightarrow> 'j async_pool option" where
  "submitted k p =
     (let (j, pl) = ap_jobs p ! k; to = (\<lambda>pl' q. q\<lparr>ap_jobs := (ap_jobs q)[k := (j, pl')]\<rparr>) in
      case pl of
        Obtaining \<Rightarrow> map_option (to Doing) (obtainWorker p)
      | Doing \<Rightarrow> Some (to Freeing p)
      | Freeing \<Rightarrow> map_option (to Returned) (freeWorker p)
      | Returned \<Rightarrow> None)"

text \<open>A negative number of workers makes \<open>make\<close> panic.\<close>

definition taskpool_Init :: "'p task_env \<Rightarrow> bool \<Rightarrow> db \<Rightarrow> job async_pool option" where
  "taskpool_Init E isMaster d =
     (let maxWorker = GetIntSetting (orm (te_sys E)) ''max_worker_num'' 10 d in
      if maxWorker < 0 then None
      else
        map_option (\<lambda>p. if isMaster then foldl (\<lambda>p j. pool_Submit j p) p (Resume E d) else p)
          (pool_Add (nat maxWorker)
            \<lparr>ap_cap = nat maxWorker, ap_tokens = 0, ap_jobs = []\<rparr>))"

text \<open>Jobs are submitted, and goroutines take their turns, in any order.\<close>

inductive task_run :: "'j async_pool \<Rightarrow> 'j async_pool \<Rightarrow> bool" for p0 where
  none: "task_run p0 p0"
| submit: "task_run p0 p \<Longrightarrow> task_run p0 (pool_Submit j p)"
| turn: "task_run p0 p \<Longrightarrow> k < length (ap_jobs p) \<Longrightarrow> submitted k p = Some p' \<Longrightarrow> task_run p0 p'"

text \<open>The goroutines that have a worker. With the idle workers they are all there are.\<close>

definition at_work :: "'j async_pool \<Rightarrow> nat" where
  "at_work p = length (filter (\<lambda>g. snd g \<in> {Doing, Freeing}) (ap_jobs p))"

definition balanced :: "'j async_pool \<Rightarrow> bool" where
  "balanced p \<longleftrightarrow> at_work p + ap_tokens p = ap_cap p"

lemma pool_Add_full: "ap_tokens p + n \<le> ap_cap p \<Longrightarrow> pool_Add n p = Some (p\<lparr>ap_tokens := ap_tokens p + n\<rparr>)"
  by (induction n arbitrary: p) simp_all

text \<open>What a turn does to the number of those at work.\<close>

lemma at_work_update:
  assumes "k < length (ap_jobs p)" and "ap_jobs p ! k = (j, pl)"
  shows "at_work (p\<lparr>ap_jobs := (ap_jobs p)[k := (j, pl')]\<rparr>) + (if pl \<in> {Doing, Freeing} then 1 else 0) =
    at_work p + (if pl' \<in> {Doing, Freeing} then 1 else 0)"
proof -
  have "ap_jobs p = take k (ap_jobs p) @ (j, pl) # drop (Suc k) (ap_jobs p)"
    using id_take_nth_drop [OF assms(1)] assms(2) by simp
  moreover have "(ap_jobs p)[k := (j, pl')] = take k (ap_jobs p) @ (j, pl') # drop (Suc k) (ap_jobs p)"
    by (rule upd_conv_take_nth_drop) (rule assms(1))
  ultimately have "filter (\<lambda>g. snd g \<in> {Doing, Freeing}) (ap_jobs p) =
        filter (\<lambda>g. snd g \<in> {Doing, Freeing}) (take k (ap_jobs p) @ (j, pl) # drop (Suc k) (ap_jobs p))"
    and "filter (\<lambda>g. snd g \<in> {Doing, Freeing}) ((ap_jobs p)[k := (j, pl')]) =
        filter (\<lambda>g. snd g \<in> {Doing, Freeing}) (take k (ap_jobs p) @ (j, pl') # drop (Suc k) (ap_jobs p))"
    by (simp_all only:)
  then show ?thesis by (simp add: at_work_def)
qed

lemma at_work_tokens [simp]: "at_work (p\<lparr>ap_tokens := n\<rparr>) = at_work p"
  by (simp add: at_work_def)

text \<open>Giving a worker back never blocks, since its place in the channel is free.\<close>

lemma freeing_has_room:
  assumes "balanced p" and "k < length (ap_jobs p)" and "ap_jobs p ! k = (j, Freeing)"
  shows "freeWorker p = Some (p\<lparr>ap_tokens := ap_tokens p + 1\<rparr>)"
proof -
  have "(j, Freeing) \<in> set (ap_jobs p)" using nth_mem [OF assms(2)] assms(3) by simp
  then have "filter (\<lambda>g. snd g \<in> {Doing, Freeing}) (ap_jobs p) \<noteq> []" by (auto simp: filter_empty_conv intro: bexI [of _ "(j, Freeing)"])
  then have "0 < at_work p" by (simp add: at_work_def)
  then show ?thesis using assms(1) by (simp add: freeWorker_def balanced_def)
qed

lemma submitted_inv:
  assumes "balanced p" and "k < length (ap_jobs p)" and "submitted k p = Some p'"
  shows "balanced p' \<and> ap_cap p' = ap_cap p"
proof -
  obtain j pl where g: "ap_jobs p ! k = (j, pl)" by fastforce
  note upd = at_work_update [OF assms(2) g]
  show ?thesis
  proof (cases pl)
    case Obtaining
    then have "ap_tokens p \<noteq> 0"
      "p' = p\<lparr>ap_jobs := (ap_jobs p)[k := (j, Doing)], ap_tokens := ap_tokens p - 1\<rparr>"
      using assms(3) g by (auto simp: submitted_def obtainWorker_def split: if_splits)
    with Obtaining upd [of Doing] assms(1) show ?thesis by (simp add: balanced_def)
  next
    case Doing
    then have "p' = p\<lparr>ap_jobs := (ap_jobs p)[k := (j, Freeing)]\<rparr>"
      using assms(3) g by (simp add: submitted_def)
    with Doing upd [of Freeing] assms(1) show ?thesis by (simp add: balanced_def)
  next
    case Freeing
    then have "p' = p\<lparr>ap_tokens := ap_tokens p + 1, ap_jobs := (ap_jobs p)[k := (j, Returned)]\<rparr>"
      using assms(3) g freeing_has_room [OF assms(1,2)] by (auto simp: submitted_def)
    then have "p' = p\<lparr>ap_jobs := (ap_jobs p)[k := (j, Returned)], ap_tokens := ap_tokens p + 1\<rparr>" by simp
    with Freeing upd [of Returned] assms(1) show ?thesis by (simp add: balanced_def)
  next
    case Returned
    with assms(3) g show ?thesis by (simp add: submitted_def)
  qed
qed

lemma submit_balanced [simp]: "balanced (pool_Submit j p) = balanced p" "ap_cap (pool_Submit j p) = ap_cap p"
  by (simp_all add: pool_Submit_def balanced_def at_work_def)

lemma submit_all_balanced:
  "balanced (foldl (\<lambda>p j. pool_Submit j p) p js) = balanced p \<and> ap_cap (foldl (\<lambda>p j. pool_Submit j p) p js) = ap_cap p"
  by (induction js arbitrary: p) simp_all

lemma taskpool_Init_balanced:
  assumes "taskpool_Init E isMaster d = Some p"
  shows "balanced p \<and> ap_cap p = nat (GetIntSetting (orm (te_sys E)) ''max_worker_num'' 10 d)"
proof -
  let ?n = "nat (GetIntSetting (orm (te_sys E)) ''max_worker_num'' 10 d)"
  have "pool_Add ?n \<lparr>ap_cap = ?n, ap_tokens = 0, ap_jobs = [] :: (job \<times> place) list\<rparr> =
      Some \<lparr>ap_cap = ?n, ap_tokens = ?n, ap_jobs = []\<rparr>"
    by (subst pool_Add_full) simp_all
  moreover have "balanced \<lparr>ap_cap = ?n, ap_tokens = ?n, ap_jobs = [] :: (job \<times> place) list\<rparr>"
    by (simp add: balanced_def at_work_def)
  ultimately show ?thesis
    using assms by (auto simp: taskpool_Init_def Let_def submit_all_balanced split: if_splits)
qed

lemma task_run_balanced: "task_run p0 p \<Longrightarrow> balanced p0 \<Longrightarrow> balanced p \<and> ap_cap p = ap_cap p0"
  by (induction rule: task_run.induct) (auto dest: submitted_inv)

section \<open>What a worker does with a job\<close>

text \<open>The job keeps its row and its properties.\<close>

definition same :: "job \<Rightarrow> 'p task_state \<Rightarrow> bool" where
  "same j s \<longleftrightarrow> j_Task (snd s) = j_Task j \<and> j_Props (snd s) = j_Props j"

lemma same_simps [simp]:
  "same j0 (leave w j) = (j_Task j = j_Task j0 \<and> j_Props j = j_Props j0)"
  "same j0 (job_SetStatus E st s) = same j0 s"
  "same j0 (record_error E err s) = same j0 s"
  by (cases s; simp add: same_def leave_def job_SetStatus_def record_error_def)+

lemma job_SetError_same: "job_SetError E err s = Some s' \<Longrightarrow> same j s \<Longrightarrow> same j s' \<and> j_Err (snd s') = Some err"
  by (cases s) (auto simp: job_SetError_def same_def record_error_def removeZipFile_def split: task_props.splits)

lemma failed_with_same: "failed_with E msg b e s = Some r \<Longrightarrow> same j s \<Longrightarrow> pred_outcome (same j) r"
  by (auto simp: failed_with_def SetErrorMsg_def split: if_splits option.splits dest: job_SetError_same)

lemma SetErrorMsg_same: "same j s \<Longrightarrow> pred_outcome (same j) (SetErrorMsg E msg e s)"
  by (auto simp: SetErrorMsg_def split: option.splits dest: job_SetError_same)

lemma removeZipFile_keeps [simp]: "j_Task (removeZipFile j) = j_Task j" "j_Props (removeZipFile j) = j_Props j"
  by (simp_all add: removeZipFile_def)

lemma compress_Do_same: "compress_Do E p s = Some r \<Longrightarrow> same j s \<Longrightarrow> pred_outcome (same j) r"
  unfolding compress_Do_def Let_def
  by (auto simp: same_def [of j s] split: prod.splits option.splits
      intro: SetErrorMsg_same elim!: failed_with_same)

lemma decompress_Do_same: "decompress_Do E p s = Some r \<Longrightarrow> same j s \<Longrightarrow> pred_outcome (same j) r"
  unfolding decompress_Do_def Let_def
  by (auto simp: same_def [of j s] split: prod.splits option.splits elim!: failed_with_same)

lemma transfer_loop_same:
  "transfer_loop E p i fs w j = Some r \<Longrightarrow> j_Task j = j_Task j0 \<Longrightarrow> j_Props j = j_Props j0 \<Longrightarrow> pred_outcome (same j0) r"
proof (induction E p i fs w j rule: transfer_loop.induct)
  case (1 E props i w j)
  then show ?case by auto
next
  case (2 E props i f fs w j)
  let ?w1 = "SetProgress E j i w"
  show ?case
  proof (cases "transfer_file E props f ?w1 j")
    case (Panicked x)
    with 2 show ?thesis by auto
  next
    case (Finished x)
    show ?thesis
    proof (cases x)
      case None
      with 2 Finished show ?thesis by simp
    next
      case (Some res)
      then obtain e w2 where res: "x = Some (e, w2)" by (cases res) auto
      show ?thesis
      proof (cases e)
        case None
        with 2 Finished res show ?thesis by simp
      next
        case (Some err)
        obtain sv j' where rec: "record_error E (err_msg E ''File transfer failed'' (Some err)) (leave w2 j) = (sv, j')"
          by (cases "record_error E (err_msg E ''File transfer failed'' (Some err)) (leave w2 j)")
        then have "j_Task j' = j_Task j" "j_Props j' = j_Props j"
          by (auto simp: record_error_def leave_def)
        with 2 Finished res Some rec show ?thesis by (auto split: if_splits)
      qed
    qed
  qed
qed

lemma transfer_Recycle_same [simp]: "same j (transfer_Recycle p s) = same j s"
  by (cases s) (simp add: transfer_Recycle_def same_def)

lemma transfer_Do_same: "transfer_Do E p s = Some r \<Longrightarrow> same j s \<Longrightarrow> pred_outcome (same j) r"
proof -
  assume r: "transfer_Do E p s = Some r" and s: "same j s"
  let ?inner = "case task_fs E s of (Some e, w) \<Rightarrow> failed_with E (te_message E e) False e (leave w (snd s))
    | (None, w) \<Rightarrow> transfer_loop E p 0 (tp_Src p) w (snd s)"
  obtain r0 where r0: "?inner = Some r0" "r = map_outcome (transfer_Recycle p) r0"
    using r by (auto simp: transfer_Do_def)
  have "pred_outcome (same j) r0"
    using r0(1) s by (auto simp: same_def [of j s] split: prod.splits option.splits
        elim!: failed_with_same transfer_loop_same)
  then show ?thesis unfolding r0(2) by (cases r0) simp_all
qed

lemma import_Do_same: "import_Do E p s = Some r \<Longrightarrow> same j s \<Longrightarrow> pred_outcome (same j) r"
  unfolding import_Do_def Let_def
  by (auto simp: same_def [of j s] split: prod.splits option.splits sum.splits
      intro!: SetErrorMsg_same elim!: failed_with_same) (simp_all add: same_def)

lemma job_Do_same: "job_Do E s = Some r \<Longrightarrow> same j s \<Longrightarrow> pred_outcome (same j) r"
  by (auto simp: job_Do_def split: task_props.splits
      dest: compress_Do_same decompress_Do_same transfer_Do_same import_Do_same)

text \<open>A worker that comes back has set a last status, the one that fits the error of the job.\<close>

lemma worker_last_status:
  assumes "worker_Do E s = Some s'"
  shows "\<exists>s1. same (snd s) s1 \<and>
    s' = job_SetStatus E (if j_Err (snd s1) = None then TaskComplete else TaskError) s1 \<and>
    (\<forall>t. job_Do E (job_SetStatus E Processing s) = Some (Panicked t) \<longrightarrow> j_Err (snd s1) \<noteq> None)"
proof -
  obtain r where r: "job_Do E (job_SetStatus E Processing s) = Some r"
    using assms by (auto simp: worker_Do_def split: option.splits)
  have same: "pred_outcome (same (snd s)) r" by (rule job_Do_same [OF r], subst same_simps) (simp add: same_def)
  have fatal: ?thesis
    if t: "same (snd s) t" "map_option (job_SetStatus E TaskError) (job_SetError E err t) = Some s'" for t err
  proof -
    obtain s1 where s1: "job_SetError E err t = Some s1" "s' = job_SetStatus E TaskError s1" using t(2) by auto
    with job_SetError_same [OF s1(1) t(1)] show ?thesis by (intro exI [of _ s1]) simp
  qed
  show ?thesis
  proof (cases r)
    case (Panicked t)
    then show ?thesis using assms r same by (intro fatal [of t]) (simp_all add: worker_Do_def)
  next
    case (Finished t)
    show ?thesis
    proof (cases "job_GetError (snd t)")
      case None
      then show ?thesis using assms r same Finished by (intro fatal [of t]) (simp_all add: worker_Do_def)
    next
      case (Some e)
      then have "e = j_Err (snd t)" by (simp add: job_GetError_def split: task_props.splits)
      then show ?thesis
        using assms r same Finished Some by (intro exI [of _ t]) (cases "j_Err (snd t)"; simp add: worker_Do_def)
    qed
  qed
qed

section \<open>Properties\<close>

definition last_status :: "job \<Rightarrow> int" where
  "last_status j = (if j_Err j = None then TaskComplete else TaskError)"

lemma Task_SetStatus_rows:
  assumes "gorm_db G" and "Task_SetStatus G task st d = (Inr u, d')"
  shows "tasks d' = map (\<lambda>r. if t_ID r = t_ID task then r\<lparr>t_Status := st\<rparr> else r) (tasks d)"
proof -
  let ?P = "\<lambda>r. t_ID r = t_ID task" and ?u = "\<lambda>r. Some (r\<lparr>t_Status := st\<rparr>)"
  have d': "Updates (Tasks G) ?P ?u d = Inr d'"
    using assms(2) by (auto simp: Task_SetStatus_def Task_set_def write1_def by_key_def split: sum.splits if_splits)
  from gorm_table.update_rows [OF gorm_db.tasks [OF assms(1)] d'] show ?thesis by auto
qed

text \<open>
  C19. A task that has run is settled: when the worker comes back from a job, whatever the job
  did and even when it panicked, the last statement it ran on the database is the update of the
  task's row, to complete if the job carries no error and to failed if it does, and after a panic it
  does. When this update succeeds, the row says so, whatever it said before; when it fails,
  the worker drops the error and leaves the database as it was.
\<close>
theorem worker_settles_task:
  assumes "gorm_db (orm (te_sys E))" and "worker_Do E (sv, j) = Some (sv', j')"
  shows "\<exists>d res. Task_SetStatus (orm (te_sys E)) (j_Task j) (last_status j') d = (res, sv_db sv') \<and>
    (case res of
       Inr _ \<Rightarrow> \<forall>r\<in>set (tasks (sv_db sv')). t_ID r = t_ID (j_Task j) \<longrightarrow> t_Status r = last_status j'
     | Inl _ \<Rightarrow> sv_db sv' = d) \<and>
    (\<forall>s. job_Do E (job_SetStatus E Processing (sv, j)) = Some (Panicked s) \<longrightarrow> j_Err j' \<noteq> None)"
proof -
  let ?G = "orm (te_sys E)"
  obtain s1 where s1: "same j s1"
      "(sv', j') = job_SetStatus E (last_status (snd s1)) s1"
      "\<forall>s. job_Do E (job_SetStatus E Processing (sv, j)) = Some (Panicked s) \<longrightarrow> j_Err (snd s1) \<noteq> None"
    using worker_last_status [OF assms(2), folded last_status_def] by auto
  obtain sv1 j1 where "s1 = (sv1, j1)" by (cases s1)
  with s1 have j': "j' = j1" "j_Task j1 = j_Task j"
    and sv': "sv_db sv' = snd (Task_SetStatus ?G (j_Task j1) (last_status j1) (sv_db sv1))"
    by (simp_all add: same_def job_SetStatus_def on_db_def)
  let ?st = "last_status j'"
  obtain res where res: "Task_SetStatus ?G (j_Task j) ?st (sv_db sv1) = (res, sv_db sv')"
    using sv' j' by (metis prod.collapse)
  have "case res of
       Inr _ \<Rightarrow> \<forall>r\<in>set (tasks (sv_db sv')). t_ID r = t_ID (j_Task j) \<longrightarrow> t_Status r = ?st
     | Inl _ \<Rightarrow> sv_db sv' = sv_db sv1"
  proof (cases res)
    case (Inl e)
    with res show ?thesis by (auto simp: Task_SetStatus_def Task_set_def write1_def split: sum.splits)
  next
    case (Inr u)
    from Task_SetStatus_rows [OF assms(1) res [unfolded Inr]] Inr show ?thesis by auto
  qed
  with res s1(3) \<open>s1 = (sv1, j1)\<close> j'(1) show ?thesis by auto
qed

text \<open>
  No decompression ever finishes: its methods for errors are not implemented, and the worker
  calls one after every job and the other one while it recovers from the first, so it never
  comes back from such a task, whatever the archive.
\<close>
theorem decompression_never_finishes: "worker_Do E (sv, j\<lparr>j_Props := DecompressTask p\<rparr>) = None"
proof -
  let ?s = "(sv, j\<lparr>j_Props := DecompressTask p\<rparr>)"
  have props: "j_Props (snd t) = DecompressTask p" if "same (snd ?s) t" for t :: "'a task_state"
    using that by (simp add: same_def)
  have "same (snd ?s) (job_SetStatus E Processing ?s)" by (subst same_simps) (simp add: same_def)
  note same = job_Do_same [OF _ this]
  show ?thesis
  proof (cases "job_Do E (job_SetStatus E Processing ?s)")
    case None
    then show ?thesis by (simp add: worker_Do_def)
  next
    case (Some r)
    with same [OF Some] props show ?thesis
      by (cases r) (auto simp: worker_Do_def job_SetError_def job_GetError_def)
  qed
qed

text \<open>
  C20. A task survives a restart: what was recorded for a new job, read back from the database
  with the tasks that were not done, gives a job of the same kind with the same properties, for
  the user who is then found, and the pool is handed it.
\<close>
theorem recorded_job_resumes:
  assumes "gorm_db (orm (te_sys E))"
    and "te_unmarshal E (job_Type props) (te_marshal E props) = Some props"
    and "recorded_job E user props d = (Inr j, d')"
    and "GetActivateUserByID (orm (te_sys E)) (preload (te_sys E)) (u_ID user) d' = Inr user'"
    and "Find (Tasks (orm (te_sys E))) (\<lambda>r. t_Status r \<in> set [Queued, Processing]) d' = Inr rs"
  shows "\<exists>row\<in>set (tasks d'). t_ID row = t_ID (j_Task j) \<and> new_job user' row props \<in> set (Resume E d')"
proof -
  let ?G = "orm (te_sys E)"
  define row where "row = zero_task\<lparr>t_Status := Queued, t_Type := job_Type props, t_UserID := u_ID user, t_Progress := 0,
    t_Error := [], t_Props := te_marshal E props\<rparr>"
  obtain r where r: "Create (Tasks ?G) row d = Inr (r, d')" "j_Task j = row\<lparr>t_ID := t_ID r\<rparr>"
    using assms(3)
    by (auto simp: recorded_job_def Record_def Task_Create_def new_job_def row_def Let_def split: sum.splits prod.splits)
  from gorm_table.create_row [OF gorm_db.tasks [OF assms(1)] r(1)]
  obtain i where i: "r = row\<lparr>t_ID := i\<rparr>" "tasks d' = tasks d @ [r]" by auto
  then have "r \<in> set rs"
    using gorm_table.find_set [OF gorm_db.tasks [OF assms(1)] assms(5)] by (simp add: row_def)
  moreover have "GetJobFromModel E r d' = Inr (new_job user' r props)"
    using i(1) assms(2,4)
    by (cases props)
       (simp_all add: GetJobFromModel_def NewCompressTaskFromModel_def NewDecompressTaskFromModel_def
         NewTransferTaskFromModel_def NewImportTaskFromModel_def task_from_model_def row_def job_Type_def
         CompressTaskType_def DecompressTaskType_def TransferTaskType_def ImportTaskType_def)
  ultimately have "new_job user' r props \<in> set (Resume E d')"
    using assms(5) by (force simp: Resume_def GetTasksByStatus_def List.map_filter_def)
  then show ?thesis using i r(2) by (intro bexI [of _ r]) simp_all
qed

text \<open>
  C21. The pool never runs more jobs at once than the number of workers that was configured when
  it was made, and uses them all: from its start, with the jobs that are resumed, through every
  interleaving of submissions and of the goroutines of the jobs, those that have a worker and the
  idle workers make up that number; a goroutine that waits for a worker goes on unless the jobs at
  work are that many; and one that gives its worker back is never blocked.
\<close>
theorem task_pool_bounded:
  assumes "taskpool_Init E isMaster d = Some p0" and "task_run p0 p"
    and "k < length (ap_jobs p)" and "N = nat (GetIntSetting (orm (te_sys E)) ''max_worker_num'' 10 d)"
  shows "at_work p + ap_tokens p = N \<and>
    (snd (ap_jobs p ! k) = Obtaining \<longrightarrow> (submitted k p = None \<longleftrightarrow> at_work p = N)) \<and>
    (snd (ap_jobs p ! k) = Freeing \<longrightarrow> submitted k p \<noteq> None)"
proof -
  obtain j pl where g: "ap_jobs p ! k = (j, pl)" by fastforce
  have b: "balanced p" "ap_cap p = N"
    using taskpool_Init_balanced [OF assms(1)] task_run_balanced [OF assms(2)] assms(4) by simp_all
  have "pl = Obtaining \<Longrightarrow> submitted k p = None \<longleftrightarrow> at_work p = N"
    using g b by (auto simp: submitted_def obtainWorker_def balanced_def)
  moreover have "pl = Freeing \<Longrightarrow> submitted k p \<noteq> None"
    using g freeing_has_room [OF b(1) assms(3)] by (simp add: submitted_def)
  ultimately show ?thesis using g b by (simp add: balanced_def)
qed

section \<open>Instances\<close>

definition sample_props :: task_props where
  "sample_props = ImportTask \<lparr>ip_PolicyID = 9, ip_Src = ''src'', ip_Recursive = False, ip_Dst = ''/docs''\<rparr>"

definition sample_env :: "unit task_env" where
  "sample_env = \<lparr>te_sys = docs_sys, te_run = run_hook 3 docs_sys (\<lambda>n k p. (None, p)), te_levels = 3, te_nodes = (\<lambda>i. None),
     te_marshal = (\<lambda>p. ''json''), te_unmarshal = (\<lambda>typ s. Some sample_props), te_errJSON = (\<lambda>e. je_Msg e),
     te_message = (\<lambda>e. ''error''), te_zipFile = Some ''/tmp/a.zip'', te_zipWriter = whole, te_zip = (\<lambda>z. []), te_open = (\<lambda>n. Inr []),
     te_identify = (\<lambda>n s e. Inl ErrIO), te_temp = True, te_schedule = (\<lambda>xs. xs)\<rparr>"

definition sample_server :: "unit server" where
  "sample_server = \<lparr>sv_db = acc_db\<lparr>tasks := [zero_task\<lparr>t_ID := 4\<rparr>]\<rparr>, sv_cache = memo_new, sv_disk = ()\<rparr>"

definition sample_job :: job where
  "sample_job = new_job (zero_user\<lparr>u_ID := 7\<rparr>) (zero_task\<lparr>t_ID := 4\<rparr>) sample_props"

text \<open>An import for a policy that is not there fails, and its task says so.\<close>

lemma sample_run:
  "\<exists>sv' j' r. worker_Do sample_env (sample_server, sample_job) = Some (sv', j') \<and> tasks (sv_db sv') = [r] \<and>
     t_ID r = 4 \<and> j_Err j' \<noteq> None"
  by (simp add: worker_Do_def job_Do_def import_Do_def sample_job_def sample_props_def sample_server_def sample_env_def
      new_job_def job_SetStatus_def on_db_def Task_SetStatus_def Task_set_def write1_def by_key_def GetPolicyByID_def
      cache_Get_def memo_Get_def getValue_def memo_new_def SetErrorMsg_def job_SetError_def record_error_def
      job_GetError_def Task_SetError_def zero_task_def acc_simps sound_simps docs_sys_def Let_def)

lemma worker_settles_task_witness:
  "\<exists>sv' j'. worker_Do sample_env (sample_server, sample_job) = Some (sv', j') \<and> j_Err j' \<noteq> None \<and>
     map t_Status (tasks (sv_db sv')) = [TaskError]"
proof -
  let ?G = "orm (te_sys sample_env)"
  obtain sv' j' r where run: "worker_Do sample_env (sample_server, sample_job) = Some (sv', j')"
      "tasks (sv_db sv') = [r]" "t_ID r = 4" "j_Err j' \<noteq> None"
    using sample_run by blast
  have "gorm_db ?G" by (simp add: sample_env_def docs_sys_def sound_gorm_laws)
  have st: "last_status j' = TaskError" using run(4) by (auto simp: last_status_def)
  from worker_settles_task [OF \<open>gorm_db ?G\<close> run(1)] obtain d res where
    last: "Task_SetStatus ?G (j_Task sample_job) TaskError d = (res, sv_db sv')"
    and settled: "case res of Inr _ \<Rightarrow> \<forall>r\<in>set (tasks (sv_db sv')). t_ID r = t_ID (j_Task sample_job) \<longrightarrow>
         t_Status r = TaskError | Inl _ \<Rightarrow> sv_db sv' = d"
    unfolding st by blast
  from last have "\<exists>u. res = Inr u"
    by (auto simp: Task_SetStatus_def Task_set_def write1_def by_key_def sample_env_def docs_sys_def sample_job_def
        new_job_def sound_simps list_all_iff)
  then have "t_Status r = TaskError"
    using settled run(2,3) by (auto simp: sample_job_def new_job_def)
  then show ?thesis using run(1,2,4) by simp
qed

lemma recorded_job_resumes_witness:
  "\<exists>row\<in>set (tasks (acc_db\<lparr>tasks := [zero_task\<lparr>t_ID := 1, t_Type := 3, t_UserID := 7, t_Props := ''json''\<rparr>]\<rparr>)).
     t_ID row = 1 \<and> new_job (zero_user\<lparr>u_ID := 7, u_Storage := 11\<rparr>) row sample_props \<in>
       set (Resume sample_env (acc_db\<lparr>tasks := [zero_task\<lparr>t_ID := 1, t_Type := 3, t_UserID := 7, t_Props := ''json''\<rparr>]\<rparr>))"
proof -
  let ?d' = "acc_db\<lparr>tasks := [zero_task\<lparr>t_ID := 1, t_Type := 3, t_UserID := 7, t_Props := ''json''\<rparr>]\<rparr>"
  let ?u = "zero_user\<lparr>u_ID := 7, u_Storage := 11\<rparr>"
  let ?j = "new_job ?u (zero_task\<lparr>t_ID := 1, t_Type := 3, t_UserID := 7, t_Props := ''json''\<rparr>) sample_props"
  have "\<exists>row\<in>set (tasks ?d'). t_ID row = t_ID (j_Task ?j) \<and> new_job ?u row sample_props \<in> set (Resume sample_env ?d')"
  proof (rule recorded_job_resumes [where user = ?u and d = acc_db])
    show "gorm_db (orm (te_sys sample_env))" by (simp add: sample_env_def docs_sys_def sound_gorm_laws)
    show "te_unmarshal sample_env (job_Type sample_props) (te_marshal sample_env sample_props) = Some sample_props"
      by (simp add: sample_env_def)
    show "recorded_job sample_env ?u sample_props acc_db = (Inr ?j, ?d')"
      by (simp add: recorded_job_def Record_def Task_Create_def sample_env_def docs_sys_def sample_props_def job_Type_def
          ImportTaskType_def Queued_def zero_task_def acc_simps sound_simps Let_def)
    show "GetActivateUserByID (orm (te_sys sample_env)) (preload (te_sys sample_env)) (u_ID ?u) ?d' = Inr ?u"
      by (simp add: GetActivateUserByID_def sample_env_def docs_sys_def find_struct_def Active_def acc_simps sound_simps)
    show "Find (Tasks (orm (te_sys sample_env))) (\<lambda>r. t_Status r \<in> set [Queued, Processing]) ?d' = Inr (tasks ?d')"
      by (simp add: sample_env_def docs_sys_def Queued_def zero_task_def sound_simps)
  qed
  then show ?thesis by (simp add: new_job_def)
qed

text \<open>A pool of ten workers that has been handed a job, which runs.\<close>

lemma task_pool_bounded_witness:
  "\<exists>p0 p. taskpool_Init sample_env False acc_db = Some p0 \<and> task_run p0 p \<and>
     ap_jobs p = [(sample_job, Doing)] \<and> at_work p = 1 \<and> at_work p + ap_tokens p = 10"
proof -
  let ?init = "\<lparr>ap_cap = 10, ap_tokens = 10, ap_jobs = [] :: (job \<times> place) list\<rparr>"
  let ?p = "\<lparr>ap_cap = 10, ap_tokens = 9, ap_jobs = [(sample_job, Doing)]\<rparr>"
  have ten: "GetIntSetting (orm (te_sys sample_env)) ''max_worker_num'' 10 acc_db = 10"
    by (simp add: GetIntSetting_def GetSettingByName_def GetSettingByNameFromTx_def sample_env_def docs_sys_def
        acc_simps sound_simps parseInt_def parseUint_def)
  have init: "taskpool_Init sample_env False acc_db = Some ?init"
    unfolding taskpool_Init_def ten Let_def by (simp add: pool_Add_full)
  have run: "task_run ?init ?p"
  proof (rule task_run.turn)
    show "task_run ?init (pool_Submit sample_job ?init)" by (rule task_run.submit [OF task_run.none])
    show "submitted 0 (pool_Submit sample_job ?init) = Some ?p"
      by (simp add: submitted_def pool_Submit_def obtainWorker_def)
  qed (simp add: pool_Submit_def)
  have "at_work ?p + ap_tokens ?p = nat 10"
    using task_pool_bounded [OF init run, of 0] ten by simp
  moreover have "at_work ?p = 1" by (simp add: at_work_def)
  ultimately show ?thesis using init run by fastforce
qed

end
