(* ===== verification/HttpClient.thy ===== *)
theory HttpClient
  imports HmacAuth ModelsUser
begin

text \<open>
  \<open>pkg/request\<close>: the client the nodes of a site use to call each other (\<open>request.go\<close>), its
  options (\<open>options.go\<close>), and the reading of answers. The HTTP transport, the URL parser, the
  limiter of requests and the JSON decoder are parameters. A pointer that may be nil is an
  \<open>option\<close>, and following nil is a panic, the outer \<open>None\<close> of a call.
\<close>

section \<open>Options (options.go)\<close>

type_synonym headers = "(gostring \<times> gostring list) list"

record client_options =
  co_timeout :: int
  co_header :: headers
  co_sign :: "auth option"
  co_signTTL :: int
  co_contentLength :: int
  co_masterMeta :: bool
  co_endpoint :: "gostring option"
  co_slaveNodeID :: gostring
  co_tpsLimiterToken :: gostring
  co_tps :: int
  co_tpsBurst :: int

type_synonym client_option = "client_options \<Rightarrow> client_options"

definition newDefaultOption :: client_options where
  "newDefaultOption = \<lparr>co_timeout = 30, co_header = [], co_sign = None, co_signTTL = 0, co_contentLength = -1,
     co_masterMeta = False, co_endpoint = None, co_slaveNodeID = [], co_tpsLimiterToken = [], co_tps = 0, co_tpsBurst = 0\<rparr>"

text \<open>The error of the parser is dropped: the endpoint is then nil.\<close>

definition WithEndpoint :: "(gostring \<Rightarrow> gostring option) \<Rightarrow> gostring \<Rightarrow> client_option" where
  "WithEndpoint parse endpoint opts =
     (let endpoint' = (if \<not> hasPrefix endpoint ''/'' then endpoint @ ''/'' else endpoint)
      in opts\<lparr>co_endpoint := parse endpoint'\<rparr>)"

definition WithCredential :: "auth \<Rightarrow> int \<Rightarrow> client_option" where
  "WithCredential A ttl opts = opts\<lparr>co_sign := Some A, co_signTTL := ttl\<rparr>"

definition WithMasterMeta :: client_option where
  "WithMasterMeta opts = opts\<lparr>co_masterMeta := True\<rparr>"

definition WithSlaveMeta :: "gostring \<Rightarrow> client_option" where
  "WithSlaveMeta s opts = opts\<lparr>co_slaveNodeID := s\<rparr>"

definition WithTimeout :: "int \<Rightarrow> client_option" where
  "WithTimeout t opts = opts\<lparr>co_timeout := t\<rparr>"

definition WithContentLength :: "int \<Rightarrow> client_option" where
  "WithContentLength s opts = opts\<lparr>co_contentLength := s\<rparr>"

definition WithHeader :: "headers \<Rightarrow> client_option" where
  "WithHeader header opts = opts\<lparr>co_header := foldl (\<lambda>hs (k, v). AList.update k v hs) (co_header opts) header\<rparr>"

definition WithoutHeader :: "gostring list \<Rightarrow> client_option" where
  "WithoutHeader header opts = opts\<lparr>co_header := foldl (\<lambda>hs v. AList.delete v hs) (co_header opts) header\<rparr>"

section \<open>Sending a request (request.go)\<close>

definition apply_options :: "client_option list \<Rightarrow> client_options \<Rightarrow> client_options" where
  "apply_options opts o0 = foldl (\<lambda>opt f. f opt) o0 opts"

definition NewClient :: "client_option list \<Rightarrow> client_options" where
  "NewClient opts = apply_options opts newDefaultOption"

text \<open>What the code relies on: the transport, the role of the site and its settings, and the URL of a target.\<close>

record 'b transport =
  tr_resolve :: "gostring \<Rightarrow> gostring \<Rightarrow> gostring option"
  tr_do :: "int \<Rightarrow> request \<Rightarrow> gostring + 'b"
  tr_parse :: "gostring \<Rightarrow> gostring + url"
  tr_string :: "request \<Rightarrow> gostring"
  tr_marshal :: "gostring \<Rightarrow> gostring \<Rightarrow> gostring \<Rightarrow> gostring"
  tr_master :: bool
  tr_meta :: headers

definition nil_or :: "'a option \<Rightarrow> ('a \<Rightarrow> 'b option) \<Rightarrow> 'b option" where
  "nil_or p k = (case p of None \<Rightarrow> None | Some v \<Rightarrow> k v)"

definition header_Add :: "gostring \<Rightarrow> gostring \<Rightarrow> request \<Rightarrow> request" where
  "header_Add k v r =
     set_header r k ((case map_of (Header r) k of None \<Rightarrow> [] | Some vs \<Rightarrow> vs) @ [v])"

fun add_headers :: "headers \<Rightarrow> request option \<Rightarrow> request option option" where
  "add_headers [] req = Some req"
| "add_headers ((k, v) # hs) req =
     nil_or req (\<lambda>r. add_headers hs (Some (header_Add k (joinWith '' '' v) r)))"

text \<open>
  \<open>Request\<close>. The pointer \<open>req\<close> is declared and nothing is assigned to it. The URL of \<open>SignURI\<close> is
  taken when there is an error, and is then nil. The options of the request are a copy of the
  client's, which shares the map of headers; the client is returned with its headers. The
  limiter of requests is left out.
\<close>

definition Request ::
  "'b transport \<Rightarrow> unix_time \<Rightarrow> gostring \<Rightarrow> gostring \<Rightarrow> client_option list \<Rightarrow> client_options \<Rightarrow>
   ((gostring + 'b) \<times> client_options) option" where
  "Request T now meth target opts c =
     (let options = apply_options opts c;
          c' = c\<lparr>co_header := co_header options\<rparr>;
          target' = (case co_endpoint options of None \<Rightarrow> Some target | Some e \<Rightarrow> tr_resolve T e target)
      in if target' = None then Some (Inl ''parse'', c')
         else
          (let req = (None :: request option) in
           Option.bind (add_headers (co_header options) req) (\<lambda>req1.
           Option.bind (if co_masterMeta options \<and> tr_master T then add_headers (tr_meta T) req1 else Some req1) (\<lambda>req2.
           Option.bind (if co_slaveNodeID options \<noteq> [] \<and> \<not> tr_master T
                        then add_headers [(CrHeaderPrefix @ ''Node-Id'', [co_slaveNodeID options])] req2
                        else Some req2) (\<lambda>req3.
           Option.bind (if co_contentLength options \<noteq> -1 then nil_or req3 (\<lambda>r. Some (Some r)) else Some req3) (\<lambda>req4.
           Option.bind (case co_sign options of
                          None \<Rightarrow> Some req4
                        | Some A \<Rightarrow>
                            nil_or req4 (\<lambda>r.
                              if meth \<in> {''PUT'', ''POST'', ''PATCH''}
                              then Some (Some (SignRequest (tr_marshal T) A now r (co_signTTL options)))
                              else (case SignURI (tr_parse T) A now (tr_string T r) (co_signTTL options) of
                                      Inl _ \<Rightarrow> None
                                    | Inr _ \<Rightarrow> Some (Some r)))) (\<lambda>req5.
             nil_or req5 (\<lambda>r. Some (tr_do T (co_timeout options) r, c')))))))))"

section \<open>Reading answers (request.go, serializer/response.go)\<close>

text \<open>An answer: its HTTP status, and its body, which may fail to be read.\<close>

record http_response =
  hr_StatusCode :: int
  hr_Body :: "gostring + gostring"

definition GetResponse :: "gostring + http_response \<Rightarrow> gostring + gostring" where
  "GetResponse resp = (case resp of Inl e \<Rightarrow> Inl e | Inr r \<Rightarrow> hr_Body r)"

definition CheckHTTPResponse :: "int \<Rightarrow> gostring + http_response \<Rightarrow> gostring + http_response" where
  "CheckHTTPResponse status resp =
     (case resp of
        Inl e \<Rightarrow> Inl e
      | Inr r \<Rightarrow> (if hr_StatusCode r \<noteq> status then Inl ''server returns abnormal HTTP status'' else Inr r))"

definition DecodeResponse :: "(gostring \<Rightarrow> gostring + 'r) \<Rightarrow> gostring + http_response \<Rightarrow> gostring + 'r" where
  "DecodeResponse unmarshal resp =
     (case resp of
        Inl e \<Rightarrow> Inl e
      | Inr _ \<Rightarrow> (case GetResponse resp of Inl e \<Rightarrow> Inl e | Inr s \<Rightarrow> unmarshal s))"

lemma decoded_only_good:
  "DecodeResponse unmarshal (CheckHTTPResponse status resp) = Inr res \<Longrightarrow>
   \<exists>r s. resp = Inr r \<and> hr_StatusCode r = status \<and> hr_Body r = Inr s \<and> unmarshal s = Inr res"
  by (auto simp: DecodeResponse_def CheckHTTPResponse_def GetResponse_def split: sum.splits if_splits)

section \<open>What the client sends\<close>

lemma add_headers_nil: "add_headers hs None = Some req \<Longrightarrow> req = None"
  by (cases hs) (auto simp: nil_or_def)

lemma nil_or_nil [simp]: "nil_or None k = None"
  by (simp add: nil_or_def)

text \<open>
  The client of the cluster never sends anything: whatever its options, the method and the
  target, a call of \<open>Request\<close> either answers that the target is not a URL or panics, since the
  request it works on is nil.
\<close>
theorem Request_never_sends:
  "map_option fst (Request T now meth target opts c) \<in> {None, Some (Inl ''parse'')}"
proof -
  have keep: "Option.bind x k = None" if "\<And>y. x = Some y \<Longrightarrow> y = None" and "k None = None" for x :: "request option option" and k
    using that by (cases x) auto
  show ?thesis
    unfolding Request_def Let_def
    by (auto intro!: keep dest!: add_headers_nil split: option.splits if_splits)
qed

end
