(* ===== verification/Cluster.thy ===== *)
theory Cluster
  imports NodePool HttpClient
begin

text \<open>
  \<open>pkg/cluster\<close>: what a slave keeps of its masters (\<open>controller.go\<close>), the pings of a slave
  (\<open>slave.go\<close>), and the aria2 service of a master node (\<open>master.go\<close>). Answers to requests, the
  RPC client of aria2, JSON and URLs are parameters.
\<close>

datatype cluster_error = ClusterApp int | ClusterOther

definition CodeMasterNotFound :: int where "CodeMasterNotFound = 40009"
definition CodeCallbackError :: int where "CodeCallbackError = 50007"

abbreviation ErrMasterNotFound :: cluster_error where "ErrMasterNotFound \<equiv> ClusterApp CodeMasterNotFound"

text \<open>The answer of a site, as \<open>DecodeResponse\<close> gives it: its code and its data.\<close>

record 'd site_response =
  sr_Code :: int
  sr_Data :: 'd

text \<open>An answer that was read and says that it is one of success.\<close>

definition checked_response :: "gostring + 'd site_response \<Rightarrow> cluster_error + 'd" where
  "checked_response res =
     (case res of
        Inl _ \<Rightarrow> Inl ClusterOther
      | Inr r \<Rightarrow> (if sr_Code r \<noteq> 0 then Inl (ClusterApp (sr_Code r)) else Inr (sr_Data r)))"

section \<open>Read-write locks (sync.RWMutex)\<close>

text \<open>\<open>None\<close>: the call blocks, or ends the process.\<close>

datatype rwmutex = Unlocked | RLocked nat | WLocked

definition rw_Lock :: "rwmutex \<Rightarrow> rwmutex option" where
  "rw_Lock m = (if m = Unlocked then Some WLocked else None)"

definition rw_RLock :: "rwmutex \<Rightarrow> rwmutex option" where
  "rw_RLock m = (case m of Unlocked \<Rightarrow> Some (RLocked 0) | RLocked n \<Rightarrow> Some (RLocked (Suc n)) | WLocked \<Rightarrow> None)"

definition rw_Unlock :: "rwmutex \<Rightarrow> rwmutex option" where
  "rw_Unlock m = (if m = WLocked then Some Unlocked else None)"

definition rw_RUnlock :: "rwmutex \<Rightarrow> rwmutex option" where
  "rw_RUnlock m =
     (case m of RLocked 0 \<Rightarrow> Some Unlocked | RLocked (Suc n) \<Rightarrow> Some (RLocked n) | _ \<Rightarrow> None)"

section \<open>The slave's masters (controller.go)\<close>

record master_info =
  mi_ID :: gostring
  mi_TTL :: int
  mi_URL :: gostring
  mi_Instance :: node_row
  mi_Client :: client_options
  mi_jobTracker :: "gostring \<rightharpoonup> bool"

text \<open>\<open>sc_killed\<close> are the instances whose client was closed.\<close>

record controller =
  sc_masters :: "gostring \<rightharpoonup> master_info"
  sc_lock :: rwmutex
  sc_killed :: "node_row list"

definition InitController :: controller where
  "InitController = \<lparr>sc_masters = Map.empty, sc_lock = Unlocked, sc_killed = []\<rparr>"

record ping_req =
  pr_SiteURL :: gostring
  pr_SiteID :: gostring
  pr_IsUpdate :: bool
  pr_CredentialTTL :: int
  pr_Node :: node_row

text \<open>\<open>parse\<close> is the URL of a string, printed; \<open>mac\<close> is HMAC-SHA256.\<close>

definition new_master ::
  "(gostring \<Rightarrow> gostring option) \<Rightarrow> (gostring \<Rightarrow> gostring \<Rightarrow> gostring) \<Rightarrow> gostring \<Rightarrow> ping_req \<Rightarrow> master_info" where
  "new_master parse mac masterUrl req =
     \<lparr>mi_ID = pr_SiteID req, mi_TTL = pr_CredentialTTL req, mi_URL = masterUrl,
      mi_Instance = \<lparr>n_ID = n_ID (pr_Node req), n_Status = 0, n_Name = [], n_Type = MasterNodeType, n_Server = [],
        n_SlaveKey = [], n_MasterKey = n_MasterKey (pr_Node req), n_Aria2Enabled = n_Aria2Enabled (pr_Node req),
        n_Aria2Options = n_Aria2Options (pr_Node req), n_Rank = 0\<rparr>,
      mi_Client = NewClient
        [WithEndpoint parse masterUrl, WithSlaveMeta (formatNat (n_ID (pr_Node req))),
         WithCredential (HMACAuth mac (n_MasterKey (pr_Node req))) (pr_CredentialTTL req)],
      mi_jobTracker = Map.empty\<rparr>"

definition HandleHeartBeat ::
  "(gostring \<Rightarrow> gostring option) \<Rightarrow> (gostring \<Rightarrow> gostring \<Rightarrow> gostring) \<Rightarrow> ping_req \<Rightarrow> controller \<Rightarrow>
   cluster_error option \<times> controller" where
  "HandleHeartBeat parse mac req c =
     (let origin = sc_masters c (pr_SiteID req) in
      if (origin \<noteq> None \<and> pr_IsUpdate req) \<or> origin = None then
        (let c1 = (case origin of
                     None \<Rightarrow> c
                   | Some m \<Rightarrow> c\<lparr>sc_killed := sc_killed c @ [mi_Instance m]\<rparr>)
         in case parse (pr_SiteID req) of
              None \<Rightarrow> (Some ClusterOther, c1)
            | Some masterUrl \<Rightarrow>
                (None, c1\<lparr>sc_masters := (sc_masters c1)(pr_SiteID req \<mapsto> new_master parse mac masterUrl req)\<rparr>))
      else (None, c))"

text \<open>\<open>submitter\<close> passes the job on to the pool of tasks, the third component.\<close>

definition SubmitTask ::
  "gostring \<Rightarrow> 'j \<Rightarrow> gostring \<Rightarrow> controller \<times> 'j list \<Rightarrow> cluster_error option \<times> controller \<times> 'j list" where
  "SubmitTask i job hash = (\<lambda>(c, submitted).
     (case sc_masters c i of
        None \<Rightarrow> (Some ErrMasterNotFound, c, submitted)
      | Some node \<Rightarrow>
          (if mi_jobTracker node hash \<noteq> None then (None, c, submitted)
           else (None,
             c\<lparr>sc_masters := (sc_masters c)(i \<mapsto> node\<lparr>mi_jobTracker := (mi_jobTracker node)(hash \<mapsto> True)\<rparr>)\<rparr>,
             submitted @ [job]))))"

definition GetMasterInfo :: "gostring \<Rightarrow> controller \<Rightarrow> cluster_error + master_info" where
  "GetMasterInfo i c = (case sc_masters c i of None \<Rightarrow> Inl ErrMasterNotFound | Some node \<Rightarrow> Inr node)"

text \<open>\<open>send\<close> is the request to the master with its client; a call that panics or ends the process is \<open>None\<close>.\<close>

definition SendNotification ::
  "(client_options \<Rightarrow> (gostring + 'd site_response) option) \<Rightarrow> gostring \<Rightarrow> controller \<Rightarrow>
   (cluster_error option \<times> controller) option" where
  "SendNotification send i c =
     Option.bind (rw_Lock (sc_lock c)) (\<lambda>l1.
       (case sc_masters c i of
          Some node \<Rightarrow>
            Option.bind (rw_RUnlock l1) (\<lambda>l2.
              map_option (\<lambda>res. (case checked_response res of Inl e \<Rightarrow> Some e | Inr _ \<Rightarrow> None, c\<lparr>sc_lock := l2\<rparr>))
                (send (mi_Client node)))
        | None \<Rightarrow>
            Option.bind (rw_RUnlock l1) (\<lambda>l2. Some (Some ErrMasterNotFound, c\<lparr>sc_lock := l2\<rparr>))))"

text \<open>The data of the answer is a token when it is a string.\<close>

definition GetOneDriveToken ::
  "(client_options \<Rightarrow> (gostring + gostring option site_response) option) \<Rightarrow> gostring \<Rightarrow> controller \<Rightarrow>
   ((cluster_error + gostring) \<times> controller) option" where
  "GetOneDriveToken send i c =
     Option.bind (rw_RLock (sc_lock c)) (\<lambda>l1.
       (case sc_masters c i of
          Some node \<Rightarrow>
            Option.bind (rw_RUnlock l1) (\<lambda>l2.
              Option.bind (send (mi_Client node)) (\<lambda>res.
                (case checked_response res of
                   Inl e \<Rightarrow> Some (Inl e, c\<lparr>sc_lock := l2\<rparr>)
                 | Inr None \<Rightarrow> None
                 | Inr (Some token) \<Rightarrow> Some (Inr token, c\<lparr>sc_lock := l2\<rparr>))))
        | None \<Rightarrow> Option.bind (rw_RUnlock l1) (\<lambda>l2. Some (Inl ErrMasterNotFound, c\<lparr>sc_lock := l2\<rparr>))))"

section \<open>Pings and callbacks (slave.go)\<close>

text \<open>\<open>site\<close> prints a URL, when it is one.\<close>

definition GetSiteURL :: "gorm \<Rightarrow> (gostring \<Rightarrow> gostring option) \<Rightarrow> db \<Rightarrow> gostring" where
  "GetSiteURL G site d =
     (case site (GetSettingByName G ''siteURL'' d) of None \<Rightarrow> ''http://localhost'' | Some u \<Rightarrow> u)"

definition getHeartbeatContent ::
  "gorm \<Rightarrow> (gostring \<Rightarrow> gostring option) \<Rightarrow> bool \<Rightarrow> node_obj \<Rightarrow> db \<Rightarrow> ping_req" where
  "getHeartbeatContent G site isUpdate node d =
     \<lparr>pr_SiteURL = GetSiteURL G site d, pr_SiteID = GetSettingByName G ''siteID'' d, pr_IsUpdate = isUpdate,
      pr_CredentialTTL = GetIntSetting G ''slave_api_timeout'' 60 d, pr_Node = nd_Model node\<rparr>"

text \<open>\<open>encode\<close> is the JSON of the request, \<open>decodes\<close> whether an answer's string is an answer to a ping.\<close>

definition slave_Ping ::
  "(ping_req \<Rightarrow> gostring option) \<Rightarrow> (gostring \<Rightarrow> gostring + gostring option site_response) \<Rightarrow> (gostring \<Rightarrow> bool) \<Rightarrow>
   ping_req \<Rightarrow> cluster_error option" where
  "slave_Ping encode post decodes req =
     (case encode req of
        None \<Rightarrow> Some ClusterOther
      | Some body \<Rightarrow>
          (case checked_response (post body) of
             Inl e \<Rightarrow> Some e
           | Inr None \<Rightarrow> None
           | Inr (Some resStr) \<Rightarrow> (if decodes resStr then None else Some ClusterOther)))"

text \<open>A turn of the loop: the heartbeat says whether it is the first one, and it always is.\<close>

definition ping_with ::
  "gorm \<Rightarrow> (gostring \<Rightarrow> gostring option) \<Rightarrow> (ping_req \<Rightarrow> cluster_error option) \<Rightarrow> node_obj \<Rightarrow> db \<Rightarrow> ping_state \<Rightarrow>
   bool option \<times> ping_state" where
  "ping_with G site ping node d st =
     (let err = ping (getHeartbeatContent G site (pg_isFirstLoop st) node d)
      in ping_turn (GetIntSetting G ''slave_node_retry'' 3 d) (GetIntSetting G ''slave_ping_interval'' 300 d)
           (GetIntSetting G ''slave_recover_interval'' 600 d) (err = None) st)"

definition RemoteCallback ::
  "gostring option \<Rightarrow> (gostring \<Rightarrow> gostring + (gostring + 'd site_response)) \<Rightarrow> cluster_error option" where
  "RemoteCallback callbackBody post =
     (case callbackBody of
        None \<Rightarrow> Some (ClusterApp CodeCallbackError)
      | Some body \<Rightarrow>
          (case post body of
             Inl _ \<Rightarrow> Some (ClusterApp CodeCallbackError)
           | Inr (Inl _) \<Rightarrow> Some (ClusterApp CodeCallbackError)
           | Inr (Inr response) \<Rightarrow>
               (if sr_Code response \<noteq> 0 then Some (ClusterApp (sr_Code response)) else None)))"

section \<open>The aria2 service of a master (master.go)\<close>

record aria2_option =
  ao_Server :: gostring
  ao_Token :: gostring
  ao_TempPath :: gostring
  ao_Options :: gostring
  ao_Interval :: int
  ao_Timeout :: int

text \<open>\<open>rs_options\<close> is the nil pointer before the service was initialised.\<close>

record 'c rpc_service =
  rs_Caller :: "'c option"
  rs_Initialized :: bool
  rs_options :: "(gostring \<rightharpoonup> gostring) option"

text \<open>
  \<open>Unmarshal\<close> refuses whatever is not a pointer, and the map of options is none. \<open>new\<close> opens a client,
  which may come with an error.
\<close>

definition rpc_Init ::
  "(gostring \<Rightarrow> bool) \<Rightarrow> (gostring \<Rightarrow> gostring \<Rightarrow> int \<Rightarrow> 'c option \<times> bool) \<Rightarrow> aria2_option \<Rightarrow> 'c rpc_service \<Rightarrow>
   cluster_error option \<times> 'c rpc_service" where
  "rpc_Init parses new opt r =
     (let r1 = r\<lparr>rs_Initialized := False\<rparr> in
      if \<not> parses (ao_Server opt) then (Some ClusterOther, r1)
      else if ao_Options opt \<noteq> [] then (Some ClusterOther, r1)
      else
        (let (caller, failed) = new (ao_Server opt) (ao_Token opt) (ao_Timeout opt)
         in (if failed then Some ClusterOther else None,
             r1\<lparr>rs_options := Some Map.empty, rs_Caller := caller, rs_Initialized := \<not> failed\<rparr>)))"

datatype aria2_instance = DummyAria2 | RpcAria2 | SlaveAria2

text \<open>A service that is not ready is started, and the dummy answers for now.\<close>

definition GetAria2Instance ::
  "(gostring \<Rightarrow> bool) \<Rightarrow> (gostring \<Rightarrow> gostring \<Rightarrow> int \<Rightarrow> 'c option \<times> bool) \<Rightarrow> aria2_option \<Rightarrow> node_row \<Rightarrow> 'c rpc_service \<Rightarrow>
   aria2_instance \<times> 'c rpc_service" where
  "GetAria2Instance parses new opt node r =
     (if \<not> n_Aria2Enabled node then (DummyAria2, r)
      else if \<not> rs_Initialized r then (DummyAria2, snd (rpc_Init parses new opt r))
      else (RpcAria2, r))"

text \<open>\<open>add\<close> is \<open>AddURI\<close>, which gives an id or an error; the options of the node and then those of the group go over the folder.\<close>

definition rpc_CreateTask ::
  "(gostring \<Rightarrow> (gostring \<rightharpoonup> gostring) \<Rightarrow> gostring option) \<Rightarrow> gostring \<Rightarrow> aria2_option \<Rightarrow> gostring \<Rightarrow> (gostring \<rightharpoonup> gostring) \<Rightarrow>
   'c rpc_service \<Rightarrow> (bool \<times> gostring) option" where
  "rpc_CreateTask add guid opt source groupOptions r =
     (case rs_options r of
        None \<Rightarrow> None
      | Some opts \<Rightarrow>
          (let path = pathJoin (pathJoin (ao_TempPath opt) ''aria2'') guid;
               options = ([''dir'' \<mapsto> path] ++ opts) ++ groupOptions
           in case add source options of
                None \<Rightarrow> Some (False, [])
              | Some gid \<Rightarrow> Some (True, gid)))"

text \<open>A status that cannot be had is asked for once more.\<close>

definition rpc_Status :: "(nat \<Rightarrow> 'e + 's) \<Rightarrow> 'e + 's" where
  "rpc_Status tellStatus = (case tellStatus 0 of Inl _ \<Rightarrow> tellStatus 1 | Inr s \<Rightarrow> Inr s)"

definition rpc_Select :: "(gostring \<rightharpoonup> gostring) \<Rightarrow> int list \<Rightarrow> gostring \<rightharpoonup> gostring" where
  "rpc_Select opts fs = opts(''select-file'' \<mapsto> joinWith '','' (map formatInt fs))"

section \<open>Running the controller\<close>

datatype 'j controller_event = Beat ping_req | Submit gostring 'j gostring

fun ctl_run ::
  "(gostring \<Rightarrow> gostring option) \<Rightarrow> (gostring \<Rightarrow> gostring \<Rightarrow> gostring) \<Rightarrow> 'j controller_event list \<Rightarrow>
   controller \<times> 'j list \<Rightarrow> controller \<times> 'j list" where
  "ctl_run parse mac [] s = s"
| "ctl_run parse mac (Beat req # es) s =
     ctl_run parse mac es (snd (HandleHeartBeat parse mac req (fst s)), snd s)"
| "ctl_run parse mac (Submit i job hash # es) s = ctl_run parse mac es (snd (SubmitTask i job hash s))"

text \<open>The turns of a loop of pings: \<open>oks\<close> says which pings are answered.\<close>

fun ping_turns :: "int \<Rightarrow> int \<Rightarrow> int \<Rightarrow> bool list \<Rightarrow> ping_state \<Rightarrow> ping_state" where
  "ping_turns maxRetry tick recov [] st = st"
| "ping_turns maxRetry tick recov (ok # oks) st =
     ping_turns maxRetry tick recov oks (snd (ping_turn maxRetry tick recov ok st))"

lemma ping_turn_first: "pg_isFirstLoop (snd (ping_turn m t r ok st)) = (pg_isFirstLoop st \<or> ok \<and> pg_recoverMode st)"
  by (auto simp: ping_turn_def Let_def)

lemma ping_turns_first: "pg_isFirstLoop st \<Longrightarrow> pg_isFirstLoop (ping_turns m t r oks st)"
  by (induction oks arbitrary: st) (simp_all add: ping_turn_first)

section \<open>Properties\<close>

text \<open>A job is submitted once: what was submitted is in the tracker of its master.\<close>

definition tracked :: "controller \<Rightarrow> gostring \<times> gostring \<Rightarrow> bool" where
  "tracked c = (\<lambda>(i, hash). \<exists>m. sc_masters c i = Some m \<and> mi_jobTracker m hash \<noteq> None)"

definition quiet :: "(gostring \<times> gostring) controller_event \<Rightarrow> bool" where
  "quiet e = (case e of Beat req \<Rightarrow> \<not> pr_IsUpdate req | Submit i job hash \<Rightarrow> job = (i, hash))"

lemma beat_keeps_tracked:
  "\<not> pr_IsUpdate req \<Longrightarrow> tracked c j \<Longrightarrow> tracked (snd (HandleHeartBeat parse mac req c)) j"
  by (cases j) (auto simp: tracked_def HandleHeartBeat_def Let_def split: option.splits)

lemma submit_keeps_tracked:
  "tracked c j \<Longrightarrow> tracked (fst (snd (SubmitTask i job hash (c, js)))) j"
  by (cases j) (auto simp: tracked_def SubmitTask_def split: option.splits)

lemma submit_tracked:
  assumes "SubmitTask i (i, hash) hash (c, js) = (e, c', js')"
  shows "js' = js \<or> (js' = js @ [(i, hash)] \<and> \<not> tracked c (i, hash) \<and> tracked c' (i, hash))"
  using assms by (auto simp: SubmitTask_def tracked_def split: option.splits if_splits)

lemma ctl_run_once:
  "list_all quiet es \<Longrightarrow> distinct js \<Longrightarrow> \<forall>j\<in>set js. tracked c j \<Longrightarrow> distinct (snd (ctl_run parse mac es (c, js)))"
proof (induction es arbitrary: c js)
  case Nil
  then show ?case by simp
next
  case (Cons e es)
  show ?case
  proof (cases e)
    case (Beat req)
    then show ?thesis
      using Cons.IH [of js "snd (HandleHeartBeat parse mac req c)"] Cons.prems
      by (simp add: quiet_def beat_keeps_tracked)
  next
    case (Submit i job hash)
    obtain r c' js' where s: "SubmitTask i (i, hash) hash (c, js) = (r, c', js')" by (rule prod_cases3)
    have keep: "\<forall>j\<in>set js. tracked c' j"
      using submit_keeps_tracked [of c _ i "(i, hash)" hash js] Cons.prems(3) s by simp
    have "distinct js' \<and> (\<forall>j\<in>set js'. tracked c' j)"
      using submit_tracked [OF s] keep Cons.prems(2,3) by auto
    then show ?thesis using Cons.IH [of js' c'] Cons.prems(1) s Submit by (simp add: quiet_def)
  qed
qed

text \<open>
  A slave runs a job of a master once: as long as no heartbeat renews a master it knows, no
  sequence of heartbeats and of submissions, repeated as they may be, hands the same job of the
  same master to the pool of tasks twice.
\<close>
theorem jobs_submitted_once:
  assumes "list_all quiet es"
  shows "distinct (snd (ctl_run parse mac es (InitController, [])))"
  by (rule ctl_run_once [OF assms]) simp_all

definition sample_ping :: ping_req where
  "sample_ping = \<lparr>pr_SiteURL = ''http://m'', pr_SiteID = ''site'', pr_IsUpdate = False, pr_CredentialTTL = 60,
     pr_Node = \<lparr>n_ID = 2, n_Status = 0, n_Name = ''s'', n_Type = 0, n_Server = [], n_SlaveKey = [], n_MasterKey = ''k'',
       n_Aria2Enabled = True, n_Aria2Options = [], n_Rank = 0\<rparr>\<rparr>"

definition sample_events :: "(gostring \<times> gostring) controller_event list" where
  "sample_events = [Beat sample_ping, Submit ''site'' (''site'', ''h'') ''h'', Beat sample_ping,
     Submit ''site'' (''site'', ''h'') ''h'']"

lemma jobs_submitted_once_witness:
  "distinct (snd (ctl_run Some (\<lambda>k m. m) sample_events (InitController, [])))"
  by (rule jobs_submitted_once) (simp add: sample_events_def quiet_def sample_ping_def)

text \<open>
  In practice they are run again: the loop of pings never leaves its first turn, so every
  heartbeat renews the master, and a job that was submitted is submitted again when its master
  repeats it after a heartbeat.
\<close>
theorem heartbeat_resubmits:
  assumes "sc_masters c i \<noteq> None" and "GetSettingByName G ''siteID'' d = i" and "parse i \<noteq> None"
  shows "snd (snd (SubmitTask i job hash
           (snd (HandleHeartBeat parse mac
              (getHeartbeatContent G site (pg_isFirstLoop (ping_turns m t r oks ping_start)) node d) c), js))) = js @ [job]"
proof -
  have "pg_isFirstLoop (ping_turns m t r oks ping_start)"
    by (rule ping_turns_first) (simp add: ping_start_def)
  with assms show ?thesis
    by (auto simp: getHeartbeatContent_def HandleHeartBeat_def SubmitTask_def new_master_def Let_def)
qed

text \<open>A slave that knows the master \<open>m\<close>, and the site's database that names it.\<close>

definition known_master :: controller where
  "known_master = snd (HandleHeartBeat Some (\<lambda>k m. m) (sample_ping\<lparr>pr_SiteID := []\<rparr>) InitController)"

lemma heartbeat_resubmits_witness:
  "snd (snd (SubmitTask [] (5 :: nat) ''h''
     (snd (HandleHeartBeat Some (\<lambda>k m. m)
        (getHeartbeatContent sound_gorm Some (pg_isFirstLoop (ping_turns 3 300 600 [True, True] ping_start))
           sample_obj empty_db) known_master), [5]))) = [5, 5]"
proof -
  have "snd (snd (SubmitTask [] (5 :: nat) ''h''
     (snd (HandleHeartBeat Some (\<lambda>k m. m)
        (getHeartbeatContent sound_gorm Some (pg_isFirstLoop (ping_turns 3 300 600 [True, True] ping_start))
           sample_obj empty_db) known_master), [5]))) = [5] @ [5]"
  proof (rule heartbeat_resubmits)
    show "sc_masters known_master [] \<noteq> None"
      by (simp add: known_master_def HandleHeartBeat_def InitController_def sample_ping_def)
    show "GetSettingByName sound_gorm ''siteID'' empty_db = []"
      by (simp add: GetSettingByName_def GetSettingByNameFromTx_def sound_simps empty_db_def)
  qed simp
  then show ?thesis by simp
qed

text \<open>The other errors of the code: a notification is never sent, and a node with options is never ready.\<close>

lemma SendNotification_fatal: "SendNotification send i c = None"
  by (auto simp: SendNotification_def rw_Lock_def rw_RUnlock_def split: option.splits)

lemma options_never_ready: "ao_Options opt \<noteq> [] \<Longrightarrow> \<not> rs_Initialized (snd (rpc_Init parses new opt r))"
  by (simp add: rpc_Init_def Let_def)

lemma GetOneDriveToken_releases:
  "sc_lock c = Unlocked \<Longrightarrow> GetOneDriveToken send i c = Some (res, c') \<Longrightarrow> c' = c"
  by (auto simp: GetOneDriveToken_def rw_RLock_def rw_RUnlock_def split: option.splits sum.splits bind_splits)

end
