(* ===== verification/MessageQueue.thy ===== *)
theory MessageQueue
  imports ModelsUser
begin

text \<open>
  \<open>pkg/mq/mq.go\<close>: the queue of messages in memory. A channel is a number, with the capacity and
  the contents the runtime keeps for it. \<open>Publish\<close> starts a goroutine that offers the message to
  the subscribers the topic has at that moment, one after the other; an offer a channel does not
  take within half a second is given up. What happens after \<open>Publish\<close> is a step relation, in
  which goroutines, readers and further calls interleave.
\<close>

section \<open>The queue\<close>

type_synonym chan = nat

record 'c message =
  TriggeredBy :: gostring
  Event :: gostring
  MsgContent :: 'c

text \<open>
  \<open>mq_sends\<close> are the goroutines of \<open>Publish\<close> that are still sending, each with the subscribers it
  has left; \<open>mq_calls\<close> are the callbacks started.
\<close>

record 'c queue =
  mq_topics :: "gostring \<rightharpoonup> chan list"
  mq_callbacks :: "gostring \<rightharpoonup> nat list"
  mq_brk :: chan
  mq_cap :: "chan \<Rightarrow> nat"
  mq_buf :: "chan \<Rightarrow> 'c message list"
  mq_sends :: "(chan list \<times> 'c message) list"
  mq_calls :: "(nat \<times> 'c message) list"

definition NewMQ :: "'c queue" where
  "NewMQ = \<lparr>mq_topics = Map.empty, mq_callbacks = Map.empty, mq_brk = 0, mq_cap = (\<lambda>_. 0),
     mq_buf = (\<lambda>_. []), mq_sends = [], mq_calls = []\<rparr>"

text \<open>\<open>append\<close> to the slice of a key; a missing key is an empty slice.\<close>

definition append_at :: "'k \<Rightarrow> 'v \<Rightarrow> ('k \<rightharpoonup> 'v list) \<Rightarrow> 'k \<rightharpoonup> 'v list" where
  "append_at k v m = m(k \<mapsto> (case m k of None \<Rightarrow> [] | Some vs \<Rightarrow> vs) @ [v])"

definition Publish :: "gostring \<Rightarrow> 'c message \<Rightarrow> 'c queue \<Rightarrow> 'c queue" where
  "Publish topic message q =
     (let q1 = (case mq_topics q topic of
                  None \<Rightarrow> q
                | Some subscribersChan \<Rightarrow> q\<lparr>mq_sends := mq_sends q @ [(subscribersChan, message)]\<rparr>)
      in case mq_callbacks q topic of
           None \<Rightarrow> q1
         | Some subscribersCallback \<Rightarrow>
             q1\<lparr>mq_calls := mq_calls q1 @ map (\<lambda>f. (f, message)) subscribersCallback\<rparr>)"

definition Subscribe :: "gostring \<Rightarrow> nat \<Rightarrow> 'c queue \<Rightarrow> chan \<times> 'c queue" where
  "Subscribe topic buffer q =
     (let ch = mq_brk q in
      (ch, q\<lparr>mq_topics := append_at topic ch (mq_topics q), mq_brk := Suc ch,
             mq_cap := (mq_cap q)(ch := buffer), mq_buf := (mq_buf q)(ch := [])\<rparr>))"

definition SubscribeCallback :: "gostring \<Rightarrow> nat \<Rightarrow> 'c queue \<Rightarrow> 'c queue" where
  "SubscribeCallback topic callbackFunc q =
     q\<lparr>mq_callbacks := append_at topic callbackFunc (mq_callbacks q)\<rparr>"

definition Unsubscribe :: "gostring \<Rightarrow> chan \<Rightarrow> 'c queue \<Rightarrow> 'c queue" where
  "Unsubscribe topic sub q =
     (case mq_topics q topic of
        None \<Rightarrow> q
      | Some subscribers \<Rightarrow>
          q\<lparr>mq_topics := (mq_topics q)(topic \<mapsto> filter (\<lambda>subscriber. subscriber \<noteq> sub) subscribers)\<rparr>)"

text \<open>An event of aria2 is the id of its download; its message carries all the events.\<close>

type_synonym rpc_event = gostring

definition Aria2Notify :: "rpc_event list \<Rightarrow> int \<Rightarrow> rpc_event list queue \<Rightarrow> rpc_event list queue" where
  "Aria2Notify events status q =
     foldl (\<lambda>q gid. Publish gid \<lparr>TriggeredBy = gid, Event = formatInt status, MsgContent = events\<rparr> q) q events"

text \<open>The statuses of \<open>pkg/aria2/common\<close>.\<close>

definition Ready :: int where "Ready = 0"
definition Downloading :: int where "Downloading = 1"
definition Paused :: int where "Paused = 2"
definition DownloadError :: int where "DownloadError = 3"
definition DownloadComplete :: int where "DownloadComplete = 4"
definition Canceled :: int where "Canceled = 5"
definition UnknownStatus :: int where "UnknownStatus = 6"

definition OnDownloadStart :: "rpc_event list \<Rightarrow> rpc_event list queue \<Rightarrow> rpc_event list queue" where
  "OnDownloadStart events q = Aria2Notify events Downloading q"

definition OnDownloadPause :: "rpc_event list \<Rightarrow> rpc_event list queue \<Rightarrow> rpc_event list queue" where
  "OnDownloadPause events q = Aria2Notify events Paused q"

definition OnDownloadStop :: "rpc_event list \<Rightarrow> rpc_event list queue \<Rightarrow> rpc_event list queue" where
  "OnDownloadStop events q = Aria2Notify events Canceled q"

definition OnDownloadComplete :: "rpc_event list \<Rightarrow> rpc_event list queue \<Rightarrow> rpc_event list queue" where
  "OnDownloadComplete events q = Aria2Notify events DownloadComplete q"

definition OnDownloadError :: "rpc_event list \<Rightarrow> rpc_event list queue \<Rightarrow> rpc_event list queue" where
  "OnDownloadError events q = Aria2Notify events DownloadError q"

definition OnBtDownloadComplete :: "rpc_event list \<Rightarrow> rpc_event list queue \<Rightarrow> rpc_event list queue" where
  "OnBtDownloadComplete events q = Aria2Notify events DownloadComplete q"

section \<open>Running\<close>

text \<open>
  The goroutine of \<open>Publish\<close>: one turn of its loop, for the \<open>i\<close>-th goroutine that is still
  sending. The \<open>select\<close> sends into free space of the channel, hands the message to a reader that
  waits there (who only waits when nothing is buffered), or times out; which of them is the
  runtime's choice. The result has what a reader received.
\<close>

datatype select_case = To_buffer | To_reader | Timed_out

definition sender :: "select_case \<Rightarrow> nat \<Rightarrow> 'c queue \<Rightarrow> ('c queue \<times> (chan \<times> 'c message) list) option" where
  "sender w i q =
     (if length (mq_sends q) \<le> i then None
      else case mq_sends q ! i of
        ([], message) \<Rightarrow> None
      | (ch # subscribersChan, message) \<Rightarrow>
          (let q1 = q\<lparr>mq_sends := (mq_sends q)[i := (subscribersChan, message)]\<rparr>
           in case w of
             To_buffer \<Rightarrow>
               if length (mq_buf q ch) < mq_cap q ch
               then Some (q1\<lparr>mq_buf := (mq_buf q)(ch := mq_buf q ch @ [message])\<rparr>, [])
               else None
           | To_reader \<Rightarrow> if mq_buf q ch = [] then Some (q1, [(ch, message)]) else None
           | Timed_out \<Rightarrow> Some (q1, [])))"

text \<open>A reader takes what is buffered first.\<close>

definition receive_from :: "chan \<Rightarrow> 'c queue \<Rightarrow> ('c queue \<times> (chan \<times> 'c message) list) option" where
  "receive_from c q =
     (case mq_buf q c of
        [] \<Rightarrow> None
      | m # ms \<Rightarrow> Some (q\<lparr>mq_buf := (mq_buf q)(c := ms)\<rparr>, [(c, m)]))"

text \<open>
  The steps. Beside the queue they keep what its clients know, without looking into it: \<open>subs\<close>,
  the subscriptions by the calls made, a topic with the channel that \<open>Subscribe\<close> returned for it,
  until \<open>Unsubscribe\<close> is called with the two; \<open>pubs\<close>, the messages published, each with its topic
  and the subscriptions of the moment; and \<open>got\<close>, what was received from which channel.
\<close>

type_synonym 'c subscriptions = "(gostring \<times> chan) set"
type_synonym 'c publications = "(gostring \<times> 'c message \<times> (gostring \<times> chan) set) list"
type_synonym 'c receipts = "(chan \<times> 'c message) list"
type_synonym 'c mq_run = "'c queue \<times> (gostring \<times> chan) set \<times> 'c publications \<times> 'c receipts"

inductive mq_step :: "'c mq_run \<Rightarrow> 'c mq_run \<Rightarrow> bool" where
  publish: "mq_step (q, subs, pubs, got) (Publish topic m q, subs, pubs @ [(topic, m, subs)], got)"
| subscribe: "Subscribe topic n q = (c, q') \<Longrightarrow>
     mq_step (q, subs, pubs, got) (q', insert (topic, c) subs, pubs, got)"
| callback: "mq_step (q, subs, pubs, got) (SubscribeCallback topic f q, subs, pubs, got)"
| unsubscribe: "mq_step (q, subs, pubs, got) (Unsubscribe topic c q, subs - {(topic, c)}, pubs, got)"
| send: "sender w i q = Some (q', out) \<Longrightarrow>
     mq_step (q, subs, pubs, got) (q', subs, pubs, got @ out)"
| receive: "receive_from c q = Some (q', out) \<Longrightarrow>
     mq_step (q, subs, pubs, got) (q', subs, pubs, got @ out)"

inductive mq_reachable :: "'c mq_run \<Rightarrow> bool" where
  start: "mq_reachable (NewMQ, {}, [], [])"
| step: "mq_reachable s \<Longrightarrow> mq_step s s' \<Longrightarrow> mq_reachable s'"

section \<open>No message twice, no channel overfull\<close>

text \<open>
  What was received from a channel, what was published for it while it was subscribed to the
  topic, and what goroutines may still send to it.
\<close>

definition received :: "chan \<Rightarrow> 'c receipts \<Rightarrow> 'c message multiset" where
  "received c got = mset (map snd (filter (\<lambda>p. fst p = c) got))"

definition due :: "chan \<Rightarrow> 'c publications \<Rightarrow> 'c message multiset" where
  "due c pubs = mset (map (\<lambda>(topic, m, subs). m) (filter (\<lambda>(topic, m, subs). (topic, c) \<in> subs) pubs))"

definition pending :: "chan \<Rightarrow> (chan list \<times> 'c message) list \<Rightarrow> 'c message multiset" where
  "pending c sends = sum_list (map (\<lambda>(cs, m). replicate_mset (count_list cs c) m) sends)"

lemma received_append [simp]: "received c (h @ k) = received c h + received c k"
  by (simp add: received_def)

lemma received_simps [simp]:
  "received c [] = {#}" "received c [(a, m)] = (if a = c then {#m#} else {#})"
  by (simp_all add: received_def)

lemma due_simps [simp]:
  "due c [] = {#}"
  "due c (pubs @ [(topic, m, subs)]) = due c pubs + (if (topic, c) \<in> subs then {#m#} else {#})"
  by (simp_all add: due_def)

lemma pending_append [simp]: "pending c (s @ t) = pending c s + pending c t"
  by (simp add: pending_def)

lemma pending_simps [simp]:
  "pending c [] = {#}" "pending c [(cs, m)] = replicate_mset (count_list cs c) m"
  by (simp_all add: pending_def)

lemma pending_update:
  assumes "i < length sends" and "sends ! i = (a # cs, m)"
  shows "pending c sends = (if a = c then {#m#} else {#}) + pending c (sends[i := (cs, m)])"
proof -
  have "sends = take i sends @ (a # cs, m) # drop (Suc i) sends"
    using id_take_nth_drop [OF assms(1)] assms(2) by simp
  moreover have "sends[i := (cs, m)] = take i sends @ (cs, m) # drop (Suc i) sends"
    by (rule upd_conv_take_nth_drop) (rule assms(1))
  ultimately have "pending c sends = pending c (take i sends @ (a # cs, m) # drop (Suc i) sends)"
    and "pending c (sends[i := (cs, m)]) = pending c (take i sends @ (cs, m) # drop (Suc i) sends)"
    by (simp_all only:)
  then show ?thesis by (simp add: pending_def)
qed

text \<open>What a channel handed out, holds, or may still be sent.\<close>

definition in_hand :: "chan \<Rightarrow> 'c queue \<Rightarrow> 'c receipts \<Rightarrow> 'c message multiset" where
  "in_hand c q got = received c got + mset (mq_buf q c) + pending c (mq_sends q)"

text \<open>The subscribers of a topic, in the queue.\<close>

definition chans_of :: "'c queue \<Rightarrow> gostring \<Rightarrow> chan list" where
  "chans_of q topic = (case mq_topics q topic of None \<Rightarrow> [] | Some cs \<Rightarrow> cs)"

text \<open>The table of the queue agrees with the calls made, and names every subscriber once.\<close>

definition table_ok :: "'c queue \<Rightarrow> (gostring \<times> chan) set \<Rightarrow> bool" where
  "table_ok q subs =
     (\<forall>topic. distinct (chans_of q topic) \<and> set (chans_of q topic) = {c. (topic, c) \<in> subs} \<and>
        (\<forall>c \<in> set (chans_of q topic). c < mq_brk q))"

definition mq_inv :: "'c mq_run \<Rightarrow> bool" where
  "mq_inv s =
     (case s of (q, subs, pubs, got) \<Rightarrow>
        table_ok q subs \<and> (\<forall>c. in_hand c q got \<subseteq># due c pubs) \<and>
        (\<forall>c. length (mq_buf q c) \<le> mq_cap q c) \<and> (\<forall>c \<ge> mq_brk q. mq_cap q c = 0))"

lemmas queue_defs = Publish_def Subscribe_def SubscribeCallback_def Unsubscribe_def Let_def

lemma pending_Publish:
  "pending c (mq_sends (Publish topic m q)) =
     pending c (mq_sends q) + replicate_mset (count_list (chans_of q topic) c) m"
  by (simp add: Publish_def chans_of_def split: option.split)

lemma Publish_keeps [simp]:
  "mq_buf (Publish topic m q) = mq_buf q" "mq_cap (Publish topic m q) = mq_cap q"
  "mq_brk (Publish topic m q) = mq_brk q" "mq_topics (Publish topic m q) = mq_topics q"
  "chans_of (Publish topic m q) = chans_of q"
  by (simp_all add: Publish_def chans_of_def fun_eq_iff split: option.split)

text \<open>A message published goes to those who subscribed, and to each of them once.\<close>

lemma count_subscribers:
  assumes "table_ok q subs"
  shows "count_list (chans_of q topic) c = (if (topic, c) \<in> subs then 1 else 0)"
proof -
  have "distinct (chans_of q topic)" and "(c \<in> set (chans_of q topic)) = ((topic, c) \<in> subs)"
    using assms by (auto simp: table_ok_def)
  then show ?thesis using distinct_count_atmost_1 [of "chans_of q topic"]
    by (simp add: count_mset)
qed

lemma table_ok_Subscribe:
  assumes "table_ok q subs" and "Subscribe topic n q = (c, q')"
  shows "table_ok q' (insert (topic, c) subs)"
proof -
  have q': "chans_of q' t = (if t = topic then chans_of q t @ [c] else chans_of q t)"
    "c = mq_brk q" "mq_brk q' = Suc (mq_brk q)" for t
    using assms(2) by (auto simp: queue_defs chans_of_def append_at_def split: option.splits)
  show ?thesis using assms(1) unfolding table_ok_def q' by (auto simp: less_Suc_eq)
qed

lemma table_ok_Unsubscribe:
  "table_ok q subs \<Longrightarrow> table_ok (Unsubscribe topic c q) (subs - {(topic, c)})"
proof -
  have "chans_of (Unsubscribe topic c q) t =
      (if t = topic then filter (\<lambda>s. s \<noteq> c) (chans_of q t) else chans_of q t)"
    "mq_brk (Unsubscribe topic c q) = mq_brk q" for t
    by (auto simp: queue_defs chans_of_def split: option.splits)
  then show "table_ok q subs \<Longrightarrow> ?thesis" by (auto simp: table_ok_def)
qed

text \<open>Neither a sender nor a reader makes a message, and neither overfills a channel.\<close>

lemma sender_in_hand:
  assumes "sender w i q = Some (q', out)"
  shows "in_hand c q' (got @ out) \<subseteq># in_hand c q got"
proof -
  obtain ch cs m where i: "i < length (mq_sends q)" "mq_sends q ! i = (ch # cs, m)"
    using assms by (auto simp: sender_def split: if_splits prod.splits list.splits)
  note p = pending_update [OF i, of c]
  show ?thesis using assms i p
    by (cases w) (auto simp: sender_def in_hand_def Let_def split: if_splits)
qed

lemma receive_in_hand:
  "receive_from c q = Some (q', out) \<Longrightarrow> in_hand d q' (got @ out) = in_hand d q got"
  by (auto simp: receive_from_def in_hand_def split: list.splits)

lemma sender_keeps:
  assumes "sender w i q = Some (q', out)" and "length (mq_buf q c) \<le> mq_cap q c"
  shows "mq_topics q' = mq_topics q" "mq_brk q' = mq_brk q" "mq_cap q' = mq_cap q"
    "length (mq_buf q' c) \<le> mq_cap q c"
  using assms by (auto simp: sender_def Let_def split: if_splits prod.splits list.splits select_case.splits)

lemma receive_keeps:
  assumes "receive_from d q = Some (q', out)" and "length (mq_buf q c) \<le> mq_cap q c"
  shows "mq_topics q' = mq_topics q" "mq_brk q' = mq_brk q" "mq_cap q' = mq_cap q"
    "length (mq_buf q' c) \<le> mq_cap q c"
  using assms by (auto simp: receive_from_def split: list.splits)

lemma table_ok_cong:
  "mq_topics q' = mq_topics q \<Longrightarrow> mq_brk q' = mq_brk q \<Longrightarrow> table_ok q' subs = table_ok q subs"
  by (simp add: table_ok_def chans_of_def)

lemma mq_step_inv:
  assumes "mq_step s s'" and "mq_inv s"
  shows "mq_inv s'"
  using assms(1)
proof cases
  case (publish q subs pubs got topic m)
  have "table_ok q subs" using assms(2) publish(1) by (simp add: mq_inv_def)
  note count = count_subscribers [OF this]
  have "in_hand c (Publish topic m q) got =
      in_hand c q got + (if (topic, c) \<in> subs then {#m#} else {#})" for c
    by (simp add: in_hand_def pending_Publish count)
  moreover have "table_ok (Publish topic m q) subs = table_ok q subs" by (rule table_ok_cong) simp_all
  ultimately show ?thesis using assms(2) publish
    by (auto simp: mq_inv_def subset_mset.add_right_mono)
next
  case (subscribe topic n q c q' subs pubs got)
  have empty: "mq_buf q (mq_brk q) = []"
    using subscribe(1) assms(2) by (simp add: mq_inv_def) (metis le_refl le_zero_eq length_0_conv)
  then have "(mq_buf q)(mq_brk q := []) = mq_buf q" by (rule fun_upd_idem)
  moreover have "table_ok q' (insert (topic, c) subs)"
    using subscribe assms(2) by (auto simp: mq_inv_def intro: table_ok_Subscribe)
  ultimately show ?thesis using empty subscribe assms(2)
    by (auto simp: mq_inv_def in_hand_def Subscribe_def Let_def)
next
  case (unsubscribe q subs pubs got topic c)
  have "in_hand d (Unsubscribe topic c q) got = in_hand d q got"
    "mq_buf (Unsubscribe topic c q) = mq_buf q" "mq_cap (Unsubscribe topic c q) = mq_cap q"
    "mq_brk (Unsubscribe topic c q) = mq_brk q" for d
    by (simp_all add: Unsubscribe_def in_hand_def split: option.split)
  then show ?thesis using unsubscribe assms(2) by (simp add: mq_inv_def table_ok_Unsubscribe)
next
  case (send w i q q' out subs pubs got)
  have "in_hand c q' (got @ out) \<subseteq># due c pubs" for c
    using sender_in_hand [OF send(3)] assms(2) send(1)
    by (auto simp: mq_inv_def intro: subset_mset.order_trans)
  then show ?thesis using assms(2) send sender_keeps [OF send(3)]
    by (simp add: mq_inv_def) (metis table_ok_cong)
next
  case (receive c q q' out subs pubs got)
  have "in_hand d q' (got @ out) \<subseteq># due d pubs" for d
    using receive_in_hand [OF receive(3)] assms(2) receive(1) by (simp add: mq_inv_def)
  then show ?thesis using assms(2) receive receive_keeps [OF receive(3)]
    by (simp add: mq_inv_def) (metis table_ok_cong)
qed (use assms(2) in \<open>auto simp: mq_inv_def in_hand_def SubscribeCallback_def table_ok_def chans_of_def\<close>)

lemma mq_reachable_inv: "mq_reachable s \<Longrightarrow> mq_inv s"
  by (induction rule: mq_reachable.induct)
    (simp add: mq_inv_def in_hand_def NewMQ_def table_ok_def chans_of_def, rule mq_step_inv)

section \<open>Properties\<close>

text \<open>
  C24. However publishers, goroutines, readers and subscriptions interleave, no channel hands out
  a message more often than it was published, on a topic the channel was subscribed to when it
  was published, by the calls of \<open>Subscribe\<close> and \<open>Unsubscribe\<close> made until then: nothing is
  delivered twice, and nothing that was published before the subscription or after its end.
\<close>
theorem mq_at_most_once:
  assumes "mq_reachable (q, subs, pubs, got)"
  shows "received c got \<subseteq># due c pubs"
proof -
  have "received c got + (mset (mq_buf q c) + pending c (mq_sends q)) \<subseteq># due c pubs"
    using mq_reachable_inv [OF assms] by (simp add: mq_inv_def in_hand_def add.assoc)
  then show ?thesis by (rule subset_mset.order_trans [OF mset_subset_eq_add_left])
qed

text \<open>
  Two messages are published, the second after the end of the subscription: the run has both, and
  what the channel hands out, and what it was due, is the first one.
\<close>

theorem mq_at_most_once_witness:
  "\<exists>(q :: unit queue) subs pubs got m.
     mq_reachable (q, subs, pubs, got) \<and> length pubs = 2 \<and> subs = {} \<and>
     received 0 got = {#m#} \<and> due 0 pubs = {#m#} \<and> received 0 got \<subseteq># due 0 pubs"
proof -
  let ?m = "\<lparr>TriggeredBy = ''g'', Event = ''1'', MsgContent = ()\<rparr>"
  let ?n = "\<lparr>TriggeredBy = ''g'', Event = ''4'', MsgContent = ()\<rparr>"
  let ?q1 = "snd (Subscribe ''g'' 1 (NewMQ :: unit queue))"
  let ?q2 = "Publish ''g'' ?m ?q1"
  let ?q3 = "?q2\<lparr>mq_sends := [([], ?m)]\<rparr>"
  let ?q4 = "Unsubscribe ''g'' 0 ?q3"
  let ?q5 = "Publish ''g'' ?n ?q4"
  let ?p = "[(''g'', ?m, {(''g'', 0)})]"
  have "mq_reachable (?q1, {(''g'', 0)}, [], [])"
    by (rule mq_reachable.step [OF start subscribe [of "''g''" 1]])
      (simp add: Subscribe_def NewMQ_def)
  then have "mq_reachable (?q2, {(''g'', 0)}, ?p, [])"
    using mq_reachable.step [OF _ publish [of ?q1 "{(''g'', 0)}" "[]" "[]" "''g''" ?m]] by simp
  moreover have "sender To_reader 0 ?q2 = Some (?q3, [(0, ?m)])"
    by (simp add: sender_def queue_defs NewMQ_def append_at_def)
  ultimately have "mq_reachable (?q3, {(''g'', 0)}, ?p, [(0, ?m)])"
    using mq_reachable.step [OF _ send [of To_reader 0 ?q2]] by fastforce
  then have "mq_reachable (?q4, {}, ?p, [(0, ?m)])"
    using mq_reachable.step [OF _ unsubscribe [of ?q3 "{(''g'', 0)}" ?p "[(0, ?m)]" "''g''" 0]] by simp
  then have r: "mq_reachable (?q5, {}, ?p @ [(''g'', ?n, {})], [(0, ?m)])"
    using mq_reachable.step [OF _ publish [of ?q4 "{}" ?p "[(0, ?m)]" "''g''" ?n]] by simp
  have "received 0 [(0, ?m)] = {#?m#}" "due 0 (?p @ [(''g'', ?n, {})]) = {#?m#}"
    by (simp_all add: due_def)
  with r mq_at_most_once [OF r, of 0] show ?thesis by fastforce
qed

end
