(* ===== verification/Aria2.thy ===== *)
theory Aria2
  imports TaskPool Cluster MessageQueue
begin

text \<open>
  \<open>pkg/aria2\<close> and \<open>service/aria2\<close>: offline downloads. A download is added for a user
  (\<open>add.go\<close>), which picks a node; a monitor follows it (\<open>monitor.go\<close>) until it is done, failed or
  cancelled; the user lists, selects and cancels downloads (\<open>manage.go\<close>).

  What a node's aria2 answers is an argument of each step. The monitor is its download, which
  carries the status last decoded, with the node; what it asks of others is a list of actions.
  \<open>None\<close> is a panic.
\<close>

section \<open>Statuses (common.go, rpc/resp.go)\<close>

definition GetStatus :: "gostring \<Rightarrow> int" where
  "GetStatus status =
     (if status = ''complete'' then DownloadComplete
      else if status = ''active'' then Downloading
      else if status = ''waiting'' then Ready
      else if status = ''paused'' then Paused
      else if status = ''error'' then DownloadError
      else if status = ''removed'' then Canceled
      else UnknownStatus)"

record aria2_file =
  fi_Path :: gostring
  fi_Length :: gostring
  fi_Selected :: gostring

record status_info =
  si_Gid :: gostring
  si_Status :: gostring
  si_TotalLength :: gostring
  si_CompletedLength :: gostring
  si_DownloadSpeed :: gostring
  si_ErrorMessage :: gostring
  si_FollowedBy :: "gostring list"
  si_Dir :: gostring
  si_Files :: "aria2_file list"
  si_Mode :: gostring
  si_InfoName :: gostring

definition zero_status :: status_info where
  "zero_status = \<lparr>si_Gid = [], si_Status = [], si_TotalLength = [], si_CompletedLength = [], si_DownloadSpeed = [],
     si_ErrorMessage = [], si_FollowedBy = [], si_Dir = [], si_Files = [], si_Mode = [], si_InfoName = []\<rparr>"

section \<open>The monitor (monitor.go)\<close>

text \<open>\<open>mo_node\<close> is where the pool keeps the node.\<close>

record monitor =
  mo_Task :: download_row
  mo_StatusInfo :: status_info
  mo_node :: addr
  mo_retried :: int

datatype aria2_action = CancelDownload gostring | DeleteTempFile gostring | SubmitJob job | SubscribeTo gostring

text \<open>
  \<open>ae_save\<close> is \<open>Save\<close> of gorm; \<open>ae_hooks\<close> says whether it calls the hooks of the model, which
  it does only when they have the signature it documents.
\<close>

record 'p aria2_env =
  ae_tasks :: "'p task_env"
  ae_pool :: pool
  ae_save :: "download_row \<Rightarrow> db \<Rightarrow> db_error + db"
  ae_hooks :: bool
  ae_encode :: "status_info \<Rightarrow> gostring"
  ae_decode :: "gostring \<Rightarrow> status_info option"
  ae_interval :: "addr \<Rightarrow> int"

type_synonym 'p mon_state = "monitor \<times> 'p server \<times> aria2_action list"

definition MAX_RETRY :: int where "MAX_RETRY = 10"

text \<open>A slave node has no instance yet: asking for it panics.\<close>

definition has_instance :: "'p aria2_env \<Rightarrow> addr \<Rightarrow> bool" where
  "has_instance E a \<longleftrightarrow> nd_master (np_store (ae_pool E) a)"

text \<open>\<open>Save\<close> on a download: its hook decodes the status; an error of the hook stops it.\<close>

definition save_download :: "'p aria2_env \<Rightarrow> 'p mon_state \<Rightarrow> fs_error option \<times> 'p mon_state" where
  "save_download E = (\<lambda>(m, sv, acts).
     (case (if ae_hooks E \<and> dl_Attrs (mo_Task m) \<noteq> [] then
              (case ae_decode E (dl_Attrs (mo_Task m)) of None \<Rightarrow> None | Some si \<Rightarrow> Some (m\<lparr>mo_StatusInfo := si\<rparr>))
            else Some m) of
        None \<Rightarrow> (Some (StorageError 0), m, sv, acts)
      | Some m' \<Rightarrow>
          (case Download_Save (ae_save E) (mo_Task m') (sv_db sv) of
             (Inl e, d') \<Rightarrow> (Some (ModelError e), m', sv\<lparr>sv_db := d'\<rparr>, acts)
           | (Inr _, d') \<Rightarrow> (None, m', sv\<lparr>sv_db := d'\<rparr>, acts))))"

definition setErrorStatus :: "'p aria2_env \<Rightarrow> gostring \<Rightarrow> 'p mon_state \<Rightarrow> 'p mon_state" where
  "setErrorStatus E err = (\<lambda>(m, sv, acts).
     snd (save_download E (m\<lparr>mo_Task := (mo_Task m)\<lparr>dl_Status := DownloadError, dl_Error := err\<rparr>\<rparr>, sv, acts)))"

definition RemoveTempFolder :: "'p mon_state \<Rightarrow> 'p mon_state" where
  "RemoveTempFolder = (\<lambda>(m, sv, acts). (m, sv, acts @ [DeleteTempFile (dl_Parent (mo_Task m))]))"

definition parse_length :: "gostring \<Rightarrow> u64" where
  "parse_length s = (case parseUint s of None \<Rightarrow> 0 | Some n \<Rightarrow> of_nat n)"

fun validate_files :: "aria2_file list \<Rightarrow> 'p world \<Rightarrow> fs_error option" where
  "validate_files [] w = None"
| "validate_files (fi # fis) w =
     (if fi_Selected fi = ''true'' then
        (case hook_ValidateFile (zero_stream\<lparr>fst_Size := parse_length (fi_Length fi), fst_Name := pathBase (fi_Path fi)\<rparr>) w of
           Some (Some e, _) \<Rightarrow> Some e
         | _ \<Rightarrow> validate_files fis w)
      else validate_files fis w)"

text \<open>The struct of a download does not carry its user.\<close>

definition ValidateFile :: "'p aria2_env \<Rightarrow> monitor \<Rightarrow> 'p server \<Rightarrow> fs_error option" where
  "ValidateFile E m sv =
     (let S = te_sys (ae_tasks E) in
      case GetOwner (orm S) (preload S) None (mo_Task m) (sv_db sv) of
        None \<Rightarrow> Some (AppError CodeNotFound)
      | Some user \<Rightarrow>
          (case NewFileSystem S user (sv_db sv) (sv_cache sv) (sv_disk sv) of
             (Some e, _) \<Rightarrow> Some e
           | (None, w) \<Rightarrow>
               (case hook_ValidateCapacity (zero_stream\<lparr>fst_Size := dl_TotalSize (mo_Task m)\<rparr>) w of
                  Some (Some e, _) \<Rightarrow> Some e
                | _ \<Rightarrow> validate_files (si_Files (mo_StatusInfo m)) w)))"

definition UpdateTaskInfo :: "'p aria2_env \<Rightarrow> status_info \<Rightarrow> 'p mon_state \<Rightarrow> fs_error option \<times> 'p mon_state" where
  "UpdateTaskInfo E status = (\<lambda>(m, sv, acts).
     (let originSize = dl_TotalSize (mo_Task m);
          t1 = (mo_Task m)\<lparr>dl_GID := si_Gid status, dl_Status := GetStatus (si_Status status),
            dl_TotalSize := parse_length (si_TotalLength status), dl_DownloadedSize := parse_length (si_CompletedLength status),
            dl_Parent := si_Dir status,
            dl_Speed := (case parseInt (si_DownloadSpeed status) of None \<Rightarrow> 0 | Some n \<Rightarrow> n),
            dl_Attrs := ae_encode E status\<rparr>
      in case save_download E (m\<lparr>mo_Task := t1\<rparr>, sv, acts) of
           (Some e, s) \<Rightarrow> (Some e, s)
         | (None, (m2, sv2, acts2)) \<Rightarrow>
             (if originSize \<noteq> dl_TotalSize (mo_Task m2) then
                (case ValidateFile E m2 sv2 of
                   Some e \<Rightarrow> (Some e, m2, sv2, acts2 @ [CancelDownload (dl_GID (mo_Task m2))])
                 | None \<Rightarrow> (None, m2, sv2, acts2))
              else (None, m2, sv2, acts2))))"

definition selected_files :: "status_info \<Rightarrow> aria2_file list" where
  "selected_files si = filter (\<lambda>fi. fi_Selected fi = ''true'') (si_Files si)"

definition monitor_Complete :: "'p aria2_env \<Rightarrow> 'p mon_state \<Rightarrow> 'p mon_state" where
  "monitor_Complete E = (\<lambda>(m, sv, acts).
     (let sel = selected_files (mo_StatusInfo m);
          fs = map fi_Path sel;
          srcSizes = foldl (\<lambda>szs fi. szs(fi_Path fi \<mapsto> parse_length (fi_Length fi))) Map.empty sel
      in case NewTransferTask (ae_tasks E) (dl_UserID (mo_Task m)) fs (dl_Dst (mo_Task m)) (dl_Parent (mo_Task m)) True
                (node_ID (np_store (ae_pool E) (mo_node m))) srcSizes (sv_db sv) of
           (Inl e, d') \<Rightarrow>
             RemoveTempFolder (setErrorStatus E (te_message (ae_tasks E) (ModelError (DbErr e))) (m, sv\<lparr>sv_db := d'\<rparr>, acts))
         | (Inr j, d') \<Rightarrow>
             snd (save_download E (m\<lparr>mo_Task := (mo_Task m)\<lparr>dl_TaskID := t_ID (j_Task j)\<rparr>\<rparr>, sv\<lparr>sv_db := d'\<rparr>,
               acts @ [SubmitJob j]))))"

definition monitor_Error :: "'p aria2_env \<Rightarrow> status_info \<Rightarrow> 'p mon_state \<Rightarrow> 'p mon_state" where
  "monitor_Error E status s = RemoveTempFolder (setErrorStatus E (si_ErrorMessage status) s)"

text \<open>One update: \<open>answer\<close> is the error or the status the node gives. The flag says that the monitor is done.\<close>

definition monitor_Update ::
  "'p aria2_env \<Rightarrow> gostring + status_info \<Rightarrow> 'p mon_state \<Rightarrow> (bool \<times> 'p mon_state) option" where
  "monitor_Update E answer = (\<lambda>(m, sv, acts).
     if \<not> has_instance E (mo_node m) then None
     else (case answer of
        Inl err \<Rightarrow>
          (let m1 = m\<lparr>mo_retried := mo_retried m + 1\<rparr> in
           if mo_retried m1 > MAX_RETRY then Some (True, RemoveTempFolder (setErrorStatus E err (m1, sv, acts)))
           else Some (False, m1, sv, acts))
      | Inr status \<Rightarrow>
          (let m1 = m\<lparr>mo_retried := 0\<rparr> in
           case si_FollowedBy status of
             gid # _ \<Rightarrow>
               Some (False, snd (save_download E (m1\<lparr>mo_Task := (mo_Task m1)\<lparr>dl_GID := gid\<rparr>\<rparr>, sv, acts)))
           | [] \<Rightarrow>
               (case UpdateTaskInfo E status (m1, sv, acts) of
                  (Some e, s2) \<Rightarrow>
                    Some (True, RemoveTempFolder (setErrorStatus E (te_message (ae_tasks E) e) s2))
                | (None, s2) \<Rightarrow>
                    (if si_Status status = ''complete'' then Some (True, monitor_Complete E s2)
                     else if si_Status status = ''err'' then Some (True, monitor_Error E status s2)
                     else if si_Status status \<in> {''active'', ''waiting'', ''paused''} then Some (False, s2)
                     else if si_Status status = ''removed'' then
                       (let (m2, sv2, acts2) = s2;
                            m3 = m2\<lparr>mo_Task := (mo_Task m2)\<lparr>dl_Status := Canceled\<rparr>\<rparr>
                        in Some (True, RemoveTempFolder (snd (save_download E (m3, sv2, acts2)))))
                     else Some (True, s2))))))"

text \<open>The loop: every notification and every tick makes one update, until one says it is done.\<close>

fun monitor_Loop ::
  "'p aria2_env \<Rightarrow> (gostring + status_info) list \<Rightarrow> 'p mon_state \<Rightarrow> (bool \<times> 'p mon_state) option" where
  "monitor_Loop E [] s = Some (False, s)"
| "monitor_Loop E (a # as) s =
     (case monitor_Update E a s of
        None \<Rightarrow> None
      | Some (True, s') \<Rightarrow> Some (True, s')
      | Some (False, s') \<Rightarrow> monitor_Loop E as s')"

text \<open>A monitor whose node is gone only records the error; one that runs is returned.\<close>

definition NewMonitor ::
  "'p aria2_env \<Rightarrow> download_row \<Rightarrow> status_info \<Rightarrow> 'p server \<Rightarrow> aria2_action list \<Rightarrow>
   (monitor option \<times> 'p server \<times> aria2_action list) option" where
  "NewMonitor E dl si sv acts =
     (case pool_GetNodeByID (GetNodeID dl) (ae_pool E) of
        None \<Rightarrow>
          (let (m, sv', acts') = setErrorStatus E ''node unavailable''
                 (\<lparr>mo_Task = dl, mo_StatusInfo = si, mo_node = 0, mo_retried = 0\<rparr>, sv, acts)
           in Some (None, sv', acts'))
      | Some a \<Rightarrow>
          (if \<not> has_instance E a then None
           else Some (Some \<lparr>mo_Task = dl, mo_StatusInfo = si, mo_node = a, mo_retried = 0\<rparr>, sv,
                      acts @ [SubscribeTo (dl_GID dl)])))"

section \<open>Starting (aria2.go)\<close>

fun start_monitors ::
  "'p aria2_env \<Rightarrow> download_row list \<Rightarrow> 'p server \<Rightarrow> aria2_action list \<Rightarrow>
   (monitor list \<times> 'p server \<times> aria2_action list) option" where
  "start_monitors E [] sv acts = Some ([], sv, acts)"
| "start_monitors E (dl # dls) sv acts =
     Option.bind (NewMonitor E dl zero_status sv acts) (\<lambda>(m, sv1, acts1).
       map_option (\<lambda>(ms, s). ((case m of None \<Rightarrow> ms | Some x \<Rightarrow> x # ms), s)) (start_monitors E dls sv1 acts1))"

definition aria2_Init ::
  "'p aria2_env \<Rightarrow> bool \<Rightarrow> 'p server \<Rightarrow> (round_robin \<times> monitor list \<times> 'p server \<times> aria2_action list) option" where
  "aria2_Init E isReload sv =
     (let LB = NewBalancer ''RoundRobin'' in
      if isReload then Some (LB, [], sv, [])
      else map_option (Pair LB)
             (start_monitors E (GetDownloadsByStatus (orm (te_sys (ae_tasks E))) [Ready, Paused, Downloading] (sv_db sv)) sv []))"

section \<open>Adding downloads (service/aria2/add.go)\<close>

definition CodeBatchAria2Size :: int where "CodeBatchAria2Size = 40015"

text \<open>What a request works with, beside the server: the balancer, and what was asked of others.\<close>

record aria2_state =
  a2_lb :: round_robin
  a2_monitors :: "monitor list"
  a2_actions :: "aria2_action list"

definition unfinished :: "int list" where
  "unfinished = [Downloading, Paused, Ready]"

text \<open>
  Adding with the file system of the caller. \<open>create a dl\<close> is what the aria2 of the node at \<open>a\<close>
  answers to a new task: an error, or the id of the download.
\<close>

definition add_download ::
  "'p aria2_env \<Rightarrow> (addr \<Rightarrow> download_row \<Rightarrow> gostring + gostring) \<Rightarrow> 'p world \<Rightarrow> gostring \<Rightarrow> gostring \<Rightarrow> int \<Rightarrow>
   'p server \<times> aria2_state \<Rightarrow> (unit response \<times> 'p server \<times> aria2_state) option" where
  "add_download E create w url dst taskType = (\<lambda>(sv, st).
     (let G = orm (te_sys (ae_tasks E));
          downloads = GetDownloadsByStatusAndUser G 0 (u_ID (User w)) unfinished (sv_db sv);
          limit = g_Aria2BatchSize (u_Group (User w))
      in if limit > 0 \<and> int (length downloads) + 1 > limit then Some (Err CodeBatchAria2Size None, sv, st)
         else
          (let t = zero_download\<lparr>dl_Status := Ready, dl_Type := taskType, dl_Dst := dst, dl_UserID := u_ID (User w),
                 dl_Source := url\<rparr>
           in case BalanceNodeByFeature ''aria2'' (a2_lb st) (ae_pool E) of
                (Inl e, lb) \<Rightarrow> Some (Err CodeInternalSetting None, sv, st\<lparr>a2_lb := lb\<rparr>)
              | (Inr a, lb) \<Rightarrow>
                  (let st1 = st\<lparr>a2_lb := lb\<rparr> in
                   if \<not> has_instance E a then None
                   else case create a t of
                     Inl e \<Rightarrow> Some (Err CodeNotSet None, sv, st1)
                   | Inr gid \<Rightarrow>
                       (let t1 = t\<lparr>dl_GID := gid, dl_NodeID := node_ID (np_store (ae_pool E) a)\<rparr> in
                        case Download_Create G t1 (sv_db sv) of
                          (Inl e, d') \<Rightarrow> Some (DBErr None, sv\<lparr>sv_db := d'\<rparr>, st1)
                        | (Inr i, d') \<Rightarrow>
                            map_option (\<lambda>(m, sv', acts). (ok None, sv',
                                st1\<lparr>a2_monitors := a2_monitors st1 @ (case m of None \<Rightarrow> [] | Some x \<Rightarrow> [x]), a2_actions := acts\<rparr>))
                              (NewMonitor E (t1\<lparr>dl_ID := i\<rparr>) zero_status (sv\<lparr>sv_db := d'\<rparr>) (a2_actions st1)))))))"

text \<open>
  \<open>AddURLService.Add\<close>: without a file system it makes one, in a variable of its own; the one it
  goes on with is still nil.
\<close>

definition AddURL ::
  "'p aria2_env \<Rightarrow> (addr \<Rightarrow> download_row \<Rightarrow> gostring + gostring) \<Rightarrow> user_row option \<Rightarrow> 'p world option \<Rightarrow>
   gostring \<Rightarrow> gostring \<Rightarrow> int \<Rightarrow> 'p server \<times> aria2_state \<Rightarrow> (unit response \<times> 'p server \<times> aria2_state) option" where
  "AddURL E create user fs url dst taskType = (\<lambda>(sv, st).
     (case fs of
        Some w \<Rightarrow> add_download E create w url dst taskType (sv, st)
      | None \<Rightarrow>
          (let S = te_sys (ae_tasks E) in
           case NewFileSystemFromContext S user (sv_db sv) (sv_cache sv) (sv_disk sv) of
             (Some e, w) \<Rightarrow> Some (Err CodePolicyNotAllowed (Some e), sv, st)
           | (None, w) \<Rightarrow>
               (if \<not> g_Aria2 (u_Group (User w)) then Some (Err CodeGroupNotAllowed None, sv, st)
                else if \<not> fst (IsPathExist (orm S) w dst) then Some (Err CodeNotFound None, sv, st)
                else None))))"

fun add_urls ::
  "(gostring \<Rightarrow> 's \<Rightarrow> ('r \<times> 's) option) \<Rightarrow> gostring list \<Rightarrow> 's \<Rightarrow> ('r list \<times> 's) option" where
  "add_urls add [] s = Some ([], s)"
| "add_urls add (u # us) s =
     Option.bind (add u s) (\<lambda>(r, s1). map_option (\<lambda>(rs, s2). (r # rs, s2)) (add_urls add us s1))"

definition BatchAddURL ::
  "'p aria2_env \<Rightarrow> (addr \<Rightarrow> download_row \<Rightarrow> gostring + gostring) \<Rightarrow> user_row option \<Rightarrow> gostring list \<Rightarrow> gostring \<Rightarrow> int \<Rightarrow>
   'p server \<times> aria2_state \<Rightarrow> (unit response list response \<times> 'p server \<times> aria2_state) option" where
  "BatchAddURL E create user urls dst taskType = (\<lambda>(sv, st).
     (let S = te_sys (ae_tasks E) in
      case NewFileSystemFromContext S user (sv_db sv) (sv_cache sv) (sv_disk sv) of
        (Some e, w) \<Rightarrow> Some (Err CodePolicyNotAllowed (Some e), sv, st)
      | (None, w) \<Rightarrow>
          (let limit = g_Aria2BatchSize (u_Group (User w)) in
           if \<not> g_Aria2 (u_Group (User w)) then Some (Err CodeGroupNotAllowed None, sv, st)
           else if \<not> fst (IsPathExist (orm S) w dst) then Some (Err CodeBatchAria2Size None, sv, st)
           else if limit > 0 \<and> int (length urls) > limit then Some (Err CodeBatchAria2Size None, sv, st)
           else map_option (\<lambda>(rs, s). (ok (Some rs), s))
                  (add_urls (\<lambda>u. AddURL E create user (Some w) u dst taskType) urls (sv, st)))))"

section \<open>Managing downloads (service/aria2/manage.go, serializer/aria2.go)\<close>

text \<open>\<open>info\<close> is the status the struct of a row carries, \<open>select\<close> whether the node takes the selection.\<close>

definition SelectFile ::
  "'p aria2_env \<Rightarrow> (download_row \<Rightarrow> status_info) \<Rightarrow> (addr \<Rightarrow> download_row \<Rightarrow> bool) \<Rightarrow> uint \<Rightarrow> gostring \<Rightarrow> 'p server \<Rightarrow>
   unit response option" where
  "SelectFile E info select uid gid sv =
     (case GetDownloadByGid (orm (te_sys (ae_tasks E))) gid uid (sv_db sv) of
        Inl e \<Rightarrow> Some (Err CodeNotFound None)
      | Inr dl \<Rightarrow>
          (if si_Mode (info dl) \<noteq> ''multi'' \<or> (dl_Status dl \<noteq> Downloading \<and> dl_Status dl \<noteq> Paused)
           then Some (Err CodeNoPermissionErr None)
           else case pool_GetNodeByID (GetNodeID dl) (ae_pool E) of
             None \<Rightarrow> None
           | Some a \<Rightarrow>
               (if \<not> has_instance E a then None
                else if select a dl then Some (ok None) else Some (Err CodeNotSet None))))"

definition DeleteDownload ::
  "'p aria2_env \<Rightarrow> (addr \<Rightarrow> download_row \<Rightarrow> bool) \<Rightarrow> uint \<Rightarrow> gostring \<Rightarrow> 'p server \<Rightarrow> aria2_action list \<Rightarrow>
   (unit response \<times> 'p server \<times> aria2_action list) option" where
  "DeleteDownload E cancel uid gid sv acts =
     (let G = orm (te_sys (ae_tasks E)) in
      case GetDownloadByGid G gid uid (sv_db sv) of
        Inl e \<Rightarrow> Some (Err CodeNotFound None, sv, acts)
      | Inr dl \<Rightarrow>
          (if dl_Status dl \<ge> DownloadError then
             (case Download_Delete G dl (sv_db sv) of
                (Inl e, d') \<Rightarrow> Some (Err CodeDBError None, sv\<lparr>sv_db := d'\<rparr>, acts)
              | (Inr _, d') \<Rightarrow> Some (ok None, sv\<lparr>sv_db := d'\<rparr>, acts))
           else case pool_GetNodeByID (GetNodeID dl) (ae_pool E) of
             None \<Rightarrow> Some (Err CodeInternalSetting None, sv, acts)
           | Some a \<Rightarrow>
               (if \<not> has_instance E a then None
                else (let acts' = acts @ [CancelDownload (dl_GID dl)] in
                      if cancel a dl then Some (ok None, sv, acts') else Some (Err CodeNotSet None, sv, acts')))))"

record downloading_view =
  dv_UpdateInterval :: int
  dv_Name :: gostring
  dv_Status :: int
  dv_Dst :: gostring
  dv_Total :: u64
  dv_Downloaded :: u64
  dv_Speed :: int
  dv_Info :: status_info

record finished_view =
  fv_Name :: gostring
  fv_GID :: gostring
  fv_Status :: int
  fv_Dst :: gostring
  fv_Error :: gostring
  fv_Total :: u64
  fv_Files :: "aria2_file list"
  fv_TaskStatus :: int
  fv_TaskError :: gostring

definition base_paths :: "aria2_file list \<Rightarrow> aria2_file list" where
  "base_paths fis = map (\<lambda>fi. fi\<lparr>fi_Path := pathBase (fi_Path fi)\<rparr>) fis"

text \<open>Times are left out.\<close>

definition BuildDownloadingResponse ::
  "(download_row \<Rightarrow> status_info) \<Rightarrow> download_row list \<Rightarrow> (uint \<rightharpoonup> int) \<Rightarrow> downloading_view list response" where
  "BuildDownloadingResponse info dls intervals =
     ok (Some (map (\<lambda>dl.
       \<lparr>dv_UpdateInterval = (case intervals (dl_ID dl) of None \<Rightarrow> 10 | Some n \<Rightarrow> n),
        dv_Name = (case si_Files (info dl) of [] \<Rightarrow> [] | fi # _ \<Rightarrow> pathBase (fi_Path fi)),
        dv_Status = dl_Status dl, dv_Dst = dl_Dst dl, dv_Total = dl_TotalSize dl, dv_Downloaded = dl_DownloadedSize dl,
        dv_Speed = dl_Speed dl,
        dv_Info = (info dl)\<lparr>si_Dir := [], si_Files := base_paths (si_Files (info dl))\<rparr>\<rparr>) dls))"

definition BuildFinishedListResponse ::
  "(download_row \<Rightarrow> status_info) \<Rightarrow> (download_row \<Rightarrow> task_row option) \<Rightarrow> download_row list \<Rightarrow> finished_view list response" where
  "BuildFinishedListResponse info task_of dls =
     ok (Some (map (\<lambda>dl.
       \<lparr>fv_Name = (case si_Files (info dl) of [fi] \<Rightarrow> pathBase (fi_Path fi) | _ \<Rightarrow> si_InfoName (info dl)),
        fv_GID = dl_GID dl, fv_Status = dl_Status dl, fv_Dst = dl_Dst dl, fv_Error = dl_Error dl, fv_Total = dl_TotalSize dl,
        fv_Files = base_paths (si_Files (info dl)),
        fv_TaskStatus = (case task_of dl of None \<Rightarrow> -1 | Some t \<Rightarrow> t_Status t),
        fv_TaskError = (case task_of dl of None \<Rightarrow> [] | Some t \<Rightarrow> t_Error t)\<rparr>) dls))"

definition ListDownloading ::
  "'p aria2_env \<Rightarrow> (download_row \<Rightarrow> status_info) \<Rightarrow> uint \<Rightarrow> uint \<Rightarrow> 'p server \<Rightarrow> downloading_view list response" where
  "ListDownloading E info page uid sv =
     (let dls = GetDownloadsByStatusAndUser (orm (te_sys (ae_tasks E))) page uid unfinished (sv_db sv);
          intervals = foldl (\<lambda>m dl. if m (dl_ID dl) \<noteq> None then m
                else (case pool_GetNodeByID (GetNodeID dl) (ae_pool E) of
                        None \<Rightarrow> m | Some a \<Rightarrow> m(dl_ID dl \<mapsto> ae_interval E a))) Map.empty dls
      in BuildDownloadingResponse info dls intervals)"

definition ListFinished ::
  "'p aria2_env \<Rightarrow> (download_row \<Rightarrow> status_info) \<Rightarrow> (download_row \<Rightarrow> task_row option) \<Rightarrow> uint \<Rightarrow> uint \<Rightarrow> 'p server \<Rightarrow>
   finished_view list response" where
  "ListFinished E info task_of page uid sv =
     BuildFinishedListResponse info task_of
       (GetDownloadsByStatusAndUser (orm (te_sys (ae_tasks E))) page uid
          [DownloadError, DownloadComplete, Canceled, UnknownStatus] (sv_db sv))"

section \<open>Properties\<close>

lemma save_download_keeps:
  "save_download E (m, sv, acts) = (e, m', sv', acts') \<Longrightarrow> mo_Task m' = mo_Task m \<and> mo_node m' = mo_node m \<and>
     mo_retried m' = mo_retried m \<and> acts' = acts"
  by (auto simp: save_download_def split: if_splits option.splits sum.splits prod.splits)

lemma save_download_ok:
  assumes "ae_decode E (dl_Attrs (mo_Task m)) \<noteq> None" and "ae_save E (mo_Task m) (sv_db sv) = Inr d'"
  shows "\<exists>m2. save_download E (m, sv, acts) = (None, m2, sv\<lparr>sv_db := d'\<rparr>, acts)"
proof -
  obtain si where "ae_decode E (dl_Attrs (mo_Task m)) = Some si" using assms(1) by auto
  then show ?thesis
    using assms(2)
    by (cases "ae_hooks E \<and> dl_Attrs (mo_Task m) \<noteq> []")
       (auto simp: save_download_def Download_Save_def write1_def)
qed

lemma setErrorStatus_keeps:
  assumes "setErrorStatus E err (m, sv, acts) = (m', sv', acts')"
  shows "mo_Task m' = (mo_Task m)\<lparr>dl_Status := DownloadError, dl_Error := err\<rparr> \<and> acts' = acts"
proof -
  let ?s = "(m\<lparr>mo_Task := (mo_Task m)\<lparr>dl_Status := DownloadError, dl_Error := err\<rparr>\<rparr>, sv, acts)"
  obtain e where "save_download E ?s = (e, m', sv', acts')"
    using assms by (cases "save_download E ?s") (simp add: setErrorStatus_def)
  from save_download_keeps [OF this] show ?thesis by simp
qed

text \<open>
  The monitor gives up in time: when a node keeps answering errors, ten of them are borne and
  the eleventh ends the monitor, whatever the errors are.
\<close>
theorem monitor_gives_up:
  assumes "has_instance E (mo_node m)" and "mo_retried m = 0"
  shows "\<exists>s. monitor_Loop E (map Inl errs) (m, sv, acts) = Some (length errs > 10, s)"
proof -
  have "\<exists>s. monitor_Loop E (map Inl errs) (m, sv, acts) = Some (mo_retried m + int (length errs) > 10, s)"
    if "has_instance E (mo_node m)" "mo_retried m \<le> 10" for m
    using that
  proof (induction errs arbitrary: m)
    case Nil
    then show ?case by simp
  next
    case (Cons e errs)
    show ?case
    proof (cases "mo_retried m = 10")
      case True
      with Cons.prems show ?thesis
        by (simp add: monitor_Update_def MAX_RETRY_def Let_def del: split_paired_Ex)
    next
      case False
      then have "\<exists>s. monitor_Loop E (map Inl errs) (m\<lparr>mo_retried := mo_retried m + 1\<rparr>, sv, acts) =
          Some (mo_retried m + 1 + int (length errs) > 10, s)"
        using Cons.IH [of "m\<lparr>mo_retried := mo_retried m + 1\<rparr>"] Cons.prems by simp
      with False Cons.prems show ?thesis
        by (simp add: monitor_Update_def MAX_RETRY_def Let_def algebra_simps)
    qed
  qed
  from this [OF assms(1)] assms(2) show ?thesis by simp
qed

text \<open>
  No offline download of a file with a size can complete: the owner of a download is never
  given, so at the first status that tells the size, with the download saved and its owner in the
  database, the monitor cancels the download, removes its folder, records an error and ends.
\<close>
theorem download_cancelled_when_size_known:
  assumes "has_instance E (mo_node m)" and "si_FollowedBy status = []"
    and "parse_length (si_TotalLength status) \<noteq> dl_TotalSize (mo_Task m)"
    and "ae_decode E (ae_encode E status) \<noteq> None"
    and "\<And>dl. \<exists>rows. ae_save E dl (sv_db sv) = Inr ((sv_db sv)\<lparr>download_rows := rows\<rparr>)"
    and "\<And>rows. \<exists>u. GetUserByID (orm (te_sys (ae_tasks E))) (preload (te_sys (ae_tasks E))) (dl_UserID (mo_Task m))
      ((sv_db sv)\<lparr>download_rows := rows\<rparr>) = Inr u"
  shows "\<exists>m' sv'. monitor_Update E (Inr status) (m, sv, acts) =
      Some (True, m', sv', acts @ [CancelDownload (si_Gid status), DeleteTempFile (si_Dir status)]) \<and>
    dl_Status (mo_Task m') = DownloadError"
proof -
  let ?m = "m\<lparr>mo_retried := 0\<rparr>"
  let ?t1 = "(mo_Task m)\<lparr>dl_GID := si_Gid status, dl_Status := GetStatus (si_Status status),
    dl_TotalSize := parse_length (si_TotalLength status), dl_DownloadedSize := parse_length (si_CompletedLength status),
    dl_Parent := si_Dir status, dl_Speed := (case parseInt (si_DownloadSpeed status) of None \<Rightarrow> 0 | Some n \<Rightarrow> n),
    dl_Attrs := ae_encode E status\<rparr>"
  obtain rows where rows: "ae_save E ?t1 (sv_db sv) = Inr ((sv_db sv)\<lparr>download_rows := rows\<rparr>)"
    using assms(5) by blast
  obtain m2 where m2: "save_download E (?m\<lparr>mo_Task := ?t1\<rparr>, sv, acts) =
      (None, m2, sv\<lparr>sv_db := (sv_db sv)\<lparr>download_rows := rows\<rparr>\<rparr>, acts)"
    using save_download_ok [of E "?m\<lparr>mo_Task := ?t1\<rparr>" sv] assms(4) rows by auto
  note keeps = save_download_keeps [OF m2]
  obtain u where u: "GetUserByID (orm (te_sys (ae_tasks E))) (preload (te_sys (ae_tasks E))) (dl_UserID (mo_Task m))
      ((sv_db sv)\<lparr>download_rows := rows\<rparr>) = Inr u" using assms(6) by blast
  have "ValidateFile E m2 (sv\<lparr>sv_db := (sv_db sv)\<lparr>download_rows := rows\<rparr>\<rparr>) = Some (AppError CodeNotFound)"
    using keeps u by (simp add: ValidateFile_def GetOwner_def Let_def)
  then have upd: "UpdateTaskInfo E status (?m, sv, acts) =
      (Some (AppError CodeNotFound), m2, sv\<lparr>sv_db := (sv_db sv)\<lparr>download_rows := rows\<rparr>\<rparr>, acts @ [CancelDownload (si_Gid status)])"
    using m2 keeps assms(3) by (simp add: UpdateTaskInfo_def Let_def)
  obtain m3 sv3 acts3 where err: "setErrorStatus E (te_message (ae_tasks E) (AppError CodeNotFound))
      (m2, sv\<lparr>sv_db := (sv_db sv)\<lparr>download_rows := rows\<rparr>\<rparr>, acts @ [CancelDownload (si_Gid status)]) = (m3, sv3, acts3)"
    by (rule prod_cases3)
  show ?thesis
    using assms(1,2) upd err setErrorStatus_keeps [OF err] keeps
    by (simp add: monitor_Update_def RemoveTempFolder_def Let_def)
qed

text \<open>Without the hooks a monitor never learns the files, and what it submits transfers nothing.\<close>

lemma submitted_transfer:
  assumes "monitor_Complete E (m, sv, acts) = (m', sv', acts')" and "SubmitJob j \<in> set acts'" and "SubmitJob j \<notin> set acts"
  shows "\<exists>p. j_Props j = TransferTask p \<and> tp_Src p = map fi_Path (selected_files (mo_StatusInfo m))"
proof -
  let ?sizes = "foldl (\<lambda>szs fi. szs(fi_Path fi \<mapsto> parse_length (fi_Length fi))) Map.empty (selected_files (mo_StatusInfo m))"
  let ?new = "NewTransferTask (ae_tasks E) (dl_UserID (mo_Task m)) (map fi_Path (selected_files (mo_StatusInfo m)))
    (dl_Dst (mo_Task m)) (dl_Parent (mo_Task m)) True (node_ID (np_store (ae_pool E) (mo_node m))) ?sizes (sv_db sv)"
  obtain res d' where new: "?new = (res, d')" by (cases ?new)
  show ?thesis
  proof (cases res)
    case (Inl e)
    let ?s = "setErrorStatus E (te_message (ae_tasks E) (ModelError (DbErr e))) (m, sv\<lparr>sv_db := d'\<rparr>, acts)"
    obtain m2 sv2 acts2 where err: "?s = (m2, sv2, acts2)" by (rule prod_cases3)
    have "acts' = acts @ [DeleteTempFile (dl_Parent (mo_Task m2))]"
      using assms(1) new Inl err setErrorStatus_keeps [OF err] by (simp add: monitor_Complete_def Let_def RemoveTempFolder_def)
    with assms(2,3) show ?thesis by simp
  next
    case (Inr j')
    let ?s = "save_download E (m\<lparr>mo_Task := (mo_Task m)\<lparr>dl_TaskID := t_ID (j_Task j')\<rparr>\<rparr>, sv\<lparr>sv_db := d'\<rparr>, acts @ [SubmitJob j'])"
    obtain e m2 sv2 acts2 where save: "?s = (e, m2, sv2, acts2)" by (rule prod_cases4)
    have "acts' = acts @ [SubmitJob j']"
      using assms(1) new Inr save save_download_keeps [OF save] by (simp add: monitor_Complete_def Let_def)
    with assms(2,3) have "j = j'" by simp
    moreover have "\<exists>p. j_Props j' = TransferTask p \<and> tp_Src p = map fi_Path (selected_files (mo_StatusInfo m))"
      using new Inr
      by (auto simp: NewTransferTask_def with_creator_def recorded_job_def new_job_def split: sum.splits prod.splits)
    ultimately show ?thesis by simp
  qed
qed

text \<open>The downloads of a user that are not done.\<close>

definition open_downloads :: "uint \<Rightarrow> db \<Rightarrow> nat" where
  "open_downloads uid d = length (filter (\<lambda>r. dl_UserID r = uid \<and> dl_Status r \<in> set unfinished) (download_rows d))"

text \<open>\<open>Save\<close> replaces the row with the key of the struct.\<close>

definition saves_row :: "(download_row \<Rightarrow> db \<Rightarrow> db_error + db) \<Rightarrow> bool" where
  "saves_row save \<longleftrightarrow> (\<forall>dl d d'. save dl d = Inr d' \<longrightarrow>
     download_rows d' = map (\<lambda>r. if dl_ID r = dl_ID dl then dl else r) (download_rows d))"

definition finds_answer :: "gorm \<Rightarrow> bool" where
  "finds_answer G \<longleftrightarrow> (\<forall>P d. \<exists>rs. Find (Downloads G) P d = Inr rs)"

lemma closed_replace:
  "\<not> P dl \<Longrightarrow> length (filter P (map (\<lambda>r. if f r then dl else r) rs)) \<le> length (filter P rs)"
  by (induction rs) auto

lemma setErrorStatus_open:
  assumes "saves_row (ae_save E)" and "setErrorStatus E err (m, sv, acts) = (m', sv', acts')"
  shows "open_downloads uid (sv_db sv') \<le> open_downloads uid (sv_db sv)"
proof -
  let ?dl = "(mo_Task m)\<lparr>dl_Status := DownloadError, dl_Error := err\<rparr>"
  have "dl_Status ?dl \<notin> set unfinished"
    by (simp add: unfinished_def DownloadError_def Downloading_def Paused_def Ready_def)
  then have replace: "open_downloads uid d' \<le> open_downloads uid d" if "ae_save E ?dl d = Inr d'" for d d'
    using assms(1) that closed_replace [of "\<lambda>r. dl_UserID r = uid \<and> dl_Status r \<in> set unfinished" ?dl
      "\<lambda>r. dl_ID r = dl_ID ?dl" "download_rows d"]
    by (simp add: open_downloads_def saves_row_def)
  have "sv' = sv \<or> (\<exists>d'. ae_save E ?dl (sv_db sv) = Inr d' \<and> sv' = sv\<lparr>sv_db := d'\<rparr>)"
    using assms(2)
    by (auto simp: setErrorStatus_def save_download_def Download_Save_def write1_def
        split: if_splits option.splits sum.splits prod.splits)
  then show ?thesis using replace by auto
qed

lemma NewMonitor_open:
  assumes "saves_row (ae_save E)" and "NewMonitor E dl si sv acts = Some (m, sv', acts')"
  shows "open_downloads uid (sv_db sv') \<le> open_downloads uid (sv_db sv)"
  using assms(2) setErrorStatus_open [OF assms(1)]
  by (auto simp: NewMonitor_def split: option.splits prod.splits if_splits)

lemma add_download_open:
  assumes "gorm_db (orm (te_sys (ae_tasks E)))" and "finds_answer (orm (te_sys (ae_tasks E)))" and "saves_row (ae_save E)"
    and "g_Aria2BatchSize (u_Group (User w)) > 0"
    and "add_download E create w url dst typ (sv, st) = Some (resp, sv', st')"
  shows "int (open_downloads (u_ID (User w)) (sv_db sv')) \<le>
    max (int (open_downloads (u_ID (User w)) (sv_db sv))) (g_Aria2BatchSize (u_Group (User w)))"
proof -
  let ?G = "orm (te_sys (ae_tasks E))" and ?uid = "u_ID (User w)" and ?limit = "g_Aria2BatchSize (u_Group (User w))"
  let ?n = "open_downloads ?uid"
  have len: "length (GetDownloadsByStatusAndUser ?G 0 ?uid unfinished (sv_db sv)) = ?n (sv_db sv)"
  proof -
    obtain rs where rs: "Find (Downloads ?G) (\<lambda>r. dl_UserID r = ?uid \<and> dl_Status r \<in> set unfinished) (sv_db sv) = Inr rs"
      using assms(2) unfolding finds_answer_def by blast
    then show ?thesis
      using gorm_table.find_length [OF gorm_db.downloads [OF assms(1)] rs]
      by (simp add: GetDownloadsByStatusAndUser_def open_downloads_def Let_def)
  qed
  have create: "?n d' \<le> Suc (?n d)" if c: "Download_Create ?G dl d = (Inr i, d')" for dl i d d'
  proof -
    obtain r where "Create (Downloads ?G) dl d = Inr (r, d')"
      using c by (auto simp: Download_Create_def split: sum.splits prod.splits)
    from gorm_table.create_row [OF gorm_db.downloads [OF assms(1)] this]
    obtain t where "d' = d\<lparr>download_rows := download_rows d @ [t]\<rparr>" by auto
    then show ?thesis by (simp add: open_downloads_def)
  qed
  have failed: "d' = d" if "Download_Create ?G dl d = (Inl e, d')" for dl e d d'
    using that by (auto simp: Download_Create_def split: sum.splits prod.splits)
  consider "sv' = sv" | dl i d' m acts where "int (?n (sv_db sv)) + 1 \<le> ?limit" "Download_Create ?G dl (sv_db sv) = (Inr i, d')"
      "NewMonitor E (dl\<lparr>dl_ID := i\<rparr>) zero_status (sv\<lparr>sv_db := d'\<rparr>) (a2_actions (st\<lparr>a2_lb := snd (BalanceNodeByFeature ''aria2'' (a2_lb st) (ae_pool E))\<rparr>)) = Some (m, sv', acts)"
    using assms(5) assms(4) len failed
    by (auto simp: add_download_def Let_def split: if_splits sum.splits prod.splits)
  then show ?thesis
  proof cases
    case 1
    then show ?thesis by simp
  next
    case 2
    then have "?n (sv_db sv') \<le> ?n d'" using NewMonitor_open [OF assms(3) 2(3)] by simp
    with create [OF 2(2)] 2(1) show ?thesis by simp
  qed
qed

lemma add_urls_inv:
  assumes "\<And>u s r s'. add u s = Some (r, s') \<Longrightarrow> I s \<Longrightarrow> I s'" and "add_urls add us s = Some (rs, s')" and "I s"
  shows "I s'"
  using assms(2,3)
proof (induction us arbitrary: s rs)
  case Nil
  then show ?case by simp
next
  case (Cons u us)
  then obtain r s1 rs1 where "add u s = Some (r, s1)" "add_urls add us s1 = Some (rs1, s')"
    by (auto split: bind_splits)
  with Cons.IH assms(1) Cons.prems(2) show ?case by blast
qed

text \<open>
  A user's group bounds the offline downloads: however many addresses are added at once, a
  request never leaves the user with more unfinished downloads than there were before it or than
  the limit of the group, whichever is larger.
\<close>
theorem batch_within_limit:
  assumes "gorm_db (orm (te_sys (ae_tasks E)))" and "finds_answer (orm (te_sys (ae_tasks E)))" and "saves_row (ae_save E)"
    and "g_Aria2BatchSize (u_Group user) > 0"
    and "BatchAddURL E create (Some user) urls dst typ (sv, st) = Some (resp, sv', st')"
  shows "int (open_downloads (u_ID user) (sv_db sv')) \<le>
    max (int (open_downloads (u_ID user) (sv_db sv))) (g_Aria2BatchSize (u_Group user))"
proof -
  let ?S = "te_sys (ae_tasks E)" and ?limit = "g_Aria2BatchSize (u_Group user)"
  let ?bound = "max (int (open_downloads (u_ID user) (sv_db sv))) ?limit"
  obtain e w where fs: "NewFileSystemFromContext ?S (Some user) (sv_db sv) (sv_cache sv) (sv_disk sv) = (e, w)"
    by (cases "NewFileSystemFromContext ?S (Some user) (sv_db sv) (sv_cache sv) (sv_disk sv)")
  then have user: "User w = user"
    by (auto simp: NewFileSystemFromContext_def NewFileSystem_def DispatchHandler_def getEmptyFS_def Let_def split: if_splits)
  consider "sv' = sv" | rs where "add_urls (\<lambda>u. AddURL E create (Some user) (Some w) u dst typ) urls (sv, st) = Some (rs, sv', st')"
    using assms(5) fs by (auto simp: BatchAddURL_def Let_def split: option.splits if_splits)
  then show ?thesis
  proof cases
    case 1
    then show ?thesis by simp
  next
    case 2
    have "(\<lambda>(sv, st). int (open_downloads (u_ID user) (sv_db sv)) \<le> ?bound) (sv', st')"
    proof (rule add_urls_inv [OF _ 2])
      fix u s r s'
      assume "AddURL E create (Some user) (Some w) u dst typ s = Some (r, s')"
        and le: "(\<lambda>(sv, st). int (open_downloads (u_ID user) (sv_db sv)) \<le> ?bound) s"
      moreover obtain sv1 st1 sv2 st2 where s: "s = (sv1, st1)" "s' = (sv2, st2)" by (cases s, cases s')
      ultimately have add: "add_download E create w u dst typ (sv1, st1) = Some (r, sv2, st2)" by (simp add: AddURL_def)
      show "(\<lambda>(sv, st). int (open_downloads (u_ID user) (sv_db sv)) \<le> ?bound) s'"
        using add_download_open [OF assms(1-3) _ add] assms(4) le by (simp add: user s)
    qed simp
    then show ?thesis by simp
  qed
qed

section \<open>Instances\<close>

definition sample_aria2 :: "unit aria2_env" where
  "sample_aria2 = \<lparr>ae_tasks = sample_env, ae_pool = sample_pool,
     ae_save = (\<lambda>dl d. Inr (d\<lparr>download_rows := map (\<lambda>r. if dl_ID r = dl_ID dl then dl else r) (download_rows d)\<rparr>)),
     ae_hooks = True, ae_encode = (\<lambda>s. ''json''), ae_decode = (\<lambda>s. Some zero_status), ae_interval = (\<lambda>a. 10)\<rparr>"

definition sample_monitor :: monitor where
  "sample_monitor = \<lparr>mo_Task = zero_download\<lparr>dl_ID := 1, dl_UserID := 7\<rparr>, mo_StatusInfo = zero_status, mo_node = 0, mo_retried = 0\<rparr>"

lemma sample_instance: "has_instance sample_aria2 (mo_node sample_monitor)"
  by (simp add: has_instance_def sample_aria2_def sample_pool_def sample_obj_def)

lemma monitor_gives_up_witness:
  "\<exists>s. monitor_Loop sample_aria2 (map Inl (replicate 11 ''timeout'')) (sample_monitor, sample_server, []) = Some (True, s)"
  using monitor_gives_up [OF sample_instance, of "replicate 11 ''timeout''" sample_server "[]"]
  by (simp add: sample_monitor_def)

lemma download_cancelled_when_size_known_witness:
  "\<exists>m' sv'. monitor_Update sample_aria2 (Inr (zero_status\<lparr>si_Gid := ''g'', si_Status := ''active'', si_TotalLength := ''5''\<rparr>))
      (sample_monitor, sample_server, []) =
      Some (True, m', sv', [] @ [CancelDownload (si_Gid (zero_status\<lparr>si_Gid := ''g'', si_Status := ''active'', si_TotalLength := ''5''\<rparr>)),
        DeleteTempFile (si_Dir (zero_status\<lparr>si_Gid := ''g'', si_Status := ''active'', si_TotalLength := ''5''\<rparr>))]) \<and>
    dl_Status (mo_Task m') = DownloadError"
proof (rule download_cancelled_when_size_known [OF sample_instance])
  let ?st = "zero_status\<lparr>si_Gid := ''g'', si_Status := ''active'', si_TotalLength := ''5''\<rparr>"
  show "parse_length (si_TotalLength ?st) \<noteq> dl_TotalSize (mo_Task sample_monitor)"
    by (simp add: sample_monitor_def zero_download_def zero_status_def parse_length_def parseUint_def digitVal_def)
  show "\<exists>rows. ae_save sample_aria2 dl (sv_db sample_server) = Inr ((sv_db sample_server)\<lparr>download_rows := rows\<rparr>)" for dl
    by (auto simp: sample_aria2_def)
  show "\<exists>u. GetUserByID (orm (te_sys (ae_tasks sample_aria2))) (preload (te_sys (ae_tasks sample_aria2)))
      (dl_UserID (mo_Task sample_monitor)) ((sv_db sample_server)\<lparr>download_rows := rows\<rparr>) = Inr u" for rows
    by (simp add: GetUserByID_def sample_aria2_def sample_env_def sample_server_def sample_monitor_def docs_sys_def
        acc_simps sound_simps)
qed (simp_all add: sample_aria2_def zero_status_def)

text \<open>A user whose group allows two downloads adds two.\<close>

definition sample_user :: user_row where
  "sample_user = zero_user\<lparr>u_ID := 7, u_Policy := zero_policy\<lparr>p_ID := 1, p_Type := ''local''\<rparr>,
     u_Group := zero_group\<lparr>g_Aria2 := True, g_Aria2BatchSize := 2\<rparr>\<rparr>"

definition sample_a2 :: aria2_state where
  "sample_a2 = \<lparr>a2_lb = NewBalancer ''RoundRobin'', a2_monitors = [], a2_actions = []\<rparr>"

lemma sample_laws:
  "gorm_db (orm (te_sys (ae_tasks sample_aria2)))" "finds_answer (orm (te_sys (ae_tasks sample_aria2)))"
  "saves_row (ae_save sample_aria2)"
  by (auto simp: sample_aria2_def sample_env_def docs_sys_def sound_gorm_laws finds_answer_def saves_row_def sound_simps)

lemma sample_batch:
  "\<exists>resp sv' st'. BatchAddURL sample_aria2 (\<lambda>a dl. Inr ''g'') (Some sample_user) [''u1'', ''u2''] ''/'' 0 (sample_server, sample_a2) =
     Some (resp, sv', st') \<and> download_rows (sv_db sv') \<noteq> []"
  by (simp add: BatchAddURL_def AddURL_def add_download_def NewFileSystemFromContext_def NewFileSystem_def DispatchHandler_def
      getEmptyFS_def sample_aria2_def sample_env_def sample_user_def sample_server_def sample_a2_def NewBalancer_def
      IsPathExist_def SplitPath_def Root_def GetDownloadsByStatusAndUser_def BalanceNodeByFeature_def NextPeer_def NextIndex_def
      has_instance_def Download_Create_def NewMonitor_def pool_GetNodeByID_def GetNodeID_def sample_pool_def sample_obj_def
      sample_node_def node_ID_def docs_sys_def acc_simps sound_simps zero_group_def zero_download_def unfinished_def Let_def)

lemma batch_within_limit_witness:
  "\<exists>resp sv' st'. BatchAddURL sample_aria2 (\<lambda>a dl. Inr ''g'') (Some sample_user) [''u1'', ''u2''] ''/'' 0 (sample_server, sample_a2) =
     Some (resp, sv', st') \<and> int (open_downloads 7 (sv_db sv')) \<le> 2"
proof -
  obtain resp sv' st' where run: "BatchAddURL sample_aria2 (\<lambda>a dl. Inr ''g'') (Some sample_user) [''u1'', ''u2''] ''/'' 0
      (sample_server, sample_a2) = Some (resp, sv', st')" using sample_batch by blast
  have "int (open_downloads (u_ID sample_user) (sv_db sv')) \<le>
      max (int (open_downloads (u_ID sample_user) (sv_db sample_server))) (g_Aria2BatchSize (u_Group sample_user))"
    by (rule batch_within_limit [OF sample_laws _ run]) (simp add: sample_user_def)
  then show ?thesis using run
    by (auto simp: sample_user_def open_downloads_def sample_server_def acc_simps)
qed

end
