(* ===== verification/ChunkUpload.thy ===== *)
theory ChunkUpload
  imports GoLib
begin

text \<open>
  \<open>pkg/filesystem/chunk\<close>: the constant back-off of \<open>backoff/backoff.go\<close> and the chunk
  group of \<open>chunk.go\<close>, which cuts an upload into chunks and processes each chunk with
  retries, from the seekable source or from a temporary copy of the chunk.

  The source is its bytes with a read position. The processor is the parameter \<open>proc\<close>: on
  its \<open>n\<close>-th call, offered a reader with some bytes, it returns an error or not and says how
  many bytes it read. \<open>seekF\<close> and \<open>tseekF\<close> say when seeking the source or the temporary
  file fails. Creating the temporary file succeeds.
\<close>

section \<open>backoff.go\<close>

record backoff =
  Max :: int
  tried :: int

definition backoff_Next :: "backoff \<Rightarrow> bool \<times> backoff" where
  "backoff_Next c =
     (let c' = c\<lparr>tried := tried c + 1\<rparr> in (\<not> tried c' > Max c', c'))"

definition backoff_Reset :: "backoff \<Rightarrow> backoff" where
  "backoff_Reset c = c\<lparr>tried := 0\<rparr>"

section \<open>chunk.go\<close>

datatype perr = Canceled | ProcErr nat | SeekErr | TempSeekErr

record source =
  content :: gostring
  pos :: nat
  seekable :: bool

record group =
  src :: source
  fileSize :: u64
  chunkSize :: u64
  backoff :: backoff
  enableRetryBuffer :: bool
  currentIndex :: int
  chunkNum :: u64
  bufferTemp :: "gostring option"

definition NewGroup :: "source \<Rightarrow> u64 \<Rightarrow> u64 \<Rightarrow> backoff \<Rightarrow> bool \<Rightarrow> group" where
  "NewGroup src0 fsize chunkSize0 bo useBuffer =
     (let cs = (if chunkSize0 = 0 then fsize else chunkSize0);
          num = (if fsize = 0 then 1
                 else if fsize mod cs \<noteq> 0 then fsize div cs + 1 else fsize div cs)
      in \<lparr>src = src0, fileSize = fsize, chunkSize = cs, backoff = bo,
          enableRetryBuffer = useBuffer, currentIndex = -1, chunkNum = num, bufferTemp = None\<rparr>)"

definition Index :: "group \<Rightarrow> int" where
  "Index c = currentIndex c"

definition Start :: "group \<Rightarrow> int" where
  "Start c = sint (word_of_int (Index c) * chunkSize c)"

definition Total :: "group \<Rightarrow> int" where
  "Total c = sint (fileSize c)"

definition Num :: "group \<Rightarrow> int" where
  "Num c = sint (chunkNum c)"

definition IsLast :: "group \<Rightarrow> bool" where
  "IsLast c \<longleftrightarrow> Index c = sint (chunkNum c - 1)"

definition Length :: "group \<Rightarrow> int" where
  "Length c =
     sint (if Index c = sint (chunkNum c - 1)
           then fileSize c - chunkSize c * (chunkNum c - 1) else chunkSize c)"

definition RangeHeader :: "group \<Rightarrow> gostring" where
  "RangeHeader c =
     ''bytes '' @ formatInt (Start c) @ ''-'' @ formatInt (Start c + Length c - 1) @ ''/'' @
     formatInt (Total c)"

definition Next :: "group \<Rightarrow> bool \<times> group" where
  "Next c =
     (let c' = c\<lparr>currentIndex := currentIndex c + 1, backoff := backoff_Reset (backoff c)\<rparr>
      in (currentIndex c' < sint (chunkNum c'), c'))"

definition TempAvailable :: "group \<Rightarrow> bool" where
  "TempAvailable c \<longleftrightarrow>
     (case bufferTemp c of None \<Rightarrow> False | Some t \<Rightarrow> int (length t) = Length c)"

text \<open>The deferred clean-up of \<open>Process\<close>.\<close>

definition closeTemp :: "group \<Rightarrow> group" where
  "closeTemp c = c\<lparr>bufferTemp := None\<rparr>"

text \<open>
  What one run of the body of \<open>Process\<close> offers to the processor (the reader's bytes), whether
  it reads them from the temporary file, and the group after the processor read \<open>used\<close> bytes.
\<close>

definition teed :: "group \<Rightarrow> bool" where
  "teed c \<longleftrightarrow> enableRetryBuffer c \<and> bufferTemp c = None \<and> \<not> seekable (src c)"

definition openTemp :: "group \<Rightarrow> group" where
  "openTemp c = (if teed c then c\<lparr>bufferTemp := Some []\<rparr> else c)"

definition offered :: "group \<Rightarrow> gostring" where
  "offered c =
     (if TempAvailable c then (case bufferTemp c of None \<Rightarrow> [] | Some t \<Rightarrow> t)
      else take (nat (sint (chunkSize c))) (drop (pos (src c)) (content (src c))))"

definition consume :: "bool \<Rightarrow> nat \<Rightarrow> group \<Rightarrow> group" where
  "consume tee used c =
     (if TempAvailable c then c
      else c\<lparr>src := (src c)\<lparr>pos := pos (src c) + used\<rparr>,
             bufferTemp := (if tee then map_option (\<lambda>t. t @ take used (offered c)) (bufferTemp c)
                            else bufferTemp c)\<rparr>)"

lemma consume_frame [simp]:
  "backoff (consume b u c) = backoff c"
  "seekable (src (consume b u c)) = seekable (src c)"
  "content (src (consume b u c)) = content (src c)"
  "chunkSize (consume b u c) = chunkSize c"
  "fileSize (consume b u c) = fileSize c"
  "chunkNum (consume b u c) = chunkNum c"
  "currentIndex (consume b u c) = currentIndex c"
  "enableRetryBuffer (consume b u c) = enableRetryBuffer c"
  by (simp_all add: consume_def)

lemma openTemp_frame [simp]:
  "backoff (openTemp c) = backoff c"
  "src (openTemp c) = src c"
  "chunkSize (openTemp c) = chunkSize c"
  "fileSize (openTemp c) = fileSize c"
  "chunkNum (openTemp c) = chunkNum c"
  "currentIndex (openTemp c) = currentIndex c"
  "enableRetryBuffer (openTemp c) = enableRetryBuffer c"
  by (simp_all add: openTemp_def)

text \<open>
  The result is the error, the list of what was offered to the processor, call by call, and
  the group.
\<close>

function Process ::
  "(nat \<Rightarrow> gostring \<Rightarrow> perr option \<times> nat) \<Rightarrow> (int \<Rightarrow> bool) \<Rightarrow> bool \<Rightarrow> nat \<Rightarrow> group \<Rightarrow>
   perr option \<times> gostring list \<times> group" where
  "Process proc seekF tseekF n c =
     (let c1 = openTemp c in
      if TempAvailable c1 \<and> tseekF then (Some TempSeekErr, [], closeTemp c1)
      else
        let (err, read) = proc n (offered c1);
            c2 = consume (teed c) (min read (length (offered c1))) c1;
            (ok, bo) = backoff_Next (backoff c2)
        in case err of
             None \<Rightarrow> (None, [offered c1], closeTemp c2)
           | Some e \<Rightarrow>
               (if e \<noteq> Canceled \<and> (seekable (src c2) \<or> TempAvailable c2) then
                  if ok then
                    let c3 = c2\<lparr>backoff := bo\<rparr> in
                    if seekable (src c3) then
                      if seekF (Start c3) then (Some SeekErr, [offered c1], closeTemp c3)
                      else
                        let (r, offers, c4) =
                          Process proc seekF tseekF (Suc n)
                            (c3\<lparr>src := (src c3)\<lparr>pos := nat (Start c3)\<rparr>\<rparr>)
                        in (r, offered c1 # offers, c4)
                    else
                      let (r, offers, c4) = Process proc seekF tseekF (Suc n) c3
                      in (r, offered c1 # offers, c4)
                  else (Some e, [offered c1], closeTemp (c2\<lparr>backoff := bo\<rparr>))
                else (Some e, [offered c1], closeTemp c2)))"
  by pat_completeness auto

termination
  by (relation "measure (\<lambda>(proc, seekF, tseekF, n, c). nat (Max (backoff c) - tried (backoff c)))")
     (auto simp: backoff_Next_def Let_def)

declare Process.simps [simp del]

section \<open>The chunks partition the file\<close>

text \<open>The group of a file of \<open>S\<close> bytes in chunks of \<open>K\<close>, at chunk \<open>i\<close>.\<close>

definition at_chunk :: "group \<Rightarrow> nat \<Rightarrow> group" where
  "at_chunk c i = c\<lparr>currentIndex := int i\<rparr>"

definition chunk_count :: "nat \<Rightarrow> nat \<Rightarrow> nat" where
  "chunk_count S K =
     (if S = 0 then 1 else if S mod K = 0 then S div K else S div K + 1)"

lemma chunk_count_bounds:
  assumes "0 < S" and "0 < K"
  shows "(chunk_count S K - 1) * K < S" and "S \<le> chunk_count S K * K" and "0 < chunk_count S K"
proof -
  have S: "S = S div K * K + S mod K" by simp
  have m: "S mod K < K" using assms(2) by simp
  show "(chunk_count S K - 1) * K < S"
  proof (cases "S mod K = 0")
    case True
    then obtain q where q: "S = q * K" by (auto simp: dvd_def mod_eq_0_iff_dvd mult.commute)
    with assms show ?thesis by (simp add: chunk_count_def)
  next
    case False
    with S have "S div K * K < S" by linarith
    with False assms show ?thesis by (auto simp: chunk_count_def)
  qed
  show "S \<le> chunk_count S K * K"
  proof (cases "S mod K = 0")
    case True
    with S show ?thesis using assms(1) by (simp add: chunk_count_def)
  next
    case False
    have "S \<le> S div K * K + K" using S m by linarith
    with False show ?thesis using assms(1) by (simp add: chunk_count_def)
  qed
  show "0 < chunk_count S K"
    using S assms(1) by (auto simp: chunk_count_def)
qed

text \<open>The chunk size the group works with.\<close>

definition eff_chunk :: "nat \<Rightarrow> nat \<Rightarrow> nat" where
  "eff_chunk S K = (if K = 0 then S else K)"

lemma NewGroup_fields:
  "chunkSize (NewGroup s fs cs bo ub) = (if cs = 0 then fs else cs)"
  "fileSize (NewGroup s fs cs bo ub) = fs"
  "src (NewGroup s fs cs bo ub) = s"
  "backoff (NewGroup s fs cs bo ub) = bo"
  "bufferTemp (NewGroup s fs cs bo ub) = None"
  "currentIndex (NewGroup s fs cs bo ub) = - 1"
  "enableRetryBuffer (NewGroup s fs cs bo ub) = ub"
  by (simp_all add: NewGroup_def Let_def)

lemma unat_chunkSize:
  "unat (chunkSize (NewGroup s fs cs bo ub)) = eff_chunk (unat fs) (unat cs)"
  by (simp add: NewGroup_fields eff_chunk_def unat_eq_zero)

lemma unat_chunkNum:
  assumes "unat fs < 2 ^ 63"
  shows "unat (chunkNum (NewGroup s fs cs bo ub)) = chunk_count (unat fs) (eff_chunk (unat fs) (unat cs))"
proof (cases "fs = 0")
  case True
  then show ?thesis by (simp add: NewGroup_def chunk_count_def Let_def)
next
  case False
  let ?cs = "if cs = 0 then fs else cs"
  have "unat (fs div ?cs) < 2 ^ 63"
    using assms div_le_dividend [of "unat fs" "unat ?cs"]
    by (simp only: unat_div_distrib)
  then have "unat (fs div ?cs + 1) = unat (fs div ?cs) + 1"
    using unat_add_fits [of "fs div ?cs" 1] by simp
  moreover have "fs mod ?cs = 0 \<longleftrightarrow> unat fs mod unat ?cs = 0"
    by (simp add: unat_mod_distrib [symmetric] unat_eq_zero del: unat_mod_distrib)
  ultimately show ?thesis
    using False by (simp add: NewGroup_def chunk_count_def eff_chunk_def Let_def unat_div_distrib unat_eq_zero)
qed

text \<open>Where each chunk starts and how long it is.\<close>

lemma chunk_bounds:
  fixes s fs cs bo ub i
  defines "S \<equiv> unat fs" and "K \<equiv> eff_chunk (unat fs) (unat cs)"
    and "c \<equiv> at_chunk (NewGroup s fs cs bo ub) i"
  assumes small: "unat fs < 2 ^ 63" "unat cs < 2 ^ 63" and i: "i < chunk_count S K"
  shows "Start c = int (i * K)" and "Length c = int (min K (S - i * K))" and "i * K \<le> S"
proof -
  let ?N = "chunk_count S K" and ?w = "chunkSize c" and ?n = "chunkNum c"
  have K: "K < 2 ^ 63" using small by (simp add: K_def eff_chunk_def)
  have w: "unat ?w = K" by (simp add: c_def at_chunk_def unat_chunkSize K_def)
  have n: "unat ?n = ?N"
    using unat_chunkNum [OF small(1)] by (simp add: c_def at_chunk_def S_def K_def)
  have fsz: "fileSize c = fs" by (simp add: c_def at_chunk_def NewGroup_fields)
  have idx: "Index c = int i" by (simp add: c_def at_chunk_def Index_def)
  have Kpos: "0 < K" if "0 < S"
    using that by (simp add: S_def K_def eff_chunk_def)
  have N0: "0 < ?N"
    using chunk_count_bounds(3) [of S K] Kpos by (cases "S = 0") (simp_all add: chunk_count_def)
  have last: "(?N - 1) * K \<le> S"
  proof (cases "S = 0")
    case True
    then show ?thesis by (simp add: chunk_count_def)
  next
    case False
    then show ?thesis using chunk_count_bounds(1) [of S K] Kpos by simp
  qed
  have iK: "i * K \<le> (?N - 1) * K" using i by (intro mult_le_mono1) simp
  show le: "i * K \<le> S" by (rule order_trans [OF iK last])
  have NS: "?N \<le> S + 1"
    by (simp add: chunk_count_def le_SucI)
  have wi: "unat (of_nat i * ?w) = i * K"
  proof -
    have "unat (of_nat i :: u64) = i"
      by (rule unat_of_nat_small) (use i NS small(1) in \<open>simp add: S_def\<close>)
    then show ?thesis
      using unat_mult_fits [of "of_nat i" ?w] le small(1) w by (simp add: S_def)
  qed
  then show "Start c = int (i * K)"
    using sint_unat_small [of "of_nat i * ?w"] le small(1)
    by (simp add: Start_def idx S_def)
  have n1: "unat (?n - 1) = ?N - 1"
    using unat_sub_le [of 1 ?n] n N0 by (simp add: u64_le_iff)
  have sn1: "sint (?n - 1) = int (?N - 1)"
    using sint_unat_small [of "?n - 1"] n1 NS small(1) by (simp add: S_def)
  show "Length c = int (min K (S - i * K))"
  proof (cases "i = ?N - 1")
    case True
    have prod: "unat (?w * (?n - 1)) = i * K"
      using unat_mult_fits [of ?w "?n - 1"] w n1 True le small(1) by (simp add: S_def mult.commute)
    have "unat (fs - ?w * (?n - 1)) = S - i * K"
      using unat_sub_le [of "?w * (?n - 1)" fs] prod le by (simp add: u64_le_iff S_def)
    then have "Length c = int (S - i * K)"
      using sint_unat_small [of "fs - ?w * (?n - 1)"] True small(1) sn1
      by (simp add: Length_def idx fsz S_def)
    moreover have "S - i * K \<le> K"
    proof (cases "S = 0")
      case False
      then have "S \<le> ?N * K"
        using chunk_count_bounds(2) [of S K] Kpos by simp
      then show ?thesis using True N0 by (cases ?N) auto
    qed simp
    ultimately show ?thesis by simp
  next
    case False
    then have "int i \<noteq> sint (?n - 1)" unfolding sn1 by simp
    then have "Length c = int K"
      using sint_unat_small [of ?w] w K by (simp add: Length_def idx)
    moreover have "(i + 1) * K \<le> S"
      by (rule order_trans [OF mult_le_mono1 last]) (use False i in simp)
    ultimately show ?thesis by simp
  qed
qed

text \<open>The chunks of the bytes, one after the other, are the bytes.\<close>

lemma concat_chunks:
  "concat (map (\<lambda>i. take K (drop (i * K) xs)) [0..<n]) = take (n * K) xs"
proof (induction n)
  case 0
  then show ?case by simp
next
  case (Suc n)
  then show ?case by (simp add: take_add [symmetric] add.commute)
qed

section \<open>Retries\<close>

text \<open>
  A chunk that is ready to be processed: the source stands at the chunk's start, or the
  chunk's bytes are in the temporary file.
\<close>

definition chunk_bytes :: "group \<Rightarrow> gostring" where
  "chunk_bytes c = take (nat (sint (chunkSize c))) (drop (nat (Start c)) (content (src c)))"

definition ready :: "group \<Rightarrow> bool" where
  "ready c \<longleftrightarrow>
     int (length (chunk_bytes c)) = Length c \<and>
     (if seekable (src c) then bufferTemp c = None \<and> pos (src c) = nat (Start c)
      else bufferTemp c = Some (chunk_bytes c) \<or> bufferTemp c = None \<and> pos (src c) = nat (Start c))"

lemma chunk_frame:
  assumes "chunkSize c' = chunkSize c" "currentIndex c' = currentIndex c" "fileSize c' = fileSize c"
    "chunkNum c' = chunkNum c" "content (src c') = content (src c)"
  shows "Start c' = Start c" "Length c' = Length c" "chunk_bytes c' = chunk_bytes c"
  using assms by (simp_all add: Start_def Length_def Index_def chunk_bytes_def)

lemma openTemp_bytes [simp]:
  "Start (openTemp c) = Start c" "Length (openTemp c) = Length c"
  "chunk_bytes (openTemp c) = chunk_bytes c"
  by (rule chunk_frame; simp)+

lemma consume_bytes [simp]:
  "Start (consume b u c) = Start c" "Length (consume b u c) = Length c"
  "chunk_bytes (consume b u c) = chunk_bytes c"
  by (rule chunk_frame; simp)+

lemma offered_ready: "ready c \<Longrightarrow> offered (openTemp c) = chunk_bytes c"
  by (auto simp: ready_def offered_def TempAvailable_def openTemp_def teed_def chunk_bytes_def
      Length_def Start_def Index_def split: if_splits option.splits)

text \<open>After a failed attempt that may be retried, the chunk is ready again.\<close>

lemma retry_ready:
  assumes r: "ready c" and u: "u \<le> length (offered (openTemp c))"
    and again: "\<not> seekable (src c)" "TempAvailable (consume (teed c) u (openTemp c))"
  shows "ready ((consume (teed c) u (openTemp c))\<lparr>backoff := bo\<rparr>)"
proof -
  let ?c = "consume (teed c) u (openTemp c)"
  have bytes: "chunk_bytes (?c\<lparr>backoff := bo\<rparr>) = chunk_bytes c"
    and len: "Length (?c\<lparr>backoff := bo\<rparr>) = Length c"
    using chunk_frame [of "?c\<lparr>backoff := bo\<rparr>" ?c] by simp_all
  obtain t where t: "bufferTemp ?c = Some t" "int (length t) = Length c"
    using again(2) by (auto simp: TempAvailable_def split: option.splits)
  have "t = chunk_bytes c"
  proof (cases "TempAvailable (openTemp c)")
    case True
    then have "?c = openTemp c" by (simp add: consume_def)
    with True t have "offered (openTemp c) = t" by (simp add: offered_def)
    with offered_ready [OF r] show ?thesis by simp
  next
    case False
    have "bufferTemp c = None"
      using r again(1) False by (auto simp: ready_def TempAvailable_def openTemp_def teed_def)
    then have "teed c" "bufferTemp (openTemp c) = Some []"
      using t False by (auto simp: consume_def openTemp_def teed_def split: if_splits)
    then have "t = take u (chunk_bytes c)"
      using t(1) False by (simp add: consume_def offered_ready [OF r])
    moreover have "length t = length (chunk_bytes c)"
      using t(2) r by (simp add: ready_def)
    ultimately show ?thesis by simp
  qed
  then show ?thesis
    using r again(1) t bytes len by (simp add: ready_def)
qed

lemma reseek_ready:
  assumes "ready c" and "seekable (src c)"
  shows "ready ((consume (teed c) u (openTemp c))
    \<lparr>backoff := bo, src := (src (consume (teed c) u (openTemp c)))\<lparr>pos := nat (Start c)\<rparr>\<rparr>)"
proof -
  let ?c = "consume (teed c) u (openTemp c)"
  let ?d = "?c\<lparr>backoff := bo, src := (src ?c)\<lparr>pos := nat (Start c)\<rparr>\<rparr>"
  have eqs: "Start ?d = Start c" "Length ?d = Length c" "chunk_bytes ?d = chunk_bytes c"
    using chunk_frame [of ?d ?c] by simp_all
  have "bufferTemp ?d = None"
    using assms by (simp add: ready_def consume_def openTemp_def teed_def)
  then show ?thesis
    using assms eqs by (simp add: ready_def)
qed

definition budget :: "group \<Rightarrow> nat" where
  "budget c = nat (Max (backoff c) - tried (backoff c))"

lemma backoff_Next_budget:
  "backoff_Next b = (True, b') \<Longrightarrow> nat (Max b' - tried b') < nat (Max b - tried b)"
  by (auto simp: backoff_Next_def Let_def)

text \<open>
  Every call of the processor is offered exactly the bytes of the chunk, however often it is
  retried, and there is at most one call more than the back-off allows retries.
\<close>

lemma Process_offers_budget:
  "ready c \<Longrightarrow> Process proc seekF tseekF n c = (r, offers, c') \<Longrightarrow>
   set offers \<subseteq> {chunk_bytes c} \<and> length offers \<le> Suc (budget c)"
proof (induction "budget c" arbitrary: n c r offers c' rule: less_induct)
  case less
  define c1 where "c1 = openTemp c"
  obtain err rd where p: "proc n (offered c1) = (err, rd)" by fastforce
  define c2 where "c2 = consume (teed c) (min rd (length (offered c1))) c1"
  obtain ok bo where b: "backoff_Next (backoff c2) = (ok, bo)" by fastforce
  have off: "offered c1 = chunk_bytes c" using offered_ready [OF less.prems(1)] by (simp add: c1_def)
  have c2_same: "seekable (src c2) = seekable (src c)" "backoff c2 = backoff c"
    "Start c2 = Start c" "chunk_bytes c2 = chunk_bytes c"
    by (simp_all add: c2_def c1_def)
  note eq = Process.simps [of proc seekF tseekF n c, folded c1_def, unfolded Let_def p prod.case,
      folded c2_def, unfolded b prod.case]
  have retry: "set offers2 \<subseteq> {chunk_bytes c} \<and> length (chunk_bytes c # offers2) \<le> Suc (budget c)"
    if "ready d" "chunk_bytes d = chunk_bytes c" "backoff d = bo" ok
      "Process proc seekF tseekF (Suc n) d = (r2, offers2, d')" for d r2 offers2 d'
  proof -
    have "budget d < budget c"
      using backoff_Next_budget [of "backoff c" bo] b that(3,4) c2_same(2) by (simp add: budget_def)
    with less.hyps [OF this that(1,5)] that(2) show ?thesis by simp
  qed
  show ?case
  proof (cases "seekable (src c)")
    case True
    let ?d = "c2\<lparr>backoff := bo, src := (src c2)\<lparr>pos := nat (Start c)\<rparr>\<rparr>"
    have rd: "ready ?d" unfolding c2_def c1_def by (rule reseek_ready [OF less.prems(1) True])
    have "Start (c2\<lparr>backoff := bo\<rparr>) = Start c" "chunk_bytes ?d = chunk_bytes c"
      using chunk_frame [of ?d c2] chunk_frame [of "c2\<lparr>backoff := bo\<rparr>" c2] c2_same by simp_all
    then show ?thesis
      using less.prems(2) retry [OF rd] True off
      by (auto simp: eq c2_same split: if_splits option.splits prod.splits)
  next
    case False
    have rd: "ready (c2\<lparr>backoff := bo\<rparr>)" if "TempAvailable c2"
      unfolding c2_def c1_def
      by (rule retry_ready [OF less.prems(1) _ False]) (use that in \<open>simp_all add: c1_def c2_def\<close>)
    have "chunk_bytes (c2\<lparr>backoff := bo\<rparr>) = chunk_bytes c"
      using chunk_frame [of "c2\<lparr>backoff := bo\<rparr>" c2] c2_same by simp
    then show ?thesis
      using less.prems(2) retry [OF rd] False off
      by (auto simp: eq c2_same split: if_splits option.splits prod.splits)
  qed
qed

section \<open>Properties\<close>


definition five_bytes :: source where
  "five_bytes = \<lparr>content = ''abcde'', pos = 0, seekable = False\<rparr>"

definition three_tries :: backoff where
  "three_tries = \<lparr>Max = 3, tried = 0\<rparr>"


text \<open>
  However the processor fails, it is offered exactly the bytes of the chunk at every
  attempt, from the source after a seek or from the temporary file, and it is called at
  most once more than the back-off allows retries.
\<close>

theorem Process_offers_the_chunk:
  assumes "ready c" and "Process proc seekF tseekF n c = (r, offers, c')"
  shows "set offers \<subseteq> {chunk_bytes c} \<and> length offers \<le> Suc (budget c)"
  using Process_offers_budget [OF assms] by simp_all

theorem Process_offers_the_chunk_witness:
  "let c = at_chunk (NewGroup five_bytes 5 5 three_tries True) 0
   in set (fst (snd (Process (\<lambda>n b. (if n < 2 then Some (ProcErr 0) else None, length b))
        (\<lambda>_. False) False 0 c))) \<subseteq> {''abcde''}"
proof -
  let ?c = "at_chunk (NewGroup five_bytes 5 5 three_tries True) 0"
  have b: "chunk_bytes ?c = ''abcde''" "ready ?c"
    by (simp_all add: chunk_bytes_def ready_def at_chunk_def NewGroup_def five_bytes_def Start_def
        Length_def Index_def Let_def)
  obtain r offers c' where p: "Process (\<lambda>n b. (if n < 2 then Some (ProcErr 0) else None, length b))
      (\<lambda>_. False) False 0 ?c = (r, offers, c')"
    by (rule prod_cases3)
  show ?thesis
    using Process_offers_the_chunk [OF b(2) p] unfolding Let_def p b(1) by simp
qed

end
