(* ===== verification/FsObjects.thy ===== *)
theory FsObjects
  imports FsDelete
begin

text \<open>
  What copying, moving, renaming and listing in \<open>pkg/filesystem/manage.go\<close> promise, and what
  moving does not do.
\<close>

section \<open>Owners of the folders a path leads to\<close>

context gorm_db
begin

lemma walk_owner:
  "IsPathExist_loop G uid d cur ps = (True, Some f) \<Longrightarrow> ps \<noteq> [] \<or> cur \<noteq> None \<Longrightarrow>
   (\<And>c. cur = Some c \<Longrightarrow> d_OwnerID c = uid) \<Longrightarrow> d_OwnerID f = uid"
proof (induction ps arbitrary: cur)
  case Nil
  then show ?case by simp
next
  case (Cons p ps)
  have root: "d_OwnerID r = uid" if "Root G uid d = Inr r" for r
    using folders.first_row [OF that [unfolded Root_def]] by simp
  have child: "d_OwnerID c = d_OwnerID g" if "GetChild G g p d = Inr c" for c g
    using that by (auto simp: GetChild_def dest: folders.first_row split: sum.splits)
  show ?case
  proof (cases cur)
    case None
    then obtain r where "Root G uid d = Inr r" "IsPathExist_loop G uid d (Some r) ps = (True, Some f)"
      using Cons.prems(1) by (auto split: if_splits sum.splits)
    then show ?thesis using Cons.IH [of "Some r"] root by auto
  next
    case (Some g)
    then have g: "d_OwnerID g = uid" using Cons.prems(3) by simp
    from Some Cons.prems(1) consider "IsPathExist_loop G uid d (Some g) ps = (True, Some f)"
      | c where "GetChild G g p d = Inr c" "IsPathExist_loop G uid d (Some c) ps = (True, Some f)"
      by (auto split: if_splits sum.splits)
    then show ?thesis
    proof cases
      case 1
      then show ?thesis using Cons.IH [of "Some g"] g by auto
    next
      case 2
      then show ?thesis using Cons.IH [of "Some c"] child g by auto
    qed
  qed
qed

lemma IsPathExist_owner:
  assumes "IsPathExist G w p = (True, Some f)" and "FsRoot w = None"
  shows "d_OwnerID f = u_ID (User w)"
  using assms by (auto simp: IsPathExist_def Let_def intro: walk_owner split: if_splits)

section \<open>What copies add\<close>

lemma copy_folders_frame:
  "copy_folders G i dst fs new d = (res, d') \<Longrightarrow> files d' = files d \<and> users d' = users d"
proof (induction fs arbitrary: new d)
  case Nil
  then show ?case by simp
next
  case (Cons f fs)
  define par where "par = (if d_ID f = i then Inr (d_ID dst) else case d_ParentID f of
      None \<Rightarrow> Inl NilPanic | Some p \<Rightarrow> (case new p of Some n \<Rightarrow> Inr n | None \<Rightarrow> Inl ErrNoNewParent))"
  have step: "(case par of Inl e \<Rightarrow> (Inl e, d) | Inr newID \<Rightarrow>
      (case Create (Folders G) ((reset_folder f)\<lparr>d_ParentID := Some newID, d_OwnerID := d_OwnerID dst\<rparr>) d of
         Inl e \<Rightarrow> (Inl (DbErr e), d)
       | Inr (r, d1) \<Rightarrow> copy_folders G i dst fs (new(d_ID f \<mapsto> d_ID r)) d1)) = (res, d')"
    using Cons.prems by (simp add: par_def Let_def)
  show ?case
  proof (cases par)
    case (Inl e)
    then show ?thesis using step by simp
  next
    case (Inr q)
    let ?row = "(reset_folder f)\<lparr>d_ParentID := Some q, d_OwnerID := d_OwnerID dst\<rparr>"
    show ?thesis
    proof (cases "Create (Folders G) ?row d")
      case (Inl e)
      then show ?thesis using step Inr by simp
    next
      case ok: (Inr rd)
      obtain r d1 where rd: "rd = (r, d1)" by fastforce
      have "copy_folders G i dst fs (new(d_ID f \<mapsto> d_ID r)) d1 = (res, d')"
        using step Inr ok rd by simp
      from Cons.IH [OF this] folders.create_row [OF ok [unfolded rd]] show ?thesis by auto
    qed
  qed
qed

text \<open>New files of one owner, whose sizes add up to what the copy returns.\<close>

definition adds_files :: "uint \<Rightarrow> db \<Rightarrow> u64 \<Rightarrow> db \<Rightarrow> bool" where
  "adds_files owner d n d' \<longleftrightarrow>
     users d' = users d \<and>
     (\<exists>rows. files d' = files d @ rows \<and> (\<forall>r\<in>set rows. f_UserID r = owner) \<and> n = of_nat (sizes rows))"

lemma adds_files_refl: "adds_files owner d 0 d"
  by (auto simp: adds_files_def)

lemma adds_files_trans:
  assumes "adds_files owner d m d1" and "adds_files owner d1 n d2"
  shows "adds_files owner d (m + n) d2"
proof -
  from assms(1) obtain r1 where r1: "files d1 = files d @ r1" "\<forall>r\<in>set r1. f_UserID r = owner" "m = of_nat (sizes r1)"
    by (auto simp: adds_files_def)
  from assms(2) obtain r2 where r2: "files d2 = files d1 @ r2" "\<forall>r\<in>set r2. f_UserID r = owner" "n = of_nat (sizes r2)"
    by (auto simp: adds_files_def)
  have "users d2 = users d" using assms by (simp add: adds_files_def)
  moreover have "files d2 = files d @ (r1 @ r2)" "\<forall>r\<in>set (r1 @ r2). f_UserID r = owner"
    "m + n = of_nat (sizes (r1 @ r2))" using r1 r2 by auto
  ultimately show ?thesis unfolding adds_files_def by blast
qed

lemma copied_owner: "list_all2 (copied_file nf owner) fs rows \<Longrightarrow> \<forall>r\<in>set rows. f_UserID r = owner"
  by (induction rule: list_all2_induct) (auto simp: copied_file_def)

lemma copy_files_adds:
  assumes "copy_files G nf owner fs 0 d = ((n, None), d')"
  shows "adds_files owner d n d'"
proof -
  from copy_files_spec [OF assms] obtain k rows where
    "d' = set_files (files d @ rows) d" "list_all2 (copied_file nf owner) (take k (filter CanCopy fs)) rows"
    "n = 0 + of_nat (sizes rows)" by blast
  then show ?thesis using copied_owner by (auto simp: adds_files_def)
qed

lemma CopyFolderTo_adds:
  assumes "CopyFolderTo G folder i dst d = ((n, None), d')"
  shows "adds_files (d_OwnerID dst) d n d'"
proof -
  obtain subs e where g: "GetRecursiveChildFolder G [i] (d_OwnerID folder) True d = (subs, e)" by fastforce
  show ?thesis
  proof (cases e)
    case (Some x)
    then show ?thesis using assms g by (simp add: CopyFolderTo_def adds_files_refl)
  next
    case None
    from assms g None obtain new d1 os where
      cf: "copy_folders G i dst subs Map.empty d = (Inr new, d1)"
      and c: "copy_files G (\<lambda>j. case new j of None \<Rightarrow> 0 | Some k \<Rightarrow> k) (d_OwnerID dst) os 0 d1 = ((n, None), d')"
      by (auto simp: CopyFolderTo_def Let_def split: sum.splits prod.splits)
    from copy_files_adds [OF c] copy_folders_frame [OF cf] show ?thesis by (simp add: adds_files_def)
  qed
qed

lemma MoveOrCopyFileTo_adds:
  assumes "MoveOrCopyFileTo G folder ids dst True d = ((n, None), d')"
  shows "adds_files (d_OwnerID dst) d n d'"
  using assms copy_files_adds by (auto simp: MoveOrCopyFileTo_def split: sum.splits)

text \<open>The user's account after the files were added, when its update succeeds.\<close>

lemma adds_files_accounted:
  assumes "adds_files owner d n d1" and "accounted d" and "usage owner (files d1) < 2 ^ 64"
    and "n = 0 \<and> d2 = d1 \<or> ChangeStorage G owner ''+'' n d1 = Inr d2"
  shows "accounted d2"
proof -
  from assms(1) obtain rows where r: "files d1 = files d @ rows" "\<forall>r\<in>set rows. f_UserID r = owner"
    "n = of_nat (sizes rows)" and us: "users d1 = users d" by (auto simp: adds_files_def)
  have u: "usage uid rows = (if uid = owner then sizes rows else 0)" for uid
    using r(2) by (induction rows) auto
  have "sizes rows < 2 ^ 64" using assms(3) r(1) u [of owner] by simp
  then have n: "unat n = sizes rows" using r(3) unat_of_nat_small by simp
  from assms(4) show ?thesis
  proof
    assume "n = 0 \<and> d2 = d1"
    then have "sizes rows = 0" "d2 = d1" using n by auto
    then show ?thesis using assms(2) us r(1) u by (auto simp: accounted_def)
  next
    assume s: "ChangeStorage G owner ''+'' n d1 = Inr d2"
    have "\<forall>u\<in>set (users d1). unat (u_Storage u) = usage (u_ID u) (files d)"
      using assms(2) us by (simp add: accounted_def)
    from ChangeStorage_plus [OF s this] show ?thesis
      unfolding accounted_def ChangeStorage_rows(1) [OF s] using r(1) u n by simp
  qed
qed

end

text \<open>The update of an account succeeds when the new amount fits its column.\<close>

definition updates_fitting :: "gorm \<Rightarrow> bool" where
  "updates_fitting G \<longleftrightarrow>
     (\<forall>d uid n. uid \<noteq> 0 \<and> (\<forall>u\<in>set (users d). u_ID u = uid \<longrightarrow> unat (u_Storage u) + unat n < 2 ^ 64) \<longrightarrow>
        (\<exists>d'. ChangeStorage G uid ''+'' n d = Inr d'))"

context gorm_db
begin

lemma Copy_objects_accounted:
  assumes "orm S = G" and "updates_fitting G" and "FsRoot w = None" and "u_ID (User w) \<noteq> 0"
    and "accounted (wdb w)" and "usage (u_ID (User w)) (files (wdb w')) < 2 ^ 64"
    and "Copy_objects S dirs ids src dst w = (None, w')"
  shows "accounted (wdb w')"
proof -
  let ?uid = "u_ID (User w)"
  from assms(7) obtain df sf n1 d1 n2 d2 where
    dst: "IsPathExist G w dst = (True, Some df)"
    and c1: "(if dirs \<noteq> [] then CopyFolderTo G sf (hd dirs) df (wdb w) else ((0, None), wdb w)) = ((n1, None), d1)"
    and c2: "(if ids \<noteq> [] then MoveOrCopyFileTo G sf ids df True d1 else ((0, None), d1)) = ((n2, None), d2)"
    and w': "wdb w' = snd (IncreaseStorageWithoutCheck G (User w) (n1 + n2) d2)"
    unfolding Copy_objects_def assms(1)
    by (auto simp: Let_def split: prod.splits option.splits bool.splits)
  note own = IsPathExist_owner [OF dst assms(3)]
  have a1: "adds_files ?uid (wdb w) n1 d1"
    using c1 by (cases "dirs = []") (auto simp: adds_files_refl own [symmetric] intro: CopyFolderTo_adds)
  have a2: "adds_files ?uid d1 n2 d2"
    using c2 by (cases "ids = []") (auto simp: adds_files_refl own [symmetric] intro: MoveOrCopyFileTo_adds)
  note a = adds_files_trans [OF a1 a2]
  show ?thesis
  proof (cases "n1 + n2 = 0")
    case True
    then have "wdb w' = d2" using w' by (simp add: IncreaseStorageWithoutCheck_def)
    then show ?thesis using adds_files_accounted [OF a assms(5)] True assms(6) by simp
  next
    case False
    have fs: "files (wdb w') = files d2"
      using w' False by (auto simp: IncreaseStorageWithoutCheck_def ChangeStorage_rows(1) split: sum.splits)
    then have lim: "usage ?uid (files d2) < 2 ^ 64" using assms(6) by simp
    from a obtain rows where r: "files d2 = files (wdb w) @ rows" "\<forall>r\<in>set rows. f_UserID r = ?uid"
      "n1 + n2 = of_nat (sizes rows)" and us: "users d2 = users (wdb w)" by (auto simp: adds_files_def)
    have u: "usage ?uid rows = sizes rows" using r(2) by (induction rows) auto
    then have "unat (n1 + n2) = sizes rows" using lim r(1,3) unat_of_nat_small by simp
    then have "unat (u_Storage x) + unat (n1 + n2) < 2 ^ 64" if "x \<in> set (users d2)" "u_ID x = ?uid" for x
      using that us assms(5) lim r(1) u by (auto simp: accounted_def)
    then obtain d3 where d3: "ChangeStorage G ?uid ''+'' (n1 + n2) d2 = Inr d3"
      using assms(2,4) unfolding updates_fitting_def by blast
    then have "wdb w' = d3" using w' False by (simp add: IncreaseStorageWithoutCheck_def)
    then show ?thesis using adds_files_accounted [OF a assms(5) lim] d3 by blast
  qed
qed

section \<open>Moving\<close>

lemma Move_without_folders:
  assumes "orm S = G" and "Move_objects S [] ids src dst w = (res, w')"
  shows "wdb w' = wdb w"
proof -
  have m: "d' = d" if "MoveFolderTo G a [] b d = (r, d')" for a b d r d'
    using that
    by (cases rule: MoveFolderTo_cases) (simp_all add: set_folders_same)
  have f: "d' = d" if "MoveOrCopyFileTo G a [] b False d = (r, d')" for a b d r d'
  proof (cases "Updates (Files G) (\<lambda>f. False) (\<lambda>f. Some (f\<lparr>f_FolderID := d_ID b\<rparr>)) d")
    case (Inl e)
    then show ?thesis using that by (simp add: MoveOrCopyFileTo_def)
  next
    case (Inr d1)
    from files.update_rows [OF Inr] that Inr show ?thesis
      by (simp add: MoveOrCopyFileTo_def set_files_same)
  qed
  show ?thesis
    using assms(2) unfolding Move_objects_def assms(1)
    by (auto dest!: m f split: prod.splits option.splits bool.splits sum.splits)
qed

end

section \<open>Renaming and listing\<close>

context gorm_db
begin

lemma File_Rename_row:
  assumes "File_Rename G f new d = (Inr u, d')"
  shows "d' = set_files (map (\<lambda>r. if f_ID r = f_ID f then r\<lparr>f_Name := new\<rparr> else r) (files d)) d"
proof -
  from assms have "UpdateColumns (Files G) (\<lambda>r. f_ID r = f_ID f) (\<lambda>r. Some (r\<lparr>f_Name := new\<rparr>)) d = Inr d'"
    by (auto simp: File_Rename_def write1_def by_key_def split: if_splits sum.splits)
  from files.update_cols_rows [OF this] show ?thesis by simp
qed

lemma Folder_Rename_row:
  assumes "Folder_Rename G f new d = (Inr u, d')"
  shows "d' = set_folders (map (\<lambda>r. if d_ID r = d_ID f then r\<lparr>d_Name := new\<rparr> else r) (folders d)) d"
proof -
  from assms have "UpdateColumns (Folders G) (\<lambda>r. d_ID r = d_ID f) (\<lambda>r. Some (r\<lparr>d_Name := new\<rparr>)) d = Inr d'"
    by (auto simp: Folder_Rename_def write1_def by_key_def split: if_splits sum.splits)
  from folders.update_cols_rows [OF this] show ?thesis by simp
qed

lemma Rename_file_effect:
  assumes "orm S = G" and "ids \<noteq> []" and "u_ID (User w) \<noteq> 0" and "Rename_objects S dirs ids new w = (None, w')"
  shows "ValidateLegalName new \<and> (\<exists>r\<in>set (files (wdb w)). f_ID r = hd ids \<and> f_UserID r = u_ID (User w)) \<and>
    wdb w' = set_files (map (\<lambda>r. if f_ID r = hd ids then r\<lparr>f_Name := new\<rparr> else r) (files (wdb w))) (wdb w)"
proof -
  from assms(2-4) obtain f rest u d' where v: "ValidateLegalName new"
    and g: "Find (Files G) (\<lambda>r. f_ID r \<in> set [hd ids] \<and> f_UserID r = u_ID (User w)) (wdb w) = Inr (f # rest)"
    and r: "File_Rename G f new (wdb w) = (Inr u, d')" "wdb w' = d'"
    unfolding Rename_objects_def assms(1) GetFilesByIDs_def
    by (auto split: if_splits sum.splits list.splits prod.splits)
  from files.find_set [OF g] have "f \<in> set (files (wdb w))" "f_ID f = hd ids" "f_UserID f = u_ID (User w)" by auto
  with v r File_Rename_row [OF r(1)] show ?thesis by auto
qed

lemma Rename_folder_effect:
  assumes "orm S = G" and "Rename_objects S dirs [] new w = (None, w')"
  shows "ValidateLegalName new \<and> dirs \<noteq> [] \<and>
    (\<exists>r\<in>set (folders (wdb w)). d_ID r = hd dirs \<and> d_OwnerID r = u_ID (User w)) \<and>
    wdb w' = set_folders (map (\<lambda>r. if d_ID r = hd dirs then r\<lparr>d_Name := new\<rparr> else r) (folders (wdb w))) (wdb w)"
proof -
  from assms(2) obtain f rest u d' where v: "ValidateLegalName new" "dirs \<noteq> []"
    and g: "Find (Folders G) (\<lambda>r. d_ID r \<in> set [hd dirs] \<and> d_OwnerID r = u_ID (User w)) (wdb w) = Inr (f # rest)"
    and r: "Folder_Rename G f new (wdb w) = (Inr u, d')" "wdb w' = d'"
    unfolding Rename_objects_def assms(1) GetFolderByIDs_def
    by (auto split: if_splits sum.splits list.splits prod.splits)
  from folders.find_set [OF g] have "f \<in> set (folders (wdb w))" "d_ID f = hd dirs" "d_OwnerID f = u_ID (User w)" by auto
  with v r Folder_Rename_row [OF r(1)] show ?thesis by auto
qed

end

text \<open>The files a listing shows: those that are not still being uploaded.\<close>

lemma list_files_names:
  "list_files S p key fs w = (os, w') \<Longrightarrow>
   map (\<lambda>ob. (o_Type ob, o_Name ob, o_Size ob)) os =
   map (\<lambda>f. (''file'', f_Name f, f_Size f)) (filter (\<lambda>f. f_UploadSessionID f = None) fs)"
  by (induction fs arbitrary: w os) (auto simp: file_object_def Let_def split: if_splits prod.splits)

section \<open>Properties\<close>

text \<open>
  Copying folders and files that reports success charges the user exactly what the copies
  take: the storage accounting holds afterwards, provided the amount fits and its update does
  not fail.
\<close>

theorem Copy_keeps_accounts:
  assumes "gorm_db (orm S)" and "updates_fitting (orm S)" and "FsRoot w = None" and "u_ID (User w) \<noteq> 0"
    and "accounted (wdb w)" and "usage (u_ID (User w)) (files (wdb w')) < 2 ^ 64"
    and "Copy_objects S dirs ids src dst w = (None, w')"
  shows "accounted (wdb w')"
  by (rule gorm_db.Copy_objects_accounted [OF assms(1) refl assms(2-7)])

lemma sound_updates_fitting: "updates_fitting sound_gorm"
  by (simp add: updates_fitting_def ChangeStorage_def by_key_def sound_simps storage_expr_def list_all_iff)

lemmas copy_eval = IsPathExist_def SplitPath_def Root_def GetChild_def MoveOrCopyFileTo_def CanCopy_def
  reset_file_def MoveFolderTo_def write1_def IncreaseStorageWithoutCheck_def ChangeStorage_def by_key_def
  storage_expr_def Let_def sound_simps acc_simps

theorem Copy_keeps_accounts_witness:
  "accounted (wdb (snd (Copy_objects docs_sys [] [1] ''/docs'' ''/docs/old'' acc_world))) \<and>
   length (files (wdb (snd (Copy_objects docs_sys [] [1] ''/docs'' ''/docs/old'' acc_world)))) = 3"
proof -
  have "fst (Copy_objects docs_sys [] [1] ''/docs'' ''/docs/old'' acc_world) = None"
    by (simp add: Copy_objects_def copy_eval)
  then obtain w' where r: "Copy_objects docs_sys [] [1] ''/docs'' ''/docs/old'' acc_world = (None, w')"
    by (metis prod.collapse)
  then have w': "w' = snd (Copy_objects docs_sys [] [1] ''/docs'' ''/docs/old'' acc_world)" by simp
  have "usage 7 (files (wdb w')) = 16" "length (files (wdb w')) = 3"
    unfolding w' by (simp_all add: Copy_objects_def copy_eval)
  moreover have "accounted (wdb w')"
    by (rule Copy_keeps_accounts [OF _ _ _ _ acc_ok(1) _ r])
       (use \<open>usage 7 (files (wdb w')) = 16\<close> in \<open>simp_all add: acc_simps sound_gorm_laws sound_updates_fitting\<close>)
  ultimately show ?thesis unfolding r by simp
qed

text \<open>
  Moving files without folders changes nothing: the files named in the call stay where
  they are, although the call succeeds when both paths exist.
\<close>

theorem Move_ignores_files:
  assumes "gorm_db (orm S)" and "Move_objects S [] ids src dst w = (res, w')"
  shows "wdb w' = wdb w"
  by (rule gorm_db.Move_without_folders [OF assms(1) refl assms(2)])

theorem Move_ignores_files_witness:
  "fst (Move_objects docs_sys [] [1] ''/docs'' ''/'' acc_world) = None \<and>
   wdb (snd (Move_objects docs_sys [] [1] ''/docs'' ''/'' acc_world)) = wdb acc_world"
proof -
  obtain res w' where r: "Move_objects docs_sys [] [1] ''/docs'' ''/'' acc_world = (res, w')" by fastforce
  have "wdb w' = wdb acc_world" by (rule Move_ignores_files [OF acc_ok(4) r])
  moreover have "fst (Move_objects docs_sys [] [1] ''/docs'' ''/'' acc_world) = None"
    by (simp add: Move_objects_def copy_eval)
  ultimately show ?thesis using r by simp
qed

text \<open>
  Renaming a file that reports success gave it a legal name (not empty, at most 255 bytes,
  no reserved character, no blank at its end), named a file of the user, and changed nothing
  but the name of that file.
\<close>

theorem Rename_file_exact:
  assumes "gorm_db (orm S)" and "ids \<noteq> []" and "u_ID (User w) \<noteq> 0"
    and "Rename_objects S dirs ids new w = (None, w')"
  shows "new \<noteq> [] \<and> length new < 256 \<and> last new \<noteq> CHR '' '' \<and>
    set new \<inter> {CHR 92, CHR ''?'', CHR ''*'', CHR ''<'', CHR 34, CHR '':'', CHR ''>'', CHR ''/'', CHR ''|''} = {} \<and>
    (\<exists>r\<in>set (files (wdb w)). f_ID r = hd ids \<and> f_UserID r = u_ID (User w)) \<and>
    wdb w' = set_files (map (\<lambda>r. if f_ID r = hd ids then r\<lparr>f_Name := new\<rparr> else r) (files (wdb w))) (wdb w)"
  using gorm_db.Rename_file_effect [OF assms(1) refl assms(2-4)] by (simp add: ValidateLegalName_chars)

theorem Rename_file_exact_witness:
  "map f_Name (files (wdb (snd (Rename_objects docs_sys [] [2] ''c.txt''
     (acc_world\<lparr>Policy := Some zero_policy\<rparr>))))) = [''a'', ''c.txt'']"
proof -
  let ?w = "acc_world\<lparr>Policy := Some zero_policy\<rparr>"
  have "fst (Rename_objects docs_sys [] [2] ''c.txt'' ?w) = None"
    by (simp add: Rename_objects_def ValidateLegalName_chars ValidateExtension_def GetFilesByIDs_def
        File_Rename_def write1_def by_key_def sound_simps acc_simps)
  then obtain w' where r: "Rename_objects docs_sys [] [2] ''c.txt'' ?w = (None, w')" by (metis prod.collapse)
  have "wdb w' = set_files (map (\<lambda>r. if f_ID r = hd [2] then r\<lparr>f_Name := ''c.txt''\<rparr> else r) (files (wdb ?w))) (wdb ?w)"
    using Rename_file_exact [OF _ _ _ r] by (simp add: acc_simps sound_gorm_laws)
  then show ?thesis unfolding r by (simp add: acc_simps)
qed

text \<open>
  C27. A listing shows exactly the children of the folder its path leads to: every subfolder,
  and every file that is not still being uploaded, with its name and size, when the two
  queries do not fail.
\<close>

theorem List_shows_children:
  assumes "gorm_db (orm S)" and "IsPathExist (orm S) w path = (True, Some folder)"
    and "GetChildFolder (orm S) folder (wdb w) = Inr fds" and "GetChildFiles (orm S) folder (wdb w) = Inr fs"
    and "List_dir S key path pp w = (Inr os, w')"
  shows "mset (map (\<lambda>ob. (o_Type ob, o_Name ob, o_Size ob)) os) =
    mset (map (\<lambda>f. (''dir'', d_Name f, 0)) (filter (\<lambda>f. d_ParentID f = Some (d_ID folder)) (folders (wdb w)))) +
    mset (map (\<lambda>f. (''file'', f_Name f, f_Size f))
      (filter (\<lambda>f. f_FolderID f = d_ID folder \<and> f_UploadSessionID f = None) (files (wdb w))))"
proof -
  obtain w1 where l: "listObjects S key (pathJoin (d_Position folder) (d_Name folder)) fs fds pp (SetTargetDir [folder] w) = (os, w1)"
    using assms(2-5) by (auto simp: List_dir_def Let_def split: prod.splits)
  then obtain p files1 where os: "os = map (folder_object S p) fds @ files1"
    and f1: "list_files S p key fs (SetTargetDir [folder] w) = (files1, w1)"
    by (auto simp: listObjects_def Let_def split: prod.splits)
  from assms(3) obtain fds0 where
    a: "Find (Folders (orm S)) (\<lambda>r. d_ParentID r = Some (d_ID folder)) (wdb w) = Inr fds0"
    "map d_Name fds = map d_Name fds0"
    by (auto simp: GetChildFolder_def comp_def split: sum.splits)
  from assms(4) obtain fs0 where
    b: "Find (Files (orm S)) (\<lambda>r. f_FolderID r = d_ID folder) (wdb w) = Inr fs0"
    "fs = map (\<lambda>f. f\<lparr>f_Position := pathJoin (d_Position folder) (d_Name folder)\<rparr>) fs0"
    by (auto simp: GetChildFiles_def split: sum.splits)
  have m1: "mset fds0 = mset (filter (\<lambda>f. d_ParentID f = Some (d_ID folder)) (folders (wdb w)))"
    using gorm_table.find_rows [OF gorm_db.folders [OF assms(1)] a(1)] .
  have m2: "mset fs0 = mset (filter (\<lambda>f. f_FolderID f = d_ID folder) (files (wdb w)))"
    using gorm_table.find_rows [OF gorm_db.files [OF assms(1)] b(1)] .
  have "mset (map (\<lambda>ob. (o_Type ob, o_Name ob, o_Size ob)) (map (folder_object S p) fds)) =
      mset (map (\<lambda>n. (''dir'', n, 0)) (map d_Name fds0))"
    by (simp only: a(2) [symmetric]) (simp add: folder_object_def comp_def)
  also have "\<dots> = image_mset (\<lambda>f. (''dir'', d_Name f, 0)) (mset fds0)" by (simp add: multiset.map_comp comp_def)
  finally have d: "mset (map (\<lambda>ob. (o_Type ob, o_Name ob, o_Size ob)) (map (folder_object S p) fds)) =
      image_mset (\<lambda>f. (''dir'', d_Name f, 0)) (mset fds0)" .
  have "mset (map (\<lambda>ob. (o_Type ob, o_Name ob, o_Size ob)) files1) =
      mset (map (\<lambda>f. (''file'', f_Name f, f_Size f)) (filter (\<lambda>f. f_UploadSessionID f = None) fs0))"
    unfolding list_files_names [OF f1] b(2) by (simp add: filter_map comp_def)
  also have "\<dots> = image_mset (\<lambda>f. (''file'', f_Name f, f_Size f)) (filter_mset (\<lambda>f. f_UploadSessionID f = None) (mset fs0))"
    by simp
  finally show ?thesis
    using d unfolding os by (simp add: m1 m2 filter_filter_mset conj_commute)
qed

theorem List_shows_children_witness:
  "mset (map (\<lambda>ob. (o_Type ob, o_Name ob, o_Size ob)) (case fst (List_dir docs_sys [] ''/docs'' None acc_world) of Inl _ \<Rightarrow> [] | Inr os \<Rightarrow> os)) =
   {#(''dir'', ''old'', 0), (''file'', ''a'', 5)#}"
proof -
  have p: "IsPathExist (orm docs_sys) acc_world ''/docs'' = (True, Some ((folders docs_db ! 1)\<lparr>d_Position := ''/''\<rparr>))"
    by (simp add: copy_eval pathJoin_def pathClean_def isRooted_def cleanElems_def cleanStep_def)
  let ?f = "(folders docs_db ! 1)\<lparr>d_Position := ''/''\<rparr>"
  obtain fds fs where q: "GetChildFolder (orm docs_sys) ?f (wdb acc_world) = Inr fds" "GetChildFiles (orm docs_sys) ?f (wdb acc_world) = Inr fs"
    by (simp add: GetChildFolder_def GetChildFiles_def sound_simps acc_simps)
  obtain res w' where l0: "List_dir docs_sys [] ''/docs'' None acc_world = (res, w')" by fastforce
  with p obtain os where "res = Inr os" by (auto simp: List_dir_def Let_def split: prod.splits)
  with l0 have l: "List_dir docs_sys [] ''/docs'' None acc_world = (Inr os, w')" by simp
  have "mset (map (\<lambda>ob. (o_Type ob, o_Name ob, o_Size ob)) os) =
    mset (map (\<lambda>f. (''dir'', d_Name f, 0)) (filter (\<lambda>f. d_ParentID f = Some (d_ID ?f)) (folders (wdb acc_world)))) +
    mset (map (\<lambda>f. (''file'', f_Name f, f_Size f))
      (filter (\<lambda>f. f_FolderID f = d_ID ?f \<and> f_UploadSessionID f = None) (files (wdb acc_world))))"
    by (rule List_shows_children [OF acc_ok(4) p q l])
  then show ?thesis unfolding l by (simp add: acc_simps)
qed

end
