(* ===== verification/LocalDriver.thy ===== *)
theory LocalDriver
  imports FsCore HmacAuth
begin

text \<open>
  \<open>pkg/filesystem/driver/local/handler.go\<close>: the driver that keeps files on the server's disk.

  A disk maps absolute paths to directories and files. \<open>os\<close> is what the operating system adds:
  the absolute path of a name (\<open>filepath.Abs\<close>), which accesses it refuses, and after how many bytes
  \<open>io.Copy\<close> into a file fails, be it at reading or at writing (\<open>None\<close> when it does not). \<open>List\<close> (a
  walk of the disk) and \<open>Thumb\<close> are left out.
\<close>

section \<open>The disk\<close>

datatype node = DirNode | FileNode gostring

type_synonym disk = "gostring \<rightharpoonup> node"

datatype access = AOpen | ARemove | AMkdir | ATruncate | AStat

record os =
  abs_path :: "gostring \<Rightarrow> gostring"
  refuses :: "access \<Rightarrow> gostring \<Rightarrow> bool"
  copy_fails :: "gostring \<Rightarrow> gostring \<Rightarrow> nat option"

definition Exist :: "gostring \<Rightarrow> disk \<Rightarrow> bool" where
  "Exist path dk \<longleftrightarrow> dk path \<noteq> None"

text \<open>\<open>os.MkdirAll\<close>: every prefix that is missing becomes a directory; a file in the way fails.\<close>

definition dir_prefixes :: "gostring \<Rightarrow> gostring list" where
  "dir_prefixes p =
     (let es = cleanElems True (splitOn (CHR ''/'') p)
      in map (\<lambda>n. pathOf (take n es)) [0..<Suc (length es)])"

definition MkdirAll :: "os \<Rightarrow> gostring \<Rightarrow> disk \<Rightarrow> bool \<times> disk" where
  "MkdirAll X p dk =
     (if refuses X AMkdir p \<or> list_ex (\<lambda>q. case dk q of Some (FileNode _) \<Rightarrow> True | _ \<Rightarrow> False) (dir_prefixes p)
      then (False, dk)
      else (True, foldl (\<lambda>dk q. dk(q \<mapsto> DirNode)) dk (dir_prefixes p)))"

text \<open>
  \<open>os.OpenFile\<close> for reading and writing, creating the file: the content it opens. A file needs
  its directory.
\<close>

definition OpenCreate :: "os \<Rightarrow> gostring \<Rightarrow> disk \<Rightarrow> gostring option" where
  "OpenCreate X p dk =
     (if refuses X AOpen p then None
      else case dk p of
        Some DirNode \<Rightarrow> None
      | Some (FileNode c) \<Rightarrow> Some c
      | None \<Rightarrow> (if dk (pathDir p) = Some DirNode then Some [] else None))"

definition Remove :: "os \<Rightarrow> gostring \<Rightarrow> disk \<Rightarrow> bool \<times> disk" where
  "Remove X p dk =
     (case dk p of
        Some (FileNode _) \<Rightarrow> (if refuses X ARemove p then (False, dk) else (True, dk(p := None)))
      | _ \<Rightarrow> (False, dk))"

section \<open>handler.go\<close>

definition local_Get :: "os \<Rightarrow> gostring \<Rightarrow> disk \<Rightarrow> fs_error + gostring" where
  "local_Get X path dk =
     (case dk (abs_path X path) of
        Some (FileNode c) \<Rightarrow> (if refuses X AOpen (abs_path X path) then Inl (StorageError 2) else Inr c)
      | _ \<Rightarrow> Inl (StorageError 2))"

text \<open>A file that is shorter is filled with zero bytes.\<close>

definition local_Truncate :: "os \<Rightarrow> gostring \<Rightarrow> u64 \<Rightarrow> disk \<Rightarrow> fs_error option \<times> disk" where
  "local_Truncate X src n dk =
     (case dk src of
        Some (FileNode c) \<Rightarrow>
          (if refuses X AOpen src \<or> refuses X ATruncate src then (Some (StorageError 3), dk)
           else (None, dk(src \<mapsto> FileNode (take (unat n) c @ replicate (unat n - length c) (char_of (0 :: nat))))))
      | _ \<Rightarrow> (Some (StorageError 3), dk))"

text \<open>\<open>io.Copy\<close> to the end of an open file that holds \<open>c\<close>: what was copied before it fails stays.\<close>

definition io_Copy :: "os \<Rightarrow> gostring \<Rightarrow> gostring \<Rightarrow> gostring \<Rightarrow> disk \<Rightarrow> fs_error option \<times> disk" where
  "io_Copy X dst c data dk =
     (case copy_fails X dst data of
        None \<Rightarrow> (None, dk(dst \<mapsto> FileNode (c @ data)))
      | Some n \<Rightarrow> (Some (StorageError 13), dk(dst \<mapsto> FileNode (c @ take n data))))"

text \<open>
  Appending. The file is opened, and created; when it is longer than the start of the chunk
  it is closed, cut and opened again, but into a variable of the inner block: the copy at the
  end goes to the closed file, and fails unless there is nothing to copy and no error in reading it.
\<close>

definition put_append :: "os \<Rightarrow> gostring \<Rightarrow> gostring \<Rightarrow> file_stream \<Rightarrow> disk \<Rightarrow> fs_error option \<times> disk" where
  "put_append X dst c f dk =
     (let dk1 = dk(dst \<mapsto> FileNode c); len = (of_nat (length c) :: u64) in
      if refuses X AStat dst then (Some (StorageError 14), dk1)
      else if len < fst_AppendStart f then (Some (StorageError 4), dk1)
      else if len > fst_AppendStart f then
        (case local_Truncate X dst (fst_AppendStart f) dk1 of
           (Some e, dk2) \<Rightarrow> (Some e, dk2)
         | (None, dk2) \<Rightarrow>
             (if OpenCreate X dst dk2 = None then (Some (StorageError 5), dk2)
              else if fst_File f = [] \<and> copy_fails X dst [] = None then (None, dk2)
              else (Some (StorageError 6), dk2)))
      else io_Copy X dst c (fst_File f) dk1)"

definition local_Put :: "os \<Rightarrow> file_stream \<Rightarrow> disk \<Rightarrow> fs_error option \<times> disk" where
  "local_Put X f dk =
     (let dst = abs_path X (fst_SavePath f) in
      if \<not> has_mode (fst_Mode f) Overwrite \<and> Exist dst dk then (Some (StorageError 7), dk)
      else
        (let basePath = pathDir dst;
             (ok, dk1) = (if Exist basePath dk then (True, dk) else MkdirAll X basePath dk) in
         if \<not> ok then (Some (StorageError 8), dk1)
         else case OpenCreate X dst dk1 of
           None \<Rightarrow> (Some (StorageError 9), dk1)
         | Some c \<Rightarrow>
             (if has_mode (fst_Mode f) Append then put_append X dst c f dk1
              else io_Copy X dst [] (fst_File f) dk1)))"

text \<open>The thumbnail goes with the file; \<open>suffix\<close> is the setting \<open>thumb_file_suffix\<close>.\<close>

fun local_Delete :: "os \<Rightarrow> gostring \<Rightarrow> gostring list \<Rightarrow> disk \<Rightarrow> gostring list \<times> disk" where
  "local_Delete X suffix [] dk = ([], dk)"
| "local_Delete X suffix (value # rest) dk =
     (let filePath = abs_path X value;
          (ok, dk1) = (if Exist filePath dk then Remove X filePath dk else (True, dk));
          dk2 = snd (Remove X (abs_path X (value @ suffix)) dk1);
          (failed, dk3) = local_Delete X suffix rest dk2
      in (if ok then failed else value # failed, dk3))"

text \<open>
  \<open>parse\<close> is \<open>url.Parse\<close> on the base URL, \<open>resolve\<close> is \<open>ResolveReference\<close> as a string,
  \<open>draws\<close> the random numbers of the session's id, \<open>sign\<close> signs a path.
\<close>

definition local_Source ::
  "(gostring \<Rightarrow> int \<Rightarrow> fs_error + url) \<Rightarrow> (gostring \<Rightarrow> gostring option) \<Rightarrow> (gostring \<Rightarrow> url \<Rightarrow> gostring) \<Rightarrow>
   unix_time \<Rightarrow> nat list \<Rightarrow> gostring \<Rightarrow> policy \<Rightarrow> file_row option \<Rightarrow> int \<Rightarrow> bool \<Rightarrow> cache_obj memo \<Rightarrow>
   (fs_error + gostring) \<times> cache_obj memo" where
  "local_Source sign parse resolve now draws siteURL policy fileCtx ttl isDownload ch =
     (case fileCtx of
        None \<Rightarrow> (Inl (StorageError 10), ch)
      | Some f \<Rightarrow>
          (case (if p_BaseURL policy \<noteq> [] then parse (p_BaseURL policy) else Some siteURL) of
             None \<Rightarrow> (Inl (StorageError 11), ch)
           | Some baseURL \<Rightarrow>
               (let downloadSessionID = RandStringRunes draws;
                    (signed, ch1) =
                      (if isDownload then
                         (sign (''/api/v3/file/download/'' @ downloadSessionID) ttl,
                          cache_Set now (''download_'' @ downloadSessionID) (CObj (CFile f)) ttl ch)
                       else
                         (sign (''/api/v3/file/get/'' @ formatNat (f_ID f) @ ''/'' @ f_Name f) ttl, ch))
                in case signed of
                     Inl _ \<Rightarrow> (Inl (AppError 50002), ch1)
                   | Inr signedURI \<Rightarrow> (Inr (resolve baseURL signedURI), ch1))))"

definition local_Token ::
  "os \<Rightarrow> policy \<Rightarrow> upload_session \<Rightarrow> disk \<Rightarrow> (fs_error + upload_credential) \<times> disk" where
  "local_Token X policy session dk =
     (if Exist (abs_path X (us_SavePath session)) dk then (Inl (StorageError 12), dk)
      else (Inr \<lparr>uc_SessionID = us_Key session, uc_ChunkSize = p_ChunkSize policy, uc_Expires = 0\<rparr>, dk))"

definition local_CancelToken :: "upload_session \<Rightarrow> disk \<Rightarrow> fs_error option \<times> disk" where
  "local_CancelToken session dk = (None, dk)"

text \<open>
  The driver as an instance of the interface. \<open>src\<close> is \<open>Source\<close> with its parameters given;
  \<open>ls\<close> is the walk of the disk.
\<close>

definition local_handler ::
  "os \<Rightarrow> gostring \<Rightarrow> (policy \<Rightarrow> file_row option \<Rightarrow> int \<Rightarrow> bool \<Rightarrow> cache_obj memo \<Rightarrow> (fs_error + gostring) \<times> cache_obj memo) \<Rightarrow>
   (gostring \<Rightarrow> bool \<Rightarrow> disk \<Rightarrow> fs_error + phys_object list) \<Rightarrow> policy \<Rightarrow> disk handler" where
  "local_handler X suffix src ls policy =
     \<lparr>h_Put = local_Put X, h_Delete = local_Delete X suffix, h_Get = local_Get X,
      h_Source = (\<lambda>f path ttl isDownload speed ch. src policy f ttl isDownload ch),
      h_Token = (\<lambda>ttl session f dk. local_Token X policy session dk),
      h_CancelToken = local_CancelToken, h_List = ls\<rparr>"

section \<open>The contract of the drivers\<close>

text \<open>
  What the file system relies on when it deletes: the drivers work on one storage, which \<open>get\<close>
  reads; a name that is deleted and not reported as failed is gone, only names that were
  given are reported, and neither deleting nor cancelling an upload brings a name back.
\<close>

locale storage_drivers =
  fixes D :: "driver \<Rightarrow> 'p handler"
    and get :: "gostring \<Rightarrow> 'p \<Rightarrow> fs_error + gostring"
  assumes reads: "h_Get (D v) = get"
    and delete_gone: "h_Delete (D v) ns p = (failed, p') \<Longrightarrow> n \<in> set ns \<Longrightarrow> n \<notin> set failed \<Longrightarrow> isl (get n p')"
    and delete_failed: "h_Delete (D v) ns p = (failed, p') \<Longrightarrow> set failed \<subseteq> set ns"
    and delete_keeps_gone: "isl (get n p) \<Longrightarrow> isl (get n (snd (h_Delete (D v) ns p)))"
    and cancel_keeps_gone: "isl (get n p) \<Longrightarrow> isl (get n (snd (h_CancelToken (D v) us p)))"

lemma Remove_sub: "snd (Remove X p dk) q = dk q \<or> snd (Remove X p dk) q = None"
  by (auto simp: Remove_def split: option.splits node.splits)

lemma Remove_gone: "fst (Remove X p dk) \<Longrightarrow> snd (Remove X p dk) p = None"
  by (auto simp: Remove_def split: option.splits node.splits if_splits)

lemma local_Delete_sub:
  "snd (local_Delete X suffix ns dk) q = dk q \<or> snd (local_Delete X suffix ns dk) q = None"
proof (induction ns arbitrary: dk)
  case Nil
  then show ?case by simp
next
  case (Cons n ns)
  obtain ok dk1 where a: "(if Exist (abs_path X n) dk then Remove X (abs_path X n) dk else (True, dk)) = (ok, dk1)"
    by fastforce
  have 1: "dk1 q = dk q \<or> dk1 q = None"
    using a Remove_sub [of X "abs_path X n" dk q] by (auto split: if_splits)
  have 2: "snd (Remove X (abs_path X (n @ suffix)) dk1) q = dk1 q \<or> snd (Remove X (abs_path X (n @ suffix)) dk1) q = None"
    by (rule Remove_sub)
  have 3: "snd (local_Delete X suffix (n # ns) dk) = snd (local_Delete X suffix ns (snd (Remove X (abs_path X (n @ suffix)) dk1)))"
    using a by (simp add: Let_def split: prod.splits)
  show ?case
    using 1 2 Cons.IH [of "snd (Remove X (abs_path X (n @ suffix)) dk1)"] unfolding 3 by auto
qed

lemma local_Delete_spec:
  "local_Delete X suffix ns dk = (failed, dk') \<Longrightarrow>
   set failed \<subseteq> set ns \<and> (\<forall>n\<in>set ns. n \<notin> set failed \<longrightarrow> dk' (abs_path X n) = None)"
proof (induction ns arbitrary: dk failed dk')
  case Nil
  then show ?case by simp
next
  case (Cons n ns)
  obtain ok dk1 where a: "(if Exist (abs_path X n) dk then Remove X (abs_path X n) dk else (True, dk)) = (ok, dk1)"
    by fastforce
  let ?dk2 = "snd (Remove X (abs_path X (n @ suffix)) dk1)"
  obtain fl dk3 where r: "local_Delete X suffix ns ?dk2 = (fl, dk3)" by fastforce
  have f: "failed = (if ok then fl else n # fl)" "dk' = dk3"
    using Cons.prems a r by (auto simp: Let_def split: prod.splits if_splits)
  note IH = Cons.IH [OF r]
  have "dk1 (abs_path X n) = None" if ok
    using a that Remove_gone [of X "abs_path X n" dk] by (auto simp: Exist_def split: if_splits)
  then have "?dk2 (abs_path X n) = None" if ok
    using that Remove_sub [of X "abs_path X (n @ suffix)" dk1 "abs_path X n"] by auto
  then have "dk3 (abs_path X n) = None" if ok
    using that local_Delete_sub [of X suffix ns ?dk2 "abs_path X n"] r by auto
  then show ?case using IH f by auto
qed

interpretation local: storage_drivers "\<lambda>v. local_handler X suffix src ls (pol v)" "local_Get X" for X suffix src ls pol
proof unfold_locales
  fix v ns p failed p' n
  assume d: "h_Delete (local_handler X suffix src ls (pol v)) ns p = (failed, p')"
  note spec = local_Delete_spec [of X suffix ns p failed p']
  show "set failed \<subseteq> set ns" using d spec by (simp add: local_handler_def)
  assume "n \<in> set ns" "n \<notin> set failed"
  then show "isl (local_Get X n p')" using d spec by (simp add: local_handler_def local_Get_def)
next
  fix v ns p n
  assume "isl (local_Get X n p)"
  then show "isl (local_Get X n (snd (h_Delete (local_handler X suffix src ls (pol v)) ns p)))"
    using local_Delete_sub [of X suffix ns p "abs_path X n"]
    by (auto simp: local_handler_def local_Get_def split: option.splits node.splits if_splits)
qed (simp_all add: local_handler_def local_CancelToken_def)

section \<open>Storing in chunks\<close>

text \<open>The chunks of an upload, each appended where the one before it ended.\<close>

fun put_chunks :: "os \<Rightarrow> file_stream \<Rightarrow> nat \<Rightarrow> gostring list \<Rightarrow> disk \<Rightarrow> fs_error option \<times> disk" where
  "put_chunks X f start [] dk = (None, dk)"
| "put_chunks X f start (c # cs) dk =
     (case local_Put X (f\<lparr>fst_File := c, fst_AppendStart := of_nat start\<rparr>) dk of
        (Some e, dk1) \<Rightarrow> (Some e, dk1)
      | (None, dk1) \<Rightarrow> put_chunks X f (start + length c) cs dk1)"

definition content_of :: "gostring \<Rightarrow> disk \<Rightarrow> gostring" where
  "content_of p dk = (case dk p of Some (FileNode c) \<Rightarrow> c | _ \<Rightarrow> [])"

lemma MkdirAll_files:
  assumes "MkdirAll X p dk = (ok, dk1)" and "dk q = Some (FileNode c)"
  shows "dk1 q = Some (FileNode c)"
proof (cases "refuses X AMkdir p \<or> list_ex (\<lambda>q. case dk q of Some (FileNode _) \<Rightarrow> True | _ \<Rightarrow> False) (dir_prefixes p)")
  case True
  then show ?thesis using assms by (simp add: MkdirAll_def split: if_splits)
next
  case False
  then have "q \<notin> set (dir_prefixes p)" using assms(2) by (auto simp: list_ex_iff)
  moreover have "foldl (\<lambda>dk q. dk(q \<mapsto> DirNode)) d qs q = d q" if "q \<notin> set qs" for d :: disk and qs
    using that by (induction qs arbitrary: d) auto
  moreover have "dk1 = foldl (\<lambda>dk q. dk(q \<mapsto> DirNode)) dk (dir_prefixes p)"
    using assms(1) False by (auto simp: MkdirAll_def split: if_splits)
  ultimately show ?thesis using assms(2) by simp
qed

lemma MkdirAll_content:
  assumes "MkdirAll X p dk = (ok, dk1)"
  shows "dk1 q = dk q \<or> (dk q = None \<or> dk q = Some DirNode) \<and> dk1 q = Some DirNode"
proof (cases "\<exists>b. dk q = Some (FileNode b)")
  case True
  then show ?thesis using MkdirAll_files [OF assms] by auto
next
  case False
  then have n: "dk q = None \<or> dk q = Some DirNode" by (metis node.exhaust option.exhaust)
  have "foldl (\<lambda>dk q. dk(q \<mapsto> DirNode)) d qs q = (if q \<in> set qs then Some DirNode else d q)" for d :: disk and qs
    by (induction qs arbitrary: d) auto
  then show ?thesis using assms n by (auto simp: MkdirAll_def split: if_splits)
qed

text \<open>A successful append at the end of the file.\<close>

lemma put_at_end:
  assumes "has_mode (fst_Mode f) Append" and "content_of (abs_path X (fst_SavePath f)) dk = c"
    and "fst_AppendStart f = of_nat (length c)" and "length c < 2 ^ 64"
    and "local_Put X f dk = (None, dk')"
  shows "dk' (abs_path X (fst_SavePath f)) = Some (FileNode (c @ fst_File f))"
    and "q \<noteq> abs_path X (fst_SavePath f) \<Longrightarrow> dk q = Some (FileNode b) \<Longrightarrow> dk' q = Some (FileNode b)"
proof -
  let ?dst = "abs_path X (fst_SavePath f)"
  obtain ok dk1 where m: "(if Exist (pathDir ?dst) dk then (True, dk) else MkdirAll X (pathDir ?dst) dk) = (ok, dk1)"
    by fastforce
  from assms(5) m obtain c1 where ok: "ok" and o: "OpenCreate X ?dst dk1 = Some c1"
    and put: "put_append X ?dst c1 f dk1 = (None, dk')"
    using assms(1) by (auto simp: local_Put_def Let_def split: if_splits option.splits)
  have keep: "dk q = Some (FileNode b) \<Longrightarrow> dk1 q = Some (FileNode b)" for q b
    using m MkdirAll_files [of X "pathDir ?dst" dk] by (auto split: if_splits)
  have c1: "c1 = c"
  proof (cases "dk ?dst")
    case None
    then have "c = []" using assms(2) by (simp add: content_of_def)
    moreover have "dk1 ?dst = None \<or> dk1 ?dst = Some DirNode"
      using m MkdirAll_content [of X "pathDir ?dst" dk ok dk1 ?dst] None by (auto split: if_splits)
    ultimately show ?thesis using o by (auto simp: OpenCreate_def split: if_splits)
  next
    case (Some nd)
    show ?thesis
    proof (cases nd)
      case DirNode
      then have "dk1 ?dst = Some DirNode"
        using m MkdirAll_content [of X "pathDir ?dst" dk ok dk1 ?dst] Some by (auto split: if_splits)
      then show ?thesis using o by (simp add: OpenCreate_def split: if_splits)
    next
      case (FileNode b)
      then show ?thesis using keep [of ?dst b] Some assms(2) o
        by (simp add: OpenCreate_def content_of_def split: if_splits)
    qed
  qed
  have "dk' = dk1(?dst \<mapsto> FileNode (c @ fst_File f))"
    using put assms(3) c1 by (simp add: put_append_def io_Copy_def Let_def split: if_splits option.splits)
  then show "dk' ?dst = Some (FileNode (c @ fst_File f))"
    and "q \<noteq> ?dst \<Longrightarrow> dk q = Some (FileNode b) \<Longrightarrow> dk' q = Some (FileNode b)"
    using keep by auto
qed

lemma put_chunks_content:
  assumes "has_mode (fst_Mode f) Append"
  shows "put_chunks X f (length c) cs dk = (None, dk') \<Longrightarrow> content_of (abs_path X (fst_SavePath f)) dk = c \<Longrightarrow>
    length c + length (concat cs) < 2 ^ 64 \<Longrightarrow>
    content_of (abs_path X (fst_SavePath f)) dk' = c @ concat cs \<and>
    (\<forall>q b. q \<noteq> abs_path X (fst_SavePath f) \<longrightarrow> dk q = Some (FileNode b) \<longrightarrow> dk' q = Some (FileNode b))"
proof (induction cs arbitrary: c dk)
  case Nil
  then show ?case by simp
next
  case (Cons a cs)
  let ?f = "f\<lparr>fst_File := a, fst_AppendStart := of_nat (length c)\<rparr>"
  from Cons.prems(1) obtain dk1 where p: "local_Put X ?f dk = (None, dk1)"
    and r: "put_chunks X f (length (c @ a)) cs dk1 = (None, dk')"
    by (auto split: prod.splits option.splits)
  have len: "length c < 2 ^ 64" using Cons.prems(3) by simp
  note st = put_at_end [of ?f X dk c dk1, simplified, OF assms Cons.prems(2) len [simplified] p]
  have "content_of (abs_path X (fst_SavePath f)) dk1 = c @ a" using st(1) by (simp add: content_of_def)
  from Cons.IH [OF r this] Cons.prems(3) st(2) show ?case by simp
qed

section \<open>Properties\<close>

text \<open>
  C29. Chunks that are all stored, each appended at the end of the one before it, to a file that
  is not there or is empty, make a file whose content is the chunks in order; no other file
  changes.
\<close>

theorem chunks_make_the_file:
  assumes "has_mode (fst_Mode f) Append" and "content_of (abs_path X (fst_SavePath f)) dk = []"
    and "length (concat chunks) < 2 ^ 64" and "put_chunks X f 0 chunks dk = (None, dk')"
  shows "content_of (abs_path X (fst_SavePath f)) dk' = concat chunks \<and>
    (\<forall>q b. q \<noteq> abs_path X (fst_SavePath f) \<longrightarrow> dk q = Some (FileNode b) \<longrightarrow> dk' q = Some (FileNode b))"
  using put_chunks_content [OF assms(1), of X "[]" chunks dk dk'] assms(2-4) by simp

definition srv_os :: os where
  "srv_os = \<lparr>abs_path = (\<lambda>n. ''/srv/'' @ n), refuses = (\<lambda>a p. False), copy_fails = (\<lambda>p d. None)\<rparr>"

definition chunk_stream :: file_stream where
  "chunk_stream = zero_stream\<lparr>fst_Mode := 3, fst_SavePath := ''f''\<rparr>"

definition srv_disk :: disk where
  "srv_disk = [''/'' \<mapsto> DirNode, ''/srv'' \<mapsto> DirNode]"

lemma srv_dir: "pathDir ''/srv/f'' = ''/srv''"
  by (simp add: pathDir_def pathClean_def isRooted_def cleanElems_def cleanStep_def)

lemmas srv_simps = srv_os_def chunk_stream_def zero_stream_def srv_disk_def local_Put_def put_append_def io_Copy_def
  has_mode_def Append_def Overwrite_def Exist_def OpenCreate_def srv_dir

theorem chunks_make_the_file_witness:
  "\<exists>dk'. put_chunks srv_os chunk_stream 0 [''ab'', ''c''] srv_disk = (None, dk') \<and> content_of ''/srv/f'' dk' = ''abc''"
proof -
  have "fst (put_chunks srv_os chunk_stream 0 [''ab'', ''c''] srv_disk) = None"
    by (simp add: srv_simps Let_def)
  then obtain dk' where r: "put_chunks srv_os chunk_stream 0 [''ab'', ''c''] srv_disk = (None, dk')"
    by (metis prod.collapse)
  have "content_of (abs_path srv_os (fst_SavePath chunk_stream)) dk' = concat [''ab'', ''c'']"
    by (rule chunks_make_the_file [OF _ _ _ r, THEN conjunct1])
       (simp_all add: srv_simps content_of_def)
  then show ?thesis using r by (simp add: srv_os_def chunk_stream_def)
qed

text \<open>
  A chunk that is sent again does not replace what was stored from its start on: when the
  file is longer than the start of a chunk that is not empty, storing the chunk fails.
\<close>

theorem chunk_again_fails:
  assumes "has_mode (fst_Mode f) Append" and "dk (abs_path X (fst_SavePath f)) = Some (FileNode c)"
    and "length c < 2 ^ 64" and "unat (fst_AppendStart f) < length c" and "fst_File f \<noteq> []"
  shows "fst (local_Put X f dk) \<noteq> None"
proof -
  let ?dst = "abs_path X (fst_SavePath f)"
  have lt: "fst_AppendStart f < (of_nat (length c) :: u64)"
    using assms(3,4) by (simp add: u64_less_iff unat_of_nat_small)
  obtain ok dk1 where m: "(if Exist (pathDir ?dst) dk then (True, dk) else MkdirAll X (pathDir ?dst) dk) = (ok, dk1)"
    by fastforce
  have "dk1 ?dst = Some (FileNode c)"
    using m MkdirAll_files [of X "pathDir ?dst" dk ok dk1 ?dst c] assms(2) by (auto split: if_splits)
  then have o: "OpenCreate X ?dst dk1 = None \<or> OpenCreate X ?dst dk1 = Some c" by (simp add: OpenCreate_def)
  have "fst (put_append X ?dst c f dk1) \<noteq> None"
    using lt assms(5) by (auto simp: put_append_def Let_def split: prod.splits option.splits)
  then show ?thesis using o m assms(1) by (auto simp: local_Put_def Let_def split: if_splits)
qed

theorem chunk_again_fails_witness:
  "fst (local_Put srv_os (chunk_stream\<lparr>fst_File := ''xy'', fst_AppendStart := 1\<rparr>)
     (srv_disk(''/srv/f'' \<mapsto> FileNode ''abc''))) \<noteq> None"
  by (rule chunk_again_fails [of _ _ _ "''abc''"]) (simp_all add: srv_simps)

end
