(* ===== verification/LockHeap.thy ===== *)
theory LockHeap
  imports GoLib
begin

text \<open>
  \<open>pkg/webdav/lock.go\<close>: the nodes of the in-memory lock system and its queue \<open>byExpiry\<close>, a
  binary heap in an array kept by \<open>container/heap\<close>.

  A node is a heap object: \<open>store\<close> maps its address to its fields, \<open>brk\<close> is the next free
  address; the two name maps and the queue hold addresses. Times are integers, a negative
  duration is infinite. \<open>heap_Push\<close>, \<open>heap_Remove\<close>, \<open>heap_up\<close> and \<open>heap_down\<close> are the standard
  library's \<open>Push\<close>, \<open>Remove\<close>, \<open>up\<close> and \<open>down\<close> on this queue.
\<close>

type_synonym addr = nat

record lock_details =
  lk_Root :: gostring
  lk_Duration :: int
  lk_OwnerXML :: gostring
  lk_ZeroDepth :: bool

record memLSNode =
  details :: lock_details
  token :: gostring
  refCount :: int
  expiry :: int
  byExpiryIndex :: int
  held :: bool

record memLS =
  store :: "addr \<Rightarrow> memLSNode"
  brk :: addr
  byName :: "gostring \<rightharpoonup> addr"
  byToken :: "gostring \<rightharpoonup> addr"
  gen :: u64
  byExpiry :: "addr list"

definition zero_details :: lock_details where
  "zero_details = \<lparr>lk_Root = [], lk_Duration = 0, lk_OwnerXML = [], lk_ZeroDepth = False\<rparr>"

definition zero_node :: memLSNode where
  "zero_node = \<lparr>details = zero_details, token = [], refCount = 0, expiry = 0,
     byExpiryIndex = -1, held = False\<rparr>"

text \<open>Writing a field of a node.\<close>

definition upd :: "addr \<Rightarrow> (memLSNode \<Rightarrow> memLSNode) \<Rightarrow> memLS \<Rightarrow> memLS" where
  "upd a f m = m\<lparr>store := (store m)(a := f (store m a))\<rparr>"

section \<open>The methods of byExpiry\<close>

definition heap_Less :: "memLS \<Rightarrow> nat \<Rightarrow> nat \<Rightarrow> bool" where
  "heap_Less m i j \<longleftrightarrow> expiry (store m (byExpiry m ! i)) < expiry (store m (byExpiry m ! j))"

definition heap_Swap :: "nat \<Rightarrow> nat \<Rightarrow> memLS \<Rightarrow> memLS" where
  "heap_Swap i j m =
     (let b = (byExpiry m)[i := byExpiry m ! j, j := byExpiry m ! i]
      in upd (b ! j) (\<lambda>n. n\<lparr>byExpiryIndex := int j\<rparr>)
           (upd (b ! i) (\<lambda>n. n\<lparr>byExpiryIndex := int i\<rparr>) (m\<lparr>byExpiry := b\<rparr>)))"

definition byExpiry_Push :: "addr \<Rightarrow> memLS \<Rightarrow> memLS" where
  "byExpiry_Push a m =
     (upd a (\<lambda>n. n\<lparr>byExpiryIndex := int (length (byExpiry m))\<rparr>) m)\<lparr>byExpiry := byExpiry m @ [a]\<rparr>"

definition byExpiry_Pop :: "memLS \<Rightarrow> memLS" where
  "byExpiry_Pop m =
     (upd (last (byExpiry m)) (\<lambda>n. n\<lparr>byExpiryIndex := -1\<rparr>) m)\<lparr>byExpiry := butlast (byExpiry m)\<rparr>"

section \<open>container/heap\<close>

definition par :: "nat \<Rightarrow> nat" where
  "par k = (k - 1) div 2"

lemma par_less: "0 < k \<Longrightarrow> par k < k"
  by (simp add: par_def)

lemma par_le: "par k \<le> k"
  using par_less [of k] by (cases "k = 0") (simp_all add: par_def)

lemma par_eq: "0 < c \<Longrightarrow> par c = i \<longleftrightarrow> c = 2 * i + 1 \<or> c = 2 * i + 2"
  unfolding par_def by linarith

function heap_up :: "nat \<Rightarrow> memLS \<Rightarrow> memLS" where
  "heap_up j m =
     (let i = par j in if i = j \<or> \<not> heap_Less m j i then m else heap_up i (heap_Swap i j m))"
  by pat_completeness auto
termination
  by (relation "measure fst") (auto simp: Let_def order_less_le par_le)

declare heap_up.simps [simp del]

text \<open>
  The smaller child, where there is one. The first component of \<open>heap_down\<close> is the final
  position; \<open>down\<close> reports whether it moved.
\<close>

definition heap_child :: "memLS \<Rightarrow> nat \<Rightarrow> nat \<Rightarrow> nat" where
  "heap_child m n i =
     (let j1 = 2 * i + 1; j2 = j1 + 1 in if j2 < n \<and> heap_Less m j2 j1 then j2 else j1)"

lemma heap_child_less: "i < heap_child m n i"
  by (simp add: heap_child_def Let_def)

lemma heap_child_bound: "2 * i + 1 < n \<Longrightarrow> heap_child m n i < n"
  by (simp add: heap_child_def Let_def)

function heap_down :: "nat \<Rightarrow> nat \<Rightarrow> memLS \<Rightarrow> nat \<times> memLS" where
  "heap_down i n m =
     (if n \<le> 2 * i + 1 then (i, m)
      else if \<not> heap_Less m (heap_child m n i) i then (i, m)
      else heap_down (heap_child m n i) n (heap_Swap i (heap_child m n i) m))"
  by pat_completeness auto
termination
  using heap_child_less
  by (relation "measure (\<lambda>(i, n, m). n - i)") (auto intro!: diff_less_mono2)

declare heap_down.simps [simp del]

lemma heap_down_stop:
  "n \<le> 2 * i + 1 \<or> \<not> heap_Less m (heap_child m n i) i \<Longrightarrow> heap_down i n m = (i, m)"
  by (subst heap_down.simps) auto

lemma heap_down_go:
  "\<not> n \<le> 2 * i + 1 \<Longrightarrow> heap_Less m (heap_child m n i) i \<Longrightarrow>
   heap_down i n m = heap_down (heap_child m n i) n (heap_Swap i (heap_child m n i) m)"
  by (subst heap_down.simps) (simp only: if_False not_not if_True not_True_eq_False)

definition heap_Push :: "addr \<Rightarrow> memLS \<Rightarrow> memLS" where
  "heap_Push a m = (let m1 = byExpiry_Push a m in heap_up (length (byExpiry m1) - 1) m1)"

definition heap_Remove :: "nat \<Rightarrow> memLS \<Rightarrow> memLS" where
  "heap_Remove i m =
     (let n = length (byExpiry m) - 1;
          m1 = (if n \<noteq> i then
                  let (i', m') = heap_down i n (heap_Swap i n m)
                  in if i' > i then m' else heap_up i m'
                else m)
      in byExpiry_Pop m1)"

section \<open>The indices\<close>

text \<open>Every node in the queue knows its position, every other node has the index -1.\<close>

definition indexed :: "memLS \<Rightarrow> bool" where
  "indexed m \<longleftrightarrow> distinct (byExpiry m) \<and>
     (\<forall>k<length (byExpiry m). byExpiryIndex (store m (byExpiry m ! k)) = int k) \<and>
     (\<forall>a. a \<notin> set (byExpiry m) \<longrightarrow> byExpiryIndex (store m a) = -1)"

text \<open>What the heap operations leave alone: everything but the queue and the indices.\<close>

definition same_nodes :: "memLS \<Rightarrow> memLS \<Rightarrow> bool" where
  "same_nodes m m' \<longleftrightarrow>
     brk m' = brk m \<and> byName m' = byName m \<and> byToken m' = byToken m \<and> gen m' = gen m \<and>
     (\<forall>a. (store m' a)\<lparr>byExpiryIndex := 0\<rparr> = (store m a)\<lparr>byExpiryIndex := 0\<rparr>)"

lemma same_nodes_refl [simp]: "same_nodes m m"
  by (simp add: same_nodes_def)

lemma same_nodes_trans: "same_nodes m m' \<Longrightarrow> same_nodes m' m'' \<Longrightarrow> same_nodes m m''"
  by (simp add: same_nodes_def)

lemma node_eqI:
  "(n :: memLSNode)\<lparr>byExpiryIndex := 0\<rparr> = n'\<lparr>byExpiryIndex := 0\<rparr> \<Longrightarrow>
   details n = details n' \<and> token n = token n' \<and> refCount n = refCount n' \<and> expiry n = expiry n' \<and>
   held n = held n'"
  by (cases n; cases n') simp

lemma same_nodesD:
  assumes "same_nodes m m'"
  shows "brk m' = brk m" "byName m' = byName m" "byToken m' = byToken m" "gen m' = gen m"
    "details (store m' a) = details (store m a)" "token (store m' a) = token (store m a)"
    "refCount (store m' a) = refCount (store m a)" "expiry (store m' a) = expiry (store m a)"
    "held (store m' a) = held (store m a)"
  using assms node_eqI unfolding same_nodes_def by blast+

lemma swap_fields:
  "byExpiry (heap_Swap i j m) = (byExpiry m)[i := byExpiry m ! j, j := byExpiry m ! i]"
  by (simp add: heap_Swap_def upd_def Let_def)

lemma swap_same [simp]: "same_nodes m (heap_Swap i j m)"
  by (simp add: heap_Swap_def upd_def Let_def same_nodes_def)

lemma swap_length [simp]: "length (byExpiry (heap_Swap i j m)) = length (byExpiry m)"
  by (simp add: swap_fields)

lemma swap_set:
  "i < length (byExpiry m) \<Longrightarrow> j < length (byExpiry m) \<Longrightarrow> mset (byExpiry (heap_Swap i j m)) = mset (byExpiry m)"
  by (simp add: swap_fields mset_swap)

lemma swap_nth:
  assumes "i < length (byExpiry m)" "j < length (byExpiry m)" "k < length (byExpiry m)"
  shows "byExpiry (heap_Swap i j m) ! k =
    byExpiry m ! (if k = i then j else if k = j then i else k)"
  using assms by (simp add: swap_fields nth_list_update)

lemma swap_indexed:
  assumes "indexed m" and "i < length (byExpiry m)" and "j < length (byExpiry m)"
  shows "indexed (heap_Swap i j m)"
proof -
  let ?b = "byExpiry m" and ?b' = "byExpiry (heap_Swap i j m)"
  have ms: "mset ?b' = mset ?b" using assms(2,3) by (rule swap_set)
  then have d: "distinct ?b'" and s: "set ?b' = set ?b"
    using assms(1) mset_eq_imp_distinct_iff mset_eq_setD unfolding indexed_def by blast+
  have st: "store (heap_Swap i j m) a =
      (if a = ?b' ! j then (store m a)\<lparr>byExpiryIndex := int j\<rparr>
       else if a = ?b' ! i then (store m a)\<lparr>byExpiryIndex := int i\<rparr> else store m a)" for a
    by (simp add: heap_Swap_def upd_def Let_def)
  have ij: "?b' ! i \<in> set ?b" "?b' ! j \<in> set ?b"
    using assms(2,3) s by (metis nth_mem swap_length)+
  have "byExpiryIndex (store (heap_Swap i j m) (?b' ! k)) = int k" if k: "k < length ?b'" for k
  proof (cases "k = i \<or> k = j")
    case True
    then show ?thesis using d k assms(2,3) by (auto simp: st nth_eq_iff_index_eq)
  next
    case False
    then have "?b' ! k \<noteq> ?b' ! i" "?b' ! k \<noteq> ?b' ! j"
      using d k assms(2,3) by (simp_all add: nth_eq_iff_index_eq)
    moreover have "?b' ! k = ?b ! k" using False k assms(2,3) by (simp add: swap_nth)
    ultimately show ?thesis using assms(1) k by (simp add: st indexed_def)
  qed
  moreover have "byExpiryIndex (store (heap_Swap i j m) a) = -1" if "a \<notin> set ?b'" for a
    using that ij s assms(1) by (auto simp: st indexed_def)
  ultimately show ?thesis using d by (simp add: indexed_def)
qed

section \<open>The heap order\<close>

definition key :: "memLS \<Rightarrow> nat \<Rightarrow> int" where
  "key m k = expiry (store m (byExpiry m ! k))"

text \<open>The order on the first \<open>n\<close> positions, and the order but for the node at \<open>i\<close>.\<close>

definition heap_ordered :: "nat \<Rightarrow> memLS \<Rightarrow> bool" where
  "heap_ordered n m \<longleftrightarrow> (\<forall>k. 0 < k \<and> k < n \<longrightarrow> key m (par k) \<le> key m k)"

definition ordered_but :: "nat \<Rightarrow> nat \<Rightarrow> memLS \<Rightarrow> bool" where
  "ordered_but i n m \<longleftrightarrow>
     (\<forall>k. 0 < k \<and> k < n \<and> k \<noteq> i \<and> par k \<noteq> i \<longrightarrow> key m (par k) \<le> key m k) \<and>
     (\<forall>c. 0 < c \<and> c < n \<and> par c = i \<and> 0 < i \<longrightarrow> key m (par i) \<le> key m c)"

definition below_ok :: "nat \<Rightarrow> nat \<Rightarrow> memLS \<Rightarrow> bool" where
  "below_ok i n m \<longleftrightarrow> (\<forall>c. 0 < c \<and> c < n \<and> par c = i \<longrightarrow> key m i \<le> key m c)"

definition above_ok :: "nat \<Rightarrow> memLS \<Rightarrow> bool" where
  "above_ok i m \<longleftrightarrow> (0 < i \<longrightarrow> key m (par i) \<le> key m i)"

lemma heap_ordered_split:
  assumes "ordered_but i n m" and "below_ok i n m" and "above_ok i m"
  shows "heap_ordered n m"
  unfolding heap_ordered_def
proof (intro allI impI)
  fix k assume "0 < k \<and> k < n"
  then show "key m (par k) \<le> key m k"
    using assms unfolding ordered_but_def below_ok_def above_ok_def
    by (cases "k = i"; cases "par k = i") simp_all
qed

lemma heap_ordered_but:
  assumes "heap_ordered n m"
  shows "ordered_but i n m"
  unfolding ordered_but_def
proof (intro conjI allI impI)
  fix k assume "0 < k \<and> k < n \<and> k \<noteq> i \<and> par k \<noteq> i"
  then show "key m (par k) \<le> key m k" using assms by (simp add: heap_ordered_def)
next
  fix c assume c: "0 < c \<and> c < n \<and> par c = i \<and> 0 < i"
  then have "i < n" using par_le [of c] by linarith
  with c assms have "key m (par i) \<le> key m i" "key m (par c) \<le> key m c"
    unfolding heap_ordered_def by blast+
  with c show "key m (par i) \<le> key m c" by simp
qed

lemma heap_Less_key: "heap_Less m i j \<longleftrightarrow> key m i < key m j"
  by (simp add: heap_Less_def key_def)

lemma swap_key:
  assumes "i < length (byExpiry m)" "j < length (byExpiry m)" "k < length (byExpiry m)"
  shows "key (heap_Swap i j m) k = key m (if k = i then j else if k = j then i else k)"
  using swap_nth [OF assms] same_nodesD(8) [OF swap_same, of i j m] by (simp add: key_def)

text \<open>Sifting up restores the order when the node and those below it are in order.\<close>

lemma heap_up_spec:
  assumes "indexed m" and "j < n" and "ordered_but j n m" and "below_ok j n m"
    and "n \<le> length (byExpiry m)"
  shows "indexed (heap_up j m) \<and> same_nodes m (heap_up j m)
    \<and> mset (byExpiry (heap_up j m)) = mset (byExpiry m)
    \<and> drop n (byExpiry (heap_up j m)) = drop n (byExpiry m) \<and> heap_ordered n (heap_up j m)"
  using assms
proof (induction j arbitrary: m rule: less_induct)
  case (less j)
  let ?i = "par j"
  show ?case
  proof (cases "?i = j \<or> \<not> heap_Less m j ?i")
    case True
    then have "heap_up j m = m" by (simp add: heap_up.simps [of j m] Let_def)
    moreover have "above_ok j m" using True by (auto simp: above_ok_def heap_Less_key)
    ultimately show ?thesis
      using less.prems heap_ordered_split by simp
  next
    case False
    let ?m = "heap_Swap ?i j m"
    from False have ij: "?i < j" "key m j < key m ?i"
      using par_le [of j] by (auto simp: heap_Less_key)
    then have i: "?i < n" using less.prems(2) by linarith
    then have il: "?i < length (byExpiry m)" and jl: "j < length (byExpiry m)"
      using less.prems(2,5) by simp_all
    have k: "key ?m k = key m (if k = ?i then j else if k = j then ?i else k)" if "k < n" for k
      using swap_key [OF il jl] that less.prems(5) by simp
    have up: "heap_up j m = heap_up ?i ?m"
      using False by (simp add: heap_up.simps [of j m] Let_def)
    have pk: "par k < n" if "k < n" for k using that par_le [of k] by linarith
    have "ordered_but ?i n ?m"
      unfolding ordered_but_def
    proof (intro conjI allI impI)
      fix c assume c: "0 < c \<and> c < n \<and> c \<noteq> ?i \<and> par c \<noteq> ?i"
      then have "c \<noteq> j" by auto
      show "key ?m (par c) \<le> key ?m c"
      proof (cases "par c = j")
        case True
        then have "key m ?i \<le> key m c"
          using less.prems(3) c ij unfolding ordered_but_def by auto
        then show ?thesis using True c \<open>c \<noteq> j\<close> ij less.prems(2) by (simp add: k)
      next
        case False
        then have "key m (par c) \<le> key m c"
          using less.prems(3) c \<open>c \<noteq> j\<close> unfolding ordered_but_def by blast
        then show ?thesis using False c \<open>c \<noteq> j\<close> pk [of c] by (simp add: k)
      qed
    next
      fix c assume c: "0 < c \<and> c < n \<and> par c = ?i \<and> 0 < ?i"
      have pi: "key m (par ?i) \<le> key m ?i"
        using less.prems(3) c i ij unfolding ordered_but_def by auto
      have ne: "par ?i \<noteq> ?i" "par ?i \<noteq> j" "c \<noteq> ?i"
        using c ij par_less [of ?i] par_less [of c] by auto
      have "key m ?i \<le> key m c" if "c \<noteq> j"
        using less.prems(3) c ij that unfolding ordered_but_def by (metis nat_less_le)
      then show "key ?m (par ?i) \<le> key ?m c"
        using pi ne c i pk [OF i] less.prems(2) by (cases "c = j") (auto simp: k)
    qed
    moreover have "below_ok ?i n ?m"
      unfolding below_ok_def
    proof (intro allI impI)
      fix c assume c: "0 < c \<and> c < n \<and> par c = ?i"
      then have ne: "c \<noteq> ?i" using par_less [of c] by auto
      have "key m ?i \<le> key m c" if "c \<noteq> j"
        using less.prems(3) c ij that unfolding ordered_but_def by (metis nat_less_le)
      then show "key ?m ?i \<le> key ?m c"
        using ij c i ne by (cases "c = j") (auto simp: k)
    qed
    moreover have "indexed ?m" by (rule swap_indexed [OF less.prems(1) il jl])
    ultimately have "indexed (heap_up ?i ?m) \<and> same_nodes ?m (heap_up ?i ?m)
        \<and> mset (byExpiry (heap_up ?i ?m)) = mset (byExpiry ?m)
        \<and> drop n (byExpiry (heap_up ?i ?m)) = drop n (byExpiry ?m) \<and> heap_ordered n (heap_up ?i ?m)"
      using less.IH [OF ij(1), of ?m] i less.prems(5) by simp
    moreover have "drop n (byExpiry ?m) = drop n (byExpiry m)"
      using i less.prems(2) by (simp add: swap_fields drop_update_cancel)
    ultimately show ?thesis
      using up swap_set [OF il jl] same_nodes_trans [OF swap_same [of m ?i j]] by simp
  qed
qed

lemma heap_down_ge: "heap_down i n m = (i', m') \<Longrightarrow> i \<le> i'"
proof (induction "n - i" arbitrary: i m rule: less_induct)
  case less
  let ?j = "heap_child m n i"
  show ?case
  proof (cases "n \<le> 2 * i + 1 \<or> \<not> heap_Less m ?j i")
    case True
    with less.prems heap_down_stop show ?thesis by simp
  next
    case False
    then have "heap_down ?j n (heap_Swap i ?j m) = (i', m')"
      using less.prems heap_down_go by simp
    moreover have "i < ?j" "n - ?j < n - i"
      using False heap_child_less [of i m n] by (auto intro: diff_less_mono2)
    ultimately show ?thesis using less.hyps [of ?j "heap_Swap i ?j m"] by simp
  qed
qed

text \<open>Sifting down: either the node stays and those below it are in order, or all are.\<close>

lemma heap_down_spec:
  assumes "indexed m" and "i < length (byExpiry m)" and "n \<le> length (byExpiry m)"
    and "ordered_but i n m" and "heap_down i n m = (i', m')"
  shows "indexed m' \<and> same_nodes m m' \<and> mset (byExpiry m') = mset (byExpiry m)
    \<and> drop n (byExpiry m') = drop n (byExpiry m)
    \<and> (if i' > i then heap_ordered n m' else m' = m \<and> below_ok i n m)"
  using assms
proof (induction "n - i" arbitrary: i m rule: less_induct)
  case less
  let ?j1 = "2 * i + 1"
  define j where "j = heap_child m n i"
  have child: "c = ?j1 \<or> c = ?j1 + 1" if "0 < c" "par c = i" for c
    using par_eq [OF that(1)] that(2) by auto
  show ?case
  proof (cases "n \<le> ?j1")
    case True
    have "\<not> c < n" if "0 < c" "par c = i" for c using child [OF that] True by auto
    then have "below_ok i n m" by (auto simp: below_ok_def)
    then show ?thesis using less.prems True by (simp add: heap_down_stop)
  next
    case False
    then have j: "j < n" "i < j" "par j = i" "0 < j" by (auto simp: j_def heap_child_def Let_def par_def)
    have min: "key m j \<le> key m c" if "0 < c" "par c = i" "c < n" for c
      using child [OF that(1,2)] that(3) by (auto simp: j_def heap_child_def Let_def heap_Less_key)
    show ?thesis
    proof (cases "heap_Less m j i")
      case no: False
      then have "key m i \<le> key m j" by (simp add: heap_Less_key)
      then have "key m i \<le> key m c" if "0 < c" "par c = i" "c < n" for c
        using min [OF that] by simp
      then have "below_ok i n m" by (simp add: below_ok_def)
      moreover have "heap_down i n m = (i, m)"
        using no by (simp add: heap_down_stop j_def)
      ultimately show ?thesis using less.prems by simp
    next
      case yes: True
      let ?m = "heap_Swap i j m"
      have i: "i < length (byExpiry m)" and jl: "j < length (byExpiry m)"
        using less.prems(2,3) j(1) by simp_all
      have k: "key ?m k = key m (if k = i then j else if k = j then i else k)" if "k < n" for k
        using swap_key [OF i jl] that less.prems(3) by simp
      have lt: "key m j < key m i" using yes by (simp add: heap_Less_key)
      have down: "heap_down j n ?m = (i', m')"
        using False yes less.prems(5) by (simp add: heap_down_go j_def)
      have but: "ordered_but j n ?m"
        unfolding ordered_but_def
      proof (intro conjI allI impI)
        fix c assume c: "0 < c \<and> c < n \<and> c \<noteq> j \<and> par c \<noteq> j"
        then have pc: "par c < n" using par_le [of c] by linarith
        show "key ?m (par c) \<le> key ?m c"
        proof (cases "c = i")
          case True
          then have "key m (par i) \<le> key m j"
            using less.prems(4) c j unfolding ordered_but_def by blast
          moreover have "par c \<noteq> i" using True c par_less [of c] by auto
          ultimately show ?thesis using True c pc by (simp add: k)
        next
          case ci: False
          show ?thesis
          proof (cases "par c = i")
            case True
            then show ?thesis using c ci min [of c] pc by (simp add: k)
          next
            case False
            then have "key m (par c) \<le> key m c"
              using less.prems(4) c ci unfolding ordered_but_def by blast
            then show ?thesis using False c ci pc by (simp add: k)
          qed
        qed
      next
        fix c assume c: "0 < c \<and> c < n \<and> par c = j \<and> 0 < j"
        then have ne: "c \<noteq> i" "c \<noteq> j" using j(2) par_less [of c] by auto
        have "key m (par c) \<le> key m c"
          using less.prems(4) c ne j(2) unfolding ordered_but_def by (metis nat_less_le)
        then show "key ?m (par j) \<le> key ?m c"
          using c ne j by (simp add: k)
      qed
      have above: "above_ok j ?m"
        using j lt by (simp add: above_ok_def k)
      have "n - j < n - i" using j by simp
      from less.hyps [OF this swap_indexed [OF less.prems(1) i jl] _ _ but down]
      have r: "indexed m' \<and> same_nodes ?m m' \<and> mset (byExpiry m') = mset (byExpiry ?m)
          \<and> drop n (byExpiry m') = drop n (byExpiry ?m)
          \<and> (if i' > j then heap_ordered n m' else m' = ?m \<and> below_ok j n ?m)"
        using jl less.prems(3) by simp
      have "heap_ordered n m'"
        using r heap_ordered_split [OF but _ above] by (cases "i' > j") auto
      moreover have "i < i'" using heap_down_ge [OF down] j(2) by simp
      moreover have "drop n (byExpiry ?m) = drop n (byExpiry m)"
        using j less.prems(3) by (simp add: swap_fields drop_update_cancel)
      ultimately show ?thesis
        using r swap_set [OF i jl] same_nodes_trans [OF swap_same [of m i j]] by simp
    qed
  qed
qed

section \<open>Push and Remove\<close>

definition queue_ok :: "memLS \<Rightarrow> bool" where
  "queue_ok m \<longleftrightarrow> indexed m \<and> heap_ordered (length (byExpiry m)) m"

lemma queue_distinct: "queue_ok m \<Longrightarrow> distinct (byExpiry m)"
  by (simp add: queue_ok_def indexed_def)

lemma queue_index:
  assumes "queue_ok m"
  shows "byExpiryIndex (store m a) \<ge> 0 \<longleftrightarrow> a \<in> set (byExpiry m)"
    and "a \<in> set (byExpiry m) \<Longrightarrow> nat (byExpiryIndex (store m a)) < length (byExpiry m)"
    and "a \<in> set (byExpiry m) \<Longrightarrow> byExpiry m ! nat (byExpiryIndex (store m a)) = a"
  using assms by (auto simp: queue_ok_def indexed_def in_set_conv_nth)

text \<open>The first node of the queue is one that expires first.\<close>

lemma queue_min:
  assumes "queue_ok m" and "a \<in> set (byExpiry m)"
  shows "expiry (store m (byExpiry m ! 0)) \<le> expiry (store m a)"
proof -
  have "k < length (byExpiry m) \<Longrightarrow> key m 0 \<le> key m k" for k
  proof (induction k rule: less_induct)
    case (less k)
    show ?case
    proof (cases "k = 0")
      case False
      then have p: "par k < k" by (intro par_less) simp
      then have "key m 0 \<le> key m (par k)" using less by simp
      also have "\<dots> \<le> key m k"
        using assms(1) False less.prems by (simp add: queue_ok_def heap_ordered_def)
      finally show ?thesis .
    qed simp
  qed
  then show ?thesis using assms(2) by (auto simp: key_def in_set_conv_nth)
qed

lemma heap_ordered_mono: "heap_ordered n m \<Longrightarrow> k \<le> n \<Longrightarrow> heap_ordered k m"
  by (simp add: heap_ordered_def)

lemma heap_Push_spec:
  assumes "queue_ok m" and "a \<notin> set (byExpiry m)"
  shows "queue_ok (heap_Push a m) \<and> same_nodes m (heap_Push a m)
    \<and> set (byExpiry (heap_Push a m)) = insert a (set (byExpiry m))"
proof -
  let ?n = "length (byExpiry m)" and ?m = "byExpiry_Push a m"
  have b: "byExpiry ?m = byExpiry m @ [a]" by (simp add: byExpiry_Push_def)
  have st: "store ?m = (store m)(a := (store m a)\<lparr>byExpiryIndex := int ?n\<rparr>)"
    by (simp add: byExpiry_Push_def upd_def)
  have same: "same_nodes m ?m" by (simp add: same_nodes_def byExpiry_Push_def upd_def)
  have idx: "indexed ?m"
    using assms by (auto simp: indexed_def queue_ok_def b st nth_append)
  have key: "key ?m k = key m k" if "k < ?n" for k
    using that same_nodesD(8) [OF same] by (simp add: key_def b nth_append)
  have p: "par k < ?n" if "k < Suc ?n" "0 < k" for k using par_less [OF that(2)] that(1) by simp
  have "ordered_but ?n (Suc ?n) ?m"
    unfolding ordered_but_def
  proof (intro conjI allI impI)
    fix k assume "0 < k \<and> k < Suc ?n \<and> k \<noteq> ?n \<and> par k \<noteq> ?n"
    then show "key ?m (par k) \<le> key ?m k"
      using assms(1) p [of k] by (simp add: key queue_ok_def heap_ordered_def)
  next
    fix c assume "0 < c \<and> c < Suc ?n \<and> par c = ?n \<and> 0 < ?n"
    then show "key ?m (par ?n) \<le> key ?m c" using p [of c] by simp
  qed
  moreover have "below_ok ?n (Suc ?n) ?m"
    unfolding below_ok_def using p by fastforce
  ultimately have r: "indexed (heap_up ?n ?m) \<and> same_nodes ?m (heap_up ?n ?m)
      \<and> mset (byExpiry (heap_up ?n ?m)) = mset (byExpiry ?m) \<and> heap_ordered (Suc ?n) (heap_up ?n ?m)"
    using heap_up_spec [OF idx, of ?n "Suc ?n"] by (simp add: b)
  moreover have "heap_Push a m = heap_up ?n ?m" by (simp add: heap_Push_def Let_def b)
  moreover have "length (byExpiry (heap_up ?n ?m)) = Suc ?n"
    using r by (metis b length_append_singleton mset_eq_length)
  moreover have "set (byExpiry (heap_up ?n ?m)) = insert a (set (byExpiry m))"
    using r mset_eq_setD [of "byExpiry (heap_up ?n ?m)" "byExpiry ?m"] by (simp add: b)
  ultimately show ?thesis
    using same_nodes_trans [OF same] by (simp add: queue_ok_def)
qed

lemma Pop_spec:
  assumes "indexed m" and "heap_ordered (length (byExpiry m) - 1) m" and "byExpiry m \<noteq> []"
  shows "queue_ok (byExpiry_Pop m) \<and> same_nodes m (byExpiry_Pop m)
    \<and> byExpiry (byExpiry_Pop m) = butlast (byExpiry m)"
proof -
  let ?b = "byExpiry m" and ?m = "byExpiry_Pop m"
  have b: "byExpiry ?m = butlast ?b" by (simp add: byExpiry_Pop_def)
  have st: "store ?m = (store m)(last ?b := (store m (last ?b))\<lparr>byExpiryIndex := -1\<rparr>)"
    by (simp add: byExpiry_Pop_def upd_def)
  have same: "same_nodes m ?m" by (simp add: same_nodes_def byExpiry_Pop_def upd_def)
  obtain xs x where xs: "?b = xs @ [x]" using assms(3) by (metis append_butlast_last_id)
  have old: "byExpiryIndex (store m (xs ! k)) = int k" if "k < length xs" for k
    using assms(1) that unfolding indexed_def xs by (metis length_append_singleton less_SucI nth_append)
  have idx: "indexed ?m"
    using assms(1) old by (auto simp: indexed_def b st xs)
  have "key ?m k = key m k" if "k < length xs" for k
    using that same_nodesD(8) [OF same] by (simp add: key_def b xs nth_append)
  then have "heap_ordered (length xs) ?m"
    using assms(2) par_le unfolding heap_ordered_def xs
    by (metis diff_add_inverse2 length_append_singleton order_le_less_trans Suc_eq_plus1)
  then show ?thesis using idx same by (simp add: queue_ok_def b xs)
qed

lemma heap_Remove_spec:
  assumes "queue_ok m" and "i < length (byExpiry m)"
  shows "queue_ok (heap_Remove i m) \<and> same_nodes m (heap_Remove i m)
    \<and> set (byExpiry (heap_Remove i m)) = set (byExpiry m) - {byExpiry m ! i}"
proof -
  let ?b = "byExpiry m"
  define n where n_def: "n = length ?b - 1"
  have n: "n < length ?b" and len_b: "length ?b = Suc n" using assms(2) by (simp_all add: n_def)
  define m1 where "m1 = (if n \<noteq> i then
      let (i', m') = heap_down i n (heap_Swap i n m) in if i' > i then m' else heap_up i m' else m)"
  have rm: "heap_Remove i m = byExpiry_Pop m1" by (simp add: heap_Remove_def m1_def n_def Let_def)
  have m1: "indexed m1 \<and> same_nodes m m1 \<and> mset (byExpiry m1) = mset ?b
      \<and> last (byExpiry m1) = ?b ! i \<and> heap_ordered n m1"
  proof (cases "n = i")
    case True
    have "?b \<noteq> []" using assms(2) by auto
    then have "m1 = m" "last ?b = ?b ! i" using True by (simp_all add: m1_def last_conv_nth len_b)
    then show ?thesis
      using assms(1) heap_ordered_mono [of "length ?b" m n] n by (simp add: queue_ok_def)
  next
    case False
    let ?s = "heap_Swap i n m"
    obtain i' m' where down: "heap_down i n ?s = (i', m')" by fastforce
    have i: "i < n" using False assms(2) by (simp add: len_b)
    have idx: "indexed ?s" using assms n by (intro swap_indexed) (simp_all add: queue_ok_def)
    have key: "key ?s k = key m k" if "k < n" "k \<noteq> i" for k
      using swap_key [OF assms(2) n, of k] that n by simp
    have "heap_ordered (length ?b) m" using assms(1) by (simp add: queue_ok_def)
    then have but0: "ordered_but i (length ?b) m" by (rule heap_ordered_but)
    have but: "ordered_but i n ?s"
      unfolding ordered_but_def
    proof (intro conjI allI impI)
      fix k assume k: "0 < k \<and> k < n \<and> k \<noteq> i \<and> par k \<noteq> i"
      then have "par k < n" "k < length ?b" using par_le [of k] n by linarith+
      moreover from this have "key m (par k) \<le> key m k" using k but0 unfolding ordered_but_def by blast
      ultimately show "key ?s (par k) \<le> key ?s k" using k by (simp add: key)
    next
      fix c assume c: "0 < c \<and> c < n \<and> par c = i \<and> 0 < i"
      then have "par i < i" "c \<noteq> i" "c < length ?b" using par_less [of i] par_less [of c] n by auto
      moreover from this have "key m (par i) \<le> key m c" using c but0 unfolding ordered_but_def by blast
      ultimately show "key ?s (par i) \<le> key ?s c" using c i by (simp add: key)
    qed
    have last_s: "drop n (byExpiry ?s) = [?b ! i]"
      using swap_nth [OF assms(2) n n] n False by (simp add: Cons_nth_drop_Suc [symmetric] len_b)
    have ms: "mset (byExpiry ?s) = mset ?b" by (rule swap_set [OF assms(2) n])
    from heap_down_spec [OF idx _ _ but down] i
    have d: "indexed m' \<and> same_nodes ?s m' \<and> mset (byExpiry m') = mset (byExpiry ?s)
        \<and> drop n (byExpiry m') = drop n (byExpiry ?s)
        \<and> (if i' > i then heap_ordered n m' else m' = ?s \<and> below_ok i n ?s)" using n assms(2) by simp
    have "indexed m1 \<and> same_nodes ?s m1 \<and> mset (byExpiry m1) = mset (byExpiry ?s)
        \<and> drop n (byExpiry m1) = drop n (byExpiry ?s) \<and> heap_ordered n m1"
    proof (cases "i' > i")
      case True
      then show ?thesis using d False down by (simp add: m1_def)
    next
      case stay: False
      then have "m1 = heap_up i ?s" using d False down by (simp add: m1_def)
      then show ?thesis
        using heap_up_spec [OF idx i but] d stay n by simp
    qed
    moreover from this have "last (byExpiry m1) = ?b ! i"
      using last_s by (metis last_ConsL last_drop drop_eq_Nil list.distinct(1) linorder_not_le)
    ultimately show ?thesis
      using last_s ms same_nodes_trans [OF swap_same [of m i n]] by simp
  qed
  have ne: "byExpiry m1 \<noteq> []" and len: "length (byExpiry m1) = length ?b"
    using m1 assms(2) mset_eq_length [of "byExpiry m1" ?b] by auto
  from Pop_spec [of m1] have pop: "queue_ok (byExpiry_Pop m1) \<and> same_nodes m1 (byExpiry_Pop m1)
      \<and> byExpiry (byExpiry_Pop m1) = butlast (byExpiry m1)"
    using m1 ne len by (simp add: n_def)
  have "distinct (byExpiry m1)" using m1 by (simp add: indexed_def)
  then have "set (butlast (byExpiry m1)) = set (byExpiry m1) - {last (byExpiry m1)}"
    using ne by (cases "byExpiry m1" rule: rev_cases) auto
  then show ?thesis
    unfolding rm using pop m1 same_nodes_trans mset_eq_setD [of "byExpiry m1" ?b] by auto
qed

end
