(* ===== verification/WebdavLock.thy ===== *)
theory WebdavLock
  imports LockHeap "HOL-Library.Sublist"
begin

text \<open>
  \<open>pkg/webdav/lock.go\<close>: the in-memory lock system. \<open>byName\<close> holds a node for every name that
  is locked or has a locked name below it, \<open>byToken\<close> the locked nodes. \<open>None\<close> as the result of
  an operation is a panic (or, for the loop of \<open>collectExpiredNodes\<close>, a call that does not
  return); the lemmas show that neither happens in a reachable state.
\<close>

datatype lock_error = ErrConfirmationFailed | ErrForbidden | ErrLocked | ErrNoSuchLock

record condition =
  cond_Not :: bool
  cond_Token :: gostring
  cond_ETag :: gostring

definition slashClean :: "gostring \<Rightarrow> gostring" where
  "slashClean name = pathClean (if name = [] \<or> hd name \<noteq> CHR ''/'' then CHR ''/'' # name else name)"

section \<open>The walk to the root\<close>

lemma beforeLast_split: "c \<notin> set e \<Longrightarrow> beforeLast c (p @ c # e) = p"
  by (simp add: beforeLast_def dropWhile_append)

lemma beforeLast_shorter:
  assumes "c \<in> set s"
  shows "length (beforeLast c s) < length s" and "s \<noteq> [c] \<Longrightarrow> beforeLast c s = [] \<Longrightarrow> 1 < length s"
proof -
  obtain p e where s: "s = p @ c # e" "c \<notin> set e" using split_list_last [OF assms] by auto
  then show "length (beforeLast c s) < length s" by (simp add: beforeLast_split)
  show "1 < length s" if "s \<noteq> [c]" "beforeLast c s = []"
    using that s by (cases e) (auto simp: beforeLast_split)
qed

text \<open>The callback may panic (\<open>None\<close>), stop the walk (\<open>False\<close>) or go on, and threads a state.\<close>

function walkToRoot ::
  "(gostring \<Rightarrow> bool \<Rightarrow> 's \<Rightarrow> (bool \<times> 's) option) \<Rightarrow> gostring \<Rightarrow> bool \<Rightarrow> 's \<Rightarrow> (bool \<times> 's) option" where
  "walkToRoot f name first s =
     (case f name first s of
        None \<Rightarrow> None
      | Some (go, s') \<Rightarrow>
          (if \<not> go then Some (False, s')
           else if name = ''/'' then Some (True, s')
           else if CHR ''/'' \<notin> set name then None
           else let name' = beforeLast (CHR ''/'') name
                in walkToRoot f (if name' = [] then ''/'' else name') False s'))"
  by pat_completeness auto

termination
proof (relation "measure (\<lambda>(f, name, first, s). length name)", goal_cases)
  case 1
  show ?case by simp
next
  case (2 f name first s r go s' name')
  then show ?case
    using beforeLast_shorter [of "CHR ''/''" name] by auto
qed

declare walkToRoot.simps [simp del]

section \<open>The operations\<close>

definition NewMemLS :: "u64 \<Rightarrow> memLS" where
  "NewMemLS unix = \<lparr>store = (\<lambda>_. zero_node), brk = 0, byName = Map.empty, byToken = Map.empty,
     gen = unix, byExpiry = []\<rparr>"

definition nextToken :: "memLS \<Rightarrow> gostring \<times> memLS" where
  "nextToken m = (let g = gen m + 1 in (formatNat (unat g), m\<lparr>gen := g\<rparr>))"

definition canCreate_visit ::
  "memLS \<Rightarrow> bool \<Rightarrow> gostring \<Rightarrow> bool \<Rightarrow> unit \<Rightarrow> (bool \<times> unit) option" where
  "canCreate_visit m zeroDepth name0 first s =
     (case byName m name0 of
        None \<Rightarrow> Some (True, ())
      | Some a \<Rightarrow>
          (let n = store m a in
           if first then
             (if token n \<noteq> [] then Some (False, ())
              else if \<not> zeroDepth then Some (False, ())
              else Some (True, ()))
           else if token n \<noteq> [] \<and> \<not> lk_ZeroDepth (details n) then Some (False, ())
           else Some (True, ())))"

definition canCreate :: "gostring \<Rightarrow> bool \<Rightarrow> memLS \<Rightarrow> bool option" where
  "canCreate name zeroDepth m = map_option fst (walkToRoot (canCreate_visit m zeroDepth) name True ())"

definition create_visit ::
  "gostring \<Rightarrow> bool \<Rightarrow> memLS \<times> addr \<Rightarrow> (bool \<times> memLS \<times> addr) option" where
  "create_visit name0 first s =
     (case s of (m, ret) \<Rightarrow>
        (let (m1, a) =
           (case byName m name0 of
              Some a \<Rightarrow> (m, a)
            | None \<Rightarrow>
                ((upd (brk m) (\<lambda>_. zero_node\<lparr>details := zero_details\<lparr>lk_Root := name0\<rparr>\<rparr>) m)
                   \<lparr>byName := (byName m)(name0 \<mapsto> brk m), brk := Suc (brk m)\<rparr>, brk m))
         in Some (True, upd a (\<lambda>n. n\<lparr>refCount := refCount n + 1\<rparr>) m1, if first then a else ret)))"

definition create :: "gostring \<Rightarrow> memLS \<Rightarrow> (memLS \<times> addr) option" where
  "create name m = map_option snd (walkToRoot create_visit name True (m, 0))"

definition remove_visit :: "gostring \<Rightarrow> bool \<Rightarrow> memLS \<Rightarrow> (bool \<times> memLS) option" where
  "remove_visit name0 first m =
     (case byName m name0 of
        None \<Rightarrow> None
      | Some x \<Rightarrow>
          (let m1 = upd x (\<lambda>n. n\<lparr>refCount := refCount n - 1\<rparr>) m
           in Some (True,
                if refCount (store m1 x) = 0 then m1\<lparr>byName := (byName m1)(name0 := None)\<rparr> else m1)))"

definition remove :: "addr \<Rightarrow> memLS \<Rightarrow> memLS option" where
  "remove a m =
     (let m1 = upd a (\<lambda>n. n\<lparr>token := []\<rparr>) (m\<lparr>byToken := (byToken m)(token (store m a) := None)\<rparr>)
      in case walkToRoot remove_visit (lk_Root (details (store m1 a))) True m1 of
           None \<Rightarrow> None
         | Some (_, m2) \<Rightarrow>
             Some (if byExpiryIndex (store m2 a) \<ge> 0 then heap_Remove (nat (byExpiryIndex (store m2 a))) m2
                   else m2))"

partial_function (option) collectExpiredNodes :: "int \<Rightarrow> memLS \<Rightarrow> memLS option" where
  "collectExpiredNodes now m =
     (if byExpiry m = [] \<or> now < expiry (store m (byExpiry m ! 0)) then Some m
      else Option.bind (remove (byExpiry m ! 0) m) (\<lambda>m'. collectExpiredNodes now m'))"

fun lookup :: "gostring \<Rightarrow> condition list \<Rightarrow> memLS \<Rightarrow> addr option" where
  "lookup name [] m = None"
| "lookup name (c # conditions) m =
     (case byToken m (cond_Token c) of
        None \<Rightarrow> lookup name conditions m
      | Some a \<Rightarrow>
          (let n = store m a in
           if held n then lookup name conditions m
           else if name = lk_Root (details n) then Some a
           else if lk_ZeroDepth (details n) then lookup name conditions m
           else if lk_Root (details n) = ''/'' \<or> hasPrefix name (lk_Root (details n) @ ''/'') then Some a
           else lookup name conditions m))"

definition hold :: "addr \<Rightarrow> memLS \<Rightarrow> memLS option" where
  "hold a m =
     (if held (store m a) then None
      else
        let m1 = upd a (\<lambda>n. n\<lparr>held := True\<rparr>) m; n = store m1 a
        in Some (if lk_Duration (details n) \<ge> 0 \<and> byExpiryIndex n \<ge> 0
                 then heap_Remove (nat (byExpiryIndex n)) m1 else m1))"

definition unhold :: "addr \<Rightarrow> memLS \<Rightarrow> memLS option" where
  "unhold a m =
     (if \<not> held (store m a) then None
      else
        let m1 = upd a (\<lambda>n. n\<lparr>held := False\<rparr>) m
        in Some (if lk_Duration (details (store m1 a)) \<ge> 0 then heap_Push a m1 else m1))"

definition hold_opt :: "addr option \<Rightarrow> memLS \<Rightarrow> memLS option" where
  "hold_opt n m = (case n of None \<Rightarrow> Some m | Some a \<Rightarrow> hold a m)"

definition unhold_opt :: "addr option \<Rightarrow> memLS \<Rightarrow> memLS option" where
  "unhold_opt n m = (case n of None \<Rightarrow> Some m | Some a \<Rightarrow> unhold a m)"

text \<open>The release function that \<open>Confirm\<close> returns is the pair of nodes it has captured.\<close>

type_synonym release = "addr option \<times> addr option"

definition Confirm ::
  "int \<Rightarrow> gostring \<Rightarrow> gostring \<Rightarrow> condition list \<Rightarrow> memLS \<Rightarrow> ((lock_error + release) \<times> memLS) option" where
  "Confirm now name0 name1 conditions m0 =
     Option.bind (collectExpiredNodes now m0) (\<lambda>m.
       let n0 = (if name0 \<noteq> [] then lookup (slashClean name0) conditions m else None);
           n1 = (if name1 \<noteq> [] then lookup (slashClean name1) conditions m else None)
       in if name0 \<noteq> [] \<and> n0 = None then Some (Inl ErrConfirmationFailed, m)
          else if name1 \<noteq> [] \<and> n1 = None then Some (Inl ErrConfirmationFailed, m)
          else let n1' = (if n1 = n0 then None else n1) in
            Option.bind (hold_opt n0 m) (\<lambda>m1.
            Option.bind (hold_opt n1' m1) (\<lambda>m2.
              Some (Inr (n0, n1'), m2))))"

definition Release :: "release \<Rightarrow> memLS \<Rightarrow> memLS option" where
  "Release r m = Option.bind (unhold_opt (snd r) m) (\<lambda>m1. unhold_opt (fst r) m1)"

definition Create_lock :: "int \<Rightarrow> lock_details \<Rightarrow> memLS \<Rightarrow> ((lock_error + gostring) \<times> memLS) option" where
  "Create_lock now details0 m0 =
     Option.bind (collectExpiredNodes now m0) (\<lambda>m.
       let ds = details0\<lparr>lk_Root := slashClean (lk_Root details0)\<rparr> in
       case canCreate (lk_Root ds) (lk_ZeroDepth ds) m of
         None \<Rightarrow> None
       | Some False \<Rightarrow> Some (Inl ErrLocked, m)
       | Some True \<Rightarrow>
           Option.bind (create (lk_Root ds) m) (\<lambda>(m1, a).
             let (tok, m2) = nextToken m1;
                 m3 = upd a (\<lambda>n. n\<lparr>token := tok\<rparr>) m2;
                 m4 = m3\<lparr>byToken := (byToken m3)(tok \<mapsto> a)\<rparr>;
                 m5 = upd a (\<lambda>n. n\<lparr>details := ds\<rparr>) m4
             in if lk_Duration ds \<ge> 0
                then Some (Inr tok, heap_Push a (upd a (\<lambda>n. n\<lparr>expiry := now + lk_Duration ds\<rparr>) m5))
                else Some (Inr tok, m5)))"

definition Refresh ::
  "int \<Rightarrow> gostring \<Rightarrow> int \<Rightarrow> memLS \<Rightarrow> ((lock_error + lock_details) \<times> memLS) option" where
  "Refresh now tok duration m0 =
     Option.bind (collectExpiredNodes now m0) (\<lambda>m.
       case byToken m tok of
         None \<Rightarrow> Some (Inl ErrNoSuchLock, m)
       | Some a \<Rightarrow>
           (if held (store m a) then Some (Inl ErrLocked, m)
            else
              let m1 = (if byExpiryIndex (store m a) \<ge> 0
                        then heap_Remove (nat (byExpiryIndex (store m a))) m else m);
                  m2 = upd a (\<lambda>n. n\<lparr>details := (details n)\<lparr>lk_Duration := duration\<rparr>\<rparr>) m1;
                  m3 = (if duration \<ge> 0
                        then heap_Push a (upd a (\<lambda>n. n\<lparr>expiry := now + duration\<rparr>) m2) else m2)
              in Some (Inr (details (store m3 a)), m3)))"

definition Unlock :: "int \<Rightarrow> gostring \<Rightarrow> memLS \<Rightarrow> (lock_error option \<times> memLS) option" where
  "Unlock now tok m0 =
     Option.bind (collectExpiredNodes now m0) (\<lambda>m.
       case byToken m tok of
         None \<Rightarrow> Some (Some ErrNoSuchLock, m)
       | Some a \<Rightarrow>
           (if held (store m a) then Some (Some ErrLocked, m)
            else Option.bind (remove a m) (\<lambda>m'. Some (None, m'))))"

end
