(* ===== verification/LockInvariant.thy ===== *)
theory LockInvariant
  imports WebdavLock
begin

text \<open>
  The invariant of the lock system of \<open>WebdavLock\<close>: counts, maps and queue agree with the set
  of locks, and no two locks conflict. The walk to the root visits a name and those above
  it; the loops of \<open>create\<close> and \<open>remove\<close> keep the counts; \<open>remove\<close> and the collection of
  expired locks keep the invariant and do not panic.
\<close>

section \<open>Names\<close>

definition cleanName :: "gostring \<Rightarrow> bool" where
  "cleanName n \<longleftrightarrow> (\<exists>es. list_all cleanElem es \<and> n = pathOf es)"

definition elems :: "gostring \<Rightarrow> gostring list" where
  "elems n = (if n = ''/'' then [] else tl (splitOn (CHR ''/'') n))"

text \<open>The names the walk from \<open>pathOf es\<close> visits.\<close>

definition chain :: "gostring list \<Rightarrow> gostring list" where
  "chain es = map pathOf (rev (prefixes es))"

text \<open>\<open>covers r n\<close>: \<open>r\<close> is \<open>n\<close> or above it.\<close>

definition covers :: "gostring \<Rightarrow> gostring \<Rightarrow> bool" where
  "covers r n \<longleftrightarrow> prefix (elems r) (elems n)"

lemma pathOf_Nil [simp]: "pathOf [] = ''/''"
  by (simp add: pathOf_def)

lemma pathOf_root_iff: "list_all cleanElem es \<Longrightarrow> pathOf es = ''/'' \<longleftrightarrow> es = []"
  using pathOf_inj [of es "[]"] by simp

lemma elems_pathOf [simp]: "list_all cleanElem es \<Longrightarrow> elems (pathOf es) = es"
  by (simp add: elems_def pathOf_root_iff splitOn_pathOf)

lemma cleanName_elems: "cleanName n \<Longrightarrow> list_all cleanElem (elems n) \<and> pathOf (elems n) = n"
  by (auto simp: cleanName_def)

lemma cleanName_pathOf: "list_all cleanElem es \<Longrightarrow> cleanName (pathOf es)"
  by (auto simp: cleanName_def)

lemma cleanName_slashClean: "cleanName (slashClean name)"
proof -
  have "isRooted (if name = [] \<or> hd name \<noteq> CHR ''/'' then CHR ''/'' # name else name)"
    by (cases name) (auto simp: isRooted_def)
  then show ?thesis
    unfolding slashClean_def cleanName_def
    using pathClean_rooted cleanElems_rooted_clean by blast
qed

lemma covers_refl [simp]: "covers n n"
  by (simp add: covers_def)

lemma covers_trans: "covers a b \<Longrightarrow> covers b c \<Longrightarrow> covers a c"
  by (simp add: covers_def)

lemma covers_antisym: "cleanName a \<Longrightarrow> cleanName b \<Longrightarrow> covers a b \<Longrightarrow> covers b a \<Longrightarrow> a = b"
  unfolding covers_def by (metis cleanName_elems prefix_order.antisym)

lemma set_chain:
  "list_all cleanElem es \<Longrightarrow> x \<in> set (chain es) \<longleftrightarrow> cleanName x \<and> covers x (pathOf es)"
  unfolding chain_def covers_def cleanName_def
  by (auto simp: elim!: prefixE) (metis elems_pathOf list_all_append prefixI)+

lemma distinct_chain: "list_all cleanElem es \<Longrightarrow> distinct (chain es)"
proof -
  assume es: "list_all cleanElem es"
  have "list_all cleanElem xs" if "xs \<in> set (prefixes es)" for xs
    using that es by (auto elim: prefixE)
  then have "inj_on pathOf (set (prefixes es))"
    using pathOf_inj by (intro inj_onI) blast
  then show ?thesis by (simp add: chain_def distinct_map distinct_prefixes)
qed

lemma chain_Nil [simp]: "chain [] = [''/'']"
  by (simp add: chain_def)

lemma chain_snoc [simp]: "chain (es @ [e]) = pathOf (es @ [e]) # chain es"
  by (simp add: chain_def)

lemma joinWith_append:
  "xs \<noteq> [] \<Longrightarrow> ys \<noteq> [] \<Longrightarrow> joinWith sep (xs @ ys) = joinWith sep xs @ sep @ joinWith sep ys"
proof (induction xs)
  case (Cons x xs)
  then show ?case by (cases "xs = []") (simp_all add: joinWith_Cons)
qed simp

lemma pathOf_snoc: "pathOf (es @ [e]) = (if es = [] then [] else pathOf es) @ CHR ''/'' # e"
  by (simp add: pathOf_def joinWith_append)

section \<open>The walk visits the chain\<close>

primrec run_walk ::
  "(gostring \<Rightarrow> bool \<Rightarrow> 's \<Rightarrow> (bool \<times> 's) option) \<Rightarrow> gostring list \<Rightarrow> bool \<Rightarrow> 's \<Rightarrow> (bool \<times> 's) option" where
  "run_walk f [] first s = Some (True, s)"
| "run_walk f (x # xs) first s =
     (case f x first s of
        None \<Rightarrow> None
      | Some (go, s') \<Rightarrow> if go then run_walk f xs False s' else Some (False, s'))"

lemma walk_chain:
  "list_all cleanElem es \<Longrightarrow> walkToRoot f (pathOf es) first s = run_walk f (chain es) first s"
proof (induction es arbitrary: first s rule: rev_induct)
  case Nil
  then show ?case by (auto simp: walkToRoot.simps [of f "''/''"] split: option.splits)
next
  case (snoc e es)
  have e: "CHR ''/'' \<notin> set e" and ne: "pathOf (es @ [e]) \<noteq> ''/''"
    using snoc.prems pathOf_root_iff [OF snoc.prems] by (auto simp: cleanElem_def)
  have b: "beforeLast (CHR ''/'') (pathOf (es @ [e])) = (if es = [] then [] else pathOf es)"
    unfolding pathOf_snoc by (rule beforeLast_split [OF e])
  have s: "CHR ''/'' \<in> set (pathOf (es @ [e]))" by (simp add: pathOf_def)
  have p: "(if (if es = [] then [] else pathOf es) = [] then ''/'' else if es = [] then [] else pathOf es) = pathOf es"
    by (simp add: pathOf_def)
  show ?case
    using snoc ne s
    by (simp add: walkToRoot.simps [of f "pathOf (es @ [e])"] b p Let_def split: option.splits prod.splits)
qed

lemma walk_name:
  "cleanName n \<Longrightarrow> walkToRoot f n first s = run_walk f (chain (elems n)) first s"
  by (metis cleanName_elems walk_chain)

lemma chain_name:
  assumes "cleanName n"
  shows "x \<in> set (chain (elems n)) \<longleftrightarrow> cleanName x \<and> covers x n" "distinct (chain (elems n))"
    "\<exists>xs. chain (elems n) = n # xs \<and> n \<notin> set xs"
proof -
  from cleanName_elems [OF assms] have e: "list_all cleanElem (elems n)" "pathOf (elems n) = n" by auto
  show "x \<in> set (chain (elems n)) \<longleftrightarrow> cleanName x \<and> covers x n"
    using set_chain [OF e(1)] e(2) by simp
  show d: "distinct (chain (elems n))" by (rule distinct_chain [OF e(1)])
  have "\<exists>xs. chain (elems n) = pathOf (elems n) # xs"
    by (cases "elems n" rule: rev_cases) auto
  with d e(2) show "\<exists>xs. chain (elems n) = n # xs \<and> n \<notin> set xs" by auto
qed

text \<open>The test of \<open>lookup\<close> on clean names: the locked name is properly above.\<close>

lemma hasPrefix_below:
  assumes "cleanName r" and "cleanName n"
  shows "r = ''/'' \<or> hasPrefix n (r @ ''/'') \<or> n = r \<longleftrightarrow> covers r n"
proof -
  obtain rs where r: "list_all cleanElem rs" "r = pathOf rs" using assms(1) by (auto simp: cleanName_def)
  obtain ns where n: "list_all cleanElem ns" "n = pathOf ns" using assms(2) by (auto simp: cleanName_def)
  have cov: "covers r n \<longleftrightarrow> prefix rs ns" using r n by (simp add: covers_def)
  show ?thesis
  proof (cases "rs = []")
    case True
    then show ?thesis using r cov by simp
  next
    case False
    then have r0: "r \<noteq> ''/''" using r pathOf_root_iff by simp
    have "hasPrefix n (r @ ''/'')" if "prefix rs ns" "n \<noteq> r"
    proof -
      from that(1) obtain ys where "ns = rs @ ys" by (auto elim: prefixE)
      with that(2) r n False show ?thesis
        by (cases "ys = []") (auto simp: pathOf_def joinWith_append hasPrefix_iff)
    qed
    moreover have "prefix rs ns" if "hasPrefix n (r @ ''/'')"
    proof -
      from that obtain t where t: "n = r @ CHR ''/'' # t" by (auto simp: hasPrefix_iff)
      have "splitOn (CHR ''/'') n = splitOn (CHR ''/'') r @ splitOn (CHR ''/'') t"
        unfolding t by (rule splitOn_append)
      then have "[] # (if ns = [] then [[]] else ns) = ([] # rs) @ splitOn (CHR ''/'') t"
        using splitOn_pathOf [OF r(1)] splitOn_pathOf [OF n(1)] r n False by simp
      then have "(if ns = [] then [[]] else ns) = rs @ splitOn (CHR ''/'') t" by simp
      moreover have "rs @ splitOn (CHR ''/'') t \<noteq> [[]]"
        using False r(1) by (cases rs) (auto simp: cleanElem_def)
      ultimately show ?thesis by (metis prefixI)
    qed
    ultimately show ?thesis using cov r0 r n by auto
  qed
qed

section \<open>The invariant\<close>

definition locked :: "memLS \<Rightarrow> gostring \<Rightarrow> bool" where
  "locked m n \<longleftrightarrow> (\<exists>a. byName m n = Some a \<and> token (store m a) \<noteq> [])"

text \<open>What a lock is, apart from the bookkeeping: the abstract state maps names to locks.\<close>

definition vw :: "memLSNode \<Rightarrow> memLSNode" where
  "vw n = n\<lparr>refCount := 0, byExpiryIndex := 0\<rparr>"

definition lview :: "memLS \<Rightarrow> gostring \<rightharpoonup> memLSNode" where
  "lview m n = (case byName m n of
     None \<Rightarrow> None
   | Some a \<Rightarrow> if token (store m a) \<noteq> [] then Some (vw (store m a)) else None)"

text \<open>\<open>C n\<close> is the number of locked names that \<open>n\<close> covers.\<close>

definition names_ok :: "(gostring \<Rightarrow> nat) \<Rightarrow> memLS \<Rightarrow> bool" where
  "names_ok C m \<longleftrightarrow>
     (\<forall>n a. byName m n = Some a \<longrightarrow> a < brk m \<and> cleanName n \<and> lk_Root (details (store m a)) = n \<and>
        refCount (store m a) = int (C n) \<and> 0 < C n) \<and>
     (\<forall>n. byName m n = None \<and> cleanName n \<longrightarrow> C n = 0)"

definition cover_count :: "memLS \<Rightarrow> gostring \<Rightarrow> nat" where
  "cover_count m n = card {r. locked m r \<and> covers n r}"

definition fresh_zero :: "memLS \<Rightarrow> bool" where
  "fresh_zero m \<longleftrightarrow> (\<forall>a\<ge>brk m. store m a = zero_node)"

definition tok_ok :: "memLS \<Rightarrow> bool" where
  "tok_ok m \<longleftrightarrow>
     (\<forall>t a. byToken m t = Some a \<longleftrightarrow> t \<noteq> [] \<and> (\<exists>n. byName m n = Some a) \<and> token (store m a) = t)"

definition queue_locks :: "memLS \<Rightarrow> bool" where
  "queue_locks m \<longleftrightarrow>
     (\<forall>a. a \<in> set (byExpiry m) \<longleftrightarrow> (\<exists>n. byName m n = Some a) \<and> token (store m a) \<noteq> [] \<and>
        \<not> held (store m a) \<and> 0 \<le> lk_Duration (details (store m a)))"

definition held_ok :: "memLS \<Rightarrow> bool" where
  "held_ok m \<longleftrightarrow> (\<forall>a. held (store m a) \<longrightarrow> (\<exists>n. byName m n = Some a) \<and> token (store m a) \<noteq> [])"

definition gen_ok :: "memLS \<Rightarrow> bool" where
  "gen_ok m \<longleftrightarrow> (\<forall>t\<in>dom (byToken m). \<exists>k\<le>unat (gen m). t = formatNat k)"

text \<open>No two locks conflict: a lock above another one has zero depth.\<close>

definition exclusive :: "memLS \<Rightarrow> bool" where
  "exclusive m \<longleftrightarrow>
     (\<forall>r q v. locked m q \<and> lview m r = Some v \<and> r \<noteq> q \<and> covers r q \<longrightarrow> lk_ZeroDepth (details v))"

definition nodes_inv :: "memLS \<Rightarrow> bool" where
  "nodes_inv m \<longleftrightarrow> names_ok (cover_count m) m \<and> finite {n. locked m n} \<and> fresh_zero m \<and>
     tok_ok m \<and> held_ok m \<and> gen_ok m \<and> exclusive m"

definition lock_inv :: "memLS \<Rightarrow> bool" where
  "lock_inv m \<longleftrightarrow> nodes_inv m \<and> queue_ok m \<and> queue_locks m"

lemmas lock_inv_defs = names_ok_def fresh_zero_def tok_ok_def queue_locks_def held_ok_def gen_ok_def exclusive_def

lemma locked_lview: "locked m n \<longleftrightarrow> lview m n \<noteq> None"
  by (auto simp: locked_def lview_def split: option.splits)

lemma vw_fields [simp]:
  "details (vw n) = details n" "token (vw n) = token n" "expiry (vw n) = expiry n" "held (vw n) = held n"
  by (simp_all add: vw_def)

lemma lview_Some:
  "lview m n = Some v \<longleftrightarrow> (\<exists>a. byName m n = Some a \<and> token (store m a) \<noteq> [] \<and> v = vw (store m a))"
  by (auto simp: lview_def split: option.splits if_splits)

lemma NewMemLS_inv: "lock_inv (NewMemLS u)"
  by (simp add: lock_inv_def nodes_inv_def lock_inv_defs NewMemLS_def queue_ok_def indexed_def heap_ordered_def
      zero_node_def locked_def cover_count_def)

text \<open>Names in \<open>byName\<close> have nodes of their own.\<close>

lemma names_inj:
  "names_ok C m \<Longrightarrow> byName m n = Some a \<Longrightarrow> byName m n' = Some a \<Longrightarrow> n = n'"
  unfolding names_ok_def by metis

lemma queue_ok_frame:
  assumes "queue_ok m" and "byExpiry m' = byExpiry m"
    and "\<And>a. byExpiryIndex (store m' a) = byExpiryIndex (store m a)"
    and "\<And>a. a \<in> set (byExpiry m) \<Longrightarrow> expiry (store m' a) = expiry (store m a)"
  shows "queue_ok m'"
proof -
  have key: "key m' k = key m k" if "k < length (byExpiry m)" for k
    using that assms(2,4) by (simp add: key_def)
  have "key m' (par k) \<le> key m' k" if "0 < k" "k < length (byExpiry m)" for k
    using that assms(1) par_le [of k] by (simp add: key queue_ok_def heap_ordered_def)
  then show ?thesis
    using assms by (simp add: queue_ok_def heap_ordered_def indexed_def)
qed

section \<open>create\<close>

text \<open>What the loop of \<open>create\<close> keeps: it adds nodes without a token and counts.\<close>

definition grows :: "memLS \<Rightarrow> memLS \<Rightarrow> bool" where
  "grows m m' \<longleftrightarrow>
     byToken m' = byToken m \<and> gen m' = gen m \<and> byExpiry m' = byExpiry m \<and> brk m \<le> brk m' \<and>
     (\<forall>n a. byName m n = Some a \<longrightarrow> byName m' n = Some a) \<and>
     (\<forall>n a. byName m n = None \<and> byName m' n = Some a \<longrightarrow> brk m \<le> a) \<and>
     (\<forall>a<brk m. (store m' a)\<lparr>refCount := 0\<rparr> = (store m a)\<lparr>refCount := 0\<rparr>) \<and>
     (\<forall>a\<ge>brk m. token (store m' a) = [] \<and> \<not> held (store m' a) \<and> byExpiryIndex (store m' a) = -1)"

lemma grows_refl: "fresh_zero m \<Longrightarrow> grows m m"
  by (auto simp: grows_def fresh_zero_def zero_node_def)

lemma refCount_eqI:
  "(n :: memLSNode)\<lparr>refCount := 0\<rparr> = n'\<lparr>refCount := 0\<rparr> \<Longrightarrow>
   details n = details n' \<and> token n = token n' \<and> expiry n = expiry n' \<and> held n = held n' \<and>
   byExpiryIndex n = byExpiryIndex n' \<and> vw n = vw n'"
  by (cases n; cases n') (simp add: vw_def)

lemma grows_trans:
  assumes "grows m m'" and "grows m' m''"
  shows "grows m m''"
  unfolding grows_def
proof (intro conjI allI impI)
  show "byToken m'' = byToken m" "gen m'' = gen m" "byExpiry m'' = byExpiry m" "brk m \<le> brk m''"
    using assms by (simp_all add: grows_def)
  show "byName m'' n = Some a" if "byName m n = Some a" for n a
    using that assms by (simp add: grows_def)
  show "brk m \<le> a" if "byName m n = None \<and> byName m'' n = Some a" for n a
  proof (cases "byName m' n")
    case None
    then show ?thesis using that assms unfolding grows_def by (meson le_trans)
  next
    case (Some b)
    then have "b = a" using that assms(2) unfolding grows_def by fastforce
    then show ?thesis using Some that assms(1) unfolding grows_def by blast
  qed
  show "(store m'' a)\<lparr>refCount := 0\<rparr> = (store m a)\<lparr>refCount := 0\<rparr>" if "a < brk m" for a
    using that assms unfolding grows_def by (metis order_less_le_trans)
  fix a assume a: "brk m \<le> a"
  have "token (store m'' a) = [] \<and> \<not> held (store m'' a) \<and> byExpiryIndex (store m'' a) = -1"
  proof (cases "a < brk m'")
    case True
    then have "(store m'' a)\<lparr>refCount := 0\<rparr> = (store m' a)\<lparr>refCount := 0\<rparr>"
      using assms(2) by (simp add: grows_def)
    from refCount_eqI [OF this] show ?thesis using a assms(1) by (simp add: grows_def)
  next
    case False
    then show ?thesis using assms(2) by (simp add: grows_def)
  qed
  then show "token (store m'' a) = []" "\<not> held (store m'' a)" "byExpiryIndex (store m'' a) = -1" by auto
qed

lemma create_visit_step:
  assumes "names_ok C m" and "fresh_zero m" and "cleanName x"
  shows "\<exists>m' a. create_visit x first (m, ret) = Some (True, m', if first then a else ret)
    \<and> byName m' x = Some a \<and> names_ok (C(x := C x + 1)) m' \<and> fresh_zero m' \<and> grows m m'"
proof (cases "byName m x")
  case (Some a)
  let ?m = "upd a (\<lambda>n. n\<lparr>refCount := refCount n + 1\<rparr>) m"
  have a: "a < brk m" using assms(1) Some by (simp add: names_ok_def)
  have other: "b \<noteq> a" if "byName m n = Some b" "n \<noteq> x" for n b
    using names_inj [OF assms(1)] that Some by blast
  have "names_ok (C(x := C x + 1)) ?m"
    using assms(1) Some other unfolding names_ok_def upd_def by auto
  moreover have "fresh_zero ?m" using assms(2) a by (auto simp: fresh_zero_def upd_def)
  moreover have "grows m ?m"
    using assms(2) a by (auto simp: grows_def upd_def fresh_zero_def zero_node_def)
  moreover have "create_visit x first (m, ret) = Some (True, ?m, if first then a else ret)"
    using Some by (simp add: create_visit_def)
  moreover have "byName ?m x = Some a" using Some by (simp add: upd_def)
  ultimately show ?thesis by blast
next
  case None
  let ?a = "brk m"
  let ?m1 = "(upd ?a (\<lambda>_. zero_node\<lparr>details := zero_details\<lparr>lk_Root := x\<rparr>\<rparr>) m)
      \<lparr>byName := (byName m)(x \<mapsto> ?a), brk := Suc ?a\<rparr>"
  let ?m = "upd ?a (\<lambda>n. n\<lparr>refCount := refCount n + 1\<rparr>) ?m1"
  have "C x = 0" using assms(1,3) None by (simp add: names_ok_def)
  then have "names_ok (C(x := C x + 1)) ?m"
    using assms(1,3) unfolding names_ok_def upd_def zero_node_def zero_details_def
    by (auto simp: less_Suc_eq)
  moreover have "fresh_zero ?m" using assms(2) by (auto simp: fresh_zero_def upd_def)
  moreover have "grows m ?m"
    using assms(2) None by (auto simp: grows_def upd_def fresh_zero_def zero_node_def)
  moreover have "create_visit x first (m, ret) = Some (True, ?m, if first then ?a else ret)"
    using None by (simp add: create_visit_def Let_def)
  moreover have "byName ?m x = Some ?a" by (simp add: upd_def)
  ultimately show ?thesis by blast
qed

lemma create_loop:
  assumes "names_ok C m" and "fresh_zero m" and "\<forall>x\<in>set xs. cleanName x" and "distinct xs"
  shows "\<exists>m'. run_walk create_visit xs False (m, ret) = Some (True, m', ret)
    \<and> names_ok (\<lambda>n. C n + (if n \<in> set xs then 1 else 0)) m' \<and> fresh_zero m' \<and> grows m m'"
  using assms
proof (induction xs arbitrary: C m)
  case Nil
  then show ?case by (simp add: grows_refl)
next
  case (Cons x xs)
  from create_visit_step [OF Cons.prems(1,2), of x False ret] Cons.prems(3) obtain m1 a where
    m1: "create_visit x False (m, ret) = Some (True, m1, ret)" "names_ok (C(x := C x + 1)) m1"
      "fresh_zero m1" "grows m m1" by auto
  from Cons.IH [OF m1(2,3)] Cons.prems(3,4) obtain m2 where
    m2: "run_walk create_visit xs False (m1, ret) = Some (True, m2, ret)"
      "names_ok (\<lambda>n. (C(x := C x + 1)) n + (if n \<in> set xs then 1 else 0)) m2" "fresh_zero m2" "grows m1 m2"
    by auto
  have "(\<lambda>n. (C(x := C x + 1)) n + (if n \<in> set xs then 1 else 0)) =
      (\<lambda>n. C n + (if n \<in> set (x # xs) then 1 else 0))"
    using Cons.prems(4) by auto
  with m2 m1 grows_trans show ?case by auto
qed

lemma create_spec:
  assumes "names_ok C m" and "fresh_zero m" and "cleanName name"
  shows "\<exists>m' a. create name m = Some (m', a) \<and> byName m' name = Some a
    \<and> names_ok (\<lambda>n. C n + (if cleanName n \<and> covers n name then 1 else 0)) m'
    \<and> fresh_zero m' \<and> grows m m'"
proof -
  note c = chain_name [OF assms(3)]
  from c(3) obtain xs where xs: "chain (elems name) = name # xs" "name \<notin> set xs" by blast
  from create_visit_step [OF assms, of True 0] obtain m1 a where
    m1: "create_visit name True (m, 0) = Some (True, m1, a)" "byName m1 name = Some a"
      "names_ok (C(name := C name + 1)) m1" "fresh_zero m1" "grows m m1" by auto
  have "\<forall>x\<in>set xs. cleanName x" "distinct xs" using c(1,2) xs(1) by auto
  from create_loop [OF m1(3,4) this] obtain m2 where
    m2: "run_walk create_visit xs False (m1, a) = Some (True, m2, a)"
      "names_ok (\<lambda>n. (C(name := C name + 1)) n + (if n \<in> set xs then 1 else 0)) m2"
      "fresh_zero m2" "grows m1 m2" by blast
  have "(\<lambda>n. (C(name := C name + 1)) n + (if n \<in> set xs then 1 else 0)) =
      (\<lambda>n. C n + (if cleanName n \<and> covers n name then 1 else 0))"
    using c(1) xs assms(3) by (auto simp: fun_eq_iff)
  moreover have "byName m2 name = Some a" using m2(4) m1(2) by (simp add: grows_def)
  moreover have "create name m = Some (m2, a)"
    using m1(1) m2(1) by (simp add: create_def walk_name [OF assms(3)] xs(1))
  ultimately show ?thesis using m2 grows_trans [OF m1(5) m2(4)] by auto
qed

section \<open>remove\<close>

text \<open>What the loop of \<open>remove\<close> keeps: it only counts and forgets names.\<close>

definition sheds :: "memLS \<Rightarrow> memLS \<Rightarrow> bool" where
  "sheds m m' \<longleftrightarrow>
     byToken m' = byToken m \<and> gen m' = gen m \<and> byExpiry m' = byExpiry m \<and> brk m' = brk m \<and>
     (\<forall>n a. byName m' n = Some a \<longrightarrow> byName m n = Some a) \<and>
     (\<forall>a. (store m' a)\<lparr>refCount := 0\<rparr> = (store m a)\<lparr>refCount := 0\<rparr>)"

lemma sheds_trans: "sheds m m' \<Longrightarrow> sheds m' m'' \<Longrightarrow> sheds m m''"
  by (simp add: sheds_def)

lemma remove_visit_step:
  assumes "names_ok C m" and "fresh_zero m" and "cleanName x" and "0 < C x"
  shows "\<exists>m'. remove_visit x first m = Some (True, m')
    \<and> names_ok (C(x := C x - 1)) m' \<and> fresh_zero m' \<and> sheds m m'"
proof -
  obtain a where a: "byName m x = Some a"
    using assms(1,3,4) by (cases "byName m x") (auto simp: names_ok_def)
  let ?m = "upd a (\<lambda>n. n\<lparr>refCount := refCount n - 1\<rparr>) m"
  let ?m' = "if refCount (store ?m a) = 0 then ?m\<lparr>byName := (byName ?m)(x := None)\<rparr> else ?m"
  have lt: "a < brk m" and rc: "refCount (store m a) = int (C x)"
    using assms(1) a by (simp_all add: names_ok_def)
  have other: "b \<noteq> a" if "byName m n = Some b" "n \<noteq> x" for n b
    using names_inj [OF assms(1)] that a by blast
  have zero: "refCount (store ?m a) = 0 \<longleftrightarrow> C x = 1" using rc by (simp add: upd_def)
  have ok: "a' < brk m" "cleanName n" "lk_Root (details (store m a')) = n"
      "refCount (store m a') = int (C n)" "0 < C n" if "byName m n = Some a'" for n a'
    using assms(1) that by (simp_all add: names_ok_def)
  have none: "C n = 0" if "byName m n = None" "cleanName n" for n
    using assms(1) that by (simp add: names_ok_def)
  have "names_ok (C(x := C x - 1)) ?m'"
  proof (cases "C x = 1")
    case True
    then have "?m' = ?m\<lparr>byName := (byName ?m)(x := None)\<rparr>" using zero by simp
    then show ?thesis
      using True ok none other unfolding names_ok_def upd_def by (auto simp: fun_upd_def)
  next
    case False
    then have "?m' = ?m" using zero by simp
    moreover have "1 < C x" using False assms(4) by simp
    ultimately show ?thesis
      using ok none other a unfolding names_ok_def upd_def by (auto simp: of_nat_diff)
  qed
  moreover have "fresh_zero ?m'" using assms(2) lt by (auto simp: fresh_zero_def upd_def)
  moreover have "sheds m ?m'" by (auto simp: sheds_def upd_def split: if_splits)
  moreover have "remove_visit x first m = Some (True, ?m')"
    using a by (simp add: remove_visit_def Let_def)
  ultimately show ?thesis by blast
qed

lemma remove_loop:
  assumes "names_ok C m" and "fresh_zero m" and "\<forall>x\<in>set xs. cleanName x \<and> 0 < C x" and "distinct xs"
  shows "\<exists>m'. run_walk remove_visit xs first m = Some (True, m')
    \<and> names_ok (\<lambda>n. C n - (if n \<in> set xs then 1 else 0)) m' \<and> fresh_zero m' \<and> sheds m m'"
  using assms
proof (induction xs arbitrary: C m first)
  case Nil
  then show ?case by (simp add: sheds_def)
next
  case (Cons x xs)
  from remove_visit_step [OF Cons.prems(1,2), of x first] Cons.prems(3) obtain m1 where
    m1: "remove_visit x first m = Some (True, m1)" "names_ok (C(x := C x - 1)) m1"
      "fresh_zero m1" "sheds m m1" by auto
  have "\<forall>y\<in>set xs. cleanName y \<and> 0 < (C(x := C x - 1)) y"
    using Cons.prems(3,4) by auto
  from Cons.IH [OF m1(2,3) this] Cons.prems(4) obtain m2 where
    m2: "run_walk remove_visit xs False m1 = Some (True, m2)"
      "names_ok (\<lambda>n. (C(x := C x - 1)) n - (if n \<in> set xs then 1 else 0)) m2" "fresh_zero m2" "sheds m1 m2"
    by auto
  have "(\<lambda>n. (C(x := C x - 1)) n - (if n \<in> set xs then 1 else 0)) =
      (\<lambda>n. C n - (if n \<in> set (x # xs) then 1 else 0))"
    using Cons.prems(4) by auto
  with m2 m1 sheds_trans show ?case by auto
qed

text \<open>Counting with one lock more or less.\<close>

lemma count_insert:
  assumes "finite R" and "x \<notin> R"
  shows "card {r. r \<in> insert x R \<and> covers n r} = card {r. r \<in> R \<and> covers n r} + (if covers n x then 1 else 0)"
proof -
  have "{r. r \<in> insert x R \<and> covers n r} = (if covers n x then insert x {r. r \<in> R \<and> covers n r} else {r. r \<in> R \<and> covers n r})"
    by auto
  then show ?thesis using assms by simp
qed

lemma names_ok_cong:
  assumes "names_ok C m" and "\<And>n. cleanName n \<Longrightarrow> C n = C' n"
  shows "names_ok C' m"
  using assms unfolding names_ok_def by metis

lemma locked_clean: "names_ok C m \<Longrightarrow> locked m n \<Longrightarrow> cleanName n"
  by (auto simp: names_ok_def locked_def)

text \<open>The queue operations change neither the names nor the locks.\<close>

lemma same_nodes_vw:
  assumes "same_nodes m m'"
  shows "vw (store m' a) = vw (store m a)"
proof -
  have "(store m' a)\<lparr>byExpiryIndex := 0\<rparr> = (store m a)\<lparr>byExpiryIndex := 0\<rparr>"
    using assms by (simp add: same_nodes_def)
  then have "(store m' a)\<lparr>byExpiryIndex := 0\<rparr>\<lparr>refCount := 0\<rparr> = (store m a)\<lparr>byExpiryIndex := 0\<rparr>\<lparr>refCount := 0\<rparr>"
    by simp
  then show ?thesis by (cases "store m' a"; cases "store m a") (simp add: vw_def)
qed

lemma same_nodes_lview: "same_nodes m m' \<Longrightarrow> lview m' = lview m"
  by (simp add: fun_eq_iff lview_def same_nodesD same_nodes_vw split: option.splits)

lemma same_nodes_locked: "same_nodes m m' \<Longrightarrow> locked m' n = locked m n"
  by (simp add: locked_lview same_nodes_lview)

lemma same_nodes_names: "same_nodes m m' \<Longrightarrow> names_ok C m' = names_ok C m"
  by (simp add: names_ok_def same_nodesD)

lemma same_nodes_count: "same_nodes m m' \<Longrightarrow> cover_count m' = cover_count m"
  by (simp add: cover_count_def same_nodes_locked fun_eq_iff)

lemma same_nodes_fresh:
  assumes "same_nodes m m'" and "fresh_zero m"
    and "\<And>a. brk m \<le> a \<Longrightarrow> byExpiryIndex (store m' a) = -1"
  shows "fresh_zero m'"
  unfolding fresh_zero_def
proof (intro allI impI)
  fix a assume "brk m' \<le> a"
  then have a: "brk m \<le> a" using same_nodesD(1) [OF assms(1)] by simp
  have "(store m' a)\<lparr>byExpiryIndex := 0\<rparr> = (store m a)\<lparr>byExpiryIndex := 0\<rparr>"
    using assms(1) by (simp add: same_nodes_def)
  moreover have "store m a = zero_node" using assms(2) a by (simp add: fresh_zero_def)
  ultimately show "store m' a = zero_node"
    using assms(3) [OF a] by (cases "store m' a") (simp add: zero_node_def)
qed

lemma same_nodes_inv:
  assumes "nodes_inv m" and "same_nodes m m'" and "queue_ok m'"
    and "\<And>a. a \<in> set (byExpiry m') \<Longrightarrow> a < brk m"
  shows "nodes_inv m'"
proof -
  have "byExpiryIndex (store m' a) = -1" if "brk m \<le> a" for a
    using that assms(3,4) unfolding queue_ok_def indexed_def by (meson leD)
  then have "fresh_zero m'"
    using assms(1,2) same_nodes_fresh unfolding nodes_inv_def by blast
  then show ?thesis
    using assms(1) same_nodes_locked [OF assms(2)] same_nodes_lview [OF assms(2)]
      same_nodes_names [OF assms(2)] same_nodesD [OF assms(2)]
      same_nodes_count [OF assms(2)]
    by (simp add: nodes_inv_def tok_ok_def held_ok_def gen_ok_def exclusive_def)
qed

lemma queue_bound:
  "lock_inv m \<Longrightarrow> a \<in> set (byExpiry m) \<Longrightarrow> a < brk m"
  by (auto simp: lock_inv_def nodes_inv_def names_ok_def queue_locks_def)

lemma locked_token:
  assumes "nodes_inv m" and "byName m n = Some a" and "token (store m a) \<noteq> []"
  shows "byToken m (token (store m a)) = Some a" and "locked m n" and "lk_Root (details (store m a)) = n"
    and "cleanName n" and "a < brk m"
  using assms by (auto simp: nodes_inv_def tok_ok_def locked_def names_ok_def)

lemma token_locked:
  assumes "nodes_inv m" and "byToken m t = Some a"
  obtains n where "byName m n = Some a" "token (store m a) = t" "t \<noteq> []"
  using assms by (auto simp: nodes_inv_def tok_ok_def)

text \<open>Before the walk of \<open>remove\<close>: the token is gone, the counts still include the lock.\<close>

definition untoken :: "addr \<Rightarrow> memLS \<Rightarrow> memLS" where
  "untoken a m = upd a (\<lambda>n. n\<lparr>token := []\<rparr>) (m\<lparr>byToken := (byToken m)(token (store m a) := None)\<rparr>)"

lemma untoken_fields [simp]:
  "byName (untoken a m) = byName m" "brk (untoken a m) = brk m" "gen (untoken a m) = gen m"
  "byExpiry (untoken a m) = byExpiry m"
  "byToken (untoken a m) = (byToken m)(token (store m a) := None)"
  "store (untoken a m) = (store m)(a := (store m a)\<lparr>token := []\<rparr>)"
  by (simp_all add: untoken_def upd_def)

lemma untoken_locked:
  assumes "nodes_inv m" and "byName m n = Some a"
  shows "locked (untoken a m) q \<longleftrightarrow> locked m q \<and> q \<noteq> n"
proof -
  have "b \<noteq> a" if "byName m q = Some b" "q \<noteq> n" for q b
    using names_inj [of _ m q a n] assms that by (auto simp: nodes_inv_def)
  with assms(2) show ?thesis by (auto simp: locked_def)
qed

lemma untoken_count:
  assumes "nodes_inv m" and "byName m n = Some a" and "token (store m a) \<noteq> []"
  shows "cover_count m k = cover_count (untoken a m) k + (if covers k n then 1 else 0)"
proof -
  let ?R = "{r. locked (untoken a m) r}"
  have R: "{r. locked m r} = insert n ?R" "n \<notin> ?R"
    using untoken_locked [OF assms(1,2)] locked_token(2) [OF assms] by auto
  have "finite ?R" using assms(1) R by (metis finite_insert nodes_inv_def)
  moreover have "{r. locked m r \<and> covers k r} = {r. r \<in> insert n ?R \<and> covers k r}"
    unfolding R(1) [symmetric] by simp
  moreover have "{r. locked (untoken a m) r \<and> covers k r} = {r. r \<in> ?R \<and> covers k r}" by simp
  ultimately show ?thesis
    unfolding cover_count_def using count_insert [of ?R n k] R(2) by presburger
qed

lemma untoken_names:
  assumes "nodes_inv m" and "a < brk m"
  shows "names_ok (cover_count m) (untoken a m)" and "fresh_zero (untoken a m)"
  using assms by (auto simp: nodes_inv_def names_ok_def fresh_zero_def)

lemma remove_walk:
  assumes "nodes_inv m" and "byName m n = Some a" and "token (store m a) \<noteq> []"
  shows "\<exists>m2. walkToRoot remove_visit n True (untoken a m) = Some (True, m2)
    \<and> sheds (untoken a m) m2 \<and> fresh_zero m2 \<and> names_ok (cover_count m2) m2
    \<and> (\<forall>q. locked m2 q \<longleftrightarrow> locked m q \<and> q \<noteq> n)
    \<and> (\<forall>q. locked m q \<and> q \<noteq> n \<longrightarrow> byName m2 q = byName m q)"
proof -
  let ?m1 = "untoken a m"
  note lt = locked_token [OF assms]
  note c = chain_name [OF lt(4)]
  have pos: "\<forall>x\<in>set (chain (elems n)). cleanName x \<and> 0 < cover_count m x"
    using c(1) untoken_count [OF assms] by simp
  from remove_loop [OF untoken_names [OF assms(1) lt(5)] pos c(2), of True] obtain m2 where
    m2: "run_walk remove_visit (chain (elems n)) True ?m1 = Some (True, m2)"
      "names_ok (\<lambda>k. cover_count m k - (if k \<in> set (chain (elems n)) then 1 else 0)) m2"
      "fresh_zero m2" "sheds ?m1 m2" by blast
  have names: "names_ok (cover_count ?m1) m2"
    by (rule names_ok_cong [OF m2(2)]) (simp add: untoken_count [OF assms] c(1))
  have keep: "byName m2 q = byName m q" if "locked ?m1 q" for q
  proof -
    have "finite {r. locked ?m1 r}"
      using assms(1) untoken_locked [OF assms(1,2)] by (simp add: nodes_inv_def)
    then have "0 < cover_count ?m1 q"
      using that by (auto simp: cover_count_def card_gt_0_iff)
    moreover have "cleanName q"
      using that untoken_locked [OF assms(1,2)] locked_clean [of "cover_count m" m] assms(1) by (simp add: nodes_inv_def)
    ultimately have "byName m2 q \<noteq> None" using names by (auto simp: names_ok_def)
    then obtain b where "byName m2 q = Some b" by blast
    moreover from this have "byName m q = Some b" using m2(4) by (simp add: sheds_def)
    ultimately show ?thesis by simp
  qed
  have tok: "token (store m2 b) = token (store ?m1 b)" for b
    using m2(4) refCount_eqI [of "store m2 b" "store ?m1 b"] by (simp add: sheds_def)
  have "locked m2 q \<longleftrightarrow> locked ?m1 q" for q
  proof
    assume "locked m2 q"
    then show "locked ?m1 q" using m2(4) tok unfolding locked_def sheds_def by fastforce
  next
    assume "locked ?m1 q"
    then show "locked m2 q" using keep tok unfolding locked_def by simp
  qed
  then have L: "locked m2 q \<longleftrightarrow> locked m q \<and> q \<noteq> n" for q
    using untoken_locked [OF assms(1,2)] by simp
  then have "cover_count m2 = cover_count ?m1"
    using untoken_locked [OF assms(1,2)] by (simp add: cover_count_def fun_eq_iff)
  then show ?thesis
    using m2 names L keep untoken_locked [OF assms(1,2)] by (auto simp: walk_name [OF lt(4)])
qed

lemma remove_inv:
  assumes inv: "lock_inv m" and a: "byName m n = Some a" and tok: "token (store m a) \<noteq> []"
    and nh: "\<not> held (store m a)"
  shows "\<exists>m'. remove a m = Some m' \<and> lock_inv m' \<and> lview m' = (lview m)(n := None)
    \<and> set (byExpiry m') = set (byExpiry m) - {a}
    \<and> (\<forall>q. locked m q \<and> q \<noteq> n \<longrightarrow> byName m' q = byName m q) \<and> gen m' = gen m"
proof -
  let ?m1 = "untoken a m"
  have ni: "nodes_inv m" and qo: "queue_ok m" and ql: "queue_locks m" using inv by (simp_all add: lock_inv_def)
  note lt = locked_token [OF ni a tok]
  from remove_walk [OF ni a tok] obtain m2 where
    w: "walkToRoot remove_visit n True ?m1 = Some (True, m2)" and sh: "sheds ?m1 m2"
    and m2: "fresh_zero m2" "names_ok (cover_count m2) m2" "\<And>q. locked m2 q \<longleftrightarrow> locked m q \<and> q \<noteq> n"
    and keep: "\<And>q. locked m q \<Longrightarrow> q \<noteq> n \<Longrightarrow> byName m2 q = byName m q" by blast
  have st: "details (store m2 b) = details (store ?m1 b) \<and> token (store m2 b) = token (store ?m1 b) \<and>
      expiry (store m2 b) = expiry (store ?m1 b) \<and> held (store m2 b) = held (store ?m1 b) \<and>
      byExpiryIndex (store m2 b) = byExpiryIndex (store ?m1 b) \<and> vw (store m2 b) = vw (store ?m1 b)" for b
    by (rule refCount_eqI) (use sh in \<open>simp add: sheds_def\<close>)
  have fl: "byToken m2 = (byToken m)(token (store m a) := None)" "gen m2 = gen m" "byExpiry m2 = byExpiry m" "brk m2 = brk m"
    and sub: "\<And>q b. byName m2 q = Some b \<Longrightarrow> byName m q = Some b"
    using sh by (simp_all add: sheds_def)
  have root_a: "lk_Root (details (store ?m1 a)) = n" using lt(3) by simp
  have inj: "b \<noteq> a" if "byName m q = Some b" "q \<noteq> n" for q b
    using names_inj [of _ m q a n] ni a that by (auto simp: nodes_inv_def)
  have tok2: "token (store m2 b) \<noteq> [] \<longleftrightarrow> token (store m b) \<noteq> [] \<and> b \<noteq> a" for b using st by simp
  have named: "(\<exists>q. byName m2 q = Some b) \<and> token (store m2 b) \<noteq> [] \<longleftrightarrow>
      (\<exists>q. byName m q = Some b) \<and> token (store m b) \<noteq> [] \<and> b \<noteq> a" for b
  proof
    assume "(\<exists>q. byName m2 q = Some b) \<and> token (store m2 b) \<noteq> []"
    then show "(\<exists>q. byName m q = Some b) \<and> token (store m b) \<noteq> [] \<and> b \<noteq> a" using sub tok2 by blast
  next
    assume *: "(\<exists>q. byName m q = Some b) \<and> token (store m b) \<noteq> [] \<and> b \<noteq> a"
    then obtain q where q: "byName m q = Some b" by blast
    with * a have "q \<noteq> n" "locked m q" by (auto simp: locked_def)
    then show "(\<exists>q. byName m2 q = Some b) \<and> token (store m2 b) \<noteq> []" using keep q * tok2 by metis
  qed
  have lv: "lview m2 = (lview m)(n := None)"
  proof
    fix q show "lview m2 q = ((lview m)(n := None)) q"
    proof (cases "locked m q \<and> q \<noteq> n")
      case True
      then obtain b where b: "byName m q = Some b" by (auto simp: locked_def)
      with True have "byName m2 q = Some b" "b \<noteq> a" using keep inj by auto
      then show ?thesis using True b st tok2 by (simp add: lview_def)
    next
      case False
      then have "lview m2 q = None" using m2(3) locked_lview [of m2 q] by auto
      then show ?thesis using False locked_lview [of m q] by auto
    qed
  qed
  have ni2: "nodes_inv m2"
    unfolding nodes_inv_def
  proof (intro conjI)
    show "finite {q. locked m2 q}" using ni m2(3) by (simp add: nodes_inv_def)
    show "tok_ok m2"
      unfolding tok_ok_def
    proof (intro allI)
      fix t b
      have "byToken m t = Some b \<longleftrightarrow> t \<noteq> [] \<and> (\<exists>q. byName m q = Some b) \<and> token (store m b) = t"
        using ni by (simp add: nodes_inv_def tok_ok_def)
      moreover have "byToken m2 t = Some b \<longleftrightarrow> byToken m t = Some b \<and> b \<noteq> a"
      proof (cases "t = token (store m a)")
        case True
        then show ?thesis using fl(1) lt(1) by simp
      next
        case False
        then have "byToken m t \<noteq> Some a" using ni by (auto simp: nodes_inv_def tok_ok_def)
        then show ?thesis using fl(1) False by auto
      qed
      ultimately show "byToken m2 t = Some b \<longleftrightarrow> t \<noteq> [] \<and> (\<exists>q. byName m2 q = Some b) \<and> token (store m2 b) = t"
        using named [of b] st [of b] by auto
    qed
    show "held_ok m2" using ni named nh st unfolding nodes_inv_def held_ok_def by (metis fun_upd_other fun_upd_same untoken_fields(6) memLSNode.select_convs(6) memLSNode.surjective memLSNode.update_convs(2))
    show "gen_ok m2" using ni fl by (auto simp: nodes_inv_def gen_ok_def)
    show "exclusive m2" using ni m2(3) lv by (auto simp: nodes_inv_def exclusive_def split: if_splits)
  qed (use m2 in simp_all)
  have q2: "queue_ok m2"
    by (rule queue_ok_frame [OF qo fl(3)]) (use st in \<open>auto split: if_splits\<close>)
  define m3 where "m3 = (if byExpiryIndex (store m2 a) \<ge> 0
      then heap_Remove (nat (byExpiryIndex (store m2 a))) m2 else m2)"
  have rm: "remove a m = Some m3"
    using w root_a by (simp add: remove_def untoken_def [symmetric] m3_def Let_def)
  have m3: "queue_ok m3 \<and> same_nodes m2 m3 \<and> set (byExpiry m3) = set (byExpiry m2) - {a}"
  proof (cases "byExpiryIndex (store m2 a) \<ge> 0")
    case True
    then show ?thesis
      using heap_Remove_spec [OF q2 queue_index(2) [OF q2]] queue_index [OF q2, of a] by (simp add: m3_def)
  next
    case False
    then show ?thesis using queue_index(1) [OF q2, of a] q2 by (simp add: m3_def)
  qed
  have "nodes_inv m3"
    using same_nodes_inv [OF ni2] m3 queue_bound [OF inv] fl by auto
  moreover have "queue_locks m3"
    unfolding queue_locks_def
  proof
    fix b
    have "b \<in> set (byExpiry m3) \<longleftrightarrow> b \<in> set (byExpiry m) \<and> b \<noteq> a" using m3 fl(3) by auto
    also have "\<dots> \<longleftrightarrow> (\<exists>q. byName m2 q = Some b) \<and> token (store m2 b) \<noteq> [] \<and> \<not> held (store m2 b) \<and>
        0 \<le> lk_Duration (details (store m2 b))"
      using ql named [of b] st [of b] unfolding queue_locks_def by auto
    finally show "b \<in> set (byExpiry m3) \<longleftrightarrow> (\<exists>q. byName m3 q = Some b) \<and> token (store m3 b) \<noteq> [] \<and>
        \<not> held (store m3 b) \<and> 0 \<le> lk_Duration (details (store m3 b))"
      using m3 same_nodesD [of m2 m3] by simp
  qed
  moreover have "lview m3 = (lview m)(n := None)" using lv m3 same_nodes_lview [of m2 m3] by simp
  ultimately show ?thesis
    using rm m3 fl keep same_nodesD(2,4) [of m2 m3] by (auto simp: lock_inv_def)
qed

section \<open>collectExpiredNodes\<close>

text \<open>The locks that have expired: not held, of finite duration, and not after \<open>now\<close>.\<close>

definition expired :: "int \<Rightarrow> memLSNode \<Rightarrow> bool" where
  "expired now v \<longleftrightarrow> \<not> held v \<and> 0 \<le> lk_Duration (details v) \<and> expiry v \<le> now"

definition unexpired :: "int \<Rightarrow> (gostring \<rightharpoonup> memLSNode) \<Rightarrow> gostring \<rightharpoonup> memLSNode" where
  "unexpired now L n = (case L n of None \<Rightarrow> None | Some v \<Rightarrow> if expired now v then None else Some v)"

lemma collect_inv:
  assumes "lock_inv m"
  shows "\<exists>m'. collectExpiredNodes now m = Some m' \<and> lock_inv m' \<and> lview m' = unexpired now (lview m)
    \<and> (\<forall>q. locked m' q \<longrightarrow> byName m' q = byName m q) \<and> gen m' = gen m"
  using assms
proof (induction "length (byExpiry m)" arbitrary: m rule: less_induct)
  case less
  have qo: "queue_ok m" and ql: "queue_locks m" and ni: "nodes_inv m"
    using less.prems by (simp_all add: lock_inv_def)
  show ?case
  proof (cases "byExpiry m = [] \<or> now < expiry (store m (byExpiry m ! 0))")
    case True
    then have "collectExpiredNodes now m = Some m" by (simp add: collectExpiredNodes.simps [of now m])
    moreover have "unexpired now (lview m) = lview m"
    proof
      fix n show "unexpired now (lview m) n = lview m n"
      proof (cases "lview m n")
        case (Some v)
        then obtain a where a: "byName m n = Some a" "token (store m a) \<noteq> []" "v = vw (store m a)"
          by (auto simp: lview_Some)
        have "\<not> expired now v"
        proof
          assume e: "expired now v"
          then have "a \<in> set (byExpiry m)" using ql a by (auto simp: queue_locks_def expired_def)
          with queue_min [OF qo this] True e a show False by (auto simp: expired_def)
        qed
        then show ?thesis using Some by (simp add: unexpired_def)
      qed (simp add: unexpired_def)
    qed
    ultimately show ?thesis using less.prems by auto
  next
    case False
    let ?a = "byExpiry m ! 0"
    have mem: "?a \<in> set (byExpiry m)" using False by simp
    then obtain n where n: "byName m n = Some ?a" "token (store m ?a) \<noteq> []" "\<not> held (store m ?a)"
        "0 \<le> lk_Duration (details (store m ?a))"
      using ql by (auto simp: queue_locks_def)
    from remove_inv [OF less.prems n(1,2,3)] obtain m1 where
      m1: "remove ?a m = Some m1" "lock_inv m1" "lview m1 = (lview m)(n := None)"
        "set (byExpiry m1) = set (byExpiry m) - {?a}"
        "\<And>q. locked m q \<and> q \<noteq> n \<longrightarrow> byName m1 q = byName m q" "gen m1 = gen m" by blast
    have "distinct (byExpiry m1)" "distinct (byExpiry m)"
      using m1(2) qo queue_distinct by (auto simp: lock_inv_def)
    then have "length (byExpiry m1) < length (byExpiry m)"
      using m1(4) mem by (metis card_Diff1_less distinct_card finite_set)
    from less.hyps [OF this m1(2)] obtain m' where
      m': "collectExpiredNodes now m1 = Some m'" "lock_inv m'" "lview m' = unexpired now (lview m1)"
        "\<And>q. locked m' q \<Longrightarrow> byName m' q = byName m1 q" "gen m' = gen m1" by blast
    have "lview m n = Some (vw (store m ?a))" using n by (simp add: lview_Some)
    then have "unexpired now (lview m1) = unexpired now (lview m)"
      using n False by (auto simp: m1(3) unexpired_def expired_def fun_eq_iff)
    moreover have "byName m' q = byName m q" if "locked m' q" for q
    proof -
      have "lview m1 q \<noteq> None"
        using that m'(3) by (auto simp: locked_lview unexpired_def split: option.splits)
      then have "locked m q" "q \<noteq> n" using m1(3) by (auto simp: locked_lview split: if_splits)
      then show ?thesis using m1(5) m'(4) [OF that] by simp
    qed
    moreover have "collectExpiredNodes now m = Some m'"
      using False m1(1) m'(1) by (simp add: collectExpiredNodes.simps [of now m])
    ultimately show ?thesis using m' m1(6) by auto
  qed
qed

end
