(* ===== verification/LockRefinement.thy ===== *)
theory LockRefinement
  imports LockInvariant
begin

text \<open>
  The operations of the lock system against an abstract one whose state is the map from names
  to locks: each returns, keeps the invariant and does what the abstract operation does.
  \<open>reach\<close> are the states a client can bring about, with the claims it holds.
\<close>

section \<open>canCreate\<close>

text \<open>The specification: no lock is at the name, above it with infinite depth, or below it
  when the new lock is to have infinite depth.\<close>

definition can_lock :: "gostring \<Rightarrow> bool \<Rightarrow> (gostring \<rightharpoonup> memLSNode) \<Rightarrow> bool" where
  "can_lock name z L \<longleftrightarrow>
     (\<forall>r v. L r = Some v \<longrightarrow> r \<noteq> name \<and> \<not> (covers r name \<and> \<not> lk_ZeroDepth (details v)) \<and>
        \<not> (covers name r \<and> \<not> z))"

lemma canCreate_visit_above:
  "canCreate_visit m z x False () = Some (\<forall>v. lview m x = Some v \<longrightarrow> lk_ZeroDepth (details v), ())"
  by (auto simp: canCreate_visit_def lview_def Let_def split: option.splits)

lemma canCreate_above:
  "run_walk (canCreate_visit m z) xs False () =
   Some (\<forall>x\<in>set xs. \<forall>v. lview m x = Some v \<longrightarrow> lk_ZeroDepth (details v), ())"
  by (induction xs) (simp_all add: canCreate_visit_above)

lemma canCreate_spec:
  assumes "nodes_inv m" and "cleanName name"
  shows "canCreate name z m = Some (can_lock name z (lview m))"
proof -
  note c = chain_name [OF assms(2)]
  from c(3) obtain xs where xs: "chain (elems name) = name # xs" "name \<notin> set xs" by blast
  have names: "names_ok (cover_count m) m" and fin: "finite {n. locked m n}"
    using assms(1) by (simp_all add: nodes_inv_def)
  have above: "x \<in> set xs \<longleftrightarrow> cleanName x \<and> covers x name \<and> x \<noteq> name" for x
    using c(1) [of x] xs by auto
  have lc: "cleanName r" if "lview m r = Some v" for r v
    using locked_clean [OF names, of r] that by (simp add: locked_lview)
  have anc: "(\<forall>x\<in>set xs. \<forall>v. lview m x = Some v \<longrightarrow> lk_ZeroDepth (details v)) \<longleftrightarrow>
      (\<forall>r v. lview m r = Some v \<and> r \<noteq> name \<and> covers r name \<longrightarrow> lk_ZeroDepth (details v))"
    using above lc by blast
  have below: "(\<exists>r. locked m r \<and> covers name r) \<longleftrightarrow> byName m name \<noteq> None"
  proof -
    have "finite {r. locked m r \<and> covers name r}" using fin by simp
    then have "(\<exists>r. locked m r \<and> covers name r) \<longleftrightarrow> 0 < cover_count m name"
      by (auto simp: cover_count_def card_gt_0_iff)
    then show ?thesis using names assms(2) unfolding names_ok_def by (metis not_Some_eq not_gr_zero)
  qed
  let ?anc = "\<forall>r v. lview m r = Some v \<and> r \<noteq> name \<and> covers r name \<longrightarrow> lk_ZeroDepth (details v)"
  have run: "canCreate name z m =
      (case canCreate_visit m z name True () of
         None \<Rightarrow> None | Some (go, s) \<Rightarrow> Some (go \<and> ?anc))"
    by (simp add: canCreate_def walk_name [OF assms(2)] xs(1) canCreate_above anc split: option.splits prod.splits)
  have spec: "can_lock name z (lview m) \<longleftrightarrow>
      \<not> locked m name \<and> ?anc \<and> (z \<or> \<not> (\<exists>r. locked m r \<and> covers name r))"
  proof (cases "lview m name")
    case None
    then have "lview m r = Some v \<Longrightarrow> r \<noteq> name" for r v by auto
    moreover have "lview m r \<noteq> None \<longleftrightarrow> (\<exists>v. lview m r = Some v)" for r by auto
    ultimately show ?thesis unfolding can_lock_def locked_lview using None by blast
  next
    case (Some v)
    then show ?thesis by (auto simp: can_lock_def locked_lview)
  qed
  show ?thesis
  proof (cases "byName m name")
    case None
    then show ?thesis
      using run spec below by (simp add: canCreate_visit_def locked_def)
  next
    case (Some a)
    then show ?thesis
      using run spec below by (auto simp: canCreate_visit_def locked_def Let_def)
  qed
qed

section \<open>Create\<close>

lemma nextToken_fresh:
  assumes "gen_ok m" and "gen m \<noteq> -1"
  shows "formatNat (unat (gen m + 1)) \<notin> dom (byToken m)" and "unat (gen m + 1) = unat (gen m) + 1"
proof -
  have "gen m + 1 \<noteq> 0" using assms(2) by (metis eq_neg_iff_add_eq_0)
  then show g: "unat (gen m + 1) = unat (gen m) + 1" using unatSuc [of "gen m"] by (simp add: add.commute)
  show "formatNat (unat (gen m + 1)) \<notin> dom (byToken m)"
  proof
    assume "formatNat (unat (gen m + 1)) \<in> dom (byToken m)"
    with assms(1) obtain k where "k \<le> unat (gen m)" "formatNat (unat (gen m + 1)) = formatNat k"
      unfolding gen_ok_def by blast
    with g show False using formatNat_inj by fastforce
  qed
qed

text \<open>The state after the fields of the new lock are written, before it is queued.\<close>

definition install :: "addr \<Rightarrow> gostring \<Rightarrow> lock_details \<Rightarrow> int \<Rightarrow> memLS \<Rightarrow> memLS" where
  "install a tok ds e m =
     m\<lparr>gen := gen m + 1, byToken := (byToken m)(tok \<mapsto> a),
       store := (store m)(a := (store m a)\<lparr>token := tok, details := ds, expiry := e\<rparr>)\<rparr>"

lemma install_fields [simp]:
  "byName (install a tok ds e m) = byName m" "brk (install a tok ds e m) = brk m"
  "byExpiry (install a tok ds e m) = byExpiry m" "gen (install a tok ds e m) = gen m + 1"
  "byToken (install a tok ds e m) = (byToken m)(tok \<mapsto> a)"
  "store (install a tok ds e m) = (store m)(a := (store m a)\<lparr>token := tok, details := ds, expiry := e\<rparr>)"
  by (simp_all add: install_def)

lemma install_inv:
  assumes inv: "lock_inv m" and clean: "cleanName (lk_Root ds)"
    and free: "can_lock (lk_Root ds) (lk_ZeroDepth ds) (lview m)" and gen: "gen m \<noteq> -1"
  defines "tok \<equiv> formatNat (unat (gen m + 1))"
  shows "\<exists>m1 a. create (lk_Root ds) m = Some (m1, a) \<and> gen m1 = gen m
    \<and> nodes_inv (install a tok ds e m1) \<and> queue_ok (install a tok ds e m1)
    \<and> a \<notin> set (byExpiry m1) \<and> byName m1 (lk_Root ds) = Some a \<and> \<not> held (store m1 a)
    \<and> (\<forall>b. b \<in> set (byExpiry m1) \<longleftrightarrow> b \<noteq> a \<and> (\<exists>n. byName m1 n = Some b) \<and>
          token (store m1 b) \<noteq> [] \<and> \<not> held (store m1 b) \<and> 0 \<le> lk_Duration (details (store m1 b)))
    \<and> lview (install a tok ds e m1) =
        (lview m)(lk_Root ds \<mapsto> vw ((store m1 a)\<lparr>token := tok, details := ds, expiry := e\<rparr>))
    \<and> (\<forall>q. locked m q \<longrightarrow> byName m1 q = byName m q)"
proof -
  let ?n = "lk_Root ds"
  have ni: "nodes_inv m" and qo: "queue_ok m" and ql: "queue_locks m"
    using inv by (simp_all add: lock_inv_def)
  have parts: "names_ok (cover_count m) m" "finite {n. locked m n}" "fresh_zero m" "tok_ok m" "held_ok m"
      "gen_ok m" "exclusive m" using ni by (simp_all add: nodes_inv_def)
  from create_spec [OF parts(1,3) clean] obtain m1 a where
    cr: "create ?n m = Some (m1, a)" "byName m1 ?n = Some a" "fresh_zero m1" "grows m m1"
    and nm: "names_ok (\<lambda>n. cover_count m n + (if cleanName n \<and> covers n ?n then 1 else 0)) m1"
    by blast
  let ?m = "install a tok ds e m1"
  have g: "byToken m1 = byToken m" "gen m1 = gen m" "byExpiry m1 = byExpiry m" "brk m \<le> brk m1"
      "\<And>n b. byName m n = Some b \<Longrightarrow> byName m1 n = Some b"
      "\<And>n b. byName m n = None \<Longrightarrow> byName m1 n = Some b \<Longrightarrow> brk m \<le> b"
      "\<And>b. brk m \<le> b \<Longrightarrow> token (store m1 b) = [] \<and> \<not> held (store m1 b) \<and> byExpiryIndex (store m1 b) = -1"
    using cr(4) by (auto simp: grows_def)
  have old: "details (store m1 b) = details (store m b) \<and> token (store m1 b) = token (store m b) \<and>
      expiry (store m1 b) = expiry (store m b) \<and> held (store m1 b) = held (store m b) \<and>
      byExpiryIndex (store m1 b) = byExpiryIndex (store m b) \<and> vw (store m1 b) = vw (store m b)" if "b < brk m" for b
    by (rule refCount_eqI) (use cr(4) that in \<open>simp add: grows_def\<close>)
  have bound: "b < brk m" if "byName m n = Some b" for n b using parts(1) that by (simp add: names_ok_def)
  have inj: "b \<noteq> a" if "byName m1 n = Some b" "n \<noteq> ?n" for n b using names_inj [OF nm] that cr(2) by blast
  have nl: "\<not> locked m ?n"
    using free by (cases "lview m ?n") (auto simp: can_lock_def locked_lview)
  have ta: "token (store m1 a) = []"
  proof (cases "byName m ?n")
    case None
    then show ?thesis using g(6,7) cr(2) by blast
  next
    case (Some b)
    then have "b = a" "b < brk m" using g(5) cr(2) bound by auto
    then show ?thesis using old [of b] nl Some by (auto simp: locked_def)
  qed
  have named: "(\<exists>n. byName m1 n = Some b) \<and> token (store m1 b) \<noteq> [] \<longleftrightarrow>
      (\<exists>n. byName m n = Some b) \<and> token (store m b) \<noteq> []" for b
  proof
    assume l: "(\<exists>n. byName m1 n = Some b) \<and> token (store m1 b) \<noteq> []"
    then obtain n where n: "byName m1 n = Some b" by blast
    have "b < brk m" using g(7) l by (meson linorder_not_less)
    moreover from this have "byName m n = Some b" using n g(5,6) by (metis leD option.exhaust option.inject)
    ultimately show "(\<exists>n. byName m n = Some b) \<and> token (store m b) \<noteq> []" using old [of b] l by auto
  next
    assume "(\<exists>n. byName m n = Some b) \<and> token (store m b) \<noteq> []"
    then show "(\<exists>n. byName m1 n = Some b) \<and> token (store m1 b) \<noteq> []" using g(5) bound old by metis
  qed
  have held1: "held (store m1 b) \<Longrightarrow> (\<exists>n. byName m1 n = Some b) \<and> token (store m1 b) \<noteq> []" for b
    using parts(5) named [of b] old [of b] g(7) [of b] unfolding held_ok_def by (meson linorder_not_less)
  have queue1: "b \<in> set (byExpiry m1) \<longleftrightarrow> b \<noteq> a \<and> (\<exists>n. byName m1 n = Some b) \<and> token (store m1 b) \<noteq> [] \<and>
      \<not> held (store m1 b) \<and> 0 \<le> lk_Duration (details (store m1 b))" for b
    using ql named [of b] ta bound old [of b] unfolding queue_locks_def g(3) by (metis (no_types, lifting))
  have tok: "tok \<notin> dom (byToken m)" "unat (gen m + 1) = unat (gen m) + 1" "tok \<noteq> []"
    using nextToken_fresh [OF parts(6) gen] formatNat_not_Nil by (simp_all add: tok_def)
  have lv: "lview ?m = (lview m)(?n \<mapsto> vw ((store m1 a)\<lparr>token := tok, details := ds, expiry := e\<rparr>))"
  proof
    fix q
    show "lview ?m q = ((lview m)(?n \<mapsto> vw ((store m1 a)\<lparr>token := tok, details := ds, expiry := e\<rparr>))) q"
    proof (cases "q = ?n")
      case True
      then show ?thesis using cr(2) tok(3) by (simp add: lview_def)
    next
      case False
      show ?thesis
      proof (cases "byName m q")
        case None
        then have "lview ?m q = None"
          using g(6,7) inj False by (auto simp: lview_def split: option.splits)
        then show ?thesis using None False by (simp add: lview_def)
      next
        case (Some b)
        then have "byName m1 q = Some b" "b \<noteq> a" "b < brk m" using g(5) inj False bound by auto
        then show ?thesis using Some False old [of b] by (simp add: lview_def)
      qed
    qed
  qed
  have lk: "locked ?m q \<longleftrightarrow> locked m q \<or> q = ?n" for q by (simp add: locked_lview lv)
  have cc: "cover_count ?m n = cover_count m n + (if covers n ?n then 1 else 0)" for n
  proof -
    have "{r. locked ?m r \<and> covers n r} = {r. r \<in> insert ?n {r. locked m r} \<and> covers n r}" by (auto simp: lk)
    then show ?thesis using count_insert [OF parts(2), of ?n n] nl by (simp add: cover_count_def)
  qed
  have "nodes_inv ?m"
    unfolding nodes_inv_def
  proof (intro conjI)
    have "names_ok (cover_count ?m) m1"
      by (rule names_ok_cong [OF nm]) (simp add: cc)
    then show "names_ok (cover_count ?m) ?m" using cr(2) inj by (auto simp: names_ok_def)
    show "finite {n. locked ?m n}" using parts(2) by (simp add: lk Collect_disj_eq)
    have "a < brk m1" using cr(2) nm by (simp add: names_ok_def)
    then show "fresh_zero ?m" using cr(3) by (auto simp: fresh_zero_def)
    show "tok_ok ?m"
      unfolding tok_ok_def
    proof (intro allI)
      fix t b
      have *: "byToken m t = Some b \<longleftrightarrow> t \<noteq> [] \<and> (\<exists>n. byName m n = Some b) \<and> token (store m b) = t"
        using parts(4) by (simp add: tok_ok_def)
      show "byToken ?m t = Some b \<longleftrightarrow> t \<noteq> [] \<and> (\<exists>n. byName ?m n = Some b) \<and> token (store ?m b) = t"
      proof (cases "b = a")
        case True
        have "byToken m t \<noteq> Some a" if "t \<noteq> tok" using parts(4) named [of a] ta by (auto simp: tok_ok_def)
        then show ?thesis using True tok(3) cr(2) g(1) by auto
      next
        case False
        have "token (store m1 b) = t \<and> t \<noteq> [] \<and> (\<exists>n. byName m1 n = Some b) \<longleftrightarrow> byToken m t = Some b"
          using * named [of b] old [of b] bound by metis
        moreover have "byToken m t = Some b \<longrightarrow> t \<noteq> tok" using tok(1) by auto
        ultimately show ?thesis using False g(1) by auto
      qed
    qed
    show "held_ok ?m" using held1 tok(3) cr(2) by (auto simp: held_ok_def)
    show "gen_ok ?m"
      unfolding gen_ok_def
    proof
      fix t assume t: "t \<in> dom (byToken ?m)"
      show "\<exists>k\<le>unat (gen ?m). t = formatNat k"
      proof (cases "t = tok")
        case True
        then show ?thesis using g(2) by (auto simp: tok_def)
      next
        case False
        then obtain k where "k \<le> unat (gen m)" "t = formatNat k"
          using t g(1) parts(6) by (auto simp: gen_ok_def)
        then show ?thesis using tok(2) g(2) by (intro exI [of _ k]) simp
      qed
    qed
    show "exclusive ?m"
      using parts(7) free unfolding exclusive_def lv lk can_lock_def
      by (auto split: if_splits simp: locked_lview)
  qed
  moreover have "queue_ok ?m"
  proof (rule queue_ok_frame [OF qo])
    show "byExpiry ?m = byExpiry m" by (simp add: g(3))
    show "byExpiryIndex (store ?m b) = byExpiryIndex (store m b)" for b
      using old [of b] g(7) [of b] parts(3) by (cases "b < brk m") (auto simp: fresh_zero_def zero_node_def)
    show "expiry (store ?m b) = expiry (store m b)" if "b \<in> set (byExpiry m)" for b
      using that queue1 [of b] g(3) old [of b] queue_bound [OF inv that] by simp
  qed
  moreover have "\<not> held (store m1 a)" using held1 ta by blast
  moreover have "byName m1 q = byName m q" if "locked m q" for q
    using that g(5) by (auto simp: locked_def)
  moreover have "a \<notin> set (byExpiry m1)" using queue1 by blast
  ultimately show ?thesis using cr g(2) queue1 lv by blast
qed

section \<open>Changing one lock\<close>

text \<open>A node belongs in the queue; the queue is right but for the node \<open>a\<close>.\<close>

definition queues :: "memLS \<Rightarrow> addr \<Rightarrow> bool" where
  "queues m a \<longleftrightarrow> (\<exists>n. byName m n = Some a) \<and> token (store m a) \<noteq> [] \<and> \<not> held (store m a) \<and>
     0 \<le> lk_Duration (details (store m a))"

definition queue_except :: "addr \<Rightarrow> memLS \<Rightarrow> bool" where
  "queue_except a m \<longleftrightarrow> (\<forall>b. b \<noteq> a \<longrightarrow> (b \<in> set (byExpiry m) \<longleftrightarrow> queues m b)) \<and>
     (\<forall>b\<in>set (byExpiry m). b < brk m)"

lemma queue_locks_iff: "queue_locks m \<longleftrightarrow> (\<forall>b. b \<in> set (byExpiry m) \<longleftrightarrow> queues m b)"
  by (simp add: queue_locks_def queues_def)

lemma lock_inv_except: "lock_inv m \<Longrightarrow> queue_except a m"
  using queue_bound [of m] by (auto simp: lock_inv_def queue_locks_iff queue_except_def)

lemma same_nodes_queues: "same_nodes m m' \<Longrightarrow> queues m' = queues m"
  by (simp add: queues_def same_nodesD fun_eq_iff)

lemma push_inv:
  assumes "nodes_inv m" and "queue_ok m" and "queue_except a m" and "a \<notin> set (byExpiry m)" and "queues m a"
  shows "lock_inv (heap_Push a m) \<and> same_nodes m (heap_Push a m)"
proof -
  note p = heap_Push_spec [OF assms(2,4)]
  have "a < brk m" using assms(1,5) by (auto simp: queues_def nodes_inv_def names_ok_def)
  then have "b < brk m" if "b \<in> set (byExpiry (heap_Push a m))" for b
    using that p assms(3) by (auto simp: queue_except_def)
  then have "nodes_inv (heap_Push a m)"
    by (rule same_nodes_inv [OF assms(1), rotated 2]) (use p in blast)+
  moreover have "queue_locks (heap_Push a m)"
    using p assms(3,5) same_nodes_queues [of m "heap_Push a m"] by (auto simp: queue_locks_iff queue_except_def)
  ultimately show ?thesis using p by (simp add: lock_inv_def)
qed

lemma skip_inv:
  "nodes_inv m \<Longrightarrow> queue_ok m \<Longrightarrow> queue_except a m \<Longrightarrow> a \<notin> set (byExpiry m) \<Longrightarrow> \<not> queues m a \<Longrightarrow> lock_inv m"
  unfolding lock_inv_def queue_locks_iff queue_except_def by (metis (full_types))

definition unqueue :: "addr \<Rightarrow> memLS \<Rightarrow> memLS" where
  "unqueue a m = (if byExpiryIndex (store m a) \<ge> 0 then heap_Remove (nat (byExpiryIndex (store m a))) m else m)"

lemma unqueue_inv:
  assumes "nodes_inv m" and "queue_ok m" and "queue_except a m"
  shows "nodes_inv (unqueue a m) \<and> queue_ok (unqueue a m) \<and> queue_except a (unqueue a m) \<and>
    a \<notin> set (byExpiry (unqueue a m)) \<and> same_nodes m (unqueue a m)"
proof (cases "byExpiryIndex (store m a) \<ge> 0")
  case False
  then show ?thesis using assms queue_index(1) [OF assms(2), of a] by (simp add: unqueue_def)
next
  case True
  then have a: "a \<in> set (byExpiry m)" using queue_index(1) [OF assms(2)] by simp
  have u: "unqueue a m = heap_Remove (nat (byExpiryIndex (store m a))) m" using True by (simp add: unqueue_def)
  from heap_Remove_spec [OF assms(2) queue_index(2) [OF assms(2) a]] queue_index(3) [OF assms(2) a]
  have r: "queue_ok (unqueue a m) \<and> same_nodes m (unqueue a m)
      \<and> set (byExpiry (unqueue a m)) = set (byExpiry m) - {a}" by (simp add: u)
  moreover have "nodes_inv (unqueue a m)"
    using same_nodes_inv [OF assms(1)] r assms(3) by (auto simp: queue_except_def)
  ultimately show ?thesis
    using assms(3) same_nodes_queues [of m "unqueue a m"] same_nodesD(1) [of m "unqueue a m"]
    by (auto simp: queue_except_def)
qed

lemma upd_inv:
  assumes ni: "nodes_inv m" and n: "byName m n = Some a" and t: "token (store m a) \<noteq> []"
    and f: "token (f (store m a)) = token (store m a)" "refCount (f (store m a)) = refCount (store m a)"
      "lk_Root (details (f (store m a))) = lk_Root (details (store m a))"
      "lk_ZeroDepth (details (f (store m a))) = lk_ZeroDepth (details (store m a))"
  shows "nodes_inv (upd a f m) \<and> lview (upd a f m) = (lview m)(n \<mapsto> vw (f (store m a)))"
proof -
  let ?m = "upd a f m"
  have fl: "byName ?m = byName m" "byToken ?m = byToken m" "gen ?m = gen m" "brk ?m = brk m"
      "store ?m = (store m)(a := f (store m a))" by (simp_all add: upd_def)
  have inj: "b \<noteq> a" if "byName m q = Some b" "q \<noteq> n" for q b
    using names_inj [of _ m q a n] ni n that by (auto simp: nodes_inv_def)
  have lv: "lview ?m = (lview m)(n \<mapsto> vw (f (store m a)))"
  proof
    fix q show "lview ?m q = ((lview m)(n \<mapsto> vw (f (store m a)))) q"
    proof (cases "q = n")
      case True
      then show ?thesis using n t f(1) by (simp add: lview_def fl)
    next
      case False
      then show ?thesis using inj by (auto simp: lview_def fl split: option.splits)
    qed
  qed
  have ln: "locked m n" using n t by (auto simp: locked_def)
  have lk: "locked ?m q = locked m q" for q using lv ln by (simp add: locked_lview)
  have vn: "lview m n = Some (vw (store m a))" using n t by (simp add: lview_Some)
  have "nodes_inv ?m"
    unfolding nodes_inv_def
  proof (intro conjI)
    have "cover_count ?m = cover_count m" by (simp add: cover_count_def lk fun_eq_iff)
    then show "names_ok (cover_count ?m) ?m"
      using ni f by (auto simp: nodes_inv_def names_ok_def fl)
    show "finite {q. locked ?m q}" using ni by (simp add: nodes_inv_def lk)
    have "a < brk m" using ni n by (simp add: nodes_inv_def names_ok_def)
    then show "fresh_zero ?m" using ni by (auto simp: nodes_inv_def fresh_zero_def fl)
    show "tok_ok ?m" using ni f(1) by (auto simp: nodes_inv_def tok_ok_def fl)
    show "held_ok ?m" using ni f(1) n t by (auto simp: nodes_inv_def held_ok_def fl)
    show "gen_ok ?m" using ni by (simp add: nodes_inv_def gen_ok_def fl)
    have ex: "locked m q \<Longrightarrow> lview m r = Some v \<Longrightarrow> r \<noteq> q \<Longrightarrow> covers r q \<Longrightarrow> lk_ZeroDepth (details v)" for r q v
      using ni by (auto simp: nodes_inv_def exclusive_def)
    show "exclusive ?m"
      unfolding exclusive_def lv lk using ex ex [OF _ vn] f(4) by (auto split: if_splits)
  qed
  with lv show ?thesis by simp
qed

section \<open>The operations after the collection\<close>

text \<open>What a lock is after the operations on it.\<close>

definition lock_node :: "lock_details \<Rightarrow> gostring \<Rightarrow> int \<Rightarrow> bool \<Rightarrow> memLSNode" where
  "lock_node ds tok e h = \<lparr>details = ds, token = tok, refCount = 0, expiry = e, byExpiryIndex = 0, held = h\<rparr>"

lemma vw_lock_node: "vw n = lock_node (details n) (token n) (expiry n) (held n)"
  by (cases n) (simp add: vw_def lock_node_def)

lemma create_tail:
  assumes inv: "lock_inv m" and clean: "cleanName (lk_Root ds)"
    and free: "can_lock (lk_Root ds) (lk_ZeroDepth ds) (lview m)" and gen: "gen m \<noteq> -1"
  defines "tok \<equiv> formatNat (unat (gen m + 1))"
  shows "\<exists>m1 a. create (lk_Root ds) m = Some (m1, a) \<and> gen m1 = gen m \<and>
    (\<forall>e. let m5 = install a tok ds e m1; m6 = (if 0 \<le> lk_Duration ds then heap_Push a m5 else m5)
     in lock_inv m6 \<and> lview m6 = (lview m)(lk_Root ds \<mapsto> lock_node ds tok e False) \<and>
        gen m6 = gen m + 1 \<and> (\<forall>q. locked m q \<longrightarrow> byName m6 q = byName m q))"
proof -
  from install_inv [OF inv clean free gen, folded tok_def] obtain m1 a where
    cr: "create (lk_Root ds) m = Some (m1, a)" "gen m1 = gen m" "a \<notin> set (byExpiry m1)"
      "byName m1 (lk_Root ds) = Some a" "\<not> held (store m1 a)"
    by blast
  have i: "nodes_inv (install a tok ds e m1) \<and> queue_ok (install a tok ds e m1)
    \<and> (\<forall>b. b \<in> set (byExpiry m1) \<longleftrightarrow> b \<noteq> a \<and> (\<exists>n. byName m1 n = Some b) \<and>
          token (store m1 b) \<noteq> [] \<and> \<not> held (store m1 b) \<and> 0 \<le> lk_Duration (details (store m1 b)))
    \<and> lview (install a tok ds e m1) =
        (lview m)(lk_Root ds \<mapsto> vw ((store m1 a)\<lparr>token := tok, details := ds, expiry := e\<rparr>))
    \<and> (\<forall>q. locked m q \<longrightarrow> byName m1 q = byName m q)" for e
    using install_inv [OF inv clean free gen, of e, folded tok_def] cr(1) by auto
  have tok: "tok \<noteq> []" by (simp add: tok_def)
  have "let m5 = install a tok ds e m1; m6 = (if 0 \<le> lk_Duration ds then heap_Push a m5 else m5)
     in lock_inv m6 \<and> lview m6 = (lview m)(lk_Root ds \<mapsto> lock_node ds tok e False) \<and>
        gen m6 = gen m + 1 \<and> (\<forall>q. locked m q \<longrightarrow> byName m6 q = byName m q)" for e
  proof -
    let ?m = "install a tok ds e m1"
    have "nodes_inv ?m" "queue_ok ?m" using i by blast+
    have bound: "b < brk ?m" if "byName m1 n = Some b" for n b
      using \<open>nodes_inv ?m\<close> that by (auto simp: nodes_inv_def names_ok_def)
    have qe: "queue_except a ?m"
      using i [of e] bound by (auto simp: queue_except_def queues_def)
    have q: "queues ?m a \<longleftrightarrow> 0 \<le> lk_Duration ds"
      using cr(4,5) tok by (auto simp: queues_def)
    have lv: "lview ?m = (lview m)(lk_Root ds \<mapsto> lock_node ds tok e False)"
      using i [of e] cr(5) by (simp add: vw_lock_node)
    show ?thesis
    proof (cases "0 \<le> lk_Duration ds")
      case True
      have p: "lock_inv (heap_Push a ?m) \<and> same_nodes ?m (heap_Push a ?m)"
        by (rule push_inv [OF \<open>nodes_inv ?m\<close> \<open>queue_ok ?m\<close> qe]) (use cr(3) q True in simp_all)
      then show ?thesis
        using True lv cr(2) i [of e] same_nodes_lview [of ?m "heap_Push a ?m"] same_nodesD [of ?m "heap_Push a ?m"]
        by (simp add: Let_def)
    next
      case False
      have "lock_inv ?m"
        by (rule skip_inv [OF \<open>nodes_inv ?m\<close> \<open>queue_ok ?m\<close> qe]) (use cr(3) q False in simp_all)
      then show ?thesis using False lv cr(2) i [of e] by (simp add: Let_def)
    qed
  qed
  then show ?thesis using cr by (intro exI [of _ m1] exI [of _ a]) simp
qed

text \<open>
  The operations refine these on the map of locks. \<open>alive\<close> collects; a lock is created when it
  conflicts with none, refreshed or removed when it is not held.
\<close>

lemma Create_effect:
  fixes d0 :: lock_details and now :: int and m :: memLS
  assumes inv: "lock_inv m" and gen: "gen m \<noteq> -1"
  defines "ds \<equiv> d0\<lparr>lk_Root := slashClean (lk_Root d0)\<rparr>" and "L \<equiv> unexpired now (lview m)"
    and "tok \<equiv> formatNat (unat (gen m + 1))"
  shows "\<exists>m' e. Create_lock now d0 m =
      Some (if can_lock (lk_Root ds) (lk_ZeroDepth ds) L then Inr tok else Inl ErrLocked, m')
    \<and> lock_inv m'
    \<and> lview m' = (if can_lock (lk_Root ds) (lk_ZeroDepth ds) L
         then L(lk_Root ds \<mapsto> lock_node ds tok e False) else L)
    \<and> (0 \<le> lk_Duration ds \<longrightarrow> e = now + lk_Duration ds)
    \<and> gen m' = (if can_lock (lk_Root ds) (lk_ZeroDepth ds) L then gen m + 1 else gen m)
    \<and> (\<forall>q. L q \<noteq> None \<longrightarrow> byName m' q = byName m q)"
proof -
  from collect_inv [OF inv, of now] obtain mc where
    mc: "collectExpiredNodes now m = Some mc" "lock_inv mc" "lview mc = L" "gen mc = gen m"
      "\<And>q. locked mc q \<Longrightarrow> byName mc q = byName m q" by (auto simp: L_def)
  have clean: "cleanName (lk_Root ds)" by (simp add: ds_def cleanName_slashClean)
  have cc: "canCreate (lk_Root ds) (lk_ZeroDepth ds) mc = Some (can_lock (lk_Root ds) (lk_ZeroDepth ds) L)"
    using canCreate_spec [OF _ clean] mc(2,3) by (simp add: lock_inv_def)
  show ?thesis
  proof (cases "can_lock (lk_Root ds) (lk_ZeroDepth ds) L")
    case False
    then have "Create_lock now d0 m = Some (Inl ErrLocked, mc)"
      using mc(1) cc by (simp add: Create_lock_def ds_def Let_def)
    moreover have "lk_Duration ds \<ge> 0 \<longrightarrow> now + lk_Duration ds = now + lk_Duration ds" by simp
    ultimately show ?thesis using False mc(2,3,4,5)
      by (intro exI [of _ mc] exI [of _ "now + lk_Duration ds"]) (simp add: locked_lview)
  next
    case True
    with create_tail [OF mc(2) clean] gen mc(3,4) obtain m1 a where
      cr: "create (lk_Root ds) mc = Some (m1, a)" "gen m1 = gen m" and
      tail: "\<And>e. let m5 = install a tok ds e m1; m6 = (if 0 \<le> lk_Duration ds then heap_Push a m5 else m5)
        in lock_inv m6 \<and> lview m6 = L(lk_Root ds \<mapsto> lock_node ds tok e False) \<and> gen m6 = gen m + 1 \<and>
          (\<forall>q. locked mc q \<longrightarrow> byName m6 q = byName mc q)"
      unfolding tok_def by auto
    define e where "e = (if 0 \<le> lk_Duration ds then now + lk_Duration ds else expiry (store m1 a))"
    let ?m5 = "install a tok ds e m1"
    let ?m6 = "if 0 \<le> lk_Duration ds then heap_Push a ?m5 else ?m5"
    have "Create_lock now d0 m = Some (Inr tok, ?m6)"
      using mc(1) cc True cr
      by (simp add: Create_lock_def ds_def [symmetric] Let_def nextToken_def tok_def e_def upd_def install_def)
    moreover have "byName ?m6 q = byName m q" if "L q \<noteq> None" for q
      using that tail [of e] mc(3,5) by (simp add: Let_def locked_lview)
    moreover have "0 \<le> lk_Duration ds \<longrightarrow> e = now + lk_Duration ds" by (simp add: e_def)
    ultimately show ?thesis
      using True tail [of e] by (intro exI [of _ ?m6] exI [of _ e]) (simp add: Let_def)
  qed
qed

lemma unqueue_eq:
  "(if byExpiryIndex (store m a) \<ge> 0 then heap_Remove (nat (byExpiryIndex (store m a))) m else m) = unqueue a m"
  by (simp add: unqueue_def)

text \<open>A lock is found under its token.\<close>

lemma byToken_lview:
  assumes "nodes_inv m"
  shows "byToken m t = Some a \<longleftrightarrow>
    (\<exists>n v. lview m n = Some v \<and> token v = t \<and> byName m n = Some a)"
proof -
  have "byToken m t = Some a \<longleftrightarrow> t \<noteq> [] \<and> (\<exists>n. byName m n = Some a) \<and> token (store m a) = t"
    using assms by (simp add: nodes_inv_def tok_ok_def)
  then show ?thesis unfolding lview_Some by (metis vw_fields(2) option.inject)
qed

lemma token_unique:
  assumes "nodes_inv m" and "lview m n = Some v" and "lview m n' = Some v'" and "token v = token v'"
  shows "n = n'"
proof -
  obtain a a' where "byName m n = Some a" "byName m n' = Some a'" using assms(2,3) by (auto simp: lview_Some)
  moreover from this have "byToken m (token v) = Some a" "byToken m (token v) = Some a'"
    using byToken_lview [OF assms(1)] assms(2-4) by metis+
  ultimately show ?thesis using names_inj assms(1) unfolding nodes_inv_def by (metis option.inject)
qed

lemma byToken_None:
  assumes "nodes_inv m"
  shows "byToken m t = None \<longleftrightarrow> (\<forall>n v. lview m n = Some v \<longrightarrow> token v \<noteq> t)"
proof (cases "byToken m t")
  case (Some a)
  then obtain n v where "lview m n = Some v" "token v = t" using byToken_lview [OF assms] by blast
  with Some show ?thesis by auto
next
  case None
  have "token v \<noteq> t" if v: "lview m n = Some v" for n v
  proof -
    from v obtain a where "byName m n = Some a" by (auto simp: lview_Some)
    with v have "byToken m (token v) = Some a" using byToken_lview [OF assms] by blast
    with None show ?thesis by auto
  qed
  with None show ?thesis by blast
qed

lemma lock_of_node:
  assumes "lview m n = Some v" and "byName m n = Some a"
  shows "token (store m a) \<noteq> []" and "held (store m a) = held v"
    and "details (store m a) = details v" and "token (store m a) = token v" and "expiry (store m a) = expiry v"
  using assms by (auto simp: lview_Some)

section \<open>The abstract lock system\<close>

text \<open>
  The state is the map from names to locks; time passing removes the expired ones. These are
  the operations the interface \<open>LockSystem\<close> describes, without names, counts and queue.
\<close>

type_synonym locks = "gostring \<rightharpoonup> memLSNode"

inductive create_does :: "lock_details \<Rightarrow> int \<Rightarrow> locks \<Rightarrow> lock_error + gostring \<Rightarrow> locks \<Rightarrow> bool" for ds now L where
  refused: "\<not> can_lock (lk_Root ds) (lk_ZeroDepth ds) L \<Longrightarrow> create_does ds now L (Inl ErrLocked) L"
| created: "can_lock (lk_Root ds) (lk_ZeroDepth ds) L \<Longrightarrow> \<forall>n v. L n = Some v \<longrightarrow> token v \<noteq> tok \<Longrightarrow>
    (0 \<le> lk_Duration ds \<longrightarrow> e = now + lk_Duration ds) \<Longrightarrow>
    create_does ds now L (Inr tok) (L(lk_Root ds \<mapsto> lock_node ds tok e False))"

inductive refresh_does ::
  "gostring \<Rightarrow> int \<Rightarrow> int \<Rightarrow> locks \<Rightarrow> lock_error + lock_details \<Rightarrow> locks \<Rightarrow> bool" for tok now duration L where
  no_lock: "\<forall>n v. L n = Some v \<longrightarrow> token v \<noteq> tok \<Longrightarrow> refresh_does tok now duration L (Inl ErrNoSuchLock) L"
| in_use: "L n = Some v \<Longrightarrow> token v = tok \<Longrightarrow> held v \<Longrightarrow> refresh_does tok now duration L (Inl ErrLocked) L"
| refreshed: "L n = Some v \<Longrightarrow> token v = tok \<Longrightarrow> \<not> held v \<Longrightarrow> ds = (details v)\<lparr>lk_Duration := duration\<rparr> \<Longrightarrow>
    refresh_does tok now duration L (Inr ds)
      (L(n \<mapsto> lock_node ds tok (if 0 \<le> duration then now + duration else expiry v) False))"

inductive unlock_does :: "gostring \<Rightarrow> locks \<Rightarrow> lock_error option \<Rightarrow> locks \<Rightarrow> bool" for tok L where
  no_lock: "\<forall>n v. L n = Some v \<longrightarrow> token v \<noteq> tok \<Longrightarrow> unlock_does tok L (Some ErrNoSuchLock) L"
| in_use: "L n = Some v \<Longrightarrow> token v = tok \<Longrightarrow> held v \<Longrightarrow> unlock_does tok L (Some ErrLocked) L"
| unlocked: "L n = Some v \<Longrightarrow> token v = tok \<Longrightarrow> \<not> held v \<Longrightarrow> unlock_does tok L None (L(n := None))"

text \<open>\<open>keeps\<close>: the locks there are after a step have kept their nodes.\<close>

definition keeps :: "memLS \<Rightarrow> memLS \<Rightarrow> locks \<Rightarrow> bool" where
  "keeps m m' L \<longleftrightarrow> (\<forall>q. L q \<noteq> None \<longrightarrow> byName m' q = byName m q)"

lemma keepsI: "(\<And>q. L q \<noteq> None \<Longrightarrow> byName m' q = byName m q) \<Longrightarrow> keeps m m' L"
  by (simp add: keeps_def)

lemma keeps_trans: "keeps m m' L \<Longrightarrow> keeps m' m'' L' \<Longrightarrow> (\<And>q. L' q \<noteq> None \<Longrightarrow> L q \<noteq> None) \<Longrightarrow> keeps m m'' L'"
  by (simp add: keeps_def)

lemma collected:
  assumes "lock_inv m"
  obtains mc where "collectExpiredNodes now m = Some mc" "lock_inv mc" "lview mc = unexpired now (lview m)"
    "gen mc = gen m" "keeps m mc (lview mc)" "nodes_inv mc" "queue_ok mc"
  using collect_inv [OF assms, of now] by (auto simp: keeps_def locked_lview lock_inv_def)

theorem Unlock_refines:
  assumes "lock_inv m"
  shows "\<exists>res m'. Unlock now tok m = Some (res, m') \<and> lock_inv m' \<and> gen m' = gen m \<and>
    keeps m m' (lview m') \<and> unlock_does tok (unexpired now (lview m)) res (lview m')"
proof -
  obtain mc where mc: "collectExpiredNodes now m = Some mc" "lock_inv mc" "lview mc = unexpired now (lview m)"
    "gen mc = gen m" "keeps m mc (lview mc)" "nodes_inv mc" by (rule collected [OF assms])
  show ?thesis
  proof (cases "byToken mc tok")
    case None
    then have "unlock_does tok (lview mc) (Some ErrNoSuchLock) (lview mc)"
      using byToken_None [OF mc(6)] by (intro unlock_does.no_lock) simp
    moreover have "Unlock now tok m = Some (Some ErrNoSuchLock, mc)" using mc(1) None by (simp add: Unlock_def)
    ultimately show ?thesis using mc by metis
  next
    case (Some a)
    then obtain n v where v: "lview mc n = Some v" "token v = tok" "byName mc n = Some a"
      using byToken_lview [OF mc(6)] by blast
    note nd = lock_of_node [OF v(1,3)]
    show ?thesis
    proof (cases "held v")
      case True
      then have "unlock_does tok (lview mc) (Some ErrLocked) (lview mc)"
        using v by (intro unlock_does.in_use)
      moreover have "Unlock now tok m = Some (Some ErrLocked, mc)"
        using mc(1) Some nd True by (simp add: Unlock_def)
      ultimately show ?thesis using mc by metis
    next
      case False
      with remove_inv [OF mc(2) v(3) nd(1)] nd obtain m' where
        m': "remove a mc = Some m'" "lock_inv m'" "lview m' = (lview mc)(n := None)" "gen m' = gen mc"
          "\<And>q. locked mc q \<Longrightarrow> q \<noteq> n \<Longrightarrow> byName m' q = byName mc q" by auto
      have "unlock_does tok (lview mc) None (lview m')"
        unfolding m'(3) using v(1,2) False by (rule unlock_does.unlocked)
      moreover have "Unlock now tok m = Some (None, m')"
        using mc(1) Some False nd m'(1) by (simp add: Unlock_def)
      moreover have "keeps mc m' (lview m')"
        using m'(3,5) by (auto simp: keeps_def locked_lview split: if_splits)
      then have "keeps m m' (lview m')"
        by (rule keeps_trans [OF mc(5)]) (simp add: m'(3) split: if_splits)
      ultimately show ?thesis using mc m' by metis
    qed
  qed
qed

lemma refresh_tail:
  fixes duration now :: int and a :: addr and v :: memLSNode and mc :: memLS
  assumes inv: "lock_inv mc" and v: "lview mc n = Some v" "byName mc n = Some a" "\<not> held v"
  defines "ds \<equiv> (details v)\<lparr>lk_Duration := duration\<rparr>"
  defines "m2 \<equiv> upd a (\<lambda>n. n\<lparr>details := (details n)\<lparr>lk_Duration := duration\<rparr>\<rparr>) (unqueue a mc)"
  defines "m3 \<equiv> (if 0 \<le> duration then heap_Push a (upd a (\<lambda>n. n\<lparr>expiry := now + duration\<rparr>) m2) else m2)"
  shows "lock_inv m3 \<and> gen m3 = gen mc \<and> byName m3 = byName mc \<and> details (store m3 a) = ds \<and>
    lview m3 = (lview mc)(n \<mapsto> lock_node ds (token v) (if 0 \<le> duration then now + duration else expiry v) False)"
proof -
  have ni: "nodes_inv mc" and qo: "queue_ok mc" using inv by (simp_all add: lock_inv_def)
  let ?e = "if 0 \<le> duration then now + duration else expiry v"
  let ?f = "\<lambda>x. x\<lparr>details := (details x)\<lparr>lk_Duration := duration\<rparr>, expiry := ?e\<rparr>"
  let ?m1 = "unqueue a mc" let ?m2 = "upd a ?f ?m1"
  note nd = lock_of_node [OF v(1,2)]
  have u: "nodes_inv ?m1 \<and> queue_ok ?m1 \<and> queue_except a ?m1 \<and> a \<notin> set (byExpiry ?m1) \<and> same_nodes mc ?m1"
    by (rule unqueue_inv [OF ni qo lock_inv_except [OF inv]])
  note s = same_nodesD [OF conjunct2 [OF conjunct2 [OF conjunct2 [OF conjunct2 [OF u]]]]]
  have lv1: "lview ?m1 = lview mc" using u same_nodes_lview by blast
  have n1: "byName ?m1 n = Some a" "token (store ?m1 a) \<noteq> []" using s v(2) nd by simp_all
  have i2: "nodes_inv ?m2 \<and> lview ?m2 = (lview ?m1)(n \<mapsto> vw (?f (store ?m1 a)))"
    by (rule upd_inv) (use u n1 in simp_all)
  have fl: "byName ?m2 = byName mc" "byExpiry ?m2 = byExpiry ?m1" "brk ?m2 = brk ?m1" "gen ?m2 = gen mc"
    "store ?m2 = (store ?m1)(a := ?f (store ?m1 a))"
    using s by (simp_all add: upd_def)
  have qo2: "queue_ok ?m2" by (rule queue_ok_frame [of ?m1]) (use u fl in auto)
  have qe2: "queue_except a ?m2" using u s by (auto simp: queue_except_def queues_def fl)
  have na: "a \<notin> set (byExpiry ?m2)" using u fl by simp
  have qs: "queues ?m2 a \<longleftrightarrow> 0 \<le> duration"
    using s nd v by (auto simp: queues_def fl)
  have vwf: "vw (?f (store ?m1 a)) = lock_node ds (token v) ?e False"
    using s nd v(3) by (simp add: vw_lock_node ds_def)
  have same: "x\<lparr>details := d, expiry := e\<rparr> = x\<lparr>details := d\<rparr>" if "expiry x = e" for x :: memLSNode and e d
    using that by (cases x) simp
  have e1: "expiry (store ?m1 a) = expiry v" using s nd by simp
  have eq: "m3 = (if 0 \<le> duration then heap_Push a ?m2 else ?m2)"
    using s nd by (simp add: m3_def m2_def upd_def same [OF e1])
  have m3: "lock_inv m3 \<and> same_nodes ?m2 m3"
    using push_inv [OF conjunct1 [OF i2] qo2 qe2 na] skip_inv [OF conjunct1 [OF i2] qo2 qe2 na] qs
    by (simp add: eq)
  note s3 = same_nodesD [OF conjunct2 [OF m3]]
  have "lview m3 = (lview mc)(n \<mapsto> lock_node ds (token v) ?e False)"
    using i2 lv1 vwf same_nodes_lview [of ?m2 m3] m3 by simp
  moreover have "details (store m3 a) = ds" using s3 s nd by (simp add: fl ds_def)
  ultimately show ?thesis using m3 s3 fl by simp
qed

theorem Refresh_refines:
  assumes "lock_inv m"
  shows "\<exists>res m'. Refresh now tok duration m = Some (res, m') \<and> lock_inv m' \<and> gen m' = gen m \<and>
    keeps m m' (lview m') \<and> refresh_does tok now duration (unexpired now (lview m)) res (lview m')"
proof -
  obtain mc where mc: "collectExpiredNodes now m = Some mc" "lock_inv mc" "lview mc = unexpired now (lview m)"
    "gen mc = gen m" "keeps m mc (lview mc)" "nodes_inv mc" by (rule collected [OF assms])
  show ?thesis
  proof (cases "byToken mc tok")
    case None
    then have "refresh_does tok now duration (lview mc) (Inl ErrNoSuchLock) (lview mc)"
      using byToken_None [OF mc(6)] by (intro refresh_does.no_lock) simp
    moreover have "Refresh now tok duration m = Some (Inl ErrNoSuchLock, mc)"
      using mc(1) None by (simp add: Refresh_def)
    ultimately show ?thesis using mc by metis
  next
    case (Some a)
    then obtain n v where v: "lview mc n = Some v" "token v = tok" "byName mc n = Some a"
      using byToken_lview [OF mc(6)] by blast
    note nd = lock_of_node [OF v(1,3)]
    show ?thesis
    proof (cases "held v")
      case True
      then have "refresh_does tok now duration (lview mc) (Inl ErrLocked) (lview mc)"
        using v by (intro refresh_does.in_use)
      moreover have "Refresh now tok duration m = Some (Inl ErrLocked, mc)"
        using mc(1) Some nd True by (simp add: Refresh_def)
      ultimately show ?thesis using mc by metis
    next
      case False
      let ?ds = "(details v)\<lparr>lk_Duration := duration\<rparr>"
      define m2 where "m2 = upd a (\<lambda>n. n\<lparr>details := (details n)\<lparr>lk_Duration := duration\<rparr>\<rparr>) (unqueue a mc)"
      define m3 where "m3 = (if 0 \<le> duration then heap_Push a (upd a (\<lambda>n. n\<lparr>expiry := now + duration\<rparr>) m2) else m2)"
      have m3: "lock_inv m3 \<and> gen m3 = gen mc \<and> byName m3 = byName mc \<and> details (store m3 a) = ?ds \<and>
          lview m3 = (lview mc)(n \<mapsto> lock_node ?ds (token v) (if 0 \<le> duration then now + duration else expiry v) False)"
        unfolding m3_def m2_def by (rule refresh_tail [OF mc(2) v(1,3) False])
      have "Refresh now tok duration m = Some (Inr (details (store m3 a)), m3)"
        using mc(1) Some nd False by (simp add: Refresh_def Let_def unqueue_eq m3_def m2_def)
      moreover have "refresh_does tok now duration (lview mc) (Inr ?ds) (lview m3)"
        using m3 v(2) refresh_does.refreshed [of "lview mc" n v tok ?ds duration now, OF v(1,2) False refl] by simp
      moreover have "keeps m m3 (lview m3)"
        using mc(5) v(1) m3 by (simp add: keeps_def)
      ultimately show ?thesis using m3 mc by metis
    qed
  qed
qed

theorem Create_refines:
  assumes "lock_inv m" and "gen m \<noteq> -1" and "ds = d0\<lparr>lk_Root := slashClean (lk_Root d0)\<rparr>"
  shows "\<exists>res m'. Create_lock now d0 m = Some (res, m') \<and> lock_inv m' \<and> (gen m' = gen m \<or> gen m' = gen m + 1) \<and>
    keeps m m' (unexpired now (lview m)) \<and> create_does ds now (unexpired now (lview m)) res (lview m')"
proof -
  let ?L = "unexpired now (lview m)" and ?tok = "formatNat (unat (gen m + 1))"
  obtain mc where mc: "lview mc = ?L" "gen mc = gen m" "nodes_inv mc" by (rule collected [OF assms(1), of now])
  have "?tok \<notin> dom (byToken mc)"
    using nextToken_fresh(1) [of mc] mc(2,3) assms(2) by (simp add: nodes_inv_def)
  then have new: "\<forall>n v. ?L n = Some v \<longrightarrow> token v \<noteq> ?tok"
    using byToken_None [OF mc(3)] mc(1) by auto
  obtain m' e where c: "Create_lock now d0 m =
      Some (if can_lock (lk_Root ds) (lk_ZeroDepth ds) ?L then Inr ?tok else Inl ErrLocked, m')"
    "lock_inv m'" "lview m' = (if can_lock (lk_Root ds) (lk_ZeroDepth ds) ?L
         then ?L(lk_Root ds \<mapsto> lock_node ds ?tok e False) else ?L)"
    "0 \<le> lk_Duration ds \<longrightarrow> e = now + lk_Duration ds"
    "gen m' = (if can_lock (lk_Root ds) (lk_ZeroDepth ds) ?L then gen m + 1 else gen m)"
    "\<forall>q. ?L q \<noteq> None \<longrightarrow> byName m' q = byName m q"
    using Create_effect [OF assms(1,2), of now d0] unfolding assms(3) by blast
  show ?thesis
  proof (cases "can_lock (lk_Root ds) (lk_ZeroDepth ds) ?L")
    case True
    have "create_does ds now ?L (Inr ?tok) (lview m')"
      using create_does.created [OF True new c(4)] c(3) True by simp
    then show ?thesis using c True by (intro exI [of _ "Inr ?tok"] exI [of _ m']) (simp add: keeps_def)
  next
    case False
    then have "create_does ds now ?L (Inl ErrLocked) (lview m')"
      using create_does.refused c(3) by simp
    then show ?thesis using c False by (intro exI [of _ "Inl ErrLocked"] exI [of _ m']) (simp add: keeps_def)
  qed
qed

section \<open>Confirm and its release\<close>

lemma heldD:
  assumes "nodes_inv m" and "held (store m a)"
  obtains n where "byName m n = Some a" "lview m n = Some (vw (store m a))"
  using assms by (auto simp: nodes_inv_def held_ok_def lview_Some)

lemma hold_inv:
  assumes inv: "lock_inv m" and v: "lview m n = Some v" "byName m n = Some a" "\<not> held v"
  shows "\<exists>m'. hold a m = Some m' \<and> lock_inv m' \<and> gen m' = gen m \<and> byName m' = byName m \<and>
    lview m' = (lview m)(n \<mapsto> v\<lparr>held := True\<rparr>)"
proof -
  let ?m1 = "upd a (\<lambda>n. n\<lparr>held := True\<rparr>) m"
  note nd = lock_of_node [OF v(1,2)]
  have ni: "nodes_inv m" and qo: "queue_ok m" and ql: "queue_locks m" using inv by (simp_all add: lock_inv_def)
  have i1: "nodes_inv ?m1 \<and> lview ?m1 = (lview m)(n \<mapsto> vw ((store m a)\<lparr>held := True\<rparr>))"
    by (rule upd_inv [OF ni v(2) nd(1)]) simp_all
  have fl: "byName ?m1 = byName m" "byExpiry ?m1 = byExpiry m" "brk ?m1 = brk m" "gen ?m1 = gen m"
    "store ?m1 = (store m)(a := (store m a)\<lparr>held := True\<rparr>)" by (simp_all add: upd_def)
  have qo1: "queue_ok ?m1" by (rule queue_ok_frame [OF qo]) (use fl in auto)
  have qe1: "queue_except a ?m1"
    using lock_inv_except [OF inv, of a] by (auto simp: queue_except_def queues_def fl)
  have u: "nodes_inv (unqueue a ?m1) \<and> queue_ok (unqueue a ?m1) \<and> queue_except a (unqueue a ?m1) \<and>
      a \<notin> set (byExpiry (unqueue a ?m1)) \<and> same_nodes ?m1 (unqueue a ?m1)"
    by (rule unqueue_inv [OF conjunct1 [OF i1] qo1 qe1])
  note s = same_nodesD [OF conjunct2 [OF conjunct2 [OF conjunct2 [OF conjunct2 [OF u]]]]]
  have "\<not> queues (unqueue a ?m1) a" using s fl by (simp add: queues_def)
  then have "lock_inv (unqueue a ?m1)" using u skip_inv by blast
  moreover have "hold a m = Some (unqueue a ?m1)"
  proof -
    have "byExpiryIndex (store m a) \<ge> 0 \<longrightarrow> 0 \<le> lk_Duration (details (store m a))"
      using queue_index(1) [OF qo, of a] ql by (auto simp: queue_locks_def)
    then show ?thesis using nd(2) v(3) by (auto simp: hold_def Let_def unqueue_def upd_def)
  qed
  moreover have "vw ((store m a)\<lparr>held := True\<rparr>) = v\<lparr>held := True\<rparr>"
    using v(1,2) by (cases "store m a") (auto simp: lview_Some vw_def)
  ultimately show ?thesis
    using u i1 s fl same_nodes_lview [of ?m1 "unqueue a ?m1"] by auto
qed

lemma unhold_inv:
  assumes inv: "lock_inv m" and v: "lview m n = Some v" "byName m n = Some a" "held v"
  shows "\<exists>m'. unhold a m = Some m' \<and> lock_inv m' \<and> gen m' = gen m \<and> byName m' = byName m \<and>
    lview m' = (lview m)(n \<mapsto> v\<lparr>held := False\<rparr>)"
proof -
  let ?m1 = "upd a (\<lambda>n. n\<lparr>held := False\<rparr>) m"
  let ?m2 = "if 0 \<le> lk_Duration (details v) then heap_Push a ?m1 else ?m1"
  note nd = lock_of_node [OF v(1,2)]
  have ni: "nodes_inv m" and qo: "queue_ok m" and ql: "queue_locks m" using inv by (simp_all add: lock_inv_def)
  have i1: "nodes_inv ?m1 \<and> lview ?m1 = (lview m)(n \<mapsto> vw ((store m a)\<lparr>held := False\<rparr>))"
    by (rule upd_inv [OF ni v(2) nd(1)]) simp_all
  have fl: "byName ?m1 = byName m" "byExpiry ?m1 = byExpiry m" "brk ?m1 = brk m" "gen ?m1 = gen m"
    "store ?m1 = (store m)(a := (store m a)\<lparr>held := False\<rparr>)" by (simp_all add: upd_def)
  have qo1: "queue_ok ?m1" by (rule queue_ok_frame [OF qo]) (use fl in auto)
  have qe1: "queue_except a ?m1"
    using lock_inv_except [OF inv, of a] by (auto simp: queue_except_def queues_def fl)
  have na: "a \<notin> set (byExpiry ?m1)" using ql nd(2) v(3) fl by (simp add: queue_locks_def)
  have qs: "queues ?m1 a \<longleftrightarrow> 0 \<le> lk_Duration (details v)"
    using nd v(2) by (auto simp: queues_def fl)
  have m2: "lock_inv ?m2 \<and> same_nodes ?m1 ?m2"
    using push_inv [OF conjunct1 [OF i1] qo1 qe1 na] skip_inv [OF conjunct1 [OF i1] qo1 qe1 na] qs by simp
  have "unhold a m = Some ?m2"
    using nd(2,3) v(3) by (simp add: unhold_def Let_def upd_def)
  moreover have "vw ((store m a)\<lparr>held := False\<rparr>) = v\<lparr>held := False\<rparr>"
    using v(1,2) by (cases "store m a") (auto simp: lview_Some vw_def)
  ultimately show ?thesis
    using m2 i1 fl same_nodesD [OF conjunct2 [OF m2]] same_nodes_lview [OF conjunct2 [OF m2]] by auto
qed

text \<open>A lock claims a name when its token is among the conditions, it is not held, and it covers the name.\<close>

definition claims :: "condition list \<Rightarrow> gostring \<Rightarrow> gostring \<Rightarrow> memLSNode \<Rightarrow> bool" where
  "claims conds name n v \<longleftrightarrow> token v \<in> cond_Token ` set conds \<and> \<not> held v \<and>
     covers n name \<and> (n = name \<or> \<not> lk_ZeroDepth (details v))"

lemma lookup_spec:
  assumes ni: "nodes_inv m" and clean: "cleanName name"
  shows "case lookup name conds m of
      Some a \<Rightarrow> \<exists>n v. lview m n = Some v \<and> byName m n = Some a \<and> claims conds name n v
    | None \<Rightarrow> \<forall>n v. lview m n = Some v \<longrightarrow> \<not> claims conds name n v"
proof (induction conds)
  case Nil
  then show ?case by (simp add: claims_def)
next
  case (Cons c cs)
  have mono: "claims cs name n v \<Longrightarrow> claims (c # cs) name n v" for n v by (auto simp: claims_def)
  have skip: ?case
    if "lookup name (c # cs) m = lookup name cs m"
      and no: "\<And>n v. lview m n = Some v \<Longrightarrow> token v = cond_Token c \<Longrightarrow> \<not> claims (c # cs) name n v"
  proof -
    have "claims cs name n v" if "claims (c # cs) name n v" "lview m n = Some v" for n v
      using that no [of n v] by (auto simp: claims_def)
    then show ?thesis using Cons that(1) mono by (auto split: option.splits)
  qed
  show ?case
  proof (cases "byToken m (cond_Token c)")
    case None
    then have "\<forall>n v. lview m n = Some v \<longrightarrow> token v \<noteq> cond_Token c" using byToken_None [OF ni] by blast
    then show ?thesis by (intro skip) (simp add: None, blast)
  next
    case (Some a)
    then obtain n v where v: "lview m n = Some v" "token v = cond_Token c" "byName m n = Some a"
      using byToken_lview [OF ni] by blast
    note nd = lock_of_node [OF v(1,3)]
    have uniq: "n' = n \<and> v' = v" if "lview m n' = Some v'" "token v' = cond_Token c" for n' v'
      using token_unique [OF ni that(1) v(1)] that v by auto
    have cn: "cleanName n" and root: "lk_Root (details (store m a)) = n"
      using ni v(3) by (simp_all add: nodes_inv_def names_ok_def)
    note below = hasPrefix_below [OF cn clean]
    have cond: "lookup name (c # cs) m =
        (if \<not> held v \<and> (name = n \<or> \<not> lk_ZeroDepth (details v) \<and> covers n name) then Some a
         else lookup name cs m)"
      using Some nd root below by (auto simp: Let_def)
    show ?thesis
    proof (cases "\<not> held v \<and> (name = n \<or> \<not> lk_ZeroDepth (details v) \<and> covers n name)")
      case True
      then have "claims (c # cs) name n v" using v(2) by (auto simp: claims_def)
      then show ?thesis using True cond v by auto
    next
      case False
      then have "\<not> claims (c # cs) name n v" by (auto simp: claims_def)
      then show ?thesis using False cond uniq by (intro skip) auto
    qed
  qed
qed

text \<open>What \<open>Confirm\<close> does on the map of locks; its release function is the pair of names it holds.\<close>

definition claimed :: "condition list \<Rightarrow> gostring \<Rightarrow> locks \<Rightarrow> gostring option \<Rightarrow> bool" where
  "claimed conds name L x \<longleftrightarrow>
     (if name = [] then x = None
      else \<exists>n v. x = Some n \<and> L n = Some v \<and> claims conds (slashClean name) n v)"

definition set_held :: "bool \<Rightarrow> gostring option \<Rightarrow> locks \<Rightarrow> locks" where
  "set_held h x L = (case x of None \<Rightarrow> L | Some n \<Rightarrow> L(n := map_option (\<lambda>v. v\<lparr>held := h\<rparr>) (L n)))"

inductive confirm_does ::
  "gostring \<Rightarrow> gostring \<Rightarrow> condition list \<Rightarrow> locks \<Rightarrow>
   lock_error + gostring option \<times> gostring option \<Rightarrow> locks \<Rightarrow> bool" for name0 name1 conds L where
  failed: "(\<nexists>x. claimed conds name0 L x) \<or> (\<nexists>y. claimed conds name1 L y) \<Longrightarrow>
    confirm_does name0 name1 conds L (Inl ErrConfirmationFailed) L"
| confirmed: "claimed conds name0 L x \<Longrightarrow> claimed conds name1 L y \<Longrightarrow> y' = (if y = x then None else y) \<Longrightarrow>
    confirm_does name0 name1 conds L (Inr (x, y')) (set_held True y' (set_held True x L))"

text \<open>The node of a lock that is held.\<close>

definition addr_of :: "memLS \<Rightarrow> gostring option \<Rightarrow> addr option" where
  "addr_of m x = Option.bind x (byName m)"

lemma addr_of_simps [simp]: "addr_of m None = None" "addr_of m (Some n) = byName m n"
  by (simp_all add: addr_of_def)

text \<open>The lock that is looked up for a name of \<open>Confirm\<close>.\<close>

lemma lookup_claimed:
  fixes conds :: "condition list" and name :: gostring and m :: memLS
  assumes "nodes_inv m"
  defines "r \<equiv> (if name \<noteq> [] then lookup (slashClean name) conds m else None)"
  shows "name \<noteq> [] \<and> r = None \<Longrightarrow> \<nexists>x. claimed conds name (lview m) x"
    and "\<not> (name \<noteq> [] \<and> r = None) \<Longrightarrow>
      \<exists>x. claimed conds name (lview m) x \<and> r = addr_of m x \<and> (\<forall>n. x = Some n \<longrightarrow> byName m n \<noteq> None)"
proof -
  note l = lookup_spec [OF assms(1) cleanName_slashClean [of name], where conds = conds]
  show "\<nexists>x. claimed conds name (lview m) x" if "name \<noteq> [] \<and> r = None"
    using that l by (auto simp: claimed_def r_def)
  show "\<exists>x. claimed conds name (lview m) x \<and> r = addr_of m x \<and> (\<forall>n. x = Some n \<longrightarrow> byName m n \<noteq> None)"
    if *: "\<not> (name \<noteq> [] \<and> r = None)"
  proof (cases "name = []")
    case True
    then show ?thesis by (simp add: claimed_def r_def)
  next
    case False
    with * obtain a where a: "lookup (slashClean name) conds m = Some a" by (auto simp: r_def)
    with l obtain n v where "lview m n = Some v" "byName m n = Some a" "claims conds (slashClean name) n v" by auto
    then show ?thesis using a False by (intro exI [of _ "Some n"]) (auto simp: claimed_def r_def)
  qed
qed

lemma hold_opt_inv:
  assumes inv: "lock_inv m" and x: "\<And>n. x = Some n \<Longrightarrow> \<exists>v. lview m n = Some v \<and> \<not> held v"
  shows "\<exists>m'. hold_opt (addr_of m x) m = Some m' \<and> lock_inv m' \<and> gen m' = gen m \<and> byName m' = byName m \<and>
    lview m' = set_held True x (lview m)"
proof (cases x)
  case None
  then show ?thesis using inv by (simp add: hold_opt_def set_held_def)
next
  case (Some n)
  then obtain v where v: "lview m n = Some v" "\<not> held v" using x by blast
  then obtain a where "byName m n = Some a" by (auto simp: lview_Some)
  with hold_inv [OF inv v(1) this v(2)] Some v show ?thesis by (auto simp: hold_opt_def set_held_def)
qed

lemma unhold_opt_inv:
  assumes inv: "lock_inv m" and x: "\<And>n. x = Some n \<Longrightarrow> \<exists>v. lview m n = Some v \<and> held v"
  shows "\<exists>m'. unhold_opt (addr_of m x) m = Some m' \<and> lock_inv m' \<and> gen m' = gen m \<and> byName m' = byName m \<and>
    lview m' = set_held False x (lview m)"
proof (cases x)
  case None
  then show ?thesis using inv by (simp add: unhold_opt_def set_held_def)
next
  case (Some n)
  then obtain v where v: "lview m n = Some v" "held v" using x by blast
  then obtain a where "byName m n = Some a" by (auto simp: lview_Some)
  with unhold_inv [OF inv v(1) this v(2)] Some v show ?thesis by (auto simp: unhold_opt_def set_held_def)
qed

lemma set_held_dom: "set_held h x L q \<noteq> None \<longleftrightarrow> L q \<noteq> None"
  by (auto simp: set_held_def split: option.splits)

theorem Confirm_refines:
  assumes "lock_inv m"
  shows "\<exists>res ares m'. Confirm now name0 name1 conds m = Some (res, m') \<and> lock_inv m' \<and> gen m' = gen m \<and>
    keeps m m' (lview m') \<and> confirm_does name0 name1 conds (unexpired now (lview m)) ares (lview m') \<and>
    res = map_sum id (map_prod (addr_of m') (addr_of m')) ares"
proof -
  obtain mc where mc: "collectExpiredNodes now m = Some mc" "lock_inv mc" "lview mc = unexpired now (lview m)"
    "gen mc = gen m" "keeps m mc (lview mc)" "nodes_inv mc" by (rule collected [OF assms])
  let ?n0 = "if name0 \<noteq> [] then lookup (slashClean name0) conds mc else None"
  let ?n1 = "if name1 \<noteq> [] then lookup (slashClean name1) conds mc else None"
  note l0 = lookup_claimed [OF mc(6), where name = name0 and conds = conds]
    and l1 = lookup_claimed [OF mc(6), where name = name1 and conds = conds]
  show ?thesis
  proof (cases "(name0 \<noteq> [] \<and> ?n0 = None) \<or> (name1 \<noteq> [] \<and> ?n1 = None)")
    case True
    then have "Confirm now name0 name1 conds m = Some (Inl ErrConfirmationFailed, mc)"
      using mc(1) by (auto simp: Confirm_def Let_def)
    moreover have "confirm_does name0 name1 conds (lview mc) (Inl ErrConfirmationFailed) (lview mc)"
      using True l0(1) l1(1) by (intro confirm_does.failed) blast
    ultimately show ?thesis
      using mc by (intro exI [of _ "Inl ErrConfirmationFailed"] exI [of _ "Inl ErrConfirmationFailed"] exI [of _ mc]) simp
  next
    case False
    then have f0: "\<not> (name0 \<noteq> [] \<and> ?n0 = None)" and f1: "\<not> (name1 \<noteq> [] \<and> ?n1 = None)" by blast+
    from l0(2) [OF f0] obtain x where x: "claimed conds name0 (lview mc) x" "?n0 = addr_of mc x"
      "\<And>n. x = Some n \<Longrightarrow> byName mc n \<noteq> None" by blast
    from l1(2) [OF f1] obtain y where y: "claimed conds name1 (lview mc) y" "?n1 = addr_of mc y"
      "\<And>n. y = Some n \<Longrightarrow> byName mc n \<noteq> None" by blast
    let ?y' = "if y = x then None else y"
    have same: "?n1 = ?n0 \<longleftrightarrow> y = x"
    proof -
      have "names_ok (cover_count mc) mc" using mc(6) by (simp add: nodes_inv_def)
      then show ?thesis
        unfolding x(2) y(2) using x(3) y(3) names_inj by (cases x; cases y) fastforce+
    qed
    have free: "\<exists>v. lview mc n = Some v \<and> \<not> held v" if "claimed conds nm (lview mc) (Some n)" for nm n
      using that by (auto simp: claimed_def claims_def split: if_splits)
    from hold_opt_inv [OF mc(2), of x] free x(1) obtain m1 where
      m1: "hold_opt (addr_of mc x) mc = Some m1" "lock_inv m1" "gen m1 = gen mc" "byName m1 = byName mc"
        "lview m1 = set_held True x (lview mc)" by blast
    have "\<exists>v. lview m1 n = Some v \<and> \<not> held v" if "?y' = Some n" for n
      using that free [of name1 n] y(1) m1(5) by (auto simp: set_held_def split: if_splits option.splits)
    from hold_opt_inv [OF m1(2), of ?y', OF this] obtain m2 where
      m2: "hold_opt (addr_of m1 ?y') m1 = Some m2" "lock_inv m2" "gen m2 = gen m1" "byName m2 = byName m1"
        "lview m2 = set_held True ?y' (lview m1)" by blast
    have ad: "addr_of m1 z = addr_of mc z" "addr_of m2 z = addr_of mc z" for z
      using m1(4) m2(4) by (simp_all add: addr_of_def)
    have "Confirm now name0 name1 conds m = Some (Inr (addr_of mc x, addr_of mc ?y'), m2)"
    proof -
      have n1': "(if ?n1 = ?n0 then None else ?n1) = addr_of m1 ?y'"
        using same y(2) ad by auto
      have "Confirm now name0 name1 conds m =
          Option.bind (hold_opt ?n0 mc) (\<lambda>ma. Option.bind (hold_opt (if ?n1 = ?n0 then None else ?n1) ma)
            (\<lambda>mb. Some (Inr (?n0, if ?n1 = ?n0 then None else ?n1), mb)))"
        by (simp only: Confirm_def Let_def mc(1) Option.bind.simps f0 f1 if_False)
      then show ?thesis unfolding n1' unfolding x(2) using m1(1) m2(1) ad by simp
    qed
    moreover have "confirm_does name0 name1 conds (lview mc) (Inr (x, ?y')) (lview m2)"
      using confirm_does.confirmed [OF x(1) y(1) refl] m1(5) m2(5) by simp
    moreover have "lview m2 q \<noteq> None \<longleftrightarrow> lview mc q \<noteq> None" for q
      by (simp only: m1(5) m2(5) set_held_dom)
    then have "keeps m m2 (lview m2)"
      using mc(5) by (simp only: keeps_def m1(4) m2(4))
    ultimately show ?thesis
      using mc m1 m2 ad by (intro exI [of _ "Inr (addr_of mc x, addr_of mc ?y')"] exI [of _ "Inr (x, ?y')"] exI [of _ m2]) simp
  qed
qed

text \<open>Releasing a claim on two different held locks, or fewer, sets them free.\<close>

theorem Release_refines:
  assumes inv: "lock_inv m" and ne: "x = None \<or> x \<noteq> y"
    and held: "\<And>n. x = Some n \<or> y = Some n \<Longrightarrow> \<exists>v. lview m n = Some v \<and> held v"
  shows "\<exists>m'. Release (addr_of m x, addr_of m y) m = Some m' \<and> lock_inv m' \<and> gen m' = gen m \<and>
    byName m' = byName m \<and> lview m' = set_held False x (set_held False y (lview m))"
proof -
  from unhold_opt_inv [OF inv, of y] held obtain m1 where
    m1: "unhold_opt (addr_of m y) m = Some m1" "lock_inv m1" "gen m1 = gen m" "byName m1 = byName m"
      "lview m1 = set_held False y (lview m)" by blast
  have "\<exists>v. lview m1 n = Some v \<and> held v" if "x = Some n" for n
    using that held [of n] ne m1(5) by (auto simp: set_held_def split: option.splits)
  from unhold_opt_inv [OF m1(2), of x, OF this] obtain m2 where
    m2: "unhold_opt (addr_of m1 x) m1 = Some m2" "lock_inv m2" "gen m2 = gen m1" "byName m2 = byName m1"
      "lview m2 = set_held False x (lview m1)" by blast
  have "addr_of m1 x = addr_of m x" by (simp add: addr_of_def m1(4))
  then show ?thesis using m1 m2 by (simp add: Release_def)
qed

section \<open>The reachable states\<close>

text \<open>
  A state of the system is the lock system with the claims that \<open>Confirm\<close> has returned and
  that are not yet released, as the names they hold. The release functions are called once.
\<close>

inductive reach :: "memLS \<Rightarrow> (gostring option \<times> gostring option) list \<Rightarrow> bool" where
  init: "reach (NewMemLS u) []"
| create: "reach m cs \<Longrightarrow> gen m \<noteq> -1 \<Longrightarrow> Create_lock now d m = Some (res, m') \<Longrightarrow> reach m' cs"
| refresh: "reach m cs \<Longrightarrow> Refresh now tok duration m = Some (res, m') \<Longrightarrow> reach m' cs"
| unlock: "reach m cs \<Longrightarrow> Unlock now tok m = Some (res, m') \<Longrightarrow> reach m' cs"
| refused: "reach m cs \<Longrightarrow> Confirm now n0 n1 conds m = Some (Inl e, m') \<Longrightarrow> reach m' cs"
| claim: "reach m cs \<Longrightarrow> Confirm now n0 n1 conds m = Some (Inr (addr_of m' x, addr_of m' y), m') \<Longrightarrow>
    (\<forall>n. x = Some n \<or> y = Some n \<longrightarrow> locked m' n) \<Longrightarrow> reach m' ((x, y) # cs)"
| release: "reach m (cs1 @ (x, y) # cs2) \<Longrightarrow> Release (addr_of m x, addr_of m y) m = Some m' \<Longrightarrow>
    reach m' (cs1 @ cs2)"

text \<open>The names of a list of claims.\<close>

fun opt_list :: "'a option \<Rightarrow> 'a list" where
  "opt_list None = []"
| "opt_list (Some a) = [a]"

definition claim_names :: "(gostring option \<times> gostring option) list \<Rightarrow> gostring list" where
  "claim_names cs = concat (map (\<lambda>(x, y). opt_list x @ opt_list y) cs)"

text \<open>The locks that are held are those of the claims, each in one claim only.\<close>

definition held_names :: "locks \<Rightarrow> gostring set" where
  "held_names L = {n. \<exists>v. L n = Some v \<and> held v}"

definition claims_ok :: "memLS \<Rightarrow> (gostring option \<times> gostring option) list \<Rightarrow> bool" where
  "claims_ok m cs \<longleftrightarrow> distinct (claim_names cs) \<and> set (claim_names cs) = held_names (lview m)"

lemma claim_names_simps [simp]:
  "claim_names [] = []"
  "claim_names ((x, y) # cs) = opt_list x @ opt_list y @ claim_names cs"
  "claim_names (cs @ cs') = claim_names cs @ claim_names cs'"
  by (simp_all add: claim_names_def)

lemma set_opt_list [simp]: "n \<in> set (opt_list x) \<longleftrightarrow> x = Some n"
  by (cases x) auto

lemma held_unexpired [simp]: "held_names (unexpired now L) = held_names L"
  by (auto simp: held_names_def unexpired_def expired_def split: option.splits if_splits)

lemma create_does_held: "create_does ds now L res L' \<Longrightarrow> held_names L' = held_names L"
  by (induction rule: create_does.induct)
     (auto simp: held_names_def lock_node_def can_lock_def split: if_splits)

lemma refresh_does_held: "refresh_does tok now dur L res L' \<Longrightarrow> held_names L' = held_names L"
  by (induction rule: refresh_does.induct) (auto simp: held_names_def lock_node_def split: if_splits)

lemma unlock_does_held: "unlock_does tok L res L' \<Longrightarrow> held_names L' = held_names L"
  by (induction rule: unlock_does.induct) (auto simp: held_names_def split: if_splits)

lemma held_set_held:
  "held_names (set_held True x L) = held_names L \<union> {n. x = Some n \<and> L n \<noteq> None}"
  "held_names (set_held False x L) = held_names L - {n. x = Some n}"
  by (auto simp: held_names_def set_held_def split: option.splits if_splits)

inductive_cases confirm_doesE:
  "confirm_does n0 n1 conds L (Inl e) L'"
  "confirm_does n0 n1 conds L (Inr r) L'"

lemma claimed_free: "claimed conds nm L (Some n) \<Longrightarrow> n \<notin> held_names L \<and> L n \<noteq> None"
  by (auto simp: claimed_def claims_def held_names_def split: if_splits)

lemma confirm_does_held:
  assumes "confirm_does n0 n1 conds L (Inr (x, y)) L'"
  shows "held_names L' = held_names L \<union> set (opt_list x @ opt_list y)"
    and "distinct (opt_list x @ opt_list y)" and "set (opt_list x @ opt_list y) \<inter> held_names L = {}"
proof -
  from assms obtain y0 where c: "claimed conds n0 L x" "claimed conds n1 L y0" "y = (if y0 = x then None else y0)"
    "L' = set_held True y (set_held True x L)" by (auto elim: confirm_doesE)
  have fx: "n \<notin> held_names L \<and> L n \<noteq> None" if "x = Some n" for n using claimed_free c(1) that by blast
  have fy: "n \<notin> held_names L \<and> L n \<noteq> None" if "y = Some n" for n
    using claimed_free [of conds n1 L n] c(2,3) that by (auto split: if_splits)
  show "held_names L' = held_names L \<union> set (opt_list x @ opt_list y)"
    unfolding c(4) held_set_held using fx fy set_held_dom [of True x L] by (cases x; cases y) auto
  show "distinct (opt_list x @ opt_list y)" using c(3) by (cases x; cases y) auto
  show "set (opt_list x @ opt_list y) \<inter> held_names L = {}" using fx fy by auto
qed

lemma addr_of_inj:
  assumes "nodes_inv m" and "addr_of m x = addr_of m x'"
    and "\<And>n. x = Some n \<Longrightarrow> locked m n" and "\<And>n. x' = Some n \<Longrightarrow> locked m n"
  shows "x = x'"
proof -
  have names: "names_ok (cover_count m) m" using assms(1) by (simp add: nodes_inv_def)
  have some: "byName m n \<noteq> None" if "locked m n" for n using that by (auto simp: locked_def)
  show ?thesis
  proof (cases x)
    case None
    then show ?thesis using assms(2,4) by (cases x') (force simp: locked_def)+
  next
    case (Some n)
    then obtain a where a: "byName m n = Some a" using assms(3) by (auto simp: locked_def)
    then obtain n' where n': "x' = Some n'" using assms(2) Some by (cases x') auto
    have "addr_of m (Some n) = addr_of m (Some n')" using assms(2) unfolding Some n' .
    then have "byName m n' = Some a" using a by simp
    then show ?thesis using names_inj [OF names a] Some n' by simp
  qed
qed

theorem reach_inv: "reach m cs \<Longrightarrow> lock_inv m \<and> claims_ok m cs"
proof (induction rule: reach.induct)
  case (init u)
  then show ?case using NewMemLS_inv [of u] by (simp add: claims_ok_def held_names_def lview_def NewMemLS_def)
next
  case (create m cs now d res m')
  from Create_refines [OF _ create.hyps(2) refl, of now d] create.IH create.hyps(3)
  show ?case by (auto simp: claims_ok_def dest!: create_does_held)
next
  case (refresh m cs now tok duration res m')
  with Refresh_refines [of m now tok duration] show ?case
    by (auto simp: claims_ok_def dest!: refresh_does_held)
next
  case (unlock m cs now tok res m')
  with Unlock_refines [of m now tok] show ?case
    by (auto simp: claims_ok_def dest!: unlock_does_held)
next
  case (refused m cs now n0 n1 conds e m')
  from Confirm_refines [of m now n0 n1 conds] refused obtain ares where
    "lock_inv m'" "confirm_does n0 n1 conds (unexpired now (lview m)) ares (lview m')"
    "Inl e = map_sum id (map_prod (addr_of m') (addr_of m')) ares" by auto
  moreover from this obtain e' where "ares = Inl e'" by (cases ares) auto
  ultimately show ?case using refused.IH by (auto simp: claims_ok_def elim!: confirm_doesE)
next
  case (claim m cs now n0 n1 conds m' x y)
  let ?L = "unexpired now (lview m)"
  from Confirm_refines [of m now n0 n1 conds] claim.IH claim.hyps(2) obtain ares where
    a: "lock_inv m'" "confirm_does n0 n1 conds ?L ares (lview m')"
    "Inr (addr_of m' x, addr_of m' y) = map_sum id (map_prod (addr_of m') (addr_of m')) ares" by auto
  from a(3) obtain x' y' where xy: "ares = Inr (x', y')" "addr_of m' x = addr_of m' x'" "addr_of m' y = addr_of m' y'"
    by (cases ares) auto
  note h = confirm_does_held [OF a(2) [unfolded xy(1)]]
  have lk: "locked m' n" if "x' = Some n \<or> y' = Some n" for n
    using h(1) that by (auto simp: held_names_def locked_lview)
  have ni: "nodes_inv m'" using a(1) by (simp add: lock_inv_def)
  have "x = x'" "y = y'"
    using addr_of_inj [OF ni xy(2)] addr_of_inj [OF ni xy(3)] claim.hyps(3) lk by blast+
  then show ?case using h a(1) claim.IH by (auto simp: claims_ok_def)
next
  case (release m cs1 x y cs2 m')
  have inv: "lock_inv m" and ok: "claims_ok m (cs1 @ (x, y) # cs2)" using release.IH by auto
  have d: "distinct (opt_list x @ opt_list y)" using ok by (auto simp: claims_ok_def)
  have "x = None \<or> x \<noteq> y" using d by (cases x) auto
  moreover have "\<exists>v. lview m n = Some v \<and> held v" if "x = Some n \<or> y = Some n" for n
    using ok that by (auto simp: claims_ok_def held_names_def)
  ultimately have "lock_inv m' \<and> lview m' = set_held False x (set_held False y (lview m))"
    using Release_refines [OF inv, of x y] release.hyps(2) by auto
  then show ?case using ok by (auto simp: claims_ok_def held_set_held)
qed

section \<open>Properties\<close>

definition a_details :: "bool \<Rightarrow> lock_details" where
  "a_details z = \<lparr>lk_Root = ''/a'', lk_Duration = 60, lk_OwnerXML = [], lk_ZeroDepth = z\<rparr>"

lemma slashClean_a: "slashClean ''/a'' = ''/a''"
  by (simp add: slashClean_def pathClean_def isRooted_def cleanElems_def cleanStep_def)

lemma a_name: "(a_details z)\<lparr>lk_Root := slashClean (lk_Root (a_details z))\<rparr> = a_details z"
  by (simp add: a_details_def slashClean_a)

lemma lview_new: "lview (NewMemLS u) = Map.empty"
  by (simp add: fun_eq_iff lview_def NewMemLS_def)

text \<open>A lock on \<open>/a\<close> for 60 seconds, taken at time 10.\<close>

lemma reach_a: "\<exists>m tok. reach m [] \<and> lview m = [''/a'' \<mapsto> lock_node (a_details z) tok 70 False] \<and> gen m \<noteq> -1"
proof -
  have e: "unexpired 10 (lview (NewMemLS 0)) = Map.empty" by (simp add: lview_new unexpired_def fun_eq_iff)
  obtain res m where m: "Create_lock 10 (a_details z) (NewMemLS 0) = Some (res, m)"
      "gen m = 0 \<or> gen m = 1" "create_does (a_details z) 10 Map.empty res (lview m)"
    using Create_refines [OF NewMemLS_inv _ a_name [symmetric], of 0 10 z] unfolding e by (auto simp: NewMemLS_def)
  have "reach m []" by (rule reach.create [OF reach.init _ m(1)]) (simp add: NewMemLS_def)
  moreover from m(3) obtain tok where "lview m = [''/a'' \<mapsto> lock_node (a_details z) tok 70 False]"
    by cases (auto simp: can_lock_def a_details_def)
  moreover have "gen m \<noteq> -1" using m(2) by auto
  ultimately show ?thesis by blast
qed

text \<open>
  C11. In every reachable state of the lock system no two locks conflict: a lock whose name is
  above the name of another lock has depth zero.
\<close>

theorem locks_never_conflict:
  assumes "reach m cs" and "lview m r = Some v" and "locked m q" and "r \<noteq> q" and "covers r q"
  shows "lk_ZeroDepth (details v)"
  using reach_inv [OF assms(1)] assms(2-5) unfolding lock_inv_def nodes_inv_def exclusive_def by blast

theorem locks_never_conflict_witness:
  "\<exists>m v. reach m [] \<and> lview m ''/a'' = Some v \<and> locked m ''/a/b'' \<and> lk_ZeroDepth (details v)"
proof -
  let ?b = "\<lparr>lk_Root = ''/a/b'', lk_Duration = -1, lk_OwnerXML = [], lk_ZeroDepth = False\<rparr>"
  have el: "elems ''/a'' = [''a'']" "elems ''/a/b'' = [''a'', ''b'']" by (simp_all add: elems_def)
  have b: "slashClean ''/a/b'' = ''/a/b''"
    by (simp add: slashClean_def pathClean_def isRooted_def cleanElems_def cleanStep_def)
  obtain m tok where m: "reach m []" "lview m = [''/a'' \<mapsto> lock_node (a_details True) tok 70 False]" "gen m \<noteq> -1"
    using reach_a by blast
  have u: "unexpired 20 (lview m) = lview m"
    by (auto simp: m(2) unexpired_def expired_def lock_node_def fun_eq_iff)
  obtain res m' where m': "Create_lock 20 ?b m = Some (res, m')" "create_does ?b 20 (lview m) res (lview m')"
    using Create_refines [OF conjunct1 [OF reach_inv [OF m(1)]] m(3), of ?b ?b 20] u b by auto
  have can: "can_lock ''/a/b'' False (lview m)"
    by (auto simp: can_lock_def m(2) lock_node_def a_details_def covers_def el)
  from m'(2) obtain w where "lview m' = (lview m)(''/a/b'' \<mapsto> w)" using can by cases auto
  then have lv: "lview m' ''/a'' = Some (lock_node (a_details True) tok 70 False)" "locked m' ''/a/b''"
    by (simp_all add: m(2) locked_lview)
  have r: "reach m' []" by (rule reach.create [OF m(1,3) m'(1)])
  have "lk_ZeroDepth (details (lock_node (a_details True) tok 70 False))"
    by (rule locks_never_conflict [OF r lv]) (simp_all add: covers_def el)
  then show ?thesis using r lv by blast
qed

text \<open>
  C12. In every reachable state every operation of the lock system returns, whatever its
  arguments: the loops end, no name is missing from the maps, no index is out of the queue,
  no lock is held or released twice.
\<close>

theorem lock_operations_return:
  assumes "reach m cs"
  shows "Confirm now n0 n1 conds m \<noteq> None \<and> Refresh now tok duration m \<noteq> None \<and> Unlock now tok m \<noteq> None \<and>
    (gen m \<noteq> -1 \<longrightarrow> Create_lock now d m \<noteq> None) \<and>
    (\<forall>(x, y)\<in>set cs. Release (addr_of m x, addr_of m y) m \<noteq> None)"
proof -
  have inv: "lock_inv m" and ok: "claims_ok m cs" using reach_inv [OF assms] by auto
  have "Release (addr_of m x, addr_of m y) m \<noteq> None" if xy: "(x, y) \<in> set cs" for x y
  proof -
    from xy obtain cs1 cs2 where cs: "cs = cs1 @ (x, y) # cs2" by (auto dest: split_list)
    have "distinct (opt_list x @ opt_list y)" using ok by (auto simp: claims_ok_def cs)
    then have "x = None \<or> x \<noteq> y" by (cases x) auto
    moreover have "\<exists>v. lview m n = Some v \<and> held v" if "x = Some n \<or> y = Some n" for n
      using ok that by (auto simp: claims_ok_def held_names_def cs)
    ultimately show ?thesis using Release_refines [OF inv, of x y] by auto
  qed
  then show ?thesis
    using Confirm_refines [OF inv, of now n0 n1 conds] Refresh_refines [OF inv, of now tok duration]
      Unlock_refines [OF inv, of now tok] Create_refines [OF inv _ refl, of now d] by auto
qed

theorem lock_operations_return_witness:
  "\<exists>m. reach m [] \<and> lview m ''/a'' \<noteq> None \<and> Unlock 20 ''1'' m \<noteq> None"
proof -
  obtain m tok where m: "reach m []" "lview m = [''/a'' \<mapsto> lock_node (a_details True) tok 70 False]"
    using reach_a by blast
  then show ?thesis using lock_operations_return [OF m(1), of 20 _ _ _ "''1''"] by auto
qed

text \<open>
  C13. Creating a lock does what the interface promises: after the expired locks are gone it
  is refused exactly when a lock at the name, above it with infinite depth, or below it (for
  a lock of infinite depth) is there; otherwise it adds one lock, with a token no other lock
  has and the time of expiry of its duration, and changes no other lock.
\<close>

theorem Create_lock_refines:
  assumes "reach m cs" and "gen m \<noteq> -1" and "ds = d0\<lparr>lk_Root := slashClean (lk_Root d0)\<rparr>"
  shows "\<exists>res m'. Create_lock now d0 m = Some (res, m') \<and> reach m' cs \<and>
    create_does ds now (unexpired now (lview m)) res (lview m')"
proof -
  from Create_refines [OF conjunct1 [OF reach_inv [OF assms(1)]] assms(2,3), of now] obtain res m' where
    m': "Create_lock now d0 m = Some (res, m')" "create_does ds now (unexpired now (lview m)) res (lview m')"
    by blast
  then show ?thesis using reach.create [OF assms(1,2) m'(1)] by blast
qed

theorem Create_lock_refines_witness:
  "\<exists>res m'. Create_lock 10 (a_details False) (NewMemLS 0) = Some (res, m') \<and> reach m' [] \<and>
    create_does (a_details False) 10 (unexpired 10 (lview (NewMemLS 0))) res (lview m')"
  by (rule Create_lock_refines [OF reach.init _ a_name [symmetric]]) (simp add: NewMemLS_def)



text \<open>
  Unlocking and refreshing do what the interface promises: an unknown token and a lock
  that is held are reported and change nothing; otherwise the one lock with the token is
  removed, or has its duration and time of expiry set.
\<close>

theorem Unlock_Refresh_refine:
  assumes "reach m cs"
  shows "(\<exists>res m'. Unlock now tok m = Some (res, m') \<and> reach m' cs \<and>
      unlock_does tok (unexpired now (lview m)) res (lview m')) \<and>
    (\<exists>res m'. Refresh now tok duration m = Some (res, m') \<and> reach m' cs \<and>
      refresh_does tok now duration (unexpired now (lview m)) res (lview m'))"
proof
  have inv: "lock_inv m" using reach_inv [OF assms] by blast
  show "\<exists>res m'. Unlock now tok m = Some (res, m') \<and> reach m' cs \<and>
      unlock_does tok (unexpired now (lview m)) res (lview m')"
    using Unlock_refines [OF inv, of now tok] reach.unlock [OF assms] by blast
  show "\<exists>res m'. Refresh now tok duration m = Some (res, m') \<and> reach m' cs \<and>
      refresh_does tok now duration (unexpired now (lview m)) res (lview m')"
    using Refresh_refines [OF inv, of now tok duration] reach.refresh [OF assms] by blast
qed

theorem Unlock_Refresh_refine_witness:
  "\<exists>m m'. reach m [] \<and> lview m ''/a'' \<noteq> None \<and> Unlock 20 ''x'' m = Some (Some ErrNoSuchLock, m')"
proof -
  obtain m tok where m: "reach m []" "lview m = [''/a'' \<mapsto> lock_node (a_details True) tok 70 False]" "gen m \<noteq> -1"
    using reach_a by blast
  have "token v \<noteq> ''x''" if "lview m n = Some v" for n v
  proof
    assume tx: "token v = ''x''"
    from that obtain a where a: "byName m n = Some a" by (auto simp: lview_Some)
    have ni: "nodes_inv m" using reach_inv [OF m(1)] by (simp add: lock_inv_def)
    have "byToken m ''x'' \<noteq> None" using byToken_None [OF ni, of "''x''"] that tx by metis
    then have "''x'' \<in> dom (byToken m)" by blast
    then obtain k where "''x'' = formatNat k" using ni unfolding nodes_inv_def gen_ok_def by blast
    then have "parseDigits 0 ''x'' = Some k" by (metis parseDigits_formatNat)
    then show False by (simp add: digitVal_def)
  qed
  moreover have "unexpired 20 (lview m) = lview m"
    by (auto simp: m(2) unexpired_def expired_def lock_node_def fun_eq_iff)
  moreover from Unlock_Refresh_refine [OF m(1), of 20 "''x''"] obtain res m' where
    u: "Unlock 20 ''x'' m = Some (res, m')" "unlock_does ''x'' (unexpired 20 (lview m)) res (lview m')" by blast
  ultimately have "res = Some ErrNoSuchLock" by (auto elim: unlock_does.cases)
  then show ?thesis using m u by auto
qed

end
