(* ===== verification/ModelsPolicy.thy ===== *)
theory ModelsPolicy
  imports FsUpload
begin

text \<open>
  \<open>models/policy.go\<close>: where the files of a storage policy are stored, and how a policy is changed
  without leaving the old one in the cache.

  The rules of a policy hold placeholders that \<open>utils.Replace\<close> fills in one after the other, in the
  order in which a range visits a Go map, which is not determined. \<open>expand\<close> is the reference: it
  fills them in at once, in one pass. On rules whose braces are not nested both agree, as long as
  no value has a brace of its own.
\<close>

section \<open>Paths and names of stored files\<close>

text \<open>
  What one call takes from its surroundings: what \<open>rand.Intn(62)\<close> returns for the two keys, the
  current time in seconds, in nanoseconds and formatted, a fresh UUID, and the order of the range.
\<close>

record name_env =
  ne_random16 :: "nat list"
  ne_random8 :: "nat list"
  ne_unix :: int
  ne_unixNano :: int
  ne_format :: "gostring \<Rightarrow> gostring"
  ne_uuid :: gostring
  ne_range :: "(gostring \<times> gostring) list \<Rightarrow> (gostring \<times> gostring) list"

definition path_table :: "name_env \<Rightarrow> uint \<Rightarrow> gostring \<Rightarrow> (gostring \<times> gostring) list" where
  "path_table N uid origin =
     [(''{randomkey16}'', RandStringRunes (ne_random16 N)),
      (''{randomkey8}'', RandStringRunes (ne_random8 N)),
      (''{timestamp}'', formatInt (ne_unix N)),
      (''{timestamp_nano}'', formatInt (ne_unixNano N)),
      (''{uid}'', formatNat uid),
      (''{datetime}'', ne_format N ''20060102150405''),
      (''{date}'', ne_format N ''20060102''),
      (''{year}'', ne_format N ''2006''),
      (''{month}'', ne_format N ''01''),
      (''{day}'', ne_format N ''02''),
      (''{hour}'', ne_format N ''15''),
      (''{minute}'', ne_format N ''04''),
      (''{second}'', ne_format N ''05''),
      (''{path}'', origin @ ''/'')]"

definition GeneratePath :: "name_env \<Rightarrow> policy \<Rightarrow> uint \<Rightarrow> gostring \<Rightarrow> gostring" where
  "GeneratePath N policy uid origin =
     (let dirRule = p_DirNameRule policy;
          replaceTable = path_table N uid origin
      in pathClean (Replace dirRule (ne_range N replaceTable)))"

definition name_table :: "name_env \<Rightarrow> uint \<Rightarrow> gostring \<Rightarrow> (gostring \<times> gostring) list" where
  "name_table N uid origin =
     [(''{randomkey16}'', RandStringRunes (ne_random16 N)),
      (''{randomkey8}'', RandStringRunes (ne_random8 N)),
      (''{timestamp}'', formatInt (ne_unix N)),
      (''{timestamp_nano}'', formatInt (ne_unixNano N)),
      (''{uid}'', formatNat uid),
      (''{datetime}'', ne_format N ''20060102150405''),
      (''{date}'', ne_format N ''20060102''),
      (''{year}'', ne_format N ''2006''),
      (''{month}'', ne_format N ''01''),
      (''{day}'', ne_format N ''02''),
      (''{hour}'', ne_format N ''15''),
      (''{minute}'', ne_format N ''04''),
      (''{second}'', ne_format N ''05''),
      (''{originname}'', origin),
      (''{ext}'', pathExt origin),
      (''{uuid}'', ne_uuid N)]"

definition GenerateFileName :: "name_env \<Rightarrow> policy \<Rightarrow> uint \<Rightarrow> gostring \<Rightarrow> gostring" where
  "GenerateFileName N policy uid origin =
     (if \<not> p_AutoRename policy then origin
      else (let fileRule = p_FileNameRule policy;
                replaceTable = name_table N uid origin
            in Replace fileRule (ne_range N replaceTable)))"

text \<open>
  \<open>FileSystem.GenerateSavePath\<close> (\<open>upload.go\<close>) on these two; \<open>savePath\<close> of the surroundings of a file
  system stands for it. Each of the two calls draws for itself.
\<close>

definition policy_save_path :: "name_env \<Rightarrow> name_env \<Rightarrow> policy \<Rightarrow> uint \<Rightarrow> gostring \<Rightarrow> gostring \<Rightarrow> gostring" where
  "policy_save_path N N' policy uid virtualPath name =
     pathJoin (GeneratePath N policy uid virtualPath) (GenerateFileName N' policy uid name)"

section \<open>Changing a policy\<close>

text \<open>\<open>GetPolicyByID\<close> takes any value and asserts that it is a \<open>uint\<close>; another type panics.\<close>

datatype any_id = UintID uint | IntID int

definition GetPolicyByAnyID ::
  "gorm \<Rightarrow> unix_time \<Rightarrow> any_id \<Rightarrow> db \<Rightarrow> cache_obj memo \<Rightarrow> ((db_error + policy) \<times> cache_obj memo) option" where
  "GetPolicyByAnyID G now i d ch =
     (case i of UintID n \<Rightarrow> Some (GetPolicyByID G now n d ch) | IntID _ \<Rightarrow> None)"

definition CleanCache :: "policy \<Rightarrow> cache_obj memo \<Rightarrow> cache_obj memo" where
  "CleanCache policy ch = cache_Deletes [formatNat (p_ID policy)] ''policy_'' ch"

definition UpdateAccessKeyAndClearCache ::
  "gorm \<Rightarrow> policy \<Rightarrow> gostring \<Rightarrow> db \<Rightarrow> cache_obj memo \<Rightarrow> (model_error + unit) \<times> db \<times> cache_obj memo" where
  "UpdateAccessKeyAndClearCache G policy s d ch =
     (let (err, d') = write1 (by_key (p_ID policy)
            (UpdateColumns (Policies G) (\<lambda>p. p_ID p = p_ID policy) (\<lambda>p. Some (p\<lparr>p_AccessKey := s\<rparr>)) d)) d
      in (err, d', CleanCache policy ch))"

section \<open>Filling in a rule in one pass\<close>

fun expand :: "(gostring \<rightharpoonup> gostring) \<Rightarrow> gostring \<Rightarrow> gostring" where
  "expand m [] = []"
| "expand m (c # s) =
     (let w = takeWhile (\<lambda>x. x \<noteq> CHR ''}'') s in
      if c = CHR ''{'' \<and> CHR ''}'' \<in> set s then
        (case m (CHR ''{'' # w @ ''}'') of
           Some v \<Rightarrow> v @ expand m (drop (Suc (length w)) s)
         | None \<Rightarrow> c # expand m s)
      else c # expand m s)"

text \<open>Between a brace that opens and the next that closes, no other opens.\<close>

fun plain :: "gostring \<Rightarrow> bool" where
  "plain [] = True"
| "plain (c # s) = ((c = CHR ''{'' \<longrightarrow> CHR ''{'' \<notin> set (takeWhile (\<lambda>x. x \<noteq> CHR ''}'') s)) \<and> plain s)"

definition placeholder :: "gostring \<Rightarrow> bool" where
  "placeholder k \<longleftrightarrow>
     (let w = butlast (tl k) in k = CHR ''{'' # w @ ''}'' \<and> CHR ''{'' \<notin> set w \<and> CHR ''}'' \<notin> set w)"

definition braceless :: "gostring \<Rightarrow> bool" where
  "braceless v \<longleftrightarrow> CHR ''{'' \<notin> set v \<and> CHR ''}'' \<notin> set v"

lemma plain_append: "plain (a @ t) \<Longrightarrow> plain t"
  by (induction a) auto

lemma placeholderE:
  assumes "placeholder k" obtains w where "k = CHR ''{'' # w @ ''}''" "CHR ''{'' \<notin> set w" "CHR ''}'' \<notin> set w"
  using assms by (auto simp: placeholder_def Let_def)

lemma expand_braceless: "CHR ''{'' \<notin> set a \<Longrightarrow> expand m (a @ x) = a @ expand m x"
  by (induction a) auto

lemma takeWhile_until: "x \<notin> set w \<Longrightarrow> takeWhile (\<lambda>c. c \<noteq> x) (w @ x # t) = w"
  by (induction w) auto

lemma plain_braceless: "CHR ''{'' \<notin> set a \<Longrightarrow> plain (a @ t) = plain t"
  by (induction a) auto

lemma plain_token:
  assumes "CHR ''{'' \<notin> set w" "CHR ''}'' \<notin> set w"
  shows "plain (CHR ''{'' # w @ CHR ''}'' # x) = plain x"
  using plain_braceless [OF assms(1), of "CHR ''}'' # x"] assms(1)
  by (simp add: takeWhile_until [OF assms(2)])

lemma expand_token:
  assumes "CHR ''{'' \<notin> set w" "CHR ''}'' \<notin> set w"
  shows "expand m (CHR ''{'' # w @ CHR ''}'' # x) =
    (case m (CHR ''{'' # w @ ''}'') of Some v \<Rightarrow> v | None \<Rightarrow> CHR ''{'' # w @ ''}'') @ expand m x"
  using expand_braceless [OF assms(1), of m "CHR ''}'' # x"]
  by (auto simp: takeWhile_until [OF assms(2)] Let_def split: option.splits)

lemma replaceAll_skip:
  assumes "CHR ''{'' \<notin> set a" shows "replaceAll (a @ t) (CHR ''{'' # k) v = a @ replaceAll t (CHR ''{'' # k) v"
  using assms
proof (induction a)
  case (Cons c a)
  then have "\<not> hasPrefix ((c # a) @ t) (CHR ''{'' # k)" by (auto simp: hasPrefix_def)
  then show ?case using Cons by (auto simp: replaceAll.simps [of "c # a @ t"])
qed simp

lemma token_prefix:
  assumes "CHR ''}'' \<notin> set w" "CHR ''}'' \<notin> set u"
  shows "hasPrefix (CHR ''{'' # w @ CHR ''}'' # x) (CHR ''{'' # u @ ''}'') \<longleftrightarrow> u = w"
proof
  assume "hasPrefix (CHR ''{'' # w @ CHR ''}'' # x) (CHR ''{'' # u @ ''}'')"
  then have "take (Suc (length u)) (w @ CHR ''}'' # x) = u @ ''}''" by (simp add: hasPrefix_def)
  then have "w @ CHR ''}'' # x = (u @ ''}'') @ drop (Suc (length u)) (w @ CHR ''}'' # x)"
    using append_take_drop_id [of "Suc (length u)" "w @ CHR ''}'' # x"] by (simp only:)
  then have "w @ CHR ''}'' # x = u @ CHR ''}'' # drop (Suc (length u)) (w @ CHR ''}'' # x)" by simp
  then show "u = w" by (metis takeWhile_until [OF assms(1)] takeWhile_until [OF assms(2)])
qed (simp add: hasPrefix_def)

lemma replaceAll_token:
  assumes "CHR ''{'' \<notin> set w" "CHR ''}'' \<notin> set w" and "k = CHR ''{'' # u @ ''}''" "CHR ''}'' \<notin> set u"
  shows "replaceAll (CHR ''{'' # w @ CHR ''}'' # x) k v =
    (if u = w then v else CHR ''{'' # w @ ''}'') @ replaceAll x k v"
proof (cases "u = w")
  case True
  then show ?thesis
    using token_prefix [OF assms(2,4), of x] by (subst replaceAll.simps) (simp add: assms(3))
next
  case False
  have "replaceAll (CHR ''{'' # w @ CHR ''}'' # x) k v = CHR ''{'' # replaceAll (w @ ''}'' @ x) k v"
    using token_prefix [OF assms(2,4), of x] False by (subst replaceAll.simps) (simp add: assms(3))
  also have "replaceAll (w @ ''}'' @ x) k v = (w @ ''}'') @ replaceAll x k v"
    using replaceAll_skip [of "w @ ''}''" x "u @ ''}''" v] assms(1) by (simp add: assms(3))
  finally show ?thesis using False by simp
qed

text \<open>Filling in one placeholder first, and the others then, is filling in all of them.\<close>

lemma expand_replaceAll:
  assumes k: "placeholder k" and v: "braceless v" and s: "plain s"
  shows "expand (m(k \<mapsto> v)) s = expand m (replaceAll s k v) \<and> plain (replaceAll s k v)"
  using s
proof (induction "length s" arbitrary: s rule: less_induct)
  case less
  obtain u where u: "k = CHR ''{'' # u @ ''}''" "CHR ''}'' \<notin> set u" by (rule placeholderE [OF k])
  show ?case
  proof (cases s)
    case Nil
    then show ?thesis by (simp add: replaceAll.simps)
  next
    case (Cons c t)
    have t: "expand (m(k \<mapsto> v)) t = expand m (replaceAll t k v)" "plain (replaceAll t k v)"
      using less Cons by auto
    consider (other) "c \<noteq> CHR ''{''" | (loose) "c = CHR ''{''" "CHR ''}'' \<notin> set t"
      | (token) w x where "c = CHR ''{''" "t = w @ CHR ''}'' # x" "CHR ''}'' \<notin> set w"
      by (metis split_list_first)
    then show ?thesis
    proof cases
      case other
      then have "\<not> hasPrefix s k" "k \<noteq> []" by (simp_all add: Cons u hasPrefix_def)
      then have "replaceAll s k v = c # replaceAll t k v" unfolding Cons by (simp add: replaceAll.simps [of "c # t"])
      then show ?thesis using other t by (simp add: Cons)
    next
      case loose
      have w: "takeWhile (\<lambda>x. x \<noteq> CHR ''}'') t = t"
        by (rule takeWhile_eq_all_conv [THEN iffD2]) (use loose in auto)
      have "CHR ''{'' \<notin> set (takeWhile (\<lambda>x. x \<noteq> CHR ''}'') t)" using less.prems loose by (simp add: Cons)
      then have b: "CHR ''{'' \<notin> set t" by (subst (asm) w)
      have "\<not> hasPrefix s k"
      proof
        assume "hasPrefix s k"
        then have "set k \<subseteq> set s" by (metis hasPrefix_def set_take_subset)
        then show False using loose by (auto simp: Cons u)
      qed
      moreover have "replaceAll t k v = t"
        using replaceAll_skip [OF b, of "[]" "u @ ''}''" v] by (simp add: u replaceAll.simps [of "[]"])
      ultimately have "replaceAll s k v = c # t" unfolding Cons by (simp add: replaceAll.simps [of "c # t"])
      then show ?thesis using loose expand_braceless [OF b, of _ "[]"] less.prems by (simp add: Cons)
    next
      case token
      have b: "CHR ''{'' \<notin> set w" using less.prems token by (simp add: Cons takeWhile_until)
      have "plain x" using less.prems plain_append [of "w @ ''}''" x] token by (simp add: Cons)
      then have x: "expand (m(k \<mapsto> v)) x = expand m (replaceAll x k v)" "plain (replaceAll x k v)"
        using less.hyps [of x] token by (simp_all add: Cons)
      note r = replaceAll_token [OF b token(3) u, of x v]
      show ?thesis
      proof (cases "u = w")
        case True
        then have "expand (m(k \<mapsto> v)) s = v @ expand (m(k \<mapsto> v)) x"
          using expand_token [OF b token(3), of "m(k \<mapsto> v)" x] by (simp add: Cons token u)
        also have "\<dots> = expand m (v @ replaceAll x k v)" using x v by (simp add: expand_braceless braceless_def)
        finally show ?thesis using r True x(2) v by (simp add: Cons token plain_braceless braceless_def)
      next
        case False
        have "expand (m(k \<mapsto> v)) s =
            (case m (CHR ''{'' # w @ ''}'') of Some v \<Rightarrow> v | None \<Rightarrow> CHR ''{'' # w @ ''}'') @ expand m (replaceAll x k v)"
          using expand_token [OF b token(3), of "m(k \<mapsto> v)" x] False x by (simp add: Cons token u)
        also have "\<dots> = expand m (CHR ''{'' # w @ CHR ''}'' # replaceAll x k v)" by (rule expand_token [OF b token(3), symmetric])
        finally show ?thesis
          using r False plain_token [OF b token(3)] x(2) by (simp add: Cons token)
      qed
    qed
  qed
qed

lemma expand_empty: "expand Map.empty s = s"
  by (induction s) auto

lemma Replace_expand:
  "list_all (\<lambda>kv. placeholder (fst kv) \<and> braceless (snd kv)) r \<Longrightarrow> plain s \<Longrightarrow> Replace s r = expand (map_of r) s"
proof (induction r arbitrary: s)
  case Nil
  then show ?case by (simp add: expand_empty)
next
  case (Cons kv r)
  then show ?case using expand_replaceAll [of "fst kv" "snd kv" s "map_of r"] by (simp del: fun_upd_apply add: map_of_Cons_code)
qed

lemma map_of_range:
  assumes "mset ys = mset xs" and "distinct (map fst xs)"
  shows "map_of ys = map_of xs"
proof -
  have "mset (map fst ys) = mset (map fst xs)" using arg_cong [OF assms(1), of "image_mset fst"] by simp
  then have "distinct (map fst ys)" using assms(2) mset_eq_imp_distinct_iff by blast
  then show ?thesis using map_of_inject_set [OF _ assms(2)] mset_eq_setD [OF assms(1)] by blast
qed

lemma Replace_range:
  assumes "mset ys = mset xs" and "distinct (map fst xs)" and "plain s"
    and "list_all (\<lambda>kv. placeholder (fst kv) \<and> braceless (snd kv)) xs"
  shows "Replace s ys = expand (map_of xs) s"
proof -
  have "list_all (\<lambda>kv. placeholder (fst kv) \<and> braceless (snd kv)) ys"
    using assms(4) mset_eq_setD [OF assms(1)] by (simp add: list_all_iff)
  from Replace_expand [OF this assms(3)] show ?thesis by (simp add: map_of_range [OF assms(1,2)])
qed

section \<open>The values have no braces\<close>

lemma formatNat_braceless: "braceless (formatNat n)"
  using formatNat_chars [of n] by (auto simp: braceless_def)

lemma formatInt_braceless: "braceless (formatInt i)"
  using formatNat_braceless by (auto simp: formatInt_def braceless_def)

lemma RandStringRunes_braceless: "draws_ok n ds \<Longrightarrow> braceless (RandStringRunes ds)"
proof -
  assume "draws_ok n ds"
  then have "set (RandStringRunes ds) \<subseteq> set letterRunes"
    by (auto simp: draws_ok_def RandStringRunes_def list_all_iff)
  then show ?thesis by (auto simp: braceless_def letterRunes_def)
qed

text \<open>Go's time formats with layouts of digits give digits.\<close>

definition sound_env :: "name_env \<Rightarrow> bool" where
  "sound_env N \<longleftrightarrow> draws_ok 16 (ne_random16 N) \<and> draws_ok 8 (ne_random8 N) \<and>
     (\<forall>layout. set layout \<subseteq> set ''0123456789'' \<longrightarrow> braceless (ne_format N layout)) \<and> braceless (ne_uuid N) \<and>
     (\<forall>table. mset (ne_range N table) = mset table)"

lemma path_table_ok:
  assumes "sound_env N" and "braceless origin"
  shows "list_all (\<lambda>kv. placeholder (fst kv) \<and> braceless (snd kv)) (path_table N uid origin)"
    and "distinct (map fst (path_table N uid origin))"
proof -
  have "braceless (origin @ ''/'')" using assms(2) by (simp add: braceless_def)
  then show "list_all (\<lambda>kv. placeholder (fst kv) \<and> braceless (snd kv)) (path_table N uid origin)"
    using assms RandStringRunes_braceless
    by (auto simp: path_table_def placeholder_def sound_env_def formatNat_braceless formatInt_braceless)
qed (simp add: path_table_def)

section \<open>Properties\<close>

text \<open>
  The directory of a stored file does not depend on the order in which the range visits the
  placeholders: when the braces of the rule are not nested and the folder of the file has none, it
  is the cleaned rule with every placeholder filled in at once.
\<close>

theorem GeneratePath_any_order:
  assumes "sound_env N" and "plain (p_DirNameRule policy)" and "braceless origin"
  shows "GeneratePath N policy uid origin =
    pathClean (expand (map_of (path_table N uid origin)) (p_DirNameRule policy))"
proof -
  have "mset (ne_range N (path_table N uid origin)) = mset (path_table N uid origin)"
    using assms(1) by (simp add: sound_env_def)
  from Replace_range [OF this _ assms(2)] path_table_ok [OF assms(1,3)] show ?thesis
    by (simp add: GeneratePath_def)
qed

definition sample_names :: name_env where
  "sample_names = \<lparr>ne_random16 = replicate 16 0, ne_random8 = replicate 8 0, ne_unix = 5, ne_unixNano = 7,
     ne_format = (\<lambda>layout. ''20''), ne_uuid = ''u'', ne_range = rev\<rparr>"

lemma sample_sound: "sound_env sample_names"
  by (simp add: sample_names_def sound_env_def draws_ok_def letterRunes_def braceless_def list_all_iff)

lemma GeneratePath_any_order_witness:
  "GeneratePath sample_names (zero_policy\<lparr>p_DirNameRule := ''up/{uid}/{year}{path}''\<rparr>) 4 ''/a'' = ''up/4/20/a''"
proof -
  let ?p = "zero_policy\<lparr>p_DirNameRule := ''up/{uid}/{year}{path}''\<rparr>"
  have "plain (p_DirNameRule ?p)" "braceless ''/a''" by (simp_all add: braceless_def)
  note eq = GeneratePath_any_order [OF sample_sound this, of 4]
  show ?thesis unfolding eq by code_simp
qed

text \<open>A folder whose name has braces is filled in or not, as the range happens to go.\<close>

lemma GeneratePath_order_matters:
  "GeneratePath (sample_names\<lparr>ne_range := rev\<rparr>) (zero_policy\<lparr>p_DirNameRule := ''{path}''\<rparr>) 4 ''/{uid}'' = ''/4''"
  "GeneratePath (sample_names\<lparr>ne_range := (\<lambda>t. t)\<rparr>) (zero_policy\<lparr>p_DirNameRule := ''{path}''\<rparr>) 4 ''/{uid}'' = ''/{uid}''"
  by code_simp+

end
