(* ===== verification/ServiceExplorer.thy ===== *)
theory ServiceExplorer
  imports ServiceCore
begin

text \<open>
  \<open>service/explorer\<close>: what the API does with a user's own files and folders (\<open>objects.go\<close>),
  uploads in chunks (\<open>upload.go\<close>), and reading and writing single files (\<open>file.go\<close>). Tasks
  for archives, previews of documents and the uploads of slave nodes are left out.
\<close>

text \<open>
  The surroundings: the file system's, the runner of hooks, the strings drawn at random for a
  request, and \<open>auth.SignURI\<close> with the general key.
\<close>

record 'p svc_env =
  ssys :: "'p sys"
  srun :: "'p hook_runner"
  random16 :: gostring
  uuid :: gostring
  secret :: gostring
  signURI :: "gostring \<Rightarrow> int \<Rightarrow> gostring"

datatype svc_data =
    DText gostring
  | DProps object_props
  | DCredential upload_credential
  | DContent gostring unix_time gostring
  | DSources "(gostring \<times> gostring \<times> uint \<times> bool) list"

type_synonym 'p served_api = "(svc_data, 'p) reply"

section \<open>Objects (objects.go)\<close>

definition decode_all :: "hashids \<Rightarrow> int \<Rightarrow> gostring list \<Rightarrow> uint list" where
  "decode_all H t ids =
     concat (map (\<lambda>s. case DecodeHashID H s t of Inl _ \<Rightarrow> [] | Inr i \<Rightarrow> [i]) ids)"

text \<open>The numbers of the items and of the directories; ids that do not decode are left out.\<close>

definition Raw :: "hashids \<Rightarrow> item_ids \<Rightarrow> uint list \<times> uint list" where
  "Raw H service =
     (case it_Source service of
        Some src \<Rightarrow> src
      | None \<Rightarrow> (decode_all H FileID (it_Items service), decode_all H FolderID (it_Dirs service)))"

definition Archive :: "'p svc_env \<Rightarrow> item_ids \<Rightarrow> user_row option \<Rightarrow> 'p server \<Rightarrow> 'p served_api" where
  "Archive E service user sv =
     with_fs (ssys E) user sv (\<lambda>w.
       if \<not> g_ArchiveDownload (u_Group (User w)) then reply (Err CodeGroupNotAllowed None) w
       else
         (let ttl = GetIntSetting (orm (ssys E)) ''archive_timeout'' 30 (wdb w);
              i = random16 E;
              now = clock (ssys E);
              ch1 = cache_Set now (''archive_'' @ i) (CObj (CItems service)) ttl (wcache w);
              ch2 = cache_Set now (''archive_user_'' @ i) (CObj (CUser (User w))) ttl ch1
          in reply (ok (Some (DText (signURI E (''/api/v3/file/archive/'' @ i @ ''/archive.zip'') ttl))))
               (w\<lparr>wcache := ch2\<rparr>)))"

definition Delete_items :: "'p svc_env \<Rightarrow> item_ids \<Rightarrow> user_row option \<Rightarrow> 'p server \<Rightarrow> 'p served_api" where
  "Delete_items E service user sv =
     with_fs (ssys E) user sv (\<lambda>w.
       (let (items, dirs) = Raw (hids (ssys E)) service
        in finish CodeNotSet (Delete_objects (ssys E) dirs items False w)))"

definition Move_items ::
  "'p svc_env \<Rightarrow> item_ids \<Rightarrow> gostring \<Rightarrow> gostring \<Rightarrow> user_row option \<Rightarrow> 'p server \<Rightarrow> 'p served_api" where
  "Move_items E src srcDir dst user sv =
     with_fs (ssys E) user sv (\<lambda>w.
       (let (items, dirs) = Raw (hids (ssys E)) src
        in finish CodeNotSet (Move_objects (ssys E) dirs items srcDir dst w)))"

definition Copy_items ::
  "'p svc_env \<Rightarrow> item_ids \<Rightarrow> gostring \<Rightarrow> gostring \<Rightarrow> user_row option \<Rightarrow> 'p server \<Rightarrow> 'p served_api" where
  "Copy_items E src srcDir dst user sv =
     (if length (it_Items src) + length (it_Dirs src) > 1 then Some (ParamErr None, sv)
      else with_fs (ssys E) user sv (\<lambda>w.
       (let (items, dirs) = Raw (hids (ssys E)) src
        in finish CodeNotSet (Copy_objects (ssys E) dirs items srcDir dst w))))"

definition Rename_items ::
  "'p svc_env \<Rightarrow> item_ids \<Rightarrow> gostring \<Rightarrow> user_row option \<Rightarrow> 'p server \<Rightarrow> 'p served_api" where
  "Rename_items E src newName user sv =
     (if length (it_Items src) + length (it_Dirs src) > 1 then Some (ParamErr None, sv)
      else with_fs (ssys E) user sv (\<lambda>w.
       (let (items, dirs) = Raw (hids (ssys E)) src
        in finish CodeNotSet (Rename_objects (ssys E) dirs items newName w))))"

text \<open>The properties of a file: a query that finds nothing makes the handler panic.\<close>

definition file_props ::
  "'p svc_env \<Rightarrow> user_row \<Rightarrow> uint \<Rightarrow> bool \<Rightarrow> 'p server \<Rightarrow> 'p served_api" where
  "file_props E user res traceRoot sv =
     (let G = orm (ssys E); now = clock (ssys E) in
      case GetFilesByIDs G [res] (u_ID user) (sv_db sv) of
        Inl _ \<Rightarrow> Some (DBErr None, sv)
      | Inr [] \<Rightarrow> None
      | Inr (f # _) \<Rightarrow>
          (let (f', ch) = GetPolicy G now f (sv_db sv) (sv_cache sv);
               props = \<lparr>op_CreateAt = f_CreatedAt f, op_UpdateAt = f_UpdatedAt f, op_Policy = p_Name (f_Policy f'),
                 op_Size = f_Size f, op_ChildFolderNum = 0, op_ChildFileNum = 0, op_Path = [], op_QueryDate = now\<rparr>;
               sv1 = sv\<lparr>sv_cache := ch\<rparr>
           in if \<not> traceRoot then Some (ok (Some (DProps props)), sv1)
              else case GetFolderByIDs G [f_FolderID f] (u_ID user) (sv_db sv1) of
                Inl _ \<Rightarrow> Some (DBErr None, sv1)
              | Inr [] \<Rightarrow> None
              | Inr (parent # _) \<Rightarrow>
                  (case TraceRoot G (sv_db sv1) parent of
                     None \<Rightarrow> None
                   | Some (_, Some _) \<Rightarrow> Some (DBErr None, sv1)
                   | Some (p, None) \<Rightarrow>
                       Some (ok (Some (DProps (props\<lparr>op_Path := pathJoin (d_Position p) (d_Name p)\<rparr>))), sv1))))"

definition folder_props ::
  "'p svc_env \<Rightarrow> user_row \<Rightarrow> uint \<Rightarrow> bool \<Rightarrow> 'p server \<Rightarrow> 'p served_api" where
  "folder_props E user res traceRoot sv =
     (let G = orm (ssys E); now = clock (ssys E); d = sv_db sv; key = ''folder_props_'' @ formatNat res in
      case GetFolderByIDs G [res] (u_ID user) d of
        Inl _ \<Rightarrow> Some (DBErr None, sv)
      | Inr [] \<Rightarrow> None
      | Inr (folder # _) \<Rightarrow>
          (case cache_Get now key (sv_cache sv) of
             Some (CObj (CProps cached)) \<Rightarrow>
               Some (ok (Some (DProps (cached\<lparr>op_CreateAt := d_CreatedAt folder, op_UpdateAt := d_UpdatedAt folder\<rparr>))), sv)
           | Some _ \<Rightarrow> None
           | None \<Rightarrow>
               (case GetRecursiveChildFolder G [d_ID folder] (u_ID user) True d of
                  (_, Some _) \<Rightarrow> Some (DBErr None, sv)
                | (childFolders, None) \<Rightarrow>
                    (case GetChildFilesOfFolders G childFolders d of
                       Inl _ \<Rightarrow> Some (DBErr None, sv)
                     | Inr fs \<Rightarrow>
                         (let props = \<lparr>op_CreateAt = d_CreatedAt folder, op_UpdateAt = d_UpdatedAt folder,
                                op_Policy = [], op_Size = sum_list (map f_Size fs),
                                op_ChildFolderNum = int (length childFolders) - 1,
                                op_ChildFileNum = int (length fs), op_Path = [], op_QueryDate = now\<rparr>;
                              done = (\<lambda>pr. Some (ok (Some (DProps pr)),
                                sv\<lparr>sv_cache := cache_Set now key (CObj (CProps pr))
                                     (GetIntSetting G ''folder_props_timeout'' 300 d) (sv_cache sv)\<rparr>))
                          in if \<not> traceRoot then done props
                             else case TraceRoot G d folder of
                               None \<Rightarrow> None
                             | Some (_, Some _) \<Rightarrow> Some (DBErr None, sv)
                             | Some (p, None) \<Rightarrow> done (props\<lparr>op_Path := d_Position p\<rparr>))))))"

definition GetProperty ::
  "'p svc_env \<Rightarrow> gostring \<Rightarrow> bool \<Rightarrow> bool \<Rightarrow> user_row option \<Rightarrow> 'p server \<Rightarrow> 'p served_api" where
  "GetProperty E i isFolder traceRoot user sv =
     (case user of
        None \<Rightarrow> None
      | Some u \<Rightarrow>
          (case DecodeHashID (hids (ssys E)) i (if isFolder then FolderID else FileID) of
             Inl _ \<Rightarrow> Some (Err CodeNotFound None, sv)
           | Inr res \<Rightarrow>
               (if isFolder then folder_props E u res traceRoot sv else file_props E u res traceRoot sv)))"

section \<open>Uploads (upload.go)\<close>

record session_request =
  sr_Path :: gostring
  sr_Size :: u64
  sr_Name :: gostring
  sr_PolicyID :: gostring
  sr_LastModified :: int

definition CreateSession :: "'p svc_env \<Rightarrow> session_request \<Rightarrow> user_row option \<Rightarrow> 'p server \<Rightarrow> 'p served_api" where
  "CreateSession E service user sv =
     with_fs (ssys E) user sv (\<lambda>w.
       case DecodeHashID (hids (ssys E)) (sr_PolicyID service) PolicyID of
         Inl _ \<Rightarrow> reply (Err CodeNotFound None) w
       | Inr rawID \<Rightarrow>
           (case Policy w of
              None \<Rightarrow> None
            | Some policy \<Rightarrow>
                (if p_ID policy \<noteq> rawID then reply (Err CodePolicyNotAllowed None) w
                 else
                   (let fd = zero_stream\<lparr>fst_Size := sr_Size service, fst_Name := sr_Name service,
                          fst_VirtualPath := sr_Path service,
                          fst_LastModified := (if sr_LastModified service > 0 then Some (sr_LastModified service) else None)\<rparr>
                    in case CreateUploadSession (ssys E) (srun E) (uuid E) (secret E) Background fd w of
                         None \<Rightarrow> None
                       | Some (Inl e, w1) \<Rightarrow> reply_err CodeNotSet e w1
                       | Some (Inr credential, w1) \<Rightarrow> reply (ok (Some (DCredential credential))) w1))))"

text \<open>
  How long the chunk with an index has to be: as long as the policy's chunks, and the last one
  what is left, in 64-bit words. A policy without a chunk size takes the file in one chunk.
\<close>

definition is_last_chunk :: "u64 \<Rightarrow> u64 \<Rightarrow> nat \<Rightarrow> bool" where
  "is_last_chunk chunkSize fileTotal index \<longleftrightarrow>
     chunkSize = 0 \<or> fileTotal \<le> word_of_nat (index + 1) * chunkSize"

definition expected_length :: "u64 \<Rightarrow> u64 \<Rightarrow> nat \<Rightarrow> u64" where
  "expected_length chunkSize fileTotal index =
     (if is_last_chunk chunkSize fileTotal index then fileTotal - word_of_nat index * chunkSize else chunkSize)"

definition chunk_hooks :: "upload_session \<Rightarrow> u64 \<Rightarrow> bool \<Rightarrow> file_row option \<Rightarrow> 'p world \<Rightarrow> 'p world" where
  "chunk_hooks session appendStart isLast file w =
     (let w1 = Use ''AfterValidateFailed'' (HookTruncateFileTo appendStart)
                 (Use ''AfterUploadCanceled'' (HookTruncateFileTo appendStart) w)
      in if file \<noteq> None then
           (let w2 = Use ''AfterValidateFailed'' HookChunkUploadFailed
                       (Use ''AfterUpload'' HookChunkUploaded (Use ''BeforeUpload'' HookValidateCapacity w1))
            in if isLast then
                 Use ''AfterUpload'' (HookDeleteUploadSession (us_Key session))
                   (Use ''AfterUpload'' HookGenerateThumb (Use ''AfterUpload'' (HookPopPlaceholderToFile []) w2))
               else w2)
         else if isLast then
           Use ''AfterUpload'' (HookDeleteUploadSession (us_Key session))
             (Use ''AfterUpload'' (SlaveAfterUpload session) w1)
         else w1)"

text \<open>
  A chunk is stored: of the file \<open>file\<close>, or on a slave, which has no row for it. \<open>header\<close> is the
  length of the request's body.
\<close>

definition processChunkUpload ::
  "'p svc_env \<Rightarrow> upload_session \<Rightarrow> nat \<Rightarrow> file_row option \<Rightarrow> u64 \<Rightarrow> gostring \<Rightarrow> gostring \<Rightarrow> 'p world \<Rightarrow> 'p served_api" where
  "processChunkUpload E session index file mode0 header body w =
     (let chunkSize = p_ChunkSize (us_Policy session);
          isLast = is_last_chunk chunkSize (us_Size session) index;
          expected = expected_length chunkSize (us_Size session) index
      in case parseUint header of
           None \<Rightarrow> reply (Err CodeInvalidContentLength None) w
         | Some fileSize \<Rightarrow>
             (if expected \<noteq> word_of_nat fileSize then reply (Err CodeInvalidContentLength None) w
              else
                (let mode = (if index > 0 then or mode0 Overwrite else mode0);
                     start = chunkSize * word_of_nat index;
                     fd = \<lparr>fst_Mode = mode, fst_LastModified = us_LastModified session, fst_File = body,
                       fst_Size = word_of_nat fileSize, fst_VirtualPath = us_VirtualPath session,
                       fst_Name = us_Name session, fst_SavePath = us_SavePath session, fst_UploadSessionID = None,
                       fst_AppendStart = start, fst_Model = file, fst_Src = []\<rparr>
                 in case Upload (ssys E) (srun E) Background fd (chunk_hooks session start isLast file w) of
                      None \<Rightarrow> None
                    | Some (Some e, _, w1) \<Rightarrow> reply_err CodeUploadFailed e w1
                    | Some (None, _, w1) \<Rightarrow> reply (ok None) w1)))"

definition LocalUpload ::
  "'p svc_env \<Rightarrow> gostring \<Rightarrow> nat \<Rightarrow> gostring \<Rightarrow> gostring \<Rightarrow> user_row option \<Rightarrow> 'p server \<Rightarrow> 'p served_api" where
  "LocalUpload E i index header body user sv =
     (case cache_Get (clock (ssys E)) (''callback_'' @ i) (sv_cache sv) of
        None \<Rightarrow> Some (Err CodeUploadSessionExpired None, sv)
      | Some (CObj (CSession session)) \<Rightarrow>
          with_fs (ssys E) user sv (\<lambda>w.
            if us_UID session \<noteq> u_ID (User w) then reply (Err CodeUploadSessionExpired None) w
            else case GetFilesByUploadSession (orm (ssys E)) i (u_ID (User w)) (wdb w) of
              Inl _ \<Rightarrow> reply (Err CodeUploadSessionExpired None) w
            | Inr f \<Rightarrow>
                (if \<not> IsTransitUpload (us_Policy session) (us_Size session) then
                   reply (Err CodePolicyNotAllowed None) w
                 else case DispatchHandler (ssys E) (w\<lparr>Policy := Some (us_Policy session)\<rparr>) of
                   (Some e, w1) \<Rightarrow> reply_err CodePolicyNotAllowed e w1
                 | (None, w1) \<Rightarrow>
                     (let chunkSize = p_ChunkSize (us_Policy session);
                          actualSizeStart = word_of_nat index * chunkSize
                      in if chunkSize = 0 \<and> index > 0 then reply (Err CodeInvalidChunkIndex None) w1
                         else if f_Size f < actualSizeStart then reply (Err CodeInvalidChunkIndex None) w1
                         else processChunkUpload E session index (Some f) Append header body w1)))
      | Some _ \<Rightarrow> None)"

text \<open>
  The same on a slave, with a local driver of its own. An upload session that is not there is
  reported to nobody, and the assertion on it panics; the index of an unreadable \<open>chunk\<close> is 0.
\<close>

definition SlaveUpload ::
  "'p svc_env \<Rightarrow> gostring \<Rightarrow> gostring \<Rightarrow> gostring \<Rightarrow> gostring \<Rightarrow> gostring \<Rightarrow> 'p server \<Rightarrow> 'p served_api" where
  "SlaveUpload E i chunk overwrite header body sv =
     (case cache_Get (clock (ssys E)) (''callback_'' @ i) (sv_cache sv) of
        Some (CObj (CSession session)) \<Rightarrow>
          (let w = (NewAnonymousFileSystem (ssys E) (sv_db sv) (sv_cache sv) (sv_disk sv))
                 \<lparr>Handler := Some (LocalDriver zero_policy)\<rparr>;
               index = (case parseInt chunk of None \<Rightarrow> 0 | Some n \<Rightarrow> n);
               mode = (if overwrite = ''true'' then or Append Overwrite else Append)
           in if index < 0 then None
              else processChunkUpload E session (nat index) None mode header body w)
      | _ \<Rightarrow> None)"

text \<open>An anonymous file system has no driver, so that deleting the content panics.\<close>

definition SlaveDelete :: "'p svc_env \<Rightarrow> gostring \<Rightarrow> 'p server \<Rightarrow> 'p served_api" where
  "SlaveDelete E i sv =
     (let w = NewAnonymousFileSystem (ssys E) (sv_db sv) (sv_cache sv) (sv_disk sv) in
      case cache_Get (clock (ssys E)) (''callback_'' @ i) (wcache w) of
        None \<Rightarrow> reply (Err CodeUploadSessionExpired None) w
      | Some session \<Rightarrow>
          (case Handler w of
             None \<Rightarrow> None
           | Some drv \<Rightarrow>
               (case session of
                  CObj (CSession us) \<Rightarrow>
                    (case h_Delete (drivers (ssys E) drv) [us_SavePath us] (wdisk w) of
                       (failed, p') \<Rightarrow>
                         (if failed \<noteq> [] then reply (Err CodeInternalSetting None) (w\<lparr>wdisk := p'\<rparr>)
                          else reply (ok None) (w\<lparr>wdisk := p', wcache := cache_Deletes [i] ''callback_'' (wcache w)\<rparr>)))
                | _ \<Rightarrow> None)))"

definition DeleteSession :: "'p svc_env \<Rightarrow> gostring \<Rightarrow> user_row option \<Rightarrow> 'p server \<Rightarrow> 'p served_api" where
  "DeleteSession E i user sv =
     with_fs (ssys E) user sv (\<lambda>w.
       case GetFilesByUploadSession (orm (ssys E)) i (u_ID (User w)) (wdb w) of
         Inl _ \<Rightarrow> reply (Err CodeUploadSessionExpired None) w
       | Inr f \<Rightarrow> finish CodeInternalSetting (Delete_objects (ssys E) [] [f_ID f] False w))"

definition DeleteAllUploadSession :: "'p svc_env \<Rightarrow> user_row option \<Rightarrow> 'p server \<Rightarrow> 'p served_api" where
  "DeleteAllUploadSession E user sv =
     with_fs (ssys E) user sv (\<lambda>w.
       finish CodeInternalSetting
         (Delete_objects (ssys E) [] (map f_ID (GetUploadPlaceholderFiles (orm (ssys E)) (u_ID (User w)) (wdb w))) False w))"

section \<open>Single files (file.go)\<close>

definition CreateFile :: "'p svc_env \<Rightarrow> gostring \<Rightarrow> user_row option \<Rightarrow> 'p server \<Rightarrow> 'p served_api" where
  "CreateFile E path user sv =
     with_fs (ssys E) user sv (\<lambda>w.
       case Upload (ssys E) (srun E) Background
              (zero_stream\<lparr>fst_VirtualPath := pathDir path, fst_Name := pathBase path\<rparr>)
              (Use ''AfterUpload'' GenericAfterUpload (Use ''BeforeUpload'' HookValidateFile w)) of
         None \<Rightarrow> None
       | Some (Some e, _, w1) \<Rightarrow> reply_err CodeUploadFailed e w1
       | Some (None, _, w1) \<Rightarrow> reply (ok None) w1)"

text \<open>What \<open>http.ServeContent\<close> serves; without content, closing it panics.\<close>

definition serve_content :: "gostring \<Rightarrow> gostring option \<Rightarrow> 'p world \<Rightarrow> 'p served_api" where
  "serve_content name rs w =
     (case (rs, FileTarget w) of
        (Some content, f # _) \<Rightarrow> reply (ok (Some (DContent name (f_UpdatedAt f) content))) w
      | _ \<Rightarrow> None)"

text \<open>The content is closed before the error is looked at, which panics when there is one.\<close>

definition AnonymousDownload :: "'p svc_env \<Rightarrow> uint \<Rightarrow> gostring \<Rightarrow> 'p server \<Rightarrow> 'p served_api" where
  "AnonymousDownload E i name sv =
     (let w = NewAnonymousFileSystem (ssys E) (sv_db sv) (sv_cache sv) (sv_disk sv) in
      case SetTargetFileByIDs (ssys E) [i] w of
        (Some e, w1) \<Rightarrow> reply_err CodeNotSet e w1
      | (None, w1) \<Rightarrow>
          (case GetDownloadContent (ssys E) Background 0 w1 of
             (Inl _, _) \<Rightarrow> None
           | (Inr rs, w2) \<Rightarrow> serve_content name rs w2))"

text \<open>The error of the search for the file is not returned: there is then no first target.\<close>

definition AnonymousSource :: "'p svc_env \<Rightarrow> uint \<Rightarrow> 'p server \<Rightarrow> 'p served_api" where
  "AnonymousSource E i sv =
     (let w = NewAnonymousFileSystem (ssys E) (sv_db sv) (sv_cache sv) (sv_disk sv);
          w1 = snd (SetTargetFileByIDs (ssys E) [i] w)
      in case FileTarget w1 of
           [] \<Rightarrow> None
         | f # _ \<Rightarrow>
             (case SignURL (ssys E) f (GetIntSetting (orm (ssys E)) ''preview_timeout'' 60 (wdb w1)) False w1 of
                (Inl e, w2) \<Rightarrow> reply_err CodeNotSet e w2
              | (Inr url, w2) \<Rightarrow> reply \<lparr>r_Code = -302, r_Data = Some (DText url)\<rparr> w2))"

definition Download :: "'p svc_env \<Rightarrow> gostring \<Rightarrow> user_row option \<Rightarrow> 'p server \<Rightarrow> 'p served_api" where
  "Download E i user sv =
     with_fs (ssys E) user sv (\<lambda>w.
       case cache_Get (clock (ssys E)) (''download_'' @ i) (wcache w) of
         None \<Rightarrow> reply (Err 404 None) w
       | Some (CObj (CFile f)) \<Rightarrow>
           (case GetDownloadContent (ssys E) Background 0 (w\<lparr>FileTarget := [f]\<rparr>) of
              (Inl e, w1) \<Rightarrow> reply_err CodeNotSet e w1
            | (Inr rs, w1) \<Rightarrow>
                (let w2 = (if g_OneTimeDownload (u_Group (User w1))
                           then w1\<lparr>wcache := cache_Deletes [i] ''download_'' (wcache w1)\<rparr> else w1)
                 in case FileTarget w2 of
                      [] \<Rightarrow> None
                    | g # _ \<Rightarrow> serve_content (f_Name g) rs w2))
       | Some _ \<Rightarrow> None)"

text \<open>
  The object of a preview: the one of the route, a file handed over, or a path below a folder
  handed over.
\<close>

definition preview_target ::
  "'p svc_env \<Rightarrow> uint option \<Rightarrow> file_row option \<Rightarrow> (folder_row \<times> gostring) option \<Rightarrow> 'p world \<Rightarrow>
   (fs_error + uint option) \<times> 'p world" where
  "preview_target E objectID fileCtx folderCtx w =
     (let (obj, w1) = (case fileCtx of Some f \<Rightarrow> (Some 0, SetTargetFile [f] w) | None \<Rightarrow> (objectID, w)) in
      case folderCtx of
        None \<Rightarrow> (Inr obj, w1)
      | Some (folder, path) \<Rightarrow>
          (case ResetFileIfNotExist (ssys E) path (w1\<lparr>FsRoot := Some folder\<rparr>) of
             (Some e, w2) \<Rightarrow> (Inl e, w2)
           | (None, w2) \<Rightarrow> (Inr (Some 0), w2)))"

definition PreviewContent ::
  "'p svc_env \<Rightarrow> uint option \<Rightarrow> file_row option \<Rightarrow> (folder_row \<times> gostring) option \<Rightarrow> bool \<Rightarrow> user_row option \<Rightarrow>
   'p server \<Rightarrow> 'p served_api" where
  "PreviewContent E objectID fileCtx folderCtx isText user sv =
     with_fs (ssys E) user sv (\<lambda>w.
       case preview_target E objectID fileCtx folderCtx w of
         (Inl e, w1) \<Rightarrow> reply_err CodeNotFound e w1
       | (Inr None, w1) \<Rightarrow> None
       | (Inr (Some obj), w1) \<Rightarrow>
           (case Preview (ssys E) Background obj isText w1 of
              (Inl e, w2) \<Rightarrow> reply_err CodeNotSet e w2
            | (Inr (Redirect url _), w2) \<Rightarrow> reply \<lparr>r_Code = -301, r_Data = Some (DText url)\<rparr> w2
            | (Inr (Content rs), w2) \<Rightarrow>
                (case FileTarget w2 of [] \<Rightarrow> None | f # _ \<Rightarrow> serve_content (f_Name f) rs w2)))"

definition CreateDownloadSession ::
  "'p svc_env \<Rightarrow> uint option \<Rightarrow> user_row option \<Rightarrow> 'p server \<Rightarrow> 'p served_api" where
  "CreateDownloadSession E objectID user sv =
     with_fs (ssys E) user sv (\<lambda>w.
       case objectID of
         None \<Rightarrow> None
       | Some obj \<Rightarrow>
           (case GetDownloadURL (ssys E) Background obj ''download_timeout'' w of
              (Inl e, w1) \<Rightarrow> reply_err CodeNotSet e w1
            | (Inr url, w1) \<Rightarrow> reply (ok (Some (DText url))) w1))"

text \<open>
  Writing a file: the size is read from the header \<open>Content-Type\<close>, as in the code. A file whose
  content is shared gets a path of its own.
\<close>

definition overwrite_hooks :: "bool \<Rightarrow> 'p world \<Rightarrow> 'p world" where
  "overwrite_hooks softLinked w =
     (let w0 = (if softLinked then
            Use ''AfterValidateFailed'' HookUpdateSourceName
              (Use ''AfterUploadCanceled'' HookUpdateSourceName (Use ''AfterUpload'' HookUpdateSourceName w))
          else w);
          w1 = Use ''BeforeUpload'' HookValidateCapacityDiff
                 (Use ''BeforeUpload'' HookValidateFile (Use ''BeforeUpload'' HookResetPolicy w0));
          w2 = Use ''AfterUploadCanceled'' HookClearFileSize (Use ''AfterUploadCanceled'' HookCleanFileContent w1)
      in Use ''AfterValidateFailed'' HookClearFileSize
           (Use ''AfterValidateFailed'' HookCleanFileContent (Use ''AfterUpload'' GenericAfterUpdate w2)))"

definition PutContent ::
  "'p svc_env \<Rightarrow> uint option \<Rightarrow> gostring \<Rightarrow> gostring \<Rightarrow> user_row option \<Rightarrow> 'p server \<Rightarrow> 'p served_api" where
  "PutContent E objectID contentType body user sv =
     (case parseUint contentType of
        None \<Rightarrow> Some (ParamErr None, sv)
      | Some fileSize \<Rightarrow>
          with_fs (ssys E) user sv (\<lambda>w.
            case objectID of
              None \<Rightarrow> None
            | Some fileID \<Rightarrow>
                (case GetFilesByIDs (orm (ssys E)) [fileID] (u_ID (User w)) (wdb w) of
                   Inr (origin # _) \<Rightarrow>
                     (let softLinked = (RemoveFilesWithSoftLinks (orm (ssys E)) [origin] (wdb w) = Inr []);
                          fd0 = zero_stream\<lparr>fst_File := body, fst_Size := word_of_nat fileSize,
                            fst_Name := f_Name origin, fst_Mode := (if softLinked then 0 else Overwrite)\<rparr>
                      in case (if softLinked then
                                 (case Policy w of None \<Rightarrow> None
                                  | Some policy \<Rightarrow> Some (origin\<lparr>f_SourceName := GenerateSavePath (ssys E) policy fd0 w\<rparr>))
                               else Some origin) of
                           None \<Rightarrow> None
                         | Some origin' \<Rightarrow>
                             (case Upload (ssys E) (srun E) (Background\<lparr>FileModelCtx := Some origin'\<rparr>) fd0
                                     (overwrite_hooks softLinked w) of
                                None \<Rightarrow> None
                              | Some (Some e, _, w1) \<Rightarrow> reply_err CodeUploadFailed e w1
                              | Some (None, _, w1) \<Rightarrow> reply (ok None) w1))
                 | _ \<Rightarrow> reply (Err 404 None) w)))"

text \<open>The sources of several files; the last component says whether there was an error.\<close>

fun sources_loop :: "'p svc_env \<Rightarrow> uint list \<Rightarrow> 'p world \<Rightarrow> (gostring \<times> gostring \<times> uint \<times> bool) list \<times> 'p world" where
  "sources_loop E [] w = ([], w)"
| "sources_loop E (i # is) w =
     (let (res, w1) = GetSource (ssys E) Background i (w\<lparr>FileTarget := []\<rparr>);
          (rest, w2) = sources_loop E is w1
      in case FileTarget w1 of
           [] \<Rightarrow> (rest, w2)
         | f # _ \<Rightarrow>
             ((case res of Inr url \<Rightarrow> (url, f_Name f, f_FolderID f, False)
               | Inl _ \<Rightarrow> ([], f_Name f, f_FolderID f, True)) # rest, w2))"

definition Sources :: "'p svc_env \<Rightarrow> item_ids \<Rightarrow> user_row option \<Rightarrow> 'p server \<Rightarrow> 'p served_api" where
  "Sources E service user sv =
     with_fs (ssys E) user sv (\<lambda>w.
       (let items = fst (Raw (hids (ssys E)) service) in
        if int (length items) > g_SourceBatchSize (u_Group (User w)) then reply (Err CodeBatchSourceSize None) w
        else (let (res, w1) = sources_loop E items w in reply (ok (Some (DSources res))) w1)))"

end
