(* ===== verification/ServiceAdmin.thy ===== *)
theory ServiceAdmin
  imports ServiceExplorer TaskPool NodePool ModelsPolicy
begin

text \<open>
  \<open>service/admin\<close>: the administration of the site: lists of every table, users, groups, storage
  policies, nodes, shares, files, tasks and settings.

  The conditions of lists are pieces of SQL the code puts together from the request; what rows
  such a text admits is the parameter \<open>sql\<close>, which answers \<open>None\<close> for a text that is no condition.
  The maps of a request are lists in the order in which a range visits them. The call of the
  field \<open>Error\<close> in \<open>site.go\<close>, which Go does not compile, is read as the field.
\<close>

section \<open>Answers\<close>

definition CodeIOFailed :: int where "CodeIOFailed = 50004"

datatype admin_data =
    AdUsers nat "user_row list"
  | AdGroups nat "group_row list" "uint \<rightharpoonup> nat" "uint \<rightharpoonup> policy"
  | AdPolicies nat "policy list" "uint \<rightharpoonup> nat \<times> nat"
  | AdNodes nat "node_row list" "uint \<rightharpoonup> bool"
  | AdShares nat "share_row list" "uint \<rightharpoonup> user_row" "uint \<rightharpoonup> gostring"
  | AdFiles nat "file_row list" "uint \<rightharpoonup> user_row"
  | AdDownloads nat "download_row list" "uint \<rightharpoonup> user_row"
  | AdTasks nat "task_row list" "uint \<rightharpoonup> user_row"
  | AdAllGroups "group_row list"
  | AdID uint
  | AdStatus int
  | AdUser user_row
  | AdGroup group_row
  | AdNode node_row
  | AdPolicy policy
  | AdObjects "fs_object list"
  | AdSettings "gostring \<rightharpoonup> gostring"

type_synonym admin_reply = "admin_data response"

section \<open>Lists (list.go)\<close>

record list_service =
  ls_Page :: int
  ls_PageSize :: int
  ls_OrderBy :: gostring
  ls_Conditions :: "(gostring \<times> gostring) list"
  ls_Searches :: "(gostring \<times> gostring) list"

type_synonym 'r sql = "gostring \<Rightarrow> gostring list \<Rightarrow> ('r \<Rightarrow> bool) option"

definition sql_and :: "('r \<Rightarrow> bool) option \<Rightarrow> ('r \<Rightarrow> bool) option \<Rightarrow> ('r \<Rightarrow> bool) option" where
  "sql_and a b = (case (a, b) of (Some P, Some Q) \<Rightarrow> Some (\<lambda>r. P r \<and> Q r) | _ \<Rightarrow> None)"

definition where_conditions :: "'r sql \<Rightarrow> (gostring \<times> gostring) list \<Rightarrow> ('r \<Rightarrow> bool) option" where
  "where_conditions sql conds =
     foldl (\<lambda>tx (k, v). sql_and tx (sql (k @ '' = ?'') [v])) (Some (\<lambda>r. True)) conds"

definition search_text :: "(gostring \<times> gostring) list \<Rightarrow> gostring" where
  "search_text searches = concat (map (\<lambda>(k, v). k @ '' like '%'' @ v @ ''%' OR '') searches)"

text \<open>\<open>trim\<close> is the function that is to take the last \<open>OR\<close> off.\<close>

definition where_searches ::
  "'r sql \<Rightarrow> (gostring \<Rightarrow> gostring \<Rightarrow> gostring) \<Rightarrow> (gostring \<times> gostring) list \<Rightarrow> ('r \<Rightarrow> bool) option" where
  "where_searches sql trim searches =
     (if length searches > 0 then sql (trim (search_text searches) '' OR '') [] else Some (\<lambda>r. True))"

text \<open>The rows of a page and the number of all; an invalid condition gives none.\<close>

definition list_rows ::
  "'r table_api \<Rightarrow> 'r sql \<Rightarrow> (gostring \<Rightarrow> gostring \<Rightarrow> gostring) \<Rightarrow> list_service \<Rightarrow> db \<Rightarrow> 'r list \<times> nat" where
  "list_rows T sql trim service d =
     (case sql_and (where_conditions sql (ls_Conditions service)) (where_searches sql trim (ls_Searches service)) of
        None \<Rightarrow> ([], 0)
      | Some P \<Rightarrow> list_page T P (ls_Page service) (ls_PageSize service) (ls_OrderBy service) d)"

text \<open>The users of the rows: a zero user for everyone whom the query does not find.\<close>

definition users_of :: "gorm \<Rightarrow> uint list \<Rightarrow> db \<Rightarrow> uint \<rightharpoonup> user_row" where
  "users_of G userIDs d =
     (let users0 = (\<lambda>i. if i \<in> set userIDs then Some zero_user else None);
          userList = (case Find (Users G) (\<lambda>u. u_ID u \<in> set userIDs) d of Inl _ \<Rightarrow> [] | Inr us \<Rightarrow> us)
      in foldl (\<lambda>m v. m(u_ID v \<mapsto> v)) users0 userList)"

definition GroupList :: "gorm \<Rightarrow> db \<Rightarrow> admin_reply" where
  "GroupList G d =
     ok (Some (AdAllGroups (case Find (Groups G) (\<lambda>r. True) d of Inl _ \<Rightarrow> [] | Inr gs \<Rightarrow> gs)))"

definition list_Users :: "gorm \<Rightarrow> (user_row \<Rightarrow> user_row) \<Rightarrow> user_row sql \<Rightarrow> list_service \<Rightarrow> db \<Rightarrow> admin_reply" where
  "list_Users G load sql service d =
     (let (res, n) = list_rows (Users G) sql trimPrefix service d in ok (Some (AdUsers n (map load res))))"

text \<open>\<open>Scan\<close> of a count that failed leaves the zero it was given.\<close>

definition count_rows :: "'r table_api \<Rightarrow> ('r \<Rightarrow> bool) \<Rightarrow> db \<Rightarrow> nat" where
  "count_rows T P d = (case Count T P d of Inl _ \<Rightarrow> 0 | Inr n \<Rightarrow> n)"

text \<open>\<open>PolicyList\<close> is a field of the struct that is not stored: the argument \<open>policyList\<close>.\<close>

definition list_Groups ::
  "gorm \<Rightarrow> unix_time \<Rightarrow> (group_row \<Rightarrow> uint list) \<Rightarrow> group_row sql \<Rightarrow> list_service \<Rightarrow> db \<Rightarrow> cache_obj memo \<Rightarrow>
   admin_reply \<times> cache_obj memo" where
  "list_Groups G now policyList sql service d ch =
     (let (res, n) = list_rows (Groups G) sql trimPrefix (service\<lparr>ls_Searches := []\<rparr>) d;
          statics = foldl (\<lambda>m r. m(g_ID r \<mapsto> count_rows (Users G) (\<lambda>u. u_GroupID u = g_ID r) d)) Map.empty res;
          (policies, ch') = foldl (\<lambda>(m, c) p.
              (if m p \<noteq> None then (m, c)
               else (let (q, c') = GetPolicyByID G now p d c
                     in (m(p \<mapsto> (case q of Inl _ \<Rightarrow> zero_policy | Inr pol \<Rightarrow> pol)), c'))))
            (Map.empty, ch) (concat (map policyList res))
      in (ok (Some (AdGroups n res statics policies)), ch'))"

text \<open>The sum of no sizes is NULL, and one that does not fit an \<open>int\<close> is not taken either.\<close>

definition policy_statics :: "gorm \<Rightarrow> uint \<Rightarrow> db \<Rightarrow> nat \<times> nat" where
  "policy_statics G pid d =
     (case Find (Files G) (\<lambda>f. f_PolicyID f = pid) d of
        Inl _ \<Rightarrow> (0, 0)
      | Inr fs \<Rightarrow> (let s = sum_list (map (\<lambda>f. unat (f_Size f)) fs) in (length fs, if s < 2 ^ 63 then s else 0)))"

definition list_Policies :: "gorm \<Rightarrow> policy sql \<Rightarrow> list_service \<Rightarrow> db \<Rightarrow> admin_reply" where
  "list_Policies G sql service d =
     (let (res, n) = list_rows (Policies G) sql trimPrefix (service\<lparr>ls_Searches := []\<rparr>) d;
          statics = foldl (\<lambda>m r. m(p_ID r \<mapsto> policy_statics G (p_ID r) d)) Map.empty res
      in ok (Some (AdPolicies n res statics)))"

definition list_Nodes :: "gorm \<Rightarrow> node_row sql \<Rightarrow> list_service \<Rightarrow> db \<Rightarrow> pool \<Rightarrow> admin_reply" where
  "list_Nodes G sql service d p =
     (let (res, n) = list_rows (Nodes G) sql trimSuffix service d;
          isActive = foldl (\<lambda>m r. case pool_GetNodeByID (n_ID r) p of
              None \<Rightarrow> m | Some a \<Rightarrow> m(n_ID r \<mapsto> IsActive (np_store p a))) Map.empty res
      in ok (Some (AdNodes n res isActive)))"

definition list_Shares :: "gorm \<Rightarrow> hashids \<Rightarrow> share_row sql \<Rightarrow> list_service \<Rightarrow> db \<Rightarrow> admin_reply" where
  "list_Shares G H sql service d =
     (let (res, n) = list_rows (Shares G) sql trimSuffix service d;
          hashIDs = foldl (\<lambda>m r. m(s_ID r \<mapsto> HashID H (s_ID r) ShareID)) Map.empty res
      in ok (Some (AdShares n res (users_of G (map s_UserID res) d) hashIDs)))"

definition list_Files :: "gorm \<Rightarrow> file_row sql \<Rightarrow> list_service \<Rightarrow> db \<Rightarrow> admin_reply" where
  "list_Files G sql service d =
     (let (res, n) = list_rows (Files G) sql trimPrefix service d
      in ok (Some (AdFiles n res (users_of G (map f_UserID res) d))))"

definition list_Downloads :: "gorm \<Rightarrow> download_row sql \<Rightarrow> list_service \<Rightarrow> db \<Rightarrow> admin_reply" where
  "list_Downloads G sql service d =
     (let (res, n) = list_rows (Downloads G) sql trimSuffix service d
      in ok (Some (AdDownloads n res (users_of G (map dl_UserID res) d))))"

text \<open>The query goes to the downloads; \<open>as_tasks\<close> is what gorm makes of their rows for the struct \<open>Task\<close>.\<close>

definition list_Tasks ::
  "gorm \<Rightarrow> (download_row list \<Rightarrow> task_row list) \<Rightarrow> download_row sql \<Rightarrow> list_service \<Rightarrow> db \<Rightarrow> admin_reply" where
  "list_Tasks G as_tasks sql service d =
     (let (rows, n) = list_rows (Downloads G) sql trimSuffix service d; res = as_tasks rows
      in ok (Some (AdTasks n res (users_of G (map t_UserID res) d))))"

section \<open>Users (user.go)\<close>

text \<open>The error of the search for the user is dropped; the user is then zero, and saving it inserts it.\<close>

definition AddUser ::
  "hashes \<Rightarrow> nat list \<Rightarrow> gorm \<Rightarrow> (user_row \<Rightarrow> user_row) \<Rightarrow> user_row \<Rightarrow> gostring \<Rightarrow> db \<Rightarrow> admin_reply \<times> db" where
  "AddUser H draws G load service password d =
     (if u_ID service > 0 then
        (let user0 = (case GetUserByID G load (u_ID service) d of Inl _ \<Rightarrow> zero_user | Inr u \<Rightarrow> u);
             user1 = (if password \<noteq> [] then SetPassword H draws user0 password else user0);
             user = user1\<lparr>u_Nick := u_Nick service, u_Email := u_Email service, u_GroupID := u_GroupID service,
               u_Status := u_Status service\<rparr>
         in if u_ID user = 1 \<and> u_GroupID user \<noteq> 1 then (ParamErr None, d)
            else case Save (Users G) user d of
              Inl _ \<Rightarrow> (ParamErr None, d)
            | Inr (_, d') \<Rightarrow> (ok (Some (AdID (u_ID service))), d'))
      else
        case Create (Users G) (SetPassword H draws service password) d of
          Inl _ \<Rightarrow> (ParamErr None, d)
        | Inr (user, d') \<Rightarrow> (ok (Some (AdID (u_ID user))), d'))"

definition GetUser :: "gorm \<Rightarrow> (user_row \<Rightarrow> user_row) \<Rightarrow> uint \<Rightarrow> db \<Rightarrow> admin_reply" where
  "GetUser G load i d =
     (case GetUserByID G load i d of Inl _ \<Rightarrow> Err CodeNotFound None | Inr u \<Rightarrow> ok (Some (AdUser u)))"

text \<open>A statement that deletes rows, with its error dropped.\<close>

definition drop_rows :: "'r table_api \<Rightarrow> ('r \<Rightarrow> bool) \<Rightarrow> db \<Rightarrow> db" where
  "drop_rows T P d = (case Delete T P d of Inl _ \<Rightarrow> d | Inr (_, d') \<Rightarrow> d')"

definition drop_user_rows :: "gorm \<Rightarrow> uint \<Rightarrow> user_row \<Rightarrow> db \<Rightarrow> db" where
  "drop_user_rows G uid user d =
     (let d1 = drop_rows (Downloads G) (\<lambda>r. dl_UserID r = uid) d;
          d2 = drop_rows (Tasks G) (\<lambda>r. t_UserID r = uid) d1;
          d3 = drop_rows (Tags G) (\<lambda>r. tag_UserID r = uid) d2;
          d4 = drop_rows (Webdavs G) (\<lambda>r. w_UserID r = uid) d3
      in if u_ID user = 0 then d4 else drop_rows (Users G) (\<lambda>r. u_ID r = u_ID user) d4)"

text \<open>What became of the objects below the root is not looked at, unless it is a panic.\<close>

fun DeleteUsers :: "'p sys \<Rightarrow> uint list \<Rightarrow> 'p server \<Rightarrow> (admin_data, 'p) reply" where
  "DeleteUsers S [] sv = Some (ok None, sv)"
| "DeleteUsers S (uid # rest) sv =
     (case GetUserByID (orm S) (preload S) uid (sv_db sv) of
        Inl _ \<Rightarrow> Some (Err CodeNotFound None, sv)
      | Inr user \<Rightarrow>
          (if uid = 1 then Some (Err CodeNoPermissionErr None, sv)
           else
             (let w = snd (NewFileSystem S user (sv_db sv) (sv_cache sv) (sv_disk sv)) in
              case Root (orm S) (u_ID (User w)) (wdb w) of
                Inl _ \<Rightarrow> reply (Err CodeNotFound None) w
              | Inr root \<Rightarrow>
                  (let (e, w1) = Delete_objects S [d_ID root] [] False w in
                   if e = Some ErrPanic then None
                   else DeleteUsers S rest (server_of (w1\<lparr>wdb := drop_user_rows (orm S) uid user (wdb w1)\<rparr>))))))"

text \<open>gorm also writes the new status into the struct.\<close>

definition Ban :: "gorm \<Rightarrow> (user_row \<Rightarrow> user_row) \<Rightarrow> uint \<Rightarrow> db \<Rightarrow> admin_reply \<times> db" where
  "Ban G load i d =
     (case GetUserByID G load i d of
        Inl _ \<Rightarrow> (Err CodeNotFound None, d)
      | Inr user \<Rightarrow>
          (if u_ID user = 1 then (Err CodeNoPermissionErr None, d)
           else
             (let status = (if u_Status user = Active then Baned else Active)
              in (ok (Some (AdStatus status)), SetStatus G user status d))))"

section \<open>Groups (group.go)\<close>

definition AddGroup :: "gorm \<Rightarrow> group_row \<Rightarrow> db \<Rightarrow> admin_reply \<times> db" where
  "AddGroup G g d =
     (case (if g_ID g > 0 then Save (Groups G) g d else Create (Groups G) g d) of
        Inl _ \<Rightarrow> (ParamErr None, d)
      | Inr (g', d') \<Rightarrow> (ok (Some (AdID (g_ID g'))), d'))"

definition DeleteGroup :: "gorm \<Rightarrow> uint \<Rightarrow> db \<Rightarrow> admin_reply \<times> db" where
  "DeleteGroup G i d =
     (case GetGroupByID G i d of
        Inl _ \<Rightarrow> (Err CodeNotFound None, d)
      | Inr g \<Rightarrow>
          (if g_ID g \<le> 3 then (Err CodeNoPermissionErr None, d)
           else if count_rows (Users G) (\<lambda>u. u_GroupID u = i) d > 0 then (ParamErr None, d)
           else (ok None, drop_rows (Groups G) (\<lambda>r. g_ID r = g_ID g) d)))"

definition GetGroup :: "gorm \<Rightarrow> uint \<Rightarrow> db \<Rightarrow> admin_reply" where
  "GetGroup G i d = (case GetGroupByID G i d of Inl _ \<Rightarrow> Err CodeNotFound None | Inr g \<Rightarrow> ok (Some (AdGroup g)))"

section \<open>Storage policies (policy.go)\<close>

definition AddPolicy :: "gorm \<Rightarrow> policy \<Rightarrow> db \<Rightarrow> cache_obj memo \<Rightarrow> admin_reply \<times> db \<times> cache_obj memo" where
  "AddPolicy G service d ch =
     (let pol = (if p_Type service \<noteq> ''local'' \<and> p_Type service \<noteq> ''remote''
                 then service\<lparr>p_DirNameRule := trimPrefix (p_DirNameRule service) ''/''\<rparr> else service)
      in case (if p_ID pol > 0 then Save (Policies G) pol d else Create (Policies G) pol d) of
           Inl _ \<Rightarrow> (ParamErr None, d, ch)
         | Inr (pol', d') \<Rightarrow> (ok (Some (AdID (p_ID pol'))), d', CleanCache pol' ch))"

text \<open>
  The identifier of a \<open>PolicyService\<close> is an \<open>int\<close>, so that \<open>GetPolicyByID\<close> panics. \<open>createSCF\<close>
  and \<open>oauthURL\<close> are the clients of Tencent Cloud and OneDrive.
\<close>

definition AddCORS :: "gorm \<Rightarrow> unix_time \<Rightarrow> int \<Rightarrow> db \<Rightarrow> cache_obj memo \<Rightarrow> (admin_reply \<times> cache_obj memo) option" where
  "AddCORS G now i d ch =
     (case GetPolicyByAnyID G now (IntID i) d ch of
        None \<Rightarrow> None
      | Some (Inl _, ch') \<Rightarrow> Some (Err CodeNotFound None, ch')
      | Some (Inr pol, ch') \<Rightarrow>
          (if p_Type pol \<in> {''oss'', ''cos'', ''c3''} then Some (ok None, ch') else Some (ParamErr None, ch')))"

definition AddSCF ::
  "gorm \<Rightarrow> unix_time \<Rightarrow> (policy \<Rightarrow> gostring \<Rightarrow> bool) \<Rightarrow> int \<Rightarrow> gostring \<Rightarrow> db \<Rightarrow> cache_obj memo \<Rightarrow>
   (admin_reply \<times> cache_obj memo) option" where
  "AddSCF G now createSCF i region d ch =
     (case GetPolicyByAnyID G now (IntID i) d ch of
        None \<Rightarrow> None
      | Some (Inl _, ch') \<Rightarrow> Some (Err CodeNotFound None, ch')
      | Some (Inr pol, ch') \<Rightarrow>
          (if createSCF pol region then Some (ok None, ch') else Some (Err CodeInternalSetting None, ch')))"

definition GetPolicyAnswer :: "gorm \<Rightarrow> unix_time \<Rightarrow> int \<Rightarrow> db \<Rightarrow> cache_obj memo \<Rightarrow> (admin_reply \<times> cache_obj memo) option" where
  "GetPolicyAnswer G now i d ch =
     (case GetPolicyByAnyID G now (IntID i) d ch of
        None \<Rightarrow> None
      | Some (Inl _, ch') \<Rightarrow> Some (Err CodeNotFound None, ch')
      | Some (Inr pol, ch') \<Rightarrow> Some (ok (Some (AdPolicy pol)), ch'))"

definition DeletePolicy ::
  "gorm \<Rightarrow> unix_time \<Rightarrow> (gostring \<Rightarrow> gostring \<Rightarrow> bool) \<Rightarrow> int \<Rightarrow> db \<Rightarrow> cache_obj memo \<Rightarrow>
   (admin_reply \<times> db \<times> cache_obj memo) option" where
  "DeletePolicy G now like i d ch =
     (if i = 1 then Some (Err CodeNoPermissionErr None, d, ch)
      else case GetPolicyByAnyID G now (IntID i) d ch of
        None \<Rightarrow> None
      | Some (Inl _, ch') \<Rightarrow> Some (Err CodeNotFound None, d, ch')
      | Some (Inr pol, ch') \<Rightarrow>
          (if count_rows (Files G) (\<lambda>f. int (f_PolicyID f) = i) d > 0 then Some (ParamErr None, d, ch')
           else
             (let gs = (case Find (Groups G) (\<lambda>g. like (g_Policies g) (''%['' @ formatInt i @ '']%'')) d of
                          Inl _ \<Rightarrow> [] | Inr gs \<Rightarrow> gs)
              in if length gs > 0 then Some (ParamErr None, d, ch')
                 else Some (ok None, drop_rows (Policies G) (\<lambda>p. p_ID p = p_ID pol) d, CleanCache pol ch'))))"

text \<open>
  The path of a rule is tried out: \<open>createNested\<close> and \<open>remove\<close> are the operating system, \<open>absolute\<close>
  is \<open>utils.RelativePath\<close>. The file is created at the absolute path, and removed at the other.
\<close>

definition PathTest ::
  "name_env \<Rightarrow> (gostring \<Rightarrow> gostring) \<Rightarrow> (gostring \<Rightarrow> 'p \<Rightarrow> 'p option) \<Rightarrow> (gostring \<Rightarrow> 'p \<Rightarrow> 'p) \<Rightarrow> gostring \<Rightarrow> 'p \<Rightarrow>
   admin_reply \<times> 'p" where
  "PathTest N absolute createNested remove path disk =
     (let policy = zero_policy\<lparr>p_DirNameRule := path\<rparr>;
          path' = pathJoin (GeneratePath N policy 1 ''/My File'') ''test.txt''
      in case createNested (absolute path') disk of
           None \<Rightarrow> (ParamErr None, disk)
         | Some disk' \<Rightarrow> (ok None, remove path' disk'))"

section \<open>Nodes (node.go)\<close>

text \<open>\<open>None\<close> is a panic of the pool.\<close>

type_synonym node_reply = "(admin_reply \<times> db \<times> pool) option"

definition AddNode ::
  "gorm \<Rightarrow> (gostring \<Rightarrow> bool) \<Rightarrow> (uint set \<Rightarrow> uint list) \<Rightarrow> node_row \<Rightarrow> db \<Rightarrow> pool \<Rightarrow> node_reply" where
  "AddNode G parses order node d p =
     (case (if n_ID node > 0 then Save (Nodes G) node d else Create (Nodes G) node d) of
        Inl _ \<Rightarrow> Some (ParamErr None, d, p)
      | Inr (node', d') \<Rightarrow>
          (let answer = ok (Some (AdID (n_ID node'))) in
           if n_Status node' = NodeActive
           then map_option (\<lambda>p'. (answer, d', p')) (Add parses order node' p)
           else Some (answer, d', p)))"

definition Toggle ::
  "gorm \<Rightarrow> (gostring \<Rightarrow> bool) \<Rightarrow> (uint set \<Rightarrow> uint list) \<Rightarrow> uint \<Rightarrow> int \<Rightarrow> db \<Rightarrow> pool \<Rightarrow> node_reply" where
  "Toggle G parses order i desired d p =
     (case GetNodeByID G i d of
        Inl _ \<Rightarrow> Some (DBErr None, d, p)
      | Inr node \<Rightarrow>
          (if n_ID node \<le> 1 then Some (Err CodeNoPermissionErr None, d, p)
           else case Node_SetStatus G node desired d of
             (Inl _, _, d') \<Rightarrow> Some (DBErr None, d', p)
           | (Inr _, node', d') \<Rightarrow>
               map_option (\<lambda>p'. (ok None, d', p'))
                 (if desired = NodeActive then Add parses order node' p else pool_Delete order (n_ID node') p)))"

definition DeleteNode :: "gorm \<Rightarrow> (uint set \<Rightarrow> uint list) \<Rightarrow> uint \<Rightarrow> db \<Rightarrow> pool \<Rightarrow> node_reply" where
  "DeleteNode G order i d p =
     (case GetNodeByID G i d of
        Inl _ \<Rightarrow> Some (DBErr None, d, p)
      | Inr node \<Rightarrow>
          (if n_ID node \<le> 1 then Some (Err CodeNoPermissionErr None, d, p)
           else case pool_Delete order (n_ID node) p of
             None \<Rightarrow> None
           | Some p' \<Rightarrow>
               (case Delete (Nodes G) (\<lambda>r. n_ID r = n_ID node) d of
                  Inl _ \<Rightarrow> Some (DBErr None, d, p')
                | Inr (_, d') \<Rightarrow> Some (ok None, d', p'))))"

definition GetNode :: "gorm \<Rightarrow> uint \<Rightarrow> db \<Rightarrow> admin_reply" where
  "GetNode G i d = (case GetNodeByID G i d of Inl _ \<Rightarrow> DBErr None | Inr n \<Rightarrow> ok (Some (AdNode n)))"

section \<open>Shares, downloads and tasks (share.go, task.go)\<close>

definition delete_ids :: "'r table_api \<Rightarrow> ('r \<Rightarrow> uint) \<Rightarrow> uint list \<Rightarrow> db \<Rightarrow> admin_reply \<times> db" where
  "delete_ids T rid ids d =
     (case Delete T (\<lambda>r. rid r \<in> set ids) d of Inl _ \<Rightarrow> (DBErr None, d) | Inr (_, d') \<Rightarrow> (ok None, d'))"

definition DeleteShares :: "gorm \<Rightarrow> uint list \<Rightarrow> db \<Rightarrow> admin_reply \<times> db" where
  "DeleteShares G ids d = delete_ids (Shares G) s_ID ids d"

definition DeleteDownloads :: "gorm \<Rightarrow> uint list \<Rightarrow> db \<Rightarrow> admin_reply \<times> db" where
  "DeleteDownloads G ids d = delete_ids (Downloads G) dl_ID ids d"

definition DeleteGeneral :: "gorm \<Rightarrow> uint list \<Rightarrow> db \<Rightarrow> admin_reply \<times> db" where
  "DeleteGeneral G ids d = delete_ids (Tasks G) t_ID ids d"

definition CreateImport ::
  "'p task_env \<Rightarrow> uint \<Rightarrow> uint \<Rightarrow> gostring \<Rightarrow> gostring \<Rightarrow> bool \<Rightarrow> db \<Rightarrow> job async_pool \<Rightarrow>
   admin_reply \<times> db \<times> job async_pool" where
  "CreateImport E uid policyID src dst recursive d tp =
     (case NewImportTask E uid policyID src dst recursive d of
        (Inl _, d') \<Rightarrow> (Err CodeNotSet None, d', tp)
      | (Inr job, d') \<Rightarrow> (ok None, d', pool_Submit job tp))"

section \<open>Files (file.go)\<close>

definition GetFile :: "'p svc_env \<Rightarrow> uint \<Rightarrow> user_row option \<Rightarrow> 'p server \<Rightarrow> 'p served_api" where
  "GetFile E i user sv =
     (case GetFilesByIDs (orm (ssys E)) [i] 0 (sv_db sv) of
        Inl _ \<Rightarrow> Some (Err CodeNotFound None, sv)
      | Inr [] \<Rightarrow> None
      | Inr (f # _) \<Rightarrow> PreviewContent E None (Some f) None False user sv)"

text \<open>
  The files by their user, and the goroutine that deletes them: a map again, whose entries are
  in the order in which its range visits them. A user, or a file system, that cannot be had is
  skipped.
\<close>

fun by_user :: "file_row \<Rightarrow> (uint \<times> file_row list) list \<Rightarrow> (uint \<times> file_row list) list" where
  "by_user f [] = [(f_UserID f, [f])]"
| "by_user f ((u, fs) # gs) = (if u = f_UserID f then (u, fs @ [f]) # gs else (u, fs) # by_user f gs)"

fun delete_by_user :: "'p sys \<Rightarrow> bool \<Rightarrow> (uint \<times> file_row list) list \<Rightarrow> 'p server \<Rightarrow> 'p server option" where
  "delete_by_user S force [] sv = Some sv"
| "delete_by_user S force ((uid, fs) # gs) sv =
     (case GetUserByID (orm S) (preload S) uid (sv_db sv) of
        Inl _ \<Rightarrow> delete_by_user S force gs sv
      | Inr user \<Rightarrow>
          (case NewFileSystem S user (sv_db sv) (sv_cache sv) (sv_disk sv) of
             (Some _, w) \<Rightarrow> delete_by_user S force gs (server_of w)
           | (None, w) \<Rightarrow>
               (let (e, w1) = Delete_objects S [] (map f_ID fs) force w in
                if e = Some ErrPanic then None else delete_by_user S force gs (server_of w1))))"

definition DeleteFileBatch ::
  "'p sys \<Rightarrow> ((uint \<times> file_row list) list \<Rightarrow> (uint \<times> file_row list) list) \<Rightarrow> uint list \<Rightarrow> bool \<Rightarrow> 'p server \<Rightarrow>
   (admin_data, 'p) reply" where
  "DeleteFileBatch S visit ids force sv =
     (case GetFilesByIDs (orm S) ids 0 (sv_db sv) of
        Inl _ \<Rightarrow> Some (DBErr None, sv)
      | Inr fs \<Rightarrow>
          (let userFile = foldl (\<lambda>gs f. by_user f gs) [] fs
           in map_option (\<lambda>sv'. (ok None, sv')) (delete_by_user S force (visit userFile) sv)))"

definition ListFolder ::
  "'p sys \<Rightarrow> gostring \<Rightarrow> uint \<Rightarrow> gostring \<Rightarrow> 'p server \<Rightarrow> (admin_data, 'p) reply" where
  "ListFolder S typ i path sv =
     (if typ = ''policy'' then
        (case GetPolicyByID (orm S) (clock S) i (sv_db sv) (sv_cache sv) of
           (Inl _, ch) \<Rightarrow> Some (Err CodeNotFound None, sv\<lparr>sv_cache := ch\<rparr>)
         | (Inr policy, ch) \<Rightarrow>
             (let w = NewAnonymousFileSystem S (sv_db sv) ch (sv_disk sv) in
              case ListPhysical S [] path (w\<lparr>Policy := Some policy\<rparr>) of
                (Inl e, w1) \<Rightarrow> reply_err CodeIOFailed e w1
              | (Inr res, w1) \<Rightarrow> reply (ok (Some (AdObjects res))) w1))
      else
        case GetUserByID (orm S) (preload S) i (sv_db sv) of
          Inl _ \<Rightarrow> Some (Err CodeNotFound None, sv)
        | Inr user \<Rightarrow>
            (case NewFileSystem S user (sv_db sv) (sv_cache sv) (sv_disk sv) of
               (Some e, w) \<Rightarrow> reply_err CodeInternalSetting e w
             | (None, w) \<Rightarrow>
                 (case List_dir S [] path None w of
                    (Inl e, w1) \<Rightarrow> reply_err CodeIOFailed e w1
                  | (Inr res, w1) \<Rightarrow> reply (ok (Some (AdObjects res))) w1)))"

section \<open>The site (site.go)\<close>

record summary =
  su_date :: "gostring list"
  su_files :: "nat list"
  su_users :: "nat list"
  su_shares :: "nat list"
  su_version :: "(gostring \<times> gostring) list"
  su_siteURL :: gostring
  su_fileTotal :: nat
  su_userTotal :: nat
  su_publicShareTotal :: nat
  su_secretShareTotal :: nat

definition sql_count :: "'r table_api \<Rightarrow> 'r sql \<Rightarrow> gostring \<Rightarrow> gostring list \<Rightarrow> db \<Rightarrow> nat" where
  "sql_count T sql cond args d = (case sql cond args of None \<Rightarrow> 0 | Some P \<Rightarrow> count_rows T P d)"

text \<open>
  The summary of the site, kept for a day: \<open>days\<close> are the twelve days with the times at which each
  starts and ends. The column the counts per day name is \<open>create-at\<close>.
\<close>

definition Summary ::
  "gorm \<Rightarrow> user_row sql \<Rightarrow> file_row sql \<Rightarrow> share_row sql \<Rightarrow> unix_time \<Rightarrow> (gostring \<times> gostring) list \<Rightarrow>
   (gostring \<times> gostring \<times> gostring) list \<Rightarrow> db \<Rightarrow> summary memo \<Rightarrow> summary response \<times> summary memo" where
  "Summary G sqlU sqlF sqlS now versions days d ch =
     (case cache_Get now ''admin_summary'' ch of
        Some (CObj res) \<Rightarrow>
          (ok (Some (res\<lparr>su_version := versions, su_siteURL := GetSettingByName G ''siteURL'' d\<rparr>)), ch)
      | _ \<Rightarrow>
          (let cond = ''create-at BETWEEN ? AND ? '';
               resp = \<lparr>su_date = map fst days,
                 su_files = map (\<lambda>(l, start, stop). sql_count (Files G) sqlF cond [start, stop] d) days,
                 su_users = map (\<lambda>(l, start, stop). sql_count (Users G) sqlU cond [start, stop] d) days,
                 su_shares = map (\<lambda>(l, start, stop). sql_count (Shares G) sqlS cond [start, stop] d) days,
                 su_version = versions, su_siteURL = GetSettingByName G ''siteURL'' d,
                 su_fileTotal = count_rows (Files G) (\<lambda>f. True) d,
                 su_userTotal = count_rows (Users G) (\<lambda>u. True) d,
                 su_publicShareTotal = count_rows (Shares G) (\<lambda>s. s_Password s = []) d,
                 su_secretShareTotal = count_rows (Shares G) (\<lambda>s. s_Password s \<noteq> []) d\<rparr>
           in (ok (Some resp), cache_Set now ''admin_summary'' (CObj resp) 86400 ch)))"

text \<open>One update per setting, inside a transaction; on an error, the keys done so far.\<close>

fun change_settings ::
  "gorm \<Rightarrow> (gostring \<times> gostring) list \<Rightarrow> gostring list \<Rightarrow> db \<Rightarrow> gostring list + (gostring list \<times> db)" where
  "change_settings G [] cacheClean tx = Inr (cacheClean, tx)"
| "change_settings G ((key, val) # rest) cacheClean tx =
     (case Updates (Settings G) (\<lambda>r. st_Name r = key) (\<lambda>r. Some (r\<lparr>st_Value := val\<rparr>)) tx of
        Inl _ \<Rightarrow> Inl cacheClean
      | Inr tx' \<Rightarrow> change_settings G rest (cacheClean @ [key]) tx')"

definition ChangeSettings ::
  "gorm \<Rightarrow> (gostring \<times> gostring) list \<Rightarrow> db \<Rightarrow> 'o memo \<Rightarrow> admin_reply \<times> db \<times> 'o memo" where
  "ChangeSettings G options d ch =
     (case change_settings G options [] d of
        Inl cacheClean \<Rightarrow> (DBErr None, d, cache_Deletes cacheClean ''setting_'' ch)
      | Inr (cacheClean, tx) \<Rightarrow>
          (case Commit G tx of
             Some _ \<Rightarrow> (DBErr None, d, ch)
           | None \<Rightarrow> (ok None, tx, cache_Deletes cacheClean ''setting_'' ch)))"

definition GetSettingsAnswer :: "gorm \<Rightarrow> gostring list \<Rightarrow> db \<Rightarrow> admin_reply" where
  "GetSettingsAnswer G keys d = ok (Some (AdSettings (GetSettingByNames G keys d)))"

definition MailTest :: "(gostring \<Rightarrow> gostring \<Rightarrow> gostring \<Rightarrow> bool) \<Rightarrow> gostring \<Rightarrow> admin_reply" where
  "MailTest send email =
     (if send email ''send test'' ''this is a test email'' then ok None else Err CodeInternalSetting None)"

end
