(* ===== verification/ServiceUser.thy ===== *)
theory ServiceUser
  imports ServiceCore ModelsNode
begin

text \<open>
  \<open>service/user\<close> with \<open>serializer/user.go\<close> and \<open>serializer/setting.go\<close>: logging in and out of
  accounts, resetting passwords, registering, and the settings of a user. Mails, one-time
  codes and the JSON encoding of options are parameters.
\<close>

section \<open>Answers (serializer/user.go, serializer/setting.go)\<close>

record group_view =
  gv_ID :: uint
  gv_Name :: gostring
  gv_AllowShare :: bool
  gv_AllowRemoteDownload :: bool
  gv_AllowArchiveDownload :: bool
  gv_ShareDownload :: bool
  gv_CompressEnabled :: bool
  gv_WebDAVEnabled :: bool
  gv_SourceBatchSize :: int

record tag_view =
  tv_ID :: gostring
  tv_Name :: gostring
  tv_Icon :: gostring
  tv_Color :: gostring
  tv_Type :: int
  tv_Expression :: gostring

record user_view =
  uv_ID :: gostring
  uv_Email :: gostring
  uv_Nickname :: gostring
  uv_Status :: int
  uv_Avatar :: gostring
  uv_PreferredTheme :: gostring
  uv_Anonymous :: bool
  uv_Group :: group_view
  uv_Tags :: "tag_view list"

definition buildTagRes :: "hashids \<Rightarrow> tag_row list \<Rightarrow> tag_view list" where
  "buildTagRes H ts =
     map (\<lambda>t. \<lparr>tv_ID = HashID H (tag_ID t) TagID, tv_Name = tag_Name t, tv_Icon = tag_Icon t, tv_Color = tag_Color t,
            tv_Type = tag_Type t, tv_Expression = (if tag_Type t \<noteq> 0 then tag_Expression t else [])\<rparr>) ts"

definition BuildUser :: "gorm \<Rightarrow> hashids \<Rightarrow> user_row \<Rightarrow> db \<Rightarrow> user_view" where
  "BuildUser G H user d =
     (let g = u_Group user in
      \<lparr>uv_ID = HashID H (u_ID user) UserID, uv_Email = u_Email user, uv_Nickname = u_Nick user,
       uv_Status = u_Status user, uv_Avatar = u_Avatar user, uv_PreferredTheme = u_PreferredTheme user,
       uv_Anonymous = IsAnonymous user,
       uv_Group = \<lparr>gv_ID = u_GroupID user, gv_Name = g_Name g, gv_AllowShare = g_ShareEnabled g,
         gv_AllowRemoteDownload = g_Aria2 g, gv_AllowArchiveDownload = g_ArchiveDownload g,
         gv_ShareDownload = g_ShareDownload g, gv_CompressEnabled = g_ArchiveTask g,
         gv_WebDAVEnabled = g_WebDAVEnabled g, gv_SourceBatchSize = g_SourceBatchSize g\<rparr>,
       uv_Tags = buildTagRes H (case GetTagsByUID G (u_ID user) d of Inl _ \<Rightarrow> [] | Inr ts \<Rightarrow> ts)\<rparr>)"

record storage_view =
  sg_Used :: u64
  sg_Free :: u64
  sg_Total :: u64

text \<open>The difference is taken first and wraps; it is replaced when more is used than there is.\<close>

definition BuildUserStorage :: "user_row \<Rightarrow> storage_view" where
  "BuildUserStorage user =
     (let maxStorage = g_MaxStorage (u_Group user);
          resp = \<lparr>sg_Used = u_Storage user, sg_Free = maxStorage - u_Storage user, sg_Total = maxStorage\<rparr>
      in if maxStorage < u_Storage user then resp\<lparr>sg_Free := 0\<rparr> else resp)"

record task_view =
  kv_Status :: int
  kv_Type :: int
  kv_Progress :: int
  kv_Error :: gostring

definition BuildTaskList :: "task_row list \<Rightarrow> nat \<Rightarrow> nat \<times> task_view list" where
  "BuildTaskList ts n =
     (n, map (\<lambda>t. \<lparr>kv_Status = t_Status t, kv_Type = t_Type t, kv_Progress = t_Progress t, kv_Error = t_Error t\<rparr>) ts)"

section \<open>Sessions and mails\<close>

text \<open>The keys of a session the services of a user set: \<open>user_id\<close>, \<open>2fa_user_id\<close> and \<open>2fa_init\<close>.\<close>

record login_session =
  ls_user_id :: "uint option"
  ls_2fa_user_id :: "uint option"
  ls_2fa_init :: "gostring option"

text \<open>A mail with a link: whom it goes to, and the parameters \<open>id\<close> and \<open>sign\<close> of the link.\<close>

record mail =
  mail_To :: gostring
  mail_ID :: gostring
  mail_Sign :: gostring

definition CodeUserBaned :: int where "CodeUserBaned = 40017"
definition CodeUserNotActivated :: int where "CodeUserNotActivated = 40018"
definition CodeUserNotFound :: int where "CodeUserNotFound = 40021"
definition Code2FACodeErr :: int where "Code2FACodeErr = 40022"
definition CodeLoginSessionNotExist :: int where "CodeLoginSessionNotExist = 40023"
definition CodeFailedSendEmail :: int where "CodeFailedSendEmail = 40028"
definition CodeInvalidTempLink :: int where "CodeInvalidTempLink = 40029"
definition CodeEmailSent :: int where "CodeEmailSent = 40033"
definition CodeUserCannotActivate :: int where "CodeUserCannotActivate = 40034"
definition CodeEncryptError :: int where "CodeEncryptError = 50002"

definition User_Update :: "gorm \<Rightarrow> user_row \<Rightarrow> (user_row \<Rightarrow> user_row) \<Rightarrow> db \<Rightarrow> (model_error + unit) \<times> db" where
  "User_Update G user f d =
     write1 (by_key (u_ID user) (Updates (Users G) (\<lambda>r. u_ID r = u_ID user) (\<lambda>r. Some (f r)) d)) d"

definition updated :: "(model_error + unit) \<times> db \<Rightarrow> 'd response \<times> db" where
  "updated res = (case res of (Inl _, d) \<Rightarrow> (DBErr None, d) | (Inr _, d) \<Rightarrow> (ok None, d))"

section \<open>Logging in (login.go)\<close>

text \<open>\<open>secret\<close>, the secret of the link, is bound and not looked at.\<close>

definition ResetPassword ::
  "gorm \<Rightarrow> (user_row \<Rightarrow> user_row) \<Rightarrow> hashes \<Rightarrow> hashids \<Rightarrow> nat list \<Rightarrow> gostring \<Rightarrow> gostring \<Rightarrow> gostring \<Rightarrow> db \<Rightarrow>
   'd response \<times> db" where
  "ResetPassword G load HS H draws password i linkSecret d =
     (case DecodeHashID H i UserID of
        Inl _ \<Rightarrow> (Err CodeInvalidTempLink None, d)
      | Inr uid \<Rightarrow>
          (case GetActivateUserByID G load uid d of
             Inl _ \<Rightarrow> (Err CodeUserNotFound None, d)
           | Inr user \<Rightarrow>
               (let user' = SetPassword HS draws user password
                in updated (User_Update G user' (\<lambda>r. r\<lparr>u_Password := u_Password user'\<rparr>) d))))"

definition Login ::
  "gorm \<Rightarrow> (user_row \<Rightarrow> user_row) \<Rightarrow> hashes \<Rightarrow> hashids \<Rightarrow> gostring \<Rightarrow> gostring \<Rightarrow> login_session \<Rightarrow> db \<Rightarrow>
   user_view response \<times> login_session" where
  "Login G load HS H userName password ses d =
     (case GetUserByEmail G load userName d of
        Inl _ \<Rightarrow> (Err CodeCredentialInvalid None, ses)
      | Inr expectedUser \<Rightarrow>
          (if CheckPassword HS expectedUser password \<noteq> Inr True then (Err CodeCredentialInvalid None, ses)
           else if u_Status expectedUser = Baned \<or> u_Status expectedUser = OveruseBaned then
             (Err CodeUserBaned None, ses)
           else if u_Status expectedUser = NotActivate then (Err CodeUserNotActivated None, ses)
           else if u_TwoFactor expectedUser \<noteq> [] then
             (\<lparr>r_Code = 203, r_Data = None\<rparr>, ses\<lparr>ls_2fa_user_id := Some (u_ID expectedUser)\<rparr>)
           else (ok (Some (BuildUser G H expectedUser d)), ses\<lparr>ls_user_id := Some (u_ID expectedUser)\<rparr>)))"

text \<open>The second step; \<open>validate\<close> is \<open>totp.Validate\<close> on a code and a secret.\<close>

definition Login_2FA ::
  "gorm \<Rightarrow> (user_row \<Rightarrow> user_row) \<Rightarrow> (gostring \<Rightarrow> gostring \<Rightarrow> bool) \<Rightarrow> hashids \<Rightarrow> gostring \<Rightarrow> login_session \<Rightarrow> db \<Rightarrow>
   user_view response \<times> login_session" where
  "Login_2FA G load validate H code ses d =
     (case ls_2fa_user_id ses of
        None \<Rightarrow> (Err CodeLoginSessionNotExist None, ses)
      | Some uid \<Rightarrow>
          (case GetActivateUserByID G load uid d of
             Inl _ \<Rightarrow> (Err CodeUserNotFound None, ses)
           | Inr expectedUser \<Rightarrow>
               (if \<not> validate code (u_TwoFactor expectedUser) then (Err Code2FACodeErr None, ses)
                else (ok (Some (BuildUser G H expectedUser d)),
                  ses\<lparr>ls_2fa_user_id := None, ls_user_id := Some (u_ID expectedUser)\<rparr>))))"

text \<open>
  The mail for a reset, \<open>send\<close> whether it goes out. As the code has it, a mail is sent when the
  user was not found; the user is then zero.
\<close>

definition ResetEmail ::
  "gorm \<Rightarrow> (user_row \<Rightarrow> user_row) \<Rightarrow> hashids \<Rightarrow> nat list \<Rightarrow> (mail \<Rightarrow> bool) \<Rightarrow> gostring \<Rightarrow> db \<Rightarrow>
   'd response \<times> mail option" where
  "ResetEmail G load H draws send userName d =
     (case GetUserByEmail G load userName d of
        Inr _ \<Rightarrow> (ok None, None)
      | Inl _ \<Rightarrow>
          (let user = zero_user in
           if u_Status user = Baned \<or> u_Status user = OveruseBaned then (Err CodeUserBaned None, None)
           else if u_Status user = NotActivate then (Err CodeUserNotActivated None, None)
           else
             (let m = \<lparr>mail_To = u_Email user, mail_ID = HashID H (u_ID user) UserID,
                    mail_Sign = RandStringRunes draws\<rparr>
              in if send m then (ok None, Some m) else (Err CodeFailedSendEmail None, None))))"

section \<open>Registering (register.go)\<close>

text \<open>
  \<open>sign\<close> is \<open>auth.SignURI\<close> with the general key on a path below the site's URL, to the
  signature. The error of an e-mail in use
  is made and not returned.
\<close>

definition Register ::
  "gorm \<Rightarrow> (user_row \<Rightarrow> user_row) \<Rightarrow> hashes \<Rightarrow> hashids \<Rightarrow> nat list \<Rightarrow> (gostring \<Rightarrow> int \<Rightarrow> gostring option) \<Rightarrow>
   (mail \<Rightarrow> bool) \<Rightarrow> gostring \<Rightarrow> gostring \<Rightarrow> db \<Rightarrow> 'd response \<times> mail option \<times> db" where
  "Register G load HS H draws sign send userName password d =
     (let isEmailRequired = (case GetSettingByNames G [''email_active''] d ''email_active'' of
              None \<Rightarrow> False | Some v \<Rightarrow> IsTrueVal v);
          defaultGroup = GetIntSetting G ''default_group'' 2 d;
          user0 = SetPassword HS draws
            (NewUser\<lparr>u_Email := userName, u_Nick := hd (splitOn (CHR ''@'') userName)\<rparr>) password;
          user1 = user0\<lparr>u_Status := (if isEmailRequired then NotActivate else Active),
            u_GroupID := nat (defaultGroup mod 2 ^ 64)\<rparr>;
          (user, userNotActivated, d') =
            (case Create (Users G) user1 d of
               Inr (u, d') \<Rightarrow> (u, False, d')
             | Inl _ \<Rightarrow>
                 (let expectedUser = (case GetUserByEmail G load userName d of Inl _ \<Rightarrow> zero_user | Inr u \<Rightarrow> u) in
                  if u_Status expectedUser = NotActivate then (expectedUser, True, d) else (user1, False, d)))
      in if isEmailRequired then
           (let userID = HashID H (u_ID user) UserID in
            case sign (''/api/v3/user/activate/'' @ userID) 86400 of
              None \<Rightarrow> (Err CodeEncryptError None, None, d')
            | Some credential \<Rightarrow>
                (let m = \<lparr>mail_To = u_Email user, mail_ID = userID, mail_Sign = credential\<rparr> in
                 if \<not> send m then (Err CodeFailedSendEmail None, None, d')
                 else if userNotActivated then (Err CodeEmailSent None, Some m, d')
                 else (\<lparr>r_Code = 203, r_Data = None\<rparr>, Some m, d')))
         else (ok None, None, d'))"

text \<open>What a request's context holds under a key; a type assertion to another type panics.\<close>

datatype ctx_value = CtxNil | CtxInt int | CtxUint uint

definition Activate ::
  "gorm \<Rightarrow> (user_row \<Rightarrow> user_row) \<Rightarrow> ctx_value \<Rightarrow> db \<Rightarrow> (gostring response \<times> db) option" where
  "Activate G load objectID d =
     (case objectID of
        CtxInt uid \<Rightarrow>
          (case map_ok load (First (Users G) (\<lambda>u. int (u_ID u) = uid) d) of
             Inl _ \<Rightarrow> Some (Err CodeUserNotFound None, d)
           | Inr user \<Rightarrow>
               (if u_Status user \<noteq> NotActivate then Some (Err CodeUserCannotActivate None, d)
                else Some (ok (Some (u_Email user)), SetStatus G user Active d)))
      | _ \<Rightarrow> None)"

section \<open>Settings of a user (setting.go)\<close>

text \<open>Two-step verification is switched on with a code for the secret of the session, and off with one for the user's.\<close>

definition Update_2FA ::
  "gorm \<Rightarrow> (gostring \<Rightarrow> gostring \<Rightarrow> bool) \<Rightarrow> gostring \<Rightarrow> login_session \<Rightarrow> user_row \<Rightarrow> db \<Rightarrow> 'd response \<times> db" where
  "Update_2FA G validate code ses user d =
     (if u_TwoFactor user = [] then
        (case ls_2fa_init ses of
           None \<Rightarrow> (Err CodeParamErr None, d)
         | Some initSecret \<Rightarrow>
             (if \<not> validate code initSecret then (ParamErr None, d)
              else updated (User_Update G user (\<lambda>r. r\<lparr>u_TwoFactor := initSecret\<rparr>) d)))
      else if \<not> validate code (u_TwoFactor user) then (ParamErr None, d)
      else updated (User_Update G user (\<lambda>r. r\<lparr>u_TwoFactor := []\<rparr>) d))"

text \<open>\<open>generated\<close> is the key \<open>totp.Generate\<close> makes, or none when it fails.\<close>

definition Init2FA :: "gostring option \<Rightarrow> login_session \<Rightarrow> gostring response \<times> login_session" where
  "Init2FA generated ses =
     (case generated of
        None \<Rightarrow> (Err CodeInternalSetting None, ses)
      | Some key \<Rightarrow> (ok (Some key), ses\<lparr>ls_2fa_init := Some key\<rparr>))"

definition ChangeNick :: "gorm \<Rightarrow> gostring \<Rightarrow> user_row \<Rightarrow> db \<Rightarrow> 'd response \<times> db" where
  "ChangeNick G nick user d = updated (User_Update G user (\<lambda>r. r\<lparr>u_Nick := nick\<rparr>) d)"

text \<open>The options are stored as \<open>json.Marshal\<close> prints them.\<close>

definition UpdateOptions ::
  "gorm \<Rightarrow> (bool \<Rightarrow> gostring \<Rightarrow> gostring option) \<Rightarrow> user_row \<Rightarrow> db \<Rightarrow> (model_error + unit) \<times> db" where
  "UpdateOptions G marshal user d =
     (case marshal (u_ProfileOff user) (u_PreferredTheme user) of
        None \<Rightarrow> (Inl (DbErr (ErrDriver 0)), d)
      | Some opts \<Rightarrow> User_Update G user (\<lambda>r. r\<lparr>u_Options := opts\<rparr>) d)"

definition ChangeHomePage ::
  "gorm \<Rightarrow> (bool \<Rightarrow> gostring \<Rightarrow> gostring option) \<Rightarrow> bool \<Rightarrow> user_row \<Rightarrow> db \<Rightarrow> 'd response \<times> db" where
  "ChangeHomePage G marshal enabled user d =
     updated (UpdateOptions G marshal (user\<lparr>u_ProfileOff := \<not> enabled\<rparr>) d)"

definition ChangeTheme ::
  "gorm \<Rightarrow> (bool \<Rightarrow> gostring \<Rightarrow> gostring option) \<Rightarrow> gostring \<Rightarrow> user_row \<Rightarrow> db \<Rightarrow> 'd response \<times> db" where
  "ChangeTheme G marshal theme user d =
     updated (UpdateOptions G marshal (user\<lparr>u_PreferredTheme := theme\<rparr>) d)"

definition ChangePassword ::
  "gorm \<Rightarrow> hashes \<Rightarrow> nat list \<Rightarrow> gostring \<Rightarrow> gostring \<Rightarrow> user_row \<Rightarrow> db \<Rightarrow> 'd response \<times> db" where
  "ChangePassword G HS draws old new user d =
     (if CheckPassword HS user old \<noteq> Inr True then (Err CodeParamErr None, d)
      else (let user' = SetPassword HS draws user new
            in updated (User_Update G user' (\<lambda>r. r\<lparr>u_Password := u_Password user'\<rparr>) d)))"

text \<open>
  The picture of a user: a page of Gravatar (a server and a path on it), or a file.
  \<open>parses\<close> is whether \<open>url.Parse\<close> accepts the server, \<open>opens\<close> whether a file opens, and
  \<open>absolute\<close> is \<open>filepath.Abs\<close>.
\<close>

datatype avatar = AvatarError int | AvatarMissing | AvatarRedirect gostring gostring | AvatarFile gostring

definition avatar_index :: "gostring \<Rightarrow> gostring" where
  "avatar_index sz = (if sz = ''s'' then ''0'' else if sz = ''m'' then ''1'' else if sz = ''l'' then ''2'' else [])"

definition avatar_size :: "gorm \<Rightarrow> gostring \<Rightarrow> db \<Rightarrow> gostring" where
  "avatar_size G sz d =
     (if sz = ''s'' then GetSettingByName G ''avatar_size_s'' d
      else if sz = ''m'' then GetSettingByName G ''avatar_size_m'' d
      else if sz = ''l'' then GetSettingByName G ''avatar_size_l'' d else [])"

definition GetAvatar ::
  "gorm \<Rightarrow> (user_row \<Rightarrow> user_row) \<Rightarrow> hashes \<Rightarrow> (gostring \<Rightarrow> bool) \<Rightarrow> (gostring \<Rightarrow> bool) \<Rightarrow> (gostring \<Rightarrow> gostring) \<Rightarrow>
   gostring \<Rightarrow> uint \<Rightarrow> db \<Rightarrow> avatar" where
  "GetAvatar G load HS parses opens absolute sz uid d =
     (case GetActivateUserByID G load uid d of
        Inl _ \<Rightarrow> AvatarError CodeNotFound
      | Inr user \<Rightarrow>
          (if u_Avatar user = [] then AvatarMissing
           else if u_Avatar user = ''gravatar'' then
             (let server = GetSettingByName G ''gravatar_server'' d in
              if \<not> parses server then AvatarError CodeInternalSetting
              else AvatarRedirect server
                (''/avatar/'' @ hexEncode (md5 HS (toLower (u_Email user))) @ ''?d=mm&s='' @ avatar_size G sz d))
           else if u_Avatar user = ''file'' then
             (let path = pathJoin (absolute (GetSettingByName G ''avatar_path'' d))
                    (''avatar_'' @ formatNat (u_ID user) @ ''_'' @ avatar_index sz @ ''.png'')
              in if opens path then AvatarFile path else AvatarMissing)
           else AvatarMissing))"

definition ListUserTasks :: "gorm \<Rightarrow> int \<Rightarrow> user_row \<Rightarrow> db \<Rightarrow> nat \<times> task_view list" where
  "ListUserTasks G page user d =
     (let (ts, n) = ListTasks G (u_ID user) page 10 ''updated_at desc'' d in BuildTaskList ts n)"

record settings_view =
  sv_Uid :: uint
  sv_Homepage :: bool
  sv_TwoFactor :: bool
  sv_PreferTheme :: gostring
  sv_Themes :: gostring

definition UserSettings :: "gorm \<Rightarrow> user_row \<Rightarrow> db \<Rightarrow> settings_view" where
  "UserSettings G user d =
     \<lparr>sv_Uid = u_ID user, sv_Homepage = (\<not> u_ProfileOff user), sv_TwoFactor = (u_TwoFactor user \<noteq> []),
      sv_PreferTheme = u_PreferredTheme user, sv_Themes = GetSettingByName G ''themes'' d\<rparr>"

section \<open>Properties\<close>

text \<open>
  C7. A session is logged in as a user only by the user's own e-mail and password: after a
  login that changes whom the session belongs to, there is an account with that e-mail which
  is active, has no second factor, and whose password is the one given.
\<close>
theorem Login_sound:
  assumes "gorm_db G" and "Login G load HS H userName password ses d = (resp, ses')"
    and "ls_user_id ses' \<noteq> ls_user_id ses"
  shows "\<exists>row\<in>set (users d). u_Email row = userName \<and> ls_user_id ses' = Some (u_ID (load row)) \<and>
    CheckPassword HS (load row) password = Inr True \<and> u_TwoFactor (load row) = [] \<and>
    u_Status (load row) \<notin> {NotActivate, Baned, OveruseBaned}"
  using assms(2,3) gorm_table.first_row [OF gorm_db.users [OF assms(1)], of "\<lambda>u. u_Email u = userName" d]
  by (fastforce simp: Login_def GetUserByEmail_def map_ok_def split: sum.splits if_splits)

definition ann :: user_row where
  "ann = SetPassword \<lparr>md5 = (\<lambda>s. s), sha1 = rev\<rparr> (replicate 16 0) (zero_user\<lparr>u_ID := 4, u_Email := ''a@b''\<rparr>) ''pw''"

lemma ann_password: "CheckPassword \<lparr>md5 = (\<lambda>s. s), sha1 = rev\<rparr> ann ''pw'' = Inr True"
  by code_simp

lemma ann_fields: "u_ID ann = 4" "u_Email ann = ''a@b''" "u_Status ann = Active" "u_TwoFactor ann = []"
  by (simp_all add: ann_def SetPassword_def zero_user_def Active_def Let_def)

definition no_session :: login_session where
  "no_session = \<lparr>ls_user_id = None, ls_2fa_user_id = None, ls_2fa_init = None\<rparr>"

theorem Login_sound_witness:
  "ls_user_id (snd (Login sound_gorm (\<lambda>u. u) \<lparr>md5 = (\<lambda>s. s), sha1 = rev\<rparr> dot_hashids ''a@b'' ''pw'' no_session
     (empty_db\<lparr>users := [ann]\<rparr>))) = Some 4 \<and> u_Status ann \<noteq> Baned"
proof -
  let ?L = "Login sound_gorm (\<lambda>u. u) \<lparr>md5 = (\<lambda>s. s), sha1 = rev\<rparr> dot_hashids ''a@b'' ''pw'' no_session
     (empty_db\<lparr>users := [ann]\<rparr>)"
  have s: "ls_user_id (snd ?L) = Some 4"
    by (simp add: Login_def GetUserByEmail_def sound_simps empty_db_def ann_fields ann_password
        Active_def NotActivate_def Baned_def OveruseBaned_def)
  then have "ls_user_id (snd ?L) \<noteq> ls_user_id no_session" by (simp add: no_session_def)
  from Login_sound [OF sound_gorm_laws surjective_pairing this] s show ?thesis
    by (simp add: empty_db_def)
qed

text \<open>
  The secret of a reset link protects nothing: whatever secret comes with the request, a
  reset for the public id of an account that succeeds leaves an active account with that id
  whose password is the one of the request.
\<close>
theorem Reset_needs_no_secret:
  assumes "gorm_db G" and "draws_ok 16 draws" and "DecodeHashID H i UserID = Inr uid"
    and "\<forall>u. u_ID (load u) = u_ID u"
    and "ResetPassword G load HS H draws password i linkSecret d = (resp, d')" and "r_Code resp = 0"
  shows "\<exists>row\<in>set (users d'). u_ID row = uid \<and> u_Status row = Active \<and>
    CheckPassword HS row password = Inr True"
proof -
  let ?P = "\<lambda>u. u_Status u = Active \<and> u_ID u = uid"
  note table = gorm_db.users [OF assms(1)]
  obtain user where f: "GetActivateUserByID G load uid d = Inr user"
    using assms(3,5,6) by (auto simp: ResetPassword_def Err_def CodeUserNotFound_def split: sum.splits)
  let ?u = "SetPassword HS draws user password"
  have key: "u_ID ?u = u_ID user" by (simp add: SetPassword_def Let_def)
  have "\<not> isl (fst (User_Update G ?u (\<lambda>r. r\<lparr>u_Password := u_Password ?u\<rparr>) d))"
    and d': "d' = snd (User_Update G ?u (\<lambda>r. r\<lparr>u_Password := u_Password ?u\<rparr>) d)"
    using assms(3,5,6) f
    by (auto simp: ResetPassword_def updated_def DBErr_def Err_def CodeDBError_def Let_def
        split: sum.splits prod.splits)
  then have nonzero: "u_ID user \<noteq> 0"
    and upd: "Updates (Users G) (\<lambda>r. u_ID r = u_ID user) (\<lambda>r. Some (r\<lparr>u_Password := u_Password ?u\<rparr>)) d = Inr d'"
    by (auto simp: User_Update_def write1_def by_key_def key split: sum.splits if_splits)
  obtain row where row: "row \<in> set (users d)" "?P row" "user = load row"
    using f nonzero gorm_table.find_set [OF table, of ?P d]
    by (fastforce simp: GetActivateUserByID_def find_struct_def map_ok_def zero_user_def
        split: sum.splits list.splits)
  let ?row = "row\<lparr>u_Password := u_Password ?u\<rparr>"
  have "?row \<in> set (users d')"
    using gorm_table.update_rows [OF table upd] row assms(4) by force
  moreover have "CheckPassword HS ?row password = Inr True"
    using stored_password [OF assms(2), of HS user password] by (simp add: CheckPassword_def)
  ultimately show ?thesis using row(2) by (intro bexI [of _ ?row]) simp_all
qed

theorem Reset_needs_no_secret_witness:
  "\<exists>row\<in>set (users (snd (ResetPassword sound_gorm (\<lambda>u. u) \<lparr>md5 = (\<lambda>s. s), sha1 = rev\<rparr> dot_hashids (replicate 16 0)
       ''mine'' (HashID dot_hashids 4 UserID) ''guess'' (empty_db\<lparr>users := [ann]\<rparr>) :: unit response \<times> db))).
     u_ID row = 4 \<and> u_Status row = Active \<and> CheckPassword \<lparr>md5 = (\<lambda>s. s), sha1 = rev\<rparr> row ''mine'' = Inr True"
proof (rule Reset_needs_no_secret [OF sound_gorm_laws _ _ _ surjective_pairing])
  show "draws_ok 16 (replicate 16 0)" by (simp add: draws_ok_def letterRunes_def list_all_iff)
  show dec: "DecodeHashID dot_hashids (HashID dot_hashids 4 UserID) UserID = Inr 4" by code_simp
  show "r_Code (fst (ResetPassword sound_gorm (\<lambda>u. u) \<lparr>md5 = (\<lambda>s. s), sha1 = rev\<rparr> dot_hashids (replicate 16 0)
       ''mine'' (HashID dot_hashids 4 UserID) ''guess'' (empty_db\<lparr>users := [ann]\<rparr>) :: unit response \<times> db)) = 0"
    by (simp add: ResetPassword_def dec GetActivateUserByID_def find_struct_def User_Update_def updated_def
        write1_def by_key_def sound_simps empty_db_def ann_fields Let_def SetPassword_def)
qed simp

end
