(* ===== verification/ServiceBrowse.thy ===== *)
theory ServiceBrowse
  imports ServiceExplorer ServiceUser TaskPool MessageQueue FsDelete FsObjects
begin

text \<open>
  More of the services of a user and of a slave node: listing and creating folders
  (\<open>explorer/directory.go\<close>), searching (\<open>explorer/search.go\<close>), packed downloads and the tasks that
  pack and unpack (\<open>explorer/file.go\<close>, \<open>explorer/objects.go\<close>), previews in an office service,
  upload sessions on a slave (\<open>explorer/slave.go\<close>), the end of an upload on a slave
  (\<open>callback/upload.go\<close>), notifications (\<open>node/fabric.go\<close>), WebDAV accounts
  (\<open>setting/webdav.go\<close>), and what the site tells its visitors (\<open>serializer/setting.go\<close>,
  \<open>controllers/site.go\<close>, \<open>middleware/captcha.go\<close>).
\<close>

definition CodeConflict :: int where "CodeConflict = 409"
definition CodeParentNotExist :: int where "CodeParentNotExist = 40016"
definition CodeCaptchaError :: int where "CodeCaptchaError = 40026"

section \<open>Folders (directory.go)\<close>

record policy_summary =
  ps_ID :: gostring
  ps_Name :: gostring
  ps_Type :: gostring
  ps_MaxSize :: u64
  ps_FileType :: "gostring list"

record object_list =
  ol_Parent :: gostring
  ol_Objects :: "fs_object list"
  ol_Policy :: "policy_summary option"

definition BuildObjectList :: "hashids \<Rightarrow> uint \<Rightarrow> fs_object list \<Rightarrow> policy option \<Rightarrow> object_list" where
  "BuildObjectList H parent objects policy =
     \<lparr>ol_Parent = (if parent > 0 then HashID H parent FolderID else []),
      ol_Objects = objects,
      ol_Policy = map_option (\<lambda>p. \<lparr>ps_ID = HashID H (p_ID p) PolicyID, ps_Name = p_Name p, ps_Type = p_Type p,
        ps_MaxSize = p_MaxSize p, ps_FileType = p_FileType p\<rparr>) policy\<rparr>"

definition ListDirectory ::
  "'p svc_env \<Rightarrow> gostring \<Rightarrow> user_row option \<Rightarrow> 'p server \<Rightarrow> (object_list, 'p) reply" where
  "ListDirectory E path user sv =
     with_fs (ssys E) user sv (\<lambda>w.
       case List_dir (ssys E) [] path None w of
         (Inl e, w1) \<Rightarrow> reply_err CodeNotSet e w1
       | (Inr objects, w1) \<Rightarrow>
           (let parentID = (case DirTarget w1 of [] \<Rightarrow> 0 | d # _ \<Rightarrow> d_ID d)
            in reply (ok (Some (BuildObjectList (hids (ssys E)) parentID objects (Policy w1)))) w1))"

definition service_CreateDirectory ::
  "'p svc_env \<Rightarrow> gostring \<Rightarrow> user_row option \<Rightarrow> 'p server \<Rightarrow> (unit, 'p) reply" where
  "service_CreateDirectory E path user sv =
     with_fs (ssys E) user sv (\<lambda>w.
       case CreateDirectory (orm (ssys E)) path w of
         (Inl e, w1) \<Rightarrow> reply_err CodeCreateFolderFailed e w1
       | (Inr _, w1) \<Rightarrow> reply (ok None) w1)"

section \<open>Searching (search.go)\<close>

text \<open>
  An argument of \<open>name like ?\<close>: a pattern, or a slice, which gorm writes as a row of values.
  \<open>like\<close> is the operator of the database. A row of one value is that value, an empty one is NULL,
  which nothing is like; a longer one is refused by the database, and so is a condition without
  any pattern.
\<close>

datatype keyword = Pattern gostring | Row "gostring list"

definition name_like :: "(gostring \<Rightarrow> gostring \<Rightarrow> bool) \<Rightarrow> keyword \<Rightarrow> (gostring \<Rightarrow> bool) option" where
  "name_like like k =
     (case k of
        Pattern p \<Rightarrow> Some (\<lambda>name. like name p)
      | Row [] \<Rightarrow> Some (\<lambda>name. False)
      | Row [p] \<Rightarrow> Some (\<lambda>name. like name p)
      | Row _ \<Rightarrow> None)"

fun any_like :: "(gostring \<Rightarrow> gostring \<Rightarrow> bool) \<Rightarrow> keyword list \<Rightarrow> (gostring \<Rightarrow> bool) option" where
  "any_like like [] = None"
| "any_like like [k] = name_like like k"
| "any_like like (k # ks) =
     (case (name_like like k, any_like like ks) of
        (Some P, Some Q) \<Rightarrow> Some (\<lambda>name. P name \<or> Q name)
      | _ \<Rightarrow> None)"

definition GetFilesByKeywords ::
  "gorm \<Rightarrow> (gostring \<Rightarrow> gostring \<Rightarrow> bool) \<Rightarrow> uint \<Rightarrow> uint list \<Rightarrow> keyword list \<Rightarrow> db \<Rightarrow> db_error + file_row list" where
  "GetFilesByKeywords G like uid parents keywords d =
     (case any_like like keywords of
        None \<Rightarrow> Inl (ErrDriver 0)
      | Some conditions \<Rightarrow>
          Find (Files G)
            (\<lambda>f. (uid \<noteq> 0 \<longrightarrow> f_UserID f = uid) \<and> (length parents > 0 \<longrightarrow> f_FolderID f \<in> set parents) \<and>
                 conditions (f_Name f)) d)"

text \<open>The error of the search for files is dropped.\<close>

definition fs_Search ::
  "'p sys \<Rightarrow> (gostring \<Rightarrow> gostring \<Rightarrow> bool) \<Rightarrow> keyword list \<Rightarrow> 'p world \<Rightarrow> (fs_error + fs_object list) \<times> 'p world" where
  "fs_Search S like keywords w =
     (case (case FsRoot w of
              None \<Rightarrow> Inr []
            | Some root \<Rightarrow>
                (case GetRecursiveChildFolder (orm S) [d_ID root] (u_ID (User w)) True (wdb w) of
                   (_, Some e) \<Rightarrow> Inl (ModelError (DbErr e))
                 | (allFolders, None) \<Rightarrow> Inr (map d_ID allFolders))) of
        Inl e \<Rightarrow> (Inl e, w)
      | Inr parents \<Rightarrow>
          (let fs = (case GetFilesByKeywords (orm S) like (u_ID (User w)) parents keywords (wdb w) of
                       Inl _ \<Rightarrow> [] | Inr rows \<Rightarrow> rows);
               (os, w') = listObjects S [] ''/'' fs [] None (SetTargetFile fs w)
           in (Inr os, w')))"

text \<open>The patterns arrive as one argument, the slice of them.\<close>

definition SearchKeywords ::
  "'p svc_env \<Rightarrow> (gostring \<Rightarrow> gostring \<Rightarrow> bool) \<Rightarrow> gostring list \<Rightarrow> 'p world \<Rightarrow> (fs_object list, 'p) reply" where
  "SearchKeywords E like keywords w =
     (case fs_Search (ssys E) like [Row keywords] w of
        (Inl e, w1) \<Rightarrow> reply_err CodeNotSet e w1
      | (Inr objects, w1) \<Rightarrow> reply (ok (Some objects)) w1)"

definition FileTagType :: int where "FileTagType = 0"

definition Search ::
  "'p svc_env \<Rightarrow> (gostring \<Rightarrow> gostring \<Rightarrow> bool) \<Rightarrow> gostring \<Rightarrow> gostring \<Rightarrow> gostring \<Rightarrow> user_row option \<Rightarrow> 'p server \<Rightarrow>
   (fs_object list, 'p) reply" where
  "Search E like typ keywords path user sv =
     with_fs (ssys E) user sv (\<lambda>w0.
       case (if path \<noteq> [] then
               (case IsPathExist (orm (ssys E)) w0 path of
                  (False, _) \<Rightarrow> None
                | (True, parent) \<Rightarrow> Some (w0\<lparr>FsRoot := parent\<rparr>))
             else Some w0) of
         None \<Rightarrow> reply (Err CodeParentNotExist None) w0
       | Some w \<Rightarrow>
           (if typ = ''keywords'' then SearchKeywords E like [''%'' @ keywords @ ''%''] w
            else if typ = ''image'' then
              SearchKeywords E like [''%.bmp'', ''%.iff'', ''%.png'', ''%.gif'', ''%.jpg'', ''%.jpeg'', ''%.psd'', ''%.svg'', ''%.webp''] w
            else if typ = ''video'' then
              SearchKeywords E like [''%.mp4'', ''%.flv'', ''%.avi'', ''%.wmv'', ''%.mkv'', ''%.rm'', ''%.rmvb'', ''%.mov'', ''%.ogv''] w
            else if typ = ''audio'' then
              SearchKeywords E like [''%.mp3'', ''%.flac'', ''%.ape'', ''%.wav'', ''%.acc'', ''%.ogg'', ''%.midi'', ''%.mid''] w
            else if typ = ''doc'' then
              SearchKeywords E like [''%.txt'', ''%.md'', ''%.pdf'', ''%.doc'', ''%.docx'', ''%.ppt'', ''%.pptx'', ''%.xls'', ''%.xlsx'', ''%.pub''] w
            else if typ = ''tag'' then
              (case DecodeHashID (hids (ssys E)) keywords TagID of
                 Inl _ \<Rightarrow> reply (Err CodeNotFound None) w
               | Inr tid \<Rightarrow>
                   (case GetTagsByID (orm (ssys E)) tid (u_ID (User w)) (wdb w) of
                      Inl _ \<Rightarrow> reply (Err CodeNotFound None) w
                    | Inr tag \<Rightarrow>
                        (if tag_Type tag = FileTagType
                         then SearchKeywords E like (splitOn (CHR 0x0A) (tag_Expression tag)) w
                         else reply (Err CodeNotFound None) w)))
            else reply (ParamErr None) w))"

section \<open>Packed downloads and archive tasks (file.go, objects.go)\<close>

text \<open>A session without its user panics: the answer for it is built and not returned.\<close>

definition DownloadArchived ::
  "nat \<Rightarrow> 'p svc_env \<Rightarrow> zip_writer \<Rightarrow> (nat \<Rightarrow> bool) \<Rightarrow> gostring \<Rightarrow> 'p server \<Rightarrow> (zip_entry list, 'p) reply" where
  "DownloadArchived n E writer cancelled i sv =
     (case cache_Get (clock (ssys E)) (''archive_user_'' @ i) (sv_cache sv) of
        Some (CObj (CUser user)) \<Rightarrow>
          (case NewFileSystem (ssys E) user (sv_db sv) (sv_cache sv) (sv_disk sv) of
             (Some e, w) \<Rightarrow> reply_err CodePolicyNotAllowed e w
           | (None, w) \<Rightarrow>
               (case cache_Get (clock (ssys E)) (''archive_'' @ i) (wcache w) of
                  None \<Rightarrow> reply (Err 404 None) w
                | Some (CObj (CItems itemService)) \<Rightarrow>
                    (let (items, dirs) = Raw (hids (ssys E)) itemService in
                     case Compress n (ssys E) writer Background cancelled dirs items True w of
                       None \<Rightarrow> None
                     | Some (Some e, w1, zs) \<Rightarrow> reply_err CodeNotSet e w1
                     | Some (None, w1, zs) \<Rightarrow> reply (ok (Some zs)) w1)
                | Some _ \<Rightarrow> None))
      | _ \<Rightarrow> None)"

text \<open>
  \<open>float64\<close>: an integer is rounded to 53 significant bits, a tie to the even one. The constant
  0.4 is \<open>share_mantissa / 2 ^ 54\<close>, and \<open>math.Round\<close> rounds a half away from zero.
\<close>

fun bit_length :: "nat \<Rightarrow> nat" where
  "bit_length n = (if n = 0 then 0 else Suc (bit_length (n div 2)))"

declare bit_length.simps [simp del]

definition to_float :: "nat \<Rightarrow> nat" where
  "to_float n =
     (let u = 2 ^ (bit_length n - 53); q = n div u; r = n mod u
      in if 2 * r > u \<or> (2 * r = u \<and> odd q) then (q + 1) * u else q * u)"

definition share_mantissa :: nat where "share_mantissa = 7205759403792794"

definition space_needed :: "u64 \<Rightarrow> u64" where
  "space_needed totalSize =
     word_of_nat ((to_float (to_float (unat totalSize) * share_mantissa) + 2 ^ 53) div 2 ^ 54)"

text \<open>The state of the tasks is the pool of workers.\<close>

type_synonym ('d, 'p) task_reply = "('d response \<times> 'p server \<times> job async_pool) option"

definition with_pool :: "job async_pool \<Rightarrow> ('d, 'p) reply \<Rightarrow> ('d, 'p) task_reply" where
  "with_pool p r = map_option (\<lambda>(a, sv). (a, sv, p)) r"

definition submit_new ::
  "(db \<Rightarrow> (db_error + job) \<times> db) \<Rightarrow> 'p world \<Rightarrow> job async_pool \<Rightarrow> (unit, 'p) task_reply" where
  "submit_new create w p =
     (case create (wdb w) of
        (Inl e, d') \<Rightarrow> with_pool p (reply (Err CodeNotSet None) (w\<lparr>wdb := d'\<rparr>))
      | (Inr job, d') \<Rightarrow> with_pool (pool_Submit job p) (reply (ok None) (w\<lparr>wdb := d'\<rparr>)))"

definition task_fs ::
  "'p sys \<Rightarrow> user_row option \<Rightarrow> 'p server \<Rightarrow> job async_pool \<Rightarrow> ('p world \<Rightarrow> ('d, 'p) task_reply) \<Rightarrow> ('d, 'p) task_reply" where
  "task_fs S user sv p k =
     (case NewFileSystemFromContext S user (sv_db sv) (sv_cache sv) (sv_disk sv) of
        (Some e, w) \<Rightarrow> with_pool p (reply_err CodePolicyNotAllowed e w)
      | (None, w) \<Rightarrow> k w)"

definition CreateCompressTask ::
  "'p task_env \<Rightarrow> item_ids \<Rightarrow> gostring \<Rightarrow> gostring \<Rightarrow> user_row option \<Rightarrow> 'p server \<Rightarrow> job async_pool \<Rightarrow>
   (unit, 'p) task_reply" where
  "CreateCompressTask T src dst name0 user sv p =
     task_fs (te_sys T) user sv p (\<lambda>w.
       let S = te_sys T; G = orm S;
           answer = (\<lambda>a. with_pool p (reply a w));
           name = (if hasSuffix name0 ''.zip'' then name0 else name0 @ ''.zip'');
           (items, dirs) = Raw (hids S) src
       in if \<not> g_ArchiveTask (u_Group (User w)) then answer (Err CodeGroupNotAllowed None)
          else if \<not> fst (IsPathExist G w dst) then answer (Err CodeNotFound None)
          else if fst (IsPathExist G w (pathJoin dst name)) then answer (ParamErr None)
          else if \<not> ValidateLegalName name then answer (ParamErr None)
          else
            (case Policy w of
               None \<Rightarrow> None
             | Some policy \<Rightarrow>
                 (if \<not> ValidateExtension policy name then answer (ParamErr None)
                  else
                    (case GetRecursiveChildFolder G dirs (u_ID (User w)) True (wdb w) of
                       (_, Some e) \<Rightarrow> answer (Err CodeDBError None)
                     | (fds, None) \<Rightarrow>
                         (case GetChildFilesOfFolders G fds (wdb w) of
                            Inl e \<Rightarrow> answer (Err CodeDBError None)
                          | Inr fs \<Rightarrow>
                              (let totalSize = sum_list (map f_Size fs);
                                   maxSize = g_CompressSize (u_Group (User w))
                               in if maxSize \<noteq> 0 \<and> totalSize > maxSize then answer (Err CodeParamErr None)
                                  else if GetRemainingCapacity (User w) < space_needed totalSize
                                  then answer (Err CodeParamErr None)
                                  else submit_new (NewCompressTask T (User w) (pathJoin dst name) dirs items) w p))))))"

definition archive_suffixes :: "gostring list" where
  "archive_suffixes = [''.zip'', ''.gz'', ''.xz'', ''.tar'', ''.rar'']"

definition CreateDecompressTask ::
  "'p task_env \<Rightarrow> gostring \<Rightarrow> gostring \<Rightarrow> gostring \<Rightarrow> user_row option \<Rightarrow> 'p server \<Rightarrow> job async_pool \<Rightarrow>
   (unit, 'p) task_reply" where
  "CreateDecompressTask T src dst encoding user sv p =
     task_fs (te_sys T) user sv p (\<lambda>w.
       let G = orm (te_sys T); answer = (\<lambda>a. with_pool p (reply a w)) in
       if \<not> g_ArchiveTask (u_Group (User w)) then answer (Err CodeGroupNotAllowed None)
       else if \<not> fst (IsPathExist G w dst) then answer (Err CodeNotFound None)
       else
         (case IsFileExist G w src of
            (False, _) \<Rightarrow> answer (Err CodeNotFound None)
          | (True, f) \<Rightarrow>
              (let maxSize = g_DecompressSize (u_Group (User w)) in
               if maxSize \<noteq> 0 \<and> f_Size f > maxSize then answer (Err CodeParamErr None)
               else if \<not> list_ex (hasSuffix (f_Name f)) archive_suffixes then answer (Err CodeParamErr None)
               else submit_new (NewDecompressTask T (User w) src dst encoding) w p)))"

text \<open>
  A preview in an office service: \<open>base64\<close> is the encoding of the standard library and
  \<open>queryEscape\<close> the one of \<open>net/url\<close>; the two places of the template are filled in in the order of
  a map, \<open>arrange\<close>.
\<close>

definition CreateDocPreviewSession ::
  "'p svc_env \<Rightarrow> (gostring \<Rightarrow> gostring) \<Rightarrow> (gostring \<Rightarrow> gostring) \<Rightarrow>
   ((gostring \<times> gostring) list \<Rightarrow> (gostring \<times> gostring) list) \<Rightarrow> uint option \<Rightarrow> file_row option \<Rightarrow>
   (folder_row \<times> gostring) option \<Rightarrow> user_row option \<Rightarrow> 'p server \<Rightarrow> (gostring, 'p) reply" where
  "CreateDocPreviewSession E base64 queryEscape arrange objectID fileCtx folderCtx user sv =
     with_fs (ssys E) user sv (\<lambda>w.
       case preview_target E objectID fileCtx folderCtx w of
         (Inl e, w1) \<Rightarrow> reply_err CodeNotFound e w1
       | (Inr None, w1) \<Rightarrow> None
       | (Inr (Some obj), w1) \<Rightarrow>
           (case GetDownloadURL (ssys E) Background obj ''doc_preview_timeout'' w1 of
              (Inl e, w2) \<Rightarrow> reply_err CodeNotSet e w2
            | (Inr downloadURL, w2) \<Rightarrow>
                reply (ok (Some (Replace (GetSettingByName (orm (ssys E)) ''office_preview_service'' (wdb w2))
                  (arrange [(''{$src}'', queryEscape downloadURL),
                            (''{$srcB64}'', queryEscape (base64 downloadURL))])))) w2))"

section \<open>Slave nodes (slave.go, upload.go, fabric.go, middleware/cluster.go)\<close>

text \<open>\<open>occupied\<close> is \<open>utils.Exist\<close> on the slave's disk. The cache in memory never fails.\<close>

definition slave_CreateSession ::
  "unix_time \<Rightarrow> (gostring \<Rightarrow> 'p \<Rightarrow> bool) \<Rightarrow> upload_session \<Rightarrow> int \<Rightarrow> bool \<Rightarrow> 'p server \<Rightarrow> unit response \<times> 'p server" where
  "slave_CreateSession now occupied session TTL overwrite sv =
     (if \<not> overwrite \<and> occupied (us_SavePath session) (sv_disk sv) then (Err CodeConflict None, sv)
      else (ok None,
        sv\<lparr>sv_cache := cache_Set now (''callback_'' @ us_Key session) (CObj (CSession session)) TTL (sv_cache sv)\<rparr>))"

definition callback_stream :: "upload_session \<Rightarrow> file_row \<Rightarrow> file_stream" where
  "callback_stream session f =
     zero_stream\<lparr>fst_Size := us_Size session, fst_Name := us_Name session, fst_VirtualPath := us_VirtualPath session,
       fst_SavePath := us_SavePath session, fst_Mode := Nop, fst_Model := Some f,
       fst_LastModified := us_LastModified session\<rparr>"

definition callback_hooks :: "policy \<Rightarrow> gostring \<Rightarrow> 'p world \<Rightarrow> 'p world" where
  "callback_hooks policy picInfo w =
     (let w1 = (if \<not> IsUploadPlaceholderWithSize policy
                then Use ''AfterUpload'' HookChunkUploaded (Use ''AfterUpload'' HookValidateCapacity w) else w)
      in Use ''AfterValidateFailed'' HookDeleteTempFile (Use ''AfterUpload'' (HookPopPlaceholderToFile picInfo) w1))"

definition ProcessCallback ::
  "'p svc_env \<Rightarrow> gostring \<Rightarrow> upload_session option \<Rightarrow> user_row option \<Rightarrow> 'p server \<Rightarrow> (unit, 'p) reply" where
  "ProcessCallback E picInfo session user sv =
     (case NewFileSystemFromCallback (ssys E) user session (sv_db sv) (sv_cache sv) (sv_disk sv) of
        (Some e, w) \<Rightarrow> reply_err CodePolicyNotAllowed e w
      | (None, w) \<Rightarrow>
          (case (session, Policy w) of
             (Some uploadSession, Some policy) \<Rightarrow>
               (case GetFilesByUploadSession (orm (ssys E)) (us_Key uploadSession) (u_ID (User w)) (wdb w) of
                  Inl _ \<Rightarrow> reply (Err CodeUploadSessionExpired None) w
                | Inr f \<Rightarrow>
                    (case Upload (ssys E) (srun E) Background (callback_stream uploadSession f)
                            (callback_hooks policy picInfo w) of
                       None \<Rightarrow> None
                     | Some (Some e, _, w1) \<Rightarrow> reply_err CodeUploadFailed e w1
                     | Some (None, _, w1) \<Rightarrow> reply (ok None) w1))
           | _ \<Rightarrow> None))"

text \<open>\<open>decode\<close> is \<open>gob\<close>, which may reject the body.\<close>

definition HandleSlaveNotificationPush ::
  "(gostring \<Rightarrow> 'c message option) \<Rightarrow> gostring \<Rightarrow> gostring \<Rightarrow> 'c queue \<Rightarrow> unit response \<times> 'c queue" where
  "HandleSlaveNotificationPush decode subject body q =
     (case decode body of
        None \<Rightarrow> (ParamErr None, q)
      | Some msg \<Rightarrow> (ok None, Publish subject msg q))"

text \<open>The header with the node's id, and the key of that node for the check of the signature.\<close>

definition SlaveRPCSignRequired ::
  "(gostring \<Rightarrow> gostring \<Rightarrow> gostring \<Rightarrow> gostring) \<Rightarrow> (gostring \<Rightarrow> auth) \<Rightarrow> unix_time \<Rightarrow> pool \<Rightarrow> gostring \<Rightarrow> request \<Rightarrow> url \<Rightarrow>
   gctx \<Rightarrow> verdict \<times> gctx" where
  "SlaveRPCSignRequired marshal hmac now nodePool header r u c =
     (case parseUint header of
        None \<Rightarrow> (AbortJSON CodeParamErr, c)
      | Some nodeID \<Rightarrow>
          (case pool_GetNodeByID nodeID nodePool of
             None \<Rightarrow> (AbortJSON CodeParamErr, c)
           | Some slaveNode \<Rightarrow> SignRequired marshal (hmac (n_MasterKey (nd_Model (np_store nodePool slaveNode)))) now r u c))"

section \<open>WebDAV accounts (setting/webdav.go)\<close>

definition dav_Accounts :: "gorm \<Rightarrow> user_row \<Rightarrow> db \<Rightarrow> webdav_row list" where
  "dav_Accounts G user d = ListWebDAVAccounts G (u_ID user) d"

definition dav_Delete :: "gorm \<Rightarrow> uint \<Rightarrow> user_row \<Rightarrow> db \<Rightarrow> unit response \<times> db" where
  "dav_Delete G i user d = (ok None, DeleteWebDAVAccountByID G i (u_ID user) d)"

text \<open>The password, \<open>RandStringRunes(32)\<close>, is an argument; the answer carries id and password.\<close>

definition dav_Create ::
  "gorm \<Rightarrow> gostring \<Rightarrow> gostring \<Rightarrow> gostring \<Rightarrow> user_row \<Rightarrow> db \<Rightarrow> (uint \<times> gostring) response \<times> db" where
  "dav_Create G password name path user d =
     (let account = zero_webdav\<lparr>w_Name := name, w_Password := password, w_UserID := u_ID user, w_Root := path\<rparr> in
      case Webdav_Create G account d of
        (Inl e, d') \<Rightarrow> (Err CodeDBError None, d')
      | (Inr i, d') \<Rightarrow> (ok (Some (i, password)), d'))"

section \<open>The site (serializer/setting.go, controllers/site.go, controllers/main.go)\<close>

record site_config =
  sc_SiteName :: gostring
  sc_LoginCaptcha :: bool
  sc_RegCaptcha :: bool
  sc_ForgetCaptcha :: bool
  sc_EmailActive :: bool
  sc_Themes :: gostring
  sc_DefaultTheme :: gostring
  sc_HomepageViewMethod :: gostring
  sc_ShareViewMethod :: gostring
  sc_Authn :: bool
  sc_User :: user_view
  sc_ReCaptchaKey :: gostring
  sc_CaptchaType :: gostring
  sc_TCaptchaCaptchaAppId :: gostring
  sc_RegisterEnabled :: bool

definition checkSettingValue :: "(gostring \<rightharpoonup> gostring) \<Rightarrow> gostring \<Rightarrow> gostring" where
  "checkSettingValue setting key = (case setting key of Some v \<Rightarrow> v | None \<Rightarrow> [])"

definition BuildSiteConfig ::
  "gorm \<Rightarrow> hashids \<Rightarrow> (gostring \<rightharpoonup> gostring) \<Rightarrow> user_row option \<Rightarrow> db \<Rightarrow> site_config" where
  "BuildSiteConfig G H setting user d =
     (let text = checkSettingValue setting;
          flag = (\<lambda>k. IsTrueVal (checkSettingValue setting k))
      in \<lparr>sc_SiteName = text ''siteName'', sc_LoginCaptcha = flag ''login_captcha'', sc_RegCaptcha = flag ''reg_captcha'',
          sc_ForgetCaptcha = flag ''forget_captcha'', sc_EmailActive = flag ''email_active'', sc_Themes = text ''themes'',
          sc_DefaultTheme = text ''defaultTheme'', sc_HomepageViewMethod = text ''home_view_method'',
          sc_ShareViewMethod = text ''share_view_method'', sc_Authn = flag ''authn_enabled'',
          sc_User = BuildUser G H (case user of Some u \<Rightarrow> u | None \<Rightarrow> NewAnonymousUser G d) d,
          sc_ReCaptchaKey = text ''captcha_ReCaptchaKey'', sc_CaptchaType = text ''captcha_type'',
          sc_TCaptchaCaptchaAppId = text ''captcha_TCaptcha_CaptchaAppId'', sc_RegisterEnabled = flag ''register_enabled''\<rparr>)"

definition SiteConfig :: "gorm \<Rightarrow> hashids \<Rightarrow> gctx \<Rightarrow> site_config" where
  "SiteConfig G H c =
     BuildSiteConfig G H
       (GetSettingByNames G
          [''siteName'', ''login_captcha'', ''reg_captcha'', ''email_active'', ''forget_captcha'', ''email_active'',
           ''themes'', ''defaultTheme'', ''home_view_method'', ''share_view_method'', ''authn_enabled'',
           ''captcha_ReCaptchaKey'', ''captcha_type'', ''captcha_TCaptcha_CaptchaAppId'', ''register_enabled''] (c_db c))
       (c_user c) (c_db c)"

definition fieldMap :: "gostring \<rightharpoonup> gostring" where
  "fieldMap = map_of [(''UserName'', ''Email''), (''Password'', ''Password''), (''Path'', ''Path''),
     (''SourceID'', ''Source resource''), (''URL'', ''URL''), (''Nick'', ''NickName'')]"

definition tagMap :: "gostring \<rightharpoonup> gostring" where
  "tagMap = map_of [(''required'', ''cannot be empty''), (''min'', ''too short''), (''max'', ''too long''),
     (''email'', ''format error'')]"

definition ParamErrorMsg :: "gostring \<Rightarrow> gostring \<Rightarrow> gostring" where
  "ParamErrorMsg field tag =
     (let fieldVal = (case fieldMap field of Some v \<Rightarrow> v | None \<Rightarrow> field)
      in case tagMap tag of Some tagVal \<Rightarrow> fieldVal @ '' '' @ tagVal | None \<Rightarrow> [])"

text \<open>
  \<open>parse\<close> is \<open>json.Unmarshal\<close> with the code of the captcha, \<open>verify\<close> the package's check. The body is
  \<open>None\<close> when it cannot be read; the captcha of the session is used up by the check.
\<close>

definition CaptchaRequired ::
  "gorm \<Rightarrow> gostring \<Rightarrow> (gostring \<Rightarrow> gostring option) \<Rightarrow> (gostring \<Rightarrow> gostring \<Rightarrow> bool) \<Rightarrow> gostring option \<Rightarrow>
   db \<Rightarrow> gostring option \<Rightarrow> verdict \<times> gostring option" where
  "CaptchaRequired G configName parse verify body d captchaID =
     (let options = GetSettingByNames G
            [configName, ''captcha_type'', ''captcha_ReCaptchaSecret'', ''captcha_TCaptcha_SecretId'',
             ''captcha_TCaptcha_SecretKey'', ''captcha_TCaptcha_CaptchaAppId'', ''captcha_TCaptcha_AppSecretKey''] d;
          option_of = (\<lambda>k. case options k of None \<Rightarrow> [] | Some v \<Rightarrow> v)
      in if \<not> IsTrueVal (option_of configName) then (Next, captchaID)
         else
           (case body of
              None \<Rightarrow> (AbortJSON CodeCaptchaError, captchaID)
            | Some bodyData \<Rightarrow>
                (case parse bodyData of
                   None \<Rightarrow> (AbortJSON CodeCaptchaError, captchaID)
                 | Some captchaCode \<Rightarrow>
                     (if option_of ''captcha_type'' = ''normal'' then
                        (case captchaID of
                           None \<Rightarrow> (AbortJSON CodeCaptchaError, None)
                         | Some i \<Rightarrow> (if verify i captchaCode then Next else AbortJSON CodeCaptchaError, None))
                      else (Next, captchaID)))))"

section \<open>What a search finds\<close>

lemma list_files_ids:
  assumes "list_files S p key fs w = (os, w')" and "ob \<in> set os"
  shows "\<exists>f\<in>set fs. o_ID ob = HashID (hids S) (f_ID f) FileID \<and> o_Name ob = f_Name f \<and> f_UploadSessionID f = None"
  using assms
proof (induction fs arbitrary: os w)
  case (Cons f fs)
  consider (other) v os' where "list_files S p key fs v = (os', w')" "ob \<in> set os'"
    | (this) b where "f_UploadSessionID f = None" "ob = file_object S p key f b"
    using Cons.prems by (auto split: if_splits prod.splits)
  then show ?case
  proof cases
    case other
    from Cons.IH [OF this] show ?thesis by auto
  next
    case this
    then show ?thesis by (simp add: file_object_def)
  qed
qed simp

text \<open>The pattern of a search that is a single one.\<close>

lemma any_like_single: "any_like like [Row [p]] = Some (\<lambda>name. like name p)"
  by (simp add: name_like_def)

text \<open>Several patterns make no valid condition.\<close>

lemma any_like_several: "2 \<le> length ps \<Longrightarrow> any_like like [Row ps] = None"
  by (cases ps; cases "tl ps") (auto simp: name_like_def)

lemma fs_Search_sound:
  assumes "gorm_db (orm S)" and "u_ID (User w) \<noteq> 0"
    and "any_like like ks = Some P" and "fs_Search S like ks w = (Inr os, w')" and "ob \<in> set os"
  shows "\<exists>f\<in>set (files (wdb w)). o_ID ob = HashID (hids S) (f_ID f) FileID \<and> o_Name ob = f_Name f \<and>
    f_UserID f = u_ID (User w) \<and> f_UploadSessionID f = None \<and> P (f_Name f)"
proof -
  let ?fs = "\<lambda>ps. case GetFilesByKeywords (orm S) like (u_ID (User w)) ps ks (wdb w) of Inl _ \<Rightarrow> [] | Inr rows \<Rightarrow> rows"
  from assms(4) obtain ps w1 where "list_files S ''/'' [] (?fs ps) (SetTargetFile (?fs ps) w) = (os, w1)"
    by (auto simp: fs_Search_def listObjects_def Let_def split: prod.splits sum.splits)
  from list_files_ids [OF this assms(5)] obtain f where f: "f \<in> set (?fs ps)"
    and o: "o_ID ob = HashID (hids S) (f_ID f) FileID" "o_Name ob = f_Name f" "f_UploadSessionID f = None" by blast
  from f have "f \<in> set (files (wdb w)) \<and> f_UserID f = u_ID (User w) \<and> P (f_Name f)"
    using assms(2,3) gorm_table.find_set [OF gorm_db.files [OF assms(1)]]
    by (auto simp: GetFilesByKeywords_def split: sum.splits)
  with o show ?thesis by blast
qed

text \<open>A search by category has several patterns, so it finds nothing.\<close>

lemma fs_Search_several:
  assumes "2 \<le> length ps" and "fs_Search S like [Row ps] w = (Inr os, w')"
  shows "os = []"
  using assms by (auto simp: fs_Search_def GetFilesByKeywords_def any_like_several listObjects_def
      simp del: any_like.simps split: option.splits sum.splits prod.splits)

text \<open>
  C38. A search by name, in a folder or in everything, shows a user who is logged in nothing but files
  of this user that match: every object found is a file of the database that belongs to the
  user, is not being uploaded, and whose name is like the pattern, the keywords between two \<open>%\<close>.
\<close>

theorem search_finds_own_files:
  assumes "gorm_db (orm (ssys E))" and "u_ID user \<noteq> 0"
    and "Search E like ''keywords'' keywords path (Some user) sv = Some (r, sv')"
    and "r_Data r = Some os" and "ob \<in> set os"
  shows "\<exists>f\<in>set (files (sv_db sv)). o_ID ob = HashID (hids (ssys E)) (f_ID f) FileID \<and> o_Name ob = f_Name f \<and>
    f_UserID f = u_ID user \<and> f_UploadSessionID f = None \<and> like (f_Name f) (''%'' @ keywords @ ''%'')"
proof -
  obtain e w0 where n: "NewFileSystem (ssys E) user (sv_db sv) (sv_cache sv) (sv_disk sv) = (e, w0)" by fastforce
  have w0: "User w0 = user" "wdb w0 = sv_db sv"
    using n by (auto simp: NewFileSystem_def DispatchHandler_def getEmptyFS_def Let_def split: if_splits)
  let ?found = "\<lambda>w w1. fs_Search (ssys E) like [Row [''%'' @ keywords @ ''%'']] w = (Inr os, w1) \<and>
    User w = user \<and> wdb w = sv_db sv"
  have "\<exists>w w1. ?found w w1"
  proof (cases "path = []")
    case True
    with assms(3,4) n have "\<exists>w1. ?found w0 w1" using w0
      by (auto simp: Search_def with_fs_def NewFileSystemFromContext_def SearchKeywords_def reply_err_def reply_def
          Err_def split: option.splits sum.splits prod.splits if_splits)
    then show ?thesis by blast
  next
    case False
    with assms(3,4) n have "\<exists>root w1. ?found (w0\<lparr>FsRoot := root\<rparr>) w1" using w0
      by (auto simp: Search_def with_fs_def NewFileSystemFromContext_def SearchKeywords_def reply_err_def reply_def
          Err_def split: option.splits sum.splits prod.splits if_splits bool.splits) blast
    then show ?thesis by blast
  qed
  then obtain w w1 where s: "fs_Search (ssys E) like [Row [''%'' @ keywords @ ''%'']] w = (Inr os, w1)"
    and w: "User w = user" "wdb w = sv_db sv" by blast
  from fs_Search_sound [OF assms(1) _ any_like_single s assms(5)] assms(2) w show ?thesis by simp
qed

text \<open>A server with the tree of \<open>docs_db\<close>, and its owner.\<close>

definition browse_env :: "unit svc_env" where
  "browse_env = \<lparr>ssys = docs_sys, srun = (\<lambda>h c f w. Some (None, f, w)), random16 = ''k'', uuid = ''i'', secret = ''s'',
     signURI = (\<lambda>p ttl. p)\<rparr>"

definition browse_user :: user_row where
  "browse_user = zero_user\<lparr>u_ID := 7, u_Policy := zero_policy\<lparr>p_ID := 1, p_Type := ''local''\<rparr>,
     u_Group := zero_group\<lparr>g_ArchiveDownload := True\<rparr>\<rparr>"

definition browse_server :: "unit server" where
  "browse_server = \<lparr>sv_db = acc_db, sv_cache = memo_new, sv_disk = ()\<rparr>"

lemmas browse_simps = browse_env_def browse_user_def browse_server_def acc_simps sound_simps zero_group_def
  NewFileSystemFromContext_def NewFileSystem_def DispatchHandler_def service_simps Let_def

text \<open>A search in the folder \<open>/docs\<close>.\<close>

theorem search_finds_own_files_witness:
  "\<exists>ob sv'. Search browse_env (\<lambda>name p. p = ''%'' @ name @ ''%'') ''keywords'' ''a'' ''/docs'' (Some browse_user) browse_server =
     Some (ok (Some [ob]), sv') \<and> o_Name ob = ''a''"
proof -
  let ?like = "\<lambda>name p. p = ''%'' @ name @ ''%''"
  let ?S = "Search browse_env ?like ''keywords'' ''a'' ''/docs'' (Some browse_user) browse_server"
  have "\<exists>ob sv'. ?S = Some (ok (Some [ob]), sv')"
    by (simp add: Search_def SearchKeywords_def fs_Search_def GetFilesByKeywords_def name_like_def listObjects_def
        browse_simps SetTargetFile_def copy_eval GetRecursiveChildFolder_def grc_loop.simps max_levels_def split: prod.splits)
  then obtain ob sv' where s: "?S = Some (ok (Some [ob]), sv')" by blast
  have "\<exists>f\<in>set (files (sv_db browse_server)). o_ID ob = HashID (hids (ssys browse_env)) (f_ID f) FileID \<and> o_Name ob = f_Name f \<and>
    f_UserID f = u_ID browse_user \<and> f_UploadSessionID f = None \<and> ?like (f_Name f) (''%'' @ ''a'' @ ''%'')"
    by (rule search_finds_own_files [OF _ _ s, where os = "[ob]"]) (simp_all add: browse_env_def docs_sys_def sound_gorm_laws browse_user_def)
  with s show ?thesis by auto
qed

text \<open>Sessions of downloads: what \<open>Archive\<close> stores is there until it expires.\<close>

lemma cache_Get_Set: "0 < ttl \<Longrightarrow> t \<le> now + ttl \<Longrightarrow> cache_Get t k (cache_Set now k v ttl st) = Some v"
  by (auto simp: cache_Get_def cache_Set_def memo_defs)

text \<open>
  A packed download delivers what was asked for: within the lifetime of its session, the download
  packs exactly the objects of the request that made the session, as its user.
\<close>

theorem archive_session_round_trip:
  fixes E :: "'p svc_env"
  assumes "Archive E items (Some user) sv = Some (r, sv1)" and "r_Code r = 0"
    and "ttl = GetIntSetting (orm (ssys E)) ''archive_timeout'' 30 (sv_db sv)" and "0 < ttl"
    and "t \<le> clock (ssys E) + ttl"
  shows "DownloadArchived n (E\<lparr>ssys := (ssys E)\<lparr>clock := t\<rparr>\<rparr>) writer cancelled (random16 E) sv1 =
    (case NewFileSystem ((ssys E)\<lparr>clock := t\<rparr>) user (sv_db sv1) (sv_cache sv1) (sv_disk sv1) of
       (Some e, w) \<Rightarrow> reply_err CodePolicyNotAllowed e w
     | (None, w) \<Rightarrow>
         (case Compress n ((ssys E)\<lparr>clock := t\<rparr>) writer Background cancelled (snd (Raw (hids (ssys E)) items))
                 (fst (Raw (hids (ssys E)) items)) True w of
            None \<Rightarrow> None
          | Some (Some e, w1, zs) \<Rightarrow> reply_err CodeNotSet e w1
          | Some (None, w1, zs) \<Rightarrow> reply (ok (Some zs)) w1))"
proof -
  let ?i = "random16 E" and ?S = "(ssys E)\<lparr>clock := t\<rparr>"
  obtain e w where n: "NewFileSystem (ssys E) user (sv_db sv) (sv_cache sv) (sv_disk sv) = (e, w)" by fastforce
  have w: "User w = user" "wdb w = sv_db sv" "wcache w = sv_cache sv" "wdisk w = sv_disk sv"
    using n by (auto simp: NewFileSystem_def DispatchHandler_def getEmptyFS_def Let_def split: if_splits)
  have "e = None"
  proof (cases e)
    case (Some x)
    then have "x = StorageError 0 \<or> x = ErrUnknownPolicyType"
      using n by (auto simp: NewFileSystem_def DispatchHandler_def getEmptyFS_def Let_def split: if_splits)
    with Some assms(1,2) n show ?thesis
      by (auto simp: Archive_def with_fs_def NewFileSystemFromContext_def reply_err_def reply_def Err_def
          CodePolicyNotAllowed_def app_code_def)
  qed
  with n have sv1: "sv_cache sv1 = cache_Set (clock (ssys E)) (''archive_user_'' @ ?i) (CObj (CUser user)) ttl
      (cache_Set (clock (ssys E)) (''archive_'' @ ?i) (CObj (CItems items)) ttl (sv_cache sv))"
    using assms(1,2) w by (auto simp: Archive_def with_fs_def NewFileSystemFromContext_def
        reply_def Err_def Let_def server_of_def assms(3) CodeGroupNotAllowed_def split: if_splits)
  have k: "''archive_'' @ ?i \<noteq> ''archive_user_'' @ ?i" by (auto dest: arg_cong [of _ _ length])
  have c: "cache_Get t (''archive_user_'' @ ?i) (sv_cache sv1) = Some (CObj (CUser user))"
    "cache_Get t (''archive_'' @ ?i) (sv_cache sv1) = Some (CObj (CItems items))"
    using assms(4,5) k by (simp_all add: sv1 cache_Get_Set cache_Get_other)
  obtain e' w' where n': "NewFileSystem ?S user (sv_db sv1) (sv_cache sv1) (sv_disk sv1) = (e', w')" by fastforce
  then have "wcache w' = sv_cache sv1"
    by (auto simp: NewFileSystem_def DispatchHandler_def getEmptyFS_def Let_def split: if_splits)
  with c n' show ?thesis by (simp add: DownloadArchived_def split: option.splits prod.splits)
qed

text \<open>A packing is started only for a group that may, into a folder that is there, under a new name, within the limit.\<close>

lemma CreateCompressTask_guarded:
  assumes "CreateCompressTask T src dst name user sv p = Some (r, sv', p')" and "p' \<noteq> p"
    and "NewFileSystemFromContext (te_sys T) user (sv_db sv) (sv_cache sv) (sv_disk sv) = (e, w)"
  shows "g_ArchiveTask (u_Group (User w)) \<and> fst (IsPathExist (orm (te_sys T)) w dst) \<and>
    \<not> fst (IsPathExist (orm (te_sys T)) w (pathJoin dst (if hasSuffix name ''.zip'' then name else name @ ''.zip''))) \<and>
    (\<exists>fds fs. GetRecursiveChildFolder (orm (te_sys T)) (snd (Raw (hids (te_sys T)) src)) (u_ID (User w)) True (wdb w) = (fds, None) \<and>
      GetChildFilesOfFolders (orm (te_sys T)) fds (wdb w) = Inr fs \<and>
      (g_CompressSize (u_Group (User w)) = 0 \<or> sum_list (map f_Size fs) \<le> g_CompressSize (u_Group (User w))) \<and>
      space_needed (sum_list (map f_Size fs)) \<le> GetRemainingCapacity (User w))"
proof -
  have stay: "with_pool p q = Some (r, sv', p') \<Longrightarrow> False" for q :: "(unit, 'a) reply"
    using assms(2) by (cases q) (auto simp: with_pool_def)
  show ?thesis
    using assms(1,3)
    by (auto simp: CreateCompressTask_def task_fs_def Let_def not_less dest: stay
        split: option.splits if_splits prod.splits sum.splits)
qed

text \<open>
  A captcha of the normal type is good for one request: after one has passed, the same session
  is refused until a new captcha is drawn.
\<close>

theorem captcha_used_once:
  assumes "CaptchaRequired G name parse verify body d captchaID = (Next, captchaID')"
    and "GetSettingByNames G [name, ''captcha_type'', ''captcha_ReCaptchaSecret'', ''captcha_TCaptcha_SecretId'',
      ''captcha_TCaptcha_SecretKey'', ''captcha_TCaptcha_CaptchaAppId'', ''captcha_TCaptcha_AppSecretKey''] d = options"
    and "options name = Some v" and "IsTrueVal v" and "options ''captcha_type'' = Some ''normal''"
  shows "CaptchaRequired G name parse verify body' d captchaID' = (AbortJSON CodeCaptchaError, None)"
  using assms by (auto simp: CaptchaRequired_def Let_def split: option.splits if_splits)

text \<open>The accounts of others stay when a WebDAV account is deleted.\<close>

lemma dav_Delete_own:
  assumes "gorm_db G" and "x \<in> set (webdavs d)" and "w_UserID x \<noteq> u_ID user"
  shows "x \<in> set (webdavs (snd (dav_Delete G i user d)))"
  using assms(2,3)
  by (auto simp: dav_Delete_def DeleteWebDAVAccountByID_def split: sum.splits
      dest!: gorm_table.delete_rows [OF gorm_db.webdavs [OF assms(1)]])

text \<open>The password of a new account opens an account of its user.\<close>

lemma dav_Create_opens:
  assumes "gorm_db G" and "dav_Create G pw name path user d = (r, d')" and "r_Code r = 0"
  shows "GetWebdavByPassword G pw (u_ID user) d' \<noteq> Inl ErrRecordNotFound"
proof
  assume f: "GetWebdavByPassword G pw (u_ID user) d' = Inl ErrRecordNotFound"
  from assms(2,3) obtain x where
    "Create (Webdavs G) (zero_webdav\<lparr>w_Name := name, w_Password := pw, w_UserID := u_ID user, w_Root := path\<rparr>) d = Inr (x, d')"
    by (auto simp: dav_Create_def Webdav_Create_def Err_def CodeDBError_def Let_def split: sum.splits)
  from gorm_table.create_row [OF gorm_db.webdavs [OF assms(1)] this] obtain i where
    "webdavs d' = webdavs d @ [zero_webdav\<lparr>w_Name := name, w_Password := pw, w_UserID := u_ID user, w_Root := path, w_ID := i\<rparr>]"
    by auto
  then show False
    using gorm_table.first_none [OF gorm_db.webdavs [OF assms(1)] f [unfolded GetWebdavByPassword_def],
        of "zero_webdav\<lparr>w_Name := name, w_Password := pw, w_UserID := u_ID user, w_Root := path, w_ID := i\<rparr>"] by simp
qed

theorem archive_session_round_trip_witness:
  "\<exists>zs sv'. DownloadArchived 3 (browse_env\<lparr>ssys := (ssys browse_env)\<lparr>clock := 5\<rparr>\<rparr>) whole (\<lambda>i. False) ''k''
     (snd (the (Archive browse_env \<lparr>it_Items = [], it_Dirs = [], it_Source = Some ([1], [])\<rparr> (Some browse_user) browse_server))) =
     Some (ok (Some zs), sv')"
proof -
  let ?E = browse_env and ?its = "\<lparr>it_Items = [], it_Dirs = [], it_Source = Some ([1], [])\<rparr>"
  have ttl: "GetIntSetting (orm (ssys ?E)) ''archive_timeout'' 30 (sv_db browse_server) = 30"
    by (simp add: GetIntSetting_def GetSettingByName_def GetSettingByNameFromTx_def parseInt_def browse_simps)
  obtain r sv1 where a: "Archive ?E ?its (Some browse_user) browse_server = Some (r, sv1)" and "r_Code r = 0"
    and "sv_db sv1 = acc_db" "sv_disk sv1 = ()"
    by (simp add: Archive_def browse_simps)
  from archive_session_round_trip [OF a this(2) ttl [symmetric], of 5 3 whole "\<lambda>i. False"] this(3)
  show ?thesis unfolding a
    by (simp add: browse_simps Raw_def Compress_def GetFolderByIDs_def GetFilesByIDs_def compress_file_def
        GetPolicy_def GetPolicyByID_def Background_def null_handler_def whole_def Let_def split: prod.splits sum.splits option.splits)
qed

theorem captcha_used_once_witness:
  "CaptchaRequired sound_gorm ''login_captcha'' Some (\<lambda>i code. i = code) (Some ''7'')
     (empty_db\<lparr>settings := [\<lparr>st_ID = 1, st_Type = ''login'', st_Name = ''login_captcha'', st_Value = ''1''\<rparr>,
        \<lparr>st_ID = 2, st_Type = ''captcha'', st_Name = ''captcha_type'', st_Value = ''normal''\<rparr>]\<rparr>) None =
   (AbortJSON CodeCaptchaError, None)"
proof -
  let ?d = "empty_db\<lparr>settings := [\<lparr>st_ID = 1, st_Type = ''login'', st_Name = ''login_captcha'', st_Value = ''1''\<rparr>,
        \<lparr>st_ID = 2, st_Type = ''captcha'', st_Name = ''captcha_type'', st_Value = ''normal''\<rparr>]\<rparr>"
  have "CaptchaRequired sound_gorm ''login_captcha'' Some (\<lambda>i code. i = code) (Some ''7'') ?d (Some ''7'') = (Next, None)"
    by (simp add: CaptchaRequired_def GetSettingByNames_def settings_map_def IsTrueVal_def sound_simps Let_def)
  from captcha_used_once [OF this refl, of "''1''"] show ?thesis
    by (simp add: GetSettingByNames_def settings_map_def IsTrueVal_def sound_simps)
qed

end
