(* ===== verification/ServiceProps.thy ===== *)
theory ServiceProps
  imports ServiceExplorer ChunkUpload
begin

text \<open>
  What holds across the services and the parts below them: the chunks a server expects are
  the ones \<open>chunk.ChunkGroup\<close> cuts.
\<close>

section \<open>Chunks on both sides\<close>

lemma unat_times:
  fixes k :: u64
  assumes "n * unat k < 2 ^ 64"
  shows "unat (word_of_nat n * k) = n * unat k"
proof -
  have "word_of_nat n * k = word_of_nat (n * unat k)" by simp
  then have "unat (word_of_nat n * k) = unat (word_of_nat (n * unat k) :: u64)" by (rule arg_cong)
  also have "\<dots> = n * unat k" using assms by (simp only: unat_of_nat) simp
  finally show ?thesis .
qed

lemma expected_length_nat:
  assumes S: "unat fs < 2 ^ 63" and K: "unat cs < 2 ^ 63" and cs: "cs \<noteq> 0" and i: "i * unat cs \<le> unat fs"
  shows "unat (expected_length cs fs i) = min (unat cs) (unat fs - i * unat cs)"
proof -
  have bound: "(i + 1) * unat cs < 2 ^ 64" using S K i by simp
  have start: "unat (word_of_nat i * cs) = i * unat cs" using bound by (intro unat_times) simp
  have last: "is_last_chunk cs fs i \<longleftrightarrow> unat fs \<le> (i + 1) * unat cs"
    using cs unat_times [OF bound] by (simp add: is_last_chunk_def word_le_nat_alt)
  have "unat (fs - word_of_nat i * cs) = unat fs - i * unat cs"
    using i start by (simp add: unat_sub word_le_nat_alt)
  with i show ?thesis by (simp add: expected_length_def last min_def) linarith
qed

text \<open>
  C10. Both sides of an upload agree on its chunks: for every chunk of a file that a client cuts
  with the chunk size of the storage policy, the server expects exactly the length the client
  sends, the last chunk and a chunk size of 0 included.
\<close>

theorem server_expects_client_chunks:
  assumes "unat fs < 2 ^ 63" and "unat cs < 2 ^ 63" and "i < unat (chunkNum (NewGroup s fs cs bo ub))"
  shows "int (unat (expected_length cs fs i)) = Length (at_chunk (NewGroup s fs cs bo ub) i)"
proof -
  let ?K = "eff_chunk (unat fs) (unat cs)"
  have i: "i < chunk_count (unat fs) ?K" using assms(3) unat_chunkNum [OF assms(1)] by simp
  note c = chunk_bounds(2) [OF assms(1,2) i, of s bo ub] chunk_bounds(3) [OF assms(1,2) i]
  show ?thesis
  proof (cases "cs = 0")
    case True
    with i have "i = 0" by (cases "fs = 0") (simp_all add: chunk_count_def eff_chunk_def unat_eq_zero)
    with True c(1) show ?thesis
      by (simp add: expected_length_def is_last_chunk_def eff_chunk_def)
  next
    case False
    then have "?K = unat cs" by (simp add: eff_chunk_def unat_eq_zero)
    with c expected_length_nat [OF assms(1,2) False, of i] show ?thesis by simp
  qed
qed

theorem server_expects_client_chunks_witness:
  "int (unat (expected_length 2 5 2)) = Length (at_chunk (NewGroup five_bytes 5 2 three_tries True) 2) \<and>
   expected_length 2 5 2 = 1"
  using server_expects_client_chunks [of 5 2 2 five_bytes three_tries True]
  by (simp add: NewGroup_def Let_def expected_length_def is_last_chunk_def)

end
