(* ===== verification/AdminProps.thy ===== *)
theory AdminProps
  imports ServiceAdmin FsDelete
begin

text \<open>
  What the administration keeps: the first user stays in place and the accounts stay right while users
  and files are deleted, a saved policy is the one the server works with, settings change
  together or not at all, and a node out of service gets no more work.
\<close>

section \<open>Deleting users and files\<close>

context gorm_table
begin

lemma drop_rows_cases: "drop_rows T P d = d \<or> drop_rows T P d = put (filter (\<lambda>r. \<not> P r) (get d)) d"
  by (auto simp: drop_rows_def dest: delete_rows split: sum.splits)

end

text \<open>The users whom \<open>P\<close> picks are still there, apart from their storage.\<close>

definition users_stay :: "(user_row \<Rightarrow> bool) \<Rightarrow> db \<Rightarrow> db \<Rightarrow> bool" where
  "users_stay P d d' \<longleftrightarrow> (\<forall>u\<in>set (users d). P u \<longrightarrow> (\<exists>n. u\<lparr>u_Storage := n\<rparr> \<in> set (users d')))"

lemma users_stay_refl: "users d' = users d \<Longrightarrow> users_stay P d d'"
  unfolding users_stay_def
proof (intro ballI impI)
  fix u assume "users d' = users d" and "u \<in> set (users d)"
  then have "u\<lparr>u_Storage := u_Storage u\<rparr> \<in> set (users d')" by simp
  then show "\<exists>n. u\<lparr>u_Storage := n\<rparr> \<in> set (users d')" ..
qed

lemma users_stayD: "users_stay P d d' \<Longrightarrow> u \<in> set (users d) \<Longrightarrow> P u \<Longrightarrow> \<exists>n. u\<lparr>u_Storage := n\<rparr> \<in> set (users d')"
  by (simp add: users_stay_def)

lemma users_stay_trans:
  assumes "users_stay P d1 d2" and "users_stay P d2 d3" and "\<And>u n. P u \<Longrightarrow> P (u\<lparr>u_Storage := n\<rparr>)"
  shows "users_stay P d1 d3"
  unfolding users_stay_def
proof (intro ballI impI)
  fix u assume u: "u \<in> set (users d1)" "P u"
  from users_stayD [OF assms(1) this] obtain n where n: "u\<lparr>u_Storage := n\<rparr> \<in> set (users d2)" ..
  from users_stayD [OF assms(2) n assms(3) [OF u(2)]] show "\<exists>n. u\<lparr>u_Storage := n\<rparr> \<in> set (users d3)" by simp
qed

lemma users_stay_then:
  "users_stay (\<lambda>u. u_ID u = i) d1 d2 \<Longrightarrow> users_stay (\<lambda>u. u_ID u = i) d2 d3 \<Longrightarrow> users_stay (\<lambda>u. u_ID u = i) d1 d3"
  by (rule users_stay_trans) simp_all

context gorm_db
begin

lemma ChangeStorage_users_stay: "ChangeStorage G uid op n tx = Inr tx' \<Longrightarrow> users_stay P tx tx'"
  unfolding users_stay_def
proof (intro ballI impI)
  fix u assume c: "ChangeStorage G uid op n tx = Inr tx'" and u: "u \<in> set (users tx)"
  show "\<exists>m. u\<lparr>u_Storage := m\<rparr> \<in> set (users tx')"
  proof (cases "u_ID u = uid")
    case True
    from ChangeStorage_rows(4) [OF c u True] obtain m where "storage_expr op n u = Some (u\<lparr>u_Storage := m\<rparr>)"
      by (auto simp: storage_expr_def split: if_splits)
    then have "u\<lparr>u_Storage := m\<rparr> \<in> set (users tx')"
      using u True by (force simp: ChangeStorage_rows(3) [OF c])
    then show ?thesis ..
  next
    case False
    then have "u\<lparr>u_Storage := u_Storage u\<rparr> \<in> set (users tx')"
      using u by (force simp: ChangeStorage_rows(3) [OF c])
    then show ?thesis ..
  qed
qed

lemma DeleteFiles_loop_users: "DeleteFiles_loop G uid fs tx n = Inr (n', tx') \<Longrightarrow> users tx' = users tx"
proof (induction fs arbitrary: tx n)
  case (Cons f fs)
  then show ?case by (auto dest: files.delete_rows split: if_splits sum.splits)
qed simp

lemma DeleteFiles_users_stay:
  assumes "DeleteFiles G fs uid d = (res, d')" shows "users_stay P d d'"
  using assms
proof (cases rule: DeleteFiles_cases)
  case (2 n tx)
  from ChangeStorage_users_stay [OF 2(3)] DeleteFiles_loop_users [OF 2(2)] show ?thesis
    by (simp add: users_stay_def)
qed (auto intro: users_stay_refl)

lemma Delete_objects_users_stay:
  assumes "orm S = G" and "Delete_objects S dirs ids force w = (res, w')" and "FileTarget w = []"
  shows "users_stay P (wdb w) (wdb w')"
proof -
  have sub: "set (FileTarget w) \<subseteq> set (files (wdb w))" by (simp add: assms(3))
  show ?thesis
  proof (cases rule: Delete_objects_cases [OF assms(1,2) sub])
    case (1 e)
    then show ?thesis by (simp add: users_stay_refl)
  next
    case (2 w1 failed gone)
    show ?thesis
    proof (rule delete_rows_effect [OF assms(1) 2(6)])
      fix r d1 assume d: "DeleteFiles G gone (u_ID (User w1)) (wdb w1) = (r, d1)" "users (wdb w') = users d1"
      from DeleteFiles_users_stay [OF d(1)] show ?thesis by (simp add: users_stay_def d(2) 2(1))
    qed
  qed
qed

lemma drop_user_rows_effect:
  "files (drop_user_rows G uid user d) = files d"
  "users (drop_user_rows G uid user d) = users d \<or>
   users (drop_user_rows G uid user d) = filter (\<lambda>r. u_ID r \<noteq> u_ID user) (users d)"
proof -
  let ?d1 = "drop_rows (Downloads G) (\<lambda>r. dl_UserID r = uid) d"
  let ?d2 = "drop_rows (Tasks G) (\<lambda>r. t_UserID r = uid) ?d1"
  let ?d3 = "drop_rows (Tags G) (\<lambda>r. tag_UserID r = uid) ?d2"
  let ?d4 = "drop_rows (Webdavs G) (\<lambda>r. w_UserID r = uid) ?d3"
  have s: "files (drop_rows (Downloads G) P1 d) = files d \<and> users (drop_rows (Downloads G) P1 d) = users d"
    "files (drop_rows (Tasks G) P2 d) = files d \<and> users (drop_rows (Tasks G) P2 d) = users d"
    "files (drop_rows (Tags G) P3 d) = files d \<and> users (drop_rows (Tags G) P3 d) = users d"
    "files (drop_rows (Webdavs G) P4 d) = files d \<and> users (drop_rows (Webdavs G) P4 d) = users d" for P1 P2 P3 P4 d
    using gorm_table.drop_rows_cases [OF downloads, of P1 d] gorm_table.drop_rows_cases [OF tasks, of P2 d]
      gorm_table.drop_rows_cases [OF tags, of P3 d] gorm_table.drop_rows_cases [OF webdavs, of P4 d] by auto
  have d4: "files ?d4 = files d" "users ?d4 = users d" by (simp_all add: s)
  have u: "drop_rows (Users G) P ?d4 = ?d4 \<or> drop_rows (Users G) P ?d4 = set_users (filter (\<lambda>r. \<not> P r) (users ?d4)) ?d4" for P
    by (rule gorm_table.drop_rows_cases [OF users])
  show "files (drop_user_rows G uid user d) = files d"
    using u [of "\<lambda>r. u_ID r = u_ID user"] d4 by (auto simp: drop_user_rows_def Let_def)
  show "users (drop_user_rows G uid user d) = users d \<or>
      users (drop_user_rows G uid user d) = filter (\<lambda>r. u_ID r \<noteq> u_ID user) (users d)"
    using u [of "\<lambda>r. u_ID r = u_ID user"] d4 by (auto simp: drop_user_rows_def Let_def)
qed

end

lemma NewFileSystem_frame:
  "NewFileSystem S user d ch p = (e, w) \<Longrightarrow> wdb w = d \<and> FileTarget w = [] \<and> User w = user"
  unfolding NewFileSystem_def by (drule DispatchHandler_frame) (simp add: getEmptyFS_def)

text \<open>One turn of the loop over the users.\<close>

lemma DeleteUsers_step:
  fixes S :: "'p sys"
  assumes "DeleteUsers S (uid # rest) sv = Some (r, sv')"
  obtains "sv_db sv' = sv_db sv"
  | user and root :: folder_row and w :: "'p world" and e w1 where "GetUserByID (orm S) (preload S) uid (sv_db sv) = Inr user" and "uid \<noteq> 1"
      and "wdb w = sv_db sv" and "FileTarget w = []"
      and "Delete_objects S [d_ID root] [] False w = (e, w1)"
      and "DeleteUsers S rest (server_of (w1\<lparr>wdb := drop_user_rows (orm S) uid user (wdb w1)\<rparr>)) = Some (r, sv')"
proof (cases "GetUserByID (orm S) (preload S) uid (sv_db sv)")
  case (Inl e)
  then show ?thesis using assms that(1) by simp
next
  case (Inr user)
  note u = this
  obtain e w where n: "NewFileSystem S user (sv_db sv) (sv_cache sv) (sv_disk sv) = (e, w)" by fastforce
  note fr = NewFileSystem_frame [OF n]
  show ?thesis
  proof (cases "uid = 1 \<or> isl (Root (orm S) (u_ID (User w)) (wdb w))")
    case True
    then show ?thesis
      using assms that(1) u n fr by (auto simp: Let_def reply_def server_of_def isl_def split: if_splits)
  next
    case False
    then obtain root where root: "uid \<noteq> 1" "Root (orm S) (u_ID (User w)) (wdb w) = Inr root"
      by (auto simp: isl_def split: sum.splits) (metis sum.exhaust)
    obtain e1 w1 where del: "Delete_objects S [d_ID root] [] False w = (e1, w1)" by fastforce
    have "DeleteUsers S rest (server_of (w1\<lparr>wdb := drop_user_rows (orm S) uid user (wdb w1)\<rparr>)) = Some (r, sv')"
      using assms u n root del by (simp add: Let_def split: if_splits)
    with u root(1) fr del show ?thesis by (intro that(2)) auto
  qed
qed

lemma server_of_db [simp]: "sv_db (server_of w) = wdb w"
  by (simp add: server_of_def)

context gorm_db
begin

lemma GetUserByID_row:
  "GetUserByID G load i d = Inr u \<Longrightarrow> \<exists>r. r \<in> set (users d) \<and> u_ID r = i \<and> u = load r"
  by (auto simp: GetUserByID_def map_ok_def dest: users.first_row split: sum.splits)

lemma DeleteUsers_effect:
  assumes "orm S = G" and "\<And>u. u_ID (preload S u) = u_ID u"
  shows "DeleteUsers S ids sv = Some (r, sv') \<Longrightarrow>
    users_stay (\<lambda>u. u_ID u = 1) (sv_db sv) (sv_db sv') \<and>
    (file_keys (sv_db sv) \<and> accounted (sv_db sv) \<longrightarrow> file_keys (sv_db sv') \<and> accounted (sv_db sv'))"
proof (induction ids arbitrary: sv)
  case Nil
  then show ?case by (simp add: users_stay_refl)
next
  case (Cons uid rest)
  show ?case
  proof (cases rule: DeleteUsers_step [OF Cons.prems])
    case 1
    then show ?thesis by (simp add: users_stay_refl accounted_def)
  next
    case (2 user root w e w1)
    let ?d = "drop_user_rows G uid user (wdb w1)"
    have id: "u_ID user = uid" using GetUserByID_row [of "preload S" uid "sv_db sv" user] 2(1) assms by auto
    have IH: "users_stay (\<lambda>u. u_ID u = 1) ?d (sv_db sv')"
      "file_keys ?d \<and> accounted ?d \<longrightarrow> file_keys (sv_db sv') \<and> accounted (sv_db sv')"
      using Cons.IH [OF 2(6)] assms(1) by simp_all
    note gone = drop_user_rows_effect [of uid user "wdb w1"]
    have "users_stay (\<lambda>u. u_ID u = 1) (sv_db sv) (wdb w1)"
      using Delete_objects_users_stay [OF assms(1) 2(5,4)] 2(3) by simp
    moreover have "users_stay (\<lambda>u. u_ID u = 1) (wdb w1) ?d"
      unfolding users_stay_def
    proof (intro ballI impI)
      fix u assume "u \<in> set (users (wdb w1))" "u_ID u = 1"
      then have "u\<lparr>u_Storage := u_Storage u\<rparr> \<in> set (users ?d)" using gone(2) id 2(2) by auto
      then show "\<exists>n. u\<lparr>u_Storage := n\<rparr> \<in> set (users ?d)" ..
    qed
    ultimately have "users_stay (\<lambda>u. u_ID u = 1) (sv_db sv) (sv_db sv')"
      using users_stay_then [OF users_stay_then IH(1)] by simp
    moreover have "file_keys (sv_db sv') \<and> accounted (sv_db sv')" if k: "file_keys (sv_db sv)" "accounted (sv_db sv)"
    proof -
      have "accounted (wdb w1)" "file_keys (wdb w1)"
        using Delete_objects_effect(1,2) [OF assms(1) _ 2(4,5)] k 2(3) by simp_all
      then have "accounted ?d" "file_keys ?d"
        using gone by (auto simp: accounted_def file_keys_def)
      then show ?thesis using IH(2) by blast
    qed
    ultimately show ?thesis by blast
  qed
qed

end

section \<open>Settings\<close>

definition set_value :: "(gostring \<times> gostring) list \<Rightarrow> setting_row \<Rightarrow> setting_row" where
  "set_value options s =
     (case map_of (rev options) (st_Name s) of None \<Rightarrow> s | Some v \<Rightarrow> s\<lparr>st_Value := v\<rparr>)"

lemma set_value_Cons:
  "set_value ((k, v) # options) s = set_value options (if st_Name s = k then s\<lparr>st_Value := v\<rparr> else s)"
  by (auto simp: set_value_def map_add_def split: option.splits)

context gorm_db
begin

lemma change_settings_rows:
  "change_settings G options keys tx = Inr (keys', tx') \<Longrightarrow>
   tx' = tx\<lparr>settings := map (set_value options) (settings tx)\<rparr>"
proof (induction options arbitrary: keys tx)
  case Nil
  then show ?case by (simp add: set_value_def)
next
  case (Cons kv options)
  obtain k v where kv: "kv = (k, v)" by fastforce
  obtain tx1 where u: "Updates (Settings G) (\<lambda>r. st_Name r = k) (\<lambda>r. Some (r\<lparr>st_Value := v\<rparr>)) tx = Inr tx1"
    and rest: "change_settings G options (keys @ [k]) tx1 = Inr (keys', tx')"
    using Cons.prems kv by (auto split: sum.splits)
  from settings.update_rows [OF u]
  have "tx1 = tx\<lparr>settings := map (\<lambda>r. if st_Name r = k then r\<lparr>st_Value := v\<rparr> else r) (settings tx)\<rparr>" by simp
  with Cons.IH [OF rest] show ?case by (simp add: kv set_value_Cons)
qed

end

section \<open>Policies\<close>

lemma CleanCache_forgets: "cache_Get now (''policy_'' @ formatNat (p_ID pol)) (CleanCache pol ch) = None"
  by (simp add: cache_Get_def CleanCache_def cache_Deletes_def memo_Get_def memo_Delete_eq getValue_def)

context gorm_db
begin

lemma stored_policy:
  assumes "(if p_ID pol > 0 then Save (Policies G) pol d else Create (Policies G) pol d) = Inr (pol', d')"
    and "First (Policies G) (\<lambda>p. p_ID p = p_ID pol') d' = Inr q"
  shows "q = pol' \<and> pol' = pol\<lparr>p_ID := p_ID pol'\<rparr>"
proof -
  note first = gorm_table.first_row [OF policies assms(2)]
  show ?thesis
  proof (cases "p_ID pol > 0")
    case False
    then obtain i where "i \<notin> p_ID ` set (policies d)" "pol' = pol\<lparr>p_ID := i\<rparr>" "policies d' = policies d @ [pol']"
      using assms(1) gorm_table.create_row [OF policies, of pol d pol' d'] by auto
    then show ?thesis using first by auto
  next
    case True
    then have "Save (Policies G) pol d = Inr (pol', d')" using assms(1) by simp
    from gorm_table.save_row [OF policies this] consider
      "pol' = pol" "policies d' = map (\<lambda>x. if p_ID x = p_ID pol then pol' else x) (policies d)"
      | "p_ID pol \<notin> p_ID ` set (policies d)" "pol' = pol\<lparr>p_ID := p_ID pol\<rparr>" "policies d' = policies d @ [pol']"
      using True by auto
    then show ?thesis
    proof cases
      case 1
      then show ?thesis using first by (auto split: if_splits)
    next
      case 2
      then have "q = pol'" using first by (auto simp: image_iff)
      then show ?thesis using 2 by simp
    qed
  qed
qed

end

section \<open>Properties\<close>

text \<open>
  The first user of a site cannot be deleted: whichever users an administrator deletes, and
  however far that goes, that user's row is still there as it was, except for its storage.
\<close>
theorem initial_user_stays:
  assumes "gorm_db (orm S)" and "\<And>u. u_ID (preload S u) = u_ID u"
    and "DeleteUsers S ids sv = Some (r, sv')" and "u \<in> set (users (sv_db sv))" and "u_ID u = 1"
  shows "\<exists>n. u\<lparr>u_Storage := n\<rparr> \<in> set (users (sv_db sv'))"
  using gorm_db.DeleteUsers_effect [OF assms(1) refl assms(2,3)] assms(4,5) by (auto simp: users_stay_def)

text \<open>
  Deleting users keeps the storage accounting of those who remain, also when the files of a
  user could not all be deleted and the user is dropped nevertheless.
\<close>
theorem DeleteUsers_keeps_accounts:
  assumes "gorm_db (orm S)" and "\<And>u. u_ID (preload S u) = u_ID u"
    and "DeleteUsers S ids sv = Some (r, sv')" and "file_keys (sv_db sv)" and "accounted (sv_db sv)"
  shows "accounted (sv_db sv')"
  using gorm_db.DeleteUsers_effect [OF assms(1) refl assms(2,3)] assms(4,5) by blast

text \<open>
  Settings change together or not at all: when the answer is an error, every setting is as
  before; otherwise each has the last value the request gives for its name, or its old one.
\<close>
theorem settings_change_together:
  assumes "gorm_db G" and "ChangeSettings G options d ch = (r, d', ch')"
  shows "d' = (if r_Code r = 0 then d\<lparr>settings := map (set_value options) (settings d)\<rparr> else d)"
proof (cases "change_settings G options [] d")
  case (Inl keys)
  then show ?thesis using assms(2) by (auto simp: ChangeSettings_def DBErr_def Err_def CodeDBError_def Let_def)
next
  case (Inr kt)
  obtain keys tx where kt: "kt = (keys, tx)" by fastforce
  from gorm_db.change_settings_rows [OF assms(1) Inr [unfolded kt]] Inr kt assms(2) show ?thesis
    by (auto simp: ChangeSettings_def DBErr_def Err_def CodeDBError_def Let_def split: option.splits)
qed

text \<open>
  A policy that was saved is the one the server works with from then on: the next request for
  it gets what was saved, not what the cache held before.
\<close>
theorem saved_policy_is_used:
  assumes "gorm_db G" and "AddPolicy G pol d ch = (r, d', ch')" and "r_Data r = Some (AdID i)"
    and "GetPolicyByID G now i d' ch' = (Inr q, ch'')"
  shows "q = pol\<lparr>p_ID := i, p_DirNameRule :=
    if p_Type pol = ''local'' \<or> p_Type pol = ''remote'' then p_DirNameRule pol else trimPrefix (p_DirNameRule pol) ''/''\<rparr>"
proof -
  let ?pol = "if p_Type pol \<noteq> ''local'' \<and> p_Type pol \<noteq> ''remote''
    then pol\<lparr>p_DirNameRule := trimPrefix (p_DirNameRule pol) ''/''\<rparr> else pol"
  obtain pol' where s: "(if p_ID ?pol > 0 then Save (Policies G) ?pol d else Create (Policies G) ?pol d) = Inr (pol', d')"
    and i: "i = p_ID pol'" and ch: "ch' = CleanCache pol' ch"
    using assms(2,3) by (auto simp: AddPolicy_def Let_def ParamErr_def Err_def split: sum.splits)
  have "First (Policies G) (\<lambda>p. p_ID p = p_ID pol') d' = Inr q"
    using assms(4) CleanCache_forgets [of now pol' ch] by (auto simp: i ch GetPolicyByID_def Let_def split: sum.splits)
  from gorm_db.stored_policy [OF assms(1) s this] have "q = ?pol\<lparr>p_ID := i\<rparr>" by (simp add: i)
  then show ?thesis by auto
qed

text \<open>
  A node that was deleted gets no more work: whatever happened to the pool before, the node
  the balancer picks afterwards is another one.
\<close>
theorem deleted_node_gets_no_work:
  assumes "gorm_db G" and "ranges order" and "pool_reachable parses order (p, reps, n, told)"
    and "DeleteNode G order i d p = Some (r, d', p')" and "r_Code r = 0"
    and "BalanceNodeByFeature feature lb p' = (Inr a, lb')"
  shows "node_ID (np_store p' a) \<noteq> i"
proof -
  obtain node where n: "GetNodeByID G i d = Inr node" and del: "pool_Delete order (n_ID node) p = Some p'"
    using assms(4,5)
    by (auto simp: DeleteNode_def DBErr_def Err_def CodeDBError_def CodeNoPermissionErr_def Let_def
        split: sum.splits option.splits if_splits)
  have "n_ID node = i"
    using gorm_table.first_row [OF gorm_db.nodes [OF assms(1)]] n by (auto simp: GetNodeByID_def)
  with deleted_not_balanced [OF assms(2,3) del assms(6)] show ?thesis by simp
qed

text \<open>
  Deleting groups leaves no user without one: as long as the database can count the users of
  the group, it is deleted only when it has none.
\<close>
theorem DeleteGroup_keeps_groups:
  assumes "gorm_db G" and "Count (Users G) (\<lambda>u. u_GroupID u = i) d = Inr n"
    and "DeleteGroup G i d = (r, d')" and "u_GroupID ` set (users d) \<subseteq> g_ID ` set (groups d)"
  shows "u_GroupID ` set (users d') \<subseteq> g_ID ` set (groups d')"
proof (cases "d' = d")
  case True
  then show ?thesis using assms(4) by simp
next
  case False
  obtain g where g: "GetGroupByID G i d = Inr g" and none: "n = 0"
    and d': "d' = drop_rows (Groups G) (\<lambda>x. g_ID x = g_ID g) d"
    using False assms(2,3) by (auto simp: DeleteGroup_def count_rows_def split: sum.splits if_splits)
  have "g_ID g = i" using gorm_table.first_row [OF gorm_db.groups [OF assms(1)]] g by (auto simp: GetGroupByID_def)
  moreover have "u_GroupID u \<noteq> i" if "u \<in> set (users d)" for u
    using gorm_table.count_rows [OF gorm_db.users [OF assms(1)] assms(2)] none that by (auto simp: filter_empty_conv)
  moreover have "d' = d\<lparr>groups := filter (\<lambda>x. g_ID x \<noteq> g_ID g) (groups d)\<rparr>"
    using gorm_table.drop_rows_cases [OF gorm_db.groups [OF assms(1)], of "\<lambda>x. g_ID x = g_ID g" d] d' False by auto
  ultimately show ?thesis using assms(4) by fastforce
qed

section \<open>A site\<close>

text \<open>The first user, and the owner of the files of \<open>docs_db\<close>; two settings, and a node out of service.\<close>

definition admin_user :: user_row where
  "admin_user = zero_user\<lparr>u_ID := 1, u_GroupID := 1\<rparr>"

definition admin_db :: db where
  "admin_db = acc_db\<lparr>users := [admin_user, zero_user\<lparr>u_ID := 7, u_GroupID := 2, u_Storage := 11\<rparr>],
     groups := [zero_group\<lparr>g_ID := 1\<rparr>, zero_group\<lparr>g_ID := 2\<rparr>, zero_group\<lparr>g_ID := 4\<rparr>],
     settings := [\<lparr>st_ID = 1, st_Type = ''basic'', st_Name = ''siteName'', st_Value = ''a''\<rparr>,
       \<lparr>st_ID = 2, st_Type = ''basic'', st_Name = ''siteURL'', st_Value = ''b''\<rparr>],
     node_rows := [sample_node\<lparr>n_ID := 9, n_Status := NodeSuspend\<rparr>]\<rparr>"

definition admin_server :: "unit server" where
  "admin_server = \<lparr>sv_db = admin_db, sv_cache = memo_new, sv_disk = ()\<rparr>"

lemmas admin_simps = admin_server_def admin_db_def admin_user_def acc_simps

lemma admin_run: "\<exists>r sv'. DeleteUsers docs_sys [7, 1] admin_server = Some (r, sv') \<and> length (users (sv_db sv')) = 1"
  by (simp add: GetUserByID_def NewFileSystem_def DispatchHandler_def Root_def Delete_objects_def list_targets_def
      ListDeleteDirs_def GetRecursiveChildFolder_def grc_loop.simps max_levels_def GetChildFilesOfFolders_def
      RemoveFilesWithSoftLinks_def linked_def deleteGroupedFile_def GroupFileByPolicy_def delete_group_def
      GetPolicy_def GetPolicyByID_def cache_Get_def memo_Get_def getValue_def memo_new_def cache_Set_def memo_Set_def
      newItem_def null_handler_def SetTargetFile_def SetTargetDir_def delete_rows_def DeleteFiles_def commit_tx_def
      model_cond_def ChangeStorage_def by_key_def storage_expr_def not_failed_def DeleteShareBySourceIDs_def
      DeleteFolderByIDs_def write1_def drop_user_rows_def drop_rows_def reply_def server_of_def Let_def sound_simps admin_simps)

lemma initial_user_stays_witness:
  "\<exists>r sv' n. DeleteUsers docs_sys [7, 1] admin_server = Some (r, sv') \<and> admin_user\<lparr>u_Storage := n\<rparr> \<in> set (users (sv_db sv'))"
proof -
  from admin_run obtain r sv' where run: "DeleteUsers docs_sys [7, 1] admin_server = Some (r, sv')" by blast
  have "gorm_db (orm docs_sys)" "\<And>u. u_ID (preload docs_sys u) = u_ID u"
    by (simp_all add: docs_sys_def sound_gorm_laws)
  then have "\<exists>n. admin_user\<lparr>u_Storage := n\<rparr> \<in> set (users (sv_db sv'))"
    by (rule initial_user_stays [OF _ _ run]) (simp_all add: admin_simps)
  with run show ?thesis by blast
qed

lemma DeleteUsers_keeps_accounts_witness:
  "\<exists>r sv'. DeleteUsers docs_sys [7, 1] admin_server = Some (r, sv') \<and> accounted (sv_db sv')"
proof -
  from admin_run obtain r sv' where run: "DeleteUsers docs_sys [7, 1] admin_server = Some (r, sv')" by blast
  have "gorm_db (orm docs_sys)" "\<And>u. u_ID (preload docs_sys u) = u_ID u"
    by (simp_all add: docs_sys_def sound_gorm_laws)
  then have "accounted (sv_db sv')"
    by (rule DeleteUsers_keeps_accounts [OF _ _ run]) (simp_all add: admin_simps file_keys_def accounted_def)
  with run show ?thesis by blast
qed

lemma settings_change_together_witness:
  "map st_Value (settings (fst (snd (ChangeSettings sound_gorm [(''siteURL'', ''c''), (''siteURL'', ''d'')] admin_db
     (memo_new :: nat memo))))) = [''a'', ''d'']"
proof -
  let ?o = "[(''siteURL'', ''c''), (''siteURL'', ''d'')]"
  obtain r d' ch' where run: "ChangeSettings sound_gorm ?o admin_db (memo_new :: nat memo) = (r, d', ch')"
    by (metis prod_cases3)
  then have "r_Code r = 0" by (auto simp: ChangeSettings_def sound_simps admin_simps)
  with settings_change_together [OF sound_gorm_laws run]
  have "settings d' = map (set_value ?o) (settings admin_db)" by simp
  then show ?thesis unfolding run by (simp add: set_value_def admin_simps)
qed

definition new_policy :: policy where
  "new_policy = zero_policy\<lparr>p_ID := 1, p_Type := ''oss'', p_DirNameRule := ''/up''\<rparr>"

text \<open>The cache holds the policy as it was.\<close>

definition stale :: "cache_obj memo" where
  "stale = cache_Set 0 ''policy_1'' (CObj (CPolicy zero_policy)) (-1) memo_new"

lemma saved_policy_is_used_witness:
  "\<exists>r d' ch' q ch''. AddPolicy sound_gorm new_policy admin_db stale = (r, d', ch') \<and>
     GetPolicyByID sound_gorm 5 1 d' ch' = (Inr q, ch'') \<and> p_Type q = ''oss'' \<and> p_DirNameRule q = ''up''"
proof -
  obtain r d' ch' where add: "AddPolicy sound_gorm new_policy admin_db stale = (r, d', ch')" by (metis prod_cases3)
  have d: "r_Data r = Some (AdID 1)" "policies d' = [new_policy\<lparr>p_DirNameRule := ''up''\<rparr>]"
    "ch' = CleanCache (new_policy\<lparr>p_DirNameRule := ''up''\<rparr>) stale"
    using add by (auto simp: AddPolicy_def new_policy_def trimPrefix_def hasPrefix_def Let_def sound_simps admin_simps)
  have "cache_Get 5 (''policy_'' @ formatNat 1) ch' = None"
    using CleanCache_forgets [of 5 "new_policy\<lparr>p_DirNameRule := ''up''\<rparr>" stale] by (simp add: d(3)) (simp add: new_policy_def)
  then obtain q ch'' where get: "GetPolicyByID sound_gorm 5 1 d' ch' = (Inr q, ch'')"
    by (simp add: GetPolicyByID_def d(2) sound_simps) (simp add: new_policy_def)
  from saved_policy_is_used [OF sound_gorm_laws add d(1) get]
  have "p_Type q = ''oss'' \<and> p_DirNameRule q = ''up''"
    by (simp add: new_policy_def trimPrefix_def hasPrefix_def zero_policy_def)
  with add get show ?thesis by blast
qed

lemma deleted_node_gets_no_work_witness:
  "\<exists>r d' p' a lb'. DeleteNode sound_gorm sorted_list_of_set 9 admin_db sample_pool = Some (r, d', p') \<and>
     BalanceNodeByFeature ''aria2'' (NewBalancer ''RoundRobin'') p' = (Inr a, lb') \<and> node_ID (np_store p' a) \<noteq> 9"
proof -
  have "buildIndexMap sorted_list_of_set sample_pool = Some sample_pool"
  proof -
    have keys: "sorted_list_of_set (dom (np_active sample_pool)) = [7]" by (simp add: sample_pool_def)
    show ?thesis unfolding buildIndexMap_def keys
      by (simp add: featureGroup_def sample_pool_def IsFeatureEnabled_def sample_obj_def sample_node_def)
  qed
  then have pd: "pool_Delete sorted_list_of_set 9 sample_pool = Some sample_pool"
    by (simp add: pool_Delete_def Delete_locked_def) (simp add: sample_pool_def)
  then obtain d' where run: "DeleteNode sound_gorm sorted_list_of_set 9 admin_db sample_pool = Some (ok None, d', sample_pool)"
    by (simp add: DeleteNode_def GetNodeByID_def sound_simps admin_simps)
  have "BalanceNodeByFeature ''aria2'' (NewBalancer ''RoundRobin'') sample_pool = (Inr 0, \<lparr>current = 1\<rparr>)"
    by (simp add: BalanceNodeByFeature_def NextPeer_def NextIndex_def NewBalancer_def sample_pool_def)
  moreover from deleted_node_gets_no_work [OF sound_gorm_laws _ sample_reachable run _ this]
  have "node_ID (np_store sample_pool 0) \<noteq> 9" by (simp add: ranges_def)
  ultimately show ?thesis using run by blast
qed

lemma DeleteGroup_keeps_groups_witness:
  "\<exists>r d'. DeleteGroup sound_gorm 4 admin_db = (r, d') \<and> u_GroupID ` set (users d') \<subseteq> g_ID ` set (groups d') \<and>
     length (groups d') = 2"
proof -
  obtain r d' where run: "DeleteGroup sound_gorm 4 admin_db = (r, d')" by fastforce
  have "Count (Users sound_gorm) (\<lambda>u. u_GroupID u = 4) admin_db = Inr 0"
    by (simp add: sound_simps admin_simps)
  then have "u_GroupID ` set (users d') \<subseteq> g_ID ` set (groups d')"
    by (rule DeleteGroup_keeps_groups [OF sound_gorm_laws _ run]) (simp add: admin_simps zero_group_def)
  moreover have "length (groups d') = 2"
    using run by (auto simp: DeleteGroup_def GetGroupByID_def count_rows_def drop_rows_def sound_simps admin_simps zero_group_def)
  ultimately show ?thesis using run by blast
qed

end
