(* ===== verification/ServiceShare.thy ===== *)
theory ServiceShare
  imports ServiceExplorer
begin

text \<open>
  \<open>service/share\<close> with \<open>serializer/share.go\<close>: visiting a share (\<open>visit.go\<close>), and creating, changing
  and deleting shares (\<open>manage.go\<close>). The share and the user of a request are those the
  middleware found. Thumbnails and archives of shares are left out.
\<close>

section \<open>Answers (serializer/share.go)\<close>

record share_source =
  ss_Name :: gostring
  ss_Size :: u64

record share_creator =
  sc_Key :: gostring
  sc_Nick :: gostring
  sc_GroupName :: gostring

record share_view =
  sh_Key :: gostring
  sh_Locked :: bool
  sh_IsDir :: bool
  sh_CreateData :: unix_time
  sh_Downloads :: int
  sh_Views :: int
  sh_Expire :: int
  sh_Preview :: bool
  sh_Creator :: share_creator
  sh_Source :: "share_source option"

record share_item =
  si_Key :: gostring
  si_IsDir :: bool
  si_Password :: gostring
  si_CreateDate :: unix_time
  si_Downloads :: int
  si_RemainDownloads :: int
  si_Views :: int
  si_Expire :: int
  si_Preview :: bool
  si_Source :: "share_source option"

definition share_item_of :: "hashids \<Rightarrow> unix_time \<Rightarrow> share_row \<Rightarrow> share_item" where
  "share_item_of H now s =
     \<lparr>si_Key = HashID H (s_ID s) ShareID, si_IsDir = s_IsDir s, si_Password = s_Password s,
      si_CreateDate = s_CreatedAt s, si_Downloads = s_Downloads s, si_RemainDownloads = s_RemainDownloads s, si_Views = s_Views s,
      si_Expire = (case s_Expires s of None \<Rightarrow> -1 | Some e \<Rightarrow> e - now), si_Preview = s_PreviewEnabled s,
      si_Source =
        (if f_ID (s_File s) \<noteq> 0 then Some \<lparr>ss_Name = f_Name (s_File s), ss_Size = f_Size (s_File s)\<rparr>
         else if d_ID (s_Folder s) \<noteq> 0 then Some \<lparr>ss_Name = d_Name (s_Folder s), ss_Size = 0\<rparr>
         else None)\<rparr>"

definition BuildShareList :: "hashids \<Rightarrow> unix_time \<Rightarrow> share_row list \<Rightarrow> nat \<Rightarrow> nat \<times> share_item list" where
  "BuildShareList H now shs n = (n, map (share_item_of H now) shs)"

definition BuildShareResponse ::
  "gorm \<Rightarrow> (user_row \<Rightarrow> user_row) \<Rightarrow> hashids \<Rightarrow> unix_time \<Rightarrow> share_row \<Rightarrow> bool \<Rightarrow> db \<Rightarrow> share_view" where
  "BuildShareResponse G load H now share unlocked d =
     (let share1 = Creator G load share d;
          creator = s_User share1;
          resp = \<lparr>sh_Key = HashID H (s_ID share1) ShareID, sh_Locked = \<not> unlocked, sh_IsDir = False,
            sh_CreateData = s_CreatedAt share1, sh_Downloads = 0, sh_Views = 0, sh_Expire = 0, sh_Preview = False,
            sh_Creator = \<lparr>sc_Key = HashID H (u_ID creator) UserID, sc_Nick = u_Nick creator,
              sc_GroupName = g_Name (u_Group creator)\<rparr>, sh_Source = None\<rparr>
      in if \<not> unlocked then resp
         else
           resp\<lparr>sh_IsDir := s_IsDir share1, sh_Downloads := s_Downloads share1, sh_Views := s_Views share1,
             sh_Preview := s_PreviewEnabled share1,
             sh_Expire := (case s_Expires share1 of None \<Rightarrow> 0 | Some e \<Rightarrow> e - now),
             sh_Source := Some
               (if s_IsDir share1 then \<lparr>ss_Name = d_Name (s_Folder (SourceFolder G share1 d)), ss_Size = 0\<rparr>
                else (let f = s_File (SourceFile G share1 d) in \<lparr>ss_Name = f_Name f, ss_Size = f_Size f\<rparr>))\<rparr>)"

section \<open>Visiting (visit.go)\<close>

text \<open>
  Looking at a share: the right password unlocks it for the session, and every look at an
  unlocked share counts.
\<close>

definition share_Get ::
  "gorm \<Rightarrow> (user_row \<Rightarrow> user_row) \<Rightarrow> hashids \<Rightarrow> unix_time \<Rightarrow> gostring \<Rightarrow> gctx \<Rightarrow> (share_view \<times> gctx) option" where
  "share_Get G load H now password c =
     (case c_share c of
        None \<Rightarrow> None
      | Some share \<Rightarrow>
          (let key = unlock_key share;
               open0 = (s_Password share = [] \<or> key \<in> c_session c);
               enters = (\<not> open0 \<and> password \<noteq> [] \<and> password = s_Password share);
               unlocked = (open0 \<or> enters);
               c1 = (if enters then c\<lparr>c_session := insert key (c_session c)\<rparr> else c);
               (share1, d1) = (if unlocked then Viewed G share (c_db c1) else (share, c_db c1))
           in Some (BuildShareResponse G load H now share1 unlocked d1, c1\<lparr>c_db := d1, c_share := Some share1\<rparr>)))"

text \<open>The shares of a user's profile.\<close>

definition user_Get ::
  "gorm \<Rightarrow> (user_row \<Rightarrow> user_row) \<Rightarrow> hashids \<Rightarrow> unix_time \<Rightarrow> gostring \<Rightarrow> nat \<Rightarrow> uint \<Rightarrow> db \<Rightarrow>
   int + ((nat \<times> share_item list) \<times> share_creator)" where
  "user_Get G load H now typ page userID d =
     (case GetActivateUserByID G load userID d of
        Inl _ \<Rightarrow> Inl CodeNotFound
      | Inr user \<Rightarrow>
          (if u_ProfileOff user then Inl CodeNotFound
           else
             (let hotNum = (if typ = ''default'' then 10 else GetIntSetting G ''hot_share_num'' 10 d);
                  orderBy = (if typ = ''hot'' then ''views desc'' else ''create_at desc'');
                  (shs, n) = ListShares G (u_ID user) (int page) hotNum orderBy True d
              in Inr (BuildShareList H now (map (\<lambda>s. Source G s d) shs) n,
                   \<lparr>sc_Key = HashID H (u_ID user) UserID, sc_Nick = u_Nick user, sc_GroupName = g_Name (u_Group user)\<rparr>))))"

text \<open>The source of a share as the target of a file system.\<close>

definition source_target :: "gorm \<Rightarrow> share_row \<Rightarrow> db \<Rightarrow> target" where
  "source_target G share d =
     (if s_IsDir share then FolderObject (s_Folder (SourceFolder G share d))
      else FileObject (s_File (SourceFile G share d)))"

definition share_DownloadSession ::
  "'p svc_env \<Rightarrow> gostring \<Rightarrow> share_row \<Rightarrow> user_row \<Rightarrow> 'p server \<Rightarrow> 'p served_api" where
  "share_DownloadSession E path share user sv =
     with_fs (ssys E) (Some user) sv (\<lambda>w.
       case SetTargetByInterface (source_target (orm (ssys E)) share (wdb w)) w of
         (Some e, w1) \<Rightarrow> reply_err CodePolicyNotAllowed e w1
       | (None, w1) \<Rightarrow>
           (case (if s_IsDir share then
                    (case DirTarget w1 of
                       [] \<Rightarrow> (Some ErrPanic, w1)
                     | dir # _ \<Rightarrow> ResetFileIfNotExist (ssys E) path (w1\<lparr>FsRoot := Some dir\<rparr>))
                  else (None, w1)) of
              (Some e, w2) \<Rightarrow> reply_err CodeNotSet e w2
            | (None, w2) \<Rightarrow>
                (case GetDownloadURL (ssys E) Background 0 ''download_timeout'' w2 of
                   (Inl e, w3) \<Rightarrow> reply_err CodeNotSet e w3
                 | (Inr url, w3) \<Rightarrow> reply (ok (Some (DText url))) w3)))"

definition share_Preview ::
  "'p svc_env \<Rightarrow> gostring \<Rightarrow> bool \<Rightarrow> uint option \<Rightarrow> share_row \<Rightarrow> user_row option \<Rightarrow> 'p server \<Rightarrow> 'p served_api" where
  "share_Preview E path isText objectID share user sv =
     (case source_target (orm (ssys E)) share (sv_db sv) of
        FolderObject folder \<Rightarrow> PreviewContent E objectID None (Some (folder, path)) isText user sv
      | FileObject f \<Rightarrow> PreviewContent E objectID (Some f) None isText user sv
      | OtherObject \<Rightarrow> None)"

text \<open>Listing a shared folder works as its creator, below the folder.\<close>

definition share_List ::
  "'p svc_env \<Rightarrow> gostring \<Rightarrow> share_row \<Rightarrow> 'p server \<Rightarrow> ((fs_object list) response \<times> 'p server) option" where
  "share_List E path share sv =
     (let G = orm (ssys E) in
      if \<not> s_IsDir share then Some (ParamErr None, sv)
      else if \<not> isRooted path then Some (ParamErr None, sv)
      else
        (let share1 = Creator G (preload (ssys E)) share (sv_db sv) in
         case NewFileSystem (ssys E) (s_User share1) (sv_db sv) (sv_cache sv) (sv_disk sv) of
           (Some e, w) \<Rightarrow> reply_err CodePolicyNotAllowed e w
         | (None, w) \<Rightarrow>
             (let folder = s_Folder (SourceFolder G share1 (wdb w)) in
              case List_dir (ssys E) (HashID (hids (ssys E)) (s_ID share) ShareID) path None
                     (w\<lparr>FsRoot := Some (folder\<lparr>d_Name := ''/''\<rparr>)\<rparr>) of
                (Inl e, w1) \<Rightarrow> reply_err CodeCreateFolderFailed e w1
              | (Inr objects, w1) \<Rightarrow> reply (ok (Some objects)) w1)))"

definition share_Search ::
  "gorm \<Rightarrow> (gostring \<Rightarrow> gostring \<Rightarrow> bool) \<Rightarrow> hashids \<Rightarrow> unix_time \<Rightarrow> nat \<Rightarrow> gostring \<Rightarrow> gostring \<Rightarrow> gostring \<Rightarrow> db \<Rightarrow>
   nat \<times> share_item list" where
  "share_Search G like H now page orderBy order keywords d =
     (let (shs, n) = SearchShares G like now (int page) 18 (orderBy @ '' '' @ order) keywords d
      in BuildShareList H now (map (\<lambda>s. Source G s d) shs) n)"

definition share_ListOwn ::
  "gorm \<Rightarrow> hashids \<Rightarrow> unix_time \<Rightarrow> nat \<Rightarrow> gostring \<Rightarrow> gostring \<Rightarrow> user_row \<Rightarrow> db \<Rightarrow> nat \<times> share_item list" where
  "share_ListOwn G H now page orderBy order user d =
     (let (shs, n) = ListShares G (u_ID user) (int page) 18 (orderBy @ '' '' @ order) False d
      in BuildShareList H now (map (\<lambda>s. Source G s d) shs) n)"

section \<open>Managing (manage.go)\<close>

text \<open>The code of the answer, and the database.\<close>

definition share_DeleteOwn ::
  "gorm \<Rightarrow> (user_row \<Rightarrow> user_row) \<Rightarrow> hashids \<Rightarrow> gostring \<Rightarrow> user_row \<Rightarrow> db \<Rightarrow> int \<times> db" where
  "share_DeleteOwn G load H i user d =
     (case GetShareByHashID G H i d of
        None \<Rightarrow> (CodeNotFound, d)
      | Some share \<Rightarrow>
          (if u_ID (s_User (Creator G load share d)) \<noteq> u_ID user then (CodeNotFound, d)
           else case Share_Delete G share d of
             (Inl _, d') \<Rightarrow> (CodeDBError, d')
           | (Inr _, d') \<Rightarrow> (0, d')))"

definition share_UpdateOwn :: "gorm \<Rightarrow> gostring \<Rightarrow> gostring \<Rightarrow> gctx \<Rightarrow> (int \<times> db) option" where
  "share_UpdateOwn G prop val c =
     (case c_share c of
        None \<Rightarrow> None
      | Some share \<Rightarrow>
          (if prop = ''password'' then
             (case Share_Update G share (\<lambda>s. s\<lparr>s_Password := val\<rparr>) (c_db c) of
                (Inl _, d') \<Rightarrow> Some (CodeDBError, d') | (Inr _, d') \<Rightarrow> Some (0, d'))
           else if prop = ''preview_enabled'' then
             (case Share_Update G share (\<lambda>s. s\<lparr>s_PreviewEnabled := (val = ''true'')\<rparr>) (c_db c) of
                (Inl _, d') \<Rightarrow> Some (CodeDBError, d') | (Inr _, d') \<Rightarrow> Some (0, d'))
           else Some (0, c_db c)))"

record share_request =
  sq_SourceID :: gostring
  sq_IsDir :: bool
  sq_Password :: gostring
  sq_RemainDownloads :: int
  sq_Expire :: int
  sq_Preview :: bool

text \<open>An expiry is set only together with a limit on downloads. The answer is the share's id.\<close>

definition share_CreateNew ::
  "gorm \<Rightarrow> hashids \<Rightarrow> unix_time \<Rightarrow> share_request \<Rightarrow> user_row \<Rightarrow> db \<Rightarrow> (int + gostring) \<times> db" where
  "share_CreateNew G H now service user d =
     (if \<not> g_ShareEnabled (u_Group user) then (Inl CodeNoPermissionErr, d)
      else case DecodeHashID H (sq_SourceID service) (if sq_IsDir service then FolderID else FileID) of
        Inl _ \<Rightarrow> (Inl CodeNotFound, d)
      | Inr sourceID \<Rightarrow>
          (case (if sq_IsDir service then
                   (case GetFoldersByIDs G [sourceID] (u_ID user) d of
                      Inr (f # _) \<Rightarrow> Some (d_Name f) | _ \<Rightarrow> None)
                 else
                   (case GetFilesByIDs G [sourceID] (u_ID user) d of
                      Inr (f # _) \<Rightarrow> Some (f_Name f) | _ \<Rightarrow> None)) of
             None \<Rightarrow> (Inl CodeNotFound, d)
           | Some sourceName \<Rightarrow>
               (let limited = (sq_RemainDownloads service > 0);
                    newShare = zero_share\<lparr>s_Password := sq_Password service, s_IsDir := sq_IsDir service,
                      s_UserID := u_ID user, s_SourceID := sourceID,
                      s_RemainDownloads := (if limited then sq_RemainDownloads service else -1),
                      s_PreviewEnabled := sq_Preview service, s_SourceName := sourceName,
                      s_Expires := (if limited then Some (now + sq_Expire service) else None)\<rparr>
                in case Share_Create G newShare d of
                     (Inl _, d') \<Rightarrow> (Inl CodeDBError, d')
                   | (Inr i, d') \<Rightarrow> (Inr (HashID H i ShareID), d'))))"

section \<open>Properties\<close>

lemma Creator_fields:
  "s_ID (Creator G load share d) = s_ID share" "s_CreatedAt (Creator G load share d) = s_CreatedAt share"
  "s_User (Creator G load share d) =
     (if u_ID (s_User share) = 0 then (case GetUserByID G load (s_UserID share) d of Inl _ \<Rightarrow> zero_user | Inr u \<Rightarrow> u)
      else s_User share)"
  by (simp_all add: Creator_def)

text \<open>
  C15. A locked share reveals its number, its owner and when it was created, and nothing else: to
  a visitor whose session has not unlocked it and who does not give its password, two shares with
  passwords that have the same number, the same owner and the same time of creation look the same,
  if the password given is that of neither of them, whatever they share, how often they were seen and
  when they end; and the look leaves no trace in the database.
\<close>
theorem locked_share_reveals_nothing:
  assumes "c_share c = Some share" and "s_Password share \<noteq> []" and "unlock_key share \<notin> c_session c"
    and "password \<noteq> s_Password share"
    and "s_ID other = s_ID share" and "s_UserID other = s_UserID share" and "s_User other = s_User share"
    and "s_CreatedAt other = s_CreatedAt share"
    and "s_Password other \<noteq> []" and "password \<noteq> s_Password other"
  shows "map_option (\<lambda>(v, c'). (v, c_db c')) (share_Get G load H now password (c\<lparr>c_share := Some other\<rparr>)) =
    Some (fst (the (share_Get G load H now password c)), c_db c)"
proof -
  have "unlock_key other = unlock_key share" using assms(5) by (simp add: unlock_key_def)
  then show ?thesis
    using assms by (simp add: share_Get_def BuildShareResponse_def Creator_fields)
qed

theorem locked_share_reveals_nothing_witness:
  "map_option (\<lambda>(v, c'). (v, c_db c'))
     (share_Get sound_gorm (\<lambda>u. u) dot_hashids 0 ''guess''
       (share_request\<lparr>c_share := Some (zero_share\<lparr>s_ID := 4, s_Password := ''secret'', s_Views := 9\<rparr>)\<rparr>)) =
   Some (fst (the (share_Get sound_gorm (\<lambda>u. u) dot_hashids 0 ''guess''
     (share_request\<lparr>c_share := Some (zero_share\<lparr>s_ID := 4, s_Password := ''pw'', s_IsDir := True\<rparr>)\<rparr>))), c_db share_request)"
proof -
  let ?s = "zero_share\<lparr>s_ID := 4, s_Password := ''pw'', s_IsDir := True\<rparr>"
  let ?c = "share_request\<lparr>c_share := Some ?s\<rparr>"
  let ?o = "zero_share\<lparr>s_ID := 4, s_Password := ''secret'', s_Views := 9\<rparr>"
  have "map_option (\<lambda>(v, c'). (v, c_db c')) (share_Get sound_gorm (\<lambda>u. u) dot_hashids 0 ''guess'' (?c\<lparr>c_share := Some ?o\<rparr>)) =
    Some (fst (the (share_Get sound_gorm (\<lambda>u. u) dot_hashids 0 ''guess'' ?c)), c_db ?c)"
  proof (rule locked_share_reveals_nothing [where share = ?s and other = ?o])
    show "unlock_key ?s \<notin> c_session ?c" by (simp add: share_request_def)
  qed (simp_all add: zero_share_def)
  then show ?thesis by simp
qed

end
