(* ===== verification/WebdavXml.thy ===== *)
theory WebdavXml
  imports WebdavLock ModelsFolder
begin

text \<open>
  \<open>pkg/webdav/xml.go\<close> and \<open>prop.go\<close>, with the escaping of text in \<open>internal/xml\<close>: reading the
  bodies of requests, the live properties of files and folders, and writing multi-status
  answers. A body is what the decoder makes of it: its tokens, or the decoded element.
\<close>

section \<open>Text (internal/xml/xml.go)\<close>

text \<open>\<open>utf8.DecodeRune\<close>: the rune and its width, U+FFFD and 1 for an invalid byte.\<close>

definition cont_byte :: "nat \<Rightarrow> nat \<Rightarrow> gostring \<Rightarrow> nat option" where
  "cont_byte lo hi s =
     (case s of [] \<Rightarrow> None
      | c # _ \<Rightarrow> (let n = of_char c in if lo \<le> n \<and> n \<le> hi then Some (n - 128) else None))"

definition decodeRune :: "gostring \<Rightarrow> nat \<times> nat" where
  "decodeRune s =
     (case s of
        [] \<Rightarrow> (65533, 0)
      | c # s1 \<Rightarrow>
          (let b = of_char c :: nat in
           if b < 128 then (b, 1)
           else if 194 \<le> b \<and> b \<le> 223 then
             (case cont_byte 128 191 s1 of
                Some x \<Rightarrow> ((b - 192) * 64 + x, 2) | None \<Rightarrow> (65533, 1))
           else if 224 \<le> b \<and> b \<le> 239 then
             (case (cont_byte (if b = 224 then 160 else 128) (if b = 237 then 159 else 191) s1,
                    cont_byte 128 191 (drop 1 s1)) of
                (Some x, Some y) \<Rightarrow> ((b - 224) * 4096 + x * 64 + y, 3) | _ \<Rightarrow> (65533, 1))
           else if 240 \<le> b \<and> b \<le> 244 then
             (case (cont_byte (if b = 240 then 144 else 128) (if b = 244 then 143 else 191) s1,
                    cont_byte 128 191 (drop 1 s1), cont_byte 128 191 (drop 2 s1)) of
                (Some x, Some y, Some z) \<Rightarrow> ((b - 240) * 262144 + x * 4096 + y * 64 + z, 4)
              | _ \<Rightarrow> (65533, 1))
           else (65533, 1)))"

lemma decodeRune_width: "s \<noteq> [] \<Longrightarrow> 0 < snd (decodeRune s)"
  by (cases s) (auto simp: decodeRune_def Let_def split: option.splits)

definition isInCharacterRange :: "nat \<Rightarrow> bool" where
  "isInCharacterRange r \<longleftrightarrow>
     r = 9 \<or> r = 10 \<or> r = 13 \<or> 32 \<le> r \<and> r \<le> 57207 \<or> 57344 \<le> r \<and> r \<le> 65533 \<or> 65536 \<le> r \<and> r \<le> 1114111"

text \<open>What is written for a rune, \<open>None\<close> when its bytes are kept.\<close>

definition escape_rune :: "bool \<Rightarrow> nat \<Rightarrow> nat \<Rightarrow> gostring option" where
  "escape_rune escapeNewline r width =
     (if r = 34 then Some ''&#34;''
      else if r = 39 then Some ''&#39;''
      else if r = 38 then Some ''&amp;''
      else if r = 60 then Some ''&lt;''
      else if r = 62 then Some ''&gt;''
      else if r = 9 then Some ''&#x9;''
      else if r = 10 then (if \<not> escapeNewline then None else Some ''&#xA;'')
      else if r = 13 then Some ''&#xD;''
      else if \<not> isInCharacterRange r \<or> r = 65533 \<and> width = 1 then Some [CHR 239, CHR 191, CHR 189]
      else None)"

function escapeText :: "bool \<Rightarrow> gostring \<Rightarrow> gostring" where
  "escapeText escapeNewline s =
     (if s = [] then []
      else
        (let (r, width) = decodeRune s in
         (case escape_rune escapeNewline r width of Some esc \<Rightarrow> esc | None \<Rightarrow> take width s) @
         escapeText escapeNewline (drop width s)))"
  by pat_completeness auto

termination
proof (relation "measure (\<lambda>(n, s). length s)", goal_cases)
  case (2 n s x r width)
  then have "width = snd (decodeRune s)" by (metis snd_conv)
  with 2 decodeRune_width [of s] show ?case by (cases s) auto
qed simp

declare escapeText.simps [simp del]

definition EscapeText :: "gostring \<Rightarrow> gostring" where
  "EscapeText s = escapeText True s"

text \<open>Both callers skip the work when there is nothing to escape.\<close>

definition escape :: "gostring \<Rightarrow> gostring" where
  "escape s =
     (if \<exists>c \<in> set s. c \<in> {CHR 34, CHR ''&'', CHR 39, CHR ''<'', CHR ''>''} then EscapeText s else s)"

definition plain_char :: "char \<Rightarrow> bool" where
  "plain_char c \<longleftrightarrow>
     c = CHR '' '' \<or> c = CHR ''_'' \<or>
     (let n = of_char c :: nat in 43 \<le> n \<and> n \<le> 57 \<or> 65 \<le> n \<and> n \<le> 90 \<or> 97 \<le> n \<and> n \<le> 122)"

definition escapeXML :: "gostring \<Rightarrow> gostring" where
  "escapeXML s = (if list_all plain_char s then s else EscapeText s)"

section \<open>Files and folders (prop.go)\<close>

text \<open>\<open>FileInfo\<close>: what the models implement it with (\<open>models/file.go\<close>, \<open>models/folder.go\<close>).\<close>

datatype file_info = InfoFile file_row | InfoFolder folder_row

primrec GetSize :: "file_info \<Rightarrow> u64" where
  "GetSize (InfoFile f) = f_Size f"
| "GetSize (InfoFolder d) = 0"

primrec GetName :: "file_info \<Rightarrow> gostring" where
  "GetName (InfoFile f) = f_Name f"
| "GetName (InfoFolder d) = d_Name d"

primrec ModTime :: "file_info \<Rightarrow> unix_time" where
  "ModTime (InfoFile f) = f_UpdatedAt f"
| "ModTime (InfoFolder d) = d_UpdatedAt d"

primrec IsDir :: "file_info \<Rightarrow> bool" where
  "IsDir (InfoFile f) = False"
| "IsDir (InfoFolder d) = True"

primrec GetPosition :: "file_info \<Rightarrow> gostring" where
  "GetPosition (InfoFile f) = f_Position f"
| "GetPosition (InfoFolder d) = d_Position d"

section \<open>Properties (prop.go, xml.go)\<close>

record xml_name =
  Space :: gostring
  Local :: gostring

record dav_property =
  dp_XMLName :: xml_name
  dp_Lang :: gostring
  dp_InnerXML :: gostring

record proppatch =
  pp_Remove :: bool
  pp_Props :: "dav_property list"

record dav_propstat =
  ps_Props :: "dav_property list"
  ps_Status :: int
  ps_XMLError :: gostring
  ps_ResponseDescription :: gostring

abbreviation dav :: "gostring \<Rightarrow> xml_name" where
  "dav n \<equiv> \<lparr>Space = ''DAV:'', Local = n\<rparr>"

abbreviation named :: "xml_name \<Rightarrow> gostring \<Rightarrow> dav_property" where
  "named n v \<equiv> \<lparr>dp_XMLName = n, dp_Lang = [], dp_InnerXML = v\<rparr>"

definition propstat_of :: "int \<Rightarrow> dav_property list \<Rightarrow> dav_propstat" where
  "propstat_of status ps = \<lparr>ps_Props = ps, ps_Status = status, ps_XMLError = [], ps_ResponseDescription = []\<rparr>"

definition makePropstats :: "dav_propstat \<Rightarrow> dav_propstat \<Rightarrow> dav_propstat list" where
  "makePropstats x y =
     (let pstats = (if length (ps_Props x) \<noteq> 0 then [x] else []) @ (if length (ps_Props y) \<noteq> 0 then [y] else [])
      in if length pstats = 0 then [propstat_of 200 []] else pstats)"

text \<open>
  What the properties are computed with: \<open>UnixNano\<close> of a time, the format of HTTP times, the
  table of content types, and the order in which a range visits the names of \<open>liveProps\<close>.
\<close>

record prop_env =
  unixNano :: "unix_time \<Rightarrow> int"
  httpTime :: "unix_time \<Rightarrow> gostring"
  typeByExtension :: "gostring \<Rightarrow> gostring"
  live_order :: "xml_name list \<Rightarrow> xml_name list"

text \<open>\<open>%x\<close> of a number\<close>

definition hexDigit :: "nat \<Rightarrow> char" where
  "hexDigit d = ''0123456789abcdef'' ! (d mod 16)"

fun formatHex :: "nat \<Rightarrow> gostring" where
  "formatHex n = (if n < 16 then [hexDigit n] else formatHex (n div 16) @ [hexDigit (n mod 16)])"

declare formatHex.simps [simp del]

definition formatHexInt :: "int \<Rightarrow> gostring" where
  "formatHexInt i = (if i < 0 then CHR ''-'' # formatHex (nat (- i)) else formatHex (nat i))"

definition findResourceType :: "file_info \<Rightarrow> gostring" where
  "findResourceType fi = (if IsDir fi then ''<D:collection xmlns:D='' @ [CHR 34] @ ''DAV:'' @ [CHR 34] @ ''/>'' else [])"

definition findDisplayName :: "gostring \<Rightarrow> file_info \<Rightarrow> gostring" where
  "findDisplayName name fi = (if slashClean name = ''/'' then [] else escapeXML (GetName fi))"

definition findContentLength :: "file_info \<Rightarrow> gostring" where
  "findContentLength fi = formatNat (unat (GetSize fi))"

definition findLastModified :: "prop_env \<Rightarrow> file_info \<Rightarrow> gostring" where
  "findLastModified P fi = httpTime P (ModTime fi)"

definition findContentType :: "prop_env \<Rightarrow> gostring \<Rightarrow> gostring" where
  "findContentType P name = typeByExtension P (pathExt name)"

definition findETag :: "prop_env \<Rightarrow> file_info \<Rightarrow> gostring" where
  "findETag P fi =
     [CHR 34] @ formatHexInt (unixNano P (ModTime fi)) @ formatHex (unat (GetSize fi)) @ [CHR 34]"

definition findSupportedLock :: gostring where
  "findSupportedLock =
     ''<D:lockentry xmlns:D='' @ [CHR 34] @ ''DAV:'' @ [CHR 34] @ ''>'' @
     ''<D:lockscope><D:exclusive/></D:lockscope>'' @
     ''<D:locktype><D:write/></D:locktype>'' @
     ''</D:lockentry>''"

text \<open>The table: the function of a property, if it has one, and whether directories have it.\<close>

datatype find_fn = ResourceType | DisplayName | ContentLength | LastModified | ContentType | ETag | SupportedLock

definition liveProps :: "(xml_name \<times> find_fn option \<times> bool) list" where
  "liveProps =
     [(dav ''resourcetype'', Some ResourceType, True),
      (dav ''displayname'', Some DisplayName, True),
      (dav ''getcontentlength'', Some ContentLength, False),
      (dav ''getlastmodified'', Some LastModified, True),
      (dav ''creationdate'', None, False),
      (dav ''getcontentlanguage'', None, False),
      (dav ''getcontenttype'', Some ContentType, False),
      (dav ''getetag'', Some ETag, False),
      (dav ''lockdiscovery'', None, False),
      (dav ''supportedlock'', Some SupportedLock, True)]"

definition run_find :: "prop_env \<Rightarrow> find_fn \<Rightarrow> gostring \<Rightarrow> file_info \<Rightarrow> gostring" where
  "run_find P fn name fi =
     (case fn of
        ResourceType \<Rightarrow> findResourceType fi
      | DisplayName \<Rightarrow> findDisplayName name fi
      | ContentLength \<Rightarrow> findContentLength fi
      | LastModified \<Rightarrow> findLastModified P fi
      | ContentType \<Rightarrow> findContentType P name
      | ETag \<Rightarrow> findETag P fi
      | SupportedLock \<Rightarrow> findSupportedLock)"

text \<open>\<open>prop.findFn != nil && (prop.dir || !isDir)\<close>\<close>

definition live_fn :: "bool \<Rightarrow> xml_name \<Rightarrow> find_fn option" where
  "live_fn isDir pn =
     (case map_of liveProps pn of
        Some (Some fn, dir) \<Rightarrow> (if dir \<or> \<not> isDir then Some fn else None)
      | _ \<Rightarrow> None)"

fun props_loop :: "prop_env \<Rightarrow> file_info \<Rightarrow> xml_name list \<Rightarrow> dav_propstat \<Rightarrow> dav_propstat \<Rightarrow> dav_propstat \<times> dav_propstat" where
  "props_loop P fi [] ok nf = (ok, nf)"
| "props_loop P fi (pn # pns) ok nf =
     (case live_fn (IsDir fi) pn of
        Some fn \<Rightarrow> props_loop P fi pns (ok\<lparr>ps_Props := ps_Props ok @ [named pn (run_find P fn (GetName fi) fi)]\<rparr>) nf
      | None \<Rightarrow> props_loop P fi pns ok (nf\<lparr>ps_Props := ps_Props nf @ [named pn []]\<rparr>))"

definition props :: "prop_env \<Rightarrow> file_info \<Rightarrow> xml_name list \<Rightarrow> dav_propstat list" where
  "props P fi pnames =
     (let (pstatOK, pstatNotFound) = props_loop P fi pnames (propstat_of 200 []) (propstat_of 404 [])
      in makePropstats pstatOK pstatNotFound)"

definition propnames :: "prop_env \<Rightarrow> file_info \<Rightarrow> xml_name list" where
  "propnames P fi = filter (\<lambda>pn. live_fn (IsDir fi) pn \<noteq> None) (live_order P (map fst liveProps))"

definition allprop :: "prop_env \<Rightarrow> file_info \<Rightarrow> xml_name list \<Rightarrow> dav_propstat list" where
  "allprop P fi include =
     (let pnames = propnames P fi
      in props P fi (pnames @ filter (\<lambda>pn. pn \<notin> set pnames) include))"

definition is_live :: "dav_property \<Rightarrow> bool" where
  "is_live p \<longleftrightarrow> map_of liveProps (dp_XMLName p) \<noteq> None"

definition patch :: "proppatch list \<Rightarrow> dav_propstat list" where
  "patch patches =
     (let ps = concat (map pp_Props patches); bare = (\<lambda>p. named (dp_XMLName p) []) in
      if list_ex is_live ps then
        makePropstats
          ((propstat_of 403 (map bare (filter is_live ps)))
             \<lparr>ps_XMLError := ''<D:cannot-modify-protected-property xmlns:D='' @ [CHR 34] @ ''DAV:'' @ [CHR 34] @ ''/>''\<rparr>)
          (propstat_of 424 (map bare (filter (\<lambda>p. \<not> is_live p) ps)))
      else [propstat_of 200 (map bare ps)])"

section \<open>Request bodies (xml.go)\<close>

datatype webdav_error =
    ErrDestinationEqualsSource
  | ErrInvalidDepth
  | ErrInvalidDestination
  | ErrInvalidIfHeader
  | ErrInvalidLockInfo
  | ErrInvalidPropfind
  | ErrInvalidProppatch
  | ErrInvalidResponse
  | ErrInvalidTimeout
  | ErrNoLockSystem
  | ErrPrefixMismatch
  | ErrRecursionTooDeep
  | ErrUnsupportedLockInfo
  | ErrUnsupportedMethod
  | DecodeEOF
  | DecodeError
  | ErrMustNotBeEmpty
  | ErrUnexpectedToken
  | OtherError

text \<open>The tokens of a body; the end of the list is an error of the decoder.\<close>

datatype xml_token =
    StartElement xml_name "(xml_name \<times> gostring) list"
  | EndElement xml_name
  | CharData gostring
  | Comment gostring
  | ProcInst gostring gostring
  | Directive gostring

fun next_token :: "xml_token list \<Rightarrow> (xml_token \<times> xml_token list) option" where
  "next_token [] = None"
| "next_token (t # ts) =
     (case t of
        Comment _ \<Rightarrow> next_token ts
      | Directive _ \<Rightarrow> next_token ts
      | ProcInst _ _ \<Rightarrow> next_token ts
      | _ \<Rightarrow> Some (t, ts))"

lemma next_token_shorter: "next_token ts = Some (t, ts') \<Longrightarrow> length ts' < length ts"
  by (induction ts) (auto split: xml_token.splits)

text \<open>\<open>propfindProps.UnmarshalXML\<close>, between the start and the end of the element.\<close>

function unmarshal_names ::
  "xml_token list \<Rightarrow> xml_name list \<Rightarrow> webdav_error + (xml_name list \<times> xml_token list)" where
  "unmarshal_names ts pn =
     (case next_token ts of
        None \<Rightarrow> Inl DecodeError
      | Some (EndElement _, ts1) \<Rightarrow> (if length pn = 0 then Inl ErrMustNotBeEmpty else Inr (pn, ts1))
      | Some (StartElement name _, ts1) \<Rightarrow>
          (case next_token ts1 of
             None \<Rightarrow> Inl DecodeError
           | Some (EndElement _, ts2) \<Rightarrow> unmarshal_names ts2 (pn @ [name])
           | Some _ \<Rightarrow> Inl ErrUnexpectedToken)
      | Some (_, ts1) \<Rightarrow> unmarshal_names ts1 pn)"
  by pat_completeness auto

termination
  by (relation "measure (\<lambda>(ts, pn). length ts)") (auto dest!: next_token_shorter)

declare unmarshal_names.simps [simp del]

definition xmlLangName :: xml_name where
  "xmlLangName = \<lparr>Space = ''http://www.w3.org/XML/1998/namespace'', Local = ''lang''\<rparr>"

definition xmlLang :: "(xml_name \<times> gostring) list \<Rightarrow> gostring \<Rightarrow> gostring" where
  "xmlLang attrs d = (case map_of attrs xmlLangName of Some v \<Rightarrow> v | None \<Rightarrow> d)"

text \<open>\<open>propfind\<close>: \<open>None\<close> is a nil slice.\<close>

record propfind =
  pf_Allprop :: bool
  pf_Propname :: bool
  pf_Prop :: "xml_name list option"
  pf_Include :: "xml_name list option"

text \<open>
  A body: how many bytes were read, and the decoded element or the decoder's error. The
  result of reading one is the element, the status and the error.
\<close>

record 'a body =
  body_read :: nat
  body_decoded :: "webdav_error + 'a"

definition readPropfind :: "propfind body \<Rightarrow> (int \<times> webdav_error) + propfind" where
  "readPropfind r =
     (case body_decoded r of
        Inl err \<Rightarrow>
          (if err = DecodeEOF then
             (if body_read r = 0 then
                Inr \<lparr>pf_Allprop = True, pf_Propname = False, pf_Prop = None, pf_Include = None\<rparr>
              else Inl (400, ErrInvalidPropfind))
           else Inl (400, err))
      | Inr pf \<Rightarrow>
          (if \<not> pf_Allprop pf \<and> pf_Include pf \<noteq> None then Inl (400, ErrInvalidPropfind)
           else if pf_Allprop pf \<and> (pf_Prop pf \<noteq> None \<or> pf_Propname pf) then Inl (400, ErrInvalidPropfind)
           else if pf_Prop pf \<noteq> None \<and> pf_Propname pf then Inl (400, ErrInvalidPropfind)
           else if \<not> pf_Propname pf \<and> \<not> pf_Allprop pf \<and> pf_Prop pf = None then Inl (400, ErrInvalidPropfind)
           else Inr pf))"

record set_remove =
  sr_XMLName :: xml_name
  sr_Prop :: "dav_property list"

fun readProppatch_loop :: "set_remove list \<Rightarrow> proppatch list \<Rightarrow> (int \<times> webdav_error) + proppatch list" where
  "readProppatch_loop [] patches = Inr patches"
| "readProppatch_loop (op # ops) patches =
     (if sr_XMLName op = dav ''set'' then
        readProppatch_loop ops (patches @ [\<lparr>pp_Remove = False, pp_Props = sr_Prop op\<rparr>])
      else if sr_XMLName op = dav ''remove'' then
        (if list_ex (\<lambda>p. length (dp_InnerXML p) > 0) (sr_Prop op) then Inl (400, ErrInvalidProppatch)
         else readProppatch_loop ops (patches @ [\<lparr>pp_Remove = True, pp_Props = sr_Prop op\<rparr>]))
      else Inl (400, ErrInvalidProppatch))"

definition readProppatch :: "set_remove list body \<Rightarrow> (int \<times> webdav_error) + proppatch list" where
  "readProppatch r =
     (case body_decoded r of
        Inl err \<Rightarrow> Inl (400, err)
      | Inr ops \<Rightarrow> readProppatch_loop ops [])"

record lock_info =
  li_Exclusive :: bool
  li_Shared :: bool
  li_Write :: bool
  li_Owner :: gostring

definition readLockInfo :: "lock_info body \<Rightarrow> (int \<times> webdav_error) + lock_info option" where
  "readLockInfo r =
     (case body_decoded r of
        Inl err \<Rightarrow>
          (if err = DecodeEOF then
             (if body_read r = 0 then Inr None else Inl (400, ErrInvalidLockInfo))
           else Inl (400, err))
      | Inr li \<Rightarrow>
          (if \<not> li_Exclusive li \<or> li_Shared li \<or> \<not> li_Write li then Inl (501, ErrUnsupportedLockInfo)
           else Inr (Some li)))"

section \<open>Answers\<close>

text \<open>The response writer: its headers, the status written first, and what was written.\<close>

record dav_response =
  dr_Href :: "gostring list"
  dr_Propstat :: "(gostring \<times> dav_propstat) list"
  dr_Status :: gostring

datatype out = OutText gostring | OutMultistatus | OutResponse dav_response | OutEnd gostring | OutContent gostring

record response_writer =
  rw_Header :: "(gostring \<times> gostring) list"
  rw_Status :: "int option"
  rw_Body :: "out list"

definition WriteHeader :: "int \<Rightarrow> response_writer \<Rightarrow> response_writer" where
  "WriteHeader code rw = (case rw_Status rw of None \<Rightarrow> rw\<lparr>rw_Status := Some code\<rparr> | Some _ \<Rightarrow> rw)"

definition add_header :: "gostring \<Rightarrow> gostring \<Rightarrow> response_writer \<Rightarrow> response_writer" where
  "add_header k v rw = rw\<lparr>rw_Header := rw_Header rw @ [(k, v)]\<rparr>"

definition write_out :: "out \<Rightarrow> response_writer \<Rightarrow> response_writer" where
  "write_out t rw = (let rw1 = WriteHeader 200 rw in rw1\<lparr>rw_Body := rw_Body rw1 @ [t]\<rparr>)"

text \<open>
  \<open>multistatusWriter\<close>: whether its encoder exists, and the response writer; \<open>enc\<close> says whether the
  encoder takes a response. Writing to the connection succeeds.
\<close>

record multistatus =
  mw_enc :: bool
  mw_desc :: gostring
  mw_w :: response_writer

definition mw_writeHeader :: "multistatus \<Rightarrow> multistatus" where
  "mw_writeHeader mw =
     (if mw_enc mw then mw
      else mw\<lparr>mw_enc := True,
        mw_w := write_out OutMultistatus
          (WriteHeader 207 (add_header ''Content-Type'' ''text/xml; charset=utf-8'' (mw_w mw)))\<rparr>)"

definition mw_write :: "(dav_response \<Rightarrow> bool) \<Rightarrow> dav_response \<Rightarrow> multistatus \<Rightarrow> webdav_error option \<times> multistatus" where
  "mw_write enc r mw =
     (if length (dr_Href r) = 0 then (Some ErrInvalidResponse, mw)
      else if length (dr_Href r) = 1 \<and> (length (dr_Propstat r) > 0) \<noteq> (dr_Status r = []) then
        (Some ErrInvalidResponse, mw)
      else if length (dr_Href r) > 1 \<and> (length (dr_Propstat r) > 0 \<or> dr_Status r = []) then
        (Some ErrInvalidResponse, mw)
      else
        (let mw1 = mw_writeHeader mw in
         if enc r then (None, mw1\<lparr>mw_w := write_out (OutResponse r) (mw_w mw1)\<rparr>)
         else (Some OtherError, mw1)))"

definition mw_close :: "multistatus \<Rightarrow> multistatus" where
  "mw_close mw = (if \<not> mw_enc mw then mw else mw\<lparr>mw_w := write_out (OutEnd (mw_desc mw)) (mw_w mw)\<rparr>)"

text \<open>\<open>propstat.MarshalXML\<close>: the name a property is written with.\<close>

definition marshal_name :: "xml_name \<Rightarrow> xml_name" where
  "marshal_name n = (if Space n = ''DAV:'' then \<lparr>Space = [], Local = ''D:'' @ Local n\<rparr> else n)"

definition marshal_propstat :: "dav_propstat \<Rightarrow> dav_propstat" where
  "marshal_propstat ps = ps\<lparr>ps_Props := map (\<lambda>p. p\<lparr>dp_XMLName := marshal_name (dp_XMLName p)\<rparr>) (ps_Props ps)\<rparr>"

text \<open>A duration is divided by a second, towards zero.\<close>

definition writeLockInfo :: "gostring \<Rightarrow> lock_details \<Rightarrow> gostring" where
  "writeLockInfo tok ld =
     (let depth = (if lk_ZeroDepth ld then ''0'' else ''infinity'');
          d = lk_Duration ld;
          timeout = (if d < 0 then - (- d div 1000000000) else d div 1000000000);
          q = [CHR 34]; nl = [CHR 10]; tab = [CHR 9]
      in ''<?xml version='' @ q @ ''1.0'' @ q @ '' encoding='' @ q @ ''utf-8'' @ q @ ''?>'' @ nl @
         ''<D:prop xmlns:D='' @ q @ ''DAV:'' @ q @ ''><D:lockdiscovery><D:activelock>'' @ nl @
         tab @ ''<D:locktype><D:write/></D:locktype>'' @ nl @
         tab @ ''<D:lockscope><D:exclusive/></D:lockscope>'' @ nl @
         tab @ ''<D:depth>'' @ depth @ ''</D:depth>'' @ nl @
         tab @ ''<D:owner>'' @ lk_OwnerXML ld @ ''</D:owner>'' @ nl @
         tab @ ''<D:timeout>Second-'' @ formatInt timeout @ ''</D:timeout>'' @ nl @
         tab @ ''<D:locktoken><D:href>'' @ escape tok @ ''</D:href></D:locktoken>'' @ nl @
         tab @ ''<D:lockroot><D:href>'' @ escape (lk_Root ld) @ ''</D:href></D:lockroot>'' @ nl @
         ''</D:activelock></D:lockdiscovery></D:prop>'')"

section \<open>Escaped text\<close>

lemma cont_byte_high:
  "cont_byte lo hi s = Some x \<Longrightarrow> 128 \<le> lo \<Longrightarrow> \<exists>c r. s = c # r \<and> 128 \<le> (of_char c :: nat)"
  by (auto simp: cont_byte_def Let_def split: list.splits if_splits)

text \<open>The bytes of a rune: one below 128, which is the rune itself, or all of 128 and more.\<close>

lemma decodeRune_bytes:
  assumes "decodeRune s = (r, n)" and "s \<noteq> []" and "(r, n) \<noteq> (65533, 1)" and "c \<in> set (take n s)"
  shows "of_char c = r \<or> 128 \<le> (of_char c :: nat)"
proof -
  obtain c0 s1 where s: "s = c0 # s1" using assms(2) by (cases s) auto
  let ?b = "of_char c0 :: nat"
  consider "?b < 128" "(r, n) = (?b, 1)"
    | a t where "128 \<le> ?b" "n = 2" "s1 = a # t" "128 \<le> (of_char a :: nat)"
    | a b t where "128 \<le> ?b" "n = 3" "s1 = a # b # t" "128 \<le> (of_char a :: nat)" "128 \<le> (of_char b :: nat)"
    | a b d t where "128 \<le> ?b" "n = 4" "s1 = a # b # d # t" "128 \<le> (of_char a :: nat)"
        "128 \<le> (of_char b :: nat)" "128 \<le> (of_char d :: nat)"
    using assms(1,3) unfolding s decodeRune_def
    by (auto simp: Let_def drop_Suc numeral_2_eq_2 dest!: cont_byte_high split: if_splits option.splits)
  then show ?thesis
    by cases (use assms(4) in \<open>auto simp: s numeral_2_eq_2 numeral_3_eq_3 numeral_Bit0\<close>)
qed

abbreviation markup :: "char set" where
  "markup \<equiv> {CHR ''<'', CHR ''>'', CHR 34, CHR 39}"

lemma escape_rune_plain: "escape_rune nl r n = Some esc \<Longrightarrow> set esc \<inter> markup = {}"
  by (auto simp: escape_rune_def split: if_splits)

lemma escapeText_plain: "set (escapeText nl s) \<inter> markup = {}"
proof (induction nl s rule: escapeText.induct)
  case (1 nl s)
  obtain r n where d: "decodeRune s = (r, n)" by fastforce
  show ?case
  proof (cases "s = []")
    case False
    have "set (take n s) \<inter> markup = {}" if none: "escape_rune nl r n = None"
    proof -
      have "r \<noteq> 34 \<and> r \<noteq> 39 \<and> r \<noteq> 60 \<and> r \<noteq> 62" and "(r, n) \<noteq> (65533, 1)"
        using none by (auto simp: escape_rune_def isInCharacterRange_def split: if_splits)
      then have "of_char c \<noteq> (34 :: nat) \<and> of_char c \<noteq> (39 :: nat) \<and> of_char c \<noteq> (60 :: nat) \<and> of_char c \<noteq> (62 :: nat)"
        if "c \<in> set (take n s)" for c
        using decodeRune_bytes [OF d False _ that] by auto
      from this [of "CHR ''<''"] this [of "CHR ''>''"] this [of "CHR 34"] this [of "CHR 39"]
      show ?thesis by auto
    qed
    then show ?thesis
      using 1 [OF False d [symmetric] refl] d escape_rune_plain [of nl r n] False
      by (subst escapeText.simps) (auto split: option.splits)
  qed (simp add: escapeText.simps)
qed

lemma escapeXML_plain: "set (escapeXML s) \<inter> markup = {}"
proof -
  have "\<not> plain_char c" if "c \<in> markup" for c using that by (auto simp: plain_char_def)
  then show ?thesis
    using escapeText_plain [of True s] by (auto simp: escapeXML_def EscapeText_def list_all_iff simp del: insert_iff)
qed

text \<open>
  A display name cannot carry markup into an answer: whatever bytes the name of a file or
  folder has, the property \<open>displayname\<close> holds no angle bracket and no quote.
\<close>
theorem displayname_no_markup:
  "set (findDisplayName name fi) \<inter> {CHR ''<'', CHR ''>'', CHR 34, CHR 39} = {}"
  using escapeXML_plain [of "GetName fi"] by (simp add: findDisplayName_def)

end
