(* ===== verification/WebdavIf.thy ===== *)
theory WebdavIf
  imports WebdavLock
begin

text \<open>
  \<open>pkg/webdav/if.go\<close>: the lexer and the parser of the \<open>If\<close> header, a disjunction of lists of
  conditions. The parser's loops are recursions on what remains of the header, which
  every condition and every list shortens; a header that is refused is \<open>None\<close>.
\<close>

section \<open>The lexer\<close>

text \<open>Single-rune tokens have their rune as type.\<close>

datatype token_type = RuneToken char | ErrToken | EofToken | StrToken | NotToken | AngleToken | SquareToken

definition is_blank :: "char \<Rightarrow> bool" where
  "is_blank c \<longleftrightarrow> c = CHR 9 \<or> c = CHR '' ''"

definition is_delim :: "char \<Rightarrow> bool" where
  "is_delim c \<longleftrightarrow> c \<in> {CHR 9, CHR '' '', CHR ''('', CHR '')'', CHR ''<'', CHR ''>'', CHR ''['', CHR '']''}"

definition lex :: "gostring \<Rightarrow> token_type \<times> gostring \<times> gostring" where
  "lex s0 =
     (let s = dropWhile is_blank s0 in
      if s = [] then (EofToken, [], [])
      else
        (let i = length (takeWhile (\<lambda>c. \<not> is_delim c) s) in
         if i \<noteq> 0 then
           (let tokenStr = take i s; remaining = drop i s in
            if tokenStr = ''Not'' then (NotToken, [], remaining) else (StrToken, tokenStr, remaining))
         else if hd s = CHR ''<'' then
           (case indexByte s (CHR ''>'') of
              None \<Rightarrow> (ErrToken, [], [])
            | Some j \<Rightarrow> (AngleToken, take (j - 1) (drop 1 s), drop (j + 1) s))
         else if hd s = CHR ''['' then
           (case indexByte s (CHR '']'') of
              None \<Rightarrow> (ErrToken, [], [])
            | Some j \<Rightarrow> (SquareToken, take (j - 1) (drop 1 s), drop (j + 1) s))
         else (RuneToken (hd s), [], drop 1 s)))"

section \<open>The parser\<close>

record if_list =
  resourceTag :: gostring
  conditions :: "condition list"

definition parseCondition :: "gostring \<Rightarrow> (condition \<times> gostring) option" where
  "parseCondition s0 =
     (let (tokenType, tokenStr, s) = lex s0;
          (neg, tokenType, tokenStr, s) =
            (if tokenType = NotToken then (let (t, u, v) = lex s in (True, t, u, v))
             else (False, tokenType, tokenStr, s))
      in if tokenType = StrToken \<or> tokenType = AngleToken then
           Some (\<lparr>cond_Not = neg, cond_Token = tokenStr, cond_ETag = []\<rparr>, s)
         else if tokenType = SquareToken then
           Some (\<lparr>cond_Not = neg, cond_Token = [], cond_ETag = tokenStr\<rparr>, s)
         else None)"

lemma indexByte_less: "indexByte s c = Some j \<Longrightarrow> j < length s"
  by (auto simp: indexByte_def Let_def split: if_splits)

lemma lex_shorter:
  assumes "lex s = (t, str, r)" and "t \<noteq> EofToken" and "t \<noteq> ErrToken"
  shows "length r < length s"
proof -
  let ?s = "dropWhile is_blank s"
  have le: "length ?s \<le> length s" by (rule length_dropWhile_le)
  have ne: "?s \<noteq> []"
  proof
    assume "?s = []"
    then have "t = EofToken" using assms(1) by (simp add: lex_def Let_def del: dropWhile_eq_Nil_conv)
    with assms(2) show False by simp
  qed
  then obtain c rest where cs: "?s = c # rest" by (meson neq_Nil_conv)
  have "length r < length (c # rest)"
    using assms unfolding lex_def Let_def cs
    by (auto split: if_splits option.splits dest: indexByte_less)
  then have "length r < length ?s" by (simp only: cs)
  with le show ?thesis by simp
qed

lemma parseCondition_shorter: "parseCondition s = Some (c, r) \<Longrightarrow> length r < length s"
  by (auto simp: parseCondition_def Let_def split: prod.splits if_splits dest!: lex_shorter)

text \<open>The loop of \<open>parseList\<close>, after the parenthesis; \<open>conds\<close> are the conditions so far.\<close>

function parse_conditions :: "gostring \<Rightarrow> condition list \<Rightarrow> (condition list \<times> gostring) option" where
  "parse_conditions s conds =
     (case lex s of
        (tokenType, _, remaining) \<Rightarrow>
          (if tokenType = RuneToken (CHR '')'') then (if conds = [] then None else Some (conds, remaining))
           else
             (case parseCondition s of
                None \<Rightarrow> None
              | Some (c, remaining') \<Rightarrow> parse_conditions remaining' (conds @ [c]))))"
  by pat_completeness auto

termination
  by (relation "measure (\<lambda>(s, conds). length s)") (auto dest: parseCondition_shorter)

definition parseList :: "gostring \<Rightarrow> (if_list \<times> gostring) option" where
  "parseList s0 =
     (case lex s0 of
        (tokenType, _, s) \<Rightarrow>
          (if tokenType \<noteq> RuneToken (CHR ''('') then None
           else
             (case parse_conditions s [] of
                None \<Rightarrow> None
              | Some (conds, remaining) \<Rightarrow> Some (\<lparr>resourceTag = [], conditions = conds\<rparr>, remaining))))"

lemma parse_conditions_shorter: "parse_conditions s conds = Some (cs, r) \<Longrightarrow> length r < length s"
proof (induction s conds rule: parse_conditions.induct)
  case (1 s conds)
  obtain t u v where l: "lex s = (t, u, v)" by (metis prod_cases3)
  show ?case
  proof (cases "t = RuneToken (CHR '')'')")
    case True
    then show ?thesis using 1(2) l lex_shorter [OF l] by (auto split: if_splits)
  next
    case False
    then obtain c r' where p: "parseCondition s = Some (c, r')"
      using 1(2) l by (auto split: option.splits)
    then have "parse_conditions r' (conds @ [c]) = Some (cs, r)" using 1(2) l False by simp
    then show ?thesis using 1(1) [OF l [symmetric] refl False p refl] parseCondition_shorter [OF p] by simp
  qed
qed

declare parse_conditions.simps [simp del]

lemma parseList_shorter: "parseList s = Some (l, r) \<Longrightarrow> length r < length s"
  by (auto simp: parseList_def split: prod.splits if_splits option.splits
      dest!: lex_shorter parse_conditions_shorter)

function parseNoTagLists :: "gostring \<Rightarrow> if_list list \<Rightarrow> if_list list option" where
  "parseNoTagLists s acc =
     (case parseList s of
        None \<Rightarrow> None
      | Some (l, remaining) \<Rightarrow>
          (if remaining = [] then Some (acc @ [l]) else parseNoTagLists remaining (acc @ [l])))"
  by pat_completeness auto

termination
  by (relation "measure (\<lambda>(s, acc). length s)") (auto dest: parseList_shorter)

text \<open>\<open>n\<close> counts the lists since the last tag.\<close>

function parseTaggedLists :: "bool \<Rightarrow> gostring \<Rightarrow> nat \<Rightarrow> gostring \<Rightarrow> if_list list \<Rightarrow> if_list list option" where
  "parseTaggedLists first tag n s acc =
     (case lex s of
        (tokenType, tokenStr, remaining) \<Rightarrow>
          (if tokenType = AngleToken then
             (if \<not> first \<and> n = 0 then None else parseTaggedLists False tokenStr 0 remaining acc)
           else if tokenType = RuneToken (CHR ''('') then
             (case parseList s of
                None \<Rightarrow> None
              | Some (l, remaining') \<Rightarrow>
                  (if remaining' = [] then Some (acc @ [l\<lparr>resourceTag := tag\<rparr>])
                   else parseTaggedLists False tag (n + 1) remaining' (acc @ [l\<lparr>resourceTag := tag\<rparr>])))
           else None))"
  by pat_completeness auto

termination
  by (relation "measure (\<lambda>(first, tag, n, s, acc). length s)")
    (auto dest: parseList_shorter lex_shorter [OF sym])

definition parseIfHeader :: "gostring \<Rightarrow> if_list list option" where
  "parseIfHeader httpHeader =
     (let s = trimSpace httpHeader; tokenType = fst (lex s) in
      if tokenType = RuneToken (CHR ''('') then parseNoTagLists s []
      else if tokenType = AngleToken then parseTaggedLists True [] 0 s []
      else None)"

declare parseNoTagLists.simps [simp del] parseTaggedLists.simps [simp del]

section \<open>What the parser accepts\<close>

text \<open>
  A condition names a token or an entity tag, never with the bracket that closes it in the
  header; a list has a condition and a header a list.
\<close>

definition wf_condition :: "condition \<Rightarrow> bool" where
  "wf_condition c \<longleftrightarrow>
     cond_ETag c = [] \<and> CHR ''>'' \<notin> set (cond_Token c) \<or> cond_Token c = [] \<and> CHR '']'' \<notin> set (cond_ETag c)"

definition wf_if_list :: "if_list \<Rightarrow> bool" where
  "wf_if_list l \<longleftrightarrow>
     conditions l \<noteq> [] \<and> list_all wf_condition (conditions l) \<and> CHR ''>'' \<notin> set (resourceTag l)"

definition wf_if_header :: "if_list list \<Rightarrow> bool" where
  "wf_if_header ls \<longleftrightarrow> ls \<noteq> [] \<and> list_all wf_if_list ls"

lemma indexByte_take: "indexByte s c = Some j \<Longrightarrow> c \<notin> set (take j s)"
  by (auto simp: indexByte_def Let_def split: if_splits
      simp flip: takeWhile_eq_take dest!: set_takeWhileD)

lemma lex_token:
  assumes "lex s = (t, str, r)"
  shows "t = StrToken \<or> t = AngleToken \<Longrightarrow> CHR ''>'' \<notin> set str"
    and "t = SquareToken \<Longrightarrow> CHR '']'' \<notin> set str"
proof -
  let ?s = "dropWhile is_blank s"
  let ?i = "length (takeWhile (\<lambda>c. \<not> is_delim c) ?s)"
  have "CHR ''>'' \<notin> set (take ?i ?s)"
    by (auto simp flip: takeWhile_eq_take simp: is_delim_def dest!: set_takeWhileD)
  moreover have "CHR ''>'' \<notin> set (take (j - 1) (drop 1 ?s))" if "indexByte ?s (CHR ''>'') = Some j" for j
    using indexByte_take [OF that] by (cases j; cases ?s) (simp_all del: dropWhile_eq_Nil_conv)
  moreover have "CHR '']'' \<notin> set (take (j - 1) (drop 1 ?s))" if "indexByte ?s (CHR '']'') = Some j" for j
    using indexByte_take [OF that] by (cases j; cases ?s) (simp_all del: dropWhile_eq_Nil_conv)
  ultimately show "t = StrToken \<or> t = AngleToken \<Longrightarrow> CHR ''>'' \<notin> set str"
    and "t = SquareToken \<Longrightarrow> CHR '']'' \<notin> set str"
    using assms by (auto simp: lex_def Let_def simp del: dropWhile_eq_Nil_conv split: if_splits option.splits)
qed

lemma parseCondition_wf:
  assumes "parseCondition s = Some (c, r)"
  shows "wf_condition c"
proof -
  obtain t str s' where a: "lex s = (t, str, s')" by (metis prod_cases3)
  obtain t2 str2 s2 where b: "lex s' = (t2, str2, s2)" by (metis prod_cases3)
  show ?thesis
    using assms lex_token [OF a] lex_token [OF b]
    by (auto simp: parseCondition_def wf_condition_def a b Let_def split: if_splits)
qed

lemma parse_conditions_wf:
  "parse_conditions s cs0 = Some (cs, r) \<Longrightarrow> list_all wf_condition cs0 \<Longrightarrow> cs \<noteq> [] \<and> list_all wf_condition cs"
proof (induction s cs0 rule: parse_conditions.induct)
  case (1 s cs0)
  obtain t u v where l: "lex s = (t, u, v)" by (metis prod_cases3)
  show ?case
  proof (cases "t = RuneToken (CHR '')'')")
    case True
    then show ?thesis using 1(2,3) l by (auto simp: parse_conditions.simps [of s] split: if_splits)
  next
    case False
    then obtain c r' where p: "parseCondition s = Some (c, r')"
      using 1(2) l by (auto simp: parse_conditions.simps [of s] split: option.splits)
    then have "parse_conditions r' (cs0 @ [c]) = Some (cs, r)"
      using 1(2) l False by (simp add: parse_conditions.simps [of s])
    then show ?thesis using 1(1) [OF l [symmetric] refl False p refl] 1(3) parseCondition_wf [OF p] by simp
  qed
qed

lemma parseList_wf:
  assumes "parseList s = Some (l, r)"
  shows "resourceTag l = []" and "CHR ''>'' \<notin> set tag \<Longrightarrow> wf_if_list (l\<lparr>resourceTag := tag\<rparr>)"
proof -
  obtain t u v where l: "lex s = (t, u, v)" by (metis prod_cases3)
  show "resourceTag l = []" using assms l by (auto simp: parseList_def split: if_splits option.splits)
  show "wf_if_list (l\<lparr>resourceTag := tag\<rparr>)" if "CHR ''>'' \<notin> set tag"
    using assms l that
    by (auto simp: parseList_def wf_if_list_def split: if_splits option.splits dest!: parse_conditions_wf)
qed

lemma parseNoTagLists_wf:
  "parseNoTagLists s acc = Some ls \<Longrightarrow> list_all wf_if_list acc \<Longrightarrow> wf_if_header ls"
proof (induction s acc rule: parseNoTagLists.induct)
  case (1 s acc)
  then obtain l r where p: "parseList s = Some (l, r)"
    by (auto simp: parseNoTagLists.simps [of s] split: option.splits)
  have "wf_if_list l" using parseList_wf(2) [OF p, of "[]"] parseList_wf(1) [OF p] by (cases l) simp
  then show ?case using 1 p
    by (auto simp: parseNoTagLists.simps [of s] wf_if_header_def split: if_splits)
qed

lemma parseTaggedLists_wf:
  "parseTaggedLists first tag n s acc = Some ls \<Longrightarrow> list_all wf_if_list acc \<Longrightarrow> CHR ''>'' \<notin> set tag \<Longrightarrow>
   wf_if_header ls"
proof (induction first tag n s acc rule: parseTaggedLists.induct)
  case (1 first tag n s acc)
  obtain t u v where l: "lex s = (t, u, v)" by (metis prod_cases3)
  consider "t = AngleToken" | "t = RuneToken (CHR ''('')"
    using 1(3) l by (auto simp: parseTaggedLists.simps [of _ _ _ s] split: if_splits)
  then show ?case
  proof cases
    assume t: "t = AngleToken"
    then show ?thesis
      using 1(1) [OF l [symmetric] refl t] 1(3-5) l lex_token(1) [OF l]
      by (auto simp: parseTaggedLists.simps [of _ _ _ s] split: if_splits)
  next
    assume t: "t = RuneToken (CHR ''('')"
    then obtain k r where p: "parseList s = Some (k, r)"
      using 1(3) l by (auto simp: parseTaggedLists.simps [of _ _ _ s] split: option.splits)
    show ?thesis
      using 1(2) [OF l [symmetric] refl _ t p refl] 1(3-5) l t p parseList_wf(2) [OF p, of tag]
      by (auto simp: parseTaggedLists.simps [of _ _ _ s] wf_if_header_def split: if_splits)
  qed
qed

section \<open>Printing a header\<close>

definition render_condition :: "condition \<Rightarrow> gostring" where
  "render_condition c =
     (if cond_Not c then ''Not '' else []) @
     (if cond_ETag c = [] then CHR ''<'' # cond_Token c @ ''>'' else CHR ''['' # cond_ETag c @ '']'')"

definition render_list :: "if_list \<Rightarrow> gostring" where
  "render_list l = CHR ''('' # concat (map render_condition (conditions l)) @ '')''"

definition render_header :: "if_list list \<Rightarrow> gostring" where
  "render_header ls =
     (if list_all (\<lambda>l. resourceTag l = []) ls then concat (map render_list ls)
      else concat (map (\<lambda>l. CHR ''<'' # resourceTag l @ CHR ''>'' # render_list l) ls))"

lemma indexByte_append: "c \<notin> set t \<Longrightarrow> indexByte (t @ c # r) c = Some (length t)"
  by (simp add: indexByte_def takeWhile_append)

lemma lex_angle: "CHR ''>'' \<notin> set t \<Longrightarrow> lex (CHR ''<'' # t @ CHR ''>'' # r) = (AngleToken, t, r)"
  using indexByte_append [of "CHR ''>''" "CHR ''<'' # t" r] by (simp add: lex_def is_blank_def is_delim_def)

lemma lex_square: "CHR '']'' \<notin> set t \<Longrightarrow> lex (CHR ''['' # t @ CHR '']'' # r) = (SquareToken, t, r)"
  using indexByte_append [of "CHR '']''" "CHR ''['' # t" r] by (simp add: lex_def is_blank_def is_delim_def)

lemma lex_parens:
  "lex (CHR ''('' # r) = (RuneToken (CHR ''(''), [], r)" "lex (CHR '')'' # r) = (RuneToken (CHR '')''), [], r)"
  by (simp_all add: lex_def is_blank_def is_delim_def)

lemma lex_not: "lex (CHR ''N'' # CHR ''o'' # CHR ''t'' # CHR '' '' # r) = (NotToken, [], CHR '' '' # r)"
  by (simp add: lex_def is_blank_def is_delim_def)

lemma lex_blank: "lex (CHR '' '' # r) = lex r"
  by (simp add: lex_def is_blank_def)

lemmas lex_simps = lex_angle lex_angle [of "[]", simplified] lex_square lex_square [of "[]", simplified]
  lex_parens lex_not lex_blank

lemma parseCondition_render:
  assumes "wf_condition c"
  shows "parseCondition (render_condition c @ r) = Some (c, r)"
    and "\<exists>t u v. lex (render_condition c @ r) = (t, u, v) \<and> t \<noteq> RuneToken (CHR '')'')"
proof -
  obtain neg t e where c: "c = \<lparr>cond_Not = neg, cond_Token = t, cond_ETag = e\<rparr>" by (cases c)
  from assms consider "e = []" "CHR ''>'' \<notin> set t" | "e \<noteq> []" "t = []" "CHR '']'' \<notin> set e"
    by (cases "e = []") (auto simp: wf_condition_def c)
  then have "parseCondition (render_condition c @ r) = Some (c, r) \<and>
    fst (lex (render_condition c @ r)) \<noteq> RuneToken (CHR '')'')"
    by cases (cases neg; simp add: c parseCondition_def render_condition_def lex_simps)+
  then show "parseCondition (render_condition c @ r) = Some (c, r)"
    and "\<exists>t u v. lex (render_condition c @ r) = (t, u, v) \<and> t \<noteq> RuneToken (CHR '')'')"
    by (auto simp: prod_eq_iff)
qed

lemma parse_conditions_render:
  "list_all wf_condition cs \<Longrightarrow> acc @ cs \<noteq> [] \<Longrightarrow>
   parse_conditions (concat (map render_condition cs) @ CHR '')'' # r) acc = Some (acc @ cs, r)"
proof (induction cs arbitrary: acc)
  case Nil
  then show ?case by (simp add: parse_conditions.simps [of "_ # _"] lex_simps)
next
  case (Cons c cs)
  let ?r = "concat (map render_condition cs) @ CHR '')'' # r"
  from Cons.prems have "wf_condition c" by simp
  from parseCondition_render [OF this, of ?r] Cons show ?case
    by (auto simp: parse_conditions.simps [of "render_condition c @ _"])
qed

lemma parseList_render:
  assumes "wf_if_list l"
  shows "parseList (render_list l @ r) = Some (l\<lparr>resourceTag := []\<rparr>, r)"
  using assms parse_conditions_render [of "conditions l" "[]" r]
  by (simp add: parseList_def render_list_def wf_if_list_def lex_simps)

lemma render_list_not_Nil [simp]: "render_list l \<noteq> []"
  by (simp add: render_list_def)

lemma parseNoTagLists_render:
  "ls \<noteq> [] \<Longrightarrow> list_all wf_if_list ls \<Longrightarrow> list_all (\<lambda>l. resourceTag l = []) ls \<Longrightarrow>
   parseNoTagLists (concat (map render_list ls)) acc = Some (acc @ ls)"
proof (induction ls arbitrary: acc)
  case (Cons l ls)
  have "parseList (render_list l @ concat (map render_list ls)) = Some (l, concat (map render_list ls))"
    using parseList_render [of l] Cons.prems by (cases l) simp
  then show ?case using Cons
    by (cases "ls = []") (auto simp: neq_Nil_conv, (subst parseNoTagLists.simps, simp)+)
qed simp

lemma parseTaggedLists_render:
  "ls \<noteq> [] \<Longrightarrow> list_all wf_if_list ls \<Longrightarrow> first \<or> n \<noteq> 0 \<Longrightarrow>
   parseTaggedLists first tag n (concat (map (\<lambda>l. CHR ''<'' # resourceTag l @ CHR ''>'' # render_list l) ls)) acc =
   Some (acc @ ls)"
proof (induction ls arbitrary: first tag n acc)
  case (Cons l ls)
  let ?r = "concat (map (\<lambda>l. CHR ''<'' # resourceTag l @ CHR ''>'' # render_list l) ls)"
  have p: "parseList (render_list l @ ?r) = Some (l\<lparr>resourceTag := []\<rparr>, ?r)"
    using parseList_render Cons.prems by simp
  have o: "lex (render_list l @ ?r) = (RuneToken (CHR ''(''), [], concat (map render_condition (conditions l)) @ '')'' @ ?r)"
    by (simp add: render_list_def lex_simps)
  have "parseTaggedLists first tag n (CHR ''<'' # resourceTag l @ CHR ''>'' # render_list l @ ?r) acc =
      parseTaggedLists False (resourceTag l) 0 (render_list l @ ?r) acc"
    using Cons.prems by (subst parseTaggedLists.simps) (auto simp: lex_simps wf_if_list_def)
  also have "\<dots> = (if ?r = [] then Some (acc @ [l]) else parseTaggedLists False (resourceTag l) 1 ?r (acc @ [l]))"
    using p o by (subst parseTaggedLists.simps) simp
  also have "\<dots> = Some (acc @ l # ls)"
    using Cons.IH [of False 1] Cons.prems by (cases "ls = []") (auto simp: neq_Nil_conv)
  finally show ?case by simp
qed simp

section \<open>Properties\<close>

text \<open>
  Whatever header the parser accepts, what it returns is well formed: at least one list, no list
  without a condition, and no condition with both a token and an entity tag. \<open>lock.go\<close> promises that
  exactly one of them is set; a condition \<open>(<>)\<close> is accepted, and has neither.
\<close>

lemma parseIfHeader_wf:
  assumes "parseIfHeader httpHeader = Some ls"
  shows "ls \<noteq> [] \<and> (\<forall>l \<in> set ls. conditions l \<noteq> [] \<and>
    (\<forall>c \<in> set (conditions l). cond_Token c = [] \<or> cond_ETag c = []))"
proof -
  have "wf_if_header ls"
    using assms parseNoTagLists_wf [of "trimSpace httpHeader" "[]" ls]
      parseTaggedLists_wf [of True "[]" 0 "trimSpace httpHeader" "[]" ls]
    by (auto simp: parseIfHeader_def Let_def split: if_splits)
  then show ?thesis
    by (auto simp: wf_if_header_def wf_if_list_def list_all_iff wf_condition_def dest!: bspec)
qed

lemma parseIfHeader_empty_condition:
  "parseIfHeader ''(<>)'' = Some [\<lparr>resourceTag = [], conditions = [\<lparr>cond_Not = False, cond_Token = [], cond_ETag = []\<rparr>]\<rparr>]"
  by code_simp

lemma trimSpace_id:
  assumes "s \<noteq> []" and "\<not> isSpace (hd s)" and "\<not> isSpace (last s)"
  shows "trimSpace s = s"
proof -
  have "dropWhile isSpace s = s" and "dropWhile isSpace (rev s) = rev s"
    using assms by (simp_all add: dropWhile_eq_self_iff hd_rev)
  then show ?thesis by (simp add: trimSpace_def)
qed

lemma render_header_hd:
  assumes "ls \<noteq> []"
  shows "render_header ls \<noteq> []" and "last (render_header ls) = CHR '')''"
    and "hd (render_header ls) = (if list_all (\<lambda>l. resourceTag l = []) ls then CHR ''('' else CHR ''<'')"
proof -
  obtain l k where l: "ls = l # tl ls" and k: "ls = butlast ls @ [k]"
    using assms by (metis append_butlast_last_id list.collapse)
  show "render_header ls \<noteq> []"
    by (subst l) (simp add: render_header_def)
  show "last (render_header ls) = CHR '')''"
    by (subst k) (simp add: render_header_def render_list_def)
  show "hd (render_header ls) = (if list_all (\<lambda>l. resourceTag l = []) ls then CHR ''('' else CHR ''<'')"
    by (subst l, subst (2) l) (simp add: render_header_def render_list_def)
qed

text \<open>
  C40. Printing and parsing an \<open>If\<close> header round-trips: every well-formed disjunction of lists,
  tagged or not, with tokens, entity tags and negations, is read back as it was printed.
\<close>
theorem parseIfHeader_round_trip:
  assumes "wf_if_header ls"
  shows "parseIfHeader (render_header ls) = Some ls"
proof -
  have ne: "ls \<noteq> []" and wf: "list_all wf_if_list ls" using assms by (simp_all add: wf_if_header_def)
  have "trimSpace (render_header ls) = render_header ls"
    by (rule trimSpace_id) (use render_header_hd [OF ne] in \<open>auto simp: isSpace_def\<close>)
  moreover have "parseNoTagLists (render_header ls) [] = Some ls" if "list_all (\<lambda>l. resourceTag l = []) ls"
    using parseNoTagLists_render [OF ne wf that, of "[]"] that by (simp add: render_header_def)
  moreover have "parseTaggedLists True [] 0 (render_header ls) [] = Some ls"
    if "\<not> list_all (\<lambda>l. resourceTag l = []) ls"
    using parseTaggedLists_render [OF ne wf, of True 0 "[]" "[]"] that by (simp add: render_header_def)
  moreover have "fst (lex (render_header ls)) =
    (if list_all (\<lambda>l. resourceTag l = []) ls then RuneToken (CHR ''('') else AngleToken)"
    using ne wf by (cases ls) (auto simp: render_header_def render_list_def lex_simps wf_if_list_def)
  ultimately show ?thesis by (simp add: parseIfHeader_def)
qed

theorem parseIfHeader_round_trip_witness:
  "parseIfHeader ''</a>(Not <t>[e])'' =
   Some [\<lparr>resourceTag = ''/a'', conditions = [\<lparr>cond_Not = True, cond_Token = ''t'', cond_ETag = []\<rparr>,
     \<lparr>cond_Not = False, cond_Token = [], cond_ETag = ''e''\<rparr>]\<rparr>]"
  using parseIfHeader_round_trip [of "[\<lparr>resourceTag = ''/a'',
      conditions = [\<lparr>cond_Not = True, cond_Token = ''t'', cond_ETag = []\<rparr>,
        \<lparr>cond_Not = False, cond_Token = [], cond_ETag = ''e''\<rparr>]\<rparr>]"]
  by (simp add: wf_if_header_def wf_if_list_def wf_condition_def render_header_def render_list_def render_condition_def)

end
