(* ===== verification/WebdavHandler.thy ===== *)
theory WebdavHandler
  imports FsUpload WebdavXml WebdavIf
begin

text \<open>
  \<open>pkg/webdav/webdav.go\<close> and \<open>file.go\<close>: the handlers of the WebDAV methods, and
  \<open>ServeWebDAV\<close> of \<open>routers/controllers/webdav.go\<close>, on the file system.

  A handler gives a status and an error, a world and what was answered; status 0 means that the
  handler wrote its own answer. \<open>None\<close> is a panic, or a call that does not return. The
  parsing of URLs, the surroundings of the file system and of the properties, the
  encoder of answers and the clock are the parameter \<open>'p dav_env\<close>. Releasing locks and
  recycling file systems do nothing in the code.
\<close>

section \<open>Headers\<close>

definition infiniteTimeout :: int where "infiniteTimeout = -1"

definition parseTimeout :: "gostring \<Rightarrow> webdav_error + int" where
  "parseTimeout s0 =
     (if s0 = [] then Inr infiniteTimeout
      else
        (let s1 = (case indexByte s0 (CHR '','') of Some i \<Rightarrow> take i s0 | None \<Rightarrow> s0);
             s2 = trimSpace s1
         in if s2 = ''Infinite'' then Inr infiniteTimeout
            else if \<not> hasPrefix s2 ''Second-'' then Inl ErrInvalidTimeout
            else
              (let s = drop (length ''Second-'') s2 in
               if s = [] \<or> digitVal (hd s) = None then Inl ErrInvalidTimeout
               else case parseInt s of
                 None \<Rightarrow> Inl ErrInvalidTimeout
               | Some n \<Rightarrow> (if 4294967295 < n then Inl ErrInvalidTimeout else Inr (n * 1000000000)))))"

definition infiniteDepth :: int where "infiniteDepth = -1"
definition invalidDepth :: int where "invalidDepth = -2"

definition parseDepth :: "gostring \<Rightarrow> int" where
  "parseDepth s =
     (if s = ''0'' then 0 else if s = ''1'' then 1 else if s = ''infinity'' then infiniteDepth else invalidDepth)"

section \<open>Status codes\<close>

text \<open>\<open>http.StatusText\<close>\<close>

definition http_StatusText :: "int \<Rightarrow> gostring" where
  "http_StatusText code =
     (case map_of
       [(100, ''Continue''), (101, ''Switching Protocols''), (102, ''Processing''), (103, ''Early Hints''),
        (200, ''OK''), (201, ''Created''), (202, ''Accepted''), (203, ''Non-Authoritative Information''),
        (204, ''No Content''), (205, ''Reset Content''), (206, ''Partial Content''), (207, ''Multi-Status''),
        (208, ''Already Reported''), (226, ''IM Used''),
        (300, ''Multiple Choices''), (301, ''Moved Permanently''), (302, ''Found''), (303, ''See Other''),
        (304, ''Not Modified''), (305, ''Use Proxy''), (307, ''Temporary Redirect''), (308, ''Permanent Redirect''),
        (400, ''Bad Request''), (401, ''Unauthorized''), (402, ''Payment Required''), (403, ''Forbidden''),
        (404, ''Not Found''), (405, ''Method Not Allowed''), (406, ''Not Acceptable''),
        (407, ''Proxy Authentication Required''), (408, ''Request Timeout''), (409, ''Conflict''), (410, ''Gone''),
        (411, ''Length Required''), (412, ''Precondition Failed''), (413, ''Request Entity Too Large''),
        (414, ''Request URI Too Long''), (415, ''Unsupported Media Type''),
        (416, ''Requested Range Not Satisfiable''), (417, ''Expectation Failed''), (418, ''I'' @ [CHR 39] @ ''m a teapot''),
        (421, ''Misdirected Request''), (422, ''Unprocessable Entity''), (423, ''Locked''), (424, ''Failed Dependency''),
        (425, ''Too Early''), (426, ''Upgrade Required''), (428, ''Precondition Required''), (429, ''Too Many Requests''),
        (431, ''Request Header Fields Too Large''), (451, ''Unavailable For Legal Reasons''),
        (500, ''Internal Server Error''), (501, ''Not Implemented''), (502, ''Bad Gateway''),
        (503, ''Service Unavailable''), (504, ''Gateway Timeout''), (505, ''HTTP Version Not Supported''),
        (506, ''Variant Also Negotiates''), (507, ''Insufficient Storage''), (508, ''Loop Detected''),
        (510, ''Not Extended''), (511 :: int, ''Network Authentication Required'')] code of
        Some t \<Rightarrow> t | None \<Rightarrow> [])"

definition StatusText :: "int \<Rightarrow> gostring" where
  "StatusText code =
     (if code = 207 then ''Multi-Status''
      else if code = 422 then ''Unprocessable Entity''
      else if code = 423 then ''Locked''
      else if code = 424 then ''Failed Dependency''
      else if code = 507 then ''Insufficient Storage''
      else http_StatusText code)"

section \<open>Requests and handlers\<close>

record request =
  rq_Method :: gostring
  rq_Path :: gostring
  rq_Destination :: gostring
  rq_Depth :: gostring
  rq_Overwrite :: gostring
  rq_Timeout :: gostring
  rq_ContentLengthHeader :: gostring
  rq_ContentLength :: int
  rq_Body :: gostring
  rq_Propfind :: "propfind body"
  rq_Proppatch :: "set_remove list body"

record 'p dav_env =
  dsys :: "'p sys"
  drun :: "'p hook_runner"
  dprops :: prop_env
  encodes :: "dav_response \<Rightarrow> bool"
  urlPath :: "gostring \<Rightarrow> gostring option"
  nowNano :: int

datatype dav_err = DavErr webdav_error | FsErr fs_error | NumErr

type_synonym 'p served = "((int \<times> dav_err option) \<times> 'p world \<times> response_writer) option"

record dav_handler =
  Prefix :: gostring
  LockSystem :: "(uint \<rightharpoonup> memLS) option"

text \<open>An error of the file system that is a panic ends the handler.\<close>

definition fails :: "int \<Rightarrow> fs_error \<Rightarrow> 'p world \<Rightarrow> response_writer \<Rightarrow> 'p served" where
  "fails status e w rw = (if e = ErrPanic then None else Some ((status, Some (FsErr e)), w, rw))"

definition stripPrefix :: "dav_handler \<Rightarrow> gostring \<Rightarrow> (int \<times> webdav_error) + gostring" where
  "stripPrefix h p =
     (if Prefix h = [] then Inr p
      else
        (let r = trimPrefix p (Prefix h) in
         if length r < length p then Inr (RemoveSlash (if length r = 0 then ''/'' else r))
         else Inl (404, ErrPrefixMismatch)))"

definition isPathExist :: "'p dav_env \<Rightarrow> 'p world \<Rightarrow> gostring \<Rightarrow> file_info option" where
  "isPathExist E w path =
     (case IsPathExist (orm (dsys E)) w path of
        (True, Some folder) \<Rightarrow> Some (InfoFolder folder)
      | _ \<Rightarrow>
          (case IsFileExist (orm (dsys E)) w path of
             (True, f) \<Rightarrow> Some (InfoFile f)
           | (False, _) \<Rightarrow> None))"

definition handleOptions :: "dav_handler \<Rightarrow> 'p dav_env \<Rightarrow> request \<Rightarrow> 'p world \<Rightarrow> response_writer \<Rightarrow> 'p served" where
  "handleOptions h E r w rw =
     (case stripPrefix h (rq_Path r) of
        Inl (status, e) \<Rightarrow> Some ((status, Some (DavErr e)), w, rw)
      | Inr reqPath \<Rightarrow>
          (let allow =
             (case isPathExist E w reqPath of
                None \<Rightarrow> ''OPTIONS, LOCK, PUT, MKCOL''
              | Some fi \<Rightarrow>
                  (if IsDir fi then ''OPTIONS, LOCK, DELETE, PROPPATCH, COPY, MOVE, UNLOCK, PROPFIND''
                   else ''OPTIONS, LOCK, GET, HEAD, POST, DELETE, PROPPATCH, COPY, MOVE, UNLOCK, PROPFIND, PUT''))
           in Some ((0, None), w,
                add_header ''MS-Author-Via'' ''DAV'' (add_header ''DAV'' ''1, 2'' (add_header ''Allow'' allow rw)))))"

text \<open>Without content there is nothing to close, and the handler panics.\<close>

definition handleGetHeadPost :: "dav_handler \<Rightarrow> 'p dav_env \<Rightarrow> request \<Rightarrow> 'p world \<Rightarrow> response_writer \<Rightarrow> 'p served" where
  "handleGetHeadPost h E r w rw =
     (case stripPrefix h (rq_Path r) of
        Inl (status, e) \<Rightarrow> Some ((status, Some (DavErr e)), w, rw)
      | Inr reqPath \<Rightarrow>
          (case IsFileExist (orm (dsys E)) w reqPath of
             (False, _) \<Rightarrow> Some ((404, None), w, rw)
           | (True, f) \<Rightarrow>
               (case Preview (dsys E) Background 0 False (SetTargetFile [f] w) of
                  (Inl e, w1) \<Rightarrow> fails (if e = ErrObjectNotExist then 404 else 500) e w1 rw
                | (Inr rs, w1) \<Rightarrow>
                    (let rw1 = add_header ''ETag'' (findETag (dprops E) (InfoFile (hd (FileTarget w1)))) rw in
                     case rs of
                       Content None \<Rightarrow> None
                     | Content (Some content) \<Rightarrow> Some ((0, None), w1, write_out (OutContent content) rw1)
                     | Redirect url _ \<Rightarrow>
                         Some ((0, None), w1, WriteHeader 301 (add_header ''Location'' url rw1))))))"

definition handleDelete :: "dav_handler \<Rightarrow> 'p dav_env \<Rightarrow> request \<Rightarrow> 'p world \<Rightarrow> response_writer \<Rightarrow> 'p served" where
  "handleDelete h E r w rw =
     (case stripPrefix h (rq_Path r) of
        Inl (status, e) \<Rightarrow> Some ((status, Some (DavErr e)), w, rw)
      | Inr reqPath \<Rightarrow>
          (case IsFileExist (orm (dsys E)) w reqPath of
             (True, f) \<Rightarrow>
               (case Delete_objects (dsys E) [] [f_ID f] False w of
                  (Some e, w1) \<Rightarrow> fails 405 e w1 rw
                | (None, w1) \<Rightarrow> Some ((204, None), w1, rw))
           | (False, _) \<Rightarrow>
               (case IsPathExist (orm (dsys E)) w reqPath of
                  (True, Some folder) \<Rightarrow>
                    (case Delete_objects (dsys E) [d_ID folder] [] False w of
                       (Some e, w1) \<Rightarrow> fails 405 e w1 rw
                     | (None, w1) \<Rightarrow> Some ((204, None), w1, rw))
                | _ \<Rightarrow> Some ((404, None), w, rw))))"

text \<open>The hooks of an update and of a new file, in the order in which they are added.\<close>

definition use_all :: "(gostring \<times> hook) list \<Rightarrow> 'p world \<Rightarrow> 'p world" where
  "use_all hs w = foldl (\<lambda>w (name, hk). Use name hk w) w hs"

definition softlink_hooks :: "(gostring \<times> hook) list" where
  "softlink_hooks =
     [(''AfterUpload'', HookUpdateSourceName), (''AfterUploadCanceled'', HookUpdateSourceName),
      (''AfterValidateFailed'', HookUpdateSourceName)]"

definition update_hooks :: "(gostring \<times> hook) list" where
  "update_hooks =
     [(''BeforeUpload'', HookResetPolicy), (''BeforeUpload'', HookValidateFile),
      (''BeforeUpload'', HookValidateCapacityDiff), (''AfterUploadCanceled'', HookCleanFileContent),
      (''AfterUploadCanceled'', HookClearFileSize), (''AfterUploadCanceled'', HookCancelContext),
      (''AfterUpload'', GenericAfterUpdate), (''AfterValidateFailed'', HookCleanFileContent),
      (''AfterValidateFailed'', HookClearFileSize)]"

definition create_hooks :: "(gostring \<times> hook) list" where
  "create_hooks =
     [(''BeforeUpload'', HookValidateFile), (''BeforeUpload'', HookValidateCapacity),
      (''AfterUploadCanceled'', HookDeleteTempFile), (''AfterUploadCanceled'', HookCancelContext),
      (''AfterUpload'', GenericAfterUpload), (''AfterUpload'', HookGenerateThumb),
      (''AfterValidateFailed'', HookDeleteTempFile)]"

text \<open>
  The stream, the context and the hooks of a \<open>PUT\<close>. A file whose content is shared gets a new
  path to store it at.
\<close>

definition put_setup :: "'p dav_env \<Rightarrow> gostring \<Rightarrow> file_stream \<Rightarrow> 'p world \<Rightarrow> (ctx \<times> file_stream \<times> 'p world) option" where
  "put_setup E reqPath fileData w =
     (case IsFileExist (orm (dsys E)) w reqPath of
        (False, _) \<Rightarrow> Some (Background, fileData, use_all create_hooks w)
      | (True, originFile) \<Rightarrow>
          (let fileList = RemoveFilesWithSoftLinks (orm (dsys E)) [originFile] (wdb w);
               mode = or (and (fst_Mode fileData) (not Overwrite)) Overwrite
           in if fileList = Inr [] then
                (case Policy w of
                   None \<Rightarrow> None
                 | Some policy \<Rightarrow>
                     (let originFile' = originFile\<lparr>f_SourceName := GenerateSavePath (dsys E) policy fileData w\<rparr>
                      in Some (Background\<lparr>FileModelCtx := Some originFile'\<rparr>, fileData\<lparr>fst_Mode := mode\<rparr>,
                           use_all (softlink_hooks @ update_hooks) w)))
              else Some (Background\<lparr>FileModelCtx := Some originFile\<rparr>,
                     fileData\<lparr>fst_Mode := or (fst_Mode fileData) Overwrite\<rparr>, use_all update_hooks w)))"

definition handlePut :: "dav_handler \<Rightarrow> 'p dav_env \<Rightarrow> request \<Rightarrow> 'p world \<Rightarrow> response_writer \<Rightarrow> 'p served" where
  "handlePut h E r w rw =
     (case stripPrefix h (rq_Path r) of
        Inl (status, e) \<Rightarrow> Some ((status, Some (DavErr e)), w, rw)
      | Inr reqPath \<Rightarrow>
          (case parseUint (rq_ContentLengthHeader r) of
             None \<Rightarrow> Some ((405, Some NumErr), w, rw)
           | Some fileSize \<Rightarrow>
               (let fileData = zero_stream\<lparr>fst_File := rq_Body r, fst_Size := word_of_nat fileSize,
                      fst_Name := pathBase reqPath, fst_VirtualPath := pathDir reqPath\<rparr>
                in case put_setup E reqPath fileData w of
                     None \<Rightarrow> None
                   | Some (c, fileData', w1) \<Rightarrow>
                       (case Upload (dsys E) (drun E) c fileData' w1 of
                          None \<Rightarrow> None
                        | Some (Some e, _, w2) \<Rightarrow> fails 405 e w2 rw
                        | Some (None, f2, w2) \<Rightarrow>
                            (case fst_Model f2 of
                               None \<Rightarrow> None
                             | Some m \<Rightarrow>
                                 Some ((201, None), w2, add_header ''ETag'' (findETag (dprops E) (InfoFile m)) rw))))))"

definition handleMkcol :: "dav_handler \<Rightarrow> 'p dav_env \<Rightarrow> request \<Rightarrow> 'p world \<Rightarrow> response_writer \<Rightarrow> 'p served" where
  "handleMkcol h E r w rw =
     (case stripPrefix h (rq_Path r) of
        Inl (status, e) \<Rightarrow> Some ((status, Some (DavErr e)), w, rw)
      | Inr reqPath \<Rightarrow>
          (if rq_ContentLength r > 0 then Some ((415, None), w, rw)
           else case CreateDirectory (orm (dsys E)) reqPath w of
             (Inl e, w1) \<Rightarrow> fails 409 e w1 rw
           | (Inr _, w1) \<Rightarrow> Some ((201, None), w1, rw)))"

section \<open>Copying and moving (file.go)\<close>

text \<open>\<open>filesystem.Copy\<close> and the others are called with the position of the source as its folder.\<close>

definition moveFiles :: "'p dav_env \<Rightarrow> file_info \<Rightarrow> gostring \<Rightarrow> 'p world \<Rightarrow> fs_error option \<times> 'p world" where
  "moveFiles E src dst w =
     (let (fileIDs, folderIDs) =
        (case src of InfoFolder d \<Rightarrow> ([], [d_ID d]) | InfoFile f \<Rightarrow> ([f_ID f], []));
          (err, w1) =
        (if GetPosition src \<noteq> pathDir dst then
           Move_objects (dsys E) folderIDs fileIDs (GetPosition src) (pathDir dst) w
         else (None, w))
      in if err = None \<and> GetName src \<noteq> pathBase dst then
           Rename_objects (dsys E) folderIDs fileIDs (pathBase dst) w1
         else (err, w1))"

definition copyFiles ::
  "'p dav_env \<Rightarrow> file_info \<Rightarrow> gostring \<Rightarrow> int \<Rightarrow> 'p world \<Rightarrow> dav_err option \<times> 'p world" where
  "copyFiles E src dst recursion w =
     (if recursion = 1000 then (Some (DavErr ErrRecursionTooDeep), w)
      else
        (let (err, w1) =
           (case src of
              InfoFolder d \<Rightarrow> Copy_objects (dsys E) [d_ID d] [] (d_Position d) (pathDir dst) w
            | InfoFile f \<Rightarrow> Copy_objects (dsys E) [] [f_ID f] (f_Position f) (pathDir dst) w)
         in (map_option FsErr err, w1)))"

text \<open>A panic in the file system is one in the handler.\<close>

definition answer :: "int \<Rightarrow> int \<Rightarrow> dav_err option \<Rightarrow> 'p world \<Rightarrow> response_writer \<Rightarrow> 'p served" where
  "answer ok bad err w rw =
     (case err of
        None \<Rightarrow> Some ((ok, None), w, rw)
      | Some e \<Rightarrow> (if e = FsErr ErrPanic then None else Some ((bad, Some e), w, rw)))"

definition handleCopyMove :: "dav_handler \<Rightarrow> 'p dav_env \<Rightarrow> request \<Rightarrow> 'p world \<Rightarrow> response_writer \<Rightarrow> 'p served" where
  "handleCopyMove h E r w rw =
     (if rq_Destination r = [] then Some ((400, Some (DavErr ErrInvalidDestination)), w, rw)
      else case urlPath E (rq_Destination r) of
        None \<Rightarrow> Some ((400, Some (DavErr ErrInvalidDestination)), w, rw)
      | Some u \<Rightarrow>
          (case (stripPrefix h (rq_Path r), stripPrefix h u) of
             (Inl (status, e), _) \<Rightarrow> Some ((status, Some (DavErr e)), w, rw)
           | (Inr _, Inl (status, e)) \<Rightarrow> Some ((status, Some (DavErr e)), w, rw)
           | (Inr src, Inr dst) \<Rightarrow>
               (if dst = [] then Some ((502, Some (DavErr ErrInvalidDestination)), w, rw)
                else if dst = src then Some ((403, Some (DavErr ErrDestinationEqualsSource)), w, rw)
                else case isPathExist E w src of
                  None \<Rightarrow> Some ((404, None), w, rw)
                | Some tgt \<Rightarrow>
                    (if rq_Method r = ''COPY'' then
                       (let depth = (if rq_Depth r = [] then infiniteDepth else parseDepth (rq_Depth r)) in
                        if depth \<noteq> 0 \<and> depth \<noteq> infiniteDepth then
                          Some ((400, Some (DavErr ErrInvalidDepth)), w, rw)
                        else
                          (let (err, w1) = copyFiles E tgt dst 0 w in answer 204 500 err w1 rw))
                     else if rq_Depth r \<noteq> [] \<and> parseDepth (rq_Depth r) \<noteq> infiniteDepth then
                       Some ((400, Some (DavErr ErrInvalidDepth)), w, rw)
                     else
                       (let (err, w1) = moveFiles E tgt dst w
                        in answer 204 500 (map_option FsErr err) w1 rw)))))"

section \<open>Locks\<close>

text \<open>
  \<open>lock\<close> and \<open>confirmLocks\<close> are commented out but for their returns; the answer to \<open>LOCK\<close> names a
  token the lock system does not know, and \<open>UNLOCK\<close> always succeeds.
\<close>

definition handleLock :: "dav_handler \<Rightarrow> 'p dav_env \<Rightarrow> request \<Rightarrow> 'p world \<Rightarrow> response_writer \<Rightarrow> 'p served" where
  "handleLock h E r w rw =
     (case parseTimeout (rq_Timeout r) of
        Inl e \<Rightarrow> Some ((400, Some (DavErr e)), w, rw)
      | Inr duration \<Rightarrow>
          (case stripPrefix h (rq_Path r) of
             Inl (status, e) \<Rightarrow> Some ((status, Some (DavErr e)), w, rw)
           | Inr reqPath \<Rightarrow>
               Some ((0, None), w,
                 write_out (OutText (writeLockInfo (formatInt (nowNano E))
                   \<lparr>lk_Root = reqPath, lk_Duration = duration, lk_OwnerXML = u_Email (User w), lk_ZeroDepth = False\<rparr>)) rw)))"

definition handleUnlock :: "'p world \<Rightarrow> response_writer \<Rightarrow> 'p served" where
  "handleUnlock w rw = Some ((204, None), w, rw)"

section \<open>Walking the tree (file.go)\<close>

datatype walk_err = SkipDir | WalkErr webdav_error

text \<open>
  The callback threads a state; the walk descends as deep as the tree goes, so it takes a number
  of levels, \<open>None\<close> when the tree is deeper. The errors of the two queries are dropped.
\<close>

type_synonym 's walker = "gostring \<Rightarrow> file_info \<Rightarrow> 's \<Rightarrow> (walk_err option \<times> 's) option"

definition children :: "gorm \<Rightarrow> db \<Rightarrow> file_info \<Rightarrow> file_info list" where
  "children G d info =
     (case info of
        InfoFile _ \<Rightarrow> []
      | InfoFolder fd \<Rightarrow>
          (case GetChildFiles G fd d of Inl _ \<Rightarrow> [] | Inr fs \<Rightarrow> map InfoFile fs) @
          (case GetChildFolder G fd d of Inl _ \<Rightarrow> [] | Inr fds \<Rightarrow> map InfoFolder fds))"

fun walk_all :: "'s walker \<Rightarrow> gostring \<Rightarrow> file_info list \<Rightarrow> 's \<Rightarrow> (walk_err option \<times> 's) option" where
  "walk_all walk name [] s = Some (None, s)"
| "walk_all walk name (fi # fis) s =
     (case walk (pathJoin name (GetName fi)) fi s of
        None \<Rightarrow> None
      | Some (Some e, s1) \<Rightarrow>
          (if \<not> IsDir fi \<or> e \<noteq> SkipDir then Some (Some e, s1) else walk_all walk name fis s1)
      | Some (None, s1) \<Rightarrow> walk_all walk name fis s1)"

primrec walkFS ::
  "nat \<Rightarrow> gorm \<Rightarrow> db \<Rightarrow> (gostring \<Rightarrow> file_info \<Rightarrow> 's \<Rightarrow> walk_err option \<times> 's) \<Rightarrow> int \<Rightarrow> 's walker" where
  "walkFS 0 G d walkFn depth name info s = None"
| "walkFS (Suc n) G d walkFn depth name info s =
     (case walkFn name info s of
        (Some e, s1) \<Rightarrow> (if IsDir info \<and> e = SkipDir then Some (None, s1) else Some (Some e, s1))
      | (None, s1) \<Rightarrow>
          (if \<not> IsDir info \<or> depth = 0 then Some (None, s1)
           else walk_all (walkFS n G d walkFn (if depth = 1 then 0 else depth)) name (children G d info) s1))"

section \<open>Properties\<close>

text \<open>\<open>url.URL.EscapedPath\<close>\<close>

definition path_unescaped :: "char \<Rightarrow> bool" where
  "path_unescaped c \<longleftrightarrow>
     (let n = of_char c :: nat in 48 \<le> n \<and> n \<le> 57 \<or> 65 \<le> n \<and> n \<le> 90 \<or> 97 \<le> n \<and> n \<le> 122) \<or>
     c \<in> set ''-_.~$&+,/:;=@''"

definition percent :: "char \<Rightarrow> gostring" where
  "percent c =
     (let n = of_char c :: nat; d = (\<lambda>k. ''0123456789ABCDEF'' ! (k mod 16)) in [CHR ''%'', d (n div 16), d n])"

definition EscapedPath :: "gostring \<Rightarrow> gostring" where
  "EscapedPath p = (if p = ''*'' then p else concat (map (\<lambda>c. if path_unescaped c then [c] else percent c) p))"

definition makePropstatResponse :: "gostring \<Rightarrow> dav_propstat list \<Rightarrow> dav_response" where
  "makePropstatResponse href pstats =
     \<lparr>dr_Href = [EscapedPath href],
      dr_Propstat = map (\<lambda>p. (''HTTP/1.1 '' @ formatInt (ps_Status p) @ '' '' @ StatusText (ps_Status p), p)) pstats,
      dr_Status = []\<rparr>"

text \<open>The callback of \<open>PROPFIND\<close>: the properties of one file or folder, written to the answer.\<close>

definition propfind_entry ::
  "dav_handler \<Rightarrow> 'p dav_env \<Rightarrow> propfind \<Rightarrow> gostring \<Rightarrow> file_info \<Rightarrow> multistatus \<Rightarrow> walk_err option \<times> multistatus" where
  "propfind_entry h E pf reqPath info mw =
     (let names = (case pf_Prop pf of None \<Rightarrow> [] | Some ns \<Rightarrow> ns);
          pstats =
            (if pf_Propname pf then [propstat_of 200 (map (\<lambda>n. named n []) (propnames (dprops E) info))]
             else if pf_Allprop pf then allprop (dprops E) info names
             else props (dprops E) info names);
          href0 = pathJoin (Prefix h) reqPath;
          href = (if href0 \<noteq> ''/'' \<and> IsDir info then href0 @ ''/'' else href0);
          (err, mw') = mw_write (encodes E) (makePropstatResponse href pstats) mw
      in (map_option WalkErr err, mw'))"

text \<open>\<open>levels\<close> bounds the walk.\<close>

definition handlePropfind ::
  "nat \<Rightarrow> dav_handler \<Rightarrow> 'p dav_env \<Rightarrow> request \<Rightarrow> 'p world \<Rightarrow> response_writer \<Rightarrow> 'p served" where
  "handlePropfind levels h E r w rw =
     (case stripPrefix h (rq_Path r) of
        Inl (status, e) \<Rightarrow> Some ((status, Some (DavErr e)), w, rw)
      | Inr reqPath \<Rightarrow>
          (case isPathExist E w reqPath of
             None \<Rightarrow> Some ((404, None), w, rw)
           | Some fi \<Rightarrow>
               (let depth = (if rq_Depth r = [] then infiniteDepth else parseDepth (rq_Depth r)) in
                if depth = invalidDepth then Some ((400, Some (DavErr ErrInvalidDepth)), w, rw)
                else case readPropfind (rq_Propfind r) of
                  Inl (status, e) \<Rightarrow> Some ((status, Some (DavErr e)), w, rw)
                | Inr pf \<Rightarrow>
                    (case walkFS levels (orm (dsys E)) (wdb w) (propfind_entry h E pf) depth reqPath fi
                            \<lparr>mw_enc = False, mw_desc = [], mw_w = rw\<rparr> of
                       None \<Rightarrow> None
                     | Some (walkErr, mw) \<Rightarrow>
                         (let rw' = mw_w (mw_close mw) in
                          case walkErr of
                            Some (WalkErr e) \<Rightarrow> Some ((500, Some (DavErr e)), w, rw')
                          | Some SkipDir \<Rightarrow> Some ((500, Some (DavErr OtherError)), w, rw')
                          | None \<Rightarrow> Some ((0, None), w, rw'))))))"

definition handleProppatch :: "dav_handler \<Rightarrow> 'p dav_env \<Rightarrow> request \<Rightarrow> 'p world \<Rightarrow> response_writer \<Rightarrow> 'p served" where
  "handleProppatch h E r w rw =
     (case stripPrefix h (rq_Path r) of
        Inl (status, e) \<Rightarrow> Some ((status, Some (DavErr e)), w, rw)
      | Inr reqPath \<Rightarrow>
          (if isPathExist E w reqPath = None then Some ((404, None), w, rw)
           else case readProppatch (rq_Proppatch r) of
             Inl (status, e) \<Rightarrow> Some ((status, Some (DavErr e)), w, rw)
           | Inr patches \<Rightarrow>
               (let (err, mw) = mw_write (encodes E) (makePropstatResponse (rq_Path r) (patch patches))
                      \<lparr>mw_enc = False, mw_desc = [], mw_w = rw\<rparr>;
                    rw' = mw_w (mw_close mw)
                in case err of
                     Some e \<Rightarrow> Some ((500, Some (DavErr e)), w, rw')
                   | None \<Rightarrow> Some ((0, None), w, rw'))))"

section \<open>Serving a request\<close>

definition dispatch ::
  "nat \<Rightarrow> dav_handler \<Rightarrow> 'p dav_env \<Rightarrow> request \<Rightarrow> 'p world \<Rightarrow> response_writer \<Rightarrow> 'p served" where
  "dispatch levels h E r w rw =
     (let m = rq_Method r in
      if m = ''OPTIONS'' then handleOptions h E r w rw
      else if m \<in> {''GET'', ''HEAD'', ''POST''} then handleGetHeadPost h E r w rw
      else if m = ''DELETE'' then handleDelete h E r w rw
      else if m = ''PUT'' then handlePut h E r w rw
      else if m = ''MKCOL'' then handleMkcol h E r w rw
      else if m \<in> {''COPY'', ''MOVE''} then handleCopyMove h E r w rw
      else if m = ''LOCK'' then handleLock h E r w rw
      else if m = ''UNLOCK'' then handleUnlock w rw
      else if m = ''PROPFIND'' then handlePropfind levels h E r w rw
      else if m = ''PROPPATCH'' then handleProppatch h E r w rw
      else Some ((400, Some (DavErr ErrUnsupportedMethod)), w, rw))"

definition write_status :: "int \<Rightarrow> response_writer \<Rightarrow> response_writer" where
  "write_status status rw =
     (if status \<noteq> 0 then
        (let rw1 = WriteHeader status rw in
         if status \<noteq> 204 then write_out (OutText (StatusText status)) rw1 else rw1)
      else rw)"

text \<open>Every user has a lock system, made at the first request.\<close>

definition ServeHTTP ::
  "nat \<Rightarrow> dav_handler \<Rightarrow> 'p dav_env \<Rightarrow> request \<Rightarrow> 'p world \<Rightarrow> response_writer \<Rightarrow>
   ((dav_err option \<times> 'p world \<times> response_writer) option) \<times> dav_handler" where
  "ServeHTTP levels h E r w rw =
     (case LockSystem h of
        None \<Rightarrow> (Some (Some (DavErr ErrNoLockSystem), w, write_status 500 rw), h)
      | Some tbl \<Rightarrow>
          (let uid = u_ID (User w);
               h1 = (if tbl uid = None then h\<lparr>LockSystem := Some (tbl(uid \<mapsto> NewMemLS (word_of_int (nowNano E div 1000000000))))\<rparr> else h)
           in (case dispatch levels h1 E r w rw of
                 None \<Rightarrow> None
               | Some ((status, err), w', rw') \<Rightarrow> Some (err, w', write_status status rw'), h1)))"

text \<open>
  \<open>ServeWebDAV\<close>: an account with a root other than \<open>/\<close> works below that folder, when there is one.
\<close>

definition dav_root :: "'p dav_env \<Rightarrow> webdav_row option \<Rightarrow> 'p world \<Rightarrow> 'p world" where
  "dav_root E application w =
     (case application of
        None \<Rightarrow> w
      | Some a \<Rightarrow>
          (if w_Root a = ''/'' then w
           else case IsPathExist (orm (dsys E)) w (w_Root a) of
             (True, Some root) \<Rightarrow> w\<lparr>FsRoot := Some (root\<lparr>d_Position := [], d_Name := ''/''\<rparr>)\<rparr>
           | _ \<Rightarrow> w))"

definition ServeWebDAV ::
  "nat \<Rightarrow> dav_handler \<Rightarrow> 'p dav_env \<Rightarrow> user_row option \<Rightarrow> webdav_row option \<Rightarrow> request \<Rightarrow> db \<Rightarrow> cache_obj memo \<Rightarrow> 'p \<Rightarrow>
   response_writer \<Rightarrow> ((dav_err option \<times> 'p world \<times> response_writer) option) \<times> dav_handler" where
  "ServeWebDAV levels h E user application r d ch p rw =
     (case NewFileSystemFromContext (dsys E) user d ch p of
        (Some e, w) \<Rightarrow> (Some (Some (FsErr e), w, rw), h)
      | (None, w) \<Rightarrow> ServeHTTP levels h E r (dav_root E application w) rw)"

end
