(* ===== verification/WebdavProps.thy ===== *)
theory WebdavProps
  imports WebdavHandler FsObjects
begin

text \<open>
  What the WebDAV handlers promise: the methods that read change neither the database nor the
  storage, an account's root confines its paths, and a new file cannot be put.
\<close>

section \<open>Reading leaves the data alone\<close>

definition data :: "'p world \<Rightarrow> db \<times> 'p" where
  "data w = (wdb w, wdisk w)"

lemma data_updates [simp]:
  "data (w\<lparr>FileTarget := fs\<rparr>) = data w" "data (w\<lparr>wcache := ch\<rparr>) = data w" "data (w\<lparr>Policy := p\<rparr>) = data w"
  "data (w\<lparr>FsRoot := r\<rparr>) = data w" "data (w\<lparr>Handler := h\<rparr>) = data w" "data (w\<lparr>Hooks := hs\<rparr>) = data w"
  "data (SetTargetFile fs w) = data w"
  by (simp_all add: data_def SetTargetFile_def)

lemma DispatchHandler_data: "DispatchHandler S w = (e, w') \<Longrightarrow> data w' = data w"
  by (auto simp: DispatchHandler_def Let_def split: option.splits if_splits)

lemma resetPolicyToFirstFile_data: "resetPolicyToFirstFile S w = (e, w') \<Longrightarrow> data w' = data w"
  by (auto simp: resetPolicyToFirstFile_def split: list.splits prod.splits dest!: DispatchHandler_data)

lemma resetFileIDIfNotExist_data: "resetFileIDIfNotExist S c i w = (e, w') \<Longrightarrow> data w' = data w"
  by (auto simp: resetFileIDIfNotExist_def split: if_splits sum.splits list.splits option.splits
      dest!: resetPolicyToFirstFile_data)

lemma GetContent_data: "GetContent S c i w = (r, w') \<Longrightarrow> data w' = data w"
  by (auto simp: GetContent_def split: prod.splits option.splits list.splits sum.splits
      dest!: resetFileIDIfNotExist_data)

lemma SignURL_data: "SignURL S f ttl dl w = (r, w') \<Longrightarrow> data w' = data w"
  by (auto simp: SignURL_def split: prod.splits option.splits list.splits sum.splits
      dest!: resetPolicyToFirstFile_data)

lemma Preview_data: "Preview S c i isText w = (r, w') \<Longrightarrow> data w' = data w"
  by (auto simp: Preview_def GetDownloadContent_def Let_def
      split: prod.splits option.splits if_splits sum.splits
      dest!: resetFileIDIfNotExist_data GetContent_data SignURL_data)

lemma handleGetHeadPost_data: "handleGetHeadPost h E r w rw = Some (res, w', rw') \<Longrightarrow> data w' = data w"
  by (auto simp: handleGetHeadPost_def fails_def Let_def
      split: prod.splits option.splits if_splits sum.splits bool.splits content_response.splits
      dest!: Preview_data)

lemma handlePropfind_data: "handlePropfind n h E r w rw = Some (res, w', rw') \<Longrightarrow> w' = w"
  by (auto simp: handlePropfind_def Let_def
      split: prod.splits option.splits if_splits sum.splits walk_err.splits)

lemma read_handlers_same:
  "handleOptions h E r w rw = Some (res, w', rw') \<Longrightarrow> w' = w"
  "handleLock h E r w rw = Some (res, w', rw') \<Longrightarrow> w' = w"
  "handleUnlock w rw = Some (res, w', rw') \<Longrightarrow> w' = w"
  "handleProppatch h E r w rw = Some (res, w', rw') \<Longrightarrow> w' = w"
  by (auto simp: handleOptions_def handleLock_def handleUnlock_def handleProppatch_def Let_def
      split: prod.splits option.splits if_splits sum.splits)

lemma dispatch_data:
  assumes "rq_Method r \<notin> {''DELETE'', ''PUT'', ''MKCOL'', ''COPY'', ''MOVE''}"
    and "dispatch n h E r w rw = Some (res, w', rw')"
  shows "data w' = data w"
  using assms
  by (auto simp: dispatch_def Let_def split: if_splits
      dest: handleGetHeadPost_data handlePropfind_data read_handlers_same)

text \<open>
  C31. A WebDAV request with any method but the five that write leaves every row of the database
  and the whole storage as they were, whatever it answers; only the cache may change.
\<close>
theorem webdav_reads_change_nothing:
  assumes "rq_Method r \<notin> {''DELETE'', ''PUT'', ''MKCOL'', ''COPY'', ''MOVE''}"
    and "ServeHTTP levels h E r w rw = (Some (err, w', rw'), h')"
  shows "(wdb w', wdisk w') = (wdb w, wdisk w)"
proof -
  have "data w' = data w"
    using assms(2)
    by (auto simp: ServeHTTP_def Let_def split: option.splits prod.splits dest!: dispatch_data [OF assms(1)])
  then show ?thesis by (simp add: data_def)
qed

text \<open>A server for the tree of \<open>docs_db\<close>, under the prefix of the program, and its requests.\<close>

definition docs_env :: "unit dav_env" where
  "docs_env = \<lparr>dsys = docs_sys, drun = run_hook 2 docs_sys (\<lambda>n k p. (None, p)),
     dprops = \<lparr>unixNano = (\<lambda>t. t), httpTime = formatInt, typeByExtension = (\<lambda>x. x), live_order = (\<lambda>ns. ns)\<rparr>,
     encodes = (\<lambda>x. True), urlPath = Some, nowNano = 0\<rparr>"

definition dav_docs :: dav_handler where
  "dav_docs = \<lparr>Prefix = ''/dav'', LockSystem = Some Map.empty\<rparr>"

definition bare_request :: "gostring \<Rightarrow> gostring \<Rightarrow> request" where
  "bare_request meth path = \<lparr>rq_Method = meth, rq_Path = path, rq_Destination = [], rq_Depth = [], rq_Overwrite = [],
     rq_Timeout = [], rq_ContentLengthHeader = ''3'', rq_ContentLength = 3, rq_Body = ''abc'',
     rq_Propfind = \<lparr>body_read = 0, body_decoded = Inl DecodeEOF\<rparr>,
     rq_Proppatch = \<lparr>body_read = 0, body_decoded = Inl DecodeEOF\<rparr>\<rparr>"

definition no_answer :: response_writer where
  "no_answer = \<lparr>rw_Header = [], rw_Status = None, rw_Body = []\<rparr>"

lemma docs_strip: "Prefix h = ''/dav'' \<Longrightarrow> stripPrefix h ''/dav/docs/a'' = Inr ''/docs/a''"
  by (simp add: stripPrefix_def trimPrefix_def hasPrefix_def RemoveSlash_def trimSuffix_def hasSuffix_def)

lemma docs_a_lookup:
  "IsFileExist sound_gorm acc_world ''/docs/a'' = (True, (files acc_db ! 0)\<lparr>f_Position := ''/docs''\<rparr>)"
  by (simp add: IsFileExist_def IsChildFileExist_def GetChildFile_def find_struct_def copy_eval
      pathDir_def pathBase_def pathJoin_def pathClean_def isRooted_def cleanElems_def cleanStep_def beforeLast_def afterLast_def
      trimRightChar_def Let_def sound_simps acc_simps)

lemma docs_a_content:
  "\<exists>w1. Preview docs_sys Background 0 False (SetTargetFile [(files acc_db ! 0)\<lparr>f_Position := ''/docs''\<rparr>] acc_world) =
     (Inr (Content (Some [])), w1)"
  by (simp add: Preview_def resetFileIDIfNotExist_def resetPolicyToFirstFile_def Background_def SetTargetFile_def
      GetPolicy_def GetPolicyByID_def cache_Get_def memo_Get_def getValue_def memo_new_def cache_Set_def memo_Set_def
      GetDownloadContent_def GetContent_def newItem_def
      DispatchHandler_def IsDirectlyPreview_def null_handler_def Let_def sound_simps acc_simps)

lemma docs_a_get:
  "Prefix h = ''/dav'' \<Longrightarrow>
   \<exists>w1 rw1. handleGetHeadPost h docs_env (bare_request ''GET'' ''/dav/docs/a'') acc_world no_answer =
     Some ((0, None), w1, rw1)"
  using docs_strip [of h] docs_a_lookup docs_a_content
  by (auto simp: handleGetHeadPost_def bare_request_def docs_env_def docs_sys_def)

theorem webdav_reads_change_nothing_witness:
  "\<exists>err w' rw' h'. ServeHTTP 9 dav_docs docs_env (bare_request ''GET'' ''/dav/docs/a'') acc_world no_answer =
     (Some (err, w', rw'), h') \<and> (wdb w', wdisk w') = (wdb acc_world, wdisk acc_world)"
proof -
  have "\<exists>res h'. ServeHTTP 9 dav_docs docs_env (bare_request ''GET'' ''/dav/docs/a'') acc_world no_answer = (Some res, h')"
    using docs_a_get [of "dav_docs\<lparr>LockSystem := Some [7 \<mapsto> NewMemLS 0]\<rparr>"]
    by (auto simp: ServeHTTP_def dispatch_def dav_docs_def bare_request_def acc_world_def getEmptyFS_def docs_env_def)
  then obtain err w' rw' h' where
    r: "ServeHTTP 9 dav_docs docs_env (bare_request ''GET'' ''/dav/docs/a'') acc_world no_answer = (Some (err, w', rw'), h')"
    by (metis prod_cases3)
  have "(wdb w', wdisk w') = (wdb acc_world, wdisk acc_world)"
    by (rule webdav_reads_change_nothing [OF _ r]) (simp add: bare_request_def)
  with r show ?thesis by blast
qed

section \<open>The root of an account\<close>

text \<open>The folder with the second id is a child of the one with the first.\<close>

definition child :: "db \<Rightarrow> uint \<Rightarrow> uint \<Rightarrow> bool" where
  "child d a b \<longleftrightarrow> (\<exists>r \<in> set (folders d). d_ID r = b \<and> d_ParentID r = Some a)"

context gorm_db
begin

lemma walk_below:
  "IsPathExist_loop G uid d (Some f) ps = (True, Some g) \<Longrightarrow> (child d)\<^sup>*\<^sup>* (d_ID f) (d_ID g)"
proof (induction ps arbitrary: f)
  case Nil
  then show ?case by simp
next
  case (Cons p ps)
  show ?case
  proof (cases "p = ''/''")
    case True
    then show ?thesis using Cons by simp
  next
    case False
    then obtain c where c: "GetChild G f p d = Inr c" "IsPathExist_loop G uid d (Some c) ps = (True, Some g)"
      using Cons.prems by (auto split: sum.splits)
    from c(1) obtain r where "First (Folders G)
        (\<lambda>r. d_ParentID r = Some (d_ID f) \<and> d_OwnerID r = d_OwnerID f \<and> d_Name r = p) d = Inr r" "d_ID c = d_ID r"
      by (auto simp: GetChild_def split: sum.splits)
    then have "child d (d_ID f) (d_ID c)" using folders.first_row by (fastforce simp: child_def)
    with Cons.IH [OF c(2)] show ?thesis by (rule converse_rtranclp_into_rtranclp [rotated])
  qed
qed

lemma IsPathExist_below:
  assumes "FsRoot w = Some r" and "IsPathExist G w path = (True, Some f)"
  shows "(child (wdb w))\<^sup>*\<^sup>* (d_ID r) (d_ID f)"
  using assms walk_below by (auto simp: IsPathExist_def Let_def split: if_splits)

end

text \<open>
  C32. The root of a WebDAV account confines it: once the root folder is found, whatever path a
  request names leads to that folder or to one below it, also with \<open>..\<close> in the path.
\<close>
theorem webdav_root_confines:
  assumes "gorm_db (orm (dsys E))" and "w_Root a \<noteq> ''/''"
    and "IsPathExist (orm (dsys E)) w (w_Root a) = (True, Some root)"
    and "IsPathExist (orm (dsys E)) (dav_root E (Some a) w) path = (True, Some f)"
  shows "(child (wdb w))\<^sup>*\<^sup>* (d_ID root) (d_ID f)"
proof -
  let ?r = "root\<lparr>d_Position := [], d_Name := ''/''\<rparr>"
  have w: "dav_root E (Some a) w = w\<lparr>FsRoot := Some ?r\<rparr>" using assms(2,3) by (simp add: dav_root_def)
  have "(child (wdb (w\<lparr>FsRoot := Some ?r\<rparr>)))\<^sup>*\<^sup>* (d_ID ?r) (d_ID f)"
    by (rule gorm_db.IsPathExist_below [OF assms(1) _ assms(4) [unfolded w]]) simp
  then show ?thesis by simp
qed

theorem webdav_root_confines_witness:
  "\<exists>f. IsPathExist sound_gorm (dav_root docs_env (Some (zero_webdav\<lparr>w_Root := ''/docs''\<rparr>)) acc_world) ''/old'' = (True, Some f) \<and>
     (child (wdb acc_world))\<^sup>*\<^sup>* 2 (d_ID f)"
proof -
  let ?a = "zero_webdav\<lparr>w_Root := ''/docs''\<rparr>"
  have o: "orm (dsys docs_env) = sound_gorm" by (simp add: docs_env_def docs_sys_def)
  obtain root where root: "IsPathExist sound_gorm acc_world ''/docs'' = (True, Some root)" "d_ID root = 2" "d_OwnerID root = 7"
    by (simp add: copy_eval)
  then have "\<exists>f. IsPathExist sound_gorm (dav_root docs_env (Some ?a) acc_world) ''/old'' = (True, Some f)"
    by (simp add: dav_root_def o zero_webdav_def copy_eval)
  then obtain f where f: "IsPathExist sound_gorm (dav_root docs_env (Some ?a) acc_world) ''/old'' = (True, Some f)" ..
  have "(child (wdb acc_world))\<^sup>*\<^sup>* (d_ID root) (d_ID f)"
    by (rule webdav_root_confines [where E = docs_env and a = ?a and path = "''/old''"])
      (use root f in \<open>simp_all add: o sound_gorm_laws zero_webdav_def\<close>)
  with f root(2) show ?thesis by auto
qed

section \<open>New files\<close>

lemma use_all_fields [simp]:
  "wdb (use_all hs w) = wdb w" "wdisk (use_all hs w) = wdisk w" "wcache (use_all hs w) = wcache w"
  "Policy (use_all hs w) = Policy w" "User (use_all hs w) = User w" "Handler (use_all hs w) = Handler w"
  unfolding use_all_def by (induction hs arbitrary: w) (auto simp: Use_def Let_def split: option.splits)

lemma update_before:
  assumes "Hooks w = None"
  shows "\<exists>rest. hooks_of ''BeforeUpload'' (use_all (softlink_hooks @ update_hooks) w) = HookResetPolicy # rest"
    and "\<exists>rest. hooks_of ''BeforeUpload'' (use_all update_hooks w) = HookResetPolicy # rest"
  using assms by (simp_all add: use_all_def softlink_hooks_def update_hooks_def Use_def hooks_of_def Let_def)

text \<open>What \<open>PUT\<close> sets up when the search for the file left an empty row.\<close>

lemma put_setup_missing:
  assumes "IsFileExist (orm (dsys E)) w path = (True, zero_file\<lparr>f_Position := pos\<rparr>)"
    and "Hooks w = None" and "Policy w \<noteq> None"
  obtains c fd' w1 rest g where "put_setup E path fd w = Some (c, fd', w1)"
    and "FileModelCtx c = Some g" and "p_ID (f_Policy g) = 0" and "f_PolicyID g = 0"
    and "hooks_of ''BeforeUpload'' w1 = HookResetPolicy # rest"
    and "wdb w1 = wdb w" and "wdisk w1 = wdisk w" and "wcache w1 = wcache w"
proof (cases "RemoveFilesWithSoftLinks (orm (dsys E)) [zero_file\<lparr>f_Position := pos\<rparr>] (wdb w) = Inr []")
  case True
  obtain policy where "Policy w = Some policy" using assms(3) by blast
  with True assms(1) have "put_setup E path fd w =
    Some (Background\<lparr>FileModelCtx := Some (zero_file\<lparr>f_Position := pos, f_SourceName := GenerateSavePath (dsys E) policy fd w\<rparr>)\<rparr>,
      fd\<lparr>fst_Mode := or (and (fst_Mode fd) (not Overwrite)) Overwrite\<rparr>, use_all (softlink_hooks @ update_hooks) w)"
    by (simp add: put_setup_def Let_def)
  moreover obtain rest where "hooks_of ''BeforeUpload'' (use_all (softlink_hooks @ update_hooks) w) = HookResetPolicy # rest"
    using update_before(1) [OF assms(2)] by blast
  ultimately show ?thesis by (intro that) (assumption | simp add: zero_file_def zero_policy_def)+
next
  case False
  with assms(1) have "put_setup E path fd w =
    Some (Background\<lparr>FileModelCtx := Some (zero_file\<lparr>f_Position := pos\<rparr>)\<rparr>,
      fd\<lparr>fst_Mode := or (fst_Mode fd) Overwrite\<rparr>, use_all update_hooks w)"
    by (simp add: put_setup_def Let_def)
  moreover obtain rest where "hooks_of ''BeforeUpload'' (use_all update_hooks w) = HookResetPolicy # rest"
    using update_before(2) [OF assms(2)] by blast
  ultimately show ?thesis by (intro that) (assumption | simp add: zero_file_def zero_policy_def)+
qed

context gorm_db
begin

lemma missing_file_found:
  assumes "Find (Files G) (\<lambda>f. f_FolderID f = d_ID parent \<and> f_Name f = pathBase path) (wdb w) = Inr rs"
    and "IsPathExist G w (pathDir path) = (True, Some parent)"
    and "\<forall>f \<in> set (files (wdb w)). \<not> (f_FolderID f = d_ID parent \<and> f_Name f = pathBase path)"
  shows "\<exists>pos. IsFileExist G w path = (True, zero_file\<lparr>f_Position := pos\<rparr>)"
proof -
  have "set rs = {}" using files.find_set [OF assms(1)] assms(3) by auto
  then have "rs = []" by simp
  with assms(1,2) have "IsFileExist G w path =
      (True, zero_file\<lparr>f_Position := pathJoin (d_Position parent) (d_Name parent)\<rparr>)"
    by (simp add: IsFileExist_def IsChildFileExist_def GetChildFile_def find_struct_def)
  then show ?thesis by blast
qed

lemma no_policy_zero:
  assumes "\<forall>p \<in> set (policies d). p_ID p \<noteq> 0" and "cache_Get now ''policy_0'' ch = None"
    and "p_ID (f_Policy f) = 0" and "f_PolicyID f = 0"
  shows "GetPolicy G now f d ch = (f\<lparr>f_Policy := zero_policy\<rparr>, ch)"
proof -
  obtain e where "First (Policies G) (\<lambda>p. p_ID p = 0) d = Inl e"
  proof (cases "First (Policies G) (\<lambda>p. p_ID p = 0) d")
    case (Inr p)
    with gorm_table.first_row [OF policies Inr] assms(1) show ?thesis by blast
  qed
  moreover have "''policy_'' @ formatNat 0 = ''policy_0''" by code_simp
  ultimately show ?thesis
    using assms(2-4) by (simp add: GetPolicy_def GetPolicyByID_def)
qed

lemma put_new_fails:
  assumes "G = orm S"
    and "\<forall>p \<in> set (policies (wdb w)). p_ID p \<noteq> 0" and "cache_Get (clock S) ''policy_0'' (wcache w) = None"
    and "FileModelCtx c = Some f" and "p_ID (f_Policy f) = 0" and "f_PolicyID f = 0"
    and "hooks_of ''BeforeUpload'' w = HookResetPolicy # rest"
  shows "Upload S (run_hook (Suc n) S trunc) c fd w =
    Some (Some ErrUnknownPolicyType, fd, w\<lparr>Policy := Some zero_policy\<rparr>)"
proof -
  have "hook_ResetPolicy S c fd w = Some (Some ErrUnknownPolicyType, fd, w\<lparr>Policy := Some zero_policy\<rparr>)"
    using no_policy_zero [OF assms(2,3,5,6)] assms(1,4)
    by (simp add: hook_ResetPolicy_def DispatchHandler_def zero_policy_def)
  then show ?thesis
    using assms(7) by (simp add: Upload_def Trigger_def hook_body_def)
qed

end

text \<open>
  C33. \<open>PUT\<close> does not make a new file, on a file system as the handler makes it, with a policy
  and no hooks: for a path in an existing folder that names no file, when the lookup of the file by
  its folder and name is answered (with no row), the handler takes the empty row of that search for
  the file to update. It has the policy 0; as long as neither the table nor the cache has a policy
  with that id, the handler answers 405 and changes neither the database nor the storage. (When the
  lookup fails instead, the handler goes on to create the file.)
\<close>
theorem webdav_PUT_cannot_create:
  assumes "gorm_db (orm (dsys E))" and "drun E = run_hook (Suc n) (dsys E) trunc"
    and "stripPrefix h (rq_Path r) = Inr path" and "parseUint (rq_ContentLengthHeader r) = Some k"
    and "IsPathExist (orm (dsys E)) w (pathDir path) = (True, Some parent)"
    and "Find (Files (orm (dsys E))) (\<lambda>f. f_FolderID f = d_ID parent \<and> f_Name f = pathBase path) (wdb w) = Inr rs"
    and "\<forall>f \<in> set (files (wdb w)). \<not> (f_FolderID f = d_ID parent \<and> f_Name f = pathBase path)"
    and "\<forall>p \<in> set (policies (wdb w)). p_ID p \<noteq> 0"
    and "cache_Get (clock (dsys E)) ''policy_0'' (wcache w) = None"
    and "Hooks w = None" and "Policy w \<noteq> None"
  shows "\<exists>w'. handlePut h E r w rw = Some ((405, Some (FsErr ErrUnknownPolicyType)), w', rw) \<and>
    wdb w' = wdb w \<and> wdisk w' = wdisk w"
proof -
  let ?fd = "zero_stream\<lparr>fst_File := rq_Body r, fst_Size := word_of_nat k, fst_Name := pathBase path,
      fst_VirtualPath := pathDir path\<rparr>"
  obtain pos where f: "IsFileExist (orm (dsys E)) w path = (True, zero_file\<lparr>f_Position := pos\<rparr>)"
    using gorm_db.missing_file_found [OF assms(1,6,5,7)] by blast
  obtain c fd w1 rest g where p: "put_setup E path ?fd w = Some (c, fd, w1)"
    and c: "FileModelCtx c = Some g" "p_ID (f_Policy g) = 0" "f_PolicyID g = 0"
    and w1: "hooks_of ''BeforeUpload'' w1 = HookResetPolicy # rest" "wdb w1 = wdb w" "wdisk w1 = wdisk w"
      "wcache w1 = wcache w"
    by (rule put_setup_missing [OF f assms(10,11)])
  have "Upload (dsys E) (drun E) c fd w1 = Some (Some ErrUnknownPolicyType, fd, w1\<lparr>Policy := Some zero_policy\<rparr>)"
    unfolding assms(2)
    by (rule gorm_db.put_new_fails [OF assms(1) refl _ _ c w1(1)]) (use assms(8,9) w1 in simp_all)
  then show ?thesis
    using p w1 by (simp add: handlePut_def assms(3,4) fails_def Let_def)
qed

theorem webdav_PUT_cannot_create_witness:
  "\<exists>w'. handlePut dav_docs docs_env (bare_request ''PUT'' ''/dav/docs/new'') (acc_world\<lparr>Policy := Some zero_policy\<rparr>) no_answer =
     Some ((405, Some (FsErr ErrUnknownPolicyType)), w', no_answer) \<and> wdb w' = acc_db \<and> wdisk w' = ()"
proof -
  have o: "orm (dsys docs_env) = sound_gorm" "clock (dsys docs_env) = 0"
    "drun docs_env = run_hook (Suc 1) (dsys docs_env) (\<lambda>n k p. (None, p))"
    by (simp_all add: docs_env_def docs_sys_def numeral_2_eq_2)
  let ?w = "acc_world\<lparr>Policy := Some zero_policy\<rparr>"
  obtain parent where p: "IsPathExist sound_gorm ?w (pathDir ''/docs/new'') = (True, Some parent)" "d_ID parent = 2"
    by (simp add: copy_eval pathDir_def pathClean_def isRooted_def cleanElems_def cleanStep_def beforeLast_def)
  have "\<exists>w'. handlePut dav_docs docs_env (bare_request ''PUT'' ''/dav/docs/new'') ?w no_answer =
     Some ((405, Some (FsErr ErrUnknownPolicyType)), w', no_answer) \<and> wdb w' = wdb ?w \<and> wdisk w' = wdisk ?w"
  proof (rule webdav_PUT_cannot_create [OF _ o(3)])
    show "stripPrefix dav_docs (rq_Path (bare_request ''PUT'' ''/dav/docs/new'')) = Inr ''/docs/new''"
      by (simp add: bare_request_def stripPrefix_def dav_docs_def trimPrefix_def hasPrefix_def RemoveSlash_def
          trimSuffix_def hasSuffix_def)
    show "parseUint (rq_ContentLengthHeader (bare_request ''PUT'' ''/dav/docs/new'')) = Some 3"
      by (simp add: bare_request_def parseUint_def digitVal_def)
    show "IsPathExist (orm (dsys docs_env)) ?w (pathDir ''/docs/new'') = (True, Some parent)"
      unfolding o by (rule p(1))
    show "Find (Files (orm (dsys docs_env))) (\<lambda>f. f_FolderID f = d_ID parent \<and> f_Name f = pathBase ''/docs/new'') (wdb ?w) =
        Inr (filter (\<lambda>f. f_FolderID f = d_ID parent \<and> f_Name f = pathBase ''/docs/new'') (files (wdb ?w)))"
      by (simp add: o sound_simps)
    show "\<forall>f \<in> set (files (wdb ?w)). \<not> (f_FolderID f = d_ID parent \<and> f_Name f = pathBase ''/docs/new'')"
      by (simp add: p(2) pathBase_def afterLast_def trimRightChar_def acc_simps)
    show "cache_Get (clock (dsys docs_env)) ''policy_0'' (wcache ?w) = None"
      by (simp add: cache_Get_def memo_Get_def getValue_def memo_new_def acc_simps)
  qed (simp_all add: o sound_gorm_laws sound_simps acc_simps)
  then show ?thesis by (simp add: acc_world_def getEmptyFS_def)
qed

end
