(* ===== verification/XmlDecoder.thy ===== *)
theory XmlDecoder
  imports WebdavXml XmlTables
begin

text \<open>
  \<open>pkg/webdav/internal/xml/xml.go\<close>: the decoder, which makes tokens of the bytes of a document. A
  decoder is a record; the free list of stack cells and the internal buffer are left out, and the
  bytes collected in the buffer are values. A reader is the bytes it still yields and the error
  after them. \<open>CharsetReader\<close> is nil, as everywhere in the repository.
\<close>

section \<open>The state of a decoder\<close>

datatype xml_error =
    EOF
  | ReadError nat
  | SyntaxError gostring int
  | UnsupportedVersion gostring
  | UnsupportedEncoding gostring
  | ErrRawToken

datatype stack_entry =
    StkStart xml_name
  | StkNs gostring gostring bool
  | StkEOF

record decoder =
  xd_Strict :: bool
  xd_AutoClose :: "gostring list"
  xd_Entity :: "gostring \<rightharpoonup> gostring"
  xd_DefaultSpace :: gostring
  xd_r :: gostring
  xd_readErr :: xml_error
  xd_saved :: "gostring option"
  xd_stk :: "stack_entry list"
  xd_needClose :: bool
  xd_toClose :: xml_name
  xd_nextToken :: "xml_token option"
  xd_nextByte :: "char option"
  xd_ns :: "gostring \<rightharpoonup> gostring"
  xd_err :: "xml_error option"
  xd_line :: int
  xd_offset :: int
  xd_unmarshalDepth :: int

definition no_name :: xml_name where
  "no_name = \<lparr>Space = [], Local = []\<rparr>"

definition NewDecoder :: "gostring \<Rightarrow> xml_error \<Rightarrow> decoder" where
  "NewDecoder r readErr =
     \<lparr>xd_Strict = True, xd_AutoClose = [], xd_Entity = Map.empty, xd_DefaultSpace = [], xd_r = r, xd_readErr = readErr,
      xd_saved = None, xd_stk = [], xd_needClose = False, xd_toClose = no_name, xd_nextToken = None,
      xd_nextByte = None, xd_ns = Map.empty, xd_err = None, xd_line = 1, xd_offset = 0, xd_unmarshalDepth = 0\<rparr>"

definition fail_with :: "gostring \<Rightarrow> decoder \<Rightarrow> decoder" where
  "fail_with msg d = d\<lparr>xd_err := Some (SyntaxError msg (xd_line d))\<rparr>"

text \<open>An error that is set already is kept: \<open>if d.err == nil\<close>.\<close>

definition fail_new :: "gostring \<Rightarrow> decoder \<Rightarrow> decoder" where
  "fail_new msg d = (if xd_err d = None then fail_with msg d else d)"

section \<open>Bytes\<close>

definition newline :: char where "newline = CHR 0x0A"
definition creturn :: char where "creturn = CHR 0x0D"
definition tabulator :: char where "tabulator = CHR 0x09"

definition count_byte :: "char \<Rightarrow> decoder \<Rightarrow> decoder" where
  "count_byte b d = d\<lparr>xd_line := (if b = newline then xd_line d + 1 else xd_line d), xd_offset := xd_offset d + 1\<rparr>"

definition getc :: "decoder \<Rightarrow> char option \<times> decoder" where
  "getc d =
     (if xd_err d \<noteq> None then (None, d)
      else
        (case xd_nextByte d of
           Some b \<Rightarrow> (Some b, count_byte b (d\<lparr>xd_nextByte := None\<rparr>))
         | None \<Rightarrow>
             (case xd_r d of
                [] \<Rightarrow> (None, d\<lparr>xd_err := Some (xd_readErr d)\<rparr>)
              | b # r \<Rightarrow>
                  (Some b, count_byte b (d\<lparr>xd_r := r, xd_saved := map_option (\<lambda>s. s @ [b]) (xd_saved d)\<rparr>)))))"

definition mustgetc :: "decoder \<Rightarrow> char option \<times> decoder" where
  "mustgetc d =
     (case getc d of
        (None, d1) \<Rightarrow> (None, if xd_err d1 = Some EOF then fail_with ''unexpected EOF'' d1 else d1)
      | r \<Rightarrow> r)"

definition ungetc :: "char \<Rightarrow> decoder \<Rightarrow> decoder" where
  "ungetc b d =
     d\<lparr>xd_line := (if b = newline then xd_line d - 1 else xd_line d), xd_nextByte := Some b, xd_offset := xd_offset d - 1\<rparr>"

definition InputOffset :: "decoder \<Rightarrow> int" where
  "InputOffset d = xd_offset d"

text \<open>Without a buffer of saved bytes this panics.\<close>

definition savedOffset :: "decoder \<Rightarrow> int option" where
  "savedOffset d =
     map_option (\<lambda>s. int (length s) - (if xd_nextByte d \<noteq> None then 1 else 0)) (xd_saved d)"

text \<open>The bytes that are still to be read; every loop consumes some.\<close>

definition left :: "decoder \<Rightarrow> nat" where
  "left d = length (xd_r d) + (if xd_nextByte d = None then 0 else 1)"

lemma left_getc: "getc d = (Some b, d') \<Longrightarrow> Suc (left d') = left d"
  by (auto simp: getc_def left_def count_byte_def split: if_splits option.splits list.splits)

lemma getc_unread: "getc d = (Some b, d') \<Longrightarrow> xd_nextByte d' = None"
  by (auto simp: getc_def count_byte_def split: if_splits option.splits list.splits)

lemma getc_None_left: "getc d = (None, d') \<Longrightarrow> left d' = left d"
  by (auto simp: getc_def left_def count_byte_def split: if_splits option.splits list.splits)

lemma left_mustgetc: "mustgetc d = (Some b, d') \<Longrightarrow> Suc (left d') = left d"
  by (auto simp: mustgetc_def left_getc split: prod.splits option.splits)

lemma mustgetc_unread: "mustgetc d = (Some b, d') \<Longrightarrow> xd_nextByte d' = None"
  by (auto simp: mustgetc_def getc_unread split: prod.splits option.splits)

lemma left_ungetc: "xd_nextByte d = None \<Longrightarrow> left (ungetc b d) = Suc (left d)"
  by (simp add: left_def ungetc_def)

lemma left_fail [simp]: "left (fail_with msg d) = left d" "left (fail_new msg d) = left d"
  by (simp_all add: left_def fail_with_def fail_new_def)

function space :: "decoder \<Rightarrow> decoder" where
  "space d =
     (case getc d of
        (None, d1) \<Rightarrow> d1
      | (Some b, d1) \<Rightarrow> (if b \<in> {CHR '' '', creturn, newline, tabulator} then space d1 else ungetc b d1))"
  by pat_completeness auto

termination
  by (relation "measure left") (auto dest!: left_getc [OF sym])

declare space.simps [simp del]

section \<open>Names\<close>

definition isNameByte :: "char \<Rightarrow> bool" where
  "isNameByte c \<longleftrightarrow>
     (let n = of_char c :: nat in
      65 \<le> n \<and> n \<le> 90 \<or> 97 \<le> n \<and> n \<le> 122 \<or> 48 \<le> n \<and> n \<le> 57 \<or> c = CHR ''_'' \<or> c = CHR '':'' \<or> c = CHR ''.'' \<or> c = CHR ''-'')"

text \<open>A byte that ends a name.\<close>

definition not_in_name :: "char \<Rightarrow> bool" where
  "not_in_name b \<longleftrightarrow> (of_char b :: nat) < 128 \<and> \<not> isNameByte b"

function isName_rest :: "gostring \<Rightarrow> bool" where
  "isName_rest s =
     (if s = [] then True
      else
        (let (c, n) = decodeRune s in
         if c = 65533 \<and> n = 1 then False
         else if \<not> unicode_Is first_chars c \<and> \<not> unicode_Is second_chars c then False
         else isName_rest (drop n s)))"
  by pat_completeness auto

termination
proof (relation "measure length", goal_cases)
  case (2 s x c n)
  then have "n = snd (decodeRune s)" by (metis snd_conv)
  with 2 decodeRune_width [of s] show ?case by (cases s) auto
qed simp

declare isName_rest.simps [simp del]

definition isName :: "gostring \<Rightarrow> bool" where
  "isName s =
     (if length s = 0 then False
      else
        (let (c, n) = decodeRune s in
         if c = 65533 \<and> n = 1 then False
         else if \<not> unicode_Is first_chars c then False
         else isName_rest (drop n s)))"

text \<open>The bytes read, without the one that ends the name; \<open>False\<close> when there is no name.\<close>

function readName_rest :: "decoder \<Rightarrow> gostring \<Rightarrow> (bool \<times> gostring) \<times> decoder" where
  "readName_rest d buf =
     (case mustgetc d of
        (None, d1) \<Rightarrow> ((False, buf), d1)
      | (Some b, d1) \<Rightarrow> (if not_in_name b then ((True, buf), ungetc b d1) else readName_rest d1 (buf @ [b])))"
  by pat_completeness auto

termination
  by (relation "measure (\<lambda>(d, buf). left d)") (auto dest!: left_mustgetc [OF sym])

declare readName_rest.simps [simp del]

definition readName :: "decoder \<Rightarrow> (bool \<times> gostring) \<times> decoder" where
  "readName d =
     (case mustgetc d of
        (None, d1) \<Rightarrow> ((False, []), d1)
      | (Some b, d1) \<Rightarrow> (if not_in_name b then ((False, []), ungetc b d1) else readName_rest d1 [b]))"

definition xml_name_of :: "decoder \<Rightarrow> gostring option \<times> decoder" where
  "xml_name_of d =
     (case readName d of
        ((False, _), d1) \<Rightarrow> (None, d1)
      | ((True, b), d1) \<Rightarrow> (if \<not> isName b then (None, fail_with (''invalid XML name: '' @ b) d1) else (Some b, d1)))"

definition split_name :: "gostring \<Rightarrow> xml_name" where
  "split_name s =
     (if CHR '':'' \<notin> set s then \<lparr>Space = [], Local = s\<rparr>
      else \<lparr>Space = takeWhile (\<lambda>c. c \<noteq> CHR '':'') s, Local = tl (dropWhile (\<lambda>c. c \<noteq> CHR '':'') s)\<rparr>)"

definition nsname :: "decoder \<Rightarrow> xml_name option \<times> decoder" where
  "nsname d = (case xml_name_of d of (None, d1) \<Rightarrow> (None, d1) | (Some s, d1) \<Rightarrow> (Some (split_name s), d1))"

lemma mustgetc_None_left: "mustgetc d = (None, d') \<Longrightarrow> left d' = left d"
  by (auto simp: mustgetc_def dest!: getc_None_left split: prod.splits option.splits)

lemma left_mustgetc_ungetc: "mustgetc d = (Some b, d') \<Longrightarrow> left (ungetc c d') = left d"
  using left_mustgetc left_ungetc [OF mustgetc_unread] by simp

lemma readName_rest_left: "readName_rest d buf = (r, d') \<Longrightarrow> left d' \<le> left d"
proof (induction d buf rule: readName_rest.induct)
  case (1 d buf)
  obtain o' d1 where m: "mustgetc d = (o', d1)" by fastforce
  show ?case
  proof (cases o')
    case None
    then show ?thesis using 1(2) m mustgetc_None_left [of d d1] by (simp add: readName_rest.simps [of d])
  next
    case (Some b)
    then show ?thesis
      using 1 m left_mustgetc [of d b d1] left_mustgetc_ungetc [of d b d1 b]
      by (auto simp: readName_rest.simps [of d] split: if_splits)
  qed
qed

lemma readName_left: "readName d = (r, d') \<Longrightarrow> left d' \<le> left d"
  using left_mustgetc [of d] left_mustgetc_ungetc [of d] mustgetc_None_left [of d]
  by (force simp: readName_def dest: readName_rest_left split: prod.splits option.splits if_splits)

section \<open>Text\<close>

text \<open>\<open>string(rune(n))\<close>: UTF-8, with U+FFFD for what is no character.\<close>

definition encodeRune :: "nat \<Rightarrow> gostring" where
  "encodeRune n =
     (if n < 128 then [char_of n]
      else if n < 2048 then [char_of (192 + n div 64), char_of (128 + n mod 64)]
      else if 55296 \<le> n \<and> n \<le> 57343 \<or> 1114111 < n then [CHR 239, CHR 191, CHR 189]
      else if n < 65536 then [char_of (224 + n div 4096), char_of (128 + n div 64 mod 64), char_of (128 + n mod 64)]
      else [char_of (240 + n div 262144), char_of (128 + n div 4096 mod 64), char_of (128 + n div 64 mod 64),
            char_of (128 + n mod 64)])"

definition ref_digit :: "nat \<Rightarrow> char \<Rightarrow> nat option" where
  "ref_digit base c =
     (let n = of_char c :: nat in
      if 48 \<le> n \<and> n \<le> 57 then Some (n - 48)
      else if base = 16 \<and> 97 \<le> n \<and> n \<le> 102 then Some (n - 87)
      else if base = 16 \<and> 65 \<le> n \<and> n \<le> 70 then Some (n - 55)
      else None)"

text \<open>\<open>strconv.ParseUint\<close> of digits, as far as a rune can go.\<close>

definition parse_rune :: "nat \<Rightarrow> gostring \<Rightarrow> nat option" where
  "parse_rune base s =
     (let n = foldl (\<lambda>acc c. acc * base + (case ref_digit base c of Some k \<Rightarrow> k | None \<Rightarrow> 0)) 0 s
      in if s = [] \<or> 1114111 < n then None else Some n)"

text \<open>The digits of a reference and the byte after them.\<close>

function ref_digits :: "nat \<Rightarrow> char \<Rightarrow> decoder \<Rightarrow> gostring \<Rightarrow> (gostring \<times> char) option \<times> decoder" where
  "ref_digits base b d digits =
     (if ref_digit base b = None then (Some (digits, b), d)
      else
        (case mustgetc d of
           (None, d1) \<Rightarrow> (None, d1)
         | (Some b1, d1) \<Rightarrow> ref_digits base b1 d1 (digits @ [b])))"
  by pat_completeness auto

termination
  by (relation "measure (\<lambda>(base, b, d, digits). left d)") (auto dest!: left_mustgetc [OF sym])

declare ref_digits.simps [simp del]

text \<open>
  A reference, after its \<open>&\<close>: the bytes it left in the buffer, and the text it stands for if it is
  known; \<open>None\<close> when the input ends.
\<close>

type_synonym reference = "(gostring \<times> gostring option) option"

definition end_ref :: "nat \<Rightarrow> gostring \<Rightarrow> (gostring \<times> char) option \<times> decoder \<Rightarrow> reference \<times> decoder" where
  "end_ref base raw r =
     (case r of
        (None, d) \<Rightarrow> (None, d)
      | (Some (digits, b), d) \<Rightarrow>
          (if b \<noteq> CHR '';'' then (Some (raw @ digits, None), ungetc b d)
           else (Some (raw @ digits @ '';'', map_option encodeRune (parse_rune base digits)), d)))"

definition char_ref :: "decoder \<Rightarrow> reference \<times> decoder" where
  "char_ref d =
     (case mustgetc d of
        (None, d1) \<Rightarrow> (None, d1)
      | (Some b, d1) \<Rightarrow>
          (if b = CHR ''x'' then
             (case mustgetc d1 of
                (None, d2) \<Rightarrow> (None, d2)
              | (Some b2, d2) \<Rightarrow> end_ref 16 ''&#x'' (ref_digits 16 b2 d2 []))
           else end_ref 10 ''&#'' (ref_digits 10 b d1 [])))"

definition entity :: "gostring \<rightharpoonup> char" where
  "entity = map_of [(''lt'', CHR ''<''), (''gt'', CHR ''>''), (''amp'', CHR ''&''), (''apos'', CHR 39), (''quot'', CHR 34)]"

definition entity_text :: "decoder \<Rightarrow> gostring \<Rightarrow> gostring option" where
  "entity_text d name =
     (if \<not> isName name then None
      else (case entity name of Some c \<Rightarrow> Some [c] | None \<Rightarrow> xd_Entity d name))"

definition named_ref :: "char \<Rightarrow> decoder \<Rightarrow> reference \<times> decoder" where
  "named_ref b d =
     (case readName (ungetc b d) of
        ((ok, name), d1) \<Rightarrow>
          (if \<not> ok \<and> xd_err d1 \<noteq> None then (None, d1)
           else
             (case mustgetc d1 of
                (None, d2) \<Rightarrow> (None, d2)
              | (Some c, d2) \<Rightarrow>
                  (if c \<noteq> CHR '';'' then (Some (''&'' @ name, None), ungetc c d2)
                   else (Some (''&'' @ name @ '';'', entity_text d2 name), d2)))))"

definition read_entity :: "decoder \<Rightarrow> reference \<times> decoder" where
  "read_entity d =
     (case mustgetc d of
        (None, d1) \<Rightarrow> (None, d1)
      | (Some b, d1) \<Rightarrow> (if b = CHR ''#'' then char_ref d1 else named_ref b d1))"

lemma ref_digits_left: "ref_digits base b d digits = (Some r, d') \<Longrightarrow> left d' \<le> left d"
proof (induction base b d digits rule: ref_digits.induct)
  case (1 base b d digits)
  then show ?case
    by (subst (asm) (2) ref_digits.simps)
       (auto split: if_splits prod.splits option.splits dest!: left_mustgetc)
qed

lemma ref_digits_unread:
  "ref_digits base b d digits = (Some r, d') \<Longrightarrow> xd_nextByte d = None \<Longrightarrow> xd_nextByte d' = None"
proof (induction base b d digits rule: ref_digits.induct)
  case (1 base b d digits)
  then show ?case
    by (subst (asm) (2) ref_digits.simps)
       (auto split: if_splits prod.splits option.splits dest: mustgetc_unread)
qed

lemma end_ref_left:
  assumes "end_ref base raw (ref_digits base b d digits) = (Some r, d')" and "xd_nextByte d = None"
  shows "left d' \<le> Suc (left d)"
proof -
  from assms(1) obtain digits' c d1 where r: "ref_digits base b d digits = (Some (digits', c), d1)"
    and d': "d' = d1 \<or> d' = ungetc c d1"
    by (auto simp: end_ref_def split: prod.splits option.splits if_splits)
  from d' left_ungetc [OF ref_digits_unread [OF r assms(2)]] ref_digits_left [OF r] show ?thesis by auto
qed

lemma mustgetc_got: "mustgetc d = (Some b, d') \<Longrightarrow> Suc (left d') = left d \<and> xd_nextByte d' = None"
  using left_mustgetc mustgetc_unread by blast

lemma char_ref_left: "char_ref d = (Some r, d') \<Longrightarrow> left d' \<le> left d"
  by (auto simp: char_ref_def split: prod.splits option.splits if_splits
      dest!: mustgetc_got dest: end_ref_left)

lemma named_ref_left:
  assumes "named_ref b d = (Some r, d')" and "xd_nextByte d = None"
  shows "left d' \<le> Suc (left d)"
proof -
  obtain res d1 where n: "readName (ungetc b d) = (res, d1)" by fastforce
  from readName_left [OF n] left_ungetc [OF assms(2)] have l: "left d1 \<le> Suc (left d)" by simp
  obtain c d2 where "mustgetc d1 = (Some c, d2)" "d' = d2 \<or> d' = ungetc c d2"
    using assms(1) n by (auto simp: named_ref_def split: prod.splits option.splits if_splits)
  with l left_mustgetc [of d1 c d2] left_mustgetc_ungetc [of d1 c d2 c] show ?thesis by auto
qed

lemma read_entity_left: "read_entity d = (Some r, d') \<Longrightarrow> left d' \<le> left d"
  by (auto simp: read_entity_def split: prod.splits option.splits if_splits
      dest!: mustgetc_got dest: char_ref_left named_ref_left)

text \<open>The loop of \<open>text\<close>: the bytes read, without the end of a CDATA section.\<close>

function text_loop :: "char option \<Rightarrow> bool \<Rightarrow> decoder \<Rightarrow> gostring \<Rightarrow> char \<Rightarrow> char \<Rightarrow> gostring option \<times> decoder" where
  "text_loop quote cdata d buf b0 b1 =
     (case getc d of
        (None, d1) \<Rightarrow>
          (if cdata then
             (None, if xd_err d1 = Some EOF then fail_with ''unexpected EOF in CDATA section'' d1 else d1)
           else (Some buf, d1))
      | (Some b, d1) \<Rightarrow>
          (if b0 = CHR '']'' \<and> b1 = CHR '']'' \<and> b = CHR ''>'' then
             (if cdata then (Some (take (length buf - 2) buf), d1)
              else (None, fail_with ''unescaped ]]> not in CDATA section'' d1))
           else if b = CHR ''<'' \<and> \<not> cdata then
             (if quote \<noteq> None then (None, fail_with ''unescaped < inside quoted string'' d1) else (Some buf, ungetc b d1))
           else if quote = Some b then (Some buf, d1)
           else if b = CHR ''&'' \<and> \<not> cdata then
             (case read_entity d1 of
                (None, d2) \<Rightarrow> (None, d2)
              | (Some (raw, Some t), d2) \<Rightarrow> text_loop quote cdata d2 (buf @ t) (CHR 0x00) (CHR 0x00)
              | (Some (raw, None), d2) \<Rightarrow>
                  (if \<not> xd_Strict d2 then text_loop quote cdata d2 (buf @ raw) (CHR 0x00) (CHR 0x00)
                   else (None, fail_with (''invalid character entity '' @ raw @
                     (if last raw \<noteq> CHR '';'' then '' (no semicolon)'' else [])) d2)))
           else
             text_loop quote cdata d1
               (if b = creturn then buf @ [newline] else if b1 = creturn \<and> b = newline then buf else buf @ [b]) b1 b))"
  by pat_completeness auto

termination
  by (relation "measure (\<lambda>(quote, cdata, d, buf, b0, b1). left d)")
    (auto dest!: left_getc [OF sym] read_entity_left [OF sym])

declare text_loop.simps [simp del]

text \<open>\<open>%U\<close>\<close>

definition upperHex :: "nat \<Rightarrow> char" where
  "upperHex k = ''0123456789ABCDEF'' ! (k mod 16)"

fun formatUpper :: "nat \<Rightarrow> gostring" where
  "formatUpper n = (if n < 16 then [upperHex n] else formatUpper (n div 16) @ [upperHex n])"

declare formatUpper.simps [simp del]

definition formatU :: "nat \<Rightarrow> gostring" where
  "formatU n = (let h = formatUpper n in ''U+'' @ replicate (4 - length h) (CHR ''0'') @ h)"

text \<open>What is wrong with the first rune of a text that may not be there.\<close>

function bad_rune :: "gostring \<Rightarrow> gostring option" where
  "bad_rune buf =
     (if buf = [] then None
      else
        (let (r, size) = decodeRune buf in
         if r = 65533 \<and> size = 1 then Some ''invalid UTF-8''
         else if \<not> isInCharacterRange r then Some (''illegal character code '' @ formatU r)
         else bad_rune (drop size buf)))"
  by pat_completeness auto

termination
proof (relation "measure length", goal_cases)
  case (2 s x c n)
  then have "n = snd (decodeRune s)" by (metis snd_conv)
  with 2 decodeRune_width [of s] show ?case by (cases s) auto
qed simp

declare bad_rune.simps [simp del]

definition xml_text :: "char option \<Rightarrow> bool \<Rightarrow> decoder \<Rightarrow> gostring option \<times> decoder" where
  "xml_text quote cdata d =
     (case text_loop quote cdata d [] (CHR 0x00) (CHR 0x00) of
        (None, d1) \<Rightarrow> (None, d1)
      | (Some data, d1) \<Rightarrow>
          (case bad_rune data of None \<Rightarrow> (Some data, d1) | Some msg \<Rightarrow> (None, fail_with msg d1)))"

section \<open>Raw tokens\<close>

text \<open>Fixed bytes: they are there, another one is in the place of the \<open>i\<close>-th, or the input ends.\<close>

datatype expected = Matched decoder | Differs nat char decoder | Ended decoder

fun expect :: "gostring \<Rightarrow> nat \<Rightarrow> decoder \<Rightarrow> expected" where
  "expect [] i d = Matched d"
| "expect (c # cs) i d =
     (case mustgetc d of
        (None, d1) \<Rightarrow> Ended d1
      | (Some b, d1) \<Rightarrow> (if b \<noteq> c then Differs i b d1 else expect cs (Suc i) d1))"

text \<open>The bytes up to and with the end of an instruction and of a comment.\<close>

function pi_loop :: "decoder \<Rightarrow> gostring \<Rightarrow> char \<Rightarrow> gostring option \<times> decoder" where
  "pi_loop d buf b0 =
     (case mustgetc d of
        (None, d1) \<Rightarrow> (None, d1)
      | (Some b, d1) \<Rightarrow>
          (if b0 = CHR ''?'' \<and> b = CHR ''>'' then (Some (buf @ [b]), d1) else pi_loop d1 (buf @ [b]) b))"
  by pat_completeness auto

termination
  by (relation "measure (\<lambda>(d, buf, b0). left d)") (auto dest!: left_mustgetc [OF sym])

declare pi_loop.simps [simp del]

function comment_loop :: "decoder \<Rightarrow> gostring \<Rightarrow> char \<Rightarrow> char \<Rightarrow> gostring option \<times> decoder" where
  "comment_loop d buf b0 b1 =
     (case mustgetc d of
        (None, d1) \<Rightarrow> (None, d1)
      | (Some b, d1) \<Rightarrow>
          (if b0 = CHR ''-'' \<and> b1 = CHR ''-'' \<and> b = CHR ''>'' then (Some (buf @ [b]), d1)
           else comment_loop d1 (buf @ [b]) b1 b))"
  by pat_completeness auto

termination
  by (relation "measure (\<lambda>(d, buf, b0, b1). left d)") (auto dest!: left_mustgetc [OF sym])

declare comment_loop.simps [simp del]

definition chop :: "nat \<Rightarrow> gostring \<Rightarrow> gostring" where
  "chop k s = take (length s - k) s"

lemma comment_loop_left: "comment_loop d buf b0 b1 = (r, d') \<Longrightarrow> left d' \<le> left d"
proof (induction d buf b0 b1 rule: comment_loop.induct)
  case (1 d buf b0 b1)
  then show ?case
    by (subst (asm) (2) comment_loop.simps)
       (auto split: prod.splits option.splits if_splits dest!: mustgetc_None_left left_mustgetc)
qed

lemma expect_left:
  "expect cs i d = Matched d' \<Longrightarrow> left d' \<le> left d"
  "expect cs i d = Differs j b d' \<Longrightarrow> left d' < left d"
  by (induction cs i d rule: expect.induct)
     (force split: prod.splits option.splits if_splits dest!: left_mustgetc)+

text \<open>
  A directive: comments in it are dropped, and angle brackets in quotes do not count. A byte that
  is read already is handled first (the label \<open>HandleB\<close>).
\<close>

function directive :: "char option \<Rightarrow> decoder \<Rightarrow> gostring \<Rightarrow> char option \<Rightarrow> int \<Rightarrow> gostring option \<times> decoder" where
  "directive None d buf inquote depth =
     (case mustgetc d of
        (None, d1) \<Rightarrow> (None, d1)
      | (Some b, d1) \<Rightarrow>
          (if inquote = None \<and> b = CHR ''>'' \<and> depth = 0 then (Some buf, d1)
           else directive (Some b) d1 buf inquote depth))"
| "directive (Some b) d buf inquote depth =
     (let buf1 = buf @ [b] in
      if inquote = Some b then directive None d buf1 None depth
      else if inquote \<noteq> None then directive None d buf1 inquote depth
      else if b = CHR 39 \<or> b = CHR 34 then directive None d buf1 (Some b) depth
      else if b = CHR ''>'' then directive None d buf1 inquote (depth - 1)
      else if b = CHR ''<'' then
        (case expect ''!--'' 0 d of
           Ended d1 \<Rightarrow> (None, d1)
         | Differs i b1 d1 \<Rightarrow> directive (Some b1) d1 (buf1 @ take i ''!--'') inquote (depth + 1)
         | Matched d1 \<Rightarrow>
             (case comment_loop d1 [] (CHR 0x00) (CHR 0x00) of
                (None, d2) \<Rightarrow> (None, d2)
              | (Some _, d2) \<Rightarrow> directive None d2 buf inquote depth))
      else directive None d buf1 inquote depth)"
  by pat_completeness auto

termination
  by (relation "measure (\<lambda>(p, d, buf, q, depth). 2 * left d + (if p = None then 0 else 1))")
    (auto simp del: expect.simps dest!: left_mustgetc [OF sym] expect_left comment_loop_left [OF sym])

declare directive.simps [simp del]

text \<open>\<open>procInst\<close>: the quoted value after \<open>param=\<close>, the empty text when there is none.\<close>

fun after_param :: "gostring \<Rightarrow> gostring \<Rightarrow> gostring option" where
  "after_param p [] = (if p = [] then Some [] else None)"
| "after_param p (c # s) = (if take (length p) (c # s) = p then Some (drop (length p) (c # s)) else after_param p s)"

definition procInst :: "gostring \<Rightarrow> gostring \<Rightarrow> gostring" where
  "procInst param s =
     (case after_param (param @ ''='') s of
        None \<Rightarrow> []
      | Some [] \<Rightarrow> []
      | Some (q # v) \<Rightarrow>
          (if q \<noteq> CHR 39 \<and> q \<noteq> CHR 34 then []
           else if q \<notin> set v then [] else takeWhile (\<lambda>c. c \<noteq> q) v))"

text \<open>The branches of \<open>rawToken\<close>; no token means that the error of the decoder is the answer.\<close>

type_synonym raw = "xml_token option \<times> decoder"

definition end_tag :: "decoder \<Rightarrow> raw" where
  "end_tag d =
     (case nsname d of
        (None, d1) \<Rightarrow> (None, fail_new ''expected element name after </'' d1)
      | (Some name, d1) \<Rightarrow>
          (case mustgetc (space d1) of
             (None, d2) \<Rightarrow> (None, d2)
           | (Some b, d2) \<Rightarrow>
               (if b \<noteq> CHR ''>'' then
                  (None, fail_with (''invalid characters between </'' @ Local name @ '' and >'') d2)
                else (Some (EndElement name), d2))))"

definition proc_inst :: "decoder \<Rightarrow> raw" where
  "proc_inst d =
     (case xml_name_of d of
        (None, d1) \<Rightarrow> (None, fail_new ''expected target name after <?'' d1)
      | (Some target, d1) \<Rightarrow>
          (case pi_loop (space d1) [] (CHR 0x00) of
             (None, d2) \<Rightarrow> (None, d2)
           | (Some buf, d2) \<Rightarrow>
               (let data = chop 2 buf; ver = procInst ''version'' data; enc = procInst ''encoding'' data in
                if target = ''xml'' \<and> ver \<noteq> [] \<and> ver \<noteq> ''1.0'' then
                  (None, d2\<lparr>xd_err := Some (UnsupportedVersion ver)\<rparr>)
                else if target = ''xml'' \<and> enc \<noteq> [] \<and> enc \<noteq> ''utf-8'' \<and> enc \<noteq> ''UTF-8'' then
                  (None, d2\<lparr>xd_err := Some (UnsupportedEncoding enc)\<rparr>)
                else (Some (ProcInst target data), d2))))"

definition bang :: "decoder \<Rightarrow> raw" where
  "bang d =
     (case mustgetc d of
        (None, d1) \<Rightarrow> (None, d1)
      | (Some b, d1) \<Rightarrow>
          (if b = CHR ''-'' then
             (case mustgetc d1 of
                (None, d2) \<Rightarrow> (None, d2)
              | (Some b2, d2) \<Rightarrow>
                  (if b2 \<noteq> CHR ''-'' then (None, fail_with ''invalid sequence <!- not part of <!--'' d2)
                   else
                     (case comment_loop d2 [] (CHR 0x00) (CHR 0x00) of
                        (None, d3) \<Rightarrow> (None, d3)
                      | (Some buf, d3) \<Rightarrow> (Some (Comment (chop 3 buf)), d3))))
           else if b = CHR ''['' then
             (case expect ''CDATA['' 0 d1 of
                Ended d2 \<Rightarrow> (None, d2)
              | Differs _ _ d2 \<Rightarrow> (None, fail_with ''invalid <![ sequence'' d2)
              | Matched d2 \<Rightarrow> map_prod (map_option CharData) id (xml_text None True d2))
           else map_prod (map_option Directive) id (directive None d1 [b] None 0)))"

function bare_loop :: "decoder \<Rightarrow> gostring \<Rightarrow> gostring option \<times> decoder" where
  "bare_loop d buf =
     (case mustgetc d of
        (None, d1) \<Rightarrow> (None, d1)
      | (Some b, d1) \<Rightarrow>
          (if isNameByte b \<and> b \<noteq> CHR ''.'' then bare_loop d1 (buf @ [b]) else (Some buf, ungetc b d1)))"
  by pat_completeness auto

termination
  by (relation "measure (\<lambda>(d, buf). left d)") (auto dest!: left_mustgetc [OF sym])

declare bare_loop.simps [simp del]

definition attrval :: "decoder \<Rightarrow> gostring option \<times> decoder" where
  "attrval d =
     (case mustgetc d of
        (None, d1) \<Rightarrow> (None, d1)
      | (Some b, d1) \<Rightarrow>
          (if b = CHR 34 \<or> b = CHR 39 then xml_text (Some b) False d1
           else if xd_Strict d1 then (None, fail_with ''unquoted or missing attribute value in element'' d1)
           else bare_loop (ungetc b d1) []))"

text \<open>The attributes of a start element, and whether it ends with \<open>/>\<close>.\<close>

definition attr_value :: "xml_name \<Rightarrow> decoder \<Rightarrow> gostring option \<times> decoder" where
  "attr_value name d =
     (case mustgetc (space d) of
        (None, d1) \<Rightarrow> (None, d1)
      | (Some b, d1) \<Rightarrow>
          (if b \<noteq> CHR ''='' then
             (if xd_Strict d1 then (None, fail_with ''attribute name without = in element'' d1)
              else (Some (Local name), ungetc b d1))
           else attrval (space d1)))"

lemma space_left: "left (space d) \<le> left d"
proof (induction d rule: space.induct)
  case (1 d)
  obtain o' d1 where g: "getc d = (o', d1)" by fastforce
  show ?case
  proof (cases o')
    case None
    then show ?thesis using g getc_None_left [of d d1] by (simp add: space.simps [of d])
  next
    case (Some b)
    then show ?thesis
      using g 1 left_getc [of d b d1] left_ungetc [OF getc_unread [of d b d1], of b]
      by (auto simp: space.simps [of d])
  qed
qed

lemma text_loop_left: "text_loop quote cdata d buf b0 b1 = (Some r, d') \<Longrightarrow> left d' \<le> left d"
proof (induction quote cdata d buf b0 b1 rule: text_loop.induct)
  case (1 quote cdata d buf b0 b1)
  obtain o' d1 where g: "getc d = (o', d1)" by fastforce
  show ?case
  proof (cases o')
    case None
    then show ?thesis using g 1(4) getc_None_left [of d d1] by (auto simp: text_loop.simps [of _ _ d] split: if_splits)
  next
    case (Some b)
    have l: "Suc (left d1) = left d" and u: "left (ungetc b d1) = left d"
      using g Some left_getc left_ungetc [OF getc_unread] by auto
    show ?thesis
      using 1 g Some l u
      by (auto simp: text_loop.simps [of _ _ d] dest!: read_entity_left split: if_splits prod.splits option.splits)
         (metis le_SucI le_trans)+
  qed
qed

lemma xml_text_left: "xml_text quote cdata d = (Some r, d') \<Longrightarrow> left d' \<le> left d"
  by (auto simp: xml_text_def dest!: text_loop_left split: prod.splits option.splits)

lemma bare_loop_left: "bare_loop d buf = (Some r, d') \<Longrightarrow> left d' \<le> left d"
proof (induction d buf rule: bare_loop.induct)
  case (1 d buf)
  obtain o' d1 where m: "mustgetc d = (o', d1)" by fastforce
  show ?case
  proof (cases o')
    case None
    then show ?thesis using 1(2) m by (simp add: bare_loop.simps [of d])
  next
    case (Some b)
    then show ?thesis
      using 1 m left_mustgetc [of d b d1] left_mustgetc_ungetc [of d b d1 b]
      by (auto simp: bare_loop.simps [of d] split: if_splits)
  qed
qed

lemma attrval_left:
  assumes "attrval d = (Some r, d')"
  shows "left d' \<le> left d"
proof -
  obtain b d1 where m: "mustgetc d = (Some b, d1)" and
    "xml_text (Some b) False d1 = (Some r, d') \<or> bare_loop (ungetc b d1) [] = (Some r, d')"
    using assms by (auto simp: attrval_def split: prod.splits option.splits if_splits)
  then show ?thesis
    using left_mustgetc [OF m] left_mustgetc_ungetc [OF m, of b] by (auto dest!: xml_text_left bare_loop_left)
qed

lemma attr_value_left:
  assumes "attr_value name d = (Some r, d')"
  shows "left d' \<le> left d"
proof -
  obtain b d1 where m: "mustgetc (space d) = (Some b, d1)" and
    "d' = ungetc b d1 \<or> attrval (space d1) = (Some r, d')"
    using assms by (auto simp: attr_value_def split: prod.splits option.splits if_splits)
  then show ?thesis
    using left_mustgetc [OF m] left_mustgetc_ungetc [OF m, of b] space_left [of d] space_left [of d1]
    by (auto dest!: attrval_left)
qed

lemma nsname_left: "nsname d = (r, d') \<Longrightarrow> left d' \<le> left d"
  by (auto simp: nsname_def xml_name_of_def split: prod.splits option.splits bool.splits if_splits dest!: readName_left)

lemma readName_rest_consumes: "readName_rest d buf = ((True, r), d') \<Longrightarrow> buf \<noteq> [] \<Longrightarrow> r \<noteq> []"
proof (induction d buf rule: readName_rest.induct)
  case (1 d buf)
  then show ?case
    by (subst (asm) (2) readName_rest.simps) (auto split: prod.splits option.splits if_splits)
qed

text \<open>A name that was read has at least one byte.\<close>

lemma readName_True_left:
  assumes "readName d = ((True, r), d')"
  shows "left d' < left d"
proof -
  obtain b d1 where m: "mustgetc d = (Some b, d1)" and r: "readName_rest d1 [b] = ((True, r), d')"
    using assms by (auto simp: readName_def split: prod.splits option.splits if_splits)
  from left_mustgetc [OF m] readName_rest_left [OF r] show ?thesis by simp
qed

lemma nsname_Some_left: "nsname d = (Some r, d') \<Longrightarrow> left d' < left d"
  by (auto simp: nsname_def xml_name_of_def split: prod.splits option.splits bool.splits if_splits
      dest!: readName_True_left)

function attr_loop ::
  "decoder \<Rightarrow> (xml_name \<times> gostring) list \<Rightarrow> ((xml_name \<times> gostring) list \<times> bool) option \<times> decoder" where
  "attr_loop d attr =
     (case mustgetc (space d) of
        (None, d1) \<Rightarrow> (None, d1)
      | (Some b, d1) \<Rightarrow>
          (if b = CHR ''/'' then
             (case mustgetc d1 of
                (None, d2) \<Rightarrow> (None, d2)
              | (Some b2, d2) \<Rightarrow>
                  (if b2 \<noteq> CHR ''>'' then (None, fail_with ''expected /> in element'' d2) else (Some (attr, True), d2)))
           else if b = CHR ''>'' then (Some (attr, False), d1)
           else
             (case nsname (ungetc b d1) of
                (None, d2) \<Rightarrow> (None, fail_new ''expected attribute name in element'' d2)
              | (Some name, d2) \<Rightarrow>
                  (case attr_value name d2 of
                     (None, d3) \<Rightarrow> (None, d3)
                   | (Some val, d3) \<Rightarrow> attr_loop d3 (attr @ [(name, val)])))))"
  by pat_completeness auto

termination attr_loop
proof (relation "measure (\<lambda>(d, attr). left d)", goal_cases)
  case (2 d attr o' d1 b o2 d2 name o3 d3 val)
  then have m: "mustgetc (space d) = (Some b, d1)" and n: "nsname (ungetc b d1) = (Some name, d2)"
    and v: "attr_value name d2 = (Some val, d3)" by (metis prod.collapse)+
  from left_mustgetc_ungetc [OF m, of b] nsname_Some_left [OF n] attr_value_left [OF v] space_left [of d]
  show ?case by simp
qed simp

declare attr_loop.simps [simp del]

definition start_tag :: "decoder \<Rightarrow> raw" where
  "start_tag d =
     (case nsname d of
        (None, d1) \<Rightarrow> (None, fail_new ''expected element name after <'' d1)
      | (Some name, d1) \<Rightarrow>
          (case attr_loop d1 [] of
             (None, d2) \<Rightarrow> (None, d2)
           | (Some (attr, closed), d2) \<Rightarrow>
               (Some (StartElement name attr),
                if closed then d2\<lparr>xd_needClose := True, xd_toClose := name\<rparr> else d2)))"

definition rawToken :: "decoder \<Rightarrow> raw" where
  "rawToken d =
     (if xd_err d \<noteq> None then (None, d)
      else if xd_needClose d then (Some (EndElement (xd_toClose d)), d\<lparr>xd_needClose := False\<rparr>)
      else
        (case getc d of
           (None, d1) \<Rightarrow> (None, d1)
         | (Some b, d1) \<Rightarrow>
             (if b \<noteq> CHR ''<'' then map_prod (map_option CharData) id (xml_text None False (ungetc b d1))
              else
                (case mustgetc d1 of
                   (None, d2) \<Rightarrow> (None, d2)
                 | (Some b2, d2) \<Rightarrow>
                     (if b2 = CHR ''/'' then end_tag d2
                      else if b2 = CHR ''?'' then proc_inst d2
                      else if b2 = CHR ''!'' then bang d2
                      else start_tag (ungetc b2 d2))))))"

text \<open>The answer of a call: a token, or the error.\<close>

type_synonym answer = "(xml_token option \<times> xml_error option) \<times> decoder"

definition answer_raw :: "raw \<Rightarrow> answer" where
  "answer_raw r = (case r of (Some t, d) \<Rightarrow> ((Some t, None), d) | (None, d) \<Rightarrow> ((None, xd_err d), d))"

definition RawToken :: "decoder \<Rightarrow> answer" where
  "RawToken d = (if xd_unmarshalDepth d > 0 then ((None, Some ErrRawToken), d) else answer_raw (rawToken d))"

section \<open>Elements and name spaces\<close>

definition xmlURL :: gostring where "xmlURL = ''http://www.w3.org/XML/1998/namespace''"

definition translate :: "decoder \<Rightarrow> xml_name \<Rightarrow> bool \<Rightarrow> xml_name" where
  "translate d n isElementName =
     (if Space n = ''xmlns'' then n
      else if Space n = [] \<and> \<not> isElementName then n
      else if Space n = [] \<and> Local n = ''xmlns'' then n
      else
        (let n1 = (if Space n = ''xml'' then n\<lparr>Space := xmlURL\<rparr> else n) in
         case xd_ns d (Space n1) of
           Some v \<Rightarrow> n1\<lparr>Space := v\<rparr>
         | None \<Rightarrow> (if Space n1 = [] then n1\<lparr>Space := xd_DefaultSpace d\<rparr> else n1)))"

definition push :: "stack_entry \<Rightarrow> decoder \<Rightarrow> decoder" where
  "push s d = d\<lparr>xd_stk := s # xd_stk d\<rparr>"

definition pushElement :: "xml_name \<Rightarrow> decoder \<Rightarrow> decoder" where
  "pushElement name d = push (StkStart name) d"

definition pushNs :: "gostring \<Rightarrow> gostring \<Rightarrow> bool \<Rightarrow> decoder \<Rightarrow> decoder" where
  "pushNs local url okv d = push (StkNs local url okv) d"

text \<open>An entry for the old value, then the new value.\<close>

definition bind_ns :: "gostring \<Rightarrow> gostring \<Rightarrow> decoder \<Rightarrow> decoder" where
  "bind_ns local url d =
     (let v = xd_ns d local;
          d1 = pushNs local (case v of None \<Rightarrow> [] | Some u \<Rightarrow> u) (v \<noteq> None) d
      in d1\<lparr>xd_ns := (xd_ns d1)(local \<mapsto> url)\<rparr>)"

text \<open>The declarations of a start element: the two conditions exclude each other.\<close>

definition declare_ns :: "(xml_name \<times> gostring) \<Rightarrow> decoder \<Rightarrow> decoder" where
  "declare_ns a d =
     (if Space (fst a) = ''xmlns'' then bind_ns (Local (fst a)) (snd a) d
      else if Space (fst a) = [] \<and> Local (fst a) = ''xmlns'' then bind_ns [] (snd a) d
      else d)"

text \<open>The entries above the next element or end mark are undone.\<close>

fun undo_ns :: "stack_entry list \<Rightarrow> (gostring \<rightharpoonup> gostring) \<Rightarrow> stack_entry list \<times> (gostring \<rightharpoonup> gostring)" where
  "undo_ns (StkNs local url okv # stk) ns = undo_ns stk (ns(local := if okv then Some url else None))"
| "undo_ns stk ns = (stk, ns)"

text \<open>\<open>None\<close> is the answer \<open>false\<close>; otherwise the element, whose name can change when it is not strict.\<close>

definition popElement :: "xml_name \<Rightarrow> decoder \<Rightarrow> xml_name option \<times> decoder" where
  "popElement name d =
     (let d1 = d\<lparr>xd_stk := tl (xd_stk d)\<rparr> in
      case xd_stk d of
        StkStart sname # stk \<Rightarrow>
          (if Local sname \<noteq> Local name then
             (if \<not> xd_Strict d then (Some sname, d1\<lparr>xd_needClose := True, xd_toClose := name\<rparr>)
              else (None, fail_with (''element <'' @ Local sname @ ''> closed by </'' @ Local name @ ''>'') d1))
           else if Space sname \<noteq> Space name then
             (None, fail_with (''element <'' @ Local sname @ ''> in space '' @ Space sname @
               ''closed by </'' @ Local name @ ''> in space '' @ Space name) d1)
           else
             (let (stk', ns') = undo_ns stk (xd_ns d) in (Some name, d1\<lparr>xd_stk := stk', xd_ns := ns'\<rparr>)))
      | _ \<Rightarrow> (None, fail_with (''unexpected end element </'' @ Local name @ ''>'') d1))"

definition autoClose :: "xml_token \<Rightarrow> decoder \<Rightarrow> xml_token option" where
  "autoClose t d =
     (case xd_stk d of
        StkStart sname # _ \<Rightarrow>
          (let name = toLower (Local sname) in
           if name \<notin> toLower ` set (xd_AutoClose d) then None
           else if (case t of EndElement n \<Rightarrow> Local n = name | _ \<Rightarrow> False) then None
           else Some (EndElement sname))
      | _ \<Rightarrow> None)"

definition is_start :: "stack_entry \<Rightarrow> bool" where
  "is_start e = (case e of StkStart _ \<Rightarrow> True | _ \<Rightarrow> False)"

definition is_ns :: "stack_entry \<Rightarrow> bool" where
  "is_ns e = (case e of StkNs _ _ _ \<Rightarrow> True | _ \<Rightarrow> False)"

text \<open>Without an open element, the walk down the stack ends in a nil dereference.\<close>

definition pushEOF :: "decoder \<Rightarrow> decoder option" where
  "pushEOF d =
     (case dropWhile (\<lambda>e. \<not> is_start e) (xd_stk d) of
        [] \<Rightarrow> None
      | start # rest \<Rightarrow>
          Some (d\<lparr>xd_stk := takeWhile (\<lambda>e. \<not> is_start e) (xd_stk d) @
            start # takeWhile is_ns rest @ StkEOF # dropWhile is_ns rest\<rparr>))"

definition popEOF :: "decoder \<Rightarrow> bool \<times> decoder" where
  "popEOF d = (case xd_stk d of StkEOF # stk \<Rightarrow> (True, d\<lparr>xd_stk := stk\<rparr>) | _ \<Rightarrow> (False, d))"

text \<open>What is done with a token before it is handed out.\<close>

definition finish_token :: "xml_token \<Rightarrow> decoder \<Rightarrow> answer" where
  "finish_token t d =
     (case t of
        StartElement name attr \<Rightarrow>
          (let d1 = fold declare_ns attr d;
               name1 = translate d1 name True;
               attr1 = map (\<lambda>(n, v). (translate d1 n False, v)) attr
           in ((Some (StartElement name1 attr1), None), pushElement name1 d1))
      | EndElement name \<Rightarrow>
          (case popElement (translate d name True) d of
             (None, d1) \<Rightarrow> ((None, xd_err d1), d1)
           | (Some name1, d1) \<Rightarrow> ((Some (EndElement name1), None), d1))
      | _ \<Rightarrow> ((Some t, None), d))"

definition Token :: "decoder \<Rightarrow> answer" where
  "Token d =
     (if xd_stk d \<noteq> [] \<and> hd (xd_stk d) = StkEOF then ((None, Some EOF), d)
      else
        (case (case xd_nextToken d of
                 Some t \<Rightarrow> (Some t, d\<lparr>xd_nextToken := None\<rparr>)
               | None \<Rightarrow> rawToken d) of
           (None, d1) \<Rightarrow> ((None, xd_err d1), d1)
         | (Some t, d1) \<Rightarrow>
             (if xd_Strict d1 then finish_token t d1
              else
                (case autoClose t d1 of
                   None \<Rightarrow> finish_token t d1
                 | Some t1 \<Rightarrow> finish_token t1 (d1\<lparr>xd_nextToken := Some t\<rparr>)))))"

end
