(* ===== verification/XmlText.thy ===== *)
theory XmlText
  imports XmlDecoder
begin

text \<open>
  The decoder of \<open>internal/xml\<close> reads back what \<open>EscapeText\<close> wrote, as text between tags and as the
  value of an attribute.
\<close>

section \<open>Documents that are evaluated\<close>

lemma first_letter: "97 \<le> r \<Longrightarrow> r \<le> 122 \<Longrightarrow> unicode_Is first_chars r"
proof -
  assume r: "97 \<le> r" "r \<le> 122"
  obtain tab where tab: "first_chars = (58, 58, 1) # (65, 90, 1) # (95, 95, 1) # (97, 122, 1) # tab"
    by (simp only: first_chars_def)
  show ?thesis unfolding tab using r by simp
qed

lemma isName_letters:
  "isName_rest []"
  "97 \<le> (of_char c :: nat) \<Longrightarrow> (of_char c :: nat) \<le> 122 \<Longrightarrow> isName_rest (c # s) = isName_rest s"
  "97 \<le> (of_char c :: nat) \<Longrightarrow> (of_char c :: nat) \<le> 122 \<Longrightarrow> isName (c # s) = isName_rest s"
    apply (simp add: isName_rest.simps)
   apply (subst isName_rest.simps)
   apply (simp_all add: isName_def decodeRune_def Let_def first_letter)
  done

lemmas byte_simps = getc_def mustgetc_def ungetc_def count_byte_def newline_def creturn_def tabulator_def
  fail_new_def fail_with_def space.simps

lemmas name_simps = readName_def readName_rest.simps xml_name_of_def nsname_def split_name_def
  not_in_name_def isNameByte_def isName_letters

lemma char_codes:
  "char_of (34 :: nat) = CHR 34" "char_of (39 :: nat) = CHR 39" "char_of (38 :: nat) = CHR ''&''"
  "char_of (60 :: nat) = CHR ''<''" "char_of (62 :: nat) = CHR ''>''" "char_of (9 :: nat) = CHR 0x09"
  "char_of (10 :: nat) = CHR 0x0A" "char_of (13 :: nat) = CHR 0x0D" "CHR 0x00 \<noteq> CHR 0x0D"
  by code_simp+

section \<open>Escaped text is read back\<close>

text \<open>Nothing is unread, and there is no error.\<close>

definition reading :: "decoder \<Rightarrow> gostring \<Rightarrow> bool" where
  "reading d rest \<longleftrightarrow> xd_r d = rest \<and> xd_err d = None \<and> xd_nextByte d = None"

lemma getc_reading:
  assumes "reading d (b # rest)"
  obtains d' where "getc d = (Some b, d')" and "reading d' rest"
  using assms by (auto simp: getc_def reading_def count_byte_def)

lemma decodeRune_ascii:
  assumes "decodeRune s = (r, n)" and "s \<noteq> []" and "r < 128"
  shows "s = char_of r # tl s \<and> n = 1"
proof -
  obtain c s1 where s: "s = c # s1" using assms(2) by (cases s) auto
  have "of_char c = r \<and> n = 1"
    using assms(1,3) unfolding s decodeRune_def cont_byte_def
    by (auto simp: Let_def split: if_splits option.splits list.splits)
  then show ?thesis by (auto simp: s)
qed

text \<open>The references that are written are read as the characters they stand for.\<close>

definition written_refs :: "(gostring \<times> char) set" where
  "written_refs = {(''#34;'', CHR 34), (''#39;'', CHR 39), (''amp;'', CHR ''&''), (''lt;'', CHR ''<''), (''gt;'', CHR ''>''),
     (''#x9;'', CHR 0x09), (''#xA;'', CHR 0x0A), (''#xD;'', CHR 0x0D)}"

lemmas ref_simps = reading_def read_entity_def char_ref_def named_ref_def byte_simps name_simps ref_digits.simps
  ref_digit_def end_ref_def parse_rune_def encodeRune_def entity_text_def entity_def Let_def

lemma read_refs:
  assumes "reading d (e @ rest)" and "(e, c) \<in> written_refs"
  shows "\<exists>raw d'. read_entity d = (Some (raw, Some [c]), d') \<and> reading d' rest"
proof -
  have "reading d (''#34;'' @ rest) \<Longrightarrow> \<exists>raw d'. read_entity d = (Some (raw, Some [CHR 34]), d') \<and> reading d' rest"
    "reading d (''#39;'' @ rest) \<Longrightarrow> \<exists>raw d'. read_entity d = (Some (raw, Some [CHR 39]), d') \<and> reading d' rest"
    "reading d (''#x9;'' @ rest) \<Longrightarrow> \<exists>raw d'. read_entity d = (Some (raw, Some [CHR 0x09]), d') \<and> reading d' rest"
    "reading d (''#xA;'' @ rest) \<Longrightarrow> \<exists>raw d'. read_entity d = (Some (raw, Some [CHR 0x0A]), d') \<and> reading d' rest"
    "reading d (''#xD;'' @ rest) \<Longrightarrow> \<exists>raw d'. read_entity d = (Some (raw, Some [CHR 0x0D]), d') \<and> reading d' rest"
    "reading d (''amp;'' @ rest) \<Longrightarrow> \<exists>raw d'. read_entity d = (Some (raw, Some [CHR ''&'']), d') \<and> reading d' rest"
    "reading d (''lt;'' @ rest) \<Longrightarrow> \<exists>raw d'. read_entity d = (Some (raw, Some [CHR ''<'']), d') \<and> reading d' rest"
    "reading d (''gt;'' @ rest) \<Longrightarrow> \<exists>raw d'. read_entity d = (Some (raw, Some [CHR ''>'']), d') \<and> reading d' rest"
    by (simp_all add: ref_simps char_codes)
  with assms show ?thesis unfolding written_refs_def by blast
qed

text \<open>The bytes that are written as they are, of a rune that is not escaped.\<close>

definition raw_byte :: "char \<Rightarrow> bool" where
  "raw_byte c \<longleftrightarrow> c \<notin> {CHR ''<'', CHR ''>'', CHR ''&'', CHR 34, CHR 39, creturn}"

lemma text_loop_raw:
  assumes "reading d (bs @ rest)" and "list_all raw_byte bs" and "q = None \<or> q = Some (CHR 34) \<or> q = Some (CHR 39)"
    and "b1 \<noteq> creturn"
  shows "\<exists>d' b0' b1'. text_loop q False d buf b0 b1 = text_loop q False d' (buf @ bs) b0' b1' \<and>
    reading d' rest \<and> b1' \<noteq> creturn"
  using assms
proof (induction bs arbitrary: d buf b0 b1)
  case Nil
  then show ?case by (intro exI [of _ d] exI [of _ b0] exI [of _ b1]) simp
next
  case (Cons b bs)
  from getc_reading [of d b "bs @ rest"] Cons.prems(1) obtain d1 where g: "getc d = (Some b, d1)" "reading d1 (bs @ rest)"
    by auto
  have b: "b \<noteq> creturn" "b \<notin> {CHR ''<'', CHR ''>'', CHR ''&'', CHR 34, CHR 39}"
    using Cons.prems(2) by (auto simp: raw_byte_def)
  have "text_loop q False d buf b0 b1 = text_loop q False d1 (buf @ [b]) b1 b"
    using g(1) b Cons.prems(3,4) by (subst text_loop.simps) auto
  with Cons.IH [OF g(2), of b "buf @ [b]" b1] Cons.prems(2,3) b(1) show ?case by auto
qed

lemma text_loop_ref:
  assumes "reading d (CHR ''&'' # e @ rest)" and "q = None \<or> q = Some (CHR 34) \<or> q = Some (CHR 39)"
    and "(e, c) \<in> written_refs"
  shows "\<exists>d'. text_loop q False d buf b0 b1 = text_loop q False d' (buf @ [c]) (CHR 0x00) (CHR 0x00) \<and> reading d' rest"
proof -
  from getc_reading [OF assms(1)] obtain d1 where g: "getc d = (Some (CHR ''&''), d1)" "reading d1 (e @ rest)" .
  from read_refs [OF g(2) assms(3)] obtain raw d' where
    e: "read_entity d1 = (Some (raw, Some [c]), d')" "reading d' rest" by blast
  have "text_loop q False d buf b0 b1 = text_loop q False d' (buf @ [c]) (CHR 0x00) (CHR 0x00)"
    using g(1) e(1) assms(2) by (subst text_loop.simps) auto
  with e(2) show ?thesis by blast
qed

lemma escape_rune_refs:
  assumes "escape_rune nl r n = Some esc" and "isInCharacterRange r" and "\<not> (r = 65533 \<and> n = 1)"
  shows "r < 128 \<and> (\<exists>e. esc = CHR ''&'' # e \<and> (e, char_of r) \<in> written_refs)"
  using assms by (auto simp: escape_rune_def written_refs_def char_codes split: if_splits)

lemma raw_bytes:
  assumes "escape_rune nl r n = None" and "decodeRune s = (r, n)" and "s \<noteq> []" and "\<not> (r = 65533 \<and> n = 1)"
  shows "list_all raw_byte (take n s)"
proof -
  have r: "r \<notin> {34, 38, 39, 60, 62, 13}" using assms(1) by (auto simp: escape_rune_def split: if_splits)
  have "raw_byte c" if "c \<in> set (take n s)" for c
  proof -
    have "of_char c \<notin> {34, 38, 39, 60, 62, 13 :: nat}"
      using decodeRune_bytes [OF assms(2,3) _ that] assms(4) r by auto
    then show ?thesis by (auto simp: raw_byte_def creturn_def)
  qed
  then show ?thesis by (simp add: list_all_iff)
qed

text \<open>The loop over escaped text collects the text.\<close>

lemma text_loop_escaped:
  assumes "reading d (escapeText nl s @ rest)" and "bad_rune s = None"
    and "q = None \<or> q = Some (CHR 34) \<or> q = Some (CHR 39)" and "b1 \<noteq> creturn"
  shows "\<exists>d' b0' b1'. text_loop q False d buf b0 b1 = text_loop q False d' (buf @ s) b0' b1' \<and> reading d' rest \<and>
    b1' \<noteq> creturn"
  using assms
proof (induction nl s arbitrary: d buf b0 b1 rule: escapeText.induct)
  case (1 nl s)
  obtain r n where dr: "decodeRune s = (r, n)" by fastforce
  show ?case
  proof (cases "s = []")
    case True
    then have "reading d rest" using "1.prems"(1) by (simp add: escapeText.simps [of nl "[]"])
    with True "1.prems"(4) show ?thesis by (intro exI [of _ d] exI [of _ b0] exI [of _ b1]) simp
  next
    case False
    have "bad_rune s = (if r = 65533 \<and> n = 1 then Some ''invalid UTF-8''
         else if \<not> isInCharacterRange r then Some (''illegal character code '' @ formatU r) else bad_rune (drop n s))"
      by (subst bad_rune.simps) (simp add: False dr)
    with "1.prems"(2) have ok: "\<not> (r = 65533 \<and> n = 1)" "isInCharacterRange r" "bad_rune (drop n s) = None"
      by (simp_all split: if_splits)
    let ?out = "case escape_rune nl r n of Some esc \<Rightarrow> esc | None \<Rightarrow> take n s"
    have "escapeText nl s = ?out @ escapeText nl (drop n s)"
      by (subst escapeText.simps) (simp add: False dr)
    with "1.prems"(1) have rd: "reading d (?out @ escapeText nl (drop n s) @ rest)" by simp
    have "\<exists>d1 c0 c1. text_loop q False d buf b0 b1 = text_loop q False d1 (buf @ take n s) c0 c1 \<and>
      reading d1 (escapeText nl (drop n s) @ rest) \<and> c1 \<noteq> creturn"
    proof (cases "escape_rune nl r n")
      case None
      show ?thesis
        by (rule text_loop_raw [OF _ raw_bytes [OF None dr False ok(1)] "1.prems"(3,4)]) (use rd None in simp)
    next
      case (Some esc)
      from escape_rune_refs [OF Some ok(2,1)] obtain e where e: "r < 128" "esc = CHR ''&'' # e"
        "(e, char_of r) \<in> written_refs" by blast
      from decodeRune_ascii [OF dr False e(1)] have t: "take n s = [char_of r]" by (cases s) auto
      have "reading d (CHR ''&'' # e @ escapeText nl (drop n s) @ rest)" using rd Some e(2) by simp
      from text_loop_ref [OF this "1.prems"(3) e(3), of buf b0 b1] obtain d1 where
        "text_loop q False d buf b0 b1 = text_loop q False d1 (buf @ take n s) (CHR 0x00) (CHR 0x00)"
        "reading d1 (escapeText nl (drop n s) @ rest)" unfolding t by blast
      then show ?thesis using char_codes(9) unfolding creturn_def by blast
    qed
    then obtain d1 c0 c1 where t: "text_loop q False d buf b0 b1 = text_loop q False d1 (buf @ take n s) c0 c1"
      "reading d1 (escapeText nl (drop n s) @ rest)" "c1 \<noteq> creturn" by blast
    from "1.IH" [OF False dr [symmetric] refl t(2) ok(3) "1.prems"(3) t(3), of "buf @ take n s" c0]
    show ?thesis unfolding t(1) by simp
  qed
qed

lemma getc_ungetc: "getc d = (Some b, d1) \<Longrightarrow> getc (ungetc b d1) = (Some b, d1)"
  by (auto simp: getc_def ungetc_def count_byte_def split: if_splits option.splits list.splits)

lemma text_loop_same_byte: "getc d = getc e \<Longrightarrow> text_loop q cdata d buf b0 b1 = text_loop q cdata e buf b0 b1"
  by (subst (1 2) text_loop.simps) simp

text \<open>What is still to come, when a byte may be unread.\<close>

definition ahead :: "decoder \<Rightarrow> gostring \<Rightarrow> bool" where
  "ahead d rest \<longleftrightarrow> xd_err d = None \<and> (case xd_nextByte d of None \<Rightarrow> xd_r d | Some b \<Rightarrow> b # xd_r d) = rest"

lemma reading_ahead: "reading d rest \<Longrightarrow> ahead d rest"
  by (simp add: reading_def ahead_def)

lemma ahead_ungetc: "reading d rest \<Longrightarrow> ahead (ungetc b d) (b # rest)"
  by (simp add: reading_def ahead_def ungetc_def)

lemma text_loop_stops:
  assumes "reading d (b # rest)" and "q = None \<and> b = CHR ''<'' \<or> q = Some b \<and> (b = CHR 34 \<or> b = CHR 39)"
  shows "\<exists>d'. text_loop q False d buf b0 b1 = (Some buf, d') \<and> ahead d' (if q = None then b # rest else rest)"
proof -
  from getc_reading [OF assms(1)] obtain d1 where g: "getc d = (Some b, d1)" "reading d1 rest" .
  then have "text_loop q False d buf b0 b1 = (Some buf, if q = None then ungetc b d1 else d1)"
    using assms(2) unfolding text_loop.simps [of q False d] by (elim disjE conjE) simp_all
  then show ?thesis using reading_ahead [OF g(2)] ahead_ungetc [OF g(2)] by simp
qed

lemma xml_text_read:
  assumes "reading d (escapeText nl s @ b # rest)" and "bad_rune s = None"
    and "q = None \<and> b = CHR ''<'' \<or> q = Some b \<and> (b = CHR 34 \<or> b = CHR 39)"
  shows "\<exists>d'. xml_text q False d = (Some s, d') \<and> ahead d' (if q = None then b # rest else rest)"
proof -
  obtain d1 b0 b1 where t: "text_loop q False d [] (CHR 0x00) (CHR 0x00) = text_loop q False d1 s b0 b1"
    and r: "reading d1 (b # rest)"
    using text_loop_escaped [OF assms(1,2), of q "CHR 0x00" "[]" "CHR 0x00"] assms(3) char_codes(9)
    unfolding creturn_def by auto
  obtain d' where "text_loop q False d1 s b0 b1 = (Some s, d')" "ahead d' (if q = None then b # rest else rest)"
    using text_loop_stops [OF r assms(3), of s b0 b1] by blast
  with assms(2) show ?thesis by (simp add: xml_text_def t)
qed

lemma xml_text_escaped:
  assumes "reading d (escapeText nl s @ b # rest)" and "bad_rune s = None"
    and "q = None \<and> b = CHR ''<'' \<or> q = Some b \<and> (b = CHR 34 \<or> b = CHR 39)"
  shows "fst (xml_text q False d) = Some s"
  using xml_text_read [OF assms] by auto

lemma reading_new: "reading (NewDecoder r e) r"
  by (simp add: reading_def NewDecoder_def)

text \<open>The value of an attribute: escaped text between quotes is read back as it was.\<close>

lemma escaped_attribute:
  assumes "reading d (b # EscapeText s @ b # rest)" and "b = CHR 34 \<or> b = CHR 39" and "bad_rune s = None"
  shows "fst (attrval d) = Some s"
proof -
  from getc_reading [OF assms(1)] obtain d1 where g: "getc d = (Some b, d1)" "reading d1 (escapeText True s @ b # rest)"
    by (auto simp: EscapeText_def)
  from xml_text_escaped [OF g(2) assms(3), of "Some b"] assms(2) g(1) show ?thesis
    by (auto simp: attrval_def mustgetc_def)
qed

lemma escapeText_starts:
  assumes "s \<noteq> []"
  obtains b t where "escapeText nl s = b # t" and "b \<noteq> CHR ''<''"
proof -
  have "escapeText nl s \<noteq> []"
  proof -
    obtain r n where dr: "decodeRune s = (r, n)" by fastforce
    have "0 < n" using decodeRune_width [OF assms] dr by simp
    then show ?thesis
      using assms by (subst escapeText.simps) (auto simp: dr escape_rune_def split: if_splits)
  qed
  then obtain b t where e: "escapeText nl s = b # t" by (cases "escapeText nl s") auto
  with escapeText_plain [of nl s] have b: "b \<noteq> CHR ''<''" by auto
  show thesis using that e b .
qed

lemma rawToken_text:
  assumes "reading d (escapeText nl s @ CHR ''<'' # rest)" and "s \<noteq> []" and "bad_rune s = None"
    and "\<not> xd_needClose d"
  shows "\<exists>d'. rawToken d = (Some (CharData s), d') \<and> ahead d' (CHR ''<'' # rest)"
proof -
  obtain d' where x: "xml_text None False d = (Some s, d')" "ahead d' (CHR ''<'' # rest)"
    using xml_text_read [OF assms(1,3), of None] by auto
  obtain b t where e: "escapeText nl s = b # t" and b: "b \<noteq> CHR ''<''" by (rule escapeText_starts [OF assms(2)])
  from getc_reading [of d b "t @ CHR ''<'' # rest"] assms(1) e obtain d1 where g: "getc d = (Some b, d1)" by auto
  have "xml_text None False (ungetc b d1) = xml_text None False d"
    unfolding xml_text_def using text_loop_same_byte [of "ungetc b d1" d] g getc_ungetc [OF g] by simp
  with g b x assms(1,4) show ?thesis by (auto simp: rawToken_def reading_def)
qed

text \<open>
  Text that was escaped is read back as it was: of the bytes \<open>escapeText\<close> writes for a text of
  valid characters, followed by a tag, the decoder makes one token, the text.
\<close>

theorem escaped_text_round_trip:
  assumes "reading d (escapeText nl s @ CHR ''<'' # rest)" and "s \<noteq> []" and "bad_rune s = None"
    and "\<not> xd_needClose d"
  shows "fst (rawToken d) = Some (CharData s)"
  using rawToken_text [OF assms] by auto

theorem escaped_text_round_trip_witness:
  "fst (rawToken (NewDecoder (escapeText False ''a<b>'' @ ''</a>'') EOF)) = Some (CharData ''a<b>'')"
proof -
  have "bad_rune ''a<b>'' = None" by (simp add: bad_rune.simps decodeRune_def isInCharacterRange_def Let_def)
  then show ?thesis
    by (intro escaped_text_round_trip [of _ _ _ "''/a>''"]) (simp_all add: reading_def NewDecoder_def)
qed

end
