(* ===== verification/XmlProps.thy ===== *)
theory XmlProps
  imports XmlText
begin

text \<open>
  What the decoder of \<open>internal/xml\<close> promises. Its tokens are properly nested, and the name spaces
  of an element end with it: the stack of the decoder, in which undo records lie below the element
  they belong to, implements a stack of scopes (\<open>scopes\<close>).
\<close>

section \<open>Reading leaves the stack and the name spaces alone\<close>

text \<open>What reading does not touch, and of that, what holds elements and name spaces.\<close>

type_synonym kept = "bool \<times> stack_entry list \<times> (gostring \<rightharpoonup> gostring) \<times> xml_token option \<times> bool \<times> xml_name \<times> gostring"

definition kept :: "decoder \<Rightarrow> kept" where
  "kept d = (xd_Strict d, xd_stk d, xd_ns d, xd_nextToken d, xd_needClose d, xd_toClose d, xd_DefaultSpace d)"

named_theorems kept_simps

lemma kept_updates [kept_simps]:
  "kept (d\<lparr>xd_err := e\<rparr>) = kept d" "kept (d\<lparr>xd_r := r\<rparr>) = kept d" "kept (d\<lparr>xd_line := l\<rparr>) = kept d"
  "kept (d\<lparr>xd_nextByte := b\<rparr>) = kept d" "kept (d\<lparr>xd_offset := k\<rparr>) = kept d" "kept (d\<lparr>xd_saved := s\<rparr>) = kept d"
  by (simp_all add: kept_def)

lemma kept_fail [kept_simps]: "kept (fail_with msg d) = kept d" "kept (fail_new msg d) = kept d"
  by (simp_all add: fail_with_def fail_new_def kept_simps)

lemma kept_ungetc [kept_simps]: "kept (ungetc b d) = kept d"
  by (simp add: kept_def ungetc_def)

lemma kept_getc: "getc d = (b, d') \<Longrightarrow> kept d' = kept d"
  by (auto simp: getc_def kept_def count_byte_def split: if_splits option.splits list.splits)

lemma kept_mustgetc: "mustgetc d = (b, d') \<Longrightarrow> kept d' = kept d"
  by (auto simp: mustgetc_def kept_simps dest!: kept_getc split: prod.splits option.splits if_splits)

lemma kept_space [kept_simps]: "kept (space d) = kept d"
proof (induction d rule: space.induct)
  case (1 d)
  then show ?case
    by (subst space.simps) (auto simp: kept_simps dest: kept_getc split: prod.splits option.splits)
qed

lemma kept_readName_rest: "readName_rest d buf = (r, d') \<Longrightarrow> kept d' = kept d"
proof (induction d buf rule: readName_rest.induct)
  case (1 d buf)
  then show ?case
    by (subst (asm) (2) readName_rest.simps)
       (auto simp: kept_simps dest!: kept_mustgetc split: prod.splits option.splits if_splits)
qed

lemma kept_readName: "readName d = (r, d') \<Longrightarrow> kept d' = kept d"
  by (auto simp: readName_def kept_simps dest!: kept_mustgetc kept_readName_rest split: prod.splits option.splits if_splits)

lemma kept_xml_name_of: "xml_name_of d = (r, d') \<Longrightarrow> kept d' = kept d"
  by (auto simp: xml_name_of_def kept_simps dest!: kept_readName split: prod.splits bool.splits if_splits)

lemma kept_nsname: "nsname d = (r, d') \<Longrightarrow> kept d' = kept d"
  by (auto simp: nsname_def dest!: kept_xml_name_of split: prod.splits option.splits)

lemma kept_ref_digits: "ref_digits base b d digits = (r, d') \<Longrightarrow> kept d' = kept d"
proof (induction base b d digits rule: ref_digits.induct)
  case (1 base b d digits)
  then show ?case
    by (subst (asm) (2) ref_digits.simps) (auto dest!: kept_mustgetc split: prod.splits option.splits if_splits)
qed

lemma kept_end_ref: "end_ref base raw r = (res, d') \<Longrightarrow> kept d' = kept (snd r)"
  by (auto simp: end_ref_def kept_simps split: prod.splits option.splits if_splits)

lemma kept_read_entity: "read_entity d = (r, d') \<Longrightarrow> kept d' = kept d"
  by (auto simp: read_entity_def char_ref_def named_ref_def kept_simps split: prod.splits option.splits if_splits
      dest!: kept_mustgetc kept_end_ref kept_readName)
     (metis kept_ref_digits prod.collapse)+

lemma kept_text_loop: "text_loop quote cdata d buf b0 b1 = (r, d') \<Longrightarrow> kept d' = kept d"
proof (induction quote cdata d buf b0 b1 rule: text_loop.induct)
  case (1 quote cdata d buf b0 b1)
  then show ?case
    by (subst (asm) (4) text_loop.simps)
       (auto simp: kept_simps dest!: kept_getc kept_read_entity split: prod.splits option.splits if_splits)
qed

lemma kept_xml_text: "xml_text quote cdata d = (r, d') \<Longrightarrow> kept d' = kept d"
  by (auto simp: xml_text_def kept_simps dest!: kept_text_loop split: prod.splits option.splits)

lemma kept_pi_loop: "pi_loop d buf b0 = (r, d') \<Longrightarrow> kept d' = kept d"
proof (induction d buf b0 rule: pi_loop.induct)
  case (1 d buf b0)
  then show ?case
    by (subst (asm) (2) pi_loop.simps) (auto dest!: kept_mustgetc split: prod.splits option.splits if_splits)
qed

lemma kept_comment_loop: "comment_loop d buf b0 b1 = (r, d') \<Longrightarrow> kept d' = kept d"
proof (induction d buf b0 b1 rule: comment_loop.induct)
  case (1 d buf b0 b1)
  then show ?case
    by (subst (asm) (2) comment_loop.simps) (auto dest!: kept_mustgetc split: prod.splits option.splits if_splits)
qed

lemma kept_expect:
  "expect cs i d = Matched d' \<Longrightarrow> kept d' = kept d"
  "expect cs i d = Differs j b d' \<Longrightarrow> kept d' = kept d"
  "expect cs i d = Ended d' \<Longrightarrow> kept d' = kept d"
  by (induction cs i d rule: expect.induct) (auto dest!: kept_mustgetc split: prod.splits option.splits if_splits)

lemma kept_directive: "directive p d buf q depth = (r, d') \<Longrightarrow> kept d' = kept d"
proof (induction p d buf q depth rule: directive.induct)
  case (1 d buf q depth)
  obtain o' d1 where m: "mustgetc d = (o', d1)" by fastforce
  with "1.prems" "1.IH" [OF m [symmetric]] kept_mustgetc [OF m] show ?case
    by (cases o') (auto simp: directive.simps(1) [of d] split: if_splits)
next
  case (2 b d buf q depth)
  note run = "2.prems" [unfolded directive.simps(2) [of b d] Let_def]
  show ?case
  proof (cases "q = None \<and> b = CHR ''<''")
    case True
    then have q: "q \<noteq> Some b" "\<not> q \<noteq> None" "\<not> (b = CHR 39 \<or> b = CHR 34)" "b \<noteq> CHR ''>''" "b = CHR ''<''" by auto
    show ?thesis
      using run q "2.IH"(5,6) [OF refl q]
      by (auto simp del: expect.simps dest!: kept_expect kept_comment_loop
          split: prod.splits option.splits expected.splits)
  next
    case False
    then show ?thesis using run "2.IH"(1-4,7) [OF refl] by (auto split: if_splits)
  qed
qed

lemma kept_bare_loop: "bare_loop d buf = (r, d') \<Longrightarrow> kept d' = kept d"
proof (induction d buf rule: bare_loop.induct)
  case (1 d buf)
  then show ?case
    by (subst (asm) (2) bare_loop.simps) (auto simp: kept_simps dest!: kept_mustgetc split: prod.splits option.splits if_splits)
qed

lemma kept_attr_value: "attr_value name d = (r, d') \<Longrightarrow> kept d' = kept d"
  by (auto simp: attr_value_def attrval_def kept_simps dest!: kept_mustgetc kept_xml_text kept_bare_loop
      split: prod.splits option.splits if_splits)

lemma kept_attr_loop: "attr_loop d attr = (r, d') \<Longrightarrow> kept d' = kept d"
proof (induction d attr rule: attr_loop.induct)
  case (1 d attr)
  then show ?case
    by (subst (asm) (2) attr_loop.simps)
       (auto simp: kept_simps dest!: kept_mustgetc kept_nsname kept_attr_value split: prod.splits option.splits if_splits)
qed

type_synonym core = "bool \<times> stack_entry list \<times> (gostring \<rightharpoonup> gostring) \<times> xml_token option"

definition core :: "decoder \<Rightarrow> core" where
  "core d = (xd_Strict d, xd_stk d, xd_ns d, xd_nextToken d)"

lemma core_of_kept: "kept d' = kept d \<Longrightarrow> core d' = core d"
  by (simp add: kept_def core_def)

lemma core_simps:
  "core (d\<lparr>xd_err := e\<rparr>) = core d" "core (d\<lparr>xd_needClose := c\<rparr>) = core d" "core (d\<lparr>xd_toClose := n\<rparr>) = core d"
  "core (fail_with msg d) = core d" "core (fail_new msg d) = core d" "core (ungetc b d) = core d" "core (space d) = core d"
proof -
  show "core (d\<lparr>xd_err := e\<rparr>) = core d" "core (d\<lparr>xd_needClose := c\<rparr>) = core d" "core (d\<lparr>xd_toClose := n\<rparr>) = core d"
    by (simp_all add: core_def)
  show "core (fail_with msg d) = core d" "core (fail_new msg d) = core d" "core (ungetc b d) = core d"
    "core (space d) = core d" by (rule core_of_kept, simp add: kept_simps)+
qed

lemmas core_reads = kept_getc [THEN core_of_kept] kept_mustgetc [THEN core_of_kept] kept_nsname [THEN core_of_kept]
  kept_xml_name_of [THEN core_of_kept] kept_pi_loop [THEN core_of_kept] kept_comment_loop [THEN core_of_kept]
  kept_expect [THEN core_of_kept] kept_xml_text [THEN core_of_kept] kept_directive [THEN core_of_kept]
  kept_attr_loop [THEN core_of_kept]

lemma map_token_source: "map_prod g id p = (r, d') \<Longrightarrow> \<exists>r'. p = (r', d')"
  by (cases p) auto

lemma core_rawToken: "rawToken d = (r, d') \<Longrightarrow> core d' = core d"
  by (auto simp: rawToken_def end_tag_def proc_inst_def bang_def start_tag_def Let_def core_simps
      split: prod.splits option.splits if_splits expected.splits simp del: expect.simps
      dest!: map_token_source core_reads)

section \<open>Scopes\<close>

lemma undo_ns_shorter: "length (fst (undo_ns stk ns)) \<le> length stk"
proof (induction stk ns rule: undo_ns.induct)
  case (1 local url okv stk ns)
  then show ?case by (simp only: undo_ns.simps list.size add_Suc_right add_0_right le_SucI)
qed simp_all

text \<open>The open elements, innermost first, each with the name spaces around it.\<close>

function scopes :: "stack_entry list \<Rightarrow> (gostring \<rightharpoonup> gostring) \<Rightarrow> (xml_name \<times> (gostring \<rightharpoonup> gostring)) list" where
  "scopes [] ns = []"
| "scopes (StkStart n # stk) ns = (n, snd (undo_ns stk ns)) # scopes (fst (undo_ns stk ns)) (snd (undo_ns stk ns))"
| "scopes (StkNs l u k # stk) ns = scopes stk ns"
| "scopes (StkEOF # stk) ns = scopes stk ns"
  by pat_completeness auto

termination
  by (relation "measure (\<lambda>(stk, ns). length stk)") (auto simp: less_Suc_eq_le case_prod_beta undo_ns_shorter)

text \<open>Between two tokens: an element is on the top of the stack, and there is no end mark.\<close>

definition settled :: "stack_entry list \<Rightarrow> bool" where
  "settled stk \<longleftrightarrow> StkEOF \<notin> set stk \<and> (stk = [] \<or> is_start (hd stk))"

definition at_rest :: "decoder \<Rightarrow> bool" where
  "at_rest d \<longleftrightarrow> xd_Strict d \<and> xd_nextToken d = None \<and> settled (xd_stk d)"

definition scopes_of :: "decoder \<Rightarrow> (xml_name \<times> (gostring \<rightharpoonup> gostring)) list" where
  "scopes_of d = scopes (xd_stk d) (xd_ns d)"

lemma undo_ns_settled: "undo_ns stk ns = (stk', ns') \<Longrightarrow> StkEOF \<notin> set stk \<Longrightarrow> settled stk'"
  by (induction stk ns rule: undo_ns.induct) (auto simp: settled_def is_start_def)

lemma undo_ns_rest: "settled stk \<Longrightarrow> undo_ns stk ns = (stk, ns)"
  by (cases stk) (auto simp: settled_def is_start_def split: stack_entry.splits)

text \<open>Declarations are undone.\<close>

lemma undo_declared:
  assumes "settled (xd_stk d)"
  shows "undo_ns (xd_stk (fold declare_ns attr d)) (xd_ns (fold declare_ns attr d)) = (xd_stk d, xd_ns d)"
proof (induction attr rule: rev_induct)
  case Nil
  then show ?case by (simp add: undo_ns_rest assms)
next
  case (snoc a attr)
  have b: "undo_ns (xd_stk (bind_ns l u e)) (xd_ns (bind_ns l u e)) = undo_ns (xd_stk e) (xd_ns e)" for l u e
    by (cases "xd_ns e l") (auto simp: bind_ns_def pushNs_def push_def Let_def fun_upd_idem fun_upd_triv)
  show ?case using snoc by (auto simp: declare_ns_def b)
qed

lemma declared_eof: "StkEOF \<in> set (xd_stk (fold declare_ns attr d)) \<longleftrightarrow> StkEOF \<in> set (xd_stk d)"
  by (induction attr rule: rev_induct) (auto simp: declare_ns_def bind_ns_def pushNs_def push_def Let_def)

lemma declared_strict:
  "xd_Strict (fold declare_ns attr d) = xd_Strict d" "xd_nextToken (fold declare_ns attr d) = xd_nextToken d"
  by (induction attr rule: rev_induct) (auto simp: declare_ns_def bind_ns_def pushNs_def push_def Let_def)

text \<open>What a token does to the scopes.\<close>

definition scope_step ::
  "xml_token \<Rightarrow> (xml_name \<times> 'e) list \<times> 'e \<Rightarrow> (xml_name \<times> 'e) list \<times> 'e \<Rightarrow> bool" where
  "scope_step t s s' \<longleftrightarrow>
     (case t of
        StartElement n _ \<Rightarrow> fst s' = (n, snd s) # fst s
      | EndElement n \<Rightarrow> fst s = (n, snd s') # fst s'
      | _ \<Rightarrow> s' = s)"

lemma finish_token_scopes:
  assumes "at_rest d" and "finish_token t d = ((Some t', e), d')"
  shows "at_rest d' \<and> scope_step t' (scopes_of d, xd_ns d) (scopes_of d', xd_ns d')"
proof (cases t)
  case (StartElement n attr)
  have s: "settled (xd_stk d)" "xd_Strict d" "xd_nextToken d = None" using assms(1) by (auto simp: at_rest_def)
  show ?thesis
    using assms(2) s undo_declared [OF s(1), of attr] declared_eof [of attr d] declared_strict [of attr d]
    by (auto simp: finish_token_def StartElement Let_def pushElement_def push_def at_rest_def scope_step_def
        scopes_of_def settled_def is_start_def)
next
  case (EndElement n)
  obtain s stk where stk: "xd_stk d = StkStart s # stk" and d': "t' = EndElement s"
    "undo_ns stk (xd_ns d) = (xd_stk d', xd_ns d')" "xd_Strict d'" "xd_nextToken d' = None"
    using assms by (auto simp: finish_token_def EndElement popElement_def at_rest_def Let_def xml_name.equality
        split: prod.splits option.splits list.splits stack_entry.splits if_splits)
  have "StkEOF \<notin> set stk" using assms(1) stk by (auto simp: at_rest_def settled_def)
  with undo_ns_settled [OF d'(2)] d' stk show ?thesis
    by (simp add: at_rest_def scope_step_def scopes_of_def)
qed (use assms in \<open>auto simp: finish_token_def scope_step_def\<close>)

lemma Token_scopes:
  assumes "at_rest d" and "Token d = ((Some t, e), d')"
  shows "at_rest d' \<and> scope_step t (scopes_of d, xd_ns d) (scopes_of d', xd_ns d')"
proof -
  obtain t0 d1 where r: "rawToken d = (Some t0, d1)" and f: "finish_token t0 d1 = ((Some t, e), d')"
  proof -
    from assms(1) have "xd_nextToken d = None" "\<not> (xd_stk d \<noteq> [] \<and> hd (xd_stk d) = StkEOF)" "xd_Strict d"
      by (auto simp: at_rest_def settled_def is_start_def split: stack_entry.splits)
    then show ?thesis using assms(2) core_rawToken [of d] that
      by (auto simp: Token_def core_def split: prod.splits option.splits if_splits)
  qed
  from core_rawToken [OF r] assms(1) have "at_rest d1" "scopes_of d1 = scopes_of d" "xd_ns d1 = xd_ns d"
    by (auto simp: core_def at_rest_def scopes_of_def)
  with finish_token_scopes [OF this(1) f] show ?thesis by simp
qed

section \<open>Sequences of tokens\<close>

text \<open>The tokens of up to \<open>n\<close> calls, until the first that has none.\<close>

fun tokens :: "nat \<Rightarrow> decoder \<Rightarrow> xml_token list \<times> decoder" where
  "tokens 0 d = ([], d)"
| "tokens (Suc n) d =
     (case Token d of
        ((Some t, _), d1) \<Rightarrow> map_prod ((#) t) id (tokens n d1)
      | ((None, _), d1) \<Rightarrow> ([], d1))"

text \<open>The elements that are open after some tokens; \<open>None\<close> when an end does not match its start.\<close>

fun open_after :: "xml_token list \<Rightarrow> xml_name list \<Rightarrow> xml_name list option" where
  "open_after [] os = Some os"
| "open_after (t # ts) os =
     (case t of
        StartElement n _ \<Rightarrow> open_after ts (n # os)
      | EndElement n \<Rightarrow>
          (case os of [] \<Rightarrow> None | m # rest \<Rightarrow> (if m = n then open_after ts rest else None))
      | _ \<Rightarrow> open_after ts os)"

lemma tokens_nested:
  "at_rest d \<Longrightarrow> tokens n d = (ts, d') \<Longrightarrow> open_after ts (map fst (scopes_of d)) \<noteq> None"
proof (induction n arbitrary: d ts)
  case (Suc n)
  obtain t e d1 where k: "Token d = ((t, e), d1)" by (metis prod.collapse)
  show ?case
  proof (cases t)
    case (Some u)
    with Suc.prems(2) k obtain ts1 where t: "ts = u # ts1" "tokens n d1 = (ts1, d')"
      by (cases "tokens n d1") auto
    from Token_scopes [OF Suc.prems(1)] k Some have a: "at_rest d1"
      and st: "scope_step u (scopes_of d, xd_ns d) (scopes_of d1, xd_ns d1)" by auto
    from Suc.IH [OF a t(2)] st show ?thesis by (auto simp: t(1) scope_step_def split: xml_token.splits)
  qed (use Suc.prems(2) k in auto)
qed simp

lemma tokens_Suc:
  assumes "tokens (Suc n) d = (ts, d')" and "length ts = Suc n"
  obtains u e d1 ts1 where "Token d = ((Some u, e), d1)" "ts = u # ts1" "tokens n d1 = (ts1, d')" "length ts1 = n"
  using assms by (cases "tokens n (snd (Token d))") (auto split: prod.splits option.splits)

lemma tokens_scoped:
  assumes "at_rest d" and "tokens n d = (ts, d')" and "length ts = n"
    and "open_after ts (map fst inner) = Some []" and "scopes_of d = inner @ outer"
    and "(if inner = [] then xd_ns d else snd (last inner)) = ns"
  shows "scopes_of d' = outer \<and> xd_ns d' = ns"
  using assms
proof (induction n arbitrary: d ts inner)
  case (Suc n)
  from Suc.prems(2,3) obtain u e d1 ts1 where k: "Token d = ((Some u, e), d1)"
    and t: "ts = u # ts1" "tokens n d1 = (ts1, d')" "length ts1 = n"
    by (rule tokens_Suc)
  from Token_scopes [OF Suc.prems(1) k] have a: "at_rest d1"
    and st: "scope_step u (scopes_of d, xd_ns d) (scopes_of d1, xd_ns d1)" by auto
  show ?case
  proof (cases u)
    case (StartElement m attr)
    show ?thesis
      by (rule Suc.IH [OF a t(2,3), of "(m, xd_ns d) # inner"])
         (use Suc.prems(4-6) st t(1) StartElement in \<open>auto simp: scope_step_def split: if_splits\<close>)
  next
    case (EndElement m)
    then obtain x rest where i: "inner = x # rest" "fst x = m" "open_after ts1 (map fst rest) = Some []"
      using Suc.prems(4) t(1) by (cases inner) (auto split: if_splits)
    show ?thesis
      by (rule Suc.IH [OF a t(2,3) i(3)])
         (use Suc.prems(5,6) st EndElement i in \<open>auto simp: scope_step_def split: if_splits\<close>)
  qed (use Suc.IH [OF a t(2,3), of inner] Suc.prems(4-6) st t(1) in \<open>auto simp: scope_step_def split: if_splits\<close>)
qed auto

lemma NewDecoder_rest: "at_rest (NewDecoder r e)" "scopes_of (NewDecoder r e) = []"
  by (simp_all add: at_rest_def scopes_of_def NewDecoder_def settled_def)

lemma tokens_rest: "at_rest d \<Longrightarrow> tokens n d = (ts, d') \<Longrightarrow> length ts = n \<Longrightarrow> at_rest d'"
proof (induction n arbitrary: d ts)
  case (Suc n)
  obtain u e d1 ts1 where k: "Token d = ((Some u, e), d1)" and t: "tokens n d1 = (ts1, d')" "length ts1 = n"
    using tokens_Suc [OF Suc.prems(2,3)] by metis
  from Token_scopes [OF Suc.prems(1) k] Suc.IH [OF _ t] show ?case by simp
qed auto

text \<open>
  C35. The tokens of a document are properly nested, whatever its bytes are: every end element the
  decoder hands out has the name, with its name space, of the innermost element that is open.
\<close>

theorem xml_tokens_nested: "open_after (fst (tokens n (NewDecoder r e))) [] \<noteq> None"
  using tokens_nested [OF NewDecoder_rest(1), of n r e] by (cases "tokens n (NewDecoder r e)") (simp add: NewDecoder_rest(2))

text \<open>
  C34. Name spaces end with their element: after any tokens of a document, a further sequence
  that closes every element it opens, and none else, leaves the name spaces as they were.
\<close>

theorem xml_name_spaces_scoped:
  assumes "tokens n (NewDecoder r e) = (ts, d)" and "length ts = n"
    and "tokens m d = (body, d')" and "length body = m" and "open_after body [] = Some []"
  shows "xd_ns d' = xd_ns d"
  using tokens_scoped [OF tokens_rest [OF NewDecoder_rest(1) assms(1,2)] assms(3,4), of "[]" "scopes_of d" "xd_ns d"] assms(5)
  by simp

lemmas decode_simps = byte_simps name_simps NewDecoder_def attr_loop.simps attr_value_def attrval_def xml_text_def
  text_loop.simps bad_rune.simps decodeRune_def isInCharacterRange_def start_tag_def end_tag_def rawToken_def Token_def
  finish_token_def declare_ns_def bind_ns_def pushNs_def push_def pushElement_def popElement_def translate_def no_name_def
  Let_def

definition nested_doc :: gostring where
  "nested_doc = ''<a xmlns='b'><c xmlns='d'/></a>''"

theorem xml_name_spaces_scoped_witness:
  "\<exists>d d' body. tokens 1 (NewDecoder nested_doc EOF) = (fst (tokens 1 (NewDecoder nested_doc EOF)), d) \<and>
     tokens 2 d = (body, d') \<and> length body = 2 \<and> xd_ns d' = xd_ns d \<and> xd_ns d' [] = Some ''b''"
proof -
  obtain ts d where d: "tokens 1 (NewDecoder nested_doc EOF) = (ts, d)" by fastforce
  obtain body d' where b: "tokens 2 d = (body, d')" by fastforce
  have l: "length ts = 1" and n: "xd_ns d [] = Some ''b''"
    using d by (auto simp: nested_doc_def decode_simps)
  have lb: "length body = 2" and o: "open_after body [] = Some []"
    using d b by (auto simp: nested_doc_def decode_simps numeral_2_eq_2)
  from xml_name_spaces_scoped [OF d l b lb o] d b lb n show ?thesis by auto
qed

end
