(* ===== verification/XmlEncoder.thy ===== *)
theory XmlEncoder
  imports XmlDecoder
begin

text \<open>
  \<open>pkg/webdav/internal/xml/marshal.go\<close>: the encoder of tokens, with the prefixes it finds for name
  spaces. What \<open>Marshal\<close> makes of Go values by reflection is left out. A printer is a record; its
  stacks have their top first, \<open>xp_out\<close> is what was written, and the writer does not fail. Whether
  \<open>bufio\<close> still holds some of it is an argument.
\<close>

section \<open>The printer\<close>

datatype printer_prefix = Mark | Undo gostring gostring

record printer =
  xp_out :: gostring
  xp_seq :: nat
  xp_indent :: gostring
  xp_prefix :: gostring
  xp_depth :: int
  xp_indentedIn :: bool
  xp_putNewline :: bool
  xp_defaultNS :: gostring
  xp_attrNS :: "gostring \<rightharpoonup> gostring"
  xp_attrPrefix :: "gostring \<rightharpoonup> gostring"
  xp_prefixes :: "printer_prefix list"
  xp_tags :: "xml_name list"

definition NewEncoder :: printer where
  "NewEncoder = \<lparr>xp_out = [], xp_seq = 0, xp_indent = [], xp_prefix = [], xp_depth = 0, xp_indentedIn = False,
     xp_putNewline = False, xp_defaultNS = [], xp_attrNS = Map.empty, xp_attrPrefix = Map.empty, xp_prefixes = [],
     xp_tags = []\<rparr>"

definition Indent :: "gostring \<Rightarrow> gostring \<Rightarrow> printer \<Rightarrow> printer" where
  "Indent pfx indent p = p\<lparr>xp_prefix := pfx, xp_indent := indent\<rparr>"

definition put_out :: "gostring \<Rightarrow> printer \<Rightarrow> printer" where
  "put_out s p = p\<lparr>xp_out := xp_out p @ s\<rparr>"

text \<open>A missing key of a map is the empty string.\<close>

definition at_key :: "(gostring \<rightharpoonup> gostring) \<Rightarrow> gostring \<Rightarrow> gostring" where
  "at_key m k = (case m k of None \<Rightarrow> [] | Some v \<Rightarrow> v)"

definition nsForPrefix :: "printer \<Rightarrow> gostring \<Rightarrow> gostring" where
  "nsForPrefix p pfx = (if pfx = [] then xp_defaultNS p else at_key (xp_attrNS p) pfx)"

definition setAttrPrefix :: "gostring \<Rightarrow> gostring \<Rightarrow> printer \<Rightarrow> printer" where
  "setAttrPrefix pfx url p =
     (if pfx = [] then p\<lparr>xp_defaultNS := url\<rparr>
      else
        (let old = at_key (xp_attrNS p) pfx; cleared = (xp_attrPrefix p)(old := None) in
         if url = [] then p\<lparr>xp_attrPrefix := cleared, xp_attrNS := (xp_attrNS p)(pfx := None)\<rparr>
         else p\<lparr>xp_attrPrefix := cleared(url \<mapsto> pfx), xp_attrNS := (xp_attrNS p)(pfx \<mapsto> url)\<rparr>))"

definition pushPrefix :: "gostring \<Rightarrow> gostring \<Rightarrow> printer \<Rightarrow> printer" where
  "pushPrefix pfx url p =
     setAttrPrefix pfx url (p\<lparr>xp_prefixes := Undo pfx (nsForPrefix p pfx) # xp_prefixes p\<rparr>)"

definition markPrefix :: "printer \<Rightarrow> printer" where
  "markPrefix p = p\<lparr>xp_prefixes := Mark # xp_prefixes p\<rparr>"

fun undo_prefixes :: "printer_prefix list \<Rightarrow> printer \<Rightarrow> printer" where
  "undo_prefixes [] p = p\<lparr>xp_prefixes := []\<rparr>"
| "undo_prefixes (Mark # rest) p = p\<lparr>xp_prefixes := rest\<rparr>"
| "undo_prefixes (Undo pfx url # rest) p = undo_prefixes rest (setAttrPrefix pfx url p)"

definition popPrefix :: "printer \<Rightarrow> printer" where
  "popPrefix p = undo_prefixes (xp_prefixes p) p"

definition prefixForNS :: "printer \<Rightarrow> gostring \<Rightarrow> bool \<Rightarrow> gostring" where
  "prefixForNS p url isAttr =
     (if url = xmlURL then ''xml''
      else if \<not> isAttr \<and> url = xp_defaultNS p then []
      else at_key (xp_attrPrefix p) url)"

datatype encode_error =
    NoStartName
  | NoEndName
  | NoStartTag
  | WrongEndTag
  | RedefinedXmlns
  | EndOfComment
  | LateDeclaration
  | InvalidTarget
  | EndOfProcInst
  | WrongMarkers

definition isNamespace :: "xml_name \<Rightarrow> bool" where
  "isNamespace n \<longleftrightarrow> Local n = ''xmlns'' \<or> Space n = ''xmlns''"

text \<open>The prefix of an attribute that defines a name space.\<close>

definition defined_prefix :: "xml_name \<times> gostring \<Rightarrow> encode_error + gostring option" where
  "defined_prefix attr =
     (let name = fst attr in
      if Local name = ''xmlns'' then
        (if Space name \<noteq> [] \<and> Space name \<noteq> ''xml'' \<and> Space name \<noteq> xmlURL then Inl RedefinedXmlns else Inr (Some []))
      else if Space name = ''xmlns'' \<and> Local name \<noteq> [] then
        (if snd attr = [] then Inr None else Inr (Some (Local name)))
      else Inr None)"

definition defineNS :: "bool \<Rightarrow> xml_name \<times> gostring \<Rightarrow> printer \<Rightarrow> encode_error option \<times> printer" where
  "defineNS ignoreNonEmptyDefault attr p =
     (case defined_prefix attr of
        Inl e \<Rightarrow> (Some e, p)
      | Inr None \<Rightarrow> (None, p)
      | Inr (Some pfx) \<Rightarrow>
          (if pfx = [] \<and> snd attr = xp_defaultNS p then (None, p)
           else if pfx = [] \<and> snd attr \<noteq> [] \<and> ignoreNonEmptyDefault then (None, p)
           else if pfx \<noteq> [] \<and> xp_attrPrefix p (snd attr) \<noteq> None then (None, p)
           else (None, pushPrefix pfx (snd attr) p)))"

text \<open>
  The search for a free name: \<open>fuel\<close> is how many are tried. There are as many taken names as
  definitions on the stack at most (lemma \<open>free_name\<close>).
\<close>

fun free_name :: "(gostring \<rightharpoonup> gostring) \<Rightarrow> gostring \<Rightarrow> nat \<Rightarrow> nat \<Rightarrow> (gostring \<times> nat) option" where
  "free_name ns pfx 0 k = None"
| "free_name ns pfx (Suc fuel) k =
     (let i = pfx @ ''_'' @ formatNat k in
      if at_key ns i = [] then Some (i, k) else free_name ns pfx fuel (Suc k))"

text \<open>The last element of the path, when it can be a prefix.\<close>

definition wanted_prefix :: "gostring \<Rightarrow> gostring" where
  "wanted_prefix url =
     (let last = afterLast (CHR ''/'') (trimRightChar url (CHR ''/''));
          name = (if last = [] \<or> \<not> isName last \<or> CHR '':'' \<in> set last then ''_'' else last)
      in if hasPrefix name ''xml'' then ''_'' @ name else name)"

definition createNSPrefix :: "gostring \<Rightarrow> bool \<Rightarrow> printer \<Rightarrow> printer" where
  "createNSPrefix url isAttr p =
     (if xp_attrPrefix p url \<noteq> None then p
      else if \<not> isAttr \<and> url = xp_defaultNS p then p
      else if url = [] then (if xp_defaultNS p \<noteq> [] then pushPrefix [] [] p else p)
      else if url = xmlURL then p
      else
        (let pfx = wanted_prefix url in
         if at_key (xp_attrNS p) pfx = [] then pushPrefix pfx url p
         else
           (case free_name (xp_attrNS p) pfx (Suc (length (xp_prefixes p))) (xp_seq p + 1) of
              None \<Rightarrow> p
            | Some (i, k) \<Rightarrow> pushPrefix i url (p\<lparr>xp_seq := k\<rparr>))))"

fun written_namespaces :: "printer_prefix list \<Rightarrow> printer \<Rightarrow> gostring" where
  "written_namespaces [] p = []"
| "written_namespaces (Mark # rest) p = []"
| "written_namespaces (Undo pfx url # rest) p =
     (if pfx = [] then '' xmlns='' @ [CHR 34] else '' xmlns:'' @ pfx @ ''='' @ [CHR 34]) @
     EscapeText (nsForPrefix p pfx) @ [CHR 34] @ written_namespaces rest p"

definition writeNamespaces :: "printer \<Rightarrow> printer" where
  "writeNamespaces p = put_out (written_namespaces (xp_prefixes p) p) p"

definition writeIndent :: "int \<Rightarrow> printer \<Rightarrow> printer" where
  "writeIndent depthDelta p =
     (if xp_prefix p = [] \<and> xp_indent p = [] then p
      else if depthDelta < 0 \<and> xp_indentedIn p then p\<lparr>xp_depth := xp_depth p - 1, xp_indentedIn := False\<rparr>
      else
        (let p1 = (if depthDelta < 0 then p\<lparr>xp_depth := xp_depth p - 1, xp_indentedIn := False\<rparr> else p);
             p2 = (if xp_putNewline p1 then put_out [newline] p1 else p1\<lparr>xp_putNewline := True\<rparr>);
             p3 = put_out (xp_prefix p2 @ concat (replicate (nat (xp_depth p2)) (xp_indent p2))) p2
         in if depthDelta > 0 then p3\<lparr>xp_depth := xp_depth p3 + 1, xp_indentedIn := True\<rparr> else p3))"

definition writeName :: "xml_name \<Rightarrow> bool \<Rightarrow> printer \<Rightarrow> printer" where
  "writeName name isAttr p =
     (let pfx = prefixForNS p (Space name) isAttr
      in put_out ((if pfx \<noteq> [] then pfx @ '':'' else []) @ Local name) p)"

text \<open>\<open>EscapeString\<close> escapes newlines, as \<open>EscapeText\<close> does.\<close>

definition EscapeString :: "gostring \<Rightarrow> printer \<Rightarrow> printer" where
  "EscapeString s p = put_out (escapeText True s) p"

fun define_all :: "bool \<Rightarrow> (xml_name \<times> gostring) list \<Rightarrow> printer \<Rightarrow> encode_error option \<times> printer" where
  "define_all ign [] p = (None, p)"
| "define_all ign (a # as) p =
     (case defineNS ign a p of (Some e, p1) \<Rightarrow> (Some e, p1) | (None, p1) \<Rightarrow> define_all ign as p1)"

definition attr_prefix :: "xml_name \<times> gostring \<Rightarrow> printer \<Rightarrow> printer" where
  "attr_prefix a p =
     (if Space (fst a) \<noteq> [] \<and> \<not> isNamespace (fst a) then createNSPrefix (Space (fst a)) True p else p)"

definition writeAttr :: "xml_name \<times> gostring \<Rightarrow> printer \<Rightarrow> printer" where
  "writeAttr a p =
     (if Local (fst a) = [] \<or> isNamespace (fst a) then p
      else put_out [CHR 34] (EscapeString (snd a) (put_out (''='' @ [CHR 34]) (writeName (fst a) True (put_out '' '' p)))))"

definition writeStart :: "xml_name \<Rightarrow> (xml_name \<times> gostring) list \<Rightarrow> printer \<Rightarrow> encode_error option \<times> printer" where
  "writeStart name attr p =
     (if Local name = [] then (Some NoStartName, p)
      else
        (case define_all (Space name = []) attr (markPrefix (p\<lparr>xp_tags := name # xp_tags p\<rparr>)) of
           (Some e, p1) \<Rightarrow> (Some e, p1)
         | (None, p1) \<Rightarrow>
             (let p2 = createNSPrefix (Space name) False (fold attr_prefix attr p1);
                  p3 = writeNamespaces (writeName name False (put_out ''<'' (writeIndent 1 p2)))
              in (None, put_out ''>'' (fold writeAttr attr p3)))))"

definition writeEnd :: "xml_name \<Rightarrow> printer \<Rightarrow> encode_error option \<times> printer" where
  "writeEnd name p =
     (if Local name = [] then (Some NoEndName, p)
      else
        (case xp_tags p of
           [] \<Rightarrow> (Some NoStartTag, p)
         | start # rest \<Rightarrow>
             (if Local start = [] then (Some NoStartTag, p)
              else if start \<noteq> name then (Some WrongEndTag, p)
              else (None, popPrefix (put_out ''>'' (writeName name False (put_out ''</'' (writeIndent (-1) (p\<lparr>xp_tags := rest\<rparr>)))))))))"

fun contains :: "gostring \<Rightarrow> gostring \<Rightarrow> bool" where
  "contains [] t \<longleftrightarrow> t = []"
| "contains (c # s) t \<longleftrightarrow> take (length t) (c # s) = t \<or> contains s t"

text \<open>
  \<open>isValidDirective\<close>: the byte, what came before it, and what comes with it.
\<close>

fun valid_directive :: "gostring \<Rightarrow> gostring \<Rightarrow> nat \<Rightarrow> char option \<Rightarrow> bool \<Rightarrow> bool" where
  "valid_directive before [] depth inquote incomment \<longleftrightarrow> depth = 0 \<and> inquote = None \<and> \<not> incomment"
| "valid_directive before (c # s) depth inquote incomment =
     (let before1 = before @ [c] in
      if incomment then
        valid_directive before1 s depth inquote (\<not> (c = CHR ''>'' \<and> hasSuffix before1 ''-->''))
      else if inquote \<noteq> None then
        valid_directive before1 s depth (if inquote = Some c then None else inquote) incomment
      else if c = CHR 39 \<or> c = CHR 34 then valid_directive before1 s depth (Some c) incomment
      else if c = CHR ''<'' then
        (if 4 < length (c # s) \<and> take 4 (c # s) = ''<!--'' then valid_directive before1 s depth inquote True
         else valid_directive before1 s (depth + 1) inquote incomment)
      else if c = CHR ''>'' then
        (if depth = 0 then False else valid_directive before1 s (depth - 1) inquote incomment)
      else valid_directive before1 s depth inquote incomment)"

definition isValidDirective :: "gostring \<Rightarrow> bool" where
  "isValidDirective dir = valid_directive [] dir 0 None False"

definition EncodeToken :: "bool \<Rightarrow> xml_token \<Rightarrow> printer \<Rightarrow> encode_error option \<times> printer" where
  "EncodeToken buffered t p =
     (case t of
        StartElement name attr \<Rightarrow> writeStart name attr p
      | EndElement name \<Rightarrow> writeEnd name p
      | CharData s \<Rightarrow> (None, put_out (escapeText False s) p)
      | Comment s \<Rightarrow>
          (if contains s ''-->'' then (Some EndOfComment, p) else (None, put_out (''<!--'' @ s @ ''-->'') p))
      | ProcInst target inst \<Rightarrow>
          (if target = ''xml'' \<and> buffered then (Some LateDeclaration, p)
           else if \<not> isName target then (Some InvalidTarget, p)
           else if contains inst ''?>'' then (Some EndOfProcInst, p)
           else (None, put_out (''<?'' @ target @ (if length inst > 0 then '' '' @ inst else []) @ ''?>'') p))
      | Directive s \<Rightarrow>
          (if \<not> isValidDirective s then (Some WrongMarkers, p) else (None, put_out (''<!'' @ s @ ''>'') p)))"

end
