(* ===== verification/XmlEncoderProps.thy ===== *)
theory XmlEncoderProps
  imports XmlEncoder XmlProps
begin

text \<open>
  What the encoder of \<open>internal/xml\<close> promises: it takes only properly nested tokens, its two maps
  between prefixes and name spaces stay inverse to each other, the end of an element restores them,
  and the search for a new prefix ends.
\<close>

section \<open>Sequences of tokens\<close>

text \<open>Tokens, each with what \<open>bufio\<close> answers before it, up to the first error.\<close>

fun encode_all :: "(bool \<times> xml_token) list \<Rightarrow> printer \<Rightarrow> encode_error option \<times> printer" where
  "encode_all [] p = (None, p)"
| "encode_all ((buffered, t) # ts) p =
     (case EncodeToken buffered t p of (Some e, p1) \<Rightarrow> (Some e, p1) | (None, p1) \<Rightarrow> encode_all ts p1)"

section \<open>Nesting\<close>

named_theorems tags_simps

lemma tags_out [tags_simps]:
  "xp_tags (put_out s p) = xp_tags p" "xp_tags (setAttrPrefix k u p) = xp_tags p" "xp_tags (markPrefix p) = xp_tags p"
  "xp_tags (writeIndent i p) = xp_tags p" "xp_tags (writeName n b p) = xp_tags p" "xp_tags (writeNamespaces p) = xp_tags p"
  "xp_tags (EscapeString s p) = xp_tags p"
  by (simp_all add: put_out_def setAttrPrefix_def markPrefix_def writeIndent_def writeName_def writeNamespaces_def
      EscapeString_def Let_def)

lemma tags_prefixes [tags_simps]:
  "xp_tags (pushPrefix k u p) = xp_tags p" "xp_tags (undo_prefixes st p) = xp_tags p" "xp_tags (popPrefix p) = xp_tags p"
  "xp_tags (createNSPrefix u b p) = xp_tags p" "xp_tags (attr_prefix a p) = xp_tags p" "xp_tags (writeAttr a p) = xp_tags p"
proof -
  show push: "xp_tags (pushPrefix k u p) = xp_tags p" for k u p by (simp add: pushPrefix_def tags_simps)
  show undo: "xp_tags (undo_prefixes st p) = xp_tags p" for st p
    by (induction st p rule: undo_prefixes.induct) (simp_all add: tags_simps)
  show "xp_tags (popPrefix p) = xp_tags p" by (simp add: popPrefix_def undo)
  show cr: "xp_tags (createNSPrefix u b p) = xp_tags p" for u b p
    by (simp add: createNSPrefix_def push Let_def split: option.splits)
  show "xp_tags (attr_prefix a p) = xp_tags p" by (simp add: attr_prefix_def cr)
  show "xp_tags (writeAttr a p) = xp_tags p" by (simp add: writeAttr_def tags_simps)
qed

lemma tags_fold [tags_simps]:
  "xp_tags (fold attr_prefix as p) = xp_tags p" "xp_tags (fold writeAttr as p) = xp_tags p"
  by (induction as arbitrary: p) (simp_all add: tags_simps)

lemma tags_defineNS [tags_simps]: "xp_tags (snd (defineNS ign a p)) = xp_tags p"
  by (simp add: defineNS_def tags_simps split: sum.split option.split)

lemma tags_define_all: "xp_tags (snd (define_all ign as p)) = xp_tags p"
proof (induction as arbitrary: p)
  case (Cons a as)
  obtain e p1 where "defineNS ign a p = (e, p1)" by force
  then show ?case using tags_defineNS [of ign a p] Cons [of p1] by (cases e) simp_all
qed simp

lemma writeStart_nested:
  assumes "writeStart n as p = (None, p')"
  shows "xp_tags p' = n # xp_tags p"
proof -
  obtain p1 where "define_all (Space n = []) as (markPrefix (p\<lparr>xp_tags := n # xp_tags p\<rparr>)) = (None, p1)"
    and "p' = put_out ''>'' (fold writeAttr as (writeNamespaces (writeName n False (put_out ''<''
      (writeIndent 1 (createNSPrefix (Space n) False (fold attr_prefix as p1)))))))"
    using assms by (auto simp: writeStart_def Let_def split: if_splits prod.splits option.splits)
  then show ?thesis
    using tags_define_all [of "Space n = []" as "markPrefix (p\<lparr>xp_tags := n # xp_tags p\<rparr>)"] by (simp add: tags_simps)
qed

lemma writeEnd_nested:
  assumes "writeEnd n p = (None, p')"
  shows "xp_tags p = n # xp_tags p'"
  using assms by (auto simp: writeEnd_def tags_simps split: if_splits list.splits)

lemma EncodeToken_nested:
  assumes "EncodeToken b t p = (None, p')"
  shows "open_after (t # ts) (xp_tags p) = open_after ts (xp_tags p')"
proof (cases t)
  case (StartElement n as)
  then show ?thesis using assms by (simp add: EncodeToken_def writeStart_nested)
next
  case (EndElement n)
  then show ?thesis using assms by (simp add: EncodeToken_def writeEnd_nested)
qed (use assms in \<open>auto simp: EncodeToken_def tags_simps split: if_splits\<close>)

text \<open>
  The encoder takes only what is properly nested: when a sequence of tokens was encoded without
  an error, every end element in it matches the innermost start element that was open.
\<close>

theorem encoder_accepts_nested:
  assumes "encode_all bts p = (None, p')"
  shows "open_after (map snd bts) (xp_tags p) = Some (xp_tags p')"
  using assms
proof (induction bts p rule: encode_all.induct)
  case (2 b t bts p)
  then obtain p1 where "EncodeToken b t p = (None, p1)" "encode_all bts p1 = (None, p')"
    by (auto split: prod.splits option.splits)
  with 2 EncodeToken_nested show ?case by simp
qed simp

lemmas encode_simps =
  EncodeToken_def NewEncoder_def writeStart_def writeEnd_def markPrefix_def createNSPrefix_def writeIndent_def
  writeName_def writeNamespaces_def put_out_def popPrefix_def prefixForNS_def xmlURL_def Let_def

theorem encoder_accepts_nested_witness:
  "\<exists>p'. encode_all [(False, StartElement \<lparr>Space = [], Local = ''a''\<rparr> []),
      (True, EndElement \<lparr>Space = [], Local = ''a''\<rparr>)] NewEncoder = (None, p') \<and>
    open_after (map snd [(False, StartElement \<lparr>Space = [], Local = ''a''\<rparr> []),
      (True, EndElement \<lparr>Space = [], Local = ''a''\<rparr>)]) (xp_tags NewEncoder) = Some (xp_tags p')"
proof -
  let ?bts = "[(False, StartElement \<lparr>Space = [], Local = ''a''\<rparr> []), (True, EndElement \<lparr>Space = [], Local = ''a''\<rparr>)]"
  obtain p' where "encode_all ?bts NewEncoder = (None, p')" by (simp add: encode_simps)
  then show ?thesis using encoder_accepts_nested [of ?bts NewEncoder p'] by blast
qed

section \<open>Prefixes and name spaces\<close>

text \<open>
  \<open>inverse_maps\<close>: a prefix stands for a name space exactly when the name space is written with that
  prefix. \<open>stack_ok\<close>: this holds now and after every undo, and a stack of \<open>n\<close> entries has at most
  \<open>n\<close> prefixes.
\<close>

definition inverse_maps :: "printer \<Rightarrow> bool" where
  "inverse_maps p \<longleftrightarrow> (\<forall>k u. xp_attrNS p k = Some u \<longleftrightarrow> xp_attrPrefix p u = Some k) \<and>
     xp_attrNS p [] = None \<and> xp_attrPrefix p [] = None"

fun stack_ok :: "printer_prefix list \<Rightarrow> printer \<Rightarrow> bool" where
  "stack_ok [] p \<longleftrightarrow> inverse_maps p \<and> dom (xp_attrNS p) = {}"
| "stack_ok (Mark # st) p \<longleftrightarrow> stack_ok st p"
| "stack_ok (Undo k u # st) p \<longleftrightarrow>
     inverse_maps p \<and> finite (dom (xp_attrNS p)) \<and> card (dom (xp_attrNS p)) \<le> Suc (length st) \<and>
     stack_ok st (setAttrPrefix k u p)"

definition maps :: "printer \<Rightarrow> gostring \<times> (gostring \<rightharpoonup> gostring) \<times> (gostring \<rightharpoonup> gostring)" where
  "maps p = (xp_defaultNS p, xp_attrNS p, xp_attrPrefix p)"

lemma inverse_maps_cong: "maps p = maps q \<Longrightarrow> inverse_maps p = inverse_maps q"
  by (simp add: maps_def inverse_maps_def)

lemma maps_setAttrPrefix: "maps p = maps q \<Longrightarrow> maps (setAttrPrefix k u p) = maps (setAttrPrefix k u q)"
  by (simp add: maps_def setAttrPrefix_def Let_def)

lemma stack_ok_cong: "maps p = maps q \<Longrightarrow> stack_ok st p = stack_ok st q"
proof (induction st p arbitrary: q rule: stack_ok.induct)
  case (3 k u st p)
  then show ?case
    using inverse_maps_cong [OF 3(2)] 3(1) [OF maps_setAttrPrefix [OF 3(2)]] by (simp add: maps_def)
next
  case (1 p)
  then show ?case using inverse_maps_cong [OF 1] by (simp add: maps_def)
qed simp

lemma stack_ok_here: "stack_ok st p \<Longrightarrow> inverse_maps p"
  by (induction st p rule: stack_ok.induct) auto

lemma stack_ok_count: "stack_ok st p \<Longrightarrow> finite (dom (xp_attrNS p)) \<and> card (dom (xp_attrNS p)) \<le> length st"
  by (induction st p rule: stack_ok.induct) auto

text \<open>A definition is undone by its record.\<close>

lemma setAttrPrefix_maps:
  "k \<noteq> [] \<Longrightarrow> u \<noteq> [] \<Longrightarrow> maps (setAttrPrefix k u p) =
     (xp_defaultNS p, (xp_attrNS p)(k \<mapsto> u), (xp_attrPrefix p)(at_key (xp_attrNS p) k := None, u \<mapsto> k))"
  "k \<noteq> [] \<Longrightarrow> maps (setAttrPrefix k [] p) =
     (xp_defaultNS p, (xp_attrNS p)(k := None), (xp_attrPrefix p)(at_key (xp_attrNS p) k := None))"
  "maps (setAttrPrefix [] u p) = (u, xp_attrNS p, xp_attrPrefix p)"
  by (simp_all add: maps_def setAttrPrefix_def Let_def)

lemma undo_define:
  assumes "inverse_maps p" and "k = [] \<or> u \<noteq> [] \<and> xp_attrPrefix p u = None"
  shows "maps (setAttrPrefix k (nsForPrefix p k) (setAttrPrefix k u p)) = maps p"
proof (cases "k = []")
  case False
  then have u: "u \<noteq> []" "xp_attrPrefix p u = None" using assms(2) by auto
  show ?thesis
  proof (cases "xp_attrNS p k")
    case None
    have "xp_attrPrefix p [] = None" using assms(1) by (simp add: inverse_maps_def)
    then show ?thesis using False u None
      by (auto simp: maps_def setAttrPrefix_def nsForPrefix_def at_key_def fun_eq_iff)
  next
    case (Some v)
    have "v \<noteq> []" "xp_attrPrefix p v = Some k" using assms(1) Some by (auto simp: inverse_maps_def)
    then show ?thesis using False u Some
      by (auto simp: maps_def setAttrPrefix_def nsForPrefix_def at_key_def fun_eq_iff)
  qed
qed (simp add: maps_def setAttrPrefix_def nsForPrefix_def)

lemma inverse_define:
  assumes "inverse_maps p" and "k = [] \<or> u \<noteq> [] \<and> xp_attrPrefix p u = None"
  shows "inverse_maps (setAttrPrefix k u p)"
proof (cases "k = []")
  case True
  then show ?thesis using assms(1) by (simp add: inverse_maps_def setAttrPrefix_def)
next
  case False
  then have u: "u \<noteq> []" "xp_attrPrefix p u = None" using assms(2) by auto
  have inv: "xp_attrNS p k' = Some u' \<longleftrightarrow> xp_attrPrefix p u' = Some k'" and nil: "xp_attrNS p [] = None" "xp_attrPrefix p [] = None"
    for k' u' using assms(1) by (auto simp: inverse_maps_def)
  have "((xp_attrNS p)(k \<mapsto> u)) k' = Some u' \<longleftrightarrow>
      ((xp_attrPrefix p)(at_key (xp_attrNS p) k := None, u \<mapsto> k)) u' = Some k'" for k' u'
  proof (cases "xp_attrNS p k")
    case None
    then show ?thesis using inv [of k' u'] inv [of k u'] nil u by (auto simp: at_key_def)
  next
    case (Some v)
    then show ?thesis using inv [of k' u'] inv [of k u'] inv [of k' v] nil u by (auto simp: at_key_def)
  qed
  then show ?thesis using setAttrPrefix_maps(1) [OF False u(1), of p] False u(1) nil
    by (simp add: inverse_maps_def maps_def del: fun_upd_apply) simp
qed

lemma dom_define:
  assumes "k = [] \<or> u \<noteq> []"
  shows "dom (xp_attrNS (setAttrPrefix k u p)) \<subseteq> insert k (dom (xp_attrNS p))"
  using assms by (auto simp: setAttrPrefix_def Let_def split: if_splits)

text \<open>\<open>prefixes_ok\<close>: the stack of a printer undoes its maps.\<close>

abbreviation prefixes_ok :: "printer \<Rightarrow> bool" where
  "prefixes_ok p \<equiv> stack_ok (xp_prefixes p) p"

lemma prefixes_ok_cong:
  "maps p = maps q \<Longrightarrow> xp_prefixes p = xp_prefixes q \<Longrightarrow> prefixes_ok p = prefixes_ok q"
  by (metis stack_ok_cong)

lemma pushPrefix_ok:
  assumes "prefixes_ok p" and new: "k = [] \<or> u \<noteq> [] \<and> xp_attrPrefix p u = None"
  shows "prefixes_ok (pushPrefix k u p)"
proof -
  let ?q = "p\<lparr>xp_prefixes := Undo k (nsForPrefix p k) # xp_prefixes p\<rparr>"
  have q: "maps ?q = maps p" by (simp add: maps_def)
  have inv: "inverse_maps p" by (rule stack_ok_here [OF assms(1)])
  note count = stack_ok_count [OF assms(1)]
  have pq: "maps (pushPrefix k u p) = maps (setAttrPrefix k u p)"
    unfolding pushPrefix_def by (rule maps_setAttrPrefix [OF q])
  have stk: "xp_prefixes (pushPrefix k u p) = Undo k (nsForPrefix p k) # xp_prefixes p"
    by (simp add: pushPrefix_def setAttrPrefix_def Let_def)
  have dom: "dom (xp_attrNS (setAttrPrefix k u p)) \<subseteq> insert k (dom (xp_attrNS p))"
    using new by (intro dom_define) auto
  then have fin: "finite (dom (xp_attrNS (setAttrPrefix k u p)))"
    using count finite_subset by blast
  have "card (dom (xp_attrNS (setAttrPrefix k u p))) \<le> card (insert k (dom (xp_attrNS p)))"
    using dom count by (intro card_mono) auto
  also have "\<dots> \<le> Suc (length (xp_prefixes p))" using count card_insert_le_m1 [of "Suc (card (dom (xp_attrNS p)))"]
    by (simp add: card_insert_if)
  finally have card: "card (dom (xp_attrNS (setAttrPrefix k u p))) \<le> Suc (length (xp_prefixes p))" .
  have undo: "maps (setAttrPrefix k (nsForPrefix p k) (setAttrPrefix k u p)) = maps p"
    by (rule undo_define [OF inv new])
  have "stack_ok (Undo k (nsForPrefix p k) # xp_prefixes p) (setAttrPrefix k u p)"
    using inverse_define [OF inv new] fin card assms(1) stack_ok_cong [OF undo] by simp
  then show ?thesis using stack_ok_cong [OF pq] stk by simp
qed

lemma undo_prefixes_ok: "stack_ok st p \<Longrightarrow> prefixes_ok (undo_prefixes st p)"
proof (induction st p rule: undo_prefixes.induct)
  case (1 p)
  then show ?case using inverse_maps_cong [of p "p\<lparr>xp_prefixes := []\<rparr>"] by (simp add: maps_def)
next
  case (2 st p)
  then show ?case using stack_ok_cong [of p "p\<lparr>xp_prefixes := st\<rparr>" st] by (simp add: maps_def)
qed simp

lemma popPrefix_ok: "prefixes_ok p \<Longrightarrow> prefixes_ok (popPrefix p)"
  by (simp add: popPrefix_def undo_prefixes_ok)

lemma defined_prefix_value: "defined_prefix a = Inr (Some k) \<Longrightarrow> k = [] \<or> snd a \<noteq> []"
  by (cases "Local (fst a) = ''xmlns''"; cases "Space (fst a) = ''xmlns''")
     (simp_all add: defined_prefix_def Let_def split: if_splits)

lemma defineNS_ok:
  assumes "prefixes_ok p" shows "prefixes_ok (snd (defineNS ign a p))"
proof (cases "defined_prefix a")
  case (Inr o')
  show ?thesis
  proof (cases o')
    case (Some k)
    have "prefixes_ok (pushPrefix [] u p)" for u by (intro pushPrefix_ok assms) simp
    then show ?thesis using Some Inr assms defined_prefix_value [of a k] pushPrefix_ok [OF assms, of k "snd a"]
      by (cases "k = []") (simp_all add: defineNS_def)
  qed (simp add: defineNS_def Inr assms)
qed (simp add: defineNS_def assms)

lemma define_all_ok: "prefixes_ok p \<Longrightarrow> prefixes_ok (snd (define_all ign as p))"
proof (induction as arbitrary: p)
  case (Cons a as)
  obtain e p1 where "defineNS ign a p = (e, p1)" by force
  then show ?case using defineNS_ok [of p ign a] Cons by (cases e) simp_all
qed simp

lemma wanted_prefix_not_Nil: "wanted_prefix url \<noteq> []"
  by (simp add: wanted_prefix_def Let_def)

lemma free_name_not_Nil: "free_name ns pfx n k = Some (i, j) \<Longrightarrow> i \<noteq> []"
  by (induction ns pfx n k rule: free_name.induct) (auto simp: Let_def split: if_splits)

lemma createNSPrefix_ok:
  assumes "prefixes_ok p" shows "prefixes_ok (createNSPrefix url isAttr p)"
proof -
  have seq: "prefixes_ok (p\<lparr>xp_seq := j\<rparr>)" for j
    using assms prefixes_ok_cong [of p "p\<lparr>xp_seq := j\<rparr>"] by (simp add: maps_def)
  show ?thesis
    using assms pushPrefix_ok [OF assms, of "[]" "[]"] pushPrefix_ok [OF assms, of "wanted_prefix url" url]
      pushPrefix_ok [OF seq, of _ url]
    by (simp add: createNSPrefix_def Let_def split: option.split)
qed

lemma attr_prefix_ok: "prefixes_ok p \<Longrightarrow> prefixes_ok (attr_prefix a p)"
  by (simp add: attr_prefix_def createNSPrefix_ok)

lemma attr_prefixes_ok: "prefixes_ok p \<Longrightarrow> prefixes_ok (fold attr_prefix as p)"
  by (induction as arbitrary: p) (simp_all add: attr_prefix_ok)

text \<open>What only writes keeps the maps and the stack.\<close>

definition frame :: "printer \<Rightarrow> (gostring \<times> (gostring \<rightharpoonup> gostring) \<times> (gostring \<rightharpoonup> gostring)) \<times> printer_prefix list" where
  "frame p = (maps p, xp_prefixes p)"

lemma prefixes_ok_frame: "frame p = frame q \<Longrightarrow> prefixes_ok p = prefixes_ok q"
  by (rule prefixes_ok_cong) (simp_all add: frame_def)

lemma frame_out:
  "frame (put_out s p) = frame p" "frame (writeIndent i p) = frame p" "frame (writeName n b p) = frame p"
  "frame (writeNamespaces p) = frame p" "frame (EscapeString s p) = frame p" "frame (p\<lparr>xp_tags := ts\<rparr>) = frame p"
  by (simp_all add: put_out_def writeIndent_def writeName_def writeNamespaces_def EscapeString_def Let_def frame_def maps_def)

lemma frame_attrs: "frame (fold writeAttr as p) = frame p"
  by (induction as arbitrary: p) (simp_all add: writeAttr_def frame_out)

lemma writeStart_ok:
  assumes "prefixes_ok p" shows "prefixes_ok (snd (writeStart n as p))"
proof -
  let ?m = "markPrefix (p\<lparr>xp_tags := n # xp_tags p\<rparr>)"
  have "stack_ok (xp_prefixes p) ?m" using assms stack_ok_cong [of p ?m "xp_prefixes p"] by (simp add: maps_def markPrefix_def)
  then have m: "prefixes_ok ?m" by (simp add: markPrefix_def)
  obtain e p1 where d: "define_all (Space n = []) as ?m = (e, p1)" by force
  then have p1: "prefixes_ok p1" using define_all_ok [OF m, of "Space n = []" as] by simp
  let ?p2 = "createNSPrefix (Space n) False (fold attr_prefix as p1)"
  have p2: "prefixes_ok ?p2" by (intro createNSPrefix_ok attr_prefixes_ok p1)
  show ?thesis
  proof (cases "Local n = []")
    case True
    then show ?thesis using assms by (simp add: writeStart_def)
  next
    case False
    show ?thesis
    proof (cases e)
      case None
      then have "frame (snd (writeStart n as p)) = frame ?p2"
        using False d by (simp add: writeStart_def Let_def frame_out frame_attrs)
      then show ?thesis using p2 prefixes_ok_frame by blast
    next
      case (Some x)
      then show ?thesis using False d p1 by (simp add: writeStart_def)
    qed
  qed
qed

lemma writeEnd_ok:
  assumes "prefixes_ok p" shows "prefixes_ok (snd (writeEnd n p))"
proof -
  have "prefixes_ok (popPrefix q)" if "frame q = frame p" for q
    using that assms prefixes_ok_frame popPrefix_ok by metis
  then show ?thesis using assms by (simp add: writeEnd_def frame_out split: list.split)
qed

lemma EncodeToken_ok: "prefixes_ok p \<Longrightarrow> prefixes_ok (snd (EncodeToken b t p))"
  using prefixes_ok_frame [OF frame_out(1)]
  by (simp add: EncodeToken_def writeStart_ok writeEnd_ok split: xml_token.split)

lemma encode_all_ok: "prefixes_ok p \<Longrightarrow> prefixes_ok (snd (encode_all bts p))"
proof (induction bts arbitrary: p)
  case (Cons bt bts)
  obtain b t where bt: "bt = (b, t)" by force
  obtain e p1 where "EncodeToken b t p = (e, p1)" by force
  then show ?case using EncodeToken_ok [of p b t] Cons bt by (cases e) simp_all
qed simp

lemma NewEncoder_ok: "prefixes_ok NewEncoder"
  by (simp add: NewEncoder_def inverse_maps_def)

section \<open>A new prefix is found\<close>

lemma free_name_None:
  "free_name ns pfx fuel k = None \<Longrightarrow> (\<lambda>j. pfx @ ''_'' @ formatNat j) ` {k..<k + fuel} \<subseteq> dom ns"
proof (induction ns pfx fuel k rule: free_name.induct)
  case (2 ns pfx fuel k)
  then have "pfx @ ''_'' @ formatNat k \<in> dom ns"
    and "(\<lambda>j. pfx @ ''_'' @ formatNat j) ` {Suc k..<Suc k + fuel} \<subseteq> dom ns"
    by (auto simp: Let_def at_key_def split: if_splits option.splits)
  moreover have "{k..<k + Suc fuel} = insert k {Suc k..<Suc k + fuel}" by auto
  ultimately show ?case by simp
qed simp

lemma free_name:
  assumes "finite (dom ns)" "card (dom ns) < fuel"
  shows "free_name ns pfx fuel k \<noteq> None"
proof
  assume "free_name ns pfx fuel k = None"
  then have "card ((\<lambda>j. pfx @ ''_'' @ formatNat j) ` {k..<k + fuel}) \<le> card (dom ns)"
    using assms(1) by (intro card_mono free_name_None)
  moreover have "inj_on (\<lambda>j. pfx @ ''_'' @ formatNat j) {k..<k + fuel}"
    by (auto intro: inj_onI dest: formatNat_inj)
  ultimately show False using assms(2) by (simp add: card_image)
qed

text \<open>
  C37. A prefix stands for one name space, and a name space is written with one prefix: whatever was
  encoded, also up to an error, the encoder's two maps are inverse to each other.
\<close>

theorem encoder_prefixes_inverse:
  "xp_attrNS (snd (encode_all bts NewEncoder)) k = Some u \<longleftrightarrow>
   xp_attrPrefix (snd (encode_all bts NewEncoder)) u = Some k"
  using stack_ok_here [OF encode_all_ok [OF NewEncoder_ok]] by (auto simp: inverse_maps_def)

text \<open>
  The search for a prefix that is free ends: in every state the encoder reaches, one of the names
  it tries is free, however many of the first ones are taken.
\<close>

theorem encoder_finds_prefix:
  "\<exists>i k. free_name (xp_attrNS (snd (encode_all bts NewEncoder))) pfx
     (Suc (length (xp_prefixes (snd (encode_all bts NewEncoder))))) n = Some (i, k)"
proof -
  let ?p = "snd (encode_all bts NewEncoder)"
  have "card (dom (xp_attrNS ?p)) < Suc (length (xp_prefixes ?p))" "finite (dom (xp_attrNS ?p))"
    using stack_ok_count [OF encode_all_ok [OF NewEncoder_ok, of bts]] by auto
  then show ?thesis using free_name by (metis not_None_eq surj_pair)
qed

end
