(* ===== verification/XmlRoundTrip.thy ===== *)
theory XmlRoundTrip
  imports XmlProps XmlEncoderProps
begin

text \<open>
  The encoder and the decoder of \<open>internal/xml\<close> belong together: what the one writes for elements,
  attributes, texts and comments without name spaces, the other reads as the same tokens.
\<close>

section \<open>What is written\<close>

text \<open>A name without a colon, of bytes that do not end a name.\<close>

definition name_ok :: "gostring \<Rightarrow> bool" where
  "name_ok s \<longleftrightarrow> isName s \<and> list_all (\<lambda>c. \<not> not_in_name c) s \<and> CHR '':'' \<notin> set s"

definition plain_attr :: "xml_name \<times> gostring \<Rightarrow> bool" where
  "plain_attr a \<longleftrightarrow> Space (fst a) = [] \<and> name_ok (Local (fst a)) \<and> Local (fst a) \<noteq> ''xmlns'' \<and> bad_rune (snd a) = None"

definition plain :: "xml_token \<Rightarrow> bool" where
  "plain t \<longleftrightarrow>
     (case t of
        StartElement n as \<Rightarrow> Space n = [] \<and> name_ok (Local n) \<and> list_all plain_attr as
      | EndElement n \<Rightarrow> Space n = [] \<and> name_ok (Local n)
      | CharData s \<Rightarrow> s \<noteq> [] \<and> bad_rune s = None
      | Comment s \<Rightarrow> \<not> contains s ''-->''
      | _ \<Rightarrow> False)"

definition is_text :: "xml_token \<Rightarrow> bool" where
  "is_text t = (case t of CharData _ \<Rightarrow> True | _ \<Rightarrow> False)"

text \<open>A text is followed by a token that is none.\<close>

fun texts_apart :: "xml_token list \<Rightarrow> bool" where
  "texts_apart [] \<longleftrightarrow> True"
| "texts_apart (t # ts) \<longleftrightarrow> (is_text t \<longrightarrow> ts \<noteq> [] \<and> \<not> is_text (hd ts)) \<and> texts_apart ts"

definition printed_attr :: "xml_name \<times> gostring \<Rightarrow> gostring" where
  "printed_attr a = '' '' @ Local (fst a) @ ''='' @ [CHR 34] @ escapeText True (snd a) @ [CHR 34]"

definition printed :: "xml_token \<Rightarrow> gostring" where
  "printed t =
     (case t of
        StartElement n as \<Rightarrow> ''<'' @ Local n @ concat (map printed_attr as) @ ''>''
      | EndElement n \<Rightarrow> ''</'' @ Local n @ ''>''
      | CharData s \<Rightarrow> escapeText False s
      | Comment s \<Rightarrow> ''<!--'' @ s @ ''-->''
      | _ \<Rightarrow> [])"

section \<open>The encoder\<close>

text \<open>Nothing is defined, and nothing is indented.\<close>

definition plain_printer :: "xml_name list \<Rightarrow> printer \<Rightarrow> bool" where
  "plain_printer os p \<longleftrightarrow> xp_indent p = [] \<and> xp_prefix p = [] \<and> xp_defaultNS p = [] \<and> xp_attrNS p = Map.empty \<and>
     xp_attrPrefix p = Map.empty \<and> xp_tags p = os \<and> set (xp_prefixes p) \<subseteq> {Mark}"

lemma name_ok_not_Nil: "name_ok s \<Longrightarrow> s \<noteq> []"
  by (auto simp: name_ok_def isName_def)

lemma plain_prefix: "plain_printer os p \<Longrightarrow> prefixForNS p [] b = []"
  by (simp add: plain_printer_def prefixForNS_def at_key_def xmlURL_def)

lemma plain_attr_name:
  assumes "plain_attr a"
  shows "Space (fst a) = []" "Local (fst a) \<noteq> ''xmlns''" "Local (fst a) \<noteq> []"
  using assms by (auto simp: plain_attr_def name_ok_def isName_def)

lemma plain_not_namespace: "plain_attr a \<Longrightarrow> \<not> isNamespace (fst a)"
  by (simp add: isNamespace_def plain_attr_name)

lemma plain_define_all: "list_all plain_attr as \<Longrightarrow> define_all ign as p = (None, p)"
  by (induction as) (simp_all add: defineNS_def defined_prefix_def Let_def plain_attr_name)

lemma plain_attr_prefix: "list_all plain_attr as \<Longrightarrow> fold attr_prefix as p = p"
  by (induction as) (simp_all add: attr_prefix_def plain_attr_name)

lemma plain_put: "plain_printer os (put_out s p) = plain_printer os p"
  by (simp add: plain_printer_def put_out_def)

lemma put_put: "put_out t (put_out s p) = put_out (s @ t) p"
  by (simp add: put_out_def)

lemma plain_writeAttr:
  assumes "plain_printer os p" and "plain_attr a"
  shows "writeAttr a p = put_out (printed_attr a) p"
proof -
  have n: "Local (fst a) \<noteq> []" "\<not> isNamespace (fst a)" "Space (fst a) = []"
    using assms(2) by (simp_all add: plain_attr_name plain_not_namespace)
  have "writeName (fst a) True q = put_out (Local (fst a)) q" if "plain_printer os q" for q
    using plain_prefix [OF that] n(3) by (simp add: writeName_def)
  then show ?thesis using n assms(1)
    by (simp add: writeAttr_def plain_put EscapeString_def put_put printed_attr_def)
qed

lemma plain_writeAttrs:
  "plain_printer os p \<Longrightarrow> list_all plain_attr as \<Longrightarrow> fold writeAttr as p = put_out (concat (map printed_attr as)) p"
proof (induction as arbitrary: p)
  case Nil
  then show ?case by (simp add: put_out_def)
next
  case (Cons a as)
  then show ?case by (simp add: plain_writeAttr plain_put put_put)
qed

lemma plain_writeStart:
  assumes p: "plain_printer os p" and n: "Space n = []" "Local n \<noteq> []" and as: "list_all plain_attr as"
  shows "\<exists>p'. writeStart n as p = (None, p') \<and> xp_out p' = xp_out p @ printed (StartElement n as) \<and> plain_printer (n # os) p'"
proof -
  let ?m = "markPrefix (p\<lparr>xp_tags := n # xp_tags p\<rparr>)"
  have m: "plain_printer (n # os) ?m" "xp_out ?m = xp_out p" "xp_prefixes ?m = Mark # xp_prefixes p"
    using p by (auto simp: plain_printer_def markPrefix_def)
  have c: "createNSPrefix [] False ?m = ?m" using m(1) by (simp add: plain_printer_def createNSPrefix_def)
  have i: "writeIndent 1 ?m = ?m" using m(1) by (simp add: plain_printer_def writeIndent_def)
  have w: "writeNamespaces (writeName n False (put_out ''<'' ?m)) = put_out (''<'' @ Local n) ?m"
    using m plain_prefix [of "n # os" "put_out ''<'' ?m" False] n(1)
    by (simp add: writeName_def writeNamespaces_def plain_put put_put) (simp add: put_out_def)
  have "writeStart n as p = (None, put_out (printed (StartElement n as)) ?m)"
    using n by (simp add: writeStart_def plain_define_all [OF as] plain_attr_prefix [OF as] Let_def c i w
        plain_writeAttrs [OF _ as, of "n # os"] plain_put m(1) put_put printed_def)
  then show ?thesis using m by (simp add: plain_put) (simp add: put_out_def)
qed

lemma plain_popPrefix: "plain_printer os p \<Longrightarrow> plain_printer os (popPrefix p) \<and> xp_out (popPrefix p) = xp_out p"
  by (cases "xp_prefixes p") (auto simp: plain_printer_def popPrefix_def)

lemma plain_writeEnd:
  assumes p: "plain_printer (n # os) p" and n: "Space n = []" "Local n \<noteq> []"
  shows "\<exists>p'. writeEnd n p = (None, p') \<and> xp_out p' = xp_out p @ printed (EndElement n) \<and> plain_printer os p'"
proof -
  let ?m = "p\<lparr>xp_tags := os\<rparr>"
  have m: "plain_printer os ?m" and t: "xp_tags p = n # os" using p by (auto simp: plain_printer_def)
  have i: "writeIndent (- 1) ?m = ?m" using m by (simp add: plain_printer_def writeIndent_def)
  have "writeEnd n p = (None, popPrefix (put_out (printed (EndElement n)) ?m))"
    using n t plain_prefix [of os "put_out ''</'' ?m" False] m
    by (simp add: writeEnd_def i writeName_def plain_put put_put printed_def)
  moreover have "xp_out (put_out (printed (EndElement n)) ?m) = xp_out p @ printed (EndElement n)"
    by (simp add: put_out_def)
  ultimately show ?thesis using plain_popPrefix [of os "put_out (printed (EndElement n)) ?m"] m by (simp add: plain_put)
qed

lemma encode_plain_token:
  assumes "plain_printer os p" and "plain t" and "open_after [t] os = Some os'"
  shows "\<exists>p'. EncodeToken b t p = (None, p') \<and> xp_out p' = xp_out p @ printed t \<and> plain_printer os' p'"
proof (cases t)
  case (StartElement n as)
  then show ?thesis
    using assms plain_writeStart [OF assms(1), of n as] by (auto simp: EncodeToken_def plain_def name_ok_not_Nil)
next
  case (EndElement n)
  then have "os = n # os'" using assms(3) by (auto split: list.splits if_splits)
  then show ?thesis
    using EndElement assms plain_writeEnd [of n os' p] by (auto simp: EncodeToken_def plain_def name_ok_not_Nil)
next
  case (CharData s)
  then show ?thesis using assms by (auto simp: EncodeToken_def plain_put printed_def) (simp add: put_out_def)
next
  case (Comment s)
  then show ?thesis using assms by (auto simp: EncodeToken_def plain_put printed_def plain_def) (simp add: put_out_def)
qed (use assms in \<open>simp_all add: plain_def\<close>)

lemma open_after_Cons:
  "open_after (t # ts) os = Some os'' \<Longrightarrow> \<exists>os'. open_after [t] os = Some os' \<and> open_after ts os' = Some os''"
  by (cases t) (auto split: list.splits if_splits)

lemma encode_plain_tokens:
  "plain_printer os p \<Longrightarrow> list_all plain (map snd bts) \<Longrightarrow> open_after (map snd bts) os = Some os' \<Longrightarrow>
   \<exists>p'. encode_all bts p = (None, p') \<and> xp_out p' = xp_out p @ concat (map (printed \<circ> snd) bts)"
proof (induction bts arbitrary: p os)
  case (Cons bt bts)
  obtain b t where bt: "bt = (b, t)" by force
  from Cons.prems(3) bt obtain os1 where o: "open_after [t] os = Some os1" "open_after (map snd bts) os1 = Some os'"
    using open_after_Cons [of t "map snd bts" os os'] by auto
  from encode_plain_token [OF Cons.prems(1) _ o(1), of b] Cons.prems(2) bt obtain p1 where
    p1: "EncodeToken b t p = (None, p1)" "xp_out p1 = xp_out p @ printed t" "plain_printer os1 p1" by auto
  from Cons.IH [OF p1(3) _ o(2)] Cons.prems(2) p1 bt show ?case by auto
qed simp

section \<open>The decoder\<close>

lemma getc_ahead:
  assumes "ahead d (b # rest)"
  obtains d' where "getc d = (Some b, d')" and "reading d' rest" and "kept d' = kept d"
proof -
  obtain d' where "getc d = (Some b, d')" "reading d' rest"
    using assms by (auto simp: ahead_def getc_def reading_def count_byte_def split: option.splits)
  with kept_getc that show ?thesis by blast
qed

lemma mustgetc_ahead:
  assumes "ahead d (b # rest)"
  obtains d' where "mustgetc d = (Some b, d')" and "reading d' rest" and "kept d' = kept d"
proof -
  obtain d' where "getc d = (Some b, d')" "reading d' rest" "kept d' = kept d" using getc_ahead [OF assms] .
  then show ?thesis using that by (simp add: mustgetc_def)
qed

lemma space_ahead:
  assumes "ahead d (b # rest)" and "b \<notin> {CHR '' '', creturn, newline, tabulator}"
  shows "ahead (space d) (b # rest)"
proof -
  obtain d' where g: "getc d = (Some b, d')" "reading d' rest" using getc_ahead [OF assms(1)] .
  then have "space d = ungetc b d'" using assms(2) by (simp add: space.simps [of d])
  then show ?thesis using ahead_ungetc [OF g(2)] by simp
qed

lemma space_one:
  assumes "ahead d (CHR '' '' # b # rest)" and "b \<notin> {CHR '' '', creturn, newline, tabulator}"
  shows "ahead (space d) (b # rest)"
proof -
  obtain d' where g: "getc d = (Some (CHR '' ''), d')" "reading d' (b # rest)" using getc_ahead [OF assms(1)] .
  then have "space d = space d'" by (simp add: space.simps [of d])
  then show ?thesis using space_ahead [OF reading_ahead [OF g(2)] assms(2)] by simp
qed

text \<open>Names.\<close>

lemma readName_rest_name:
  assumes "ahead d (bs @ b # rest)" and "list_all (\<lambda>c. \<not> not_in_name c) bs" and "not_in_name b"
  shows "\<exists>d'. readName_rest d buf = ((True, buf @ bs), d') \<and> ahead d' (b # rest)"
  using assms(1,2)
proof (induction bs arbitrary: d buf)
  case Nil
  then obtain d' where g: "mustgetc d = (Some b, d')" "reading d' rest" using mustgetc_ahead [of d b rest] by auto
  then show ?case using assms(3) ahead_ungetc [OF g(2), of b] by (simp add: readName_rest.simps [of d])
next
  case (Cons c bs)
  then have a: "ahead d (c # bs @ b # rest)" by simp
  obtain d' where g: "mustgetc d = (Some c, d')" "reading d' (bs @ b # rest)" using mustgetc_ahead [OF a] .
  with Cons.IH [OF reading_ahead [OF g(2)], of "buf @ [c]"] Cons.prems(2) show ?case
    by (simp add: readName_rest.simps [of d])
qed

lemma nsname_name:
  assumes "ahead d (s @ b # rest)" and "name_ok s" and "not_in_name b"
  shows "\<exists>d'. nsname d = (Some \<lparr>Space = [], Local = s\<rparr>, d') \<and> ahead d' (b # rest) \<and> kept d' = kept d"
proof -
  obtain c cs where s: "s = c # cs" using name_ok_not_Nil [OF assms(2)] by (cases s) auto
  with assms(1) have a: "ahead d (c # cs @ b # rest)" by simp
  obtain d1 where g: "mustgetc d = (Some c, d1)" "reading d1 (cs @ b # rest)" using mustgetc_ahead [OF a] .
  have c: "list_all (\<lambda>c. \<not> not_in_name c) cs" "\<not> not_in_name c" using assms(2) s by (auto simp: name_ok_def)
  obtain d' where r: "readName_rest d1 [c] = ((True, s), d')" "ahead d' (b # rest)"
    using readName_rest_name [OF reading_ahead [OF g(2)] c(1) assms(3), of "[c]"] s by auto
  have n: "nsname d = (Some \<lparr>Space = [], Local = s\<rparr>, d')"
    using assms(2) c(2) g(1) r(1) by (simp add: nsname_def xml_name_of_def readName_def name_ok_def split_name_def)
  with r(2) kept_nsname [OF n] show ?thesis by blast
qed

text \<open>Attributes.\<close>

lemma byte_classes:
  "not_in_name (CHR ''='')" "not_in_name (CHR ''>'')" "CHR ''='' \<notin> {CHR '' '', creturn, newline, tabulator}"
  "CHR 34 \<notin> {CHR '' '', creturn, newline, tabulator}" "CHR ''>'' \<notin> {CHR '' '', creturn, newline, tabulator}"
  by (simp_all add: not_in_name_def isNameByte_def creturn_def newline_def tabulator_def)

lemma name_byte_no_space:
  assumes "\<not> not_in_name c"
  shows "c \<notin> {CHR '' '', creturn, newline, tabulator}" "c \<noteq> CHR ''/''" "c \<noteq> CHR ''>''" "c \<noteq> CHR ''!''" "c \<noteq> CHR ''?''"
  using assms by (auto simp: not_in_name_def isNameByte_def creturn_def newline_def tabulator_def)

lemma attr_value_read:
  assumes "ahead d (''='' @ [CHR 34] @ escapeText True v @ CHR 34 # rest)" and "bad_rune v = None"
  shows "\<exists>d'. attr_value n d = (Some v, d') \<and> ahead d' rest"
proof -
  have s: "ahead (space d) (CHR ''='' # CHR 34 # escapeText True v @ CHR 34 # rest)"
    by (rule space_ahead) (use assms(1) byte_classes in simp_all)
  obtain d1 where g: "mustgetc (space d) = (Some (CHR ''=''), d1)" "reading d1 (CHR 34 # escapeText True v @ CHR 34 # rest)"
    using mustgetc_ahead [OF s] .
  have s1: "ahead (space d1) (CHR 34 # escapeText True v @ CHR 34 # rest)"
    by (rule space_ahead [OF reading_ahead [OF g(2)]]) (rule byte_classes)
  obtain d2 where q: "mustgetc (space d1) = (Some (CHR 34), d2)" "reading d2 (escapeText True v @ CHR 34 # rest)"
    using mustgetc_ahead [OF s1] .
  obtain d' where "xml_text (Some (CHR 34)) False d2 = (Some v, d')" "ahead d' rest"
    using xml_text_read [OF q(2) assms(2), of "Some (CHR 34)"] by auto
  with g(1) q(1) show ?thesis by (simp add: attr_value_def attrval_def)
qed

lemma attr_loop_read:
  "ahead d (concat (map printed_attr as) @ CHR ''>'' # rest) \<Longrightarrow> list_all plain_attr as \<Longrightarrow>
   \<exists>d'. attr_loop d acc = (Some (acc @ as, False), d') \<and> reading d' rest"
proof (induction as arbitrary: d acc)
  case Nil
  then have s: "ahead (space d) (CHR ''>'' # rest)" by (intro space_ahead) (use byte_classes in simp_all)
  obtain d' where "mustgetc (space d) = (Some (CHR ''>''), d')" "reading d' rest" using mustgetc_ahead [OF s] .
  then show ?case by (simp add: attr_loop.simps [of d])
next
  case (Cons a as)
  let ?rest = "concat (map printed_attr as) @ CHR ''>'' # rest"
  have a: "Space (fst a) = []" "name_ok (Local (fst a))" "bad_rune (snd a) = None"
    using Cons.prems(2) by (auto simp: plain_attr_def)
  obtain c cs where c: "Local (fst a) = c # cs" using name_ok_not_Nil [OF a(2)] by (cases "Local (fst a)") auto
  then have "\<not> not_in_name c" using a(2) by (simp add: name_ok_def)
  note nb = name_byte_no_space [OF this]
  let ?val = "''='' @ [CHR 34] @ escapeText True (snd a) @ CHR 34 # ?rest"
  have s: "ahead (space d) (c # cs @ ?val)"
    by (rule space_one) (use Cons.prems(1) c nb in \<open>simp_all add: printed_attr_def [of a]\<close>)
  obtain d1 where g: "mustgetc (space d) = (Some c, d1)" "reading d1 (cs @ ?val)" using mustgetc_ahead [OF s] .
  have "ahead (ungetc c d1) (Local (fst a) @ CHR ''='' # tl ?val)" using ahead_ungetc [OF g(2), of c] c by simp
  from nsname_name [OF this a(2) byte_classes(1)] obtain d2 where
    n: "nsname (ungetc c d1) = (Some \<lparr>Space = [], Local = Local (fst a)\<rparr>, d2)" "ahead d2 ?val" by auto
  from attr_value_read [OF n(2) a(3)] obtain d3 where
    v: "attr_value \<lparr>Space = [], Local = Local (fst a)\<rparr> d2 = (Some (snd a), d3)" "ahead d3 ?rest" by blast
  have "(\<lparr>Space = [], Local = Local (fst a)\<rparr>, snd a) = a" using a(1) by (cases a) simp
  then have "attr_loop d acc = attr_loop d3 (acc @ [a])"
    using g(1) nb n(1) v(1) by (simp add: attr_loop.simps [of d])
  with Cons.IH [OF v(2), of "acc @ [a]"] Cons.prems(2) show ?case by auto
qed

text \<open>The text of a comment is not left before its end.\<close>

lemma comment_loop_read:
  "reading d (s @ ''-->'' @ rest) \<Longrightarrow> \<not> contains (b0 # b1 # s) ''-->'' \<Longrightarrow>
   \<exists>d'. comment_loop d buf b0 b1 = (Some (buf @ s @ ''-->''), d') \<and> reading d' rest"
proof (induction s arbitrary: d buf b0 b1)
  case Nil
  have step: "\<exists>d'. mustgetc d = (Some b, d') \<and> reading d' r" if "reading d (b # r)" for d b r
    using mustgetc_ahead [OF reading_ahead [OF that]] by metis
  from step [of d "CHR ''-''" "''->'' @ rest"] Nil(1) obtain d1 where
    1: "mustgetc d = (Some (CHR ''-''), d1)" "reading d1 (''->'' @ rest)" by auto
  from step [of d1 "CHR ''-''" "''>'' @ rest"] 1(2) obtain d2 where
    2: "mustgetc d1 = (Some (CHR ''-''), d2)" "reading d2 (''>'' @ rest)" by auto
  from step [of d2 "CHR ''>''" rest] 2(2) obtain d3 where 3: "mustgetc d2 = (Some (CHR ''>''), d3)" "reading d3 rest"
    by auto
  show ?case using 1(1) 2(1) 3 by (simp add: comment_loop.simps [of d] comment_loop.simps [of d1] comment_loop.simps [of d2])
next
  case (Cons c s)
  then have a: "ahead d (c # s @ ''-->'' @ rest)" using reading_ahead by simp
  obtain d1 where g: "mustgetc d = (Some c, d1)" "reading d1 (s @ ''-->'' @ rest)" using mustgetc_ahead [OF a] .
  have n: "\<not> contains (b1 # c # s) ''-->''" "\<not> (b0 = CHR ''-'' \<and> b1 = CHR ''-'' \<and> c = CHR ''>'')"
    using Cons.prems(2) by auto
  have "comment_loop d buf b0 b1 = comment_loop d1 (buf @ [c]) b1 c"
    using g(1) n(2) by (subst comment_loop.simps) auto
  with Cons.IH [OF g(2) n(1), of "buf @ [c]"] show ?case by simp
qed

text \<open>Tokens.\<close>

text \<open>The open elements \<open>os\<close>, innermost first, down to the end mark of a nested value (\<open>base\<close>).\<close>

definition plain_state :: "stack_entry list \<Rightarrow> xml_name list \<Rightarrow> decoder \<Rightarrow> bool" where
  "plain_state base os d \<longleftrightarrow> xd_Strict d \<and> xd_stk d = map StkStart os @ base \<and> (base = [] \<or> hd base = StkEOF) \<and> xd_ns d = Map.empty \<and> xd_nextToken d = None \<and>
     \<not> xd_needClose d \<and> xd_DefaultSpace d = []"

lemma plain_state_kept: "kept d' = kept d \<Longrightarrow> plain_state base os d' = plain_state base os d"
  by (simp add: plain_state_def kept_def)

lemma plain_name: "Space n = [] \<Longrightarrow> \<lparr>Space = [], Local = Local n\<rparr> = n"
  by (cases n) simp

text \<open>Two bytes of markup.\<close>

lemma markup_ahead:
  assumes "plain_state base os d" and "ahead d (CHR ''<'' # b # rest)"
  obtains d1 d2 where "getc d = (Some (CHR ''<''), d1)" "mustgetc d1 = (Some b, d2)" "reading d2 rest" "kept d2 = kept d"
    "xd_err d = None" "\<not> xd_needClose d"
proof -
  obtain d1 where g: "getc d = (Some (CHR ''<''), d1)" "reading d1 (b # rest)" "kept d1 = kept d" using getc_ahead [OF assms(2)] .
  obtain d2 where m: "mustgetc d1 = (Some b, d2)" "reading d2 rest" "kept d2 = kept d1"
    using mustgetc_ahead [OF reading_ahead [OF g(2)]] .
  show ?thesis using that g m assms by (simp add: plain_state_def ahead_def)
qed

lemma rawToken_start:
  assumes "plain_state base os d" and "ahead d (printed (StartElement n as) @ rest)" and "plain (StartElement n as)"
  shows "\<exists>d'. rawToken d = (Some (StartElement n as), d') \<and> reading d' rest \<and> kept d' = kept d"
proof -
  have n: "Space n = []" "name_ok (Local n)" "list_all plain_attr as" using assms(3) by (simp_all add: plain_def)
  obtain c cs where c: "Local n = c # cs" using name_ok_not_Nil [OF n(2)] by (cases "Local n") auto
  then have "\<not> not_in_name c" using n(2) by (simp add: name_ok_def)
  note nb = name_byte_no_space [OF this]
  let ?tail = "concat (map printed_attr as) @ CHR ''>'' # rest"
  have a: "ahead d (CHR ''<'' # c # cs @ ?tail)" using assms(2) c by (simp add: printed_def)
  obtain d1 d2 where g: "getc d = (Some (CHR ''<''), d1)" "mustgetc d1 = (Some c, d2)" "reading d2 (cs @ ?tail)"
    "kept d2 = kept d" "xd_err d = None" "\<not> xd_needClose d"
    using markup_ahead [OF assms(1) a] .
  obtain b t where bt: "?tail = b # t" "not_in_name b"
    by (cases as) (auto simp: printed_attr_def not_in_name_def isNameByte_def)
  have "ahead (ungetc c d2) (Local n @ b # t)" using ahead_ungetc [OF g(3), of c] c bt(1) by simp
  from nsname_name [OF this n(2) bt(2)] plain_name [OF n(1)] obtain d3 where
    s: "nsname (ungetc c d2) = (Some n, d3)" "ahead d3 ?tail" "kept d3 = kept (ungetc c d2)" unfolding bt(1) by auto
  from attr_loop_read [OF s(2) n(3), of "[]"] obtain d4 where l: "attr_loop d3 [] = (Some (as, False), d4)" "reading d4 rest"
    by auto
  have "rawToken d = (Some (StartElement n as), d4)"
    using g nb s(1) l(1) by (simp add: rawToken_def start_tag_def)
  then show ?thesis using l(2) kept_attr_loop [OF l(1)] s(3) g(4) by (simp add: kept_simps)
qed

lemma rawToken_end:
  assumes "plain_state base os d" and "ahead d (printed (EndElement n) @ rest)" and "plain (EndElement n)"
  shows "\<exists>d'. rawToken d = (Some (EndElement n), d') \<and> reading d' rest \<and> kept d' = kept d"
proof -
  have n: "Space n = []" "name_ok (Local n)" using assms(3) by (simp_all add: plain_def)
  have a: "ahead d (CHR ''<'' # CHR ''/'' # Local n @ CHR ''>'' # rest)" using assms(2) by (simp add: printed_def)
  obtain d1 d2 where g: "getc d = (Some (CHR ''<''), d1)" "mustgetc d1 = (Some (CHR ''/''), d2)"
    "reading d2 (Local n @ CHR ''>'' # rest)" "kept d2 = kept d" "xd_err d = None" "\<not> xd_needClose d"
    using markup_ahead [OF assms(1) a] .
  from nsname_name [OF reading_ahead [OF g(3)] n(2) byte_classes(2)] plain_name [OF n(1)] obtain d3 where
    s: "nsname d2 = (Some n, d3)" "ahead d3 (CHR ''>'' # rest)" "kept d3 = kept d2" by auto
  obtain d4 where m: "mustgetc (space d3) = (Some (CHR ''>''), d4)" "reading d4 rest" "kept d4 = kept (space d3)"
    using mustgetc_ahead [OF space_ahead [OF s(2) byte_classes(5)]] .
  have "rawToken d = (Some (EndElement n), d4)" using g s(1) m(1) by (simp add: rawToken_def end_tag_def)
  then show ?thesis using m(2,3) s(3) g(4) by (simp add: kept_simps)
qed

lemma rawToken_comment:
  assumes "plain_state base os d" and "ahead d (printed (Comment s) @ rest)" and "plain (Comment s)"
  shows "\<exists>d'. rawToken d = (Some (Comment s), d') \<and> reading d' rest \<and> kept d' = kept d"
proof -
  have a: "ahead d (CHR ''<'' # CHR ''!'' # ''--'' @ s @ ''-->'' @ rest)" using assms(2) by (simp add: printed_def)
  obtain d1 d2 where g: "getc d = (Some (CHR ''<''), d1)" "mustgetc d1 = (Some (CHR ''!''), d2)"
    "reading d2 (''--'' @ s @ ''-->'' @ rest)" "kept d2 = kept d" "xd_err d = None" "\<not> xd_needClose d"
    using markup_ahead [OF assms(1) a] .
  have step: "\<exists>d'. mustgetc e = (Some b, d') \<and> reading d' r \<and> kept d' = kept e" if "reading e (b # r)" for e b r
    using mustgetc_ahead [OF reading_ahead [OF that]] by metis
  from step [of d2 "CHR ''-''" "''-'' @ s @ ''-->'' @ rest"] g(3) obtain d3 where
    d3: "mustgetc d2 = (Some (CHR ''-''), d3)" "reading d3 (''-'' @ s @ ''-->'' @ rest)" "kept d3 = kept d2" by auto
  from step [of d3 "CHR ''-''" "s @ ''-->'' @ rest"] d3(2) obtain d4 where
    d4: "mustgetc d3 = (Some (CHR ''-''), d4)" "reading d4 (s @ ''-->'' @ rest)" "kept d4 = kept d3" by auto
  have "\<not> contains (CHR 0x00 # CHR 0x00 # s) ''-->''" using assms(3) by (auto simp: plain_def)
  from comment_loop_read [OF d4(2) this, of "[]"] obtain d5 where
    d5: "comment_loop d4 [] (CHR 0x00) (CHR 0x00) = (Some (s @ ''-->''), d5)" "reading d5 rest" by auto
  have "rawToken d = (Some (Comment s), d5)"
    using g d3(1) d4(1) d5(1) by (simp add: rawToken_def bang_def chop_def)
  then show ?thesis using d5(2) kept_comment_loop [OF d5(1)] d4(3) d3(3) g(4) by simp
qed

lemma kept_rawToken_text:
  assumes "rawToken d = (Some (CharData s), d')" and "getc d = (Some b, d1)" and "b \<noteq> CHR ''<''" and "\<not> xd_needClose d"
  shows "kept d' = kept d"
proof -
  have "xd_err d = None" using assms(2) by (auto simp: getc_def split: if_splits)
  then obtain r where "xml_text None False (ungetc b d1) = (r, d')"
    using assms by (auto simp: rawToken_def dest: map_token_source)
  from kept_xml_text [OF this] kept_getc [OF assms(2)] show ?thesis by (simp add: kept_simps)
qed

text \<open>What is to come: a text only when no byte is unread.\<close>

definition coming :: "decoder \<Rightarrow> xml_token list \<Rightarrow> bool" where
  "coming d ts \<longleftrightarrow> ahead d (concat (map printed ts)) \<and>
     (ts \<noteq> [] \<and> is_text (hd ts) \<longrightarrow> reading d (concat (map printed ts)))"

lemma printed_markup: "plain t \<Longrightarrow> \<not> is_text t \<Longrightarrow> \<exists>s. printed t = CHR ''<'' # s"
  by (cases t) (auto simp: plain_def is_text_def printed_def)

lemma rawToken_read:
  assumes "plain_state base os d" and "coming d (t # ts)" and "list_all plain (t # ts)" and "texts_apart (t # ts)"
  shows "\<exists>d'. rawToken d = (Some t, d') \<and> coming d' ts \<and> kept d' = kept d"
proof -
  let ?rest = "concat (map printed ts)"
  have a: "ahead d (printed t @ ?rest)" and p: "plain t" using assms(2,3) by (simp_all add: coming_def)
  have r: "coming d' ts" if "reading d' ?rest" for d' using that reading_ahead by (simp add: coming_def)
  show ?thesis
  proof (cases t)
    case (StartElement n as)
    with rawToken_start [OF assms(1), of n as ?rest] a p r show ?thesis by blast
  next
    case (EndElement n)
    with rawToken_end [OF assms(1), of n ?rest] a p r show ?thesis by blast
  next
    case (Comment s)
    with rawToken_comment [OF assms(1), of s ?rest] a p r show ?thesis by blast
  next
    case (CharData s)
    then obtain u ts' where ts: "ts = u # ts'" "\<not> is_text u" using assms(4) by (cases ts) (auto simp: is_text_def)
    then obtain x where x: "printed u = CHR ''<'' # x" using printed_markup [of u] assms(3) by auto
    have s: "s \<noteq> []" "bad_rune s = None" using p CharData by (simp_all add: plain_def)
    have rd: "reading d (escapeText False s @ CHR ''<'' # x @ concat (map printed ts'))"
      using assms(2) CharData ts x by (simp add: coming_def is_text_def printed_def)
    have nc: "\<not> xd_needClose d" using assms(1) by (simp add: plain_state_def)
    from rawToken_text [OF rd s nc] obtain d' where
      d': "rawToken d = (Some (CharData s), d')" "ahead d' ?rest" by (auto simp: ts x)
    have "coming d' ts" using d'(2) ts by (simp add: coming_def)
    moreover have "kept d' = kept d"
    proof -
      obtain b y where b: "escapeText False s = b # y" "b \<noteq> CHR ''<''" by (rule escapeText_starts [OF s(1)])
      obtain d1 where "getc d = (Some b, d1)" using getc_reading [of d b] rd b(1) by auto
      from kept_rawToken_text [OF d'(1) this b(2) nc] show ?thesis .
    qed
    ultimately show ?thesis using d'(1) CharData by blast
  qed (use p in \<open>simp_all add: plain_def\<close>)
qed

lemma declare_plain: "list_all plain_attr as \<Longrightarrow> fold declare_ns as d = d"
  by (induction as) (simp_all add: declare_ns_def plain_attr_name)

lemma translate_plain: "plain_state base os d \<Longrightarrow> Space n = [] \<Longrightarrow> translate d n b = n"
  by (cases n) (simp add: translate_def plain_state_def Let_def)

lemma coming_kept: "coming (d\<lparr>xd_stk := s\<rparr>) ts = coming d ts"
  by (cases "xd_nextByte d") (simp_all add: coming_def ahead_def reading_def)

lemma undo_elements:
  "base = [] \<or> hd base = StkEOF \<Longrightarrow> undo_ns (map StkStart os @ base) ns = (map StkStart os @ base, ns)"
  by (cases os; cases base) simp_all

lemma finish_plain:
  assumes "plain_state base os d" and "plain t" and "open_after [t] os = Some os'"
  shows "\<exists>s. finish_token t d = ((Some t, None), d\<lparr>xd_stk := s\<rparr>) \<and> plain_state base os' (d\<lparr>xd_stk := s\<rparr>)"
proof (cases t)
  case (StartElement n as)
  have as: "list_all plain_attr as" "Space n = []" using assms(2) StartElement by (simp_all add: plain_def)
  have "map (\<lambda>(k, v). (translate d k False, v)) as = as"
    using as(1) by (induction as) (auto simp: translate_plain [OF assms(1)] plain_attr_def)
  then have "finish_token t d = ((Some t, None), d\<lparr>xd_stk := StkStart n # xd_stk d\<rparr>)"
    using StartElement as by (simp add: finish_token_def declare_plain translate_plain [OF assms(1)] pushElement_def push_def)
  then show ?thesis using assms(1,3) StartElement by (auto simp: plain_state_def)
next
  case (EndElement n)
  then have os: "os = n # os'" using assms(3) by (auto split: list.splits if_splits)
  have sp: "Space n = []" using assms(2) EndElement by (simp add: plain_def)
  have "popElement n d = (Some n, d\<lparr>xd_stk := map StkStart os' @ base\<rparr>)"
    using assms(1) os by (simp add: popElement_def plain_state_def undo_elements)
  then have "finish_token t d = ((Some t, None), d\<lparr>xd_stk := map StkStart os' @ base\<rparr>)"
    using EndElement by (simp add: finish_token_def translate_plain [OF assms(1) sp])
  then show ?thesis using assms(1) by (auto simp: plain_state_def)
qed (use assms in \<open>auto simp: finish_token_def plain_def intro!: exI [of _ "xd_stk d"]\<close>)

lemma Token_read:
  assumes "plain_state base os d" and "coming d (t # ts)" and "list_all plain (t # ts)" and "texts_apart (t # ts)"
    and "open_after [t] os = Some os'" and "os \<noteq> [] \<or> base = []"
  shows "\<exists>d'. Token d = ((Some t, None), d') \<and> coming d' ts \<and> plain_state base os' d'"
proof -
  obtain d1 where r: "rawToken d = (Some t, d1)" "coming d1 ts" "kept d1 = kept d"
    using rawToken_read [OF assms(1-4)] by blast
  then have p: "plain_state base os d1" using assms(1) plain_state_kept by blast
  obtain s where f: "finish_token t d1 = ((Some t, None), d1\<lparr>xd_stk := s\<rparr>)" "plain_state base os' (d1\<lparr>xd_stk := s\<rparr>)"
    using finish_plain [OF p _ assms(5)] assms(3) by auto
  have "\<not> (xd_stk d \<noteq> [] \<and> hd (xd_stk d) = StkEOF)" "xd_nextToken d = None"
    using assms(1,6) by (cases os; simp add: plain_state_def)+
  moreover have "xd_Strict d1" using p by (simp add: plain_state_def)
  ultimately have "Token d = ((Some t, None), d1\<lparr>xd_stk := s\<rparr>)" using r(1) f(1) by (simp add: Token_def)
  then show ?thesis using r(2) f(2) by (auto simp: coming_kept)
qed

lemma tokens_read:
  "plain_state [] os d \<Longrightarrow> coming d ts \<Longrightarrow> list_all plain ts \<Longrightarrow> texts_apart ts \<Longrightarrow> open_after ts os \<noteq> None \<Longrightarrow>
   fst (tokens (length ts) d) = ts"
proof (induction ts arbitrary: d os)
  case (Cons t ts)
  then obtain os1 where o: "open_after [t] os = Some os1" "open_after ts os1 \<noteq> None"
    using open_after_Cons [of t ts os] by fastforce
  from Token_read [OF Cons.prems(1-4) o(1)] obtain d1 where
    k: "Token d = ((Some t, None), d1)" "coming d1 ts" "plain_state [] os1 d1" by blast
  with Cons.IH [OF k(3,2) _ _ o(2)] Cons.prems(3,4) show ?case by (cases "tokens (length ts) d1") simp
qed simp

section \<open>Texts that touch\<close>

lemma cont_byte_append: "cont_byte lo hi s = Some x \<Longrightarrow> cont_byte lo hi (s @ t) = Some x"
  by (cases s) (auto simp: cont_byte_def)

lemma cont_byte_length: "cont_byte lo hi (drop k s) = Some x \<Longrightarrow> k < length s"
  by (cases "k < length s") (simp_all add: cont_byte_def)

text \<open>What follows a valid rune does not change it.\<close>

lemma decodeRune_append:
  assumes "decodeRune s = (r, n)" and "s \<noteq> []" and "(r, n) \<noteq> (65533, 1)"
  shows "decodeRune (s @ t) = (r, n) \<and> n \<le> length s"
proof -
  obtain c s1 where s: "s = c # s1" using assms(2) by (cases s) auto
  have a: "cont_byte lo hi (drop k (s1 @ t)) = Some x \<and> Suc k \<le> length s1" if "cont_byte lo hi (drop k s1) = Some x" for lo hi k x
    using cont_byte_append [OF that, of t] cont_byte_length [OF that] by simp
  note a0 = a [where k = 0, simplified]
  show ?thesis using assms(1,3) unfolding s decodeRune_def
    by (auto simp: Let_def simp del: drop_append dest!: a a0 split: if_splits option.splits)
qed

lemma good_rune:
  assumes "bad_rune s = None" and "s \<noteq> []"
  obtains r n where "decodeRune s = (r, n)" "\<And>t. decodeRune (s @ t) = (r, n)" "n \<le> length s"
    "\<not> (r = 65533 \<and> n = 1)" "isInCharacterRange r" "bad_rune (drop n s) = None"
proof -
  obtain r n where d: "decodeRune s = (r, n)" by fastforce
  with assms have g: "\<not> (r = 65533 \<and> n = 1)" "isInCharacterRange r" "bad_rune (drop n s) = None"
    by (auto simp: bad_rune.simps [of s] split: if_splits)
  from d g that decodeRune_append [OF d assms(2)] show ?thesis by blast
qed

lemma bad_rune_append: "bad_rune s = None \<Longrightarrow> bad_rune (s @ t) = bad_rune t"
proof (induction s rule: bad_rune.induct)
  case (1 s)
  show ?case
  proof (cases "s = []")
    case False
    obtain r n where d: "decodeRune s = (r, n)" "decodeRune (s @ t) = (r, n)" "n \<le> length s"
      "\<not> (r = 65533 \<and> n = 1)" "isInCharacterRange r" "bad_rune (drop n s) = None" using good_rune [OF 1(2) False] by metis
    from 1(1) [OF False d(1) [symmetric] refl d(4) _ d(6)] d False show ?thesis by (auto simp: bad_rune.simps [of "s @ t"])
  qed simp
qed

lemma escapeText_append: "bad_rune s = None \<Longrightarrow> escapeText nl (s @ t) = escapeText nl s @ escapeText nl t"
proof (induction s rule: bad_rune.induct)
  case (1 s)
  show ?case
  proof (cases "s = []")
    case False
    obtain r n where d: "decodeRune s = (r, n)" "decodeRune (s @ t) = (r, n)" "n \<le> length s"
      "\<not> (r = 65533 \<and> n = 1)" "isInCharacterRange r" "bad_rune (drop n s) = None" using good_rune [OF 1(2) False] by metis
    from 1(1) [OF False d(1) [symmetric] refl d(4) _ d(6)] d False show ?thesis
      by (cases "escape_rune nl r n") (simp_all add: escapeText.simps [of nl "s @ t"] escapeText.simps [of nl s])
  qed (simp add: escapeText.simps [of nl "[]"])
qed

text \<open>Texts that follow each other are one text.\<close>

fun join_text :: "xml_token \<Rightarrow> xml_token list \<Rightarrow> xml_token list" where
  "join_text (CharData s) (CharData s' # ts) = CharData (s @ s') # ts"
| "join_text t ts = t # ts"

definition joined :: "xml_token list \<Rightarrow> xml_token list" where
  "joined ts = foldr join_text ts []"

lemma join_cases:
  obtains s s' us where "t = CharData s" and "ts = CharData s' # us" and "join_text t ts = CharData (s @ s') # us"
  | "join_text t ts = t # ts" and "is_text t \<Longrightarrow> ts \<noteq> [] \<Longrightarrow> \<not> is_text (hd ts)"
  by (cases "(t, ts)" rule: join_text.cases) (auto simp: is_text_def)

lemma join_plain: "plain t \<Longrightarrow> list_all plain ts \<Longrightarrow> list_all plain (join_text t ts)"
  by (rule join_cases [of t ts]) (auto simp: plain_def bad_rune_append)

lemma join_printed: "plain t \<Longrightarrow> concat (map printed (join_text t ts)) = printed t @ concat (map printed ts)"
  by (rule join_cases [of t ts]) (auto simp: plain_def printed_def escapeText_append)

lemma join_open: "open_after (join_text t ts) os = open_after (t # ts) os"
  by (rule join_cases [of t ts]) auto

lemma join_apart: "texts_apart ts \<Longrightarrow> ts \<noteq> [] \<or> \<not> is_text t \<Longrightarrow> texts_apart (join_text t ts)"
  by (rule join_cases [of t ts]) (auto simp: is_text_def)

lemma joined_simps: "joined [] = []" "joined (t # ts) = join_text t (joined ts)"
  by (simp_all add: joined_def)

lemma joined_plain: "list_all plain ts \<Longrightarrow> list_all plain (joined ts)"
  by (induction ts) (simp_all add: joined_simps join_plain)

lemma joined_printed: "list_all plain ts \<Longrightarrow> concat (map printed (joined ts)) = concat (map printed ts)"
  by (induction ts) (simp_all add: joined_simps join_printed)

lemma joined_open: "open_after (joined ts) os = open_after ts os"
proof (induction ts arbitrary: os)
  case (Cons t ts)
  then have e: "open_after (joined ts) = open_after ts" by blast
  show ?case unfolding joined_simps join_open by (cases t; cases os) (simp_all add: e)
qed (simp add: joined_simps)

lemma joined_Nil: "joined ts = [] \<longleftrightarrow> ts = []"
proof (cases ts)
  case (Cons t us)
  then show ?thesis by (cases "(t, joined us)" rule: join_text.cases) (auto simp: joined_simps)
qed (simp add: joined_simps)

lemma joined_apart: "ts = [] \<or> \<not> is_text (last ts) \<Longrightarrow> texts_apart (joined ts)"
proof (induction ts)
  case (Cons t ts)
  then show ?case by (auto simp: joined_simps joined_Nil intro: join_apart split: if_splits)
qed (simp add: joined_simps)

lemma joined_id: "texts_apart ts \<Longrightarrow> joined ts = ts"
proof (induction ts)
  case (Cons t ts)
  then show ?case by (cases "(t, ts)" rule: join_text.cases) (auto simp: joined_simps is_text_def)
qed (simp add: joined_simps)

text \<open>What is printed is read.\<close>

lemma printed_read:
  assumes "list_all plain ts" and "ts = [] \<or> \<not> is_text (last ts)" and "open_after ts [] \<noteq> None"
  shows "fst (tokens (length (joined ts)) (NewDecoder (concat (map printed ts)) EOF)) = joined ts"
proof (rule tokens_read [OF _ _ joined_plain [OF assms(1)] joined_apart [OF assms(2)]])
  let ?d = "NewDecoder (concat (map printed ts)) EOF"
  show "plain_state [] [] ?d" by (simp add: plain_state_def NewDecoder_def)
  show "coming ?d (joined ts)"
    using reading_new [of "concat (map printed ts)" EOF] reading_ahead by (simp add: coming_def joined_printed [OF assms(1)])
  show "open_after (joined ts) [] \<noteq> None" using assms(3) by (simp add: joined_open)
qed

section \<open>There and back\<close>

text \<open>
  C36. What the encoder writes, the decoder reads: for every properly nested sequence of start and end
  elements, texts and comments the encoder succeeds, and the decoder makes the same tokens, in the same
  order, of the bytes it wrote, except that texts which follow each other come back as one text. The
  names are valid, without name spaces and without a colon, and no attribute is called \<open>xmlns\<close>; texts
  and attribute values are valid UTF-8 of characters that XML allows, no text is empty, and none is the
  last token; no comment holds \<open>-->\<close>.
\<close>

theorem encode_decode_round_trip:
  assumes "list_all plain (map snd bts)" and "bts = [] \<or> \<not> is_text (snd (last bts))"
    and "open_after (map snd bts) [] \<noteq> None"
  shows "fst (encode_all bts NewEncoder) = None \<and>
    fst (tokens (length (joined (map snd bts))) (NewDecoder (xp_out (snd (encode_all bts NewEncoder))) EOF)) =
      joined (map snd bts)"
proof -
  have p: "plain_printer [] NewEncoder" "xp_out NewEncoder = []" by (simp_all add: plain_printer_def NewEncoder_def)
  obtain p' where e: "encode_all bts NewEncoder = (None, p')" "xp_out p' = concat (map printed (map snd bts))"
    using encode_plain_tokens [OF p(1) assms(1)] assms(3) p(2) by (auto simp: comp_def)
  have "map snd bts = [] \<or> \<not> is_text (last (map snd bts))" using assms(2) by (auto simp: last_map)
  from printed_read [OF assms(1) this assms(3)] e show ?thesis by simp
qed

definition small_doc :: "(bool \<times> xml_token) list" where
  "small_doc = [(False, StartElement \<lparr>Space = [], Local = ''a''\<rparr> [(\<lparr>Space = [], Local = ''b''\<rparr>, ''<'')]), (True, Comment ''-''),
     (True, CharData ''&''), (False, CharData ''c''), (True, EndElement \<lparr>Space = [], Local = ''a''\<rparr>)]"

theorem encode_decode_round_trip_witness:
  "fst (encode_all small_doc NewEncoder) = None \<and>
    fst (tokens 4 (NewDecoder (xp_out (snd (encode_all small_doc NewEncoder))) EOF)) =
      [StartElement \<lparr>Space = [], Local = ''a''\<rparr> [(\<lparr>Space = [], Local = ''b''\<rparr>, ''<'')], Comment ''-'',
       CharData ''&c'', EndElement \<lparr>Space = [], Local = ''a''\<rparr>]"
proof -
  have "list_all plain (map snd small_doc)" "open_after (map snd small_doc) [] \<noteq> None"
    by (simp_all add: small_doc_def plain_def plain_attr_def name_ok_def is_text_def name_simps bad_rune.simps
        decodeRune_def isInCharacterRange_def Let_def)
  moreover have "\<not> is_text (snd (last small_doc))" by (simp add: small_doc_def is_text_def)
  moreover have "joined (map snd small_doc) =
      [StartElement \<lparr>Space = [], Local = ''a''\<rparr> [(\<lparr>Space = [], Local = ''b''\<rparr>, ''<'')], Comment ''-'',
       CharData ''&c'', EndElement \<lparr>Space = [], Local = ''a''\<rparr>]" by (simp add: small_doc_def joined_simps)
  moreover have "length (joined (map snd small_doc)) = 4" by (simp add: small_doc_def joined_simps)
  ultimately show ?thesis using encode_decode_round_trip [of small_doc] by metis
qed

end
