(* ===== verification/XmlReader.thy ===== *)
theory XmlReader
  imports XmlRoundTrip
begin

text \<open>
  Readers of tokens: what \<open>internal/xml/read.go\<close> does without reflection (\<open>Skip\<close>, values that decode
  themselves), and the values \<open>pkg/webdav/xml.go\<close> decodes itself, the inner XML of a property and the
  properties of a PROPPATCH. The loops end because every token consumes bytes or closes an element.
\<close>

section \<open>Tokens consume\<close>

lemma left_ungetc_le: "mustgetc d = (Some b, d') \<Longrightarrow> left (ungetc c d') \<le> left d"
  by (simp add: left_mustgetc_ungetc)

lemma pi_loop_left: "pi_loop d buf b0 = (r, d') \<Longrightarrow> left d' \<le> left d"
proof (induction d buf b0 rule: pi_loop.induct)
  case (1 d buf b0)
  then show ?case
    by (subst (asm) (2) pi_loop.simps)
       (auto split: prod.splits option.splits if_splits dest!: mustgetc_None_left left_mustgetc)
qed

lemma directive_left: "directive p d buf q depth = (Some r, d') \<Longrightarrow> left d' \<le> left d"
proof (induction p d buf q depth rule: directive.induct)
  case (1 d buf q depth)
  obtain o' d1 where m: "mustgetc d = (o', d1)" by fastforce
  with "1.prems" "1.IH" [OF m [symmetric]] show ?case
    by (cases o') (auto simp: directive.simps(1) [of d] dest!: left_mustgetc split: if_splits)
next
  case (2 b d buf q depth)
  note run = "2.prems" [unfolded directive.simps(2) [of b d] Let_def]
  show ?case
  proof (cases "q = None \<and> b = CHR ''<''")
    case True
    then have q: "q \<noteq> Some b" "\<not> q \<noteq> None" "\<not> (b = CHR 39 \<or> b = CHR 34)" "b \<noteq> CHR ''>''" "b = CHR ''<''" by auto
    show ?thesis
    proof (cases "expect ''!--'' 0 d")
      case (Matched d1)
      obtain r1 d2 where c: "comment_loop d1 [] (CHR 0x00) (CHR 0x00) = (r1, d2)" by fastforce
      then obtain v where v: "r1 = Some v" using run q Matched by (cases r1) auto
      have "directive None d2 buf q depth = (Some r, d')" using run q Matched c v by simp
      from "2.IH"(5) [OF refl q Matched c [unfolded v, symmetric] refl this]
        comment_loop_left [OF c] expect_left(1) [OF Matched] show ?thesis by simp
    next
      case (Differs i b1 d1)
      have "directive (Some b1) d1 ((buf @ [b]) @ take i ''!--'') q (depth + 1) = (Some r, d')" using run q Differs by simp
      from "2.IH"(6) [OF refl q Differs this] expect_left(2) [OF Differs] show ?thesis by simp
    next
      case (Ended d1)
      then show ?thesis using run q by simp
    qed
  next
    case False
    then show ?thesis using run "2.IH"(1-4,7) [OF refl] by (auto split: if_splits)
  qed
qed

lemma xml_name_of_left: "xml_name_of d = (r, d') \<Longrightarrow> left d' \<le> left d"
  by (auto simp: xml_name_of_def split: prod.splits bool.splits if_splits dest!: readName_left)

lemma attr_loop_left: "attr_loop d attr = (Some r, d') \<Longrightarrow> left d' \<le> left d"
proof (induction d attr rule: attr_loop.induct)
  case (1 d attr)
  obtain o1 d1 where m: "mustgetc (space d) = (o1, d1)" by fastforce
  then obtain b where b: "o1 = Some b" using 1(2) by (cases o1) (auto simp: attr_loop.simps [of d])
  have d1: "Suc (left d1) = left (space d)" "left (ungetc b d1) = left (space d)"
    using m b left_mustgetc left_mustgetc_ungetc by blast+
  show ?case
  proof (cases "b = CHR ''/'' \<or> b = CHR ''>''")
    case True
    then show ?thesis using 1(2) m b d1 space_left [of d]
      by (auto simp: attr_loop.simps [of d] dest!: left_mustgetc split: prod.splits option.splits if_splits)
  next
    case False
    then obtain n d2 v d3 where n: "nsname (ungetc b d1) = (Some n, d2)" and v: "attr_value n d2 = (Some v, d3)"
      and l: "attr_loop d3 (attr @ [(n, v)]) = (Some r, d')"
      using 1(2) m b by (auto simp: attr_loop.simps [of d] split: prod.splits option.splits)
    from 1(1) [OF m [symmetric] b _ _ n [symmetric] refl v [symmetric] refl l] False
    have "left d' \<le> left d3" by simp
    with attr_value_left [OF v] nsname_left [OF n] d1 space_left [of d] show ?thesis by simp
  qed
qed

lemma text_left:
  assumes "xml_text None False d = (Some r, d')" and "getc d = (Some b, d1)" and "b \<noteq> CHR ''<''"
  shows "left d' < left d"
proof -
  obtain r0 where x: "text_loop None False d [] (CHR 0x00) (CHR 0x00) = (Some r0, d')"
    using assms(1) by (auto simp: xml_text_def split: prod.splits option.splits)
  have "left d' \<le> left d1"
  proof (cases "b = CHR ''&''")
    case True
    then obtain raw o1 d2 buf where e: "read_entity d1 = (Some (raw, o1), d2)"
      and l: "text_loop None False d2 buf (CHR 0x00) (CHR 0x00) = (Some r0, d')"
      using x assms(2) by (auto simp: text_loop.simps [of None False d] split: prod.splits option.splits if_splits)
    from text_loop_left [OF l] read_entity_left [OF e] show ?thesis by simp
  next
    case False
    then obtain buf b0 b1 where "text_loop None False d1 buf b0 b1 = (Some r0, d')"
      using x assms(2,3) by (auto simp: text_loop.simps [of None False d] split: if_splits)
    then show ?thesis by (rule text_loop_left)
  qed
  with left_getc [OF assms(2)] show ?thesis by simp
qed

lemma map_token_left:
  assumes "map_prod (map_option g) id p = (Some t, d')" and "\<And>r. p = (Some r, d') \<Longrightarrow> left d' \<le> k"
  shows "left d' \<le> k"
  using assms by (cases p; cases "fst p") auto

lemma bang_left: 
  assumes "bang d = (Some t, d')" shows "left d' \<le> left d"
proof -
  obtain b d1 where m: "mustgetc d = (Some b, d1)" using assms by (auto simp: bang_def split: prod.splits option.splits)
  have "left d' \<le> left d1"
  proof (cases "b = CHR ''-''")
    case True
    then obtain b2 d2 buf where "mustgetc d1 = (Some b2, d2)" "comment_loop d2 [] (CHR 0x00) (CHR 0x00) = (Some buf, d')"
      using assms m by (auto simp: bang_def split: prod.splits option.splits if_splits)
    from left_mustgetc [OF this(1)] comment_loop_left [OF this(2)] show ?thesis by simp
  next
    case b: False
    show ?thesis
    proof (cases "b = CHR ''[''")
      case True
      then obtain d2 where e: "expect ''CDATA['' 0 d1 = Matched d2"
        and x: "map_prod (map_option CharData) id (xml_text None True d2) = (Some t, d')"
        using assms m by (auto simp: bang_def simp del: expect.simps split: expected.splits)
      have "left d' \<le> left d2" by (rule map_token_left [OF x]) (rule xml_text_left)
      with expect_left(1) [OF e] show ?thesis by simp
    next
      case False
      then have "map_prod (map_option Directive) id (directive None d1 [b] None 0) = (Some t, d')"
        using assms m b by (simp add: bang_def)
      then show ?thesis by (rule map_token_left) (rule directive_left)
    qed
  qed
  with left_mustgetc [OF m] show ?thesis by simp
qed

lemma proc_inst_left: "proc_inst d = (Some t, d') \<Longrightarrow> left d' \<le> left d"
proof -
  assume p: "proc_inst d = (Some t, d')"
  obtain target d1 buf where n: "xml_name_of d = (Some target, d1)" and l: "pi_loop (space d1) [] (CHR 0x00) = (Some buf, d')"
    using p by (auto simp: proc_inst_def Let_def split: prod.splits option.splits if_splits)
  from xml_name_of_left [OF n] space_left [of d1] pi_loop_left [OF l] show ?thesis by simp
qed

lemma end_tag_left: "end_tag d = (Some t, d') \<Longrightarrow> left d' \<le> left d"
proof -
  assume p: "end_tag d = (Some t, d')"
  obtain n d1 b where n: "nsname d = (Some n, d1)" and m: "mustgetc (space d1) = (Some b, d')"
    using p by (auto simp: end_tag_def split: prod.splits option.splits if_splits)
  from nsname_left [OF n] space_left [of d1] left_mustgetc [OF m] show ?thesis by simp
qed

lemma start_tag_left: "start_tag d = (Some t, d') \<Longrightarrow> left d' \<le> left d"
proof -
  assume p: "start_tag d = (Some t, d')"
  obtain n d1 r d2 where n: "nsname d = (Some n, d1)" and l: "attr_loop d1 [] = (Some r, d2)" and "left d' = left d2"
    using p by (auto simp: start_tag_def left_def split: prod.splits option.splits if_splits)
  with nsname_left [OF n] attr_loop_left [OF l] show ?thesis by simp
qed

definition is_end :: "xml_token \<Rightarrow> bool" where
  "is_end t = (case t of EndElement _ \<Rightarrow> True | _ \<Rightarrow> False)"

lemma rawToken_left:
  assumes "rawToken d = (Some t, d')"
  shows "left d' < left d \<or> left d' = left d \<and> is_end t"
proof (cases "xd_needClose d")
  case True
  then show ?thesis using assms by (auto simp: rawToken_def left_def is_end_def split: if_splits)
next
  case False
  then obtain b d1 where g: "getc d = (Some b, d1)" using assms by (auto simp: rawToken_def split: prod.splits option.splits if_splits)
  have e: "xd_err d = None" using assms by (auto simp: rawToken_def split: if_splits)
  show ?thesis
  proof (cases "b = CHR ''<''")
    case True
    then obtain b2 d2 where m: "mustgetc d1 = (Some b2, d2)"
      using assms False g e by (auto simp: rawToken_def split: prod.splits option.splits)
    have "left d' \<le> left d1"
      using assms False g e True m left_mustgetc [OF m] left_ungetc_le [OF m, of b2]
      by (auto simp: rawToken_def dest!: end_tag_left proc_inst_left bang_left start_tag_left split: if_splits)
    with left_getc [OF g] show ?thesis by simp
  next
    case b: False
    then obtain r where "xml_text None False (ungetc b d1) = (Some r, d')"
      using assms False g e by (cases "xml_text None False (ungetc b d1)") (auto simp: rawToken_def)
    from text_left [OF this getc_ungetc [OF g] b] have "left d' < left (ungetc b d1)" .
    moreover have "left (ungetc b d1) = left d" using left_getc [OF g] left_ungetc [OF getc_unread [OF g]] by simp
    ultimately show ?thesis by simp
  qed
qed

text \<open>
  The measure: bytes, and a token that was put back unless it is an end element; then the stack, which an
  end element pops.
\<close>

definition progress :: "decoder \<Rightarrow> nat \<times> nat" where
  "progress d =
     (2 * left d + (case xd_nextToken d of Some t \<Rightarrow> if is_end t then 0 else 1 | None \<Rightarrow> 0), length (xd_stk d))"

definition consumes :: "(decoder \<times> decoder) set" where
  "consumes = inv_image (less_than <*lex*> less_than) progress"

lemma wf_consumes [simp]: "wf consumes"
  by (simp add: consumes_def wf_inv_image wf_lex_prod)

lemma consumes_trans: "(d2, d1) \<in> consumes \<Longrightarrow> (d1, d) \<in> consumes \<Longrightarrow> (d2, d) \<in> consumes"
  by (cases "progress d2"; cases "progress d1"; cases "progress d") (auto simp: consumes_def)

lemma undo_ns_length: "undo_ns stk ns = (stk', ns') \<Longrightarrow> length stk' \<le> length stk"
  using undo_ns_shorter [of stk ns] by simp

lemma popElement_left:
  "popElement n d = (Some n', d') \<Longrightarrow>
   left d' = left d \<and> xd_nextToken d' = xd_nextToken d \<and> length (xd_stk d') < length (xd_stk d)"
  by (auto simp: popElement_def Let_def left_def split: list.splits stack_entry.splits if_splits prod.splits dest!: undo_ns_length)

lemma declared_left: "left (fold declare_ns as d) = left d"
  by (induction as rule: rev_induct) (auto simp: declare_ns_def bind_ns_def pushNs_def push_def left_def Let_def)

lemma finish_token_left:
  assumes "finish_token t d = ((Some t', e), d')"
  shows "left d' = left d \<and> xd_nextToken d' = xd_nextToken d \<and> (is_end t \<longrightarrow> length (xd_stk d') < length (xd_stk d))"
proof (cases t)
  case (StartElement n as)
  have "left (push s d0) = left d0" "xd_nextToken (push s d0) = xd_nextToken d0" for s d0 by (simp_all add: push_def left_def)
  then show ?thesis using assms StartElement
    by (auto simp: finish_token_def Let_def pushElement_def is_end_def declared_left declared_strict)
next
  case (EndElement n)
  then show ?thesis using assms popElement_left [of "translate d n True" d]
    by (auto simp: finish_token_def split: prod.splits option.splits)
qed (use assms in \<open>auto simp: finish_token_def is_end_def\<close>)

lemma autoClose_end: "autoClose t d = Some t1 \<Longrightarrow> is_end t1"
  by (auto simp: autoClose_def is_end_def Let_def split: list.splits stack_entry.splits if_splits)

lemma Token_consumes:
  assumes "Token d = ((Some t, e), d')"
  shows "(d', d) \<in> consumes"
proof -
  obtain t0 d1 where s: "(case xd_nextToken d of Some t \<Rightarrow> (Some t, d\<lparr>xd_nextToken := None\<rparr>) | None \<Rightarrow> rawToken d) = (Some t0, d1)"
    using assms by (auto simp: Token_def split: if_splits prod.splits option.splits)
  obtain t1 d2 where f: "finish_token t1 d2 = ((Some t, e), d')"
    and c: "t1 = t0 \<and> d2 = d1 \<or> is_end t1 \<and> d2 = d1\<lparr>xd_nextToken := Some t0\<rparr>"
    using assms s by (auto simp: Token_def dest: autoClose_end split: if_splits option.splits)
  have d2: "left d2 = left d1" "xd_stk d2 = xd_stk d1" using c by (auto simp: left_def)
  have n: "left d1 = left d \<and> xd_stk d1 = xd_stk d \<and> xd_nextToken d1 = None \<and> xd_nextToken d = Some t0 \<or>
    (left d1 < left d \<or> left d1 = left d \<and> is_end t0) \<and> xd_stk d1 = xd_stk d \<and> xd_nextToken d1 = None \<and> xd_nextToken d = None"
  proof (cases "xd_nextToken d")
    case None
    then have r: "rawToken d = (Some t0, d1)" using s by simp
    from rawToken_left [OF r] core_rawToken [OF r] None show ?thesis by (auto simp: core_def)
  next
    case (Some u)
    then show ?thesis using s by (auto simp: left_def)
  qed
  show ?thesis
    using finish_token_left [OF f] c d2 n by (auto simp: consumes_def progress_def split: if_splits)
qed

lemma Token_consumes_sym: "((Some t, e), d') = Token d \<Longrightarrow> (d', d) \<in> consumes"
  by (rule Token_consumes [OF sym])

section \<open>Loops over tokens\<close>

text \<open>\<open>next\<close> of \<open>pkg/webdav/xml.go\<close>.\<close>

definition dropped :: "xml_token \<Rightarrow> bool" where
  "dropped t = (case t of Comment _ \<Rightarrow> True | Directive _ \<Rightarrow> True | ProcInst _ _ \<Rightarrow> True | _ \<Rightarrow> False)"

function decoder_next :: "decoder \<Rightarrow> answer" where
  "decoder_next d =
     (case Token d of
        ((None, e), d1) \<Rightarrow> ((None, e), d1)
      | ((Some t, e), d1) \<Rightarrow> (if dropped t then decoder_next d1 else ((Some t, None), d1)))"
  by pat_completeness auto

termination
  by (relation consumes) (auto dest: Token_consumes_sym)

declare decoder_next.simps [simp del]

lemma decoder_next_consumes: "decoder_next d = ((Some t, e), d') \<Longrightarrow> (d', d) \<in> consumes"
proof (induction d rule: decoder_next.induct)
  case (1 d)
  obtain t0 e0 d1 where k: "Token d = ((Some t0, e0), d1)"
    using 1(2) by (auto simp: decoder_next.simps [of d] split: prod.splits option.splits)
  show ?case
  proof (cases "dropped t0")
    case True
    then have "decoder_next d1 = ((Some t, e), d')" using 1(2) k by (simp add: decoder_next.simps [of d])
    from 1(1) [OF k [symmetric] refl refl True this] Token_consumes [OF k] show ?thesis by (rule consumes_trans)
  next
    case False
    then show ?thesis using 1(2) k Token_consumes [OF k] by (simp add: decoder_next.simps [of d])
  qed
qed

text \<open>\<open>Skip\<close>: with \<open>depth\<close> calls of it active, the first of them included. \<open>None\<close> is a nil error.\<close>

function Skip_loop :: "nat \<Rightarrow> decoder \<Rightarrow> xml_error option \<times> decoder" where
  "Skip_loop depth d =
     (case Token d of
        ((None, e), d1) \<Rightarrow> (e, d1)
      | ((Some t, _), d1) \<Rightarrow>
          (case t of
             StartElement _ _ \<Rightarrow> Skip_loop (Suc depth) d1
           | EndElement _ \<Rightarrow> (if depth \<le> 1 then (None, d1) else Skip_loop (depth - 1) d1)
           | _ \<Rightarrow> Skip_loop depth d1))"
  by pat_completeness auto

termination
  by (relation "inv_image consumes snd") (auto simp: wf_inv_image dest: Token_consumes_sym)

declare Skip_loop.simps [simp del]

definition Skip :: "decoder \<Rightarrow> xml_error option \<times> decoder" where
  "Skip d = Skip_loop 1 d"

text \<open>\<open>unmarshalTextInterface\<close>: the text of an element without that of its children.\<close>

function text_value :: "nat \<Rightarrow> gostring \<Rightarrow> decoder \<Rightarrow> (xml_error option + gostring) \<times> decoder" where
  "text_value depth buf d =
     (if depth = 0 then (Inr buf, d)
      else
        (case Token d of
           ((None, e), d1) \<Rightarrow> (Inl e, d1)
         | ((Some t, _), d1) \<Rightarrow>
             (case t of
                CharData s \<Rightarrow> text_value depth (if depth = 1 then buf @ s else buf) d1
              | StartElement _ _ \<Rightarrow> text_value (Suc depth) buf d1
              | EndElement _ \<Rightarrow> text_value (depth - 1) buf d1
              | _ \<Rightarrow> text_value depth buf d1)))"
  by pat_completeness auto

termination
  by (relation "inv_image consumes (\<lambda>(depth, buf, d). d)") (auto simp: wf_inv_image dest: Token_consumes_sym)

declare text_value.simps [simp del]

definition unmarshalTextInterface :: "(gostring \<Rightarrow> 'e option) \<Rightarrow> decoder \<Rightarrow> (xml_error option + 'e option) \<times> decoder" where
  "unmarshalTextInterface UnmarshalText d =
     (case text_value 1 [] d of
        (Inl e, d1) \<Rightarrow> (Inl e, d1)
      | (Inr buf, d1) \<Rightarrow> (Inr (UnmarshalText buf), d1))"

section \<open>Values that decode themselves\<close>

datatype value_error = TokenError "xml_error option" | EncodeError encode_error | NotConsumed gostring | EmptyProps gostring

text \<open>
  \<open>unmarshalInterface\<close>: the decoder stops at the end of the element, which the value must reach. The
  outer \<open>None\<close> is the panic of \<open>pushEOF\<close>.
\<close>

definition unmarshalInterface ::
  "(decoder \<Rightarrow> (value_error + 'v) \<times> decoder) \<Rightarrow> xml_name \<Rightarrow> decoder \<Rightarrow> ((value_error + 'v) \<times> decoder) option" where
  "unmarshalInterface UnmarshalXML start d =
     (case pushEOF d of
        None \<Rightarrow> None
      | Some d1 \<Rightarrow>
          (case UnmarshalXML (d1\<lparr>xd_unmarshalDepth := xd_unmarshalDepth d1 + 1\<rparr>) of
             (r, d2) \<Rightarrow>
               (let d3 = d2\<lparr>xd_unmarshalDepth := xd_unmarshalDepth d2 - 1\<rparr>; (at_end, d4) = popEOF d3 in
                case r of
                  Inl e \<Rightarrow> Some (Inl e, d4)
                | Inr v \<Rightarrow> (if \<not> at_end then Some (Inl (NotConsumed (Local start)), d4) else Some (Inr v, d4)))))"

text \<open>\<open>xmlValue.UnmarshalXML\<close>: the tokens up to the end of the element, encoded again. None of them is an instruction.\<close>

function xml_value :: "xml_name \<Rightarrow> decoder \<Rightarrow> printer \<Rightarrow> (value_error + gostring) \<times> decoder" where
  "xml_value start d p =
     (case decoder_next d of
        ((None, e), d1) \<Rightarrow> (Inl (TokenError e), d1)
      | ((Some t, _), d1) \<Rightarrow>
          (if t = EndElement start then (Inr (xp_out p), d1)
           else
             (case EncodeToken True t p of
                (Some err, _) \<Rightarrow> (Inl (EncodeError err), d1)
              | (None, p1) \<Rightarrow> xml_value start d1 p1)))"
  by pat_completeness auto

termination
  by (relation "inv_image consumes (\<lambda>(start, d, p). d)")
    (auto simp: wf_inv_image dest: decoder_next_consumes [OF sym])

declare xml_value.simps [simp del]

definition xmlValue :: "xml_name \<Rightarrow> decoder \<Rightarrow> (value_error + gostring) \<times> decoder" where
  "xmlValue start d = xml_value start d NewEncoder"

lemma xml_value_consumes: "xml_value start d p = (Inr v, d') \<Longrightarrow> (d', d) \<in> consumes"
proof (induction start d p rule: xml_value.induct)
  case (1 start d p)
  obtain t e d1 where k: "decoder_next d = ((Some t, e), d1)"
    using 1(2) by (auto simp: xml_value.simps [of start d] split: prod.splits option.splits)
  show ?case
  proof (cases "t = EndElement start")
    case True
    then show ?thesis using 1(2) k decoder_next_consumes [OF k] by (simp add: xml_value.simps [of start d])
  next
    case False
    then obtain p1 where e: "EncodeToken True t p = (None, p1)" and x: "xml_value start d1 p1 = (Inr v, d')"
      using 1(2) k by (auto simp: xml_value.simps [of start d] split: prod.splits option.splits)
    from 1(1) [OF k [symmetric] refl refl False e [symmetric] refl x] decoder_next_consumes [OF k] show ?thesis
      by (rule consumes_trans)
  qed
qed

lemma pushEOF_length: "pushEOF d = Some d1 \<Longrightarrow> length (xd_stk d1) = Suc (length (xd_stk d))"
proof -
  assume p: "pushEOF d = Some d1"
  then obtain s rest where s: "dropWhile (\<lambda>e. \<not> is_start e) (xd_stk d) = s # rest"
    and d1: "xd_stk d1 = takeWhile (\<lambda>e. \<not> is_start e) (xd_stk d) @ s # takeWhile is_ns rest @ StkEOF # dropWhile is_ns rest"
    by (auto simp: pushEOF_def split: list.splits)
  have "length (xd_stk d) = length (takeWhile (\<lambda>e. \<not> is_start e) (xd_stk d)) + length (s # rest)"
    using takeWhile_dropWhile_id [of "\<lambda>e. \<not> is_start e" "xd_stk d"] s by (metis length_append)
  moreover have "length rest = length (takeWhile is_ns rest) + length (dropWhile is_ns rest)"
    by (metis length_append takeWhile_dropWhile_id)
  ultimately show ?thesis by (simp add: d1)
qed

lemma unmarshalInterface_consumes:
  assumes "unmarshalInterface f start d = Some (Inr v, d')" and "\<And>e v e'. f e = (Inr v, e') \<Longrightarrow> (e', e) \<in> consumes"
  shows "(d', d) \<in> consumes"
proof -
  obtain d1 where p: "pushEOF d = Some d1" using assms(1) by (auto simp: unmarshalInterface_def split: option.splits)
  let ?e = "d1\<lparr>xd_unmarshalDepth := xd_unmarshalDepth d1 + 1\<rparr>"
  obtain d2 where f: "f ?e = (Inr v, d2)" and q: "popEOF (d2\<lparr>xd_unmarshalDepth := xd_unmarshalDepth d2 - 1\<rparr>) = (True, d')"
    using assms(1) p by (auto simp: unmarshalInterface_def Let_def split: prod.splits sum.splits if_splits)
  have "left d1 = left d" "xd_nextToken d1 = xd_nextToken d"
    using p by (auto simp: pushEOF_def left_def split: list.splits)
  moreover have "left d' = left d2" "xd_nextToken d' = xd_nextToken d2" "length (xd_stk d2) = Suc (length (xd_stk d'))"
    using q by (auto simp: popEOF_def left_def split: list.splits stack_entry.splits)
  ultimately show ?thesis using assms(2) [OF f] pushEOF_length [OF p]
    by (auto simp: consumes_def progress_def left_def)
qed

text \<open>\<open>proppatchProps.UnmarshalXML\<close>; the outer \<open>None\<close> is a panic.\<close>

function proppatch_props ::
  "xml_name \<Rightarrow> gostring \<Rightarrow> decoder \<Rightarrow> dav_property list \<Rightarrow> ((value_error + dav_property list) \<times> decoder) option" where
  "proppatch_props start lang d ps =
     (case decoder_next d of
        ((None, e), d1) \<Rightarrow> Some (Inl (TokenError e), d1)
      | ((Some (EndElement _), _), d1) \<Rightarrow> (if ps = [] then Some (Inl (EmptyProps (Local start)), d1) else Some (Inr ps, d1))
      | ((Some (StartElement n attr), _), d1) \<Rightarrow>
          (case unmarshalInterface (xmlValue n) n d1 of
             None \<Rightarrow> None
           | Some (Inl err, d2) \<Rightarrow> Some (Inl err, d2)
           | Some (Inr inner, d2) \<Rightarrow>
               proppatch_props start lang d2
                 (ps @ [\<lparr>dp_XMLName = n, dp_Lang = xmlLang attr lang, dp_InnerXML = inner\<rparr>]))
      | ((Some _, _), d1) \<Rightarrow> proppatch_props start lang d1 ps)"
  by pat_completeness auto

termination
proof (relation "inv_image consumes (\<lambda>(start, lang, d, ps). d)", goal_cases)
  case 1
  show ?case by (simp add: wf_inv_image)
qed (auto intro: consumes_trans [OF unmarshalInterface_consumes] dest: decoder_next_consumes [OF sym] simp: xmlValue_def
  dest!: xml_value_consumes sym [of "Some _"])

declare proppatch_props.simps [simp del]

definition proppatchProps ::
  "xml_name \<Rightarrow> (xml_name \<times> gostring) list \<Rightarrow> decoder \<Rightarrow> ((value_error + dav_property list) \<times> decoder) option" where
  "proppatchProps start attr d = proppatch_props start (xmlLang attr []) d []"

section \<open>The value of a property\<close>

lemma open_after_append:
  "open_after (ts @ us) os = (case open_after ts os of None \<Rightarrow> None | Some os' \<Rightarrow> open_after us os')"
proof (induction ts arbitrary: os)
  case (Cons t ts)
  then show ?case by (cases t; cases os) simp_all
qed simp

lemma open_after_below: "open_after ts os = Some os' \<Longrightarrow> open_after ts (os @ xs) = Some (os' @ xs)"
proof (induction ts arbitrary: os)
  case (Cons t ts)
  obtain os1 where o: "open_after [t] os = Some os1" "open_after ts os1 = Some os'"
    using open_after_append [of "[t]" ts os] Cons.prems by (auto split: option.splits)
  have "open_after [t] (os @ xs) = Some (os1 @ xs)" using o(1) by (cases t; cases os) (auto split: if_splits)
  with Cons.IH [OF o(2)] show ?case using open_after_append [of "[t]" ts "os @ xs"] by simp
qed simp

text \<open>What is left of a value: its elements and texts.\<close>

definition lasting :: "xml_token list \<Rightarrow> xml_token list" where
  "lasting ts = filter (\<lambda>t. case t of StartElement _ _ \<Rightarrow> True | EndElement _ \<Rightarrow> True | CharData _ \<Rightarrow> True | _ \<Rightarrow> False) ts"

lemma lasting_not_dropped: "lasting ts = filter (\<lambda>t. \<not> dropped t) ts"
  by (induction ts) (auto simp: lasting_def dropped_def split: xml_token.splits)

lemma lasting_simps: "lasting [] = []" "lasting (t # ts) = (if dropped t then lasting ts else t # lasting ts)"
  by (simp_all add: lasting_not_dropped)

lemma open_after_dropped: "dropped t \<Longrightarrow> open_after (t # ts) os = open_after ts os"
  by (cases t) (simp_all add: dropped_def)

lemma open_lasting: "open_after (lasting ts) os = open_after ts os"
proof (induction ts arbitrary: os)
  case (Cons t ts)
  show ?case
  proof (cases "dropped t")
    case True
    with Cons show ?thesis by (simp add: open_after_dropped lasting_simps del: open_after.simps)
  next
    case False
    with Cons show ?thesis by (cases t; cases os) (simp_all add: lasting_simps)
  qed
qed (simp add: lasting_simps)

text \<open>The text of a value: its tokens as the encoder prints them.\<close>

definition value_text :: "xml_token list \<Rightarrow> gostring" where
  "value_text body = concat (map printed (lasting body))"

lemma value_text_simps: "value_text [] = []" "value_text (t # ts) = (if dropped t then [] else printed t) @ value_text ts"
  by (simp_all add: value_text_def lasting_simps)

lemma xml_value_next:
  "decoder_next d = decoder_next d' \<Longrightarrow> xml_value start d p = xml_value start d' p"
  by (simp add: xml_value.simps [of start d] xml_value.simps [of start d'])

lemma xml_value_read:
  "tokens (Suc (length body)) d = (body @ [EndElement n], d') \<Longrightarrow> list_all plain (lasting body) \<Longrightarrow>
    plain_printer inner p \<Longrightarrow> open_after body inner \<noteq> None \<Longrightarrow> EndElement n \<notin> set body \<Longrightarrow>
    xml_value n d p = (Inr (xp_out p @ value_text body), d')"
proof (induction body arbitrary: d p inner)
  case Nil
  then obtain e where "Token d = ((Some (EndElement n), e), d')" by (auto split: prod.splits option.splits)
  then have "decoder_next d = ((Some (EndElement n), None), d')" by (simp add: decoder_next.simps [of d] dropped_def)
  then show ?case by (simp add: xml_value.simps [of n d] value_text_simps)
next
  case (Cons t body)
  obtain e d1 where k: "Token d = ((Some t, e), d1)" and r: "tokens (Suc (length body)) d1 = (body @ [EndElement n], d')"
    using tokens_Suc [OF Cons.prems(1)] by (metis append_Cons length_Cons length_append_singleton list.inject)
  show ?case
  proof (cases "dropped t")
    case True
    then have "decoder_next d = decoder_next d1" using k by (simp add: decoder_next.simps [of d])
    from xml_value_next [OF this] Cons.IH [OF r, of inner p] Cons.prems(2-5) True show ?thesis
      by (simp add: value_text_simps lasting_simps open_after_dropped del: open_after.simps)
  next
    case False
    obtain inner1 where o: "open_after [t] inner = Some inner1" "open_after body inner1 \<noteq> None"
      using open_after_append [of "[t]" body inner] Cons.prems(4) by (auto split: option.splits)
    have "plain t" using Cons.prems(2) False by (simp add: lasting_simps)
    from encode_plain_token [OF Cons.prems(3) this o(1), of True] obtain p1 where
      e: "EncodeToken True t p = (None, p1)" "xp_out p1 = xp_out p @ printed t" "plain_printer inner1 p1" by blast
    have "decoder_next d = ((Some t, None), d1)" using k False by (simp add: decoder_next.simps [of d])
    moreover have "t \<noteq> EndElement n" using Cons.prems(5) by auto
    ultimately have "xml_value n d p = xml_value n d1 p1" using e(1) by (simp add: xml_value.simps [of n d])
    with Cons.IH [OF r _ e(3) o(2)] Cons.prems(2,5) e(2) False show ?thesis by (simp add: value_text_simps lasting_simps)
  qed
qed

text \<open>Inside a value: the open elements \<open>os\<close>, above the end mark.\<close>

definition names :: "stack_entry list \<Rightarrow> xml_name list" where
  "names s = concat (map (\<lambda>e. case e of StkStart n \<Rightarrow> [n] | _ \<Rightarrow> []) s)"

definition above :: "stack_entry list \<Rightarrow> xml_name list \<Rightarrow> decoder \<Rightarrow> bool" where
  "above base os d \<longleftrightarrow> xd_Strict d \<and> xd_nextToken d = None \<and>
     (\<exists>s. xd_stk d = s @ StkEOF # base \<and> settled s \<and> names s = os)"

lemma names_simps: "names [] = []" "names (StkStart n # s) = n # names s" "names (s @ s') = names s @ names s'"
  by (simp_all add: names_def)

lemma names_ns: "list_all is_ns s \<Longrightarrow> names s = [] \<and> StkEOF \<notin> set s"
  by (induction s) (auto simp: names_def is_ns_def split: stack_entry.splits)

lemma declared_stack: "\<exists>s. xd_stk (fold declare_ns attr d) = s @ xd_stk d \<and> list_all is_ns s"
proof (induction attr rule: rev_induct)
  case (snoc a attr)
  have "\<exists>s. xd_stk (declare_ns a e) = s @ xd_stk e \<and> list_all is_ns s" for e
    by (auto simp: declare_ns_def bind_ns_def pushNs_def push_def Let_def is_ns_def)
  with snoc show ?case by (metis append_assoc comp_apply fold.simps(1,2) fold_append id_apply list_all_append)
qed simp

lemma undo_above:
  assumes "StkEOF \<notin> set s"
  shows "\<exists>s' ns'. undo_ns (s @ StkEOF # base) ns = (s' @ StkEOF # base, ns') \<and> settled s' \<and> names s' = names s"
  using assms
proof (induction s arbitrary: ns)
  case Nil
  have "settled []" by (simp add: settled_def)
  then show ?case by (metis append_Nil undo_ns.simps(4))
next
  case (Cons x s)
  show ?case
  proof (cases x)
    case (StkStart n)
    have "settled (x # s)" using Cons.prems by (simp add: settled_def is_start_def StkStart)
    with StkStart show ?thesis by (metis append_Cons undo_ns.simps(3))
  next
    case (StkNs l u k)
    then show ?thesis using Cons by (simp add: names_def)
  qed (use Cons.prems in simp)
qed

lemma finish_token_above:
  assumes "above base os d" and "os \<noteq> []" and "finish_token t0 d = ((Some t, e), d')"
  shows "\<exists>os'. open_after [t] os = Some os' \<and> above base os' d'"
proof -
  obtain s where s: "xd_stk d = s @ StkEOF # base" "settled s" "names s = os" and d: "xd_Strict d" "xd_nextToken d = None"
    using assms(1) by (auto simp: above_def)
  show ?thesis
  proof (cases t0)
    case (StartElement n attr)
    obtain u where u: "xd_stk (fold declare_ns attr d) = u @ xd_stk d" "list_all is_ns u" using declared_stack by blast
    obtain n' as where t: "t = StartElement n' as" "d' = pushElement n' (fold declare_ns attr d)"
      using assms(3) StartElement by (auto simp: finish_token_def Let_def)
    have "settled (StkStart n' # u @ s)" "names (StkStart n' # u @ s) = n' # os"
      using names_ns [OF u(2)] s by (auto simp: settled_def is_start_def names_simps)
    then have "above base (n' # os) d'"
      using u(1) s(1) d t(2) declared_strict [of attr d] by (auto simp: above_def pushElement_def push_def intro!: exI [of _ "StkStart n' # u @ s"])
    then show ?thesis using t(1) by simp
  next
    case (EndElement n)
    have "s \<noteq> []" using s(3) assms(2) by (auto simp: names_simps)
    then obtain m s1 where s1: "s = StkStart m # s1" "StkEOF \<notin> set s1"
      using s(2) by (cases s) (auto simp: settled_def is_start_def split: stack_entry.splits)
    obtain s2 ns' where u: "undo_ns (s1 @ StkEOF # base) (xd_ns d) = (s2 @ StkEOF # base, ns')" "settled s2" "names s2 = names s1"
      using undo_above [OF s1(2)] by blast
    then have "t = EndElement m" "xd_stk d' = s2 @ StkEOF # base" "xd_Strict d'" "xd_nextToken d' = None"
      using assms(3) s(1) s1(1) d EndElement
      by (auto simp: finish_token_def popElement_def Let_def xml_name.equality split: prod.splits option.splits if_splits)
    moreover have "os = m # names s1" using s(3) s1(1) by (simp add: names_simps)
    ultimately show ?thesis using u(2,3) by (auto simp: above_def)
  qed (use assms in \<open>auto simp: finish_token_def\<close>)
qed

lemma Token_above:
  assumes "above base os d" and "Token d = ((Some t, e), d')"
  shows "\<exists>os'. open_after [t] os = Some os' \<and> above base os' d'"
proof -
  obtain s where s: "xd_stk d = s @ StkEOF # base" "settled s" "names s = os" and d: "xd_Strict d" "xd_nextToken d = None"
    using assms(1) by (auto simp: above_def)
  have n: "s \<noteq> []" using s(1) assms(2) by (auto simp: Token_def)
  then obtain m s1 where "s = StkStart m # s1"
    using s(2) by (cases s) (auto simp: settled_def is_start_def split: stack_entry.splits)
  then have top: "\<not> (xd_stk d \<noteq> [] \<and> hd (xd_stk d) = StkEOF)" "os \<noteq> []" using s by (auto simp: names_simps)
  obtain t0 d1 where r: "rawToken d = (Some t0, d1)" and f: "finish_token t0 d1 = ((Some t, e), d')"
    using assms(2) top(1) d core_rawToken [of d] by (auto simp: Token_def core_def split: prod.splits option.splits if_splits)
  have "above base os d1" using assms(1) core_rawToken [OF r] by (auto simp: above_def core_def)
  from finish_token_above [OF this top(2) f] show ?thesis .
qed

lemma tokens_above:
  "above base os d \<Longrightarrow> tokens n d = (ts, d') \<Longrightarrow> length ts = n \<Longrightarrow> \<exists>os'. open_after ts os = Some os' \<and> above base os' d'"
proof (induction n arbitrary: d ts os)
  case (Suc n)
  from Suc.prems(2,3) obtain u e d1 ts1 where k: "Token d = ((Some u, e), d1)"
    and t: "ts = u # ts1" "tokens n d1 = (ts1, d')" "length ts1 = n" by (rule tokens_Suc)
  obtain os1 where o: "open_after [u] os = Some os1" "above base os1 d1" using Token_above [OF Suc.prems(1) k] by blast
  from Suc.IH [OF o(2) t(2,3)] o(1) show ?case using open_after_append [of "[u]" ts1 os] by (simp add: t(1))
qed simp

lemma settled_names: "settled s \<Longrightarrow> names s = [] \<Longrightarrow> s = []"
  by (cases s) (auto simp: settled_def is_start_def names_def split: stack_entry.splits)

lemma above_end: "above base [] d \<Longrightarrow> xd_stk d = StkEOF # base"
  using settled_names by (auto simp: above_def)

lemma finish_start:
  assumes "finish_token t0 d = ((Some (StartElement n as), e), d')"
  shows "\<exists>s. xd_stk d' = StkStart n # s \<and> xd_Strict d' = xd_Strict d \<and> xd_nextToken d' = xd_nextToken d"
  using assms declared_strict [of _ d]
  by (auto simp: finish_token_def Let_def pushElement_def push_def split: xml_token.splits prod.splits option.splits)

lemma Token_start:
  assumes "xd_Strict d0" "xd_nextToken d0 = None" "Token d0 = ((Some (StartElement n as), e), d)"
  shows "\<exists>s. xd_stk d = StkStart n # s \<and> xd_Strict d \<and> xd_nextToken d = None"
proof -
  obtain t0 d1 where r: "rawToken d0 = (Some t0, d1)" "finish_token t0 d1 = ((Some (StartElement n as), e), d)"
    using assms core_rawToken [of d0] by (auto simp: Token_def core_def split: prod.splits option.splits if_splits)
  with finish_start [OF r(2)] core_rawToken [OF r(1)] assms(1,2) show ?thesis by (auto simp: core_def)
qed

lemma pushEOF_start:
  assumes "xd_stk d = StkStart n # s" "xd_Strict d" "xd_nextToken d = None" and "pushEOF d = Some d1"
  shows "above (dropWhile is_ns s) [n] (d1\<lparr>xd_unmarshalDepth := k\<rparr>)"
proof -
  let ?s = "StkStart n # takeWhile is_ns s"
  have "list_all is_ns (takeWhile is_ns s)" by (auto simp: list_all_iff dest: set_takeWhileD)
  from names_ns [OF this] have "settled ?s" "names ?s = [n]" by (simp_all add: settled_def is_start_def names_simps)
  moreover have "d1 = d\<lparr>xd_stk := ?s @ StkEOF # dropWhile is_ns s\<rparr>" using assms(1,4) by (simp add: pushEOF_def is_start_def)
  ultimately show ?thesis using assms(2,3) unfolding above_def by (intro conjI exI [of _ ?s]) simp_all
qed


lemma isName_colon: "isName_rest (CHR '':'' # s) = isName_rest s"
proof -
  obtain tab where tab: "first_chars = (58, 58, 1) # tab" by (simp only: first_chars_def)
  have "unicode_Is first_chars 58" unfolding tab by simp
  then show ?thesis by (subst isName_rest.simps) (simp add: decodeRune_def Let_def)
qed

definition prop_doc :: gostring where
  "prop_doc = ''<d:p xmlns:d='D'><b/><!--x-->'</d:p>''"

definition prop_name :: xml_name where
  "prop_name = \<lparr>Space = ''D'', Local = ''p''\<rparr>"


end
