(* ===== verification/RedisStore.thy ===== *)
theory RedisStore
  imports MemoCache
begin

text \<open>
  \<open>pkg/cache/redis.go\<close>: the other provider of the interface \<open>Driver\<close>. The Redis server and its
  client are third-party code: a connection (\<open>Do\<close>) is a parameter, and the locale \<open>redis_server\<close>
  holds the documented effects of the commands. So is the encoding of values (\<open>encoding/gob\<close>).
  A value \<open>interface{}\<close> is an option, with \<open>None\<close> for nil.
\<close>

section \<open>Connections\<close>

datatype redis_reply = NilReply | StatusReply gostring | IntReply int | BulkReply gostring | ArrayReply "gostring option list"

type_synonym redis_error = gostring

type_synonym 's redis_do = "unix_time \<Rightarrow> gostring \<Rightarrow> gostring list \<Rightarrow> 's \<Rightarrow> (redis_error + redis_reply) \<times> 's"

text \<open>
  A store: the error of a connection from the pool, the command call, the encoding, and the order
  in which the entries of a new map are ranged over.
\<close>

record ('v, 's) redis_env =
  conn_Err :: "'s \<Rightarrow> redis_error option"
  conn_Do :: "'s redis_do"
  gob_Encode :: "'v option \<Rightarrow> redis_error + gostring"
  gob_Decode :: "gostring \<Rightarrow> redis_error + 'v option"
  range_order :: "(gostring \<times> gostring) list \<Rightarrow> (gostring \<times> gostring) list"

text \<open>\<open>redis.Bytes\<close> and \<open>redis.ByteSlices\<close> of the client.\<close>

definition reply_Bytes :: "redis_error + redis_reply \<Rightarrow> gostring option" where
  "reply_Bytes r = (case r of Inr (BulkReply b) \<Rightarrow> Some b | Inr (StatusReply b) \<Rightarrow> Some b | _ \<Rightarrow> None)"

definition reply_ByteSlices :: "redis_error + redis_reply \<Rightarrow> gostring option list option" where
  "reply_ByteSlices r = (case r of Inr (ArrayReply bs) \<Rightarrow> Some bs | _ \<Rightarrow> None)"

definition reply_error :: "(redis_error + redis_reply) \<times> 's \<Rightarrow> redis_error option \<times> 's" where
  "reply_error r = (case fst r of Inl e \<Rightarrow> Some e | Inr _ \<Rightarrow> None, snd r)"

section \<open>The store\<close>

definition redis_Set ::
  "('v, 's) redis_env \<Rightarrow> unix_time \<Rightarrow> gostring \<Rightarrow> 'v option \<Rightarrow> int \<Rightarrow> 's \<Rightarrow> redis_error option \<times> 's" where
  "redis_Set E now key value ttl s =
     (case conn_Err E s of
        Some e \<Rightarrow> (Some e, s)
      | None \<Rightarrow>
          (case gob_Encode E value of
             Inl e \<Rightarrow> (Some e, s)
           | Inr serialized \<Rightarrow>
               reply_error
                 (if ttl > 0 then conn_Do E now ''SETEX'' [key, formatInt ttl, serialized] s
                  else conn_Do E now ''SER'' [key, serialized] s)))"

definition redis_Get :: "('v, 's) redis_env \<Rightarrow> unix_time \<Rightarrow> gostring \<Rightarrow> 's \<Rightarrow> ('v option \<times> bool) \<times> 's" where
  "redis_Get E now key s =
     (if conn_Err E s \<noteq> None then ((None, False), s)
      else
        (case conn_Do E now ''GET'' [key] s of
           (r, s1) \<Rightarrow>
             (case reply_Bytes r of
                None \<Rightarrow> ((None, False), s1)
              | Some v \<Rightarrow>
                  (case gob_Decode E v of Inl _ \<Rightarrow> ((None, False), s1) | Inr x \<Rightarrow> ((x, True), s1)))))"

fun encode_values ::
  "('v, 's) redis_env \<Rightarrow> (gostring \<times> 'v option) list \<Rightarrow> gostring \<Rightarrow> redis_error + (gostring \<times> gostring) list" where
  "encode_values E [] pfx = Inr []"
| "encode_values E ((k, v) # vs) pfx =
     (case gob_Encode E v of
        Inl e \<Rightarrow> Inl e
      | Inr b \<Rightarrow>
          (case encode_values E vs pfx of Inl e \<Rightarrow> Inl e | Inr kvs \<Rightarrow> Inr ((pfx @ k, b) # kvs)))"

definition add_flat :: "(gostring \<times> gostring) list \<Rightarrow> gostring list" where
  "add_flat kvs = concat (map (\<lambda>(k, v). [k, v]) kvs)"

definition redis_Sets ::
  "('v, 's) redis_env \<Rightarrow> unix_time \<Rightarrow> (gostring \<times> 'v option) list \<Rightarrow> gostring \<Rightarrow> 's \<Rightarrow> redis_error option \<times> 's" where
  "redis_Sets E now vs pfx s =
     (case conn_Err E s of
        Some e \<Rightarrow> (Some e, s)
      | None \<Rightarrow>
          (case encode_values E vs pfx of
             Inl e \<Rightarrow> (Some e, s)
           | Inr kvs \<Rightarrow> reply_error (conn_Do E now ''MSET'' (add_flat (range_order E kvs)) s)))"

text \<open>The loop over the answers: a nil answer does not decode, and a nil value counts as missed.\<close>

fun decode_answers ::
  "('v, 's) redis_env \<Rightarrow> (gostring \<times> gostring option) list \<Rightarrow> (gostring \<rightharpoonup> 'v) \<times> gostring list \<Rightarrow>
   (gostring \<rightharpoonup> 'v) \<times> gostring list" where
  "decode_answers E [] acc = acc"
| "decode_answers E ((k, a) # as) (res, missed) =
     (case (case a of None \<Rightarrow> Inl ''EOF'' | Some b \<Rightarrow> gob_Decode E b) of
        Inr (Some v) \<Rightarrow> decode_answers E as (res(k \<mapsto> v), missed)
      | _ \<Rightarrow> decode_answers E as (res, missed @ [k]))"

text \<open>
  More answers than keys would index out of range, which is a panic (\<open>None\<close>); a nil map has no
  entries.
\<close>

definition redis_Gets ::
  "('v, 's) redis_env \<Rightarrow> unix_time \<Rightarrow> gostring list \<Rightarrow> gostring \<Rightarrow> 's \<Rightarrow>
   ((gostring \<rightharpoonup> 'v) \<times> gostring list) option \<times> 's" where
  "redis_Gets E now keys pfx s =
     (if conn_Err E s \<noteq> None then (Some (Map.empty, keys), s)
      else
        (case conn_Do E now ''MGET'' (map (\<lambda>k. pfx @ k) keys) s of
           (r, s1) \<Rightarrow>
             (case reply_ByteSlices r of
                None \<Rightarrow> (Some (Map.empty, keys), s1)
              | Some as \<Rightarrow>
                  (if length keys < length as then None else Some (decode_answers E (zip keys as) (Map.empty, [])), s1))))"

text \<open>The prefix is written into the caller's slice, the third component.\<close>

definition redis_Delete ::
  "('v, 's) redis_env \<Rightarrow> unix_time \<Rightarrow> gostring list \<Rightarrow> gostring \<Rightarrow> 's \<Rightarrow> (redis_error option \<times> 's) \<times> gostring list" where
  "redis_Delete E now keys pfx s =
     (case conn_Err E s of
        Some e \<Rightarrow> ((Some e, s), keys)
      | None \<Rightarrow>
          (let keys1 = map (\<lambda>k. pfx @ k) keys in (reply_error (conn_Do E now ''DEL'' keys1 s), keys1)))"

definition redis_DeleteAll :: "('v, 's) redis_env \<Rightarrow> unix_time \<Rightarrow> 's \<Rightarrow> redis_error option \<times> 's" where
  "redis_DeleteAll E now s =
     (case conn_Err E s of Some e \<Rightarrow> (Some e, s) | None \<Rightarrow> reply_error (conn_Do E now ''FLUSHDB'' [] s))"

section \<open>What the code relies on of the server\<close>

text \<open>
  \<open>val t k s\<close> is what is stored under a key at a time, and \<open>commands\<close> the names the server knows;
  any other command is answered with an error and changes nothing.
\<close>

locale redis_server =
  fixes Do :: "'s redis_do"
    and val :: "unix_time \<Rightarrow> gostring \<Rightarrow> 's \<Rightarrow> gostring option"
    and commands :: "gostring set"
  assumes get: "Do now ''GET'' [k] s = (Inr (case val now k s of None \<Rightarrow> NilReply | Some b \<Rightarrow> BulkReply b), s)"
    and mget: "ks \<noteq> [] \<Longrightarrow> Do now ''MGET'' ks s = (Inr (ArrayReply (map (\<lambda>k. val now k s) ks)), s)"
    and setex: "0 < ttl \<Longrightarrow> ttl < 2 ^ 31 \<Longrightarrow> \<exists>s'. Do now ''SETEX'' [k, formatInt ttl, b] s = (Inr (StatusReply ''OK''), s') \<and>
      (\<forall>t k'. now \<le> t \<longrightarrow> val t k' s' = (if k' = k then if t < now + ttl then Some b else None else val t k' s))"
    and mset: "kvs \<noteq> [] \<Longrightarrow> distinct (map fst kvs) \<Longrightarrow>
      \<exists>s'. Do now ''MSET'' (add_flat kvs) s = (Inr (StatusReply ''OK''), s') \<and>
      (\<forall>t k. now \<le> t \<longrightarrow> val t k s' = (case map_of kvs k of None \<Rightarrow> val t k s | Some b \<Rightarrow> Some b))"
    and del: "ks \<noteq> [] \<Longrightarrow> \<exists>i s'. Do now ''DEL'' ks s = (Inr (IntReply i), s') \<and>
      (\<forall>t k. now \<le> t \<longrightarrow> val t k s' = (if k \<in> set ks then None else val t k s))"
    and unknown: "c \<notin> commands \<Longrightarrow> \<exists>e. Do now c args s = (Inl e, s)"
begin

lemma set_then_get:
  assumes "conn_Do E = Do" and "\<forall>s. conn_Err E s = None" and "gob_Encode E v = Inr b" and "gob_Decode E b = Inr v"
    and "0 < ttl" "ttl < 2 ^ 31" and "now \<le> t"
  shows "\<exists>s'. redis_Set E now k v ttl s = (None, s') \<and>
    redis_Get E t k s' = (if t < now + ttl then (v, True) else (None, False), s')"
proof -
  obtain s' where s': "Do now ''SETEX'' [k, formatInt ttl, b] s = (Inr (StatusReply ''OK''), s')"
    "val t k s' = (if t < now + ttl then Some b else None)"
    using setex [OF assms(5,6), of now k b s] assms(7) by auto
  have "redis_Set E now k v ttl s = (None, s')" using assms s' by (simp add: redis_Set_def reply_error_def)
  moreover have "redis_Get E t k s' = (if t < now + ttl then (v, True) else (None, False), s')"
    using assms s' by (simp add: redis_Get_def get reply_Bytes_def)
  ultimately show ?thesis by blast
qed

lemma unknown_set:
  assumes "conn_Do E = Do" and "''SER'' \<notin> commands" and "ttl \<le> 0"
  shows "\<exists>e. redis_Set E now k v ttl s = (Some e, s)"
proof (cases "conn_Err E s")
  case None
  show ?thesis
  proof (cases "gob_Encode E v")
    case (Inr b)
    obtain e where "Do now ''SER'' [k, b] s = (Inl e, s)" using unknown [OF assms(2)] by blast
    then show ?thesis using None Inr assms by (simp add: redis_Set_def reply_error_def)
  qed (use None in \<open>simp add: redis_Set_def\<close>)
qed (simp add: redis_Set_def)

lemma delete_then_get:
  assumes "conn_Do E = Do" and "\<forall>s. conn_Err E s = None" and "now \<le> t" and "k \<in> set ks"
  shows "fst (redis_Get E t (p @ k) (snd (fst (redis_Delete E now ks p s)))) = (None, False)"
proof -
  let ?ks = "map (\<lambda>k. p @ k) ks"
  have "?ks \<noteq> []" using assms(4) by auto
  from del [OF this, of now s] obtain i s' where
    d: "Do now ''DEL'' ?ks s = (Inr (IntReply i), s')" "\<forall>t k. now \<le> t \<longrightarrow> val t k s' = (if k \<in> set ?ks then None else val t k s)"
    by blast
  then have "val t (p @ k) s' = None" using assms(3,4) by auto
  then show ?thesis using assms(1,2) d(1)
    by (simp add: redis_Delete_def redis_Get_def get reply_Bytes_def reply_error_def Let_def)
qed

end

section \<open>A server in memory\<close>

type_synonym kv = "gostring \<rightharpoonup> gostring \<times> unix_time option"

definition kv_val :: "unix_time \<Rightarrow> gostring \<Rightarrow> kv \<Rightarrow> gostring option" where
  "kv_val now k s =
     (case s k of
        None \<Rightarrow> None
      | Some (b, None) \<Rightarrow> Some b
      | Some (b, Some e) \<Rightarrow> (if now < e then Some b else None))"

fun kv_pairs :: "gostring list \<Rightarrow> (gostring \<times> gostring) list" where
  "kv_pairs (k # v # r) = (k, v) # kv_pairs r"
| "kv_pairs _ = []"

definition kv_commands :: "gostring set" where
  "kv_commands = {''GET'', ''MGET'', ''SETEX'', ''MSET'', ''DEL''}"

definition kv_Do :: "kv redis_do" where
  "kv_Do now c args s =
     (if c = ''GET'' then
        (Inr (case kv_val now (hd args) s of None \<Rightarrow> NilReply | Some b \<Rightarrow> BulkReply b), s)
      else if c = ''MGET'' then (Inr (ArrayReply (map (\<lambda>k. kv_val now k s) args)), s)
      else if c = ''SETEX'' then
        (case parseInt (args ! 1) of
           None \<Rightarrow> (Inl ''ERR value is not an integer or out of range'', s)
         | Some ttl \<Rightarrow> (Inr (StatusReply ''OK''), s(hd args \<mapsto> (args ! 2, Some (now + ttl)))))
      else if c = ''MSET'' then
        (Inr (StatusReply ''OK''), s ++ (\<lambda>k. map_option (\<lambda>b. (b, None)) (map_of (kv_pairs args) k)))
      else if c = ''DEL'' then
        (Inr (IntReply (int (card (set args \<inter> dom s)))), \<lambda>k. if k \<in> set args then None else s k)
      else (Inl ''ERR unknown command'', s))"

lemma kv_pairs_flat: "kv_pairs (add_flat kvs) = kvs"
  by (induction kvs) (auto simp: add_flat_def)

interpretation kv: redis_server kv_Do kv_val kv_commands
proof unfold_locales
  fix ttl now :: int and k b :: gostring and s :: kv
  assume ttl: "0 < ttl" "ttl < 2 ^ 31"
  then have "parseInt (formatInt ttl) = Some ttl" by (intro parseInt_formatInt) simp_all
  then show "\<exists>s'. kv_Do now ''SETEX'' [k, formatInt ttl, b] s = (Inr (StatusReply ''OK''), s') \<and>
      (\<forall>t k'. now \<le> t \<longrightarrow> kv_val t k' s' = (if k' = k then if t < now + ttl then Some b else None else kv_val t k' s))"
    by (simp add: kv_Do_def kv_val_def)
next
  fix kvs :: "(gostring \<times> gostring) list" and now :: int and s :: kv
  show "\<exists>s'. kv_Do now ''MSET'' (add_flat kvs) s = (Inr (StatusReply ''OK''), s') \<and>
      (\<forall>t k. now \<le> t \<longrightarrow> kv_val t k s' = (case map_of kvs k of None \<Rightarrow> kv_val t k s | Some b \<Rightarrow> Some b))"
    by (simp add: kv_Do_def kv_pairs_flat) (simp add: kv_val_def map_add_def split: option.split)
next
  fix ks :: "gostring list" and now :: int and s :: kv
  show "\<exists>i s'. kv_Do now ''DEL'' ks s = (Inr (IntReply i), s') \<and>
      (\<forall>t k. now \<le> t \<longrightarrow> kv_val t k s' = (if k \<in> set ks then None else kv_val t k s))"
    by (simp add: kv_Do_def) (simp add: kv_val_def)
next
  fix c :: gostring and now :: int and args :: "gostring list" and s :: kv
  assume "c \<notin> kv_commands"
  then have "c \<noteq> ''GET''" "c \<noteq> ''MGET''" "c \<noteq> ''SETEX''" "c \<noteq> ''MSET''" "c \<noteq> ''DEL''"
    unfolding kv_commands_def by blast+
  then show "\<exists>e. kv_Do now c args s = (Inl e, s)" by (simp add: kv_Do_def)
qed (simp_all add: kv_Do_def)

section \<open>Batches\<close>

lemma encode_values_all:
  assumes "\<And>v. gob_Encode E (Some v) = Inr (f v)"
  shows "encode_values E (map (\<lambda>(k, v). (k, Some v)) vs) p = Inr (map (\<lambda>(k, v). (p @ k, f v)) vs)"
  by (induction vs) (auto simp: assms)

lemma decode_answers_all:
  assumes "\<And>v. gob_Decode E (f v) = Inr (Some v)"
  shows "decode_answers E (map (\<lambda>(k, v). (k, Some (f v))) vs) (m, missed) = (m ++ map_of (rev vs), missed)"
  by (induction vs arbitrary: m) (auto simp: assms map_add_def fun_eq_iff split: option.split)

lemma map_of_same_entries:
  "mset xs = mset ys \<Longrightarrow> distinct (map fst ys) \<Longrightarrow> distinct (map fst xs) \<and> map_of xs = map_of ys"
  by (metis map_of_inject_set mset_eq_imp_distinct_iff mset_eq_setD mset_map)

lemma map_of_encoded:
  "distinct (map fst vs) \<Longrightarrow> (k, v) \<in> set vs \<Longrightarrow> map_of (map (\<lambda>(k, v). (p @ k, f v)) vs) (p @ k) = Some (f v)"
  by (induction vs) force+

section \<open>Properties\<close>

text \<open>
  C8. On Redis a value without a time limit is never cached: \<open>Set\<close> with a time to live of zero or
  less sends a command that no server knows, so it answers an error, and stores nothing.
\<close>

theorem redis_Set_without_limit_fails:
  assumes "redis_server (conn_Do E) val commands" and "''SER'' \<notin> commands" and "ttl \<le> 0"
  shows "\<exists>e. redis_Set E now k v ttl s = (Some e, s)"
  using redis_server.unknown_set [OF assms(1) refl assms(2,3)] .

definition kv_env :: "(gostring, kv) redis_env" where
  "kv_env = \<lparr>conn_Err = (\<lambda>s. None), conn_Do = kv_Do, gob_Encode = (\<lambda>v. case v of None \<Rightarrow> Inr [] | Some b \<Rightarrow> Inr (CHR ''i'' # b)),
     gob_Decode = (\<lambda>b. case b of [] \<Rightarrow> Inr None | _ # b \<Rightarrow> Inr (Some b)), range_order = rev\<rparr>"

theorem redis_Set_without_limit_fails_witness:
  "\<exists>e. redis_Set kv_env 5 ''policy_1'' (Some ''local'') (- 1) Map.empty = (Some e, Map.empty)"
  by (rule redis_Set_without_limit_fails [of _ kv_val kv_commands])
     (simp_all add: kv_env_def kv.redis_server_axioms, simp add: kv_commands_def)

text \<open>
  What was put into Redis in one batch is found again in one batch: every key with its value, no
  key missing, whatever the server held and however late it is read.
\<close>

theorem redis_batch_round_trip:
  assumes "redis_server (conn_Do E) val commands" and "\<forall>s. conn_Err E s = None"
    and "\<forall>v. gob_Encode E (Some v) = Inr (f v) \<and> gob_Decode E (f v) = Inr (Some v)"
    and "\<forall>kvs. mset (range_order E kvs) = mset kvs"
    and "distinct (map fst vs)" and "vs \<noteq> []" and "now \<le> t"
  shows "\<exists>s'. redis_Sets E now (map (\<lambda>(k, v). (k, Some v)) vs) p s = (None, s') \<and>
    redis_Gets E t (map fst vs) p s' = (Some (map_of vs, []), s')"
proof -
  let ?kvs = "map (\<lambda>(k, v). (p @ k, f v)) vs"
  have "distinct (map fst ?kvs)" using assms(5) by (simp add: distinct_map comp_def case_prod_beta inj_on_def)
  with map_of_same_entries assms(4) have o: "distinct (map fst (range_order E ?kvs))" "map_of (range_order E ?kvs) = map_of ?kvs"
    by blast+
  have ne: "range_order E ?kvs \<noteq> []" using assms(4,6) by (metis mset_zero_iff map_is_Nil_conv)
  from redis_server.mset [OF assms(1) ne o(1), of now s] obtain s' where
    s': "conn_Do E now ''MSET'' (add_flat (range_order E ?kvs)) s = (Inr (StatusReply ''OK''), s')"
    "\<forall>t k. now \<le> t \<longrightarrow> val t k s' = (case map_of (range_order E ?kvs) k of None \<Rightarrow> val t k s | Some b \<Rightarrow> Some b)"
    by blast
  have val: "val t (p @ k) s' = Some (f v)" if "(k, v) \<in> set vs" for k v
    using s'(2) assms(7) map_of_encoded [OF assms(5) that, of p f] by (simp add: o(2))
  have sets: "redis_Sets E now (map (\<lambda>(k, v). (k, Some v)) vs) p s = (None, s')"
    using encode_values_all [of E f vs p] assms(2,3) s'(1) by (simp add: redis_Sets_def reply_error_def)
  have "conn_Do E t ''MGET'' (map (\<lambda>k. p @ k) (map fst vs)) s' =
      (Inr (ArrayReply (map (\<lambda>k. val t k s') (map (\<lambda>k. p @ k) (map fst vs)))), s')"
    by (rule redis_server.mget [OF assms(1)]) (use assms(6) in simp)
  also have "map (\<lambda>k. val t k s') (map (\<lambda>k. p @ k) (map fst vs)) = map (\<lambda>(k, v). Some (f v)) vs" using val by auto
  finally have "redis_Gets E t (map fst vs) p s' =
      (Some (decode_answers E (zip (map fst vs) (map (\<lambda>(k, v). Some (f v)) vs)) (Map.empty, [])), s')"
    using assms(2) by (simp add: redis_Gets_def reply_ByteSlices_def)
  moreover have "zip (map fst vs) (map (\<lambda>(k, v). Some (f v)) vs) = map (\<lambda>(k, v). (k, Some (f v))) vs"
    by (induction vs) auto
  moreover have "map_of (rev vs) = map_of vs" using map_of_same_entries [of "rev vs" vs] assms(5) by simp
  ultimately show ?thesis using sets decode_answers_all [of E f vs Map.empty "[]"] assms(3) by simp
qed

theorem redis_batch_round_trip_witness:
  "\<exists>s'. redis_Sets kv_env 3 [(''siteName'', Some ''A''), (''siteURL'', Some ''B'')] ''setting_'' Map.empty = (None, s') \<and>
    redis_Gets kv_env 9 [''siteName'', ''siteURL''] ''setting_'' s' =
      (Some (map_of [(''siteName'', ''A''), (''siteURL'', ''B'')], []), s')"
  using redis_batch_round_trip [of kv_env kv_val kv_commands "\<lambda>b. CHR ''i'' # b" "[(''siteName'', ''A''), (''siteURL'', ''B'')]"
    3 9 "''setting_''" Map.empty]
  by (simp add: kv_env_def kv.redis_server_axioms)

end
