(* ===== verification/RemoteClient.thy ===== *)
theory RemoteClient
  imports ChunkUpload HttpClient Cluster FsCore
begin

text \<open>
  \<open>pkg/filesystem/driver/remote/client.go\<close>: the client of a storage node. Its HTTP client is a
  value of the interface \<open>request.Client\<close>, a parameter: what a request answers, and how many bytes of
  its body were read, may depend on how many requests were made before. The encoding of a session,
  the decoding of answers, new keys and settings are parameters too.
\<close>

section \<open>Requests to a node\<close>

record ('d) remote_env =
  re_send :: "nat \<Rightarrow> gostring \<Rightarrow> gostring \<Rightarrow> gostring \<Rightarrow> client_option list \<Rightarrow> (gostring + http_response) \<times> nat"
  re_unmarshal :: "gostring \<Rightarrow> gostring + 'd site_response"
  re_marshal :: "upload_session \<Rightarrow> int \<Rightarrow> bool \<Rightarrow> gostring + gostring"
  re_uuid :: gostring
  re_setting :: "gostring \<Rightarrow> int \<Rightarrow> int"
  re_buffer :: bool

definition basePath :: gostring where "basePath = ''/api/v3/slave/''"

definition OverwriteHeader :: gostring where "OverwriteHeader = CrHeaderPrefix @ ''Overwrite''"

definition go_bool :: "bool \<Rightarrow> gostring" where "go_bool b = (if b then ''true'' else ''false'')"

definition node_answer :: "'d remote_env \<Rightarrow> gostring + http_response \<Rightarrow> gostring + 'd site_response" where
  "node_answer E resp = DecodeResponse (re_unmarshal E) (CheckHTTPResponse 200 resp)"

text \<open>\<open>NewClient\<close>: the options of the client; \<open>resolve\<close> is the URL of the base path on the server.\<close>

definition remote_NewClient ::
  "(gostring \<Rightarrow> gostring option) \<Rightarrow> (gostring \<Rightarrow> gostring option) \<Rightarrow> (gostring \<Rightarrow> gostring \<Rightarrow> gostring) \<Rightarrow>
   (gostring \<Rightarrow> int \<Rightarrow> int) \<Rightarrow> policy \<Rightarrow> client_options option" where
  "remote_NewClient parse resolve mac setting pol =
     (case resolve (p_Server pol) of
        None \<Rightarrow> None
      | Some endpoint \<Rightarrow>
          Some (NewClient
            [WithEndpoint parse endpoint, WithCredential (HMACAuth mac (p_SecretKey pol)) (setting ''slave_api_timeout'' 60),
             WithMasterMeta, WithSlaveMeta (p_AccessKey pol)]))"

definition remote_CreateUploadSession ::
  "'d remote_env \<Rightarrow> nat \<Rightarrow> upload_session \<Rightarrow> int \<Rightarrow> bool \<Rightarrow> cluster_error option" where
  "remote_CreateUploadSession E k session ttl overwrite =
     (case re_marshal E session ttl overwrite of
        Inl _ \<Rightarrow> Some ClusterOther
      | Inr body \<Rightarrow>
          (case checked_response (node_answer E (fst (re_send E k ''PUT'' ''upload'' body []))) of
             Inl e \<Rightarrow> Some e
           | Inr _ \<Rightarrow> None))"

text \<open>An answer that cannot be read counts as success here: the branch returns \<open>nil\<close>.\<close>

definition remote_DeleteUploadSession :: "'d remote_env \<Rightarrow> nat \<Rightarrow> gostring \<Rightarrow> cluster_error option" where
  "remote_DeleteUploadSession E k sessionID =
     (case node_answer E (fst (re_send E k ''DELETE'' (''upload/'' @ sessionID) [] [])) of
        Inl _ \<Rightarrow> None
      | Inr r \<Rightarrow> (if sr_Code r \<noteq> 0 then Some (ClusterApp (sr_Code r)) else None))"

text \<open>
  The address for an upload by a client. \<open>url\<close> parses and prints the server's URL with the path
  joined to it, as the request of \<open>http.NewRequest\<close>; signing sets its header \<open>Authorization\<close>.
\<close>

definition remote_GetUploadURL ::
  "(gostring \<Rightarrow> gostring \<Rightarrow> (request \<times> gostring) option) \<Rightarrow> (gostring \<Rightarrow> gostring \<Rightarrow> gostring \<Rightarrow> gostring) \<Rightarrow>
   (gostring \<Rightarrow> gostring \<Rightarrow> gostring) \<Rightarrow> unix_time \<Rightarrow> policy \<Rightarrow> int \<Rightarrow> gostring \<Rightarrow> (gostring \<times> gostring) option" where
  "remote_GetUploadURL url marshal mac now pol ttl sessionID =
     (case url (p_Server pol) (basePath @ ''upload/'' @ sessionID) of
        None \<Rightarrow> None
      | Some (req, printed) \<Rightarrow>
          (let signed = SignRequest marshal (HMACAuth mac (p_SecretKey pol)) now req ttl
           in case map_of (Header signed) ''Authorization'' of
                Some (v # _) \<Rightarrow> Some (printed, v)
              | _ \<Rightarrow> None))"

text \<open>The error of a chunk, and how much of it was read. It is never \<open>context.Canceled\<close> itself.\<close>

definition uploadChunk ::
  "'d remote_env \<Rightarrow> gostring \<Rightarrow> bool \<Rightarrow> int \<Rightarrow> int \<Rightarrow> nat \<Rightarrow> gostring \<Rightarrow> perr option \<times> nat" where
  "uploadChunk E sessionID overwrite index len k chunk =
     (case re_send E k ''POST'' (''upload/'' @ sessionID @ ''?chunk='' @ formatInt index) chunk
         [WithTimeout 0, WithContentLength len, WithHeader [(OverwriteHeader, [go_bool overwrite])]] of
        (resp, read) \<Rightarrow>
          (case node_answer E resp of
             Inl _ \<Rightarrow> (Some (ProcErr 0), read)
           | Inr r \<Rightarrow> (if sr_Code r \<noteq> 0 then Some (ProcErr (nat (sr_Code r))) else None, read)))"

section \<open>Upload\<close>

lemma Process_index:
  "Process proc seekF tseekF n c = (r, offers, c') \<Longrightarrow> currentIndex c' = currentIndex c \<and> chunkNum c' = chunkNum c"
proof (induction proc seekF tseekF n c arbitrary: r offers c' rule: Process.induct)
  case (1 proc seekF tseekF n c)
  note run = "1.prems" [unfolded Process.simps [of proc seekF tseekF n c] Let_def]
  obtain err rd where p: "proc n (offered (openTemp c)) = (err, rd)" by fastforce
  let ?c2 = "consume (teed c) (min rd (length (offered (openTemp c)))) (openTemp c)"
  obtain ok bo where b: "backoff_Next (backoff ?c2) = (ok, bo)" by fastforce
  note IH = "1.IH" [OF refl _ p [symmetric] refl refl refl b [symmetric]]
  show ?case
    using run IH unfolding p b prod.case
    by (auto simp: closeTemp_def b split: if_splits option.splits prod.splits)
qed

text \<open>
  The loop over the chunks: the error and the index it came at, what was posted for which index, and
  how many requests were made.
\<close>

function upload_loop ::
  "'d remote_env \<Rightarrow> gostring \<Rightarrow> bool \<Rightarrow> (int \<Rightarrow> bool) \<Rightarrow> bool \<Rightarrow> nat \<Rightarrow> group \<Rightarrow>
   (perr \<times> int) option \<times> (int \<times> gostring) list \<times> nat" where
  "upload_loop E sid overwrite seekF tseekF k c =
     (let (go_on, c1) = Next c in
      if \<not> go_on then (None, [], k)
      else
        (let (err, offers, c2) = Process (uploadChunk E sid overwrite (Index c1) (Length c1)) seekF tseekF k c1;
             posts = map (\<lambda>b. (Index c1, b)) offers; k2 = k + length offers
         in case err of
              Some e \<Rightarrow> (Some (e, Index c2), posts, k2)
            | None \<Rightarrow>
                (let (r, posts2, k3) = upload_loop E sid overwrite seekF tseekF k2 c2 in (r, posts @ posts2, k3))))"
  by pat_completeness auto

termination
  by (relation "measure (\<lambda>(E, sid, ow, sf, tf, k, c). nat (sint (chunkNum c) - currentIndex c))")
    (auto simp: Next_def Let_def dest!: Process_index [OF sym])

declare upload_loop.simps [simp del]

datatype remote_error = SessionFailed cluster_error | ChunkFailed int perr

datatype node_request = PutSession upload_session | PostChunk gostring int gostring | DropSession gostring

text \<open>The error, and the requests that were made.\<close>

definition client_session :: "'d remote_env \<Rightarrow> file_stream \<Rightarrow> policy \<Rightarrow> upload_session" where
  "client_session E file pol =
     \<lparr>us_Key = re_uuid E, us_UID = 0, us_VirtualPath = fst_VirtualPath file, us_Name = fst_Name file,
      us_Size = fst_Size file, us_SavePath = fst_SavePath file, us_LastModified = fst_LastModified file,
      us_Policy = pol, us_Callback = [], us_CallbackSecret = []\<rparr>"

definition remote_Upload ::
  "'d remote_env \<Rightarrow> (int \<Rightarrow> bool) \<Rightarrow> bool \<Rightarrow> policy \<Rightarrow> bool \<Rightarrow> file_stream \<Rightarrow>
   remote_error option \<times> node_request list" where
  "remote_Upload E seekF tseekF pol can_seek file =
     (let ttl = re_setting E ''upload_session_timeout'' 86400;
          session = client_session E file pol;
          overwrite = has_mode (fst_Mode file) Overwrite
      in case remote_CreateUploadSession E 0 session ttl overwrite of
           Some e \<Rightarrow> (Some (SessionFailed e), [PutSession session])
         | None \<Rightarrow>
             (let chunks = NewGroup \<lparr>content = fst_File file, pos = 0, seekable = can_seek\<rparr> (fst_Size file) (p_ChunkSize pol)
                    \<lparr>Max = re_setting E ''chunk_retries'' 5, tried = 0\<rparr> (re_buffer E);
                  (err, posts, k) = upload_loop E (us_Key session) overwrite seekF tseekF 1 chunks;
                  sent = PutSession session # map (\<lambda>(i, b). PostChunk (us_Key session) i b) posts
              in case err of
                   None \<Rightarrow> (None, sent)
                 | Some (e, i) \<Rightarrow>
                     (let _ = remote_DeleteUploadSession E k (us_Key session)
                      in (Some (ChunkFailed i e), sent @ [DropSession (us_Key session)]))))"

section \<open>What a chunk leaves behind\<close>

text \<open>Where the source stands while a chunk is processed: at its start, or at its end when it is in the temporary file.\<close>

definition placed :: "group \<Rightarrow> bool" where
  "placed c \<longleftrightarrow> pos (src c) = nat (Start c) + (if bufferTemp c = None then 0 else length (chunk_bytes c))"

lemma consume_end:
  assumes "ready c" and "placed c"
  shows "pos (src (consume (teed c) (length (offered (openTemp c))) (openTemp c))) = nat (Start c) + length (chunk_bytes c)"
  using assms offered_ready [OF assms(1)] chunk_frame(2) [of "c\<lparr>bufferTemp := Some []\<rparr>" c]
  by (auto simp: consume_def placed_def ready_def TempAvailable_def openTemp_def teed_def split: if_splits option.splits)

lemma consume_temp:
  assumes "ready c" and "placed c" and "\<not> seekable (src c)" and u: "u \<le> length (offered (openTemp c))"
    and a: "TempAvailable (consume (teed c) u (openTemp c))"
  shows "pos (src (consume (teed c) u (openTemp c))) = nat (Start c) + length (chunk_bytes c)"
proof (cases "TempAvailable (openTemp c) \<or> bufferTemp c \<noteq> None")
  case True
  then show ?thesis using assms consume_end [OF assms(1,2)] offered_ready [OF assms(1)]
    by (auto simp: consume_def placed_def ready_def TempAvailable_def openTemp_def teed_def split: if_splits option.splits)
next
  case False
  then have b: "bufferTemp c = None" "\<not> TempAvailable (openTemp c)" by simp_all
  then have t: "teed c" using a by (auto simp: consume_def openTemp_def TempAvailable_def split: if_splits)
  have "bufferTemp (consume (teed c) u (openTemp c)) = Some (take u (chunk_bytes c))"
    using b t offered_ready [OF assms(1)] by (simp add: consume_def openTemp_def)
  then have "int (length (take u (chunk_bytes c))) = Length c" using a by (simp add: TempAvailable_def)
  moreover have "int (length (chunk_bytes c)) = Length c" using assms(1) by (simp add: ready_def)
  ultimately have "u = length (offered (openTemp c))" using u offered_ready [OF assms(1)] by simp
  then show ?thesis using consume_end [OF assms(1,2)] by simp
qed

text \<open>A chunk that was processed leaves the source at its end, if what is accepted was read.\<close>

lemma Process_done:
  assumes "\<forall>n b. fst (proc n b) = None \<longrightarrow> length b \<le> snd (proc n b)"
  shows "ready c \<Longrightarrow> placed c \<Longrightarrow> Process proc seekF tseekF n c = (None, offers, c') \<Longrightarrow>
    offers \<noteq> [] \<and> bufferTemp c' = None \<and> pos (src c') = nat (Start c) + length (chunk_bytes c) \<and>
    content (src c') = content (src c) \<and> seekable (src c') = seekable (src c) \<and>
    chunkSize c' = chunkSize c \<and> fileSize c' = fileSize c"
proof (induction "budget c" arbitrary: n c offers c' rule: less_induct)
  case less
  define c1 where "c1 = openTemp c"
  obtain err rd where p: "proc n (offered c1) = (err, rd)" by fastforce
  define u where "u = min rd (length (offered c1))"
  define c2 where "c2 = consume (teed c) u c1"
  obtain ok bo where b: "backoff_Next (backoff c2) = (ok, bo)" by fastforce
  have same: "seekable (src c2) = seekable (src c)" "backoff c2 = backoff c" "Start c2 = Start c" "chunk_bytes c2 = chunk_bytes c"
    "content (src c2) = content (src c)" "chunkSize c2 = chunkSize c" "fileSize c2 = fileSize c"
    by (simp_all add: c2_def c1_def)
  note eq = Process.simps [of proc seekF tseekF n c, folded c1_def, unfolded Let_def p prod.case,
      folded u_def, folded c2_def, unfolded b prod.case]
  show ?case
  proof (cases err)
    case None
    then have "u = length (offered c1)" using assms p by (metis fst_conv snd_conv min.absorb2 u_def)
    then have "pos (src c2) = nat (Start c) + length (chunk_bytes c)"
      using consume_end [OF less.prems(1,2)] by (simp add: c2_def c1_def)
    then show ?thesis using less.prems(3) None same by (auto simp: eq closeTemp_def split: if_splits)
  next
    case (Some e)
    have retry: "seekable (src d) = seekable (src c) \<and> content (src d) = content (src c) \<and> chunkSize d = chunkSize c \<and>
        fileSize d = fileSize c \<and> Start d = Start c \<and> chunk_bytes d = chunk_bytes c \<Longrightarrow> ready d \<Longrightarrow> placed d \<Longrightarrow>
      backoff d = bo \<Longrightarrow> ok \<Longrightarrow> Process proc seekF tseekF (Suc n) d = (None, offers2, c') \<Longrightarrow> ?thesis" 
      if "offers = offered c1 # offers2" for d offers2
      using less.hyps [of d "Suc n" offers2 c'] backoff_Next_budget [of "backoff c" bo] b same(2) that
      by (auto simp: budget_def)
    show ?thesis
    proof (cases "seekable (src c)")
      case True
      let ?d = "c2\<lparr>backoff := bo, src := (src c2)\<lparr>pos := nat (Start c)\<rparr>\<rparr>"
      have rd: "ready ?d" unfolding c2_def c1_def by (rule reseek_ready [OF less.prems(1) True])
      have d: "Start (c2\<lparr>backoff := bo\<rparr>) = Start c" "chunk_bytes ?d = chunk_bytes c" "Start ?d = Start c"
        using chunk_frame [of ?d c2] chunk_frame [of "c2\<lparr>backoff := bo\<rparr>" c2] same by simp_all
      have "bufferTemp ?d = None" using rd True same by (simp add: ready_def)
      then have "placed ?d" using d by (simp add: placed_def)
      then show ?thesis
        using less.prems(3) retry [OF _ _ rd] True Some d same
        by (auto simp: eq split: if_splits prod.splits)
    next
      case False
      have rd: "ready (c2\<lparr>backoff := bo\<rparr>)" "placed (c2\<lparr>backoff := bo\<rparr>)" if "TempAvailable c2"
      proof -
        show "ready (c2\<lparr>backoff := bo\<rparr>)" unfolding c2_def c1_def
          by (rule retry_ready [OF less.prems(1) _ False]) (use that in \<open>simp_all add: c1_def c2_def u_def\<close>)
        have f: "Start (c2\<lparr>backoff := bo\<rparr>) = Start c" "chunk_bytes (c2\<lparr>backoff := bo\<rparr>) = chunk_bytes c"
          using chunk_frame [of "c2\<lparr>backoff := bo\<rparr>" c2] same by simp_all
        have "pos (src c2) = nat (Start c) + length (chunk_bytes c)" unfolding c2_def c1_def
          by (rule consume_temp [OF less.prems(1,2) False]) (use that in \<open>simp_all add: c1_def c2_def u_def\<close>)
        moreover have "bufferTemp c2 \<noteq> None" using that by (cases "bufferTemp c2") (simp_all add: TempAvailable_def)
        ultimately show "placed (c2\<lparr>backoff := bo\<rparr>)" using f by (auto simp: placed_def)
      qed
      have "chunk_bytes (c2\<lparr>backoff := bo\<rparr>) = chunk_bytes c" "Start (c2\<lparr>backoff := bo\<rparr>) = Start c"
        using chunk_frame [of "c2\<lparr>backoff := bo\<rparr>" c2] same by simp_all
      then show ?thesis
        using less.prems(3) retry [OF _ _ rd] False Some same
        by (auto simp: eq split: if_splits prod.splits)
    qed
  qed
qed

section \<open>The whole file\<close>

text \<open>Between two chunks of a file: chunk \<open>i\<close> is the next one.\<close>

definition between :: "group \<Rightarrow> gostring \<Rightarrow> nat \<Rightarrow> group \<Rightarrow> bool" where
  "between g bytes i c \<longleftrightarrow>
     chunkSize c = chunkSize g \<and> fileSize c = fileSize g \<and> chunkNum c = chunkNum g \<and> content (src c) = bytes \<and>
     currentIndex c = int i - 1 \<and> bufferTemp c = None \<and>
     (i < unat (chunkNum g) \<longrightarrow> pos (src c) = i * unat (chunkSize g))"

lemma remdups_adj_run:
  assumes "xs \<noteq> []" and "set xs \<subseteq> {x}" and "ys \<noteq> [] \<Longrightarrow> hd ys \<noteq> x"
  shows "remdups_adj (xs @ ys) = x # remdups_adj ys"
proof -
  have r: "xs = replicate (length xs) x" using assms(2) by (induction xs) auto
  then have "last xs = x" "remdups_adj xs = [x]" using assms(1)
    by (metis last_replicate length_0_conv, metis remdups_adj_replicate length_0_conv)
  moreover have "dropWhile (\<lambda>y. y = x) ys = ys" using assms(3) by (cases ys) auto
  ultimately show ?thesis using remdups_adj_append'' [OF assms(1), of ys] by simp
qed

text \<open>The number of chunks, and a chunk.\<close>

definition file_chunk :: "group \<Rightarrow> gostring \<Rightarrow> nat \<Rightarrow> gostring" where
  "file_chunk g bytes i = take (unat (chunkSize g)) (drop (i * unat (chunkSize g)) bytes)"

lemma chunkNum_small:
  assumes "unat fs < 2 ^ 63"
  shows "sint (chunkNum (NewGroup s fs cs bo ub)) = int (unat (chunkNum (NewGroup s fs cs bo ub)))"
    and "unat (chunkNum (NewGroup s fs cs bo ub)) = chunk_count (unat fs) (unat (chunkSize (NewGroup s fs cs bo ub)))"
proof -
  let ?n = "chunkNum (NewGroup s fs cs bo ub)"
  show n: "unat ?n = chunk_count (unat fs) (unat (chunkSize (NewGroup s fs cs bo ub)))"
    by (simp only: unat_chunkNum [OF assms] unat_chunkSize)
  let ?K = "unat (chunkSize (NewGroup s fs cs bo ub))"
  have "chunk_count (unat fs) ?K \<le> unat fs \<or> unat fs = 0"
  proof (cases "unat fs = 0")
    case False
    then have "0 < ?K" by (simp add: unat_chunkSize eff_chunk_def)
    then have "(chunk_count (unat fs) ?K - 1) * 1 \<le> (chunk_count (unat fs) ?K - 1) * ?K" by (intro mult_le_mono2) simp
    then have "chunk_count (unat fs) ?K - 1 < unat fs"
      using chunk_count_bounds(1) [of "unat fs" ?K] False \<open>0 < ?K\<close> by linarith
    then show ?thesis by linarith
  qed simp
  moreover have "chunk_count 0 ?K = 1" by (simp add: chunk_count_def)
  ultimately have "unat ?n < 2 ^ 63" using n assms by auto
  then show "sint ?n = int (unat ?n)" by (rule sint_unat_small)
qed

lemma between_ready:
  fixes s :: source and fs cs :: u64 and bo ub
  defines "g \<equiv> NewGroup s fs cs bo ub"
  assumes small: "unat fs < 2 ^ 63" "unat cs < 2 ^ 63" and len: "length bytes = unat fs"
    and c: "between g bytes i c" and i: "i < unat (chunkNum g)" and n: "Next c = (go_on, c1)"
  shows "go_on" "ready c1" "placed c1" "Index c1 = int i" "chunk_bytes c1 = file_chunk g bytes i"
    "nat (Start c1) = i * unat (chunkSize g)" "length (file_chunk g bytes i) = min (unat (chunkSize g)) (unat fs - i * unat (chunkSize g))"
    "chunkSize c1 = chunkSize c" "fileSize c1 = fileSize c" "chunkNum c1 = chunkNum c" "content (src c1) = content (src c)"
    "currentIndex c1 = int i"
proof -
  let ?K = "unat (chunkSize g)"
  have N: "sint (chunkNum g) = int (unat (chunkNum g))" "unat (chunkNum g) = chunk_count (unat fs) ?K"
    unfolding g_def by (rule chunkNum_small [OF small(1)])+
  have K: "?K = eff_chunk (unat fs) (unat cs)" by (simp add: g_def unat_chunkSize)
  have lt: "int i < sint (chunkNum g)" using i by (simp only: N(1) of_nat_less_iff)
  have c1: "c1 = c\<lparr>currentIndex := int i, backoff := backoff_Reset (backoff c)\<rparr>" "go_on"
    using n c lt by (auto simp: Next_def Let_def between_def)
  show go_on by (rule c1(2))
  show f: "chunkSize c1 = chunkSize c" "fileSize c1 = fileSize c" "chunkNum c1 = chunkNum c" "content (src c1) = content (src c)"
    "currentIndex c1 = int i" by (simp_all add: c1)
  then show idx: "Index c1 = int i" by (simp add: Index_def)
  have b: "Start (at_chunk g i) = int (i * ?K)" "Length (at_chunk g i) = int (min ?K (unat fs - i * ?K))" "i * ?K \<le> unat fs"
  proof -
    have i': "i < chunk_count (unat fs) (eff_chunk (unat fs) (unat cs))" using i N(2) K by simp
    from chunk_bounds(1,2) [OF small i', of s bo ub] chunk_bounds(3) [OF small i']
    show "Start (at_chunk g i) = int (i * ?K)" "Length (at_chunk g i) = int (min ?K (unat fs - i * ?K))" "i * ?K \<le> unat fs"
      unfolding g_def [symmetric] K [symmetric] by simp_all
  qed
  have eqs: "Start c1 = Start (at_chunk g i)" "Length c1 = Length (at_chunk g i)"
    using f c by (simp_all add: Start_def Length_def Index_def at_chunk_def between_def)
  show st: "nat (Start c1) = i * ?K" by (simp only: eqs(1) b(1) nat_int)
  have "?K < 2 ^ 63" using small by (simp add: K eff_chunk_def)
  then have "nat (sint (chunkSize g)) = ?K" by (simp add: sint_unat_small)
  then show ch: "chunk_bytes c1 = file_chunk g bytes i"
    using f c st by (simp add: chunk_bytes_def file_chunk_def between_def)
  show l: "length (file_chunk g bytes i) = min ?K (unat fs - i * ?K)" by (simp add: file_chunk_def len min.commute)
  have "pos (src c1) = nat (Start c1)" "bufferTemp c1 = None" using c i st by (simp_all add: c1 between_def)
  moreover have "int (length (chunk_bytes c1)) = Length c1" by (simp only: ch l eqs(2) b(2))
  ultimately show "ready c1" "placed c1" by (simp_all add: ready_def placed_def)
qed

lemma upload_loop_posts:
  fixes s :: source and fs cs :: u64 and bo ub
  defines "g \<equiv> NewGroup s fs cs bo ub"
  assumes small: "unat fs < 2 ^ 63" "unat cs < 2 ^ 63" and len: "length bytes = unat fs"
    and all_read: "\<forall>i len k b. fst (uploadChunk E sid ow i len k b) = None \<longrightarrow> length b \<le> snd (uploadChunk E sid ow i len k b)"
  shows "between g bytes i c \<Longrightarrow> upload_loop E sid ow seekF tseekF k c = (None, posts, k') \<Longrightarrow>
    remdups_adj posts = map (\<lambda>j. (int j, file_chunk g bytes j)) [i..<unat (chunkNum g)]"
proof (induction "unat (chunkNum g) - i" arbitrary: i c k posts)
  case 0
  have N: "sint (chunkNum g) = int (unat (chunkNum g))" unfolding g_def by (rule chunkNum_small [OF small(1)])
  then have "\<not> int i < sint (chunkNum g)" using 0(1) by (simp only: N of_nat_less_iff)
  then have "\<not> fst (Next c)" using 0(2) by (simp add: Next_def Let_def between_def)
  then have "posts = []" using 0(3) by (auto simp: upload_loop.simps [of E sid ow seekF tseekF k c] split: prod.splits)
  then show ?case using 0(1) by simp
next
  case (Suc m)
  then have i: "i < unat (chunkNum g)" by simp
  obtain go_on c1 where n: "Next c = (go_on, c1)" by fastforce
  note r = between_ready [OF small len Suc.prems(1) [unfolded g_def] i [unfolded g_def] n, folded g_def]
  let ?proc = "uploadChunk E sid ow (Index c1) (Length c1)"
  obtain err offers c2 where p: "Process ?proc seekF tseekF k c1 = (err, offers, c2)" by (rule prod_cases3)
  obtain posts2 where e: "err = None" and l: "upload_loop E sid ow seekF tseekF (k + length offers) c2 = (None, posts2, k')"
    and posts: "posts = map (\<lambda>b. (Index c1, b)) offers @ posts2"
    using Suc.prems(2) r(1) by (auto simp: upload_loop.simps [of E sid ow seekF tseekF k c] n p Let_def split: option.splits prod.splits)
  have d: "offers \<noteq> []" "bufferTemp c2 = None" "pos (src c2) = nat (Start c1) + length (chunk_bytes c1)"
    "content (src c2) = content (src c1)" "chunkSize c2 = chunkSize c1" "fileSize c2 = fileSize c1"
    using Process_done [OF _ r(2,3) p [unfolded e]] all_read by simp_all
  have o: "set offers \<subseteq> {file_chunk g bytes i}" using Process_offers_budget [OF r(2) p] r(5) by simp
  have x: "currentIndex c2 = int i" "chunkNum c2 = chunkNum c" using Process_index [OF p] r(10,12) by simp_all
  have nx: "pos (src c2) = Suc i * unat (chunkSize g)" if "Suc i < unat (chunkNum g)"
  proof -
    let ?K = "unat (chunkSize g)"
    have "(unat (chunkNum g) - 1) * ?K \<le> unat fs"
    proof (cases "unat fs = 0")
      case False
      then have "0 < ?K" by (simp add: g_def unat_chunkSize eff_chunk_def)
      then show ?thesis using chunk_count_bounds(1) [of "unat fs" ?K] chunkNum_small(2) [OF small(1), of s cs bo ub] False
        by (simp add: g_def)
    qed (use chunkNum_small(2) [OF small(1), of s cs bo ub] that in \<open>simp add: g_def chunk_count_def\<close>)
    moreover have "Suc i * ?K \<le> (unat (chunkNum g) - 1) * ?K" using that by (intro mult_le_mono1) simp
    ultimately show ?thesis using d(3) r(5,6,7) by simp
  qed
  have "between g bytes (Suc i) c2" using Suc.prems(1) d x r(8,9,11) nx by (simp add: between_def)
  from Suc.hyps(1) [OF _ this l] Suc.hyps(2)
  have rest: "remdups_adj posts2 = map (\<lambda>j. (int j, file_chunk g bytes j)) [Suc i..<unat (chunkNum g)]" by simp
  have "hd posts2 \<noteq> (int i, file_chunk g bytes i)" if "posts2 \<noteq> []"
  proof -
    have "hd posts2 \<in> set (remdups_adj posts2)" using that by simp
    then show ?thesis unfolding rest by auto
  qed
  then have "remdups_adj posts = (int i, file_chunk g bytes i) # remdups_adj posts2"
    unfolding posts using d(1) o r(4) by (intro remdups_adj_run) auto
  then show ?case using rest i by (simp add: upt_rec [of i])
qed

lemma concat_file_chunks:
  assumes "unat fs < 2 ^ 63" and "length bytes = unat fs"
  shows "concat (map (file_chunk (NewGroup s fs cs bo ub) bytes) [0..<unat (chunkNum (NewGroup s fs cs bo ub))]) = bytes"
proof -
  let ?g = "NewGroup s fs cs bo ub"
  let ?K = "unat (chunkSize ?g)"
  have "file_chunk ?g bytes = (\<lambda>i. take ?K (drop (i * ?K) bytes))" by (simp add: fun_eq_iff file_chunk_def)
  then have "concat (map (file_chunk ?g bytes) [0..<unat (chunkNum ?g)]) = take (unat (chunkNum ?g) * ?K) bytes"
    by (simp add: concat_chunks)
  also have "unat fs \<le> unat (chunkNum ?g) * ?K"
  proof (cases "unat fs = 0")
    case False
    then have "0 < ?K" by (simp add: unat_chunkSize eff_chunk_def)
    then show ?thesis using chunk_count_bounds(2) [of "unat fs" ?K] False chunkNum_small(2) [OF assms(1), of s cs bo ub] by simp
  qed simp
  then have "take (unat (chunkNum ?g) * ?K) bytes = bytes" using assms(2) by simp
  finally show ?thesis .
qed

section \<open>Properties\<close>

text \<open>
  C30. An upload to a storage node that succeeds delivers the file: after the session, nothing but
  chunks is sent, and they, with every run of retries of one chunk counted once, are the bytes of the
  file in their order, whichever requests failed in between. The node is taken to read the body
  of what it accepts.
\<close>

theorem remote_upload_delivers:
  assumes "unat (fst_Size file) < 2 ^ 63" and "unat (p_ChunkSize pol) < 2 ^ 63"
    and "length (fst_File file) = unat (fst_Size file)"
    and "\<forall>sid ow i len k b. fst (uploadChunk E sid ow i len k b) = None \<longrightarrow> length b \<le> snd (uploadChunk E sid ow i len k b)"
    and "remote_Upload E seekF tseekF pol can_seek file = (None, sent)"
  shows "\<exists>posts. sent = PutSession (client_session E file pol) # map (\<lambda>(i, b). PostChunk (re_uuid E) i b) posts \<and>
    concat (map snd (remdups_adj posts)) = fst_File file"
proof -
  let ?g = "NewGroup \<lparr>content = fst_File file, pos = 0, seekable = can_seek\<rparr> (fst_Size file) (p_ChunkSize pol)
      \<lparr>Max = re_setting E ''chunk_retries'' 5, tried = 0\<rparr> (re_buffer E)"
  obtain posts k where l: "upload_loop E (re_uuid E) (has_mode (fst_Mode file) Overwrite) seekF tseekF 1 ?g = (None, posts, k)"
    and s: "sent = PutSession (client_session E file pol) # map (\<lambda>(i, b). PostChunk (re_uuid E) i b) posts"
    using assms(5) by (auto simp: remote_Upload_def Let_def client_session_def split: option.splits prod.splits)
  have "between ?g (fst_File file) 0 ?g" by (simp add: between_def NewGroup_fields)
  from upload_loop_posts [OF assms(1-3) _ this l] assms(4)
  have "remdups_adj posts = map (\<lambda>j. (int j, file_chunk ?g (fst_File file) j)) [0..<unat (chunkNum ?g)]" by blast
  then have "map snd (remdups_adj posts) = map (file_chunk ?g (fst_File file)) [0..<unat (chunkNum ?g)]" by simp
  with concat_file_chunks [OF assms(1,3)] s show ?thesis by auto
qed

text \<open>A node that rejects the second request, and a file of three bytes in chunks of two.\<close>

definition flaky_node :: "unit remote_env" where
  "flaky_node = \<lparr>re_send = (\<lambda>k m t b opts. (Inr \<lparr>hr_StatusCode = (if k = 1 then 500 else 200), hr_Body = Inr []\<rparr>, length b)),
     re_unmarshal = (\<lambda>s. Inr \<lparr>sr_Code = 0, sr_Data = ()\<rparr>), re_marshal = (\<lambda>s ttl ow. Inr []), re_uuid = ''u'',
     re_setting = (\<lambda>n d. d), re_buffer = True\<rparr>"

definition three_bytes :: file_stream where
  "three_bytes = zero_stream\<lparr>fst_File := ''abc'', fst_Size := 3\<rparr>"

definition by_two :: policy where
  "by_two = zero_policy\<lparr>p_ChunkSize := 2\<rparr>"

theorem remote_upload_delivers_witness:
  "\<exists>sent posts. remote_Upload flaky_node (\<lambda>_. False) False by_two False three_bytes = (None, sent) \<and>
    sent = PutSession (client_session flaky_node three_bytes by_two) # map (\<lambda>(i, b). PostChunk (re_uuid flaky_node) i b) posts \<and>
    concat (map snd (remdups_adj posts)) = ''abc''"
proof -
  have r: "fst (uploadChunk flaky_node sid ow i len k b) = None \<longrightarrow> length b \<le> snd (uploadChunk flaky_node sid ow i len k b)"
    for sid ow i len k b
    by (simp add: uploadChunk_def flaky_node_def node_answer_def DecodeResponse_def CheckHTTPResponse_def GetResponse_def)
  have "fst (remote_Upload flaky_node (\<lambda>_. False) False by_two False three_bytes) = None"
    by (simp add: remote_Upload_def flaky_node_def by_two_def three_bytes_def zero_stream_def zero_policy_def
        remote_CreateUploadSession_def node_answer_def DecodeResponse_def CheckHTTPResponse_def GetResponse_def
        checked_response_def client_session_def upload_loop.simps Process.simps uploadChunk_def Next_def NewGroup_def
        Index_def Length_def Start_def openTemp_def teed_def consume_def offered_def TempAvailable_def closeTemp_def
        backoff_Next_def backoff_Reset_def Let_def)
  then obtain sent where s: "remote_Upload flaky_node (\<lambda>_. False) False by_two False three_bytes = (None, sent)"
    by (metis prod.collapse)
  have "length (fst_File three_bytes) = unat (fst_Size three_bytes)" by (simp add: three_bytes_def)
  moreover have "fst_Size three_bytes = 3" "p_ChunkSize by_two = 2" "fst_File three_bytes = ''abc''"
    by (simp_all add: three_bytes_def by_two_def)
  ultimately show ?thesis using remote_upload_delivers [OF _ _ _ _ s] r s by simp
qed

end
