(* ===== verification/ShadowDriver.thy ===== *)
theory ShadowDriver
  imports RemoteClient MessageQueue
begin

text \<open>
  \<open>pkg/filesystem/driver/shadow/slaveinmaster\<close>: the driver that lets a slave move a file of its own to
  a storage policy. It subscribes to the result, asks the slave, and waits. The HTTP client, the
  encoding of the request and the hash are parameters; so is the wait (\<open>sh_wait\<close>), which gives the
  message that came, if any before the time is over, and what happened to the queue meanwhile.
\<close>

datatype shadow_error =
    ErrNotImplemented
  | ErrSlaveSrcPathNotExist
  | ErrWaitResultTimeout
  | ShadowMarshal
  | ShadowAnswer cluster_error
  | ShadowTransfer gostring

text \<open>The request (\<open>serializer/slave.go\<close>), and the result, \<open>None\<close> when the content is none.\<close>

record transfer_req =
  tq_Src :: gostring
  tq_Dst :: gostring
  tq_Policy :: policy

type_synonym transfer_result = "gostring option"

record ('d) shadow_env =
  sh_marshal :: "transfer_req \<Rightarrow> gostring + gostring"
  sh_send :: "gostring \<Rightarrow> gostring \<Rightarrow> gostring \<Rightarrow> gostring + http_response"
  sh_unmarshal :: "gostring \<Rightarrow> gostring + 'd site_response"
  sh_sha1 :: "gostring \<Rightarrow> gostring"
  sh_siteID :: gostring
  sh_wait :: "chan \<Rightarrow> transfer_result queue \<Rightarrow> transfer_result message option \<times> transfer_result queue"

definition transfer_Hash :: "(gostring \<Rightarrow> gostring) \<Rightarrow> gostring \<Rightarrow> transfer_req \<Rightarrow> gostring" where
  "transfer_Hash h i s =
     h (''transfer-'' @ i @ ''-'' @ tq_Src s @ ''-'' @ tq_Dst s @ ''-'' @ formatNat (p_ID (tq_Policy s)))"

text \<open>
  \<open>Put\<close>; a panic, the inner \<open>None\<close>, unwinds through the deferred \<open>Unsubscribe\<close>.
\<close>

definition shadow_Put ::
  "'d shadow_env \<Rightarrow> policy \<Rightarrow> file_stream \<Rightarrow> transfer_result queue \<Rightarrow>
   shadow_error option option \<times> transfer_result queue" where
  "shadow_Put E pol file q =
     (let req = \<lparr>tq_Src = fst_Src file, tq_Dst = fst_SavePath file, tq_Policy = pol\<rparr> in
      case sh_marshal E req of
        Inl _ \<Rightarrow> (Some (Some ShadowMarshal), q)
      | Inr body \<Rightarrow>
          (let topic = transfer_Hash (sh_sha1 E) (sh_siteID E) req;
               (resChan, q1) = Subscribe topic 0 q
           in case checked_response (DecodeResponse (sh_unmarshal E)
                     (CheckHTTPResponse 200 (sh_send E ''PUT'' ''task/transfer'' body))) of
                Inl e \<Rightarrow> (Some (Some (ShadowAnswer e)), Unsubscribe topic resChan q1)
              | Inr _ \<Rightarrow>
                  (case sh_wait E resChan q1 of
                     (None, q2) \<Rightarrow> (Some (Some ErrWaitResultTimeout), Unsubscribe topic resChan q2)
                   | (Some msg, q2) \<Rightarrow>
                       (if Event msg \<noteq> ''success'' then map_option (\<lambda>e. Some (ShadowTransfer e)) (MsgContent msg) else Some None,
                        Unsubscribe topic resChan q2))))"

text \<open>The other operations: deleting is the wrapped driver's.\<close>

definition shadow_Delete :: "(gostring list \<Rightarrow> 'w \<Rightarrow> 'r \<times> 'w) \<Rightarrow> gostring list \<Rightarrow> 'w \<Rightarrow> 'r \<times> 'w" where
  "shadow_Delete handler_Delete fls w = handler_Delete fls w"

definition shadow_Get :: "gostring \<Rightarrow> shadow_error option" where "shadow_Get path = Some ErrNotImplemented"
definition shadow_Thumb :: "gostring \<Rightarrow> shadow_error option" where "shadow_Thumb path = Some ErrNotImplemented"
definition shadow_Source :: "gostring \<Rightarrow> shadow_error option" where "shadow_Source path = Some ErrNotImplemented"
definition shadow_Token :: "upload_session \<Rightarrow> shadow_error option" where "shadow_Token session = Some ErrNotImplemented"
definition shadow_CancelToken :: "upload_session \<Rightarrow> shadow_error option" where "shadow_CancelToken session = None"
definition shadow_List :: "gostring \<Rightarrow> shadow_error option" where "shadow_List path = Some ErrNotImplemented"

text \<open>
  \<open>NewDriver\<close>: the options of its client. \<open>resolve\<close> gives the URL of the API on the server of the node;
  without one, the endpoint is nil and printing it panics.
\<close>

definition shadow_NewDriver ::
  "(gostring \<Rightarrow> gostring option) \<Rightarrow> (gostring \<Rightarrow> gostring option) \<Rightarrow> auth \<Rightarrow> (gostring \<Rightarrow> int \<Rightarrow> int) \<Rightarrow> gostring \<Rightarrow>
   client_options option" where
  "shadow_NewDriver parse resolve slaveAuth setting server =
     (let signTTL = setting ''slave_api_timeout'' 60 in
      map_option (\<lambda>endpoint. NewClient
        [WithMasterMeta, WithTimeout signTTL, WithCredential slaveAuth signTTL, WithEndpoint parse endpoint])
        (resolve server))"

text \<open>
  The wait is over one way or another, and no subscription is left: on every path the topics are
  those the queue had after the wait, without the channel of the result.
\<close>

lemma shadow_Put_unsubscribes:
  assumes "shadow_Put E pol file q = (r, q')" and "r \<noteq> Some (Some ShadowMarshal)"
    and "mq_topics q' (transfer_Hash (sh_sha1 E) (sh_siteID E) \<lparr>tq_Src = fst_Src file, tq_Dst = fst_SavePath file, tq_Policy = pol\<rparr>) = Some cs"
  shows "mq_brk q \<notin> set cs"
  using assms
  by (auto simp: shadow_Put_def Let_def Unsubscribe_def Subscribe_def append_at_def split: sum.splits prod.splits option.splits if_splits)

text \<open>The result is subscribed to before the slave is asked, so a result that comes early is offered too.\<close>

lemma shadow_Put_early_result:
  assumes "snd (Subscribe topic 0 q) = q1"
  shows "\<exists>cs. (cs, m) \<in> set (mq_sends (Publish topic m q1)) \<and> mq_brk q \<in> set cs"
  by (rule exI [of _ "(case mq_topics q topic of None \<Rightarrow> [] | Some vs \<Rightarrow> vs) @ [mq_brk q]"])
    (use assms in \<open>auto simp: Subscribe_def Publish_def append_at_def Let_def split: option.splits\<close>)

end
