(* ===== verification/Spec2Isabelle.thy ===== *)
theory Spec2Isabelle
  imports
  Aria2 Balancer ChunkUpload Cluster Db FsArchive FsCore FsDelete FsManage FsObjects FsPaths FsUpload GoLib HmacAuth HttpClient LocalDriver LockHeap LockInvariant LockRefinement MemoCache MessageQueue Middleware ModelsFile ModelsFolder ModelsNode ModelsPolicy ModelsShare ModelsUser NodePool Prelude ServiceAdmin ServiceCore ServiceExplorer ServiceBrowse ServiceProps AdminProps ServiceShare ServiceUser TaskPool Utils WebdavHandler WebdavIf WebdavLock WebdavProps WebdavXml XmlTables XmlDecoder XmlText XmlProps XmlEncoder XmlEncoderProps XmlRoundTrip XmlReader RedisStore RemoteClient ShadowDriver
begin

text \<open>
  \<^bold>\<open>A file-hosting server\<close> (\<open>jylc/cloudserver\<close>, in Go). Users keep files in folders; the rows are
  in a database, the contents on storage policies (a local disk, or a remote store). Files are
  reached through an HTTP API, through shares, and through WebDAV.

  \<^bold>\<open>How the parts interact.\<close> A request passes the middleware (\<open>middleware/\<close>: session, signature,
  WebDAV credentials, share), and a service (\<open>service/\<close>) builds a \<open>FileSystem\<close> for its user
  (\<open>pkg/filesystem/\<close>). The file system resolves paths, works on rows through the models
  (\<open>models/\<close>, over gorm), moves contents through a driver, and runs the hooks an upload
  registered. Settings, upload sessions and policies are cached (\<open>pkg/cache/\<close>). Large contents
  go in chunks (\<open>pkg/filesystem/chunk/\<close>). WebDAV (\<open>pkg/webdav/\<close>) is a second front end on the
  same file system, with an XML library of its own (\<open>pkg/webdav/internal/xml\<close>, a fork of Go's).
  Offline downloads and archives are tasks (\<open>pkg/task/\<close>) that workers run, on nodes of a pool
  (\<open>pkg/cluster/\<close>) which a master reaches over signed requests (\<open>pkg/request/\<close>), announced over a
  queue of messages (\<open>pkg/mq/\<close>).

  \<^bold>\<open>Theories and code.\<close>
  \<^item> \<open>Prelude\<close>, \<open>GoLib\<close>: integers, lists, strings, and what the code uses of Go's \<open>strings\<close>,
    \<open>strconv\<close> and \<open>path\<close>; \<open>uint\<close> identifiers are \<open>nat\<close>, sizes are 64-bit words.
  \<^item> \<open>Utils\<close> (\<open>pkg/utils\<close>, \<open>pkg/hashid\<close>, name rules of \<open>models/policy.go\<close>).
  \<^item> \<open>Db\<close>: the structs of \<open>models/\<close> as records (fields named after the code's, with a prefix), the
    tables as lists, and the locale \<open>gorm_table\<close>: what the code relies on of gorm, a third-party
    package, whose statements are a parameter (\<open>gorm\<close>) of every operation. \<open>mem_gorm\<close> interprets it.
  \<^item> \<open>ModelsFile\<close>, \<open>ModelsFolder\<close>, \<open>ModelsUser\<close>, \<open>ModelsShare\<close>, \<open>ModelsNode\<close>, \<open>ModelsPolicy\<close>: the
    operations of \<open>models/*.go\<close>, with the error of each statement as a value.
  \<^item> \<open>MemoCache\<close> and \<open>RedisStore\<close> (\<open>pkg/cache\<close>; a redis server is a parameter that answers
    commands), \<open>HmacAuth\<close> (\<open>pkg/auth\<close>), \<open>Balancer\<close> (\<open>pkg/balancer\<close>), \<open>HttpClient\<close> (\<open>pkg/request\<close>),
    \<open>ChunkUpload\<close> (\<open>pkg/filesystem/chunk\<close>), \<open>LocalDriver\<close>, \<open>RemoteClient\<close>, \<open>ShadowDriver\<close>
    (\<open>pkg/filesystem/driver\<close>: \<open>local\<close>, with copies that can fail and leave part of the data;
    \<open>remote\<close>, with chunks sent again after a failure; \<open>shadow\<close>).
  \<^item> \<open>FsCore\<close> (\<open>filesystem.go\<close>, \<open>path.go\<close>, \<open>errors.go\<close>: the state \<open>world\<close> of a file system is the
    struct's fields with database, cache and disk), \<open>FsManage\<close> (\<open>manage.go\<close>), \<open>FsUpload\<close>
    (\<open>upload.go\<close>, \<open>file.go\<close>, \<open>hooks.go\<close>), \<open>FsArchive\<close> (\<open>archive.go\<close>, over a zip writer that can
    refuse an entry or cut it off); \<open>FsDelete\<close>, \<open>FsObjects\<close>, \<open>FsPaths\<close> hold what is proved of them.
  \<^item> \<open>Middleware\<close> (\<open>middleware/*.go\<close>), \<open>ServiceCore\<close>, \<open>ServiceExplorer\<close>, \<open>ServiceBrowse\<close>,
    \<open>ServiceShare\<close>, \<open>ServiceUser\<close>, \<open>ServiceAdmin\<close> (\<open>service/\<close>, \<open>pkg/serializer\<close>); \<open>ServiceProps\<close> and
    \<open>AdminProps\<close> hold what is proved across them.
  \<^item> \<open>LockHeap\<close>, \<open>WebdavLock\<close> (\<open>pkg/webdav/lock.go\<close>: nodes in an explicit store, because the
    maps and the heap of expiries share them), \<open>LockInvariant\<close>, \<open>LockRefinement\<close>; \<open>WebdavIf\<close>
    (\<open>if.go\<close>), \<open>WebdavXml\<close> (\<open>xml.go\<close>, \<open>prop.go\<close>), \<open>WebdavHandler\<close> (\<open>webdav.go\<close>, \<open>file.go\<close>,
    \<open>controllers/webdav.go\<close>), \<open>WebdavProps\<close>.
  \<^item> \<open>XmlTables\<close>, \<open>XmlDecoder\<close>, \<open>XmlEncoder\<close> (\<open>pkg/webdav/internal/xml/xml.go\<close> and \<open>marshal.go\<close>: every
    byte of the decoder and the encoder of tokens), \<open>XmlText\<close> (what is escaped is read back),
    \<open>XmlProps\<close>, \<open>XmlEncoderProps\<close>, \<open>XmlRoundTrip\<close>, and \<open>XmlReader\<close> (\<open>read.go\<close> without reflection,
    and the values \<open>pkg/webdav/xml.go\<close> decodes itself).
  \<^item> \<open>MessageQueue\<close> (\<open>pkg/mq\<close>), \<open>NodePool\<close>, \<open>Cluster\<close> (\<open>pkg/cluster\<close>), \<open>TaskPool\<close> (\<open>pkg/task\<close>),
    \<open>Aria2\<close> (\<open>pkg/aria2/monitor\<close>, \<open>pkg/aria2/common\<close>, \<open>service/aria2\<close>).

  \<^bold>\<open>Conventions.\<close> A fallible call gives a sum (\<open>Inl\<close> the error); a panic, or a call that does not
  return, is \<open>None\<close>, or \<open>ErrPanic\<close> among the errors of the file system. What the repository does
  not hold (gorm, JSON, hashes, the hash-id codec, the operating system, the clock, random
  numbers, the order of a map's keys) is a parameter. Log messages are left out.

  \<^bold>\<open>Concurrency.\<close> Code that runs in several goroutines is a step relation whose steps are what one
  goroutine does between taking and leaving a lock, in any order: the pool of nodes (\<open>pool_step\<close>;
  a report changes the maps, leaves the lock, and rebuilds the index later), the pool of tasks
  (\<open>task_run\<close>; goroutines wait for a token, run and give it back) and the queue (\<open>mq_step\<close>; who
  subscribed is kept by the clients and not read off the queue). Lock system and caches are
  sequences of operations, as each holds its lock throughout.

  \<^bold>\<open>What is proved.\<close> A user's storage counter is the sum of the user's files, and stays it through
  creating, resizing, copying and deleting; folders stay a tree under moves (and do not, when a
  folder moves below itself); copies are complete when the listing below the source succeeds;
  listings, searches and paths are those of the tree; chunks cut a file without gap or overlap,
  the server expects those chunks, the local driver puts them together and the remote one
  delivers them in spite of failures; requests signed are accepted; a session belongs to a user
  only by the user's password; shares are downloaded no more often than allowed and reveal
  nothing but their time while locked; archives hold what is below the folder they are made for,
  and unpacking stays below its destination; no two locks of WebDAV conflict, every lock
  operation returns and refines a specification on sets of locks; an account of WebDAV stays
  below its root; requests that read change nothing; the tokens of XML are nested, name spaces
  end with their element, what the encoder writes the decoder reads, and the value of a property
  keeps its contents; the parser of \<open>If\<close> headers inverts printing; a subscriber gets no message
  twice and none it did not ask for; tasks do not exceed the workers, and a worker leaves its task
  settled; balancing is fair, and picks nodes that are alive. The properties marked as errors
  prove where the code fails what it means.

  \<^bold>\<open>Bounds and fuel.\<close> Loops end by a measure (paths shorten, parsers consume, back-off counts), with
  three exceptions: \<open>GetRecursiveChildFolder\<close> follows the code's limit of levels;
  \<open>run_hook\<close> unfolds hooks that upload to a depth of 2, which is all the hooks of the code
  nest; \<open>walkFS\<close> and \<open>doCompress\<close> take a number of levels and give \<open>None\<close> below it, since a
  cycle of folders would never end: a number above the height of every folder is enough, which
  \<open>Compress_only_below\<close> states for packing.

  \<^bold>\<open>Not modelled.\<close> \<open>Marshal\<close> and \<open>Unmarshal\<close> of the XML library work by reflection on Go structs;
  what they are used for is modelled where the handlers call them. \<open>pkg/aria2/rpc\<close> is a
  third-party client. The drivers \<open>onedrive\<close> and \<open>cos\<close>, \<open>pkg/email\<close>, \<open>pkg/thumb\<close>, \<open>pkg/conf\<close>,
  \<open>pkg/crontab\<close>, \<open>pkg/authn\<close>, \<open>bootstrap\<close>, \<open>routers\<close> and the other controllers call libraries and
  services over the network, read the configuration, or bind handlers to routes. Fields of
  \<open>OptionsSerialized\<close> are kept in the rows although nothing in the repository loads them from
  their column.
\<close>

end
